(* ===== verification/Prelude.thy ===== *)
theory Prelude
  imports Main "HOL-Library.Multiset" "HOL-Library.Sublist" "HOL-Library.List_Lexorder"
    "HOL-Library.Char_ord" "HOL-Library.Product_Lexorder"
begin

text \<open>
  Shared vocabulary of the development: the pieces of Python's standard library the
  modelled modules use (string methods on ASCII text, decimal rendering, ordered
  dictionaries with \<open>setdefault\<close>, stable sorting by a key), and the generic lemmas on
  lists, multisets and dictionaries the component proofs are built from.

  Text is \<open>char list\<close>. Names, labels and namespaces are taken to be ASCII, so a
  character is one code point and \<open>lower\<close>, \<open>isdigit\<close>, \<open>isalnum\<close> and the regular
  expression classes are the ASCII ones.
\<close>

named_theorems dict_simps \<open>equations about ordered dictionaries\<close>
named_theorems conserve \<open>operations that neither lose nor duplicate virtual machines\<close>

section \<open>Characters and strings\<close>

definition is_digit :: "char \<Rightarrow> bool" where
  "is_digit c \<longleftrightarrow> (48::nat) \<le> of_char c \<and> of_char c \<le> (57::nat)"

definition is_upper :: "char \<Rightarrow> bool" where
  "is_upper c \<longleftrightarrow> (65::nat) \<le> of_char c \<and> of_char c \<le> (90::nat)"

definition is_lower :: "char \<Rightarrow> bool" where
  "is_lower c \<longleftrightarrow> (97::nat) \<le> of_char c \<and> of_char c \<le> (122::nat)"

definition is_alpha :: "char \<Rightarrow> bool" where
  "is_alpha c \<longleftrightarrow> is_upper c \<or> is_lower c"

definition is_alnum :: "char \<Rightarrow> bool" where
  "is_alnum c \<longleftrightarrow> is_alpha c \<or> is_digit c"

definition is_space :: "char \<Rightarrow> bool" where
  "is_space c \<longleftrightarrow> (let n = (of_char c :: nat)
     in n = 32 \<or> (9 \<le> n \<and> n \<le> 13) \<or> (28 \<le> n \<and> n \<le> 31))"

text \<open>A \<open>\w\<close> character of a regular expression.\<close>

definition is_word :: "char \<Rightarrow> bool" where
  "is_word c \<longleftrightarrow> is_alnum c \<or> c = CHR ''_''"

definition lower_char :: "char \<Rightarrow> char" where
  "lower_char c = (if is_upper c then char_of (of_char c + 32 :: nat) else c)"

definition upper_char :: "char \<Rightarrow> char" where
  "upper_char c = (if is_lower c then char_of (of_char c - 32 :: nat) else c)"

definition str_lower :: "string \<Rightarrow> string" where
  "str_lower s = map lower_char s"

definition str_upper :: "string \<Rightarrow> string" where
  "str_upper s = map upper_char s"

text \<open>\<open>str.isdigit\<close>: false on the empty string.\<close>

definition str_isdigit :: "string \<Rightarrow> bool" where
  "str_isdigit s \<longleftrightarrow> s \<noteq> [] \<and> list_all is_digit s"

definition rstrip_by :: "(char \<Rightarrow> bool) \<Rightarrow> string \<Rightarrow> string" where
  "rstrip_by p s = rev (dropWhile p (rev s))"

definition strip_by :: "(char \<Rightarrow> bool) \<Rightarrow> string \<Rightarrow> string" where
  "strip_by p s = rstrip_by p (dropWhile p s)"

definition str_strip :: "string \<Rightarrow> string" where
  "str_strip s = strip_by is_space s"

definition starts_with :: "string \<Rightarrow> string \<Rightarrow> bool" where
  "starts_with p s \<longleftrightarrow> take (length p) s = p"

text \<open>\<open>sub in s\<close>.\<close>

fun contains_str :: "string \<Rightarrow> string \<Rightarrow> bool" where
  "contains_str sub [] = (sub = [])"
| "contains_str sub (c # cs) = (starts_with sub (c # cs) \<or> contains_str sub cs)"

text \<open>\<open>s.find(sub)\<close>, with \<open>None\<close> for -1.\<close>

fun find_str :: "string \<Rightarrow> string \<Rightarrow> nat option" where
  "find_str sub [] = (if sub = [] then Some 0 else None)"
| "find_str sub (c # cs) =
     (if starts_with sub (c # cs) then Some 0 else map_option Suc (find_str sub cs))"

text \<open>Splitting at every character of a class, as \<open>re.split(r"[-_]", s)\<close> does.\<close>

fun split_on :: "(char \<Rightarrow> bool) \<Rightarrow> string \<Rightarrow> string list" where
  "split_on p [] = [[]]"
| "split_on p (c # cs) =
     (if p c then [] # split_on p cs
      else (case split_on p cs of [] \<Rightarrow> [[c]] | w # ws \<Rightarrow> (c # w) # ws))"

fun join_with :: "string \<Rightarrow> string list \<Rightarrow> string" where
  "join_with sep [] = []"
| "join_with sep [s] = s"
| "join_with sep (s # t # ts) = s @ sep @ join_with sep (t # ts)"

text \<open>A regular expression anchored with \<open>$\<close> also matches before a final newline.\<close>

definition matches_to_end :: "(string \<Rightarrow> bool) \<Rightarrow> string \<Rightarrow> bool" where
  "matches_to_end p s \<longleftrightarrow> p s \<or> (s \<noteq> [] \<and> last s = CHR 0x0A \<and> p (butlast s))"

text \<open>\<open>dict.fromkeys(xs)\<close> as a list: the first occurrences, in order.\<close>

definition unique_in_order :: "'a list \<Rightarrow> 'a list" where
  "unique_in_order xs = rev (remdups (rev xs))"

lemma set_unique_in_order [simp]: "set (unique_in_order xs) = set xs"
  by (simp add: unique_in_order_def)

lemma distinct_unique_in_order [simp]: "distinct (unique_in_order xs)"
  by (simp add: unique_in_order_def)

lemma unique_in_order_id: "distinct xs \<Longrightarrow> unique_in_order xs = xs"
  by (simp add: unique_in_order_def distinct_remdups_id)

text \<open>\<open>x or ""\<close> on an optional string.\<close>

definition or_empty :: "string option \<Rightarrow> string" where
  "or_empty x = (case x of None \<Rightarrow> [] | Some s \<Rightarrow> s)"

lemma or_empty_simps [simp]: "or_empty None = []" "or_empty (Some s) = s"
  by (simp_all add: or_empty_def)

text \<open>
  Python's truth value of an optional string: neither \<open>None\<close> nor empty.
\<close>

definition truthy :: "string option \<Rightarrow> bool" where
  "truthy x \<longleftrightarrow> or_empty x \<noteq> []"

lemma split_on_nonempty [simp]: "split_on p s \<noteq> []"
  by (induction s) (auto split: list.splits)

lemma starts_with_iff: "starts_with p s \<longleftrightarrow> (\<exists>r. s = p @ r)"
proof
  assume "starts_with p s"
  then show "\<exists>r. s = p @ r"
    unfolding starts_with_def by (metis append_take_drop_id)
qed (auto simp: starts_with_def)

lemma contains_str_iff: "contains_str sub s \<longleftrightarrow> (\<exists>l r. s = l @ sub @ r)"
proof (induction s)
  case Nil
  then show ?case by auto
next
  case (Cons c cs)
  have "(\<exists>l r. c # cs = l @ sub @ r) \<longleftrightarrow>
        (\<exists>r. c # cs = sub @ r) \<or> (\<exists>l r. cs = l @ sub @ r)" (is "?L \<longleftrightarrow> ?R")
  proof
    assume ?L
    then obtain l r where "c # cs = l @ sub @ r" by blast
    then show ?R by (cases l) auto
  next
    assume ?R
    then show ?L by (metis append_Cons append_Nil)
  qed
  with Cons show ?case by (simp add: starts_with_iff)
qed

subsection \<open>Case mapping\<close>

lemma of_char_lower_char:
  "(of_char (lower_char c) :: nat) = (if is_upper c then of_char c + 32 else of_char c)"
  by (auto simp: lower_char_def is_upper_def)

lemma of_char_upper_char:
  "(of_char (upper_char c) :: nat) = (if is_lower c then of_char c - 32 else of_char c)"
proof -
  have "(of_char c :: nat) - 32 < 256" by (rule le_less_trans [of _ "of_char c"]) auto
  then show ?thesis by (auto simp: upper_char_def)
qed

lemma char_eq_nat: "c = d \<longleftrightarrow> (of_char c :: nat) = of_char d"
  by (simp add: of_char_eq_iff)

lemma lower_lower [simp]: "lower_char (lower_char c) = lower_char c"
  by (simp add: char_eq_nat of_char_lower_char is_upper_def)

lemma upper_lower [simp]: "upper_char (lower_char c) = upper_char c"
  by (auto simp: char_eq_nat of_char_lower_char of_char_upper_char is_upper_def is_lower_def)

lemma lower_upper [simp]: "lower_char (upper_char c) = lower_char c"
  by (auto simp: char_eq_nat of_char_lower_char of_char_upper_char is_upper_def is_lower_def)

lemma is_digit_lower [simp]: "is_digit (lower_char c) = is_digit c"
  by (auto simp: is_digit_def of_char_lower_char is_upper_def)

lemma str_lower_simps [simp]:
  "str_lower [] = []" "str_lower (c # s) = lower_char c # str_lower s"
  "str_lower (s @ t) = str_lower s @ str_lower t" "str_lower (str_lower s) = str_lower s"
  "str_upper (str_lower s) = str_upper s" "str_lower (str_upper s) = str_lower s"
  "str_upper [] = []" "length (str_lower s) = length s" "str_lower s = [] \<longleftrightarrow> s = []"
  by (simp_all add: str_lower_def str_upper_def)

lemma str_isdigit_lower [simp]: "str_isdigit (str_lower s) = str_isdigit s"
  by (simp add: str_isdigit_def list_all_iff str_lower_def)

subsection \<open>Decimal rendering\<close>

definition digit_char :: "nat \<Rightarrow> char" where
  "digit_char d = char_of (48 + d)"

fun show_nat :: "nat \<Rightarrow> string" where
  "show_nat n = (if n < 10 then [digit_char n] else show_nat (n div 10) @ [digit_char (n mod 10)])"

declare show_nat.simps [simp del]

definition show_int :: "int \<Rightarrow> string" where
  "show_int i = (if i < 0 then CHR ''-'' # show_nat (nat (- i)) else show_nat (nat i))"

definition read_nat :: "string \<Rightarrow> nat" where
  "read_nat s = foldl (\<lambda>a c. 10 * a + (of_char c - 48)) 0 s"

lemma of_char_digit_char [simp]: "d < 10 \<Longrightarrow> of_char (digit_char d) = 48 + d"
  by (simp add: digit_char_def)

lemma is_digit_digit_char [simp]: "d < 10 \<Longrightarrow> is_digit (digit_char d)"
  by (simp add: is_digit_def)

lemma read_show_nat: "read_nat (show_nat n) = n"
proof (induction n rule: show_nat.induct)
  case (1 n)
  show ?case
  proof (cases "n < 10")
    case True
    then show ?thesis by (simp add: show_nat.simps [of n] read_nat_def)
  next
    case False
    with 1 have "read_nat (show_nat (n div 10)) = n div 10" by simp
    with False show ?thesis
      by (simp add: show_nat.simps [of n] read_nat_def)
  qed
qed

lemma show_nat_inj [simp]: "show_nat m = show_nat n \<longleftrightarrow> m = n"
  by (metis read_show_nat)

lemma show_nat_nonempty [simp]: "show_nat n \<noteq> []"
  by (simp add: show_nat.simps [of n])

lemma show_nat_digits: "list_all is_digit (show_nat n)"
proof (induction n rule: show_nat.induct)
  case (1 n)
  then show ?case by (simp add: show_nat.simps [of n])
qed

lemma minus_not_digit [simp]: "\<not> is_digit (CHR ''-'')"
  by (simp add: is_digit_def)

lemma show_nat_no_minus: "show_nat n \<noteq> CHR ''-'' # s"
  using show_nat_digits [of n] by auto

lemma show_int_inj [simp]: "show_int i = show_int j \<longleftrightarrow> i = j"
  by (auto simp: show_int_def show_nat_no_minus show_nat_no_minus [symmetric])

section \<open>Ordered dictionaries\<close>

text \<open>
  A Python dict iterates in insertion order, so where the order reaches the result a dict
  is an association list: overwriting keeps the position, a new key goes to the end.
\<close>

fun dict_get :: "('k \<times> 'v) list \<Rightarrow> 'k \<Rightarrow> 'v option" where
  "dict_get [] k = None"
| "dict_get ((k', v) # d) k = (if k' = k then Some v else dict_get d k)"

fun dict_set :: "'k \<Rightarrow> 'v \<Rightarrow> ('k \<times> 'v) list \<Rightarrow> ('k \<times> 'v) list" where
  "dict_set k v [] = [(k, v)]"
| "dict_set k v ((k', v') # d) = (if k' = k then (k', v) # d else (k', v') # dict_set k v d)"

definition dict_has :: "('k \<times> 'v) list \<Rightarrow> 'k \<Rightarrow> bool" where
  "dict_has d k \<longleftrightarrow> dict_get d k \<noteq> None"

definition dict_get_or :: "('k \<times> 'v) list \<Rightarrow> 'k \<Rightarrow> 'v \<Rightarrow> 'v" where
  "dict_get_or d k v = (case dict_get d k of None \<Rightarrow> v | Some w \<Rightarrow> w)"

text \<open>\<open>d.setdefault(k, []).append(v)\<close>, and the grouping loop built from it.\<close>

fun dict_append :: "'k \<Rightarrow> 'v \<Rightarrow> ('k \<times> 'v list) list \<Rightarrow> ('k \<times> 'v list) list" where
  "dict_append k v [] = [(k, [v])]"
| "dict_append k v ((k', vs) # d) =
     (if k' = k then (k', vs @ [v]) # d else (k', vs) # dict_append k v d)"

definition group_by_key :: "('a \<Rightarrow> 'k) \<Rightarrow> 'a list \<Rightarrow> ('k \<times> 'a list) list" where
  "group_by_key f xs = fold (\<lambda>x d. dict_append (f x) x d) xs []"

lemma dict_get_set [dict_simps, simp]: "dict_get (dict_set k v d) k' = (if k = k' then Some v else dict_get d k')"
  by (induction d) auto

lemma dict_get_eq_map_of: "dict_get d = map_of d"
proof
  show "dict_get d k = map_of d k" for k by (induction d) auto
qed

lemma keys_dict_set [dict_simps]: "set (map fst (dict_set k v d)) = insert k (set (map fst d))"
  by (induction k v d rule: dict_set.induct) (simp_all add: insert_commute)

lemma dict_has_iff: "dict_has d k \<longleftrightarrow> k \<in> set (map fst d)"
  by (induction d) (auto simp: dict_has_def)

lemma distinct_dict_set: "distinct (map fst d) \<Longrightarrow> distinct (map fst (dict_set k v d))"
proof (induction d)
  case (Cons p d)
  have "set (map fst (dict_set k v d)) = insert k (set (map fst d))"
    by (rule keys_dict_set)
  with Cons show ?case by (cases p) auto
qed simp

lemma dict_has_set [simp]: "dict_has (dict_set k v d) k' \<longleftrightarrow> k = k' \<or> dict_has d k'"
  by (simp add: dict_has_def)

lemma dict_get_iff_mem:
  "distinct (map fst d) \<Longrightarrow> dict_get d k = Some v \<longleftrightarrow> (k, v) \<in> set d"
  by (simp add: dict_get_eq_map_of)

text \<open>The comprehension \<open>{k(x): v(x) for x in xs}\<close>: the last of equal keys wins.\<close>

definition dict_of :: "('a \<Rightarrow> 'k) \<Rightarrow> ('a \<Rightarrow> 'v) \<Rightarrow> 'a list \<Rightarrow> ('k \<times> 'v) list" where
  "dict_of f v xs = fold (\<lambda>x d. dict_set (f x) (v x) d) xs []"

lemma distinct_dict_of [simp]: "distinct (map fst (dict_of f v xs))"
proof -
  have "distinct (map fst d) \<Longrightarrow> distinct (map fst (fold (\<lambda>x d. dict_set (f x) (v x) d) xs d))" for d
    by (induction xs arbitrary: d) (simp_all add: distinct_dict_set)
  then show ?thesis by (simp add: dict_of_def)
qed

lemma find_append:
  "List.find p (xs @ ys) = (case List.find p xs of None \<Rightarrow> List.find p ys | Some x \<Rightarrow> Some x)"
  by (induction xs) auto

lemma dict_get_of:
  "dict_get (dict_of f v xs) k = map_option v (List.find (\<lambda>x. f x = k) (rev xs))"
proof -
  have "dict_get (fold (\<lambda>x d. dict_set (f x) (v x) d) xs d) k =
      (case List.find (\<lambda>x. f x = k) (rev xs) of Some x \<Rightarrow> Some (v x) | None \<Rightarrow> dict_get d k)" for d
    by (induction xs arbitrary: d) (auto simp: find_append split: option.splits)
  then show ?thesis by (simp add: dict_of_def option.case_eq_if map_option_case)
qed

lemma dict_has_of [simp]: "dict_has (dict_of f v xs) k \<longleftrightarrow> k \<in> f ` set xs"
  by (auto simp: dict_has_def dict_get_of find_None_iff)

lemma dict_get_of_Some: "dict_get (dict_of f v xs) k = Some w \<Longrightarrow> \<exists>x\<in>set xs. f x = k \<and> w = v x"
  by (auto simp: dict_get_of find_Some_iff) (metis length_rev nth_mem set_rev)

lemma keys_dict_append [dict_simps]: "set (map fst (dict_append k v d)) = insert k (set (map fst d))"
  by (induction k v d rule: dict_append.induct) (simp_all add: insert_commute)

lemma distinct_dict_append: "distinct (map fst d) \<Longrightarrow> distinct (map fst (dict_append k v d))"
proof (induction d)
  case (Cons p d)
  have "set (map fst (dict_append k v d)) = insert k (set (map fst d))"
    by (rule keys_dict_append)
  with Cons show ?case by (cases p) auto
qed simp

lemma mset_dict_append [conserve]:
  "mset (concat (map snd (dict_append k v d))) = add_mset v (mset (concat (map snd d)))"
  by (induction d) auto

lemma fold_dict_append:
  assumes "distinct (map fst d)"
  shows "distinct (map fst (fold (\<lambda>x d. dict_append (f x) x d) xs d))"
    and "mset (concat (map snd (fold (\<lambda>x d. dict_append (f x) x d) xs d)))
           = mset xs + mset (concat (map snd d))"
  using assms
  by (induction xs arbitrary: d) (auto simp: distinct_dict_append mset_dict_append)

lemma distinct_group_by_key [simp]: "distinct (map fst (group_by_key f xs))"
  unfolding group_by_key_def by (rule fold_dict_append) simp

lemma mset_group_by_key [conserve]: "mset (concat (map snd (group_by_key f xs))) = mset xs"
  unfolding group_by_key_def using fold_dict_append(2) [of "[]" f xs] by simp

text \<open>Every bucket holds exactly the elements with its key, in input order.\<close>

lemma dict_get_append:
  "dict_get (dict_append k v d) k' =
     (if k = k' then Some (dict_get_or d k [] @ [v]) else dict_get d k')"
  by (induction d) (auto simp: dict_get_or_def)

lemma dict_get_fold_append:
  "dict_get (fold (\<lambda>x d. dict_append (f x) x d) xs d) k =
     (let ys = filter (\<lambda>x. f x = k) xs
      in if ys = [] then dict_get d k else Some (dict_get_or d k [] @ ys))"
proof (induction xs arbitrary: d)
  case (Cons x xs)
  show ?case
    by (simp add: Cons.IH Let_def dict_get_append dict_get_or_def split: option.splits)
qed (simp add: Let_def)

lemma dict_get_group_by_key:
  "dict_get (group_by_key f xs) k =
     (let ys = filter (\<lambda>x. f x = k) xs in if ys = [] then None else Some ys)"
  by (simp add: group_by_key_def dict_get_fold_append dict_get_or_def Let_def)

lemma group_by_key_bucket:
  assumes "(k, vs) \<in> set (group_by_key f xs)"
  shows "vs = filter (\<lambda>x. f x = k) xs" and "vs \<noteq> []"
proof -
  have "dict_get (group_by_key f xs) k = Some vs"
    using assms by (simp add: dict_get_eq_map_of)
  then show "vs = filter (\<lambda>x. f x = k) xs" and "vs \<noteq> []"
    by (auto simp: dict_get_group_by_key Let_def split: if_splits)
qed

section \<open>Lists, sums and multisets\<close>

lemma set_map_filter: "set (List.map_filter f xs) = {y. \<exists>x\<in>set xs. f x = Some y}"
  by (induction xs) (auto simp: List.map_filter_def split: option.splits)

lemma sum_list_filter_le: "sum_list (map f (filter p xs)) \<le> sum_list (map (f :: 'a \<Rightarrow> nat) xs)"
  by (induction xs) auto

lemma mset_sort_key_map: "mset (map g (sort_key f xs)) = mset (map g xs)"
  by (simp only: mset_map mset_sort)

lemma mset_concat_perm: "mset xss = mset yss \<Longrightarrow> mset (concat xss) = mset (concat yss)"
  by (simp add: mset_concat flip: sum_mset_sum_list)

lemma mset_concat_map_perm:
  "mset xs = mset ys \<Longrightarrow> mset (concat (map f xs)) = mset (concat (map f ys))"
  by (rule mset_concat_perm) simp

lemma mset_concat_cong:
  "(\<And>x. x \<in> set xs \<Longrightarrow> mset (f x) = mset (g x)) \<Longrightarrow>
     mset (concat (map f xs)) = mset (concat (map g xs))"
  by (induction xs) auto

lemma list_all_mset: "mset xs = mset ys \<Longrightarrow> list_all p xs \<longleftrightarrow> list_all p ys"
  by (metis list_all_iff mset_eq_setD)

lemma filter_key_replicate:
  assumes "inj_on f (set xs)" and "k \<in> set xs"
  shows "filter (\<lambda>y. f k = f y) xs = replicate (count (mset xs) k) k"
proof -
  have "filter (\<lambda>y. f k = f y) xs = filter (HOL.eq k) xs"
    using assms by (intro filter_cong) (auto dest: inj_onD)
  then show ?thesis by (simp add: replicate_count_mset_eq_filter_eq)
qed

text \<open>Sorting by a key that tells the elements apart does not depend on the input order.\<close>

lemma sort_key_perm:
  assumes "mset xs = mset ys" and "inj_on f (set xs)"
  shows "sort_key f xs = sort_key f ys"
proof (rule properties_for_sort_key)
  have sets: "set xs = set ys" using assms(1) by (rule mset_eq_setD)
  show "mset (sort_key f ys) = mset xs" using assms(1) by simp
  show "sorted (map f (sort_key f ys))" by simp
  show "filter (\<lambda>y. f k = f y) (sort_key f ys) = filter (\<lambda>y. f k = f y) xs"
    if "k \<in> set (sort_key f ys)" for k
    using that assms sets
    by (simp add: filter_key_replicate [of f "sort_key f ys"] filter_key_replicate [of f xs])
qed

end
