(* ===== verification/Inventory.thy ===== *)
theory Inventory
  imports Prelude
begin

text \<open>
  The inventory row of a virtual machine (\<open>app/models/vm.py\<close>): the columns the modelled
  modules read, and the plan-membership lifecycle states. Columns only the import or the UI use
  are left out. A nullable column is an option.
\<close>

datatype lifecycle_state = Available | Planned | Migrated | Rolled_back | Unmanageable

text \<open>The string value of the state, as it is written into audit rows.\<close>

fun state_value :: "lifecycle_state \<Rightarrow> string" where
  "state_value Available = ''available''"
| "state_value Planned = ''planned''"
| "state_value Migrated = ''migrated''"
| "state_value Rolled_back = ''rolled_back''"
| "state_value Unmanageable = ''unmanageable''"

lemma state_value_inj [simp]: "state_value a = state_value b \<longleftrightarrow> a = b"
  by (cases a; cases b) auto

text \<open>
  What an RVTools export says of a VM's hardware: the keys of the JSON facts that the assessment
  rules read. A missing key is \<open>None\<close> where the rules tell it from false.
\<close>

record disk_facts =
  df_datastore :: "string option"
  df_raw :: bool
  df_mode :: "string option"
  df_sharing :: "string option"
  df_shared_bus :: "string option"
  df_controller :: "string option"

record hardware_facts =
  hf_disks :: "disk_facts list"
  hf_cbt :: "bool option"
  hf_consolidation_needed :: bool
  hf_snapshots :: "string list"
  hf_guest_os_tools :: "string option"
  hf_cpu_hot_add :: "bool option"
  hf_mem_hot_add :: "bool option"
  hf_ft_state :: "string option"
  hf_cluster_rules :: "string list"
  hf_secure_boot :: bool
  hf_enable_uuid :: bool

text \<open>A finding as the assessment column stores it; the texts are left out.\<close>

record finding =
  fi_id :: string
  fi_category :: string
  fi_applies_to :: string

datatype vm_status = Status_discovered | Status_baseline_captured | Status_migrated | Status_validated | Status_failed

record vm =
  vm_id :: int
  vm_name :: string
  vm_os_family :: "string option"
  vm_role :: "string option"
  vm_environment :: "string option"
  vm_lifecycle_state :: lifecycle_state
  vm_lifecycle_state_changed_at :: int
  vm_vsphere_networks :: "string list"
  vm_vsphere_datastores :: "string list"
  vm_target_cluster_id_override :: "int option"
  vm_target_namespace_override :: "string option"
  vm_source_vcenter_id :: "int option"
  vm_application_hint :: "string option"
  vm_vsphere_cluster :: "string option"
  vm_vsphere_folder :: "string option"
  vm_custom_attributes :: "(string \<times> string) list"
  vm_environment_source :: string
  vm_moref :: "string option"
  vm_source_hostname :: "string option"
  vm_target_hostname :: "string option"
  vm_ssh_user :: "string option"
  vm_ssh_port :: int
  vm_status :: vm_status
  vm_ip_address :: "string option"
  vm_power_state :: "string option"
  vm_guest_os_full :: "string option"
  vm_hardware_facts :: "hardware_facts option"
  vm_assessment :: "finding list option"

text \<open>A blank available row, for concrete instances.\<close>

definition mk_vm :: "int \<Rightarrow> string \<Rightarrow> vm" where
  "mk_vm i n = \<lparr>vm_id = i, vm_name = n, vm_os_family = None, vm_role = None,
     vm_environment = None, vm_lifecycle_state = Available, vm_lifecycle_state_changed_at = 0,
     vm_vsphere_networks = [], vm_vsphere_datastores = [], vm_target_cluster_id_override = None,
     vm_target_namespace_override = None, vm_source_vcenter_id = None,
     vm_application_hint = None, vm_vsphere_cluster = None, vm_vsphere_folder = None,
     vm_custom_attributes = [], vm_environment_source = ''unset'', vm_moref = None,
     vm_source_hostname = None, vm_target_hostname = None, vm_ssh_user = None, vm_ssh_port = 22,
     vm_status = Status_discovered, vm_ip_address = None, vm_power_state = None,
     vm_guest_os_full = None, vm_hardware_facts = None, vm_assessment = None\<rparr>"

lemma mk_vm_simps [simp]:
  "vm_id (mk_vm i n) = i" "vm_name (mk_vm i n) = n" "vm_role (mk_vm i n) = None"
  "vm_environment (mk_vm i n) = None" "vm_lifecycle_state (mk_vm i n) = Available"
  "vm_vsphere_networks (mk_vm i n) = []" "vm_vsphere_datastores (mk_vm i n) = []"
  "vm_target_cluster_id_override (mk_vm i n) = None"
  "vm_target_namespace_override (mk_vm i n) = None"
  "vm_source_vcenter_id (mk_vm i n) = None" "vm_application_hint (mk_vm i n) = None"
  "vm_vsphere_folder (mk_vm i n) = None" "vm_os_family (mk_vm i n) = None"
  "vm_lifecycle_state_changed_at (mk_vm i n) = 0" "vm_vsphere_cluster (mk_vm i n) = None"
  "vm_custom_attributes (mk_vm i n) = []" "vm_environment_source (mk_vm i n) = ''unset''"
  "vm_moref (mk_vm i n) = None" "vm_assessment (mk_vm i n) = None"
  "vm_hardware_facts (mk_vm i n) = None"
  by (simp_all add: mk_vm_def)

text \<open>
  \<open>db.scalars(select(VM).where(VM.id.in_(ids)))\<close>: the stored rows with one of the ids, in
  table order. Primary keys are unique, which \<open>wf_rows\<close> states.
\<close>

definition select_vms :: "vm list \<Rightarrow> int list \<Rightarrow> vm list" where
  "select_vms rows ids = filter (\<lambda>r. vm_id r \<in> set ids) rows"

definition wf_rows :: "vm list \<Rightarrow> bool" where
  "wf_rows rows \<longleftrightarrow> distinct (map vm_id rows)"

lemma filter_key_single: "distinct (map f xs) \<Longrightarrow> x \<in> set xs \<Longrightarrow> filter (\<lambda>y. f y = f x) xs = [x]"
  by (induction xs) (auto simp: filter_empty_conv image_iff)

definition find_vm :: "vm list \<Rightarrow> int \<Rightarrow> vm option" where
  "find_vm rows i = List.find (\<lambda>r. vm_id r = i) rows"

lemma find_vm_Some: "find_vm rows i = Some r \<Longrightarrow> r \<in> set rows \<and> vm_id r = i"
  by (auto simp: find_vm_def find_Some_iff)

lemma find_vm_None [simp]: "find_vm rows i = None \<longleftrightarrow> i \<notin> vm_id ` set rows"
  by (auto simp: find_vm_def find_None_iff)

lemma find_vm_unique:
  assumes "wf_rows rows" and "r \<in> set rows"
  shows "find_vm rows (vm_id r) = Some r"
proof (cases "find_vm rows (vm_id r)")
  case None
  with assms show ?thesis by auto
next
  case (Some r')
  then have "r' \<in> set rows" "vm_id r' = vm_id r" by (auto dest: find_vm_Some)
  with assms Some show ?thesis by (auto simp: wf_rows_def distinct_map inj_on_def)
qed

end
