(* ===== verification/VM_Groups.thy ===== *)
theory VM_Groups
  imports Inventory
begin

text \<open>
  The data types of \<open>app/core/preclassifier.py\<close> that the planner stages exchange: group
  keys and their rendered ids, HA members, risk assessments and VM groups. A stage that
  splits groups promises to keep every VM and to stay inside the group's migration scope;
  that promise is the locale \<open>vm_expander\<close>.
\<close>

record group_key =
  gk_vcenter_id :: "int option"
  gk_target_namespace :: string
  gk_role :: string
  gk_state :: string
  gk_discriminator :: string
  gk_environment :: string
  gk_target_cluster_id :: "int option"

definition as_string :: "group_key \<Rightarrow> string" where
  "as_string k =
     (let vc = (case gk_vcenter_id k of Some i \<Rightarrow> ''vc'' @ show_int i | None \<Rightarrow> ''vc?'');
          tn = (if gk_target_namespace k = [] then ''default'' else gk_target_namespace k);
          tc = (case gk_target_cluster_id k of Some i \<Rightarrow> ''tc'' @ show_int i | None \<Rightarrow> ''tc?'')
      in vc @ ''/'' @ tc @ ''/'' @ tn @ ''/'' @ gk_environment k @ ''/'' @ gk_role k @ ''/''
         @ gk_state k @ ''/'' @ gk_discriminator k)"

text \<open>One VM's HA participation: role primary, replica, standby, member or standalone.\<close>

record ha_member =
  hm_vm_id :: int
  hm_vm_name :: string
  hm_ha_role :: string

text \<open>The fixed catalogue of risk factors and mitigations, one constructor per text.\<close>

datatype risk_factor =
    Persistent_data | Database_tier | Infrastructure_service | Single_point_of_failure
  | Sequential_cluster nat | Large_group nat

datatype mitigation =
    Verify_backup | Connection_draining | Secondary_infrastructure | Establish_replica
  | Spread_ha_members | Pilot_migration

record risk_assessment =
  ra_level :: string
  ra_factors :: "risk_factor list"
  ra_mitigations :: "mitigation list"
  ra_rollback_complexity :: string
  ra_estimated_downtime :: string

record vm_group =
  g_key :: group_key
  g_vm_ids :: "int list"
  g_shared_attributes :: "(string \<times> string list) list"
  g_estimated_role :: string
  g_estimated_state :: string
  g_migration_risk :: string
  g_dependency_hints :: "string list"
  g_risk_assessment :: "risk_assessment option"
  g_ha_members :: "ha_member list"

definition g_id :: "vm_group \<Rightarrow> string" where
  "g_id g = as_string (g_key g)"

text \<open>\<open>sum(1 for m in g.ha_members if m.ha_role != "standalone")\<close>\<close>

definition ha_count :: "vm_group \<Rightarrow> nat" where
  "ha_count g = length (filter (\<lambda>m. hm_ha_role m \<noteq> ''standalone'') (g_ha_members g))"

definition has_primary :: "vm_group \<Rightarrow> bool" where
  "has_primary g \<longleftrightarrow> list_ex (\<lambda>m. hm_ha_role m = ''primary'') (g_ha_members g)"

lemma g_id_update [simp]:
  "g_id (g\<lparr>g_vm_ids := v\<rparr>) = g_id g" "g_id (g\<lparr>g_dependency_hints := h\<rparr>) = g_id g"
  "g_id (g\<lparr>g_ha_members := m\<rparr>) = g_id g"
  by (simp_all add: g_id_def)

text \<open>A group of vCenter 1 and cluster 1, for concrete instances.\<close>

definition example_group ::
  "string \<Rightarrow> string \<Rightarrow> string \<Rightarrow> string \<Rightarrow> int list \<Rightarrow> string list \<Rightarrow> ha_member list \<Rightarrow> vm_group" where
  "example_group ns env role d ids deps members =
     \<lparr>g_key = \<lparr>gk_vcenter_id = Some 1, gk_target_namespace = ns, gk_role = role,
        gk_state = ''stateless'', gk_discriminator = d, gk_environment = env,
        gk_target_cluster_id = Some 1\<rparr>,
      g_vm_ids = ids, g_shared_attributes = [], g_estimated_role = role,
      g_estimated_state = ''stateless'', g_migration_risk = ''low'', g_dependency_hints = deps,
      g_risk_assessment = None, g_ha_members = members\<rparr>"

text \<open>All VM ids of a list of groups, in order.\<close>

definition all_vm_ids :: "vm_group list \<Rightarrow> int list" where
  "all_vm_ids gs = concat (map g_vm_ids gs)"

lemma all_vm_ids_simps [simp]:
  "all_vm_ids [] = []" "all_vm_ids (g # gs) = g_vm_ids g @ all_vm_ids gs"
  "all_vm_ids (gs @ hs) = all_vm_ids gs @ all_vm_ids hs"
  by (simp_all add: all_vm_ids_def)

lemma mset_all_vm_ids_perm: "mset gs = mset hs \<Longrightarrow> mset (all_vm_ids gs) = mset (all_vm_ids hs)"
  unfolding all_vm_ids_def by (rule mset_concat_map_perm)

text \<open>
  The scope of a group: source vCenter, target cluster, target namespace, environment. The
  first three are what one MTV Plan custom resource can carry.
\<close>

definition same_plan_cr :: "vm_group \<Rightarrow> vm_group \<Rightarrow> bool" where
  "same_plan_cr g h \<longleftrightarrow>
     gk_vcenter_id (g_key g) = gk_vcenter_id (g_key h) \<and>
     gk_target_cluster_id (g_key g) = gk_target_cluster_id (g_key h) \<and>
     gk_target_namespace (g_key g) = gk_target_namespace (g_key h)"

definition same_scope :: "vm_group \<Rightarrow> vm_group \<Rightarrow> bool" where
  "same_scope g h \<longleftrightarrow> same_plan_cr g h \<and> gk_environment (g_key g) = gk_environment (g_key h)"

lemma same_plan_cr_refl [simp]: "same_plan_cr g g"
  by (simp add: same_plan_cr_def)

lemma same_plan_cr_sym: "same_plan_cr g h \<Longrightarrow> same_plan_cr h g"
  by (simp add: same_plan_cr_def)

lemma same_plan_cr_trans: "same_plan_cr g h \<Longrightarrow> same_plan_cr h k \<Longrightarrow> same_plan_cr g k"
  by (simp add: same_plan_cr_def)

lemma same_scope_refl [simp]: "same_scope g g"
  by (simp add: same_scope_def)

section \<open>The contract of a splitting stage\<close>

text \<open>
  \<open>split_one\<close> (batches), \<open>split_ha_group\<close> (HA micro-groups) and the family split each turn
  one group into several. Where the group is \<open>ok\<close> for the stage, its pieces together hold
  exactly the group's VMs and stay in its scope.
\<close>

locale vm_expander =
  fixes expand :: "vm_group \<Rightarrow> vm_group list"
    and ok :: "vm_group \<Rightarrow> bool"
  assumes expand_vm_ids: "ok g \<Longrightarrow> mset (all_vm_ids (expand g)) = mset (g_vm_ids g)"
    and expand_scope: "ok g \<Longrightarrow> h \<in> set (expand g) \<Longrightarrow> same_scope h g"
begin

lemma expand_all_vm_ids:
  "(\<And>g. g \<in> set gs \<Longrightarrow> ok g) \<Longrightarrow>
     mset (all_vm_ids (concat (map expand gs))) = mset (all_vm_ids gs)"
  by (induction gs) (auto simp: expand_vm_ids)

lemma expand_all_scope:
  "(\<And>g. g \<in> set gs \<Longrightarrow> ok g) \<Longrightarrow> h \<in> set (concat (map expand gs)) \<Longrightarrow>
     \<exists>g\<in>set gs. same_scope h g"
  using expand_scope by auto

lemma expand_all_set:
  assumes "\<And>g. g \<in> set gs \<Longrightarrow> ok g"
  shows "set (all_vm_ids (concat (map expand gs))) = set (all_vm_ids gs)"
  using expand_all_vm_ids [OF assms] by (rule mset_eq_setD)

lemma expand_all_distinct:
  assumes "\<And>g. g \<in> set gs \<Longrightarrow> ok g"
  shows "distinct (all_vm_ids (concat (map expand gs))) \<longleftrightarrow> distinct (all_vm_ids gs)"
  using expand_all_vm_ids [OF assms] by (rule mset_eq_imp_distinct_iff)

end

end
