(* ===== verification/Family.thy ===== *)
theory Family
  imports VM_Groups
begin

text \<open>
  \<open>app/core/family.py\<close>: the name-based family key, the per-wave cap of a family, and the
  Stage 3 split of groups that hold too many members of one family.
\<close>

section \<open>The family key\<close>

definition ROLE_SUFFIXES :: "string list" where
  "ROLE_SUFFIXES = [''DC'', ''SQL'', ''DB'', ''WEB'', ''APP'', ''API'', ''CACHE'', ''MQ'',
     ''LB'', ''PROXY'', ''JUMP'', ''BASTION'', ''AUTH'', ''GW'']"

definition is_separator :: "char \<Rightarrow> bool" where
  "is_separator c \<longleftrightarrow> c = CHR ''-'' \<or> c = CHR ''_''"

text \<open>\<open>while parts and parts[-1].isdigit(): parts.pop()\<close>\<close>

definition pop_digit_tokens :: "string list \<Rightarrow> string list" where
  "pop_digit_tokens parts = rev (dropWhile str_isdigit (rev parts))"

definition detect_family :: "string \<Rightarrow> string" where
  "detect_family nm =
     (if nm = [] then []
      else
        (let parts = pop_digit_tokens (split_on is_separator nm)
         in if parts = [] then str_lower nm
            else
              (let role = str_upper (last parts);
                   has_role = (role \<in> set ROLE_SUFFIXES);
                   stem = (if has_role then butlast parts else parts)
               in if stem = [] then str_lower nm
                  else
                    (let base = join_with ''-'' (map str_lower stem)
                     in if has_role then base @ ''-'' @ str_lower role else base))))"

text \<open>\<open>families.setdefault(detect_family(name), []).append(name)\<close>\<close>

definition split_into_families :: "string list \<Rightarrow> (string \<times> string list) list" where
  "split_into_families vm_names = group_by_key detect_family vm_names"

text \<open>\<open>-(-family_size // 2)\<close>: half the family, rounded up.\<close>

definition family_cap :: "nat \<Rightarrow> nat" where
  "family_cap family_size = (if family_size \<le> 1 then 1 else (family_size + 1) div 2)"

section \<open>Stage 3: splitting over-concentrated groups\<close>

text \<open>
  \<open>vm_name_by_id.get(vid, "")\<close> and the family it gives; a nameless VM has the family "".
\<close>

definition name_of :: "(int \<rightharpoonup> string) \<Rightarrow> int \<Rightarrow> string" where
  "name_of vm_name_by_id vid = or_empty (vm_name_by_id vid)"

definition family_of :: "(int \<rightharpoonup> string) \<Rightarrow> int \<Rightarrow> string" where
  "family_of vm_name_by_id vid =
     (let name = name_of vm_name_by_id vid in if name = [] then [] else detect_family name)"

text \<open>The Counter of named VMs per family over all groups.\<close>

definition global_family_sizes :: "(int \<rightharpoonup> string) \<Rightarrow> vm_group list \<Rightarrow> string \<Rightarrow> nat" where
  "global_family_sizes vm_name_by_id groups =
     count_list (map (family_of vm_name_by_id)
       (filter (\<lambda>vid. name_of vm_name_by_id vid \<noteq> []) (all_vm_ids groups)))"

definition needs_split :: "(string \<Rightarrow> nat) \<Rightarrow> (int \<rightharpoonup> string) \<Rightarrow> vm_group \<Rightarrow> bool" where
  "needs_split sizes vm_name_by_id g =
     list_ex (\<lambda>(fam, members). length members > family_cap (sizes fam))
       (group_by_key (family_of vm_name_by_id) (g_vm_ids g))"

text \<open>A bucket with its Counter; the first bucket with room takes the VM, else a new one.\<close>

type_synonym bucket = "int list \<times> (string \<Rightarrow> nat)"

fun place_vm :: "string \<Rightarrow> nat \<Rightarrow> int \<Rightarrow> bucket list \<Rightarrow> bucket list" where
  "place_vm fam cap vid [] = [([vid], (\<lambda>_. 0)(fam := 1))]"
| "place_vm fam cap vid ((ids, counts) # bs) =
     (if counts fam < cap then (ids @ [vid], counts(fam := counts fam + 1)) # bs
      else (ids, counts) # place_vm fam cap vid bs)"

definition bucket_step ::
  "(string \<Rightarrow> nat) \<Rightarrow> (int \<rightharpoonup> string) \<Rightarrow> int \<Rightarrow> bucket list \<Rightarrow> bucket list" where
  "bucket_step sizes vm_name_by_id vid bs =
     (let fam = detect_family (name_of vm_name_by_id vid)
      in place_vm fam (family_cap (sizes fam)) vid bs)"

definition family_buckets :: "(string \<Rightarrow> nat) \<Rightarrow> (int \<rightharpoonup> string) \<Rightarrow> int list \<Rightarrow> bucket list" where
  "family_buckets sizes vm_name_by_id ids =
     fold (bucket_step sizes vm_name_by_id) (sort ids) [([], \<lambda>_. 0)]"

definition family_sub_group :: "vm_group \<Rightarrow> nat \<Rightarrow> int list \<Rightarrow> vm_group" where
  "family_sub_group g n member_ids =
     g\<lparr>g_key := (g_key g)\<lparr>gk_discriminator :=
           gk_discriminator (g_key g) @ ''/family-split-'' @ show_nat n\<rparr>,
       g_vm_ids := sort member_ids,
       g_ha_members := filter (\<lambda>m. hm_vm_id m \<in> set member_ids) (g_ha_members g)\<rparr>"

definition family_split_group ::
  "(string \<Rightarrow> nat) \<Rightarrow> (int \<rightharpoonup> string) \<Rightarrow> vm_group \<Rightarrow> vm_group list" where
  "family_split_group sizes vm_name_by_id g =
     (if \<not> needs_split sizes vm_name_by_id g then [g]
      else
        (let buckets = family_buckets sizes vm_name_by_id (g_vm_ids g)
         in if length buckets = 1 then [g]
            else map (\<lambda>(n, ids, _). family_sub_group g n ids) (enumerate 1 buckets)))"

definition split_overconcentrated_families ::
  "vm_group list \<Rightarrow> (int \<rightharpoonup> string) \<Rightarrow> vm_group list" where
  "split_overconcentrated_families groups vm_name_by_id =
     (let sizes = global_family_sizes vm_name_by_id groups
      in concat (map (family_split_group sizes vm_name_by_id) groups))"

section \<open>Facts about the key and the cap\<close>

lemma detect_family_Nil [simp]: "detect_family [] = []"
  by (simp add: detect_family_def)

lemma family_of_detect: "family_of names vid = detect_family (name_of names vid)"
  by (simp add: family_of_def Let_def)

lemma family_cap_pos [simp]: "0 < family_cap n"
  by (simp add: family_cap_def)

lemma family_cap_half: "n \<le> 2 * family_cap n"
  by (simp add: family_cap_def) presburger

lemma family_cap_mono: "m \<le> n \<Longrightarrow> family_cap m \<le> family_cap n"
  unfolding family_cap_def by auto

lemma split_on_no_sep:
  assumes "list_all (\<lambda>c. \<not> p c) d"
  shows "split_on p d = [d]"
  using assms by (induction d) auto

lemma split_on_append_sep:
  "p c \<Longrightarrow> split_on p (s @ c # d) = split_on p s @ split_on p d"
proof (induction s)
  case (Cons x s)
  then show ?case by (auto split: list.splits)
qed simp

lemma digits_no_separator: "str_isdigit d \<Longrightarrow> list_all (\<lambda>c. \<not> is_separator c) d"
  unfolding str_isdigit_def by (auto simp: list_all_iff is_separator_def is_digit_def)

lemma pop_digit_tokens_snoc [simp]:
  "pop_digit_tokens (ps @ [d]) = (if str_isdigit d then pop_digit_tokens ps else ps @ [d])"
  by (simp add: pop_digit_tokens_def)

lemma split_on_numbered:
  assumes "is_separator c" and "str_isdigit d"
  shows "split_on is_separator (s @ c # d) = split_on is_separator s @ [d]"
  using assms by (simp add: split_on_append_sep split_on_no_sep digits_no_separator)

lemma pop_digit_tokens_eq_Nil:
  "pop_digit_tokens ps = [] \<longleftrightarrow> list_all str_isdigit ps"
  by (auto simp: pop_digit_tokens_def list_all_iff)

lemma is_separator_lower [simp]: "is_separator (lower_char c) = is_separator c"
  by (auto simp: is_separator_def char_eq_nat of_char_lower_char is_upper_def)

lemma split_on_lower:
  "split_on is_separator (str_lower s) = map str_lower (split_on is_separator s)"
  by (induction s) (auto split: list.splits)

lemma pop_digit_tokens_lower:
  "pop_digit_tokens (map str_lower ps) = map str_lower (pop_digit_tokens ps)"
  by (simp add: pop_digit_tokens_def dropWhile_map comp_def rev_map)

text \<open>
  A name with something left to key on once the trailing numbers are gone: at least one
  token, and not a lone role suffix.
\<close>

definition proper_stem :: "string \<Rightarrow> bool" where
  "proper_stem s \<longleftrightarrow>
     (let ps = pop_digit_tokens (split_on is_separator s)
      in ps \<noteq> [] \<and> (str_upper (last ps) \<in> set ROLE_SUFFIXES \<longrightarrow> butlast ps \<noteq> []))"

text \<open>
  Numbered peers belong to one family: appending a separator and a number to a name with
  a proper stem does not change its family key.
\<close>

theorem detect_family_numbered:
  assumes "proper_stem s" and "is_separator c" and "str_isdigit d"
  shows "detect_family (s @ c # d) = detect_family s"
proof -
  let ?ps = "pop_digit_tokens (split_on is_separator s)"
  have eq: "pop_digit_tokens (split_on is_separator (s @ c # d)) = ?ps"
    using assms by (simp add: split_on_numbered)
  show ?thesis
  proof (cases "s = []")
    case True
    with eq show ?thesis
      by (simp add: detect_family_def pop_digit_tokens_def str_isdigit_def ROLE_SUFFIXES_def Let_def)
  next
    case False
    with assms(1) eq show ?thesis
      by (simp add: detect_family_def proper_stem_def Let_def)
  qed
qed

theorem detect_family_numbered_witness:
  "detect_family ''billing-db-014'' = detect_family ''billing-db''"
proof -
  have "proper_stem ''billing-db''" by code_simp
  moreover have "is_separator (CHR ''-'')" and "str_isdigit ''014''" by code_simp+
  ultimately show ?thesis using detect_family_numbered [of "''billing-db''" "CHR ''-''" "''014''"]
    by simp
qed

text \<open>
  The family key does not depend on letter case: operators writing AD-DC-01 and
  ad-dc-02 get one family.
\<close>

theorem detect_family_case_insensitive: "detect_family (str_lower s) = detect_family s"
proof -
  let ?ps = "pop_digit_tokens (split_on is_separator s)"
  have eq: "pop_digit_tokens (split_on is_separator (str_lower s)) = map str_lower ?ps"
    by (simp add: split_on_lower pop_digit_tokens_lower)
  have l: "map str_lower (butlast (map str_lower ps)) = map str_lower (butlast ps)" for ps
    by (simp add: map_butlast comp_def)
  show ?thesis
    by (cases "?ps = []") (simp_all add: detect_family_def eq Let_def last_map l comp_def
        flip: map_butlast)
qed

section \<open>The split keeps every VM and respects the cap\<close>

definition fam_count :: "(int \<rightharpoonup> string) \<Rightarrow> string \<Rightarrow> int list \<Rightarrow> nat" where
  "fam_count names fam ids = length (filter (\<lambda>vid. family_of names vid = fam) ids)"

lemma fam_count_simps [simp]:
  "fam_count names fam [] = 0"
  "fam_count names fam (v # vs) = (if family_of names v = fam then 1 else 0) + fam_count names fam vs"
  "fam_count names fam (us @ vs) = fam_count names fam us + fam_count names fam vs"
  by (simp_all add: fam_count_def)

lemma fam_count_perm: "mset us = mset vs \<Longrightarrow> fam_count names fam us = fam_count names fam vs"
  unfolding fam_count_def by (rule mset_eq_length) simp

text \<open>Every family is within its cap in a list of VMs.\<close>

definition within_caps :: "(string \<Rightarrow> nat) \<Rightarrow> (int \<rightharpoonup> string) \<Rightarrow> int list \<Rightarrow> bool" where
  "within_caps sizes names ids \<longleftrightarrow> (\<forall>fam. fam_count names fam ids \<le> family_cap (sizes fam))"

lemma within_caps_perm: "mset us = mset vs \<Longrightarrow> within_caps sizes names us = within_caps sizes names vs"
  using fam_count_perm [of us vs names] by (simp add: within_caps_def)

lemma not_needs_split_iff: "\<not> needs_split sizes names g \<longleftrightarrow> within_caps sizes names (g_vm_ids g)"
proof
  assume "\<not> needs_split sizes names g"
  then have small: "length ms \<le> family_cap (sizes fam)"
    if "(fam, ms) \<in> set (group_by_key (family_of names) (g_vm_ids g))" for fam ms
    using that by (fastforce simp: needs_split_def list_ex_iff)
  show "within_caps sizes names (g_vm_ids g)"
    unfolding within_caps_def
  proof
    fix fam
    let ?ms = "filter (\<lambda>vid. family_of names vid = fam) (g_vm_ids g)"
    show "fam_count names fam (g_vm_ids g) \<le> family_cap (sizes fam)"
    proof (cases "?ms = []")
      case True
      then show ?thesis by (simp add: fam_count_def)
    next
      case False
      then have "dict_get (group_by_key (family_of names) (g_vm_ids g)) fam = Some ?ms"
        by (simp add: dict_get_group_by_key Let_def)
      then have "(fam, ?ms) \<in> set (group_by_key (family_of names) (g_vm_ids g))"
        by (metis dict_get_eq_map_of map_of_SomeD)
      then show ?thesis using small by (simp add: fam_count_def)
    qed
  qed
next
  assume "within_caps sizes names (g_vm_ids g)"
  then have "length ms \<le> family_cap (sizes fam)"
    if "(fam, ms) \<in> set (group_by_key (family_of names) (g_vm_ids g))" for fam ms
    using group_by_key_bucket(1) [OF that] by (simp add: within_caps_def fam_count_def)
  then show "\<not> needs_split sizes names g"
    by (fastforce simp: needs_split_def list_ex_iff not_less)
qed

text \<open>The bucket loop: the Counters are exact, no bucket passes a cap, no VM is lost.\<close>

definition bucket_ok :: "(string \<Rightarrow> nat) \<Rightarrow> (int \<rightharpoonup> string) \<Rightarrow> bucket \<Rightarrow> bool" where
  "bucket_ok sizes names b \<longleftrightarrow>
     (\<forall>fam. snd b fam = fam_count names fam (fst b)) \<and> within_caps sizes names (fst b)"

lemma place_vm_ok:
  assumes "\<And>b. b \<in> set bs \<Longrightarrow> bucket_ok sizes names b"
    and "b \<in> set (place_vm (family_of names vid) (family_cap (sizes (family_of names vid))) vid bs)"
  shows "bucket_ok sizes names b"
  using assms
proof (induction bs)
  case Nil
  then show ?case
    by (auto simp: bucket_ok_def within_caps_def Suc_leI)
next
  case (Cons a bs)
  obtain ids counts where a: "a = (ids, counts)" by (cases a)
  let ?fam = "family_of names vid"
  have here: "bucket_ok sizes names (ids, counts)" using Cons.prems(1) a by simp
  have there: "bucket_ok sizes names b" if "b \<in> set bs" for b using Cons.prems(1) that by simp
  show ?case
  proof (cases "counts ?fam < family_cap (sizes ?fam)")
    case True
    have "bucket_ok sizes names (ids @ [vid], counts(?fam := counts ?fam + 1))"
      using here True by (auto simp: bucket_ok_def within_caps_def)
    with True a Cons.prems(2) there show ?thesis by (cases b) auto
  next
    case False
    with a Cons.prems(2) here show ?thesis using Cons.IH [OF there] by auto
  qed
qed

lemma mset_place_vm [conserve]:
  "mset (concat (map fst (place_vm fam cap vid bs))) = add_mset vid (mset (concat (map fst bs)))"
  by (induction fam cap vid bs rule: place_vm.induct) auto

lemma bucket_step_ok:
  assumes "\<And>b. b \<in> set bs \<Longrightarrow> bucket_ok sizes names b"
    and "b \<in> set (bucket_step sizes names vid bs)"
  shows "bucket_ok sizes names b"
  by (rule place_vm_ok [OF assms(1)])
    (use assms(2) in \<open>simp_all add: bucket_step_def Let_def flip: family_of_detect\<close>)

lemma mset_bucket_step [conserve]:
  "mset (concat (map fst (bucket_step sizes names vid bs))) = add_mset vid (mset (concat (map fst bs)))"
  by (simp add: bucket_step_def Let_def mset_place_vm)

lemma fold_bucket_step_ok:
  "(\<And>b. b \<in> set bs \<Longrightarrow> bucket_ok sizes names b) \<Longrightarrow>
   b \<in> set (fold (bucket_step sizes names) ids bs) \<Longrightarrow> bucket_ok sizes names b"
proof (induction ids arbitrary: bs)
  case (Cons v ids)
  have "bucket_ok sizes names b'" if "b' \<in> set (bucket_step sizes names v bs)" for b'
    using Cons.prems(1) that by (rule bucket_step_ok)
  from Cons.IH [OF this] Cons.prems(2) show ?case by simp
qed simp

lemma mset_fold_bucket_step [conserve]:
  "mset (concat (map fst (fold (bucket_step sizes names) ids bs)))
     = mset ids + mset (concat (map fst bs))"
  by (induction ids arbitrary: bs) (simp_all add: mset_bucket_step)

lemma bucket_ok_empty: "bucket_ok sizes names ([], \<lambda>_. 0)"
  by (simp add: bucket_ok_def within_caps_def)

lemma family_buckets_ok:
  assumes "b \<in> set (family_buckets sizes names ids)"
  shows "bucket_ok sizes names b"
  using assms unfolding family_buckets_def
  by (rule fold_bucket_step_ok [rotated]) (simp add: bucket_ok_empty)

lemma mset_family_buckets [conserve]:
  "mset (concat (map fst (family_buckets sizes names ids))) = mset ids"
  by (simp add: family_buckets_def mset_fold_bucket_step)

lemma family_split_group_cases:
  obtains (whole) "family_split_group sizes names g = [g]"
  | (parts) "family_split_group sizes names g =
       map (\<lambda>(n, ids, _). family_sub_group g n ids)
         (enumerate 1 (family_buckets sizes names (g_vm_ids g)))"
  by (cases "needs_split sizes names g";
      cases "length (family_buckets sizes names (g_vm_ids g)) = 1")
    (simp_all add: family_split_group_def Let_def)

lemma in_set_enumerateD: "(n, x) \<in> set (enumerate k xs) \<Longrightarrow> x \<in> set xs"
  by (induction xs arbitrary: k) auto

lemma g_vm_ids_family_sub_group [simp]: "g_vm_ids (family_sub_group g n ids) = sort ids"
  by (simp add: family_sub_group_def)

lemma mset_family_split_group:
  "mset (all_vm_ids (family_split_group sizes names g)) = mset (g_vm_ids g)"
proof (cases rule: family_split_group_cases [of sizes names g])
  case parts
  let ?bs = "family_buckets sizes names (g_vm_ids g)"
  have "mset (all_vm_ids (map (\<lambda>(n, ids, _). family_sub_group g n ids) (enumerate k bs)))
      = mset (concat (map fst bs))" for k and bs :: "bucket list"
    by (induction bs arbitrary: k) auto
  with parts show ?thesis by (simp add: conserve)
qed simp

lemma same_scope_family_split_group:
  "h \<in> set (family_split_group sizes names g) \<Longrightarrow> same_scope h g"
  by (cases rule: family_split_group_cases [of sizes names g])
    (auto simp: family_sub_group_def same_scope_def same_plan_cr_def)

interpretation family_split: vm_expander "family_split_group sizes names" "\<lambda>_. True"
  for sizes names
  by unfold_locales (auto simp: mset_family_split_group same_scope_family_split_group)

lemma family_split_group_within_caps:
  assumes "h \<in> set (family_split_group sizes names g)"
  shows "within_caps sizes names (g_vm_ids h)"
proof (cases "needs_split sizes names g")
  case False
  with assms show ?thesis by (simp add: family_split_group_def not_needs_split_iff)
next
  case True
  let ?bs = "family_buckets sizes names (g_vm_ids g)"
  have ok: "within_caps sizes names ids" if "(ids, c) \<in> set ?bs" for ids c
    using family_buckets_ok [OF that] by (simp add: bucket_ok_def)
  show ?thesis
  proof (cases "length ?bs = 1")
    case one: True
    then obtain ids c where bs: "?bs = [(ids, c)]" by (cases ?bs) auto
    have "mset ids = mset (g_vm_ids g)" using mset_family_buckets [of sizes names "g_vm_ids g"] bs
      by simp
    with ok bs have "within_caps sizes names (g_vm_ids g)" by (metis list.set_intros(1) within_caps_perm)
    with True show ?thesis by (simp flip: not_needs_split_iff)
  next
    case False
    with True assms obtain n ids c where "h = family_sub_group g n ids" "(ids, c) \<in> set ?bs"
      by (fastforce simp: family_split_group_def Let_def dest: in_set_enumerateD)
    with ok show ?thesis by (simp add: within_caps_perm [of "sort ids" ids])
  qed
qed

lemma mset_split_families [conserve]:
  "mset (all_vm_ids (split_overconcentrated_families groups names)) = mset (all_vm_ids groups)"
  unfolding split_overconcentrated_families_def Let_def
  by (rule family_split.expand_all_vm_ids) simp

text \<open>
  Stage 3 neither loses nor duplicates a VM: the groups it returns hold exactly the VMs
  of the groups it was given.
\<close>

theorem split_families_conserves_vms:
  "mset (all_vm_ids (split_overconcentrated_families groups names)) = mset (all_vm_ids groups)"
  by (rule mset_split_families)

text \<open>
  After Stage 3 no group holds more than \<open>ceil(size / 2)\<close> members of a name family, the
  size counted over the whole plan, and every group keeps the vCenter, cluster, namespace
  and environment of a group it came from.
\<close>

theorem split_families_respects_cap:
  assumes "g \<in> set (split_overconcentrated_families groups names)"
  shows "fam_count names fam (g_vm_ids g) \<le> family_cap (global_family_sizes names groups fam)
    \<and> list_ex (same_scope g) groups"
proof
  obtain g' where g': "g' \<in> set groups"
      "g \<in> set (family_split_group (global_family_sizes names groups) names g')"
    using assms by (auto simp: split_overconcentrated_families_def Let_def)
  then show "fam_count names fam (g_vm_ids g) \<le> family_cap (global_family_sizes names groups fam)"
    using family_split_group_within_caps [OF g'(2)] by (simp add: within_caps_def)
  from g' show "list_ex (same_scope g) groups"
    using same_scope_family_split_group [OF g'(2)] by (auto simp: list_ex_iff)
qed

text \<open>Two domain controllers and a lone server in one group: the pair is separated.\<close>

definition dc_group :: vm_group where
  "dc_group = \<lparr>g_key = \<lparr>gk_vcenter_id = Some 1, gk_target_namespace = ''infra'',
       gk_role = ''infrastructure'', gk_state = ''stateful'', gk_discriminator = ''net:n1'',
       gk_environment = ''prod'', gk_target_cluster_id = None\<rparr>,
     g_vm_ids = [3, 1, 2], g_shared_attributes = [], g_estimated_role = ''infrastructure'',
     g_estimated_state = ''stateful'', g_migration_risk = ''high'', g_dependency_hints = [],
     g_risk_assessment = None, g_ha_members = []\<rparr>"

definition dc_names :: "int \<rightharpoonup> string" where
  "dc_names = map_of [(1, ''AD-DC-01''), (2, ''ad_dc_02''), (3, ''lonewolf-99'')]"

lemma split_families_respects_cap_witness:
  "fam_count dc_names ''ad-dc'' [1, 3] \<le> family_cap (global_family_sizes dc_names [dc_group] ''ad-dc'')
     \<and> list_ex (same_scope (family_sub_group dc_group 1 [1, 3])) [dc_group]"
proof -
  have "family_sub_group dc_group 1 [1, 3] \<in>
      set (split_overconcentrated_families [dc_group] dc_names)" by code_simp
  from split_families_respects_cap [OF this, of "''ad-dc''"] show ?thesis by (simp add: sort_conv_fold)
qed

lemma global_family_sizes_perm:
  assumes "mset (all_vm_ids gs) = mset (all_vm_ids hs)"
  shows "global_family_sizes names gs = global_family_sizes names hs"
proof
  fix fam
  let ?f = "\<lambda>ids. map (family_of names) (filter (\<lambda>vid. name_of names vid \<noteq> []) ids)"
  have "mset (?f (all_vm_ids gs)) = mset (?f (all_vm_ids hs))" using assms by simp
  then show "global_family_sizes names gs fam = global_family_sizes names hs fam"
    unfolding global_family_sizes_def by (metis count_mset)
qed

lemma family_split_group_id:
  "within_caps sizes names (g_vm_ids g) \<Longrightarrow> family_split_group sizes names g = [g]"
  by (simp add: family_split_group_def flip: not_needs_split_iff)

text \<open>Running Stage 3 on its own output changes nothing.\<close>

theorem split_families_idempotent:
  "split_overconcentrated_families (split_overconcentrated_families groups names) names
     = split_overconcentrated_families groups names"
proof -
  let ?out = "split_overconcentrated_families groups names"
  have sizes: "global_family_sizes names ?out = global_family_sizes names groups"
    by (rule global_family_sizes_perm) (rule mset_split_families)
  have "family_split_group (global_family_sizes names groups) names g = [g]"
    if "g \<in> set ?out" for g
    using that
    by (auto simp: split_overconcentrated_families_def Let_def
        intro!: family_split_group_id dest: family_split_group_within_caps)
  then have "map (family_split_group (global_family_sizes names groups) names) ?out
      = map (\<lambda>g. [g]) ?out" by simp
  then have "concat (map (family_split_group (global_family_sizes names groups) names) ?out) = ?out"
    by (simp only: concat_map_singleton map_ident)
  then show ?thesis
    unfolding split_overconcentrated_families_def [of ?out] Let_def sizes .
qed

end
