(* ===== verification/Wave_Skeleton.thy ===== *)
theory Wave_Skeleton
  imports Family
begin

text \<open>
  \<open>app/core/wave_skeleton.py\<close>: the mechanical wave assigner. Oversized groups are cut into
  batches, groups are ordered, and each is placed into the first wave that comes after its
  dependencies, has room for its VMs, matches its MTV Plan scope and respects the HA cap.
  The RuntimeError of the wave search is a value of the result type; the theory proves it is
  never produced.
\<close>

section \<open>Data\<close>

definition MAX_VMS_PER_WAVE :: nat where "MAX_VMS_PER_WAVE = 10"
definition MAX_HA_PEERS_PER_WAVE :: nat where "MAX_HA_PEERS_PER_WAVE = 2"

record wave =
  w_wave_number :: nat
  w_groups :: "vm_group list"
  w_estimated_risk :: string
  w_concurrency_group_id :: nat

definition new_wave :: "nat \<Rightarrow> wave" where
  "new_wave n = \<lparr>w_wave_number = n, w_groups = [], w_estimated_risk = ''low'',
     w_concurrency_group_id = 0\<rparr>"

definition w_vm_ids :: "wave \<Rightarrow> int list" where
  "w_vm_ids w = all_vm_ids (w_groups w)"

definition w_vm_count :: "wave \<Rightarrow> nat" where
  "w_vm_count w = sum_list (map (\<lambda>g. length (g_vm_ids g)) (w_groups w))"

lemma w_vm_count_length: "w_vm_count w = length (w_vm_ids w)"
  by (simp add: w_vm_count_def w_vm_ids_def all_vm_ids_def length_concat comp_def)

definition role_priority :: "string \<Rightarrow> nat" where
  "role_priority r =
     (if r = ''infrastructure'' then 0 else if r = ''data'' then 1 else if r = ''app'' then 2
      else if r = ''web'' then 3 else if r = ''edge'' then 4 else if r = ''other'' then 5 else 99)"

definition risk_priority :: "string \<Rightarrow> nat" where
  "risk_priority r =
     (if r = ''low'' then 0 else if r = ''medium'' then 1 else if r = ''high'' then 2 else 1)"

definition group_order :: "vm_group \<Rightarrow> nat \<times> nat \<times> string" where
  "group_order g = (role_priority (g_estimated_role g), risk_priority (g_migration_risk g), g_id g)"

section \<open>HA families across groups\<close>

text \<open>
  The regular expression \<open>[-_]?\d+(?:\.[a-z0-9.-]+)?$\<close>, ignoring case, matched at the head of
  a string and up to its end.
\<close>

definition ha_suffix :: "string \<Rightarrow> bool" where
  "ha_suffix s =
     (let t = (case s of [] \<Rightarrow> [] | c # cs \<Rightarrow> if c = CHR ''-'' \<or> c = CHR ''_'' then cs else s);
          rest = dropWhile is_digit t
      in takeWhile is_digit t \<noteq> [] \<and>
         (case rest of
            [] \<Rightarrow> True
          | c # r \<Rightarrow> c = CHR ''.'' \<and> r \<noteq> [] \<and>
              list_all (\<lambda>x. is_alnum x \<or> x = CHR ''.'' \<or> x = CHR ''-'') r))"

fun strip_ha_suffix :: "string \<Rightarrow> string" where
  "strip_ha_suffix [] = []"
| "strip_ha_suffix (c # cs) = (if ha_suffix (c # cs) then [] else c # strip_ha_suffix cs)"

definition ha_family_key :: "vm_group \<Rightarrow> string option" where
  "ha_family_key g =
     (if ha_count g = 0 then None
      else
        (let discriminator = gk_discriminator (g_key g);
             stem = (case find_str ''/ha:'' discriminator of
                 Some i \<Rightarrow> take i discriminator
               | None \<Rightarrow>
                   (let sample = (case List.find (\<lambda>m. hm_ha_role m \<noteq> ''standalone'') (g_ha_members g)
                                  of Some m \<Rightarrow> hm_vm_name m | None \<Rightarrow> []);
                        s = str_lower (strip_ha_suffix sample)
                    in if s = [] then ''unknown'' else s));
             hints = dict_get_or (g_shared_attributes g) ''application_hints'' [];
             app = (case hints of [] \<Rightarrow> ''unknown'' | h # _ \<Rightarrow> h)
         in Some (g_estimated_role g @ ''/'' @ app @ ''/'' @ stem)))"

text \<open>\<open>_detect_ha_families\<close> and the inverse map group id to family.\<close>

definition detect_ha_families :: "vm_group list \<Rightarrow> (string \<times> string list) list" where
  "detect_ha_families groups =
     filter (\<lambda>(fam, ids). length ids > 1)
       (map (\<lambda>(fam, gs). (fam, map g_id gs))
         (group_by_key (\<lambda>g. or_empty (ha_family_key g)) (filter (\<lambda>g. ha_family_key g \<noteq> None) groups)))"

definition group_to_family :: "(string \<times> string list) list \<Rightarrow> string \<rightharpoonup> string" where
  "group_to_family families =
     map_of (rev (concat (map (\<lambda>(fam, ids). map (\<lambda>i. (i, fam)) ids) families)))"

section \<open>Splitting oversized groups\<close>

record assigner =
  max_vms_per_wave :: nat
  max_ha_peers_per_wave :: nat

text \<open>The constructor clamps both limits to at least 1.\<close>

definition mk_assigner :: "nat \<Rightarrow> nat \<Rightarrow> assigner" where
  "mk_assigner v h = \<lparr>max_vms_per_wave = max 1 v, max_ha_peers_per_wave = max 1 h\<rparr>"

definition default_assigner :: assigner where
  "default_assigner = mk_assigner MAX_VMS_PER_WAVE MAX_HA_PEERS_PER_WAVE"

text \<open>The slices \<open>ids[start : start + m]\<close> for \<open>start\<close> in \<open>range(0, len(ids), m)\<close>.\<close>

fun batches_of :: "nat \<Rightarrow> 'a list \<Rightarrow> 'a list list" where
  "batches_of m xs = (if xs = [] \<or> m = 0 then [] else take m xs # batches_of m (drop m xs))"

declare batches_of.simps [simp del]

definition batch_group :: "vm_group \<Rightarrow> nat \<Rightarrow> int list \<Rightarrow> vm_group" where
  "batch_group g n batch_ids =
     g\<lparr>g_key := (g_key g)\<lparr>gk_discriminator :=
           gk_discriminator (g_key g) @ ''/batch-'' @ show_nat n\<rparr>,
       g_vm_ids := batch_ids,
       g_ha_members := List.map_filter
         (\<lambda>i. List.find (\<lambda>m. hm_vm_id m = i) (rev (g_ha_members g))) batch_ids\<rparr>"

definition split_one :: "assigner \<Rightarrow> vm_group \<Rightarrow> vm_group list" where
  "split_one a g =
     map (\<lambda>(n, ids). batch_group g n ids)
       (enumerate 1 (batches_of (max_vms_per_wave a) (sort (g_vm_ids g))))"

definition split_oversized :: "assigner \<Rightarrow> vm_group \<Rightarrow> vm_group list" where
  "split_oversized a g = (if length (g_vm_ids g) \<le> max_vms_per_wave a then [g] else split_one a g)"

definition split_oversized_groups :: "assigner \<Rightarrow> vm_group list \<Rightarrow> vm_group list" where
  "split_oversized_groups a groups = concat (map (split_oversized a) groups)"

section \<open>Ordering\<close>

type_synonym indegrees = "(string \<times> nat) list"

definition groups_by_id :: "vm_group list \<Rightarrow> (string \<times> vm_group) list" where
  "groups_by_id groups = dict_of g_id (\<lambda>g. g) groups"

definition count_dependency :: "string \<Rightarrow> string \<Rightarrow> indegrees \<Rightarrow> indegrees" where
  "count_dependency gid dep d =
     (if dict_has d dep then dict_set gid (dict_get_or d gid 0 + 1) d else d)"

definition initial_indegrees :: "vm_group list \<Rightarrow> indegrees" where
  "initial_indegrees groups =
     fold (\<lambda>g d. fold (count_dependency (g_id g)) (g_dependency_hints g) d) groups
       (dict_of g_id (\<lambda>_. 0) groups)"

text \<open>
  The body of the inner loop of Kahn's algorithm: a group that depends on \<open>gid\<close> and still
  waits loses one dependency, and is ready when that was the last.
\<close>

definition relax :: "string \<Rightarrow> vm_group \<Rightarrow> indegrees \<times> string list \<Rightarrow> indegrees \<times> string list" where
  "relax gid g = (\<lambda>(d, ready).
     if gid \<in> set (g_dependency_hints g) \<and> dict_get_or d (g_id g) 0 > 0
     then (let n = dict_get_or d (g_id g) 0 - 1
           in (dict_set (g_id g) n d, if n = 0 then ready @ [g_id g] else ready))
     else (d, ready))"

definition waiting :: "indegrees \<Rightarrow> nat" where
  "waiting d = length (filter (\<lambda>(_, n). n > 0) d)"

lemma waiting_dict_set:
  assumes "dict_get_or d k 0 > 0"
  shows "waiting (dict_set k n d) + (if n = 0 then 1 else 0) = waiting d"
  using assms by (induction d) (auto simp: waiting_def dict_get_or_def)

lemma relax_measure:
  "relax gid g (d, r) = (d', r') \<Longrightarrow> length r' + waiting d' = length r + waiting d"
  using waiting_dict_set [of d "g_id g" "dict_get_or d (g_id g) 0 - 1"]
  by (auto simp: relax_def Let_def split: if_splits)

lemma fold_relax_measure:
  "fold (relax gid) gs (d, r) = (d', r') \<Longrightarrow> length r' + waiting d' = length r + waiting d"
proof (induction gs arbitrary: d r)
  case (Cons g gs)
  obtain d1 r1 where 1: "relax gid g (d, r) = (d1, r1)" by fastforce
  with Cons.prems have "length r' + waiting d' = length r1 + waiting d1"
    by (intro Cons.IH) simp
  with relax_measure [OF 1] show ?case by simp
qed simp

function kahn_loop ::
  "vm_group list \<Rightarrow> (string \<times> vm_group) list \<Rightarrow> indegrees \<Rightarrow> string list \<Rightarrow> vm_group list
     \<Rightarrow> vm_group list" where
  "kahn_loop groups by_id d ready ordered =
     (case sort ready of
        [] \<Rightarrow> ordered
      | gid # rest \<Rightarrow>
          (case fold (relax gid) groups (d, rest) of
             (d', ready') \<Rightarrow>
               kahn_loop groups by_id d' ready'
                 (ordered @ (case dict_get by_id gid of Some g \<Rightarrow> [g] | None \<Rightarrow> []))))"
  by pat_completeness auto
termination
proof (relation "measure (\<lambda>(groups, by_id, d, ready, ordered). length ready + waiting d)")
  fix groups :: "vm_group list" and by_id d ready ordered gid rest d' ready'
  assume s: "sort ready = gid # rest" and p: "(d', ready') = fold (relax gid) groups (d, rest)"
  have "length ready = Suc (length rest)" using arg_cong [OF s, of length] by simp
  moreover have "length ready' + waiting d' = length rest + waiting d"
    using fold_relax_measure [OF p [symmetric]] .
  ultimately show "((groups, by_id, d', ready',
        ordered @ (case dict_get by_id gid of None \<Rightarrow> [] | Some g \<Rightarrow> [g])),
      groups, by_id, d, ready, ordered)
      \<in> measure (\<lambda>(groups, by_id, d, ready, ordered). length ready + waiting d)"
    by simp
qed simp

declare kahn_loop.simps [simp del]

definition kahn_order :: "vm_group list \<Rightarrow> vm_group list" where
  "kahn_order groups =
     (let by_id = groups_by_id groups;
          d = initial_indegrees groups;
          ready = sort (map fst (filter (\<lambda>(_, n). n = 0) d));
          ordered = kahn_loop groups by_id d ready [];
          placed = map g_id ordered
      in ordered @ List.map_filter (\<lambda>gid. if gid \<in> set placed then None else dict_get by_id gid)
           (sort (map fst by_id)))"

definition topological_sort :: "vm_group list \<Rightarrow> vm_group list" where
  "topological_sort groups = sort_key group_order (kahn_order groups)"

section \<open>Packing\<close>

datatype skeleton_error = Could_not_place string

text \<open>
  The packer's dictionaries: the wave of every placed group, the waves, and the HA counter
  per wave and family (a \<open>defaultdict\<close>, so absent entries read 0).
\<close>

record pack_state =
  ps_wave_for_group :: "string \<rightharpoonup> nat"
  ps_waves :: "(nat \<times> wave) list"
  ps_family_per_wave :: "nat \<Rightarrow> string \<Rightarrow> nat"

definition init_pack :: pack_state where
  "init_pack = \<lparr>ps_wave_for_group = Map.empty, ps_waves = [], ps_family_per_wave = \<lambda>_ _. 0\<rparr>"

definition min_wave_from_deps :: "vm_group \<Rightarrow> (string \<rightharpoonup> nat) \<Rightarrow> nat" where
  "min_wave_from_deps g wave_for_group =
     fold (\<lambda>dep m. case wave_for_group dep of None \<Rightarrow> m | Some placed \<Rightarrow> max m (placed + 1))
       (g_dependency_hints g) 1"

definition effective_family_cap :: "assigner \<Rightarrow> vm_group \<Rightarrow> nat" where
  "effective_family_cap a g = (if has_primary g then 1 else max_ha_peers_per_wave a)"

definition enforce_family :: "assigner \<Rightarrow> vm_group \<Rightarrow> string option \<Rightarrow> bool" where
  "enforce_family a g family \<longleftrightarrow> family \<noteq> None \<and> ha_count g \<le> effective_family_cap a g"

text \<open>The tests of one iteration of the search loop.\<close>

definition wave_accepts ::
  "assigner \<Rightarrow> vm_group \<Rightarrow> pack_state \<Rightarrow> string option \<Rightarrow> nat \<Rightarrow> bool" where
  "wave_accepts a g st family candidate \<longleftrightarrow>
     (let existing = dict_get (ps_waves st) candidate;
          coherent = (case existing of
              None \<Rightarrow> True
            | Some w \<Rightarrow> (case w_groups w of [] \<Rightarrow> True | seed # _ \<Rightarrow> same_plan_cr seed g));
          current_vms = (case existing of None \<Rightarrow> 0 | Some w \<Rightarrow> w_vm_count w);
          current_family = (case family of
              Some f \<Rightarrow> if enforce_family a g family then ps_family_per_wave st candidate f else 0
            | None \<Rightarrow> 0);
          fits_vms = (current_vms + length (g_vm_ids g) \<le> max_vms_per_wave a);
          fits_family = (if enforce_family a g family
                         then current_family + ha_count g \<le> effective_family_cap a g else True)
      in coherent \<and> fits_vms \<and> fits_family)"

function search_wave :: "(nat \<Rightarrow> bool) \<Rightarrow> nat \<Rightarrow> nat \<Rightarrow> nat option" where
  "search_wave accepts max_waves candidate =
     (if candidate \<le> max_waves
      then (if accepts candidate then Some candidate
            else search_wave accepts max_waves (candidate + 1))
      else None)"
  by pat_completeness auto
termination by (relation "measure (\<lambda>(p, m, c). Suc m - c)") auto

declare search_wave.simps [simp del]

definition find_target_wave ::
  "assigner \<Rightarrow> vm_group \<Rightarrow> pack_state \<Rightarrow> nat \<Rightarrow> string option \<Rightarrow> skeleton_error + nat" where
  "find_target_wave a g st min_wave family =
     (let max_waves = max (min_wave + length (ps_waves st) + 2) 1024
      in case search_wave (wave_accepts a g st family) max_waves min_wave of
           Some n \<Rightarrow> Inr n
         | None \<Rightarrow> Inl (Could_not_place (g_id g)))"

text \<open>
  What follows a successful search: record the wave, append the group, count its HA members
  against the family (a primary fills the counter up).
\<close>

definition place_group ::
  "assigner \<Rightarrow> vm_group \<Rightarrow> string option \<Rightarrow> nat \<Rightarrow> pack_state \<Rightarrow> pack_state" where
  "place_group a g family target st =
     (let w = (case dict_get (ps_waves st) target of None \<Rightarrow> new_wave target | Some w \<Rightarrow> w);
          fpw = ps_family_per_wave st
      in \<lparr>ps_wave_for_group = (ps_wave_for_group st)(g_id g \<mapsto> target),
          ps_waves = dict_set target (w\<lparr>w_groups := w_groups w @ [g]\<rparr>) (ps_waves st),
          ps_family_per_wave = (case family of
              None \<Rightarrow> fpw
            | Some f \<Rightarrow> fpw(target := (fpw target)(f :=
                if has_primary g then max_ha_peers_per_wave a else fpw target f + ha_count g)))\<rparr>)"

text \<open>The greedy loop, over the search operation.\<close>

fun pack_groups ::
  "(vm_group \<Rightarrow> pack_state \<Rightarrow> skeleton_error + nat) \<Rightarrow> (vm_group \<Rightarrow> nat \<Rightarrow> pack_state \<Rightarrow> pack_state)
     \<Rightarrow> vm_group list \<Rightarrow> pack_state \<Rightarrow> skeleton_error + pack_state" where
  "pack_groups target place [] st = Inr st"
| "pack_groups target place (g # gs) st =
     (case target g st of Inl e \<Rightarrow> Inl e
      | Inr n \<Rightarrow> pack_groups target place gs (place g n st))"

section \<open>Finishing a wave\<close>

definition wave_aggregate_risk :: "vm_group list \<Rightarrow> string" where
  "wave_aggregate_risk groups =
     (if groups = [] then ''low''
      else (let highest = fold max (map (\<lambda>g. risk_priority (g_migration_risk g)) groups) 0
            in if highest = 0 then ''low'' else if highest = 1 then ''medium'' else ''high''))"

text \<open>A given wave keeps its concurrency group; without one a new wave is built.\<close>

definition build_wave :: "nat \<Rightarrow> vm_group list \<Rightarrow> wave option \<Rightarrow> wave" where
  "build_wave n groups w =
     (let w0 = (case w of None \<Rightarrow> new_wave n | Some w0 \<Rightarrow> w0);
          gs = sort_key group_order groups
      in w0\<lparr>w_wave_number := n, w_groups := gs, w_estimated_risk := wave_aggregate_risk gs\<rparr>)"

definition finalize :: "(nat \<times> wave) list \<Rightarrow> wave list" where
  "finalize waves =
     map (\<lambda>(idx, w). build_wave idx (w_groups w) (Some w))
       (enumerate 1 (sort_key w_wave_number (map snd waves)))"

definition pack_target ::
  "assigner \<Rightarrow> (string \<rightharpoonup> string) \<Rightarrow> vm_group \<Rightarrow> pack_state \<Rightarrow> skeleton_error + nat" where
  "pack_target a families g st =
     find_target_wave a g st (min_wave_from_deps g (ps_wave_for_group st)) (families (g_id g))"

definition pack_place ::
  "assigner \<Rightarrow> (string \<rightharpoonup> string) \<Rightarrow> vm_group \<Rightarrow> nat \<Rightarrow> pack_state \<Rightarrow> pack_state" where
  "pack_place a families g n st = place_group a g (families (g_id g)) n st"

definition assign_waves :: "assigner \<Rightarrow> vm_group list \<Rightarrow> skeleton_error + wave list" where
  "assign_waves a groups =
     (if groups = [] then Inr []
      else
        (let prepared = split_oversized_groups a groups;
             ordered = topological_sort prepared;
             families = group_to_family (detect_ha_families ordered)
         in case pack_groups (pack_target a families) (pack_place a families) ordered init_pack of
              Inl e \<Rightarrow> Inl e
            | Inr st \<Rightarrow> Inr (finalize (ps_waves st))))"

end
