(* ===== verification/Wave_Order.thy ===== *)
theory Wave_Order
  imports Wave_Skeleton
begin

text \<open>
  The order in which the assigner packs groups. Kahn's loop places every id once; the sort by
  (role, risk, id) that follows is total on groups with distinct ids, so the packing order is
  that of the sort key alone. Also the facts about batch splitting the packer relies on.
\<close>

section \<open>Batches\<close>

lemma batches_of_induct [case_names empty step]:
  assumes "\<And>m xs. xs = [] \<or> m = 0 \<Longrightarrow> P m xs"
    and "\<And>m xs. xs \<noteq> [] \<Longrightarrow> 0 < m \<Longrightarrow> P m (drop m xs) \<Longrightarrow> P m xs"
  shows "P m xs"
  by (induction m xs rule: batches_of.induct) (use assms in \<open>metis not_gr_zero\<close>)

lemma batches_of_empty [simp]: "batches_of m [] = []"
  by (simp add: batches_of.simps)

lemma batches_of_step:
  "xs \<noteq> [] \<Longrightarrow> 0 < m \<Longrightarrow> batches_of m xs = take m xs # batches_of m (drop m xs)"
  by (simp add: batches_of.simps [of m xs])

lemma concat_batches_of [simp]: "0 < m \<Longrightarrow> concat (batches_of m xs) = xs"
  by (induction m xs rule: batches_of_induct) (auto simp: batches_of_step)

lemma length_batch: "b \<in> set (batches_of m xs) \<Longrightarrow> length b \<le> m \<and> b \<noteq> []"
proof (induction m xs rule: batches_of_induct)
  case (empty m xs)
  then show ?case by (auto simp: batches_of.simps [of m xs])
next
  case (step m xs)
  then show ?case by (auto simp: batches_of_step)
qed

lemma split_one_vm_ids:
  "0 < max_vms_per_wave a \<Longrightarrow> mset (all_vm_ids (split_one a g)) = mset (g_vm_ids g)"
proof -
  assume m: "0 < max_vms_per_wave a"
  have "all_vm_ids (map (\<lambda>(n, ids). batch_group g n ids) (enumerate k bs)) = concat bs" for k bs
    by (induction bs arbitrary: k) (auto simp: batch_group_def)
  with m show ?thesis by (simp add: split_one_def)
qed

lemma split_one_member:
  assumes "h \<in> set (split_one a g)"
  shows "same_scope h g" and "length (g_vm_ids h) \<le> max_vms_per_wave a"
proof -
  from assms obtain n ids where "h = batch_group g n ids"
      "ids \<in> set (batches_of (max_vms_per_wave a) (sort (g_vm_ids g)))"
    by (fastforce simp: split_one_def dest: in_set_enumerateD)
  then show "same_scope h g" and "length (g_vm_ids h) \<le> max_vms_per_wave a"
    using length_batch by (auto simp: batch_group_def same_scope_def same_plan_cr_def)
qed

interpretation batch_split: vm_expander "split_oversized a" "\<lambda>_. 0 < max_vms_per_wave a" for a
  by unfold_locales
    (auto simp: split_oversized_def split_one_vm_ids dest: split_one_member(1) split: if_splits)

lemma split_oversized_size:
  "h \<in> set (split_oversized_groups a groups) \<Longrightarrow> length (g_vm_ids h) \<le> max_vms_per_wave a"
  by (auto simp: split_oversized_groups_def split_oversized_def dest: split_one_member(2)
      split: if_splits)

lemma split_oversized_id:
  "(\<And>g. g \<in> set groups \<Longrightarrow> length (g_vm_ids g) \<le> max_vms_per_wave a) \<Longrightarrow>
     split_oversized_groups a groups = groups"
  by (induction groups) (auto simp: split_oversized_groups_def split_oversized_def)

section \<open>The dictionary of groups by id\<close>

lemma groups_by_id_key: "dict_get (groups_by_id groups) k = Some g \<Longrightarrow> g_id g = k \<and> g \<in> set groups"
  unfolding groups_by_id_def by (auto dest: dict_get_of_Some)

lemma distinct_groups_by_id: "distinct (map fst (groups_by_id groups))"
  by (simp add: groups_by_id_def)

lemma dict_has_groups_by_id [simp]: "dict_has (groups_by_id groups) k \<longleftrightarrow> k \<in> g_id ` set groups"
  by (simp add: groups_by_id_def)

lemma map_g_id_groups_by_id: "map g_id (map snd (groups_by_id groups)) = map fst (groups_by_id groups)"
  using groups_by_id_key by (auto simp: dict_get_iff_mem distinct_groups_by_id intro!: map_cong)

lemma distinct_values_groups_by_id: "distinct (map snd (groups_by_id groups))"
  by (metis distinct_groups_by_id distinct_map map_g_id_groups_by_id)

lemma mem_groups_by_id:
  "g \<in> set (map snd (groups_by_id groups)) \<longleftrightarrow> dict_get (groups_by_id groups) (g_id g) = Some g"
  using groups_by_id_key [of groups] by (force simp: dict_get_iff_mem distinct_groups_by_id)

lemma groups_by_id_distinct:
  assumes "distinct (map g_id groups)"
  shows "mset (map snd (groups_by_id groups)) = mset groups"
proof -
  have "dict_get (groups_by_id groups) (g_id g) = Some g" if g: "g \<in> set groups" for g
  proof -
    have "dict_has (groups_by_id groups) (g_id g)" using g by simp
    then obtain h where h: "dict_get (groups_by_id groups) (g_id g) = Some h"
      by (auto simp: dict_has_def)
    then have "g_id h = g_id g" "h \<in> set groups" using groups_by_id_key by blast+
    with assms g h show ?thesis by (auto simp: distinct_map dest: inj_onD)
  qed
  then have "set (map snd (groups_by_id groups)) = set groups"
    using mem_groups_by_id groups_by_id_key by blast
  moreover have "distinct groups" using assms by (simp add: distinct_map)
  ultimately show ?thesis
    using set_eq_iff_mset_eq_distinct distinct_values_groups_by_id by blast
qed

section \<open>Kahn's loop places every id once\<close>

definition ready_inv :: "string set \<Rightarrow> string set \<Rightarrow> indegrees \<Rightarrow> string list \<Rightarrow> bool" where
  "ready_inv K S d r \<longleftrightarrow> distinct r \<and> set r \<inter> S = {} \<and> set r \<subseteq> K \<and>
     (\<forall>k \<in> set r \<union> S. dict_get_or d k 0 = 0)"

lemma relax_inv:
  assumes "ready_inv K S d r" and "g_id g \<in> K" and "relax gid g (d, r) = (d', r')"
  shows "ready_inv K S d' r'"
  using assms by (auto simp: ready_inv_def relax_def Let_def dict_get_or_def split: if_splits)

lemma fold_relax_inv:
  "ready_inv K S d r \<Longrightarrow> g_id ` set gs \<subseteq> K \<Longrightarrow> fold (relax gid) gs (d, r) = (d', r') \<Longrightarrow>
     ready_inv K S d' r'"
proof (induction gs arbitrary: d r)
  case (Cons g gs)
  obtain d1 r1 where 1: "relax gid g (d, r) = (d1, r1)" by fastforce
  have "ready_inv K S d1 r1" using Cons.prems(1,2) by (intro relax_inv [OF _ _ 1]) auto
  from Cons.IH [OF this] Cons.prems 1 show ?case by simp
qed simp

definition placed_inv :: "(string \<times> vm_group) list \<Rightarrow> vm_group list \<Rightarrow> bool" where
  "placed_inv by_id ordered \<longleftrightarrow>
     distinct (map g_id ordered) \<and> (\<forall>g\<in>set ordered. dict_get by_id (g_id g) = Some g)"

lemma kahn_loop_inv:
  assumes "ready_inv K (g_id ` set ordered) d ready"
    and "placed_inv by_id ordered" and "g_id ` set groups \<subseteq> K"
    and "\<And>k. k \<in> K \<Longrightarrow> dict_has by_id k"
    and "\<And>k g. dict_get by_id k = Some g \<Longrightarrow> g_id g = k"
  shows "placed_inv by_id (kahn_loop groups by_id d ready ordered)"
  using assms
proof (induction groups by_id d ready ordered rule: kahn_loop.induct)
  case (1 groups by_id d ready ordered)
  show ?case
  proof (cases "sort ready")
    case Nil
    with 1 show ?thesis by (simp add: kahn_loop.simps)
  next
    case (Cons gid rest)
    obtain d' r' where f: "fold (relax gid) groups (d, rest) = (d', r')" by fastforce
    have sets: "set ready = insert gid (set rest)" and dist: "distinct ready = distinct (gid # rest)"
      using Cons by (metis set_sort list.simps(15), metis distinct_sort)
    then have "dict_has by_id gid" using "1.prems"(1,4) by (auto simp: ready_inv_def)
    then obtain g where g: "dict_get by_id gid = Some g" by (auto simp: dict_has_def)
    with "1.prems"(5) have gid: "g_id g = gid" by simp
    have "ready_inv K (g_id ` set (ordered @ [g])) d rest"
      using "1.prems"(1) sets dist gid by (auto simp: ready_inv_def)
    from fold_relax_inv [OF this "1.prems"(3) f]
    have r: "ready_inv K (g_id ` set (ordered @ [g])) d' r'" .
    have "gid \<notin> g_id ` set ordered" using "1.prems"(1) sets by (auto simp: ready_inv_def)
    then have p: "placed_inv by_id (ordered @ [g])"
      using "1.prems"(2) g gid by (auto simp: placed_inv_def)
    have "placed_inv by_id (kahn_loop groups by_id d' r' (ordered @ [g]))"
      using "1.IH" [OF Cons f [symmetric]] r p "1.prems"(3-5) g by simp
    with Cons f g show ?thesis by (simp add: kahn_loop.simps [of groups by_id d ready ordered])
  qed
qed

lemma initial_indegrees_has [simp]:
  "dict_has (initial_indegrees groups) k \<longleftrightarrow> k \<in> g_id ` set groups"
proof -
  have f: "dict_has (fold (count_dependency gid) deps d) k \<longleftrightarrow> dict_has d k"
    if "dict_has d gid" for gid deps and d :: indegrees and k
    using that by (induction deps arbitrary: d) (auto simp: count_dependency_def)
  have o: "dict_has (fold (\<lambda>g d. fold (count_dependency (g_id g)) (g_dependency_hints g) d) gs d) k
      \<longleftrightarrow> dict_has d k" if "\<And>g. g \<in> set gs \<Longrightarrow> dict_has d (g_id g)" for gs and d :: indegrees
    using that by (induction gs arbitrary: d) (simp_all add: f)
  show ?thesis unfolding initial_indegrees_def by (subst o) auto
qed

lemma distinct_initial_indegrees: "distinct (map fst (initial_indegrees groups))"
proof -
  have f: "distinct (map fst (fold (count_dependency gid) deps d))"
    if "distinct (map fst d)" for gid deps and d :: indegrees
    using that by (induction deps arbitrary: d) (simp_all add: count_dependency_def distinct_dict_set)
  have "distinct (map fst (fold (\<lambda>g d. fold (count_dependency (g_id g)) (g_dependency_hints g) d) gs d))"
    if "distinct (map fst d)" for gs and d :: indegrees
    using that by (induction gs arbitrary: d) (simp_all add: f)
  then show ?thesis by (simp add: initial_indegrees_def)
qed

lemma remainder_placed:
  fixes S :: "string set" and B :: "(string \<times> vm_group) list"
  assumes "distinct ks" and "\<And>k g. dict_get B k = Some g \<Longrightarrow> g_id g = k"
  defines "rest \<equiv> List.map_filter (\<lambda>k. if k \<in> S then None else dict_get B k) ks"
  shows "placed_inv B rest" and "g_id ` set rest \<subseteq> set ks - S"
proof -
  have sub: "g_id ` set (List.map_filter (\<lambda>k. if k \<in> S then None else dict_get B k) ks) \<subseteq> set ks - S" for ks
    using assms(2) by (auto simp: set_map_filter split: if_splits)
  then show "g_id ` set rest \<subseteq> set ks - S" by (simp add: rest_def)
  have "distinct (map g_id (List.map_filter (\<lambda>k. if k \<in> S then None else dict_get B k) ks))"
    using assms(1)
  proof (induction ks)
    case (Cons k ks)
    show ?case
    proof (cases "if k \<in> S then None else dict_get B k")
      case None
      with Cons show ?thesis by (simp add: List.map_filter_simps)
    next
      case (Some g)
      then have "g_id g = k" using assms(2) by (simp split: if_splits)
      with Some Cons sub [of ks] show ?thesis by (auto simp: List.map_filter_simps)
    qed
  qed (simp add: List.map_filter_simps)
  moreover have "dict_get B (g_id g) = Some g" if "g \<in> set rest" for g
    using that assms(2) unfolding rest_def set_map_filter by (auto split: if_splits)
  ultimately show "placed_inv B rest" by (simp add: placed_inv_def rest_def)
qed

lemma placed_inv_append:
  "placed_inv B xs \<Longrightarrow> placed_inv B ys \<Longrightarrow> g_id ` set ys \<inter> g_id ` set xs = {} \<Longrightarrow> placed_inv B (xs @ ys)"
  by (auto simp: placed_inv_def)

lemma kahn_order_placed: "placed_inv (groups_by_id groups) (kahn_order groups)"
proof -
  let ?B = "groups_by_id groups" and ?d = "initial_indegrees groups"
  let ?r = "sort (map fst (filter (\<lambda>(_, n). n = 0) ?d))"
  let ?o = "kahn_loop groups ?B ?d ?r []"
  have zero: "dict_get_or ?d k 0 = 0" if "k \<in> set ?r" for k
  proof -
    from that have "(k, 0) \<in> set ?d" by auto
    then have "dict_get ?d k = Some 0" using dict_get_iff_mem [OF distinct_initial_indegrees] by blast
    then show ?thesis by (simp add: dict_get_or_def)
  qed
  have keys: "set ?r \<subseteq> g_id ` set groups"
  proof
    fix k assume "k \<in> set ?r"
    then have "dict_has ?d k" unfolding dict_has_iff by auto
    then show "k \<in> g_id ` set groups" by simp
  qed
  have "distinct ?r"
    using distinct_initial_indegrees [of groups] by (auto simp: distinct_map intro: inj_on_subset)
  with zero keys have r: "ready_inv (g_id ` set groups) (g_id ` set []) ?d ?r"
    by (simp add: ready_inv_def)
  have o: "placed_inv ?B ?o"
    by (rule kahn_loop_inv [OF r]) (use groups_by_id_key in \<open>auto simp: placed_inv_def\<close>)
  have ks: "distinct (sort (map fst ?B))" by (simp add: distinct_groups_by_id del: list.map_comp)
  have key: "\<And>k g. dict_get ?B k = Some g \<Longrightarrow> g_id g = k" using groups_by_id_key by blast
  note rest = remainder_placed [where B = ?B and S = "set (map g_id ?o)", OF ks key]
  have "placed_inv ?B (?o @ List.map_filter
      (\<lambda>k. if k \<in> set (map g_id ?o) then None else dict_get ?B k) (sort (map fst ?B)))"
    by (rule placed_inv_append [OF o rest(1)]) (use rest(2) in auto)
  then show ?thesis by (simp only: kahn_order_def Let_def)
qed

text \<open>Every id is placed exactly once.\<close>

lemma kahn_order_covers:
  assumes "dict_get (groups_by_id groups) k = Some g"
  shows "k \<in> g_id ` set (kahn_order groups)"
proof -
  let ?B = "groups_by_id groups"
  obtain o' where o': "kahn_order groups = o' @ List.map_filter
      (\<lambda>k. if k \<in> set (map g_id o') then None else dict_get ?B k) (sort (map fst ?B))"
    by (simp add: kahn_order_def Let_def)
  have k: "k \<in> set (sort (map fst ?B))"
    using assms by (metis dict_has_def dict_has_iff option.distinct(1) set_sort)
  have gid: "g_id g = k" using groups_by_id_key [OF assms] by simp
  show ?thesis
  proof (cases "k \<in> set (map g_id o')")
    case True
    with o' show ?thesis by auto
  next
    case False
    with k assms have "g \<in> set (kahn_order groups)"
      unfolding o' set_append set_map_filter by auto
    with gid show ?thesis by blast
  qed
qed

lemma mset_kahn_order: "mset (kahn_order groups) = mset (map snd (groups_by_id groups))"
proof -
  let ?B = "groups_by_id groups"
  have placed: "placed_inv ?B (kahn_order groups)" by (rule kahn_order_placed)
  have all: "g \<in> set (kahn_order groups)" if "g \<in> set (map snd ?B)" for g
  proof -
    from that have g: "dict_get ?B (g_id g) = Some g" by (simp only: mem_groups_by_id)
    then obtain h where h: "h \<in> set (kahn_order groups)" "g_id h = g_id g"
      using kahn_order_covers by fastforce
    from placed h(1) have "dict_get ?B (g_id h) = Some h" by (simp only: placed_inv_def)
    then have "Some h = Some g" using g by (simp only: h(2))
    with h(1) show ?thesis by (simp only: option.inject)
  qed
  have sub: "g \<in> set (map snd ?B)" if "g \<in> set (kahn_order groups)" for g
  proof -
    from placed that have "dict_get ?B (g_id g) = Some g" by (simp only: placed_inv_def)
    then show ?thesis by (simp only: mem_groups_by_id)
  qed
  have "set (kahn_order groups) = set (map snd ?B)"
    by (rule set_eqI, rule iffI) (erule sub, erule all)
  moreover have "distinct (kahn_order groups)"
    using placed by (simp add: placed_inv_def distinct_map)
  ultimately show ?thesis
    by (rule iffD1 [OF set_eq_iff_mset_eq_distinct [OF _ distinct_values_groups_by_id], rotated])
qed

lemma group_order_inj: "distinct (map g_id gs) \<Longrightarrow> inj_on group_order (set gs)"
  by (auto simp: group_order_def distinct_map inj_on_def)

lemma topological_sort_by_id:
  "topological_sort groups = sort_key group_order (map snd (groups_by_id groups))"
  unfolding topological_sort_def
proof (rule sort_key_perm)
  show "mset (kahn_order groups) = mset (map snd (groups_by_id groups))" by (rule mset_kahn_order)
  show "inj_on group_order (set (kahn_order groups))"
    using kahn_order_placed [of groups] by (intro group_order_inj) (simp add: placed_inv_def)
qed

lemma topological_sort_distinct:
  assumes "distinct (map g_id groups)"
  shows "topological_sort groups = sort_key group_order groups"
    and "mset (topological_sort groups) = mset groups"
proof -
  have "inj_on group_order (set (map snd (groups_by_id groups)))"
    by (rule group_order_inj) (simp only: map_g_id_groups_by_id distinct_groups_by_id)
  then show "topological_sort groups = sort_key group_order groups"
    unfolding topological_sort_by_id by (rule sort_key_perm [OF groups_by_id_distinct [OF assms]])
  then show "mset (topological_sort groups) = mset groups" by simp
qed

end
