(* ===== verification/Wave_Packing.thy ===== *)
theory Wave_Packing
  imports Wave_Order
begin

text \<open>
  Correctness of the greedy packer of \<open>app/core/wave_skeleton.py\<close>. The packing loop is
  proved once, against any policy that can always place an acceptable group and keeps an
  invariant relating the packer's dictionaries to the groups placed so far; the code's search
  and bookkeeping are two instances of it, without and with the HA cap.
\<close>

section \<open>The contract between the loop and the search\<close>

locale packing_policy =
  fixes target :: "vm_group \<Rightarrow> pack_state \<Rightarrow> skeleton_error + nat"
    and place :: "vm_group \<Rightarrow> nat \<Rightarrow> pack_state \<Rightarrow> pack_state"
    and inv :: "vm_group list \<Rightarrow> pack_state \<Rightarrow> bool"
    and ok :: "vm_group \<Rightarrow> bool"
  assumes target_total: "inv packed st \<Longrightarrow> ok g \<Longrightarrow> \<exists>n. target g st = Inr n"
    and place_inv: "inv packed st \<Longrightarrow> ok g \<Longrightarrow> g_id g \<notin> g_id ` set packed \<Longrightarrow>
      target g st = Inr n \<Longrightarrow> inv (packed @ [g]) (place g n st)"
begin

lemma pack_groups_inv:
  assumes "inv packed st" and "\<And>g. g \<in> set gs \<Longrightarrow> ok g" and "distinct (map g_id (packed @ gs))"
  shows "\<exists>st'. pack_groups target place gs st = Inr st' \<and> inv (packed @ gs) st'"
  using assms
proof (induction gs arbitrary: packed st)
  case Nil
  then show ?case by simp
next
  case (Cons g gs)
  obtain n where n: "target g st = Inr n"
    using target_total [OF Cons.prems(1)] Cons.prems(2) by fastforce
  have "inv (packed @ [g]) (place g n st)"
    using Cons.prems by (intro place_inv [OF Cons.prems(1) _ _ n]) auto
  then have "\<exists>st'. pack_groups target place gs (place g n st) = Inr st' \<and> inv ((packed @ [g]) @ gs) st'"
    by (rule Cons.IH) (use Cons.prems in auto)
  with n show ?case by simp
qed

end

section \<open>The search\<close>

lemma search_wave_Some:
  "search_wave p m c = Some n \<Longrightarrow> c \<le> n \<and> n \<le> m \<and> p n \<and> (\<forall>k. c \<le> k \<longrightarrow> k < n \<longrightarrow> \<not> p k)"
proof (induction p m c rule: search_wave.induct)
  case (1 p m c)
  show ?case
  proof (cases "c \<le> m \<and> \<not> p c")
    case True
    then have "search_wave p m (c + 1) = Some n"
      using 1(2) by (simp add: search_wave.simps [of p m c])
    then have "c + 1 \<le> n \<and> n \<le> m \<and> p n \<and> (\<forall>k. c + 1 \<le> k \<longrightarrow> k < n \<longrightarrow> \<not> p k)"
      using 1(1) True by blast
    with True show ?thesis by (metis Suc_eq_plus1 Suc_leD le_antisym not_less_eq_eq)
  next
    case False
    with 1(2) show ?thesis by (auto simp: search_wave.simps [of p m c] split: if_splits)
  qed
qed

lemma search_wave_finds: "p n \<Longrightarrow> c \<le> n \<Longrightarrow> n \<le> m \<Longrightarrow> search_wave p m c \<noteq> None"
proof (induction p m c rule: search_wave.induct)
  case (1 p m c)
  show ?case
  proof (cases "p c")
    case False
    with 1(2,3) have "c + 1 \<le> n" by (metis Suc_eq_plus1 Suc_leI le_neq_implies_less)
    with 1 False show ?thesis by (simp add: search_wave.simps [of p m c])
  qed (use 1(3,4) in \<open>simp add: search_wave.simps [of p m c]\<close>)
qed

lemma min_wave_fold:
  fixes wfg :: "string \<rightharpoonup> nat"
  defines "step \<equiv> \<lambda>dep m. case wfg dep of None \<Rightarrow> m | Some p \<Rightarrow> max m (p + 1)"
  shows "m \<le> fold step deps m"
    and "dep \<in> set deps \<Longrightarrow> wfg dep = Some p \<Longrightarrow> p < fold step deps m"
    and "m \<le> b + 1 \<Longrightarrow> (\<And>k p. wfg k = Some p \<Longrightarrow> p \<le> b) \<Longrightarrow> fold step deps m \<le> b + 1"
proof -
  show mono: "m \<le> fold step deps m" for m deps
  proof (induction deps arbitrary: m)
    case (Cons dep deps)
    have "m \<le> step dep m" by (simp add: step_def split: option.split)
    with Cons [of "step dep m"] show ?case by simp
  qed simp
  show "dep \<in> set deps \<Longrightarrow> wfg dep = Some p \<Longrightarrow> p < fold step deps m"
  proof (induction deps arbitrary: m)
    case (Cons d deps)
    show ?case
    proof (cases "d = dep")
      case True
      with Cons.prems mono [of "step d m" deps] show ?thesis by (simp add: step_def)
    qed (use Cons in auto)
  qed simp
  show "m \<le> b + 1 \<Longrightarrow> (\<And>k p. wfg k = Some p \<Longrightarrow> p \<le> b) \<Longrightarrow> fold step deps m \<le> b + 1"
    by (induction deps arbitrary: m) (auto simp: step_def split: option.split)
qed

lemma min_wave_from_deps_bounds:
  "1 \<le> min_wave_from_deps g wfg"
  "dep \<in> set (g_dependency_hints g) \<Longrightarrow> wfg dep = Some p \<Longrightarrow> p < min_wave_from_deps g wfg"
  "(\<And>k p. wfg k = Some p \<Longrightarrow> p \<le> b) \<Longrightarrow> min_wave_from_deps g wfg \<le> b + 1"
  unfolding min_wave_from_deps_def by (rule min_wave_fold; simp)+

section \<open>The packing invariant\<close>

definition wave_ok :: "assigner \<Rightarrow> nat \<Rightarrow> wave \<Rightarrow> bool" where
  "wave_ok a n w \<longleftrightarrow> w_wave_number w = n \<and> w_groups w \<noteq> [] \<and> w_concurrency_group_id w = 0 \<and>
     w_vm_count w \<le> max_vms_per_wave a \<and> (\<forall>g\<in>set (w_groups w). same_plan_cr (hd (w_groups w)) g)"

definition packed_groups :: "pack_state \<Rightarrow> vm_group list" where
  "packed_groups st = concat (map (\<lambda>(_, w). w_groups w) (ps_waves st))"

definition deps_respected :: "(string \<rightharpoonup> nat) \<Rightarrow> vm_group list \<Rightarrow> bool" where
  "deps_respected wfg packed \<longleftrightarrow>
     sorted_wrt (\<lambda>h g. g_id h \<in> set (g_dependency_hints g) \<longrightarrow>
       the (wfg (g_id h)) < the (wfg (g_id g))) packed"

definition pack_inv :: "assigner \<Rightarrow> vm_group list \<Rightarrow> pack_state \<Rightarrow> bool" where
  "pack_inv a packed st \<longleftrightarrow>
     distinct (map fst (ps_waves st)) \<and>
     set (map fst (ps_waves st)) = {1..length (ps_waves st)} \<and>
     (\<forall>n w. dict_get (ps_waves st) n = Some w \<longrightarrow> wave_ok a n w) \<and>
     mset (packed_groups st) = mset packed \<and>
     (\<forall>n w g. dict_get (ps_waves st) n = Some w \<longrightarrow> g \<in> set (w_groups w) \<longrightarrow>
        ps_wave_for_group st (g_id g) = Some n) \<and>
     dom (ps_wave_for_group st) = g_id ` set packed \<and>
     (\<forall>k n. ps_wave_for_group st k = Some n \<longrightarrow> n \<le> length (ps_waves st)) \<and>
     (\<forall>n f. dict_get (ps_waves st) n = None \<longrightarrow> ps_family_per_wave st n f = 0) \<and>
     deps_respected (ps_wave_for_group st) packed"

lemma pack_inv_init: "pack_inv a [] init_pack"
  by (simp add: pack_inv_def init_pack_def packed_groups_def deps_respected_def)

lemma pack_inv_wave: "pack_inv a packed st \<Longrightarrow> dict_get (ps_waves st) n = Some w \<Longrightarrow> wave_ok a n w"
  unfolding pack_inv_def by blast

lemma pack_inv_keys:
  assumes "pack_inv a packed st"
  shows "dict_get (ps_waves st) n = None \<longleftrightarrow> n \<notin> {1..length (ps_waves st)}"
proof -
  have "set (map fst (ps_waves st)) = {1..length (ps_waves st)}"
    using assms by (simp add: pack_inv_def)
  then show ?thesis using dict_has_iff [of "ps_waves st" n] by (simp only: dict_has_def) blast
qed

text \<open>A wave that does not exist yet takes any group of admissible size.\<close>

lemma fresh_wave_accepts:
  assumes "pack_inv a packed st" and "dict_get (ps_waves st) n = None"
    and "length (g_vm_ids g) \<le> max_vms_per_wave a"
  shows "wave_accepts a g st family n"
proof -
  have "ps_family_per_wave st n f = 0" for f using assms(1,2) by (simp add: pack_inv_def)
  with assms(2,3) show ?thesis
    by (auto simp: wave_accepts_def enforce_family_def split: option.split)
qed

lemma find_target_wave_Inr:
  assumes inv: "pack_inv a packed st" and size: "length (g_vm_ids g) \<le> max_vms_per_wave a"
    and mw: "1 \<le> m" "m \<le> length (ps_waves st) + 1"
  shows "\<exists>n. find_target_wave a g st m family = Inr n \<and> m \<le> n \<and> n \<le> length (ps_waves st) + 1
    \<and> wave_accepts a g st family n"
proof -
  let ?L = "length (ps_waves st)" and ?p = "wave_accepts a g st family"
  let ?mx = "max (m + ?L + 2) 1024"
  have "dict_get (ps_waves st) (?L + 1) = None" using pack_inv_keys [OF inv] by simp
  then have fresh: "?p (?L + 1)" by (rule fresh_wave_accepts [OF inv _ size])
  have "search_wave ?p ?mx m \<noteq> None"
    by (rule search_wave_finds [where p = ?p, OF fresh mw(2)]) simp
  then obtain n where n: "search_wave ?p ?mx m = Some n" by blast
  note s = search_wave_Some [OF n]
  have "n \<le> ?L + 1"
  proof (rule ccontr)
    assume "\<not> n \<le> ?L + 1"
    with s mw(2) fresh show False by (meson not_le)
  qed
  with n s show ?thesis by (simp add: find_target_wave_def Let_def)
qed

lemma pack_target_Inr:
  assumes inv: "pack_inv a packed st" and size: "length (g_vm_ids g) \<le> max_vms_per_wave a"
  shows "\<exists>n. pack_target a fams g st = Inr n \<and>
    min_wave_from_deps g (ps_wave_for_group st) \<le> n \<and> n \<le> length (ps_waves st) + 1 \<and>
    wave_accepts a g st (fams (g_id g)) n"
  unfolding pack_target_def
proof (rule find_target_wave_Inr [OF inv size])
  show "1 \<le> min_wave_from_deps g (ps_wave_for_group st)" by (rule min_wave_from_deps_bounds)
  show "min_wave_from_deps g (ps_wave_for_group st) \<le> length (ps_waves st) + 1"
    using inv by (intro min_wave_from_deps_bounds) (simp add: pack_inv_def)
qed

section \<open>Placing a group\<close>

definition wave_at :: "pack_state \<Rightarrow> nat \<Rightarrow> wave" where
  "wave_at st n = (case dict_get (ps_waves st) n of None \<Rightarrow> new_wave n | Some w \<Rightarrow> w)"

lemma place_group_fields:
  "ps_wave_for_group (place_group a g fam n st) = (ps_wave_for_group st)(g_id g \<mapsto> n)"
  "ps_waves (place_group a g fam n st) =
     dict_set n ((wave_at st n)\<lparr>w_groups := w_groups (wave_at st n) @ [g]\<rparr>) (ps_waves st)"
  "m \<noteq> n \<Longrightarrow> ps_family_per_wave (place_group a g fam n st) m = ps_family_per_wave st m"
  by (auto simp: place_group_def wave_at_def Let_def split: option.split)

lemma length_dict_set:
  "length (dict_set k v d) = (if dict_has d k then length d else Suc (length d))"
  by (induction d) (auto simp: dict_has_def split: if_splits)

lemma mset_concat_dict_set:
  "distinct (map fst d) \<Longrightarrow>
   mset (concat (map (\<lambda>(_, w). f w) (dict_set k v d))) +
     (case dict_get d k of None \<Rightarrow> {#} | Some w \<Rightarrow> mset (f w)) =
   mset (f v) + mset (concat (map (\<lambda>(_, w). f w) d))"
proof (induction d)
  case (Cons p d)
  obtain k' w where p: "p = (k', w)" by fastforce
  show ?case
  proof (cases "k' = k")
    case False
    with Cons p have "mset (concat (map (\<lambda>(_, w). f w) (dict_set k v d))) +
        (case dict_get d k of None \<Rightarrow> {#} | Some w \<Rightarrow> mset (f w)) =
      mset (f v) + mset (concat (map (\<lambda>(_, w). f w) d))" by simp
    with False p show ?thesis by (simp add: ac_simps)
  qed (simp add: p ac_simps)
qed simp

lemma mset_packed_place:
  assumes "distinct (map fst (ps_waves st))"
  shows "mset (packed_groups (place_group a g fam n st)) = add_mset g (mset (packed_groups st))"
proof -
  let ?w = "wave_at st n"
  have "mset (packed_groups (place_group a g fam n st)) +
      (case dict_get (ps_waves st) n of None \<Rightarrow> {#} | Some w \<Rightarrow> mset (w_groups w)) =
    mset (w_groups ?w @ [g]) + mset (packed_groups st)"
    using mset_concat_dict_set [OF assms, of w_groups n "?w\<lparr>w_groups := w_groups ?w @ [g]\<rparr>"]
    unfolding packed_groups_def place_group_fields by simp
  then show ?thesis
    by (cases "dict_get (ps_waves st) n") (simp_all add: wave_at_def new_wave_def)
qed

text \<open>The wave a group was accepted into is still well formed with the group in it.\<close>

lemma wave_ok_append:
  assumes inv: "pack_inv a packed st" and acc: "wave_accepts a g st fam n"
  shows "wave_ok a n ((wave_at st n)\<lparr>w_groups := w_groups (wave_at st n) @ [g]\<rparr>)"
proof (cases "dict_get (ps_waves st) n")
  case None
  with acc show ?thesis
    by (auto simp: wave_at_def new_wave_def wave_ok_def wave_accepts_def w_vm_count_def)
next
  case (Some w)
  then have w: "wave_ok a n w" using inv unfolding pack_inv_def by blast
  then obtain seed rest where gs: "w_groups w = seed # rest"
    by (cases "w_groups w") (auto simp: wave_ok_def)
  from acc Some gs have "same_plan_cr seed g" "w_vm_count w + length (g_vm_ids g) \<le> max_vms_per_wave a"
    by (simp_all add: wave_accepts_def)
  with w gs Some show ?thesis
    by (auto simp: wave_at_def wave_ok_def w_vm_count_def)
qed

lemma deps_respected_append:
  assumes "deps_respected wfg packed" and "g_id g \<notin> g_id ` set packed"
    and "dom wfg = g_id ` set packed"
    and "\<And>dep p. dep \<in> set (g_dependency_hints g) \<Longrightarrow> wfg dep = Some p \<Longrightarrow> p < n"
  shows "deps_respected (wfg(g_id g \<mapsto> n)) (packed @ [g])"
proof -
  have old: "(wfg(g_id g \<mapsto> n)) (g_id h) = wfg (g_id h)" if "h \<in> set packed" for h
  proof -
    from that have "g_id h \<in> g_id ` set packed" by (rule imageI)
    with assms(2) have "g_id h \<noteq> g_id g" by metis
    then show ?thesis by simp
  qed
  have "deps_respected (wfg(g_id g \<mapsto> n)) packed"
    using assms(1) unfolding deps_respected_def
    by (rule sorted_wrt_mono_rel [rotated]) (simp only: old)
  moreover have "the ((wfg(g_id g \<mapsto> n)) (g_id h)) < n"
    if h: "h \<in> set packed" "g_id h \<in> set (g_dependency_hints g)" for h
  proof -
    have "g_id h \<in> dom wfg" using h(1) assms(3) by blast
    then obtain p where "wfg (g_id h) = Some p" by blast
    with assms(4) [OF h(2)] old [OF h(1)] show ?thesis by simp
  qed
  ultimately show ?thesis by (auto simp: deps_respected_def sorted_wrt_append)
qed

lemma pack_place_inv:
  assumes inv: "pack_inv a packed st" and size: "length (g_vm_ids g) \<le> max_vms_per_wave a"
    and new: "g_id g \<notin> g_id ` set packed" and t: "pack_target a fams g st = Inr n"
  shows "pack_inv a (packed @ [g]) (pack_place a fams g n st)"
proof -
  let ?st = "pack_place a fams g n st" and ?L = "length (ps_waves st)" and ?W = "ps_waves st"
  let ?w = "(wave_at st n)\<lparr>w_groups := w_groups (wave_at st n) @ [g]\<rparr>"
  have F: "ps_wave_for_group ?st = (ps_wave_for_group st)(g_id g \<mapsto> n)"
      "ps_waves ?st = dict_set n ?w ?W"
      "\<And>m. m \<noteq> n \<Longrightarrow> ps_family_per_wave ?st m = ps_family_per_wave st m"
    unfolding pack_place_def by (simp_all only: place_group_fields not_False_eq_True)
  from pack_target_Inr [OF inv size, of fams] t
  have low: "min_wave_from_deps g (ps_wave_for_group st) \<le> n" and high: "n \<le> ?L + 1"
    and acc: "wave_accepts a g st (fams (g_id g)) n" by auto
  from low have n1: "1 \<le> n" using min_wave_from_deps_bounds(1) by (rule order_trans [rotated])
  have dist: "distinct (map fst ?W)" and keys: "set (map fst ?W) = {1..?L}"
    and wfg: "\<And>n w g. dict_get ?W n = Some w \<Longrightarrow> g \<in> set (w_groups w) \<Longrightarrow>
        ps_wave_for_group st (g_id g) = Some n"
    and dm: "dom (ps_wave_for_group st) = g_id ` set packed"
    and ran: "\<And>k n. ps_wave_for_group st k = Some n \<Longrightarrow> n \<le> ?L"
    and ms: "mset (packed_groups st) = mset packed"
    using inv unfolding pack_inv_def by blast+
  have len: "length (dict_set n ?w ?W) = max ?L n"
    using high n1 keys by (auto simp: length_dict_set dict_has_iff)
  have c1: "distinct (map fst (ps_waves ?st))" by (simp only: F distinct_dict_set [OF dist])
  have c2: "set (map fst (ps_waves ?st)) = {1..length (ps_waves ?st)}"
    unfolding F(2) len keys_dict_set keys using high n1 by auto
  have c3: "wave_ok a m w" if "dict_get (ps_waves ?st) m = Some w" for m w
    using that wave_ok_append [OF inv acc] inv unfolding F(2) dict_get_set pack_inv_def
    by (auto split: if_splits)
  have c4: "mset (packed_groups ?st) = mset (packed @ [g])"
    using mset_packed_place [OF dist, of a g "fams (g_id g)" n] ms by (simp add: pack_place_def)
  have c5: "ps_wave_for_group ?st (g_id h) = Some m"
    if w: "dict_get (ps_waves ?st) m = Some w" and h: "h \<in> set (w_groups w)" for m w h
  proof (cases "h = g \<and> m = n")
    case True
    then show ?thesis by (simp add: F)
  next
    case False
    then obtain w' where w': "dict_get ?W m = Some w'" "h \<in> set (w_groups w')"
      using w h unfolding F(2) dict_get_set
      by (auto simp: wave_at_def new_wave_def split: if_splits option.splits)
    then have old: "ps_wave_for_group st (g_id h) = Some m" by (rule wfg)
    then have "g_id h \<in> g_id ` set packed" using dm by blast
    with new have "g_id h \<noteq> g_id g" by auto
    with old show ?thesis by (simp add: F)
  qed
  have c6: "dom (ps_wave_for_group ?st) = g_id ` set (packed @ [g])"
    using dm by (auto simp: F)
  have c7: "m \<le> length (ps_waves ?st)" if "ps_wave_for_group ?st k = Some m" for k m
    using that ran [of k m] unfolding F len by (auto split: if_splits)
  have c8: "ps_family_per_wave ?st m f = 0" if "dict_get (ps_waves ?st) m = None" for m f
    using that inv F(3) [of m] unfolding F(2) dict_get_set pack_inv_def by (auto split: if_splits)
  have c9: "deps_respected (ps_wave_for_group ?st) (packed @ [g])"
    unfolding F(1)
  proof (rule deps_respected_append [OF _ new dm])
    show "deps_respected (ps_wave_for_group st) packed" using inv by (simp only: pack_inv_def)
    show "p < n" if "dep \<in> set (g_dependency_hints g)" "ps_wave_for_group st dep = Some p" for dep p
      using min_wave_from_deps_bounds(2) [where wfg = "ps_wave_for_group st", OF that] low by (rule less_le_trans)
  qed
  show ?thesis unfolding pack_inv_def using c1 c2 c3 c4 c5 c6 c7 c8 c9 by blast
qed

interpretation packer: packing_policy "pack_target a fams" "pack_place a fams" "pack_inv a"
    "\<lambda>g. length (g_vm_ids g) \<le> max_vms_per_wave a" for a fams
  by unfold_locales (blast dest: pack_target_Inr, rule pack_place_inv)

section \<open>The HA cap\<close>

text \<open>
  The members of a family in one wave: either one primary on its own (the counter is then
  full), or replicas and members whose count is the counter and within the cap.
\<close>

definition family_in_wave :: "(string \<rightharpoonup> string) \<Rightarrow> string \<Rightarrow> wave \<Rightarrow> vm_group list" where
  "family_in_wave fams f w = filter (\<lambda>g. fams (g_id g) = Some f) (w_groups w)"

definition ha_wave_ok :: "nat \<Rightarrow> nat \<Rightarrow> vm_group list \<Rightarrow> bool" where
  "ha_wave_ok h counter peers \<longleftrightarrow> counter \<le> h \<and> list_all (\<lambda>g. 1 \<le> ha_count g) peers \<and>
     ((\<exists>g. peers = [g] \<and> has_primary g \<and> ha_count g \<le> 1 \<and> counter = h) \<or>
      (list_all (\<lambda>g. \<not> has_primary g) peers \<and> sum_list (map ha_count peers) = counter))"

definition ha_admissible :: "assigner \<Rightarrow> (string \<rightharpoonup> string) \<Rightarrow> vm_group \<Rightarrow> bool" where
  "ha_admissible a fams g \<longleftrightarrow> length (g_vm_ids g) \<le> max_vms_per_wave a \<and> 1 \<le> max_ha_peers_per_wave a \<and>
     (fams (g_id g) \<noteq> None \<longrightarrow> 1 \<le> ha_count g \<and> ha_count g \<le> effective_family_cap a g)"

definition ha_pack_inv :: "assigner \<Rightarrow> (string \<rightharpoonup> string) \<Rightarrow> vm_group list \<Rightarrow> pack_state \<Rightarrow> bool" where
  "ha_pack_inv a fams packed st \<longleftrightarrow> pack_inv a packed st \<and>
     (\<forall>n f. ha_wave_ok (max_ha_peers_per_wave a) (ps_family_per_wave st n f)
        (family_in_wave fams f (wave_at st n)))"

lemma ha_pack_inv_init: "ha_pack_inv a fams [] init_pack"
  unfolding ha_pack_inv_def
  by (rule conjI [OF pack_inv_init])
    (simp add: ha_wave_ok_def init_pack_def wave_at_def family_in_wave_def new_wave_def)

lemma ha_wave_ok_place:
  assumes ok: "ha_wave_ok h counter peers" and pos: "1 \<le> ha_count g" "1 \<le> h"
    and room: "counter + ha_count g \<le> (if has_primary g then 1 else h)"
  shows "ha_wave_ok h (if has_primary g then h else counter + ha_count g) (peers @ [g])"
proof (cases "has_primary g")
  case True
  with room pos have c: "counter = 0" "ha_count g = 1" by auto
  have "peers = []" using ok c pos by (cases peers) (auto simp: ha_wave_ok_def)
  with True c show ?thesis by (simp add: ha_wave_ok_def)
next
  case False
  with ok room pos show ?thesis by (auto simp: ha_wave_ok_def)
qed

lemma wave_at_place:
  "wave_at (place_group a g fam n st) m =
     (if m = n then (wave_at st n)\<lparr>w_groups := w_groups (wave_at st n) @ [g]\<rparr> else wave_at st m)"
  by (simp add: wave_at_def [of "place_group a g fam n st"] place_group_fields(2)) (simp add: wave_at_def)

lemma family_counter_place:
  "ps_family_per_wave (place_group a g fam n st) m f =
     (if m = n \<and> fam = Some f
      then (if has_primary g then max_ha_peers_per_wave a
            else ps_family_per_wave st n f + ha_count g)
      else ps_family_per_wave st m f)"
  by (auto simp: place_group_def Let_def split: option.split)

lemma ha_pack_place_inv:
  assumes inv: "ha_pack_inv a fams packed st" and ok: "ha_admissible a fams g"
    and new: "g_id g \<notin> g_id ` set packed" and t: "pack_target a fams g st = Inr n"
  shows "ha_pack_inv a fams (packed @ [g]) (pack_place a fams g n st)"
proof -
  let ?st = "pack_place a fams g n st" and ?h = "max_ha_peers_per_wave a"
  have base: "pack_inv a packed st" using inv by (simp add: ha_pack_inv_def)
  have size: "length (g_vm_ids g) \<le> max_vms_per_wave a" using ok by (simp add: ha_admissible_def)
  have acc: "wave_accepts a g st (fams (g_id g)) n" using pack_target_Inr [OF base size, of fams] t by force
  have "ha_wave_ok ?h (ps_family_per_wave ?st m f) (family_in_wave fams f (wave_at ?st m))" for m f
  proof -
    have old: "ha_wave_ok ?h (ps_family_per_wave st m f) (family_in_wave fams f (wave_at st m))"
      using inv by (simp add: ha_pack_inv_def)
    show ?thesis
    proof (cases "m = n \<and> fams (g_id g) = Some f")
      case True
      then have pos: "1 \<le> ha_count g" "1 \<le> ?h" and enf: "enforce_family a g (Some f)"
        using ok by (auto simp: ha_admissible_def enforce_family_def)
      from acc True enf have "ps_family_per_wave st m f + ha_count g \<le> (if has_primary g then 1 else ?h)"
        by (simp add: wave_accepts_def Let_def effective_family_cap_def)
      from ha_wave_ok_place [OF old pos this] True show ?thesis
        by (auto simp: pack_place_def family_counter_place wave_at_place family_in_wave_def)
    next
      case False
      with old show ?thesis
        by (auto simp: pack_place_def family_counter_place wave_at_place family_in_wave_def)
    qed
  qed
  with pack_place_inv [OF base size new t] show ?thesis by (simp add: ha_pack_inv_def)
qed

interpretation ha_packer: packing_policy "pack_target a fams" "pack_place a fams"
    "ha_pack_inv a fams" "ha_admissible a fams" for a fams
proof unfold_locales
  show "\<exists>n. pack_target a fams g st = Inr n"
    if "ha_pack_inv a fams packed st" "ha_admissible a fams g" for packed st g
    using that pack_target_Inr unfolding ha_pack_inv_def ha_admissible_def by blast
qed (rule ha_pack_place_inv)

section \<open>Finishing\<close>

lemma enumerate_upt: "map f xs = [n..<n + length xs] \<Longrightarrow> enumerate n xs = map (\<lambda>x. (f x, x)) xs"
proof (induction xs arbitrary: n)
  case (Cons x xs)
  have "[n..<n + length (x # xs)] = n # [Suc n..<Suc n + length xs]"
    by (simp add: upt_conv_Cons del: upt_Suc)
  with Cons.prems have "f x = n" "map f xs = [Suc n..<Suc n + length xs]" by (simp_all del: upt_Suc)
  with Cons.IH show ?case by simp
qed simp

text \<open>
  The packer opens waves without gaps, so renumbering is the identity on wave numbers and the
  result lists exactly the packed waves.
\<close>

lemma finalize_eq:
  assumes inv: "pack_inv a packed st"
  defines "S \<equiv> sort_key w_wave_number (map snd (ps_waves st))"
  shows "finalize (ps_waves st) = map (\<lambda>w. build_wave (w_wave_number w) (w_groups w) (Some w)) S"
    and "map w_wave_number S = [1..<length (ps_waves st) + 1]"
proof -
  let ?W = "ps_waves st"
  have dist: "distinct (map fst ?W)" and keys: "set (map fst ?W) = {1..length ?W}"
    using inv by (simp_all only: pack_inv_def)
  have num: "w_wave_number w = n" if "(n, w) \<in> set ?W" for n w
  proof -
    have "dict_get ?W n = Some w" using that dict_get_iff_mem [OF dist] by blast
    then show ?thesis using inv by (simp add: pack_inv_def wave_ok_def)
  qed
  have "map w_wave_number (map snd ?W) = map fst ?W" using num by auto
  then have "mset (map w_wave_number S) = mset (map fst ?W)"
    by (simp only: S_def mset_sort_key_map)
  then have "map w_wave_number S = sort (map fst ?W)"
    by (intro properties_for_sort [symmetric]) (simp_all add: S_def)
  also have "\<dots> = [1..<length ?W + 1]"
  proof (rule sorted_distinct_set_unique)
    show "set (sort (map fst ?W)) = set [1..<length ?W + 1]" unfolding set_sort keys by auto
  qed (use dist in \<open>simp_all del: upt_Suc\<close>)
  finally show nums: "map w_wave_number S = [1..<length ?W + 1]" .
  have "enumerate 1 S = map (\<lambda>w. (w_wave_number w, w)) S"
    using nums by (intro enumerate_upt) (simp add: S_def)
  then show "finalize ?W = map (\<lambda>w. build_wave (w_wave_number w) (w_groups w) (Some w)) S"
    by (simp add: finalize_def S_def comp_def)
qed

lemma finalize_mem:
  assumes inv: "pack_inv a packed st" and "w \<in> set (finalize (ps_waves st))"
  obtains n v where "dict_get (ps_waves st) n = Some v" "w = build_wave n (w_groups v) (Some v)"
    "w_wave_number w = n" "mset (w_groups w) = mset (w_groups v)"
proof -
  from assms(2) obtain v where v: "v \<in> set (map snd (ps_waves st))"
      "w = build_wave (w_wave_number v) (w_groups v) (Some v)"
    unfolding finalize_eq [OF inv] by auto
  then obtain n where n: "(n, v) \<in> set (ps_waves st)" by auto
  have "distinct (map fst (ps_waves st))" using inv by (simp only: pack_inv_def)
  then have get: "dict_get (ps_waves st) n = Some v" using n by (simp only: dict_get_iff_mem)
  with inv have "wave_ok a n v" by (rule pack_inv_wave)
  then have "w_wave_number v = n" by (simp add: wave_ok_def)
  with get v(2) show ?thesis by (intro that [of n v]) (simp_all add: build_wave_def Let_def)
qed

lemma finalize_groups:
  assumes inv: "pack_inv a packed st"
  shows "mset (concat (map w_groups (finalize (ps_waves st)))) = mset packed"
proof -
  let ?S = "sort_key w_wave_number (map snd (ps_waves st))"
  have "mset (concat (map w_groups (finalize (ps_waves st)))) = mset (concat (map w_groups ?S))"
    unfolding finalize_eq(1) [OF inv] map_map
    by (rule mset_concat_cong) (simp add: build_wave_def Let_def)
  also have "\<dots> = mset (concat (map w_groups (map snd (ps_waves st))))"
    by (rule mset_concat_map_perm) simp
  also have "\<dots> = mset (packed_groups st)" by (simp add: packed_groups_def case_prod_unfold comp_def)
  finally show ?thesis using inv by (simp only: pack_inv_def)
qed

lemma finalize_length: "length (finalize W) = length W"
  by (simp add: finalize_def)

end
