(* ===== verification/Wave_Properties.thy ===== *)
theory Wave_Properties
  imports Wave_Packing
begin

text \<open>
  What \<open>MechanicalWaveAssigner.assign_waves\<close> guarantees of the waves it returns: it always
  returns, keeps every group, respects the VM cap, the MTV Plan scope, the HA cap and the
  dependencies that the packing order honours.
\<close>

section \<open>From the result back to the packer's last state\<close>

lemma mk_assigner_pos: "0 < max_vms_per_wave (mk_assigner v h)" "0 < max_ha_peers_per_wave (mk_assigner v h)"
  by (simp_all add: mk_assigner_def)

lemma topological_sort_mset:
  "mset (topological_sort groups) = mset (map snd (groups_by_id groups))"
  by (simp add: topological_sort_by_id)

lemma topological_sort_ids: "distinct (map g_id (topological_sort groups))"
proof -
  have "mset (map g_id (topological_sort groups)) = mset (map g_id (map snd (groups_by_id groups)))"
    by (simp only: mset_map topological_sort_mset)
  then have "distinct (map g_id (topological_sort groups)) = distinct (map fst (groups_by_id groups))"
    unfolding map_g_id_groups_by_id by (rule mset_eq_imp_distinct_iff)
  then show ?thesis by (simp only: distinct_groups_by_id)
qed

lemma topological_sort_subset: "set (topological_sort groups) \<subseteq> set groups"
proof
  fix g assume "g \<in> set (topological_sort groups)"
  then have "g \<in> set (map snd (groups_by_id groups))"
    by (simp only: mset_eq_setD [OF topological_sort_mset])
  then have "dict_get (groups_by_id groups) (g_id g) = Some g" by (simp only: mem_groups_by_id)
  then show "g \<in> set groups" using groups_by_id_key by blast
qed

abbreviation packing_order :: "assigner \<Rightarrow> vm_group list \<Rightarrow> vm_group list" where
  "packing_order a groups \<equiv> topological_sort (split_oversized_groups a groups)"

abbreviation order_families :: "assigner \<Rightarrow> vm_group list \<Rightarrow> string \<rightharpoonup> string" where
  "order_families a groups \<equiv> group_to_family (detect_ha_families (packing_order a groups))"

lemma packing_order_size:
  "g \<in> set (packing_order a groups) \<Longrightarrow> length (g_vm_ids g) \<le> max_vms_per_wave a"
  using topological_sort_subset split_oversized_size by blast

lemma assign_waves_state:
  assumes "groups \<noteq> []"
  shows "\<exists>st. pack_inv a (packing_order a groups) st \<and> assign_waves a groups = Inr (finalize (ps_waves st))"
proof -
  let ?o = "packing_order a groups" and ?f = "order_families a groups"
  have "\<exists>st'. pack_groups (pack_target a ?f) (pack_place a ?f) ?o init_pack = Inr st' \<and>
      pack_inv a ([] @ ?o) st'"
    by (rule packer.pack_groups_inv [OF pack_inv_init])
      (simp_all add: packing_order_size topological_sort_ids)
  with assms show ?thesis by (auto simp: assign_waves_def Let_def)
qed

lemma assign_waves_ha_state:
  assumes "groups \<noteq> []" and "\<And>g. g \<in> set (packing_order a groups) \<Longrightarrow> ha_admissible a (order_families a groups) g"
  shows "\<exists>st. ha_pack_inv a (order_families a groups) (packing_order a groups) st \<and>
    assign_waves a groups = Inr (finalize (ps_waves st))"
proof -
  let ?o = "packing_order a groups" and ?f = "order_families a groups"
  have "\<exists>st'. pack_groups (pack_target a ?f) (pack_place a ?f) ?o init_pack = Inr st' \<and>
      ha_pack_inv a ?f ([] @ ?o) st'"
    by (rule ha_packer.pack_groups_inv [OF ha_pack_inv_init])
      (simp_all add: assms(2) topological_sort_ids)
  with assms(1) show ?thesis by (auto simp: assign_waves_def Let_def)
qed

lemma assign_waves_cases:
  assumes "assign_waves a groups = Inr ws"
  obtains (empty) "groups = []" "ws = []"
  | (packed) st where "groups \<noteq> []" "pack_inv a (packing_order a groups) st" "ws = finalize (ps_waves st)"
proof (cases "groups = []")
  case True
  with assms show ?thesis by (intro empty) (simp_all add: assign_waves_def)
next
  case False
  with assign_waves_state [OF False, of a] assms show ?thesis using packed by auto
qed

text \<open>Every wave of the result is a well-formed wave of the packer's last state.\<close>

lemma assign_waves_wave:
  assumes "assign_waves a groups = Inr ws" and "w \<in> set ws"
  obtains st v where "pack_inv a (packing_order a groups) st" "ws = finalize (ps_waves st)"
    "dict_get (ps_waves st) (w_wave_number w) = Some v" "w = build_wave (w_wave_number w) (w_groups v) (Some v)"
    "mset (w_groups w) = mset (w_groups v)" "wave_ok a (w_wave_number w) v"
  using assms(1)
proof (cases rule: assign_waves_cases)
  case empty
  with assms(2) show ?thesis by simp
next
  case (packed st)
  have "w \<in> set (finalize (ps_waves st))" using assms(2) packed(3) by simp
  then obtain n v where v: "dict_get (ps_waves st) n = Some v" "w = build_wave n (w_groups v) (Some v)"
      "w_wave_number w = n" "mset (w_groups w) = mset (w_groups v)"
    by (rule finalize_mem [OF packed(2)])
  have "wave_ok a n v" using packed(2) v(1) by (rule pack_inv_wave)
  with v packed show ?thesis by (intro that [of st v]) simp_all
qed

lemma all_vm_ids_waves: "concat (map w_vm_ids ws) = all_vm_ids (concat (map w_groups ws))"
  by (induction ws) (simp_all add: w_vm_ids_def)

lemma assign_waves_groups:
  assumes "assign_waves a groups = Inr ws"
  shows "mset (concat (map w_groups ws)) = mset (map snd (groups_by_id (split_oversized_groups a groups)))"
  using assms
proof (cases rule: assign_waves_cases)
  case empty
  then show ?thesis by (simp add: split_oversized_groups_def groups_by_id_def dict_of_def)
next
  case (packed st)
  then show ?thesis by (simp only: finalize_groups topological_sort_mset)
qed

lemma wave_aggregate_risk_max:
  assumes "groups \<noteq> []"
  shows "risk_priority (wave_aggregate_risk groups) =
    Max ((\<lambda>g. risk_priority (g_migration_risk g)) ` set groups)"
proof -
  let ?r = "\<lambda>g. risk_priority (g_migration_risk g)"
  define m where "m = fold max (map ?r groups) 0"
  have m: "m = Max (insert 0 (?r ` set groups))"
    using Max.set_eq_fold [of 0 "map ?r groups"] by (simp add: m_def)
  have "?r g \<le> 2" for g by (simp add: risk_priority_def)
  then have "m \<le> 2" unfolding m by (intro Max.boundedI) auto
  moreover have "wave_aggregate_risk groups =
      (if m = 0 then ''low'' else if m = 1 then ''medium'' else ''high'')"
    using assms by (simp only: wave_aggregate_risk_def m_def Let_def if_False)
  ultimately have "risk_priority (wave_aggregate_risk groups) = m"
    by (auto simp: risk_priority_def)
  also have "\<dots> = Max (?r ` set groups)" unfolding m using assms by (subst Max_insert) auto
  finally show ?thesis .
qed

text \<open>In the packing order with distinct ids, the family of a group is its key, if shared.\<close>

lemma map_of_rev_unique:
  "(k, v) \<in> set L \<Longrightarrow> (\<And>v'. (k, v') \<in> set L \<Longrightarrow> v' = v) \<Longrightarrow> map_of (rev L) k = Some v"
proof -
  assume kv: "(k, v) \<in> set L" and u: "\<And>v'. (k, v') \<in> set L \<Longrightarrow> v' = v"
  from kv have "(k, v) \<in> set (rev L)" by simp
  then obtain v' where v': "map_of (rev L) k = Some v'" 
    by (rule exE [OF weak_map_of_SomeI])
  have "(k, v') \<in> set L" using map_of_SomeD [OF v'] by simp
  then have "v' = v" by (rule u)
  with v' show ?thesis by simp
qed

lemma map_of_rev_none: "(\<And>v. (k, v) \<notin> set L) \<Longrightarrow> map_of (rev L) k = None"
  by (cases "map_of (rev L) k") (auto dest: map_of_SomeD)

definition family_size :: "vm_group list \<Rightarrow> string \<Rightarrow> nat" where
  "family_size gs f = length (filter (\<lambda>g. ha_family_key g = Some f) gs)"

lemma detect_ha_families_mem:
  "(f, ids) \<in> set (detect_ha_families gs) \<longleftrightarrow>
     family_size gs f > 1 \<and> ids = map g_id (filter (\<lambda>g. ha_family_key g = Some f) gs)"
proof -
  let ?hs = "filter (\<lambda>g. ha_family_key g \<noteq> None) gs"
  let ?gb = "group_by_key (\<lambda>g. or_empty (ha_family_key g)) ?hs"
  have flt: "filter (\<lambda>g. or_empty (ha_family_key g) = f) ?hs = filter (\<lambda>g. ha_family_key g = Some f) gs"
    by (induction gs) auto
  have mem: "(f, hs) \<in> set ?gb \<longleftrightarrow> hs \<noteq> [] \<and> hs = filter (\<lambda>g. ha_family_key g = Some f) gs" for hs
    unfolding dict_get_iff_mem [OF distinct_group_by_key, symmetric] dict_get_group_by_key flt Let_def
    by auto
  have "(f, ids) \<in> set (detect_ha_families gs) \<longleftrightarrow>
      length ids > 1 \<and> (\<exists>hs. (f, hs) \<in> set ?gb \<and> ids = map g_id hs)"
  proof -
    have "(f, ids) \<in> (\<lambda>(fam, gs). (fam, map g_id gs)) ` S \<longleftrightarrow> (\<exists>hs. (f, hs) \<in> S \<and> ids = map g_id hs)" for S
      by force
    then show ?thesis unfolding detect_ha_families_def set_filter set_map by (simp add: conj_ac)
  qed
  also have "\<dots> \<longleftrightarrow> family_size gs f > 1 \<and> ids = map g_id (filter (\<lambda>g. ha_family_key g = Some f) gs)"
    unfolding mem family_size_def by auto
  finally show ?thesis .
qed

lemma group_to_family_key:
  assumes "distinct (map g_id gs)" and "g \<in> set gs"
  shows "group_to_family (detect_ha_families gs) (g_id g) =
    (case ha_family_key g of None \<Rightarrow> None | Some f \<Rightarrow> if family_size gs f > 1 then Some f else None)"
proof -
  define L where "L = concat (map (\<lambda>(fam, ids). map (\<lambda>i. (i, fam)) ids) (detect_ha_families gs))"
  have same: "g' = g" if "g' \<in> set gs" "g_id g' = g_id g" for g'
    using that assms by (auto simp: distinct_map dest: inj_onD)
  have "(g_id g, f) \<in> set L \<longleftrightarrow> (\<exists>ids. (f, ids) \<in> set (detect_ha_families gs) \<and> g_id g \<in> set ids)" for f
    unfolding L_def by force
  also have "\<dots> f \<longleftrightarrow> family_size gs f > 1 \<and> ha_family_key g = Some f" for f
    unfolding detect_ha_families_mem using same assms(2) by fastforce
  finally have L: "(g_id g, f) \<in> set L \<longleftrightarrow> family_size gs f > 1 \<and> ha_family_key g = Some f" for f .
  have def: "group_to_family (detect_ha_families gs) (g_id g) = map_of (rev L) (g_id g)"
    by (simp only: group_to_family_def L_def)
  show ?thesis
  proof (cases "\<exists>f. (g_id g, f) \<in> set L")
    case True
    then obtain f where f: "(g_id g, f) \<in> set L" by blast
    then have "map_of (rev L) (g_id g) = Some f" by (rule map_of_rev_unique) (use f L in simp)
    with f show ?thesis unfolding def L by simp
  next
    case False
    then have "map_of (rev L) (g_id g) = None" by (intro map_of_rev_none) blast
    with False show ?thesis unfolding def L by (auto split: option.split)
  qed
qed

lemma sorted_wrt_both:
  assumes "sorted_wrt P xs" and "sorted_wrt (\<lambda>x y. f x \<le> (f y :: 'b :: linorder)) xs"
    and "x \<in> set xs" and "y \<in> set xs" and "f x < f y"
  shows "P x y"
  using assms by (induction xs) auto

section \<open>HA families in a wave\<close>

definition peers_in_wave :: "string \<Rightarrow> wave \<Rightarrow> vm_group list" where
  "peers_in_wave f w = filter (\<lambda>g. ha_family_key g = Some f) (w_groups w)"

definition ha_spread :: "nat \<Rightarrow> vm_group list \<Rightarrow> bool" where
  "ha_spread cap peers \<longleftrightarrow> sum_list (map ha_count peers) \<le> cap \<and>
     (list_ex has_primary peers \<longrightarrow> length peers = 1)"

lemma ha_spread_mset: "mset gs = mset hs \<Longrightarrow> ha_spread cap gs \<longleftrightarrow> ha_spread cap hs"
proof -
  assume m: "mset gs = mset hs"
  have "sum_list (map ha_count gs) = sum_list (map ha_count hs)"
    using m by (metis mset_map sum_mset_sum_list)
  moreover have "length gs = length hs" using m by (rule mset_eq_length)
  moreover have "set gs = set hs" using m by (rule mset_eq_setD)
  ultimately show ?thesis by (simp add: ha_spread_def list_ex_iff)
qed

lemma ha_spread_wave_ok: "ha_wave_ok h counter peers \<Longrightarrow> 1 \<le> h \<Longrightarrow> ha_spread h peers"
  by (auto simp: ha_wave_ok_def ha_spread_def list_all_iff list_ex_iff)

lemma ha_spread_alone:
  "length peers \<le> 1 \<Longrightarrow> (\<And>g. g \<in> set peers \<Longrightarrow> ha_count g \<le> h) \<Longrightarrow> ha_spread h peers"
  by (cases peers) (auto simp: ha_spread_def)

lemma ha_family_key_counts: "ha_family_key g = Some f \<Longrightarrow> 1 \<le> ha_count g"
  by (auto simp: ha_family_key_def split: if_splits)

lemma effective_family_cap_le: "1 \<le> max_ha_peers_per_wave a \<Longrightarrow> effective_family_cap a g \<le> max_ha_peers_per_wave a"
  by (simp add: effective_family_cap_def)

lemma mset_member_concat: "x \<in> set xs \<Longrightarrow> mset (f x) \<subseteq># mset (concat (map f xs))"
proof -
  assume "x \<in> set xs"
  then obtain ys zs where "xs = ys @ x # zs" using split_list by fast
  then show ?thesis by simp
qed

lemma peers_unshared:
  assumes "mset (w_groups w) \<subseteq># mset gs" and "\<not> family_size gs f > 1"
  shows "length (peers_in_wave f w) \<le> 1"
proof -
  have "mset (peers_in_wave f w) \<subseteq># mset (filter (\<lambda>g. ha_family_key g = Some f) gs)"
    unfolding peers_in_wave_def mset_filter by (rule multiset_filter_mono [OF assms(1)])
  from size_mset_mono [OF this, unfolded size_mset] show ?thesis
    using assms(2) unfolding family_size_def by linarith
qed

section \<open>Properties\<close>

text \<open>
  C5: the wave search never fails. Whatever groups come in, and whatever the two caps are,
  \<open>assign_waves\<close> returns waves and the RuntimeError of \<open>_find_target_wave\<close> is unreachable.
\<close>

theorem assign_waves_total: "\<exists>ws. assign_waves (mk_assigner v h) groups = Inr ws"
  using assign_waves_state by (cases "groups = []") (auto simp: assign_waves_def)

lemma assign_waves_vm_ids:
  assumes "assign_waves (mk_assigner v h) groups = Inr ws"
    and "distinct (map g_id (split_oversized_groups (mk_assigner v h) groups))"
  shows "mset (concat (map w_vm_ids ws)) = mset (all_vm_ids groups)"
proof -
  let ?s = "split_oversized_groups (mk_assigner v h) groups"
  have "mset (concat (map w_groups ws)) = mset ?s"
    using assign_waves_groups [OF assms(1)] groups_by_id_distinct [OF assms(2)] by simp
  then have "mset (concat (map w_vm_ids ws)) = mset (all_vm_ids ?s)"
    unfolding all_vm_ids_waves by (rule mset_all_vm_ids_perm)
  also have "\<dots> = mset (all_vm_ids groups)"
    unfolding split_oversized_groups_def
    by (rule batch_split.expand_all_vm_ids) (rule mk_assigner_pos)
  finally show ?thesis .
qed

text \<open>
  When the groups, after batch splitting, have pairwise distinct ids, the waves hold every
  VM of the groups exactly as often as the groups do: none lost, none duplicated.
\<close>

theorem assign_waves_conserves_vms:
  assumes "assign_waves (mk_assigner v h) groups = Inr ws"
    and "distinct (map g_id (split_oversized_groups (mk_assigner v h) groups))"
  shows "mset (concat (map w_vm_ids ws)) = mset (all_vm_ids groups)"
  using assms by (rule assign_waves_vm_ids)

text \<open>
  C8: every wave holds at least one group and at most the configured number of VMs, also when
  a group came in larger than the cap.
\<close>

theorem assign_waves_vm_cap:
  assumes "assign_waves (mk_assigner v h) groups = Inr ws" and "w \<in> set ws"
  shows "w_groups w \<noteq> [] \<and> w_vm_count w \<le> max 1 v"
  using assms
proof (rule assign_waves_wave)
  fix x assume m: "mset (w_groups w) = mset (w_groups x)"
    and ok: "wave_ok (mk_assigner v h) (w_wave_number w) x"
  have "w_vm_count w = w_vm_count x"
    using m unfolding w_vm_count_length w_vm_ids_def by (intro mset_eq_length mset_all_vm_ids_perm)
  then show ?thesis using ok m by (auto simp: wave_ok_def mk_assigner_def)
qed

text \<open>
  C9: a wave never mixes source vCenters, target clusters or target namespaces, so each wave
  is executable as one MTV Plan.
\<close>

theorem assign_waves_plan_coherent:
  assumes "assign_waves (mk_assigner v h) groups = Inr ws" and "w \<in> set ws"
    and "g \<in> set (w_groups w)" and "g' \<in> set (w_groups w)"
  shows "same_plan_cr g g'"
  using assms(1,2)
proof (rule assign_waves_wave)
  fix x assume m: "mset (w_groups w) = mset (w_groups x)"
    and ok: "wave_ok (mk_assigner v h) (w_wave_number w) x"
  from mset_eq_setD [OF m] assms(3,4) have "g \<in> set (w_groups x)" "g' \<in> set (w_groups x)" by simp_all
  with ok have "same_plan_cr (hd (w_groups x)) g" "same_plan_cr (hd (w_groups x)) g'"
    by (simp_all add: wave_ok_def)
  then show ?thesis by (rule same_plan_cr_trans [OF same_plan_cr_sym])
qed

text \<open>The waves are numbered 1, 2, ... without gaps, in the order they are returned.\<close>

theorem assign_waves_numbered:
  assumes "assign_waves (mk_assigner v h) groups = Inr ws"
  shows "map w_wave_number ws = [1..<length ws + 1]"
  using assms
proof (cases rule: assign_waves_cases)
  case (packed st)
  note f = finalize_eq [OF packed(2)]
  have "map w_wave_number ws = map w_wave_number (sort_key w_wave_number (map snd (ps_waves st)))"
    unfolding packed(3) f(1) by (simp add: build_wave_def Let_def)
  also have "\<dots> = [1..<length ws + 1]" unfolding f(2) packed(3) finalize_length ..
  finally show ?thesis .
qed simp

text \<open>
  Inside a wave the groups are sorted by role, risk and id, and the wave's risk is the
  highest risk of its groups.
\<close>

theorem assign_waves_sorted_risk:
  assumes "assign_waves (mk_assigner v h) groups = Inr ws" and "w \<in> set ws"
  shows "sorted (map group_order (w_groups w)) \<and>
    risk_priority (w_estimated_risk w) =
      Max ((\<lambda>g. risk_priority (g_migration_risk g)) ` set (w_groups w))"
  using assms
proof (rule assign_waves_wave)
  fix x assume w: "w = build_wave (w_wave_number w) (w_groups x) (Some x)"
    and m: "mset (w_groups w) = mset (w_groups x)"
    and ok: "wave_ok (mk_assigner v h) (w_wave_number w) x"
  have ne: "w_groups w \<noteq> []" using ok m by (auto simp: wave_ok_def)
  have gs: "w_groups w = sort_key group_order (w_groups x)"
    by (subst w) (simp add: build_wave_def Let_def)
  have risk: "w_estimated_risk w = wave_aggregate_risk (w_groups w)"
    by (subst (1) w, subst gs) (simp add: build_wave_def Let_def)
  show ?thesis
  proof
    show "sorted (map group_order (w_groups w))" unfolding gs by simp
    show "risk_priority (w_estimated_risk w) =
      Max ((\<lambda>g. risk_priority (g_migration_risk g)) ` set (w_groups w))"
      unfolding risk using ne by (rule wave_aggregate_risk_max)
  qed
qed

text \<open>
  C25: a dependency that the packing order honours is migrated first. If a group names another
  in its dependency hints, both survive batch splitting under their own distinct ids, and the
  other precedes it in the (role, risk, id) order, then its wave comes strictly later.
\<close>

theorem assign_waves_dependency:
  assumes "assign_waves (mk_assigner v h) groups = Inr ws"
    and "distinct (map g_id (split_oversized_groups (mk_assigner v h) groups))"
    and "w \<in> set ws" and "w' \<in> set ws" and "d \<in> set (w_groups w)" and "g \<in> set (w_groups w')"
    and "g_id d \<in> set (g_dependency_hints g)" and "group_order d < group_order g"
  shows "w_wave_number w < w_wave_number w'"
proof -
  let ?a = "mk_assigner v h" and ?s = "split_oversized_groups (mk_assigner v h) groups"
  have "ws \<noteq> []" using assms(3) by auto
  obtain st where inv: "pack_inv ?a (packing_order ?a groups) st" and ws: "ws = finalize (ps_waves st)"
    using assms(1)
  proof (cases rule: assign_waves_cases)
    case empty
    with \<open>ws \<noteq> []\<close> show ?thesis by simp
  next
    case (packed st)
    then show ?thesis by (intro that)
  qed
  have at: "ps_wave_for_group st (g_id x) = Some (w_wave_number u)"
    if u: "u \<in> set ws" and x: "x \<in> set (w_groups u)" for u x
  proof -
    from u have "u \<in> set (finalize (ps_waves st))" by (simp only: ws)
    then obtain n y where y: "dict_get (ps_waves st) n = Some y" "w_wave_number u = n"
        "mset (w_groups u) = mset (w_groups y)"
      by (rule finalize_mem [OF inv])
    have "x \<in> set (w_groups y)" using x mset_eq_setD [OF y(3)] by simp
    with y inv show ?thesis unfolding pack_inv_def by blast
  qed
  have mem: "x \<in> set (packing_order ?a groups)" if "u \<in> set ws" "x \<in> set (w_groups u)" for u x
  proof -
    have "x \<in> set (concat (map w_groups ws))" using that by auto
    then show ?thesis using finalize_groups [OF inv] mset_eq_setD unfolding ws by blast
  qed
  let ?o = "packing_order ?a groups" and ?P = "\<lambda>h g. g_id h \<in> set (g_dependency_hints g) \<longrightarrow>
    the (ps_wave_for_group st (g_id h)) < the (ps_wave_for_group st (g_id g))"
  have srt: "?o = sort_key group_order ?s" by (rule topological_sort_distinct [OF assms(2)])
  have "sorted_wrt ?P ?o" using inv by (simp only: pack_inv_def deps_respected_def)
  moreover have "sorted_wrt (\<lambda>x y. group_order x \<le> group_order y) ?o"
    unfolding srt by (metis sorted_map sorted_sort_key)
  ultimately have "?P d g"
    using mem [OF assms(3,5)] mem [OF assms(4,6)] assms(8) by (rule sorted_wrt_both)
  with assms(7) at [OF assms(3,5)] at [OF assms(4,6)] show ?thesis by simp
qed


text \<open>
  The topological sort has no effect on the packing order: its last step sorts by a key
  that contains the group id, so for distinct ids the result is that sort of the input alone,
  whatever the dependency hints are.
\<close>

theorem topological_sort_ignores_dependencies:
  assumes "distinct (map g_id groups)"
  shows "topological_sort groups = sort_key group_order groups"
  by (rule topological_sort_distinct [OF assms])

section \<open>Instances\<close>

definition db_group :: vm_group where
  "db_group = example_group ''shop'' ''prod'' ''data'' ''db'' [1, 2] []
     [\<lparr>hm_vm_id = 1, hm_vm_name = ''db-01'', hm_ha_role = ''primary''\<rparr>]"

definition replica_group :: vm_group where
  "replica_group = example_group ''shop'' ''prod'' ''data'' ''rep'' [3] []
     [\<lparr>hm_vm_id = 3, hm_vm_name = ''db-02'', hm_ha_role = ''replica''\<rparr>]"

definition app_group :: vm_group where
  "app_group = example_group ''shop'' ''prod'' ''app'' ''api'' [4, 5] [g_id db_group] []"

definition shop_groups :: "vm_group list" where
  "shop_groups = [app_group, db_group, replica_group]"

lemmas shop_defs = shop_groups_def app_group_def db_group_def replica_group_def example_group_def

definition shop_waves :: "wave list" where
  "shop_waves = [build_wave 1 [db_group] None, build_wave 2 [replica_group, app_group] None]"

lemma shop_result: "assign_waves (mk_assigner 4 2) shop_groups = Inr shop_waves"
  by code_simp

lemma shop_ids: "distinct (map g_id (split_oversized_groups (mk_assigner 4 2) shop_groups))"
  by code_simp

lemma assign_waves_conserves_vms_witness:
  "mset (concat (map w_vm_ids shop_waves)) = mset (all_vm_ids shop_groups)"
  by (rule assign_waves_conserves_vms [OF shop_result shop_ids])

lemma assign_waves_vm_cap_witness:
  "w_groups (hd shop_waves) \<noteq> [] \<and> w_vm_count (hd shop_waves) \<le> max 1 4"
  by (rule assign_waves_vm_cap [OF shop_result]) (simp add: shop_waves_def)

lemma assign_waves_plan_coherent_witness: "same_plan_cr replica_group app_group"
  by (rule assign_waves_plan_coherent [OF shop_result, of "shop_waves ! 1"]) code_simp+

lemma assign_waves_numbered_witness: "map w_wave_number shop_waves = [1..<length shop_waves + 1]"
  by (rule assign_waves_numbered [OF shop_result])

lemma assign_waves_sorted_risk_witness:
  "sorted (map group_order (w_groups (shop_waves ! 1))) \<and>
    risk_priority (w_estimated_risk (shop_waves ! 1)) =
      Max ((\<lambda>g. risk_priority (g_migration_risk g)) ` set (w_groups (shop_waves ! 1)))"
  by (rule assign_waves_sorted_risk [OF shop_result]) (simp add: shop_waves_def)

lemma assign_waves_dependency_witness:
  "w_wave_number (shop_waves ! 0) < w_wave_number (shop_waves ! 1)"
  by (rule assign_waves_dependency [OF shop_result shop_ids, where d = db_group and g = app_group])
    code_simp+


lemma topological_sort_ignores_dependencies_witness:
  "topological_sort shop_groups = sort_key group_order shop_groups"
  by (rule topological_sort_ignores_dependencies) code_simp

section \<open>Where the guarantees stop\<close>

text \<open>
  The packer does not separate environments. A production and a development group of the
  same vCenter, cluster and namespace end up in one wave.
\<close>

theorem environments_share_a_wave:
  "\<exists>p d. gk_environment (g_key p) = ''prod'' \<and> gk_environment (g_key d) = ''dev'' \<and>
     assign_waves default_assigner [p, d] = Inr [build_wave 1 [d, p] None]"
  by (rule exI [of _ "example_group ''shop'' ''prod'' ''app'' ''api'' [1] [] []"],
      rule exI [of _ "example_group ''shop'' ''dev'' ''app'' ''api'' [2] [] []"]) code_simp

text \<open>
  Batch splitting forgets dependencies. A group that depends on an 11-VM group shares a
  wave with the second batch of it, since the batches carry new ids.
\<close>

theorem batches_lose_dependencies:
  "\<exists>db app ws. g_id db \<in> set (g_dependency_hints app) \<and> group_order db < group_order app \<and>
     assign_waves default_assigner [db, app] = Inr ws \<and>
     list_ex (\<lambda>w. \<not> disjnt (set (w_vm_ids w)) (set (g_vm_ids db)) \<and> app \<in> set (w_groups w)) ws"
proof -
  define db where "db = example_group ''shop'' ''prod'' ''data'' ''db'' [1..11] [] []"
  define app where "app = example_group ''shop'' ''prod'' ''app'' ''api'' [12] [g_id db] []"
  define ws where "ws = [build_wave 1 [batch_group db 1 [1..10]] None,
    build_wave 2 [batch_group db 2 [11], app] None]"
  have "assign_waves default_assigner [db, app] = Inr ws"
    unfolding ws_def app_def db_def by code_simp
  moreover have "g_id db \<in> set (g_dependency_hints app) \<and> group_order db < group_order app"
    unfolding app_def db_def by code_simp
  moreover have "list_ex (\<lambda>w. \<not> disjnt (set (w_vm_ids w)) (set (g_vm_ids db)) \<and> app \<in> set (w_groups w)) ws"
    unfolding ws_def app_def db_def by code_simp
  ultimately show ?thesis by blast
qed

text \<open>
  Groups with one id lose VMs. The rendered id does not distinguish the empty namespace
  from the namespace \<open>default\<close>; of two such groups only the last one reaches a wave.
\<close>

theorem colliding_ids_lose_vms:
  "\<exists>g1 g2 ws. g_key g1 \<noteq> g_key g2 \<and> assign_waves default_assigner [g1, g2] = Inr ws \<and>
     concat (map w_vm_ids ws) = g_vm_ids g2 \<and> \<not> set (g_vm_ids g1) \<subseteq> set (g_vm_ids g2)"
  by (rule exI [of _ "example_group '''' ''prod'' ''app'' ''api'' [1] [] []"],
      rule exI [of _ "example_group ''default'' ''prod'' ''app'' ''api'' [2] [] []"],
      rule exI [of _ "[build_wave 1 [example_group ''default'' ''prod'' ''app'' ''api'' [2] [] []] None]"])
    code_simp

end
