(* ===== verification/Wave_Constraints.thy ===== *)
theory Wave_Constraints
  imports Wave_Skeleton
begin

text \<open>
  \<open>app/core/wave_constraints.py\<close>: the planner rules checked on a hand-edited wave layout, and
  the difference an edit makes. A layout is a dictionary from wave numbers to members
  (VM id and name); the violation messages are not modelled.
\<close>

section \<open>The code\<close>

type_synonym wave_members = "(nat \<times> (int \<times> string) list) list"

definition BLOCKING :: string where "BLOCKING = ''blocking''"
definition OVERRIDABLE :: string where "OVERRIDABLE = ''overridable''"
definition INFO :: string where "INFO = ''info''"

record violation =
  v_code :: string
  v_severity :: string
  v_plan_id :: "int option"
  v_wave_number :: "nat option"
  v_family :: "string option"
  v_vm_ids :: "int list"
  v_vm_names :: "string list"
  v_count :: "nat option"
  v_limit :: "nat option"

definition v_key :: "violation \<Rightarrow> string \<times> int option \<times> nat option \<times> string option" where
  "v_key v = (v_code v, v_plan_id v, v_wave_number v, v_family v)"

definition members_of :: "wave_members \<Rightarrow> nat \<Rightarrow> (int \<times> string) list" where
  "members_of waves n = dict_get_or waves n []"

definition wave_size_violations :: "wave_members \<Rightarrow> int option \<Rightarrow> nat \<Rightarrow> violation list" where
  "wave_size_violations waves plan_id max_vms =
     map (\<lambda>n. \<lparr>v_code = ''wave_size'', v_severity = OVERRIDABLE, v_plan_id = plan_id,
           v_wave_number = Some n, v_family = None, v_vm_ids = [], v_vm_names = [],
           v_count = Some (length (members_of waves n)), v_limit = Some max_vms\<rparr>)
       (filter (\<lambda>n. \<not> length (members_of waves n) \<le> max_vms) (sort (map fst waves)))"

definition family_sizes :: "wave_members \<Rightarrow> string \<Rightarrow> nat" where
  "family_sizes waves f =
     count_list (map (\<lambda>m. detect_family (snd m)) (concat (map snd waves))) f"

definition family_violation ::
  "int option \<Rightarrow> nat \<Rightarrow> string \<Rightarrow> (int \<times> string) list \<Rightarrow> nat \<Rightarrow> violation" where
  "family_violation plan_id n f present cap =
     \<lparr>v_code = ''ha_family_cap'', v_severity = OVERRIDABLE, v_plan_id = plan_id,
       v_wave_number = Some n, v_family = Some f, v_vm_ids = map fst present,
       v_vm_names = map snd present, v_count = Some (length present), v_limit = Some cap\<rparr>"

definition wave_family_violations ::
  "(string \<Rightarrow> nat) \<Rightarrow> int option \<Rightarrow> nat \<Rightarrow> (int \<times> string) list \<Rightarrow> violation list" where
  "wave_family_violations sizes plan_id n members =
     (let by_family = group_by_key (\<lambda>m. detect_family (snd m)) members
      in List.map_filter (\<lambda>f.
           let size = sizes f; cap = family_cap size; present = dict_get_or by_family f []
           in if size < 2 then None
              else if length present \<le> cap then None
              else Some (family_violation plan_id n f present cap))
         (sort (map fst by_family)))"

definition ha_family_violations :: "wave_members \<Rightarrow> int option \<Rightarrow> violation list" where
  "ha_family_violations waves plan_id =
     concat (map (\<lambda>n. wave_family_violations (family_sizes waves) plan_id n (members_of waves n))
       (sort (map fst waves)))"

definition check_waves :: "wave_members \<Rightarrow> int option \<Rightarrow> violation list" where
  "check_waves waves plan_id =
     wave_size_violations waves plan_id MAX_VMS_PER_WAVE @ ha_family_violations waves plan_id"

definition count_or_zero :: "violation \<Rightarrow> nat" where
  "count_or_zero v = (case v_count v of None \<Rightarrow> 0 | Some c \<Rightarrow> c)"

definition diff_violations :: "violation list \<Rightarrow> violation list \<Rightarrow> violation list" where
  "diff_violations before after =
     (let prior = dict_of v_key count_or_zero before
      in filter (\<lambda>v. case dict_get prior (v_key v) of
             None \<Rightarrow> True | Some c \<Rightarrow> count_or_zero v > c) after)"

section \<open>What the checks report\<close>

definition family_members :: "wave_members \<Rightarrow> nat \<Rightarrow> string \<Rightarrow> (int \<times> string) list" where
  "family_members waves n f = filter (\<lambda>m. detect_family (snd m) = f) (members_of waves n)"

lemma wave_size_violation_iff:
  "v \<in> set (wave_size_violations waves pid m) \<longleftrightarrow>
     (\<exists>n\<in>set (map fst waves). m < length (members_of waves n) \<and>
       v = \<lparr>v_code = ''wave_size'', v_severity = OVERRIDABLE, v_plan_id = pid,
           v_wave_number = Some n, v_family = None, v_vm_ids = [], v_vm_names = [],
           v_count = Some (length (members_of waves n)), v_limit = Some m\<rparr>)"
  unfolding wave_size_violations_def set_map set_filter set_sort by (auto simp: not_le)

lemma by_family_bucket: "dict_get_or (group_by_key f xs) k [] = filter (\<lambda>x. f x = k) xs"
  by (simp add: dict_get_or_def dict_get_group_by_key Let_def)

lemma by_family_keys:
  "set (map fst (group_by_key f xs)) = f ` set xs"
proof -
  have "k \<in> set (map fst (group_by_key f xs)) \<longleftrightarrow> k \<in> f ` set xs" for k
    by (simp only: dict_has_iff [symmetric] dict_has_def dict_get_group_by_key Let_def)
      (auto simp: filter_empty_conv)
  then show ?thesis by blast
qed

lemma wave_family_violation_iff:
  "v \<in> set (wave_family_violations sizes pid n members) \<longleftrightarrow>
     (\<exists>f. let present = filter (\<lambda>m. detect_family (snd m) = f) members
       in 2 \<le> sizes f \<and> family_cap (sizes f) < length present \<and>
          v = family_violation pid n f present (family_cap (sizes f)))"
proof -
  have key: "f \<in> (\<lambda>m. detect_family (snd m)) ` set members"
    if "c < length (filter (\<lambda>m. detect_family (snd m) = f) members)" for f c
  proof -
    from that have "filter (\<lambda>m. detect_family (snd m) = f) members \<noteq> []" by auto
    then show ?thesis by (auto simp: filter_empty_conv intro: image_eqI)
  qed
  let ?p = "\<lambda>f. filter (\<lambda>m. detect_family (snd m) = f) members"
  have "v \<in> set (wave_family_violations sizes pid n members) \<longleftrightarrow>
      (\<exists>f\<in>(\<lambda>m. detect_family (snd m)) ` set members. 2 \<le> sizes f \<and>
        family_cap (sizes f) < length (?p f) \<and>
        v = family_violation pid n f (?p f) (family_cap (sizes f)))"
    unfolding wave_family_violations_def Let_def set_map_filter set_sort by_family_keys by_family_bucket
    by (simp add: not_less not_le) (metis not_le)
  also have "\<dots> \<longleftrightarrow> (\<exists>f. 2 \<le> sizes f \<and> family_cap (sizes f) < length (?p f) \<and>
      v = family_violation pid n f (?p f) (family_cap (sizes f)))"
    using key by blast
  finally show ?thesis by (simp only: Let_def)
qed

lemma ha_family_violation_iff:
  "v \<in> set (ha_family_violations waves pid) \<longleftrightarrow>
     (\<exists>n\<in>set (map fst waves). \<exists>f. 2 \<le> family_sizes waves f \<and>
       family_cap (family_sizes waves f) < length (family_members waves n f) \<and>
       v = family_violation pid n f (family_members waves n f) (family_cap (family_sizes waves f)))"
  by (simp add: ha_family_violations_def wave_family_violation_iff family_members_def Let_def)

text \<open>
  A layout obeys the planner's rules when every wave has at most ten VMs and at most
  \<open>family_cap\<close> of every name family.
\<close>

definition layout_ok :: "wave_members \<Rightarrow> bool" where
  "layout_ok waves \<longleftrightarrow>
     list_all (\<lambda>n. length (members_of waves n) \<le> MAX_VMS_PER_WAVE \<and>
       (\<forall>f. length (family_members waves n f) \<le> family_cap (family_sizes waves f)))
     (map fst waves)"

lemma family_members_le_size:
  assumes "distinct (map fst waves)" and "n \<in> set (map fst waves)"
  shows "length (family_members waves n f) \<le> family_sizes waves f"
proof -
  from assms(2) obtain ms where ms: "(n, ms) \<in> set waves" by auto
  then have "dict_get waves n = Some ms" using dict_get_iff_mem [OF assms(1)] by blast
  then have mem: "members_of waves n = ms" by (simp add: members_of_def dict_get_or_def)
  have len: "length (filter (\<lambda>m. detect_family (snd m) = f) xs) =
      count_list (map (\<lambda>m. detect_family (snd m)) xs) f" for xs :: "(int \<times> string) list"
    by (induction xs) auto
  from ms obtain xs ys where "waves = xs @ (n, ms) # ys" by (meson split_list)
  then show ?thesis unfolding family_members_def mem len family_sizes_def by simp
qed

lemma check_waves_layout:
  assumes "distinct (map fst waves)"
  shows "check_waves waves pid = [] \<longleftrightarrow> layout_ok waves"
proof -
  have small: "length (family_members waves n f) \<le> family_cap (family_sizes waves f)"
    if "n \<in> set (map fst waves)" "\<not> 2 \<le> family_sizes waves f" for n f
    using family_members_le_size [OF assms that(1), of f] that(2) by (simp add: family_cap_def)
  have size: "wave_size_violations waves pid MAX_VMS_PER_WAVE = [] \<longleftrightarrow>
      (\<forall>n\<in>set (map fst waves). length (members_of waves n) \<le> MAX_VMS_PER_WAVE)"
    by (auto simp: wave_size_violations_def filter_empty_conv)
  have "ha_family_violations waves pid = [] \<longleftrightarrow> (\<forall>v. v \<notin> set (ha_family_violations waves pid))" by auto
  also have "\<dots> \<longleftrightarrow> (\<forall>n\<in>set (map fst waves). \<forall>f. 2 \<le> family_sizes waves f \<longrightarrow>
      \<not> family_cap (family_sizes waves f) < length (family_members waves n f))"
    unfolding ha_family_violation_iff by blast
  also have "\<dots> \<longleftrightarrow> (\<forall>n\<in>set (map fst waves). \<forall>f.
      length (family_members waves n f) \<le> family_cap (family_sizes waves f))"
    using small by (metis not_le)
  finally show ?thesis
    unfolding check_waves_def append_is_Nil_conv size layout_ok_def list_all_iff by blast
qed

text \<open>
  The check is exact. A layout has no standing violation precisely when every wave keeps
  to the VM limit and to the family cap of every family, computed from the family's size over
  the whole layout.
\<close>

theorem check_waves_exact:
  assumes "distinct (map fst waves)"
  shows "check_waves waves pid = [] \<longleftrightarrow> layout_ok waves"
  by (rule check_waves_layout [OF assms])

text \<open>A key names at most one violation of a layout.\<close>

lemma check_waves_key_inj:
  "u \<in> set (check_waves waves pid) \<Longrightarrow> v \<in> set (check_waves waves pid) \<Longrightarrow> v_key u = v_key v \<Longrightarrow> u = v"
  unfolding check_waves_def set_append Un_iff wave_size_violation_iff ha_family_violation_iff
  by (elim disjE bexE exE conjE) (simp_all add: v_key_def family_violation_def)

lemma prior_count:
  assumes "u \<in> set (check_waves waves pid)"
  shows "dict_get (dict_of v_key count_or_zero (check_waves waves pid)) (v_key u) = Some (count_or_zero u)"
proof -
  let ?d = "dict_of v_key count_or_zero (check_waves waves pid)"
  have "dict_has ?d (v_key u)" using assms by simp
  then obtain c where c: "dict_get ?d (v_key u) = Some c" unfolding dict_has_def by blast
  from dict_get_of_Some [OF this]
  obtain w where w: "w \<in> set (check_waves waves pid)" "v_key w = v_key u" "c = count_or_zero w" by blast
  have "w = u" by (rule check_waves_key_inj [OF w(1) assms w(2)])
  with c w(3) show ?thesis by (simp only:)
qed

lemma prior_none:
  "v_key v \<notin> v_key ` set (check_waves waves pid) \<Longrightarrow>
     dict_get (dict_of v_key count_or_zero (check_waves waves pid)) (v_key v) = None"
  using dict_has_of [of v_key count_or_zero "check_waves waves pid" "v_key v"]
  by (simp add: dict_has_def)

text \<open>The comparison written out per violation.\<close>

lemma diff_violations_charged:
  "v \<in> set (diff_violations (check_waves before pid) (check_waves after pid)) \<longleftrightarrow>
     v \<in> set (check_waves after pid) \<and>
     list_all (\<lambda>u. v_key u \<noteq> v_key v \<or> count_or_zero u < count_or_zero v) (check_waves before pid)"
proof (cases "v_key v \<in> v_key ` set (check_waves before pid)")
  case True
  then obtain u where u: "u \<in> set (check_waves before pid)" "v_key v = v_key u" by blast
  have "list_all (\<lambda>u. v_key u \<noteq> v_key v \<or> count_or_zero u < count_or_zero v) (check_waves before pid)
      \<longleftrightarrow> count_or_zero u < count_or_zero v"
    unfolding list_all_iff
  proof (intro iffI ballI)
    assume "\<forall>w\<in>set (check_waves before pid). v_key w \<noteq> v_key v \<or> count_or_zero w < count_or_zero v"
    with u show "count_or_zero u < count_or_zero v" by force
  next
    fix w assume less: "count_or_zero u < count_or_zero v" and w: "w \<in> set (check_waves before pid)"
    show "v_key w \<noteq> v_key v \<or> count_or_zero w < count_or_zero v"
    proof (cases "v_key w = v_key u")
      case True
      with less check_waves_key_inj [OF w u(1)] show ?thesis by simp
    qed (simp add: u(2))
  qed
  then show ?thesis
    unfolding diff_violations_def Let_def set_filter mem_Collect_eq u(2) prior_count [OF u(1)] by simp
next
  case False
  then have "v_key u \<noteq> v_key v" if "u \<in> set (check_waves before pid)" for u
    using that by (metis image_eqI)
  then show ?thesis
    unfolding diff_violations_def Let_def set_filter mem_Collect_eq prior_none [OF False]
    by (simp add: list_all_iff)
qed

text \<open>
  The difference is exact. An edit is charged with a violation of the new layout
  precisely when the old layout had no violation with the same rule, wave and family, or had
  one with a smaller count.
\<close>

theorem diff_violations_exact:
  "v \<in> set (diff_violations (check_waves before pid) (check_waves after pid)) \<longleftrightarrow>
     v \<in> set (check_waves after pid) \<and>
     filter (\<lambda>u. v_key u = v_key v \<and> count_or_zero v \<le> count_or_zero u) (check_waves before pid) = []"
  by (simp add: diff_violations_charged filter_empty_conv list_all_iff not_le disj_not1 not_less)


text \<open>
  An edit that starts from a layout obeying the rules and is charged with nothing ends in
  a layout obeying the rules, and an edit that keeps the rules is charged with nothing.
\<close>

theorem clean_edit_keeps_rules:
  assumes "distinct (map fst before)" and "distinct (map fst after)" and "layout_ok before"
  shows "diff_violations (check_waves before pid) (check_waves after pid) = [] \<longleftrightarrow> layout_ok after"
proof -
  have exact: "check_waves ws pid = [] \<longleftrightarrow> layout_ok ws" if d: "distinct (map fst ws)" for ws
    by (rule check_waves_layout [OF d])
  have "check_waves before pid = []" using exact assms(1,3) by blast
  then have "diff_violations (check_waves before pid) (check_waves after pid) = check_waves after pid"
    by (simp add: diff_violations_def dict_of_def)
  then show ?thesis using exact assms(2) by simp
qed

section \<open>Instances\<close>

definition dc_layout :: wave_members where
  "dc_layout = [(2, [(2, ''AD-DC-02''), (4, ''web-01'')]), (1, [(1, ''AD-DC-01'')])]"

definition dc_layout_merged :: wave_members where
  "dc_layout_merged = [(1, [(1, ''AD-DC-01''), (2, ''AD-DC-02''), (4, ''web-01'')])]"

lemma dc_layout_distinct: "distinct (map fst dc_layout)" "distinct (map fst dc_layout_merged)"
  by code_simp+

lemma dc_layout_clean: "check_waves dc_layout None = []"
  by code_simp

lemma check_waves_exact_witness: "check_waves dc_layout None = [] \<longleftrightarrow> layout_ok dc_layout"
  by (rule check_waves_exact [OF dc_layout_distinct(1)])

lemma clean_edit_keeps_rules_witness:
  "diff_violations (check_waves dc_layout None) (check_waves dc_layout_merged None) = [] \<longleftrightarrow>
     layout_ok dc_layout_merged"
proof (rule clean_edit_keeps_rules [OF dc_layout_distinct])
  show "layout_ok dc_layout" using dc_layout_clean check_waves_layout [OF dc_layout_distinct(1)] by blast
qed

text \<open>
  Stage 3 alone does not keep a family apart. Two domain controllers that the family split
  puts into different groups are packed into one wave again, and the standing check reports
  the family cap broken: the packer counts HA members only, not names.
\<close>

theorem packer_recombines_families:
  "\<exists>ws. assign_waves default_assigner (split_overconcentrated_families [dc_group] dc_names) = Inr ws \<and>
     length (split_overconcentrated_families [dc_group] dc_names) = 2 \<and>
     map v_code (check_waves (map (\<lambda>w. (w_wave_number w,
       map (\<lambda>i. (i, name_of dc_names i)) (w_vm_ids w))) ws) None) = [''ha_family_cap'']"
proof -
  let ?ws = "[build_wave 1 [family_sub_group dc_group 1 [1, 3], family_sub_group dc_group 2 [2]] None]"
  have "assign_waves default_assigner (split_overconcentrated_families [dc_group] dc_names) = Inr ?ws"
    by code_simp
  moreover have "length (split_overconcentrated_families [dc_group] dc_names) = 2" by code_simp
  moreover have "map v_code (check_waves (map (\<lambda>w. (w_wave_number w,
       map (\<lambda>i. (i, name_of dc_names i)) (w_vm_ids w))) ?ws) None) = [''ha_family_cap'']" by code_simp
  ultimately show ?thesis by (intro exI [of _ ?ws] conjI)
qed

end
