(* ===== verification/Lifecycle.thy ===== *)
theory Lifecycle
  imports Inventory
begin

text \<open>
  \<open>app/core/vm_lifecycle.py\<close> and \<open>record_audit\<close> of \<open>app/core/audit.py\<close>: the
  plan-membership state machine. Every transition is a function from the session (VM rows and
  staged audit rows) to the session and a result or a \<open>LifecycleTransitionError\<close>; the clock
  is an argument.
\<close>

section \<open>Session, audit rows, results\<close>

datatype audit_details =
    Batch_transition "int list" string "(int \<times> string) list" string
  | Single_transition string string string
  | Plan_move "int list" int int string
  | Plan_edit_event string "int list" nat "nat list" "nat list" "nat list"
  | Plan_event nat
  | Vm_deleted
  | Vm_updated

record audit_row =
  au_action :: string
  au_actor :: string
  au_resource_type :: string
  au_resource_id :: "int option"
  au_details :: audit_details

record session =
  s_vms :: "vm list"
  s_audit :: "audit_row list"

definition record_audit :: "audit_row \<Rightarrow> session \<Rightarrow> session" where
  "record_audit r db = db\<lparr>s_audit := s_audit db @ [r]\<rparr>"

datatype lifecycle_error =
  Lifecycle_Transition_Error lifecycle_state "(int \<times> lifecycle_state) list"

record transition_result =
  tr_vm_ids :: "int list"
  tr_from_states :: "(int \<times> string) list"
  tr_to_state :: string
  tr_audit_action :: string

type_synonym 'a transition = "session \<Rightarrow> session \<times> (lifecycle_error + 'a)"

section \<open>The building blocks\<close>

definition fetch_locked :: "session \<Rightarrow> int list \<Rightarrow> vm list" where
  "fetch_locked db vm_ids = (if vm_ids = [] then [] else select_vms (s_vms db) vm_ids)"

definition missing_ids :: "vm list \<Rightarrow> int list \<Rightarrow> int list" where
  "missing_ids vms vm_ids = filter (\<lambda>vid. vid \<notin> vm_id ` set vms) vm_ids"

definition enforce ::
  "vm list \<Rightarrow> lifecycle_state list \<Rightarrow> lifecycle_state \<Rightarrow> lifecycle_error option" where
  "enforce vms allowed_from target =
     (let offenders = map (\<lambda>v. (vm_id v, vm_lifecycle_state v))
            (filter (\<lambda>v. vm_lifecycle_state v \<notin> set allowed_from) vms)
      in if offenders \<noteq> [] then Some (Lifecycle_Transition_Error target offenders) else None)"

definition move_vm :: "int \<Rightarrow> lifecycle_state \<Rightarrow> vm \<Rightarrow> vm" where
  "move_vm now target v = v\<lparr>vm_lifecycle_state := target, vm_lifecycle_state_changed_at := now\<rparr>"

definition apply_state ::
  "int \<Rightarrow> vm list \<Rightarrow> lifecycle_state \<Rightarrow> session \<Rightarrow> session \<times> (int \<times> string) list" where
  "apply_state now vms target db =
     (db\<lparr>s_vms := map (\<lambda>v. if vm_id v \<in> vm_id ` set vms then move_vm now target v else v) (s_vms db)\<rparr>,
      map (\<lambda>v. (vm_id v, state_value (vm_lifecycle_state v))) vms)"

definition unmanageable_error :: "lifecycle_state \<Rightarrow> int list \<Rightarrow> lifecycle_error" where
  "unmanageable_error target missing =
     Lifecycle_Transition_Error target (map (\<lambda>vid. (vid, Unmanageable)) missing)"

definition TRANSITION_ACTION :: string where
  "TRANSITION_ACTION = ''vm.lifecycle_state.transition''"

definition transition_summary ::
  "int list \<Rightarrow> (int \<times> string) list \<Rightarrow> lifecycle_state \<Rightarrow> transition_result" where
  "transition_summary ids from_states target =
     \<lparr>tr_vm_ids = ids, tr_from_states = from_states, tr_to_state = state_value target,
      tr_audit_action = TRANSITION_ACTION\<rparr>"

section \<open>The transitions\<close>

definition transition_to_planned ::
  "int \<Rightarrow> int list \<Rightarrow> int \<Rightarrow> string \<Rightarrow> string \<Rightarrow> transition_result transition" where
  "transition_to_planned now vm_ids plan_id actor trigger db =
     (let vms = fetch_locked db vm_ids;
          missing = missing_ids vms vm_ids
      in if missing \<noteq> [] then (db, Inl (unmanageable_error Planned missing))
         else (case enforce vms [Available] Planned of
             Some e \<Rightarrow> (db, Inl e)
           | None \<Rightarrow>
               (let (db1, from_states) = apply_state now vms Planned db;
                    ids = map vm_id vms
                in (record_audit \<lparr>au_action = TRANSITION_ACTION, au_actor = actor,
                      au_resource_type = ''plan'', au_resource_id = Some plan_id,
                      au_details = Batch_transition ids (state_value Planned) from_states trigger\<rparr> db1,
                    Inr (transition_summary ids from_states Planned)))))"

definition release_planned_to_available ::
  "int \<Rightarrow> int \<Rightarrow> int list \<Rightarrow> string \<Rightarrow> string \<Rightarrow> transition_result transition" where
  "release_planned_to_available now plan_id vm_ids actor trigger db =
     (let vms = fetch_locked db vm_ids;
          eligible = filter (\<lambda>v. vm_lifecycle_state v = Planned) vms
      in if eligible = [] then (db, Inr (transition_summary [] [] Available))
         else
           (let (db1, from_states) = apply_state now eligible Available db;
                ids = map vm_id eligible
            in (record_audit \<lparr>au_action = TRANSITION_ACTION, au_actor = actor,
                  au_resource_type = ''plan'', au_resource_id = Some plan_id,
                  au_details = Batch_transition ids (state_value Available) from_states trigger\<rparr> db1,
                Inr (transition_summary ids from_states Available))))"

definition transition_to_available_from_failed_plan ::
  "int \<Rightarrow> int \<Rightarrow> int list \<Rightarrow> string \<Rightarrow> transition_result transition" where
  "transition_to_available_from_failed_plan now plan_id vm_ids actor =
     release_planned_to_available now plan_id vm_ids actor ''plan.failed''"

definition transition_to_available_from_deleted_plan ::
  "int \<Rightarrow> int \<Rightarrow> int list \<Rightarrow> string \<Rightarrow> transition_result transition" where
  "transition_to_available_from_deleted_plan now plan_id vm_ids actor =
     release_planned_to_available now plan_id vm_ids actor ''plan.deleted''"

definition transition_to_available_from_plan_edit ::
  "int \<Rightarrow> int \<Rightarrow> int list \<Rightarrow> string \<Rightarrow> transition_result transition" where
  "transition_to_available_from_plan_edit now plan_id vm_ids actor =
     release_planned_to_available now plan_id vm_ids actor ''plan.edit.remove''"

definition record_plan_reassignment ::
  "int list \<Rightarrow> int \<Rightarrow> int \<Rightarrow> string \<Rightarrow> unit transition" where
  "record_plan_reassignment vm_ids from_plan_id to_plan_id actor db =
     (let vms = fetch_locked db vm_ids;
          missing = missing_ids vms vm_ids
      in if missing \<noteq> [] then (db, Inl (unmanageable_error Planned missing))
         else (case enforce vms [Planned] Planned of
             Some e \<Rightarrow> (db, Inl e)
           | None \<Rightarrow>
               (record_audit \<lparr>au_action = ''vm.plan_membership.moved'', au_actor = actor,
                  au_resource_type = ''plan'', au_resource_id = Some to_plan_id,
                  au_details = Plan_move (map vm_id vms) from_plan_id to_plan_id
                    ''plan.edit.move_to_plan''\<rparr> db,
                Inr ())))"

definition transition_to_migrated ::
  "int \<Rightarrow> int \<Rightarrow> int list \<Rightarrow> string \<Rightarrow> transition_result transition" where
  "transition_to_migrated now plan_id vm_ids actor db =
     (let vms = fetch_locked db vm_ids;
          missing = missing_ids vms vm_ids
      in if missing \<noteq> [] then (db, Inl (unmanageable_error Migrated missing))
         else (case enforce vms [Planned, Migrated] Migrated of
             Some e \<Rightarrow> (db, Inl e)
           | None \<Rightarrow>
               (let movers = filter (\<lambda>v. vm_lifecycle_state v = Planned) vms
                in if movers = [] then (db, Inr (transition_summary [] [] Migrated))
                   else
                     (let (db1, from_states) = apply_state now movers Migrated db;
                          ids = map vm_id movers
                      in (record_audit \<lparr>au_action = TRANSITION_ACTION, au_actor = actor,
                            au_resource_type = ''plan'', au_resource_id = Some plan_id,
                            au_details = Batch_transition ids (state_value Migrated) from_states
                              ''plan.mark_succeeded''\<rparr> db1,
                          Inr (transition_summary ids from_states Migrated))))))"

text \<open>
  The two operator transitions share their body: one VM, one allowed source state. The
  \<open>from_states[vm_id]\<close> lookup reads the fetched row's prior state.
\<close>

definition single_transition ::
  "lifecycle_state \<Rightarrow> lifecycle_state \<Rightarrow> string \<Rightarrow> int \<Rightarrow> int \<Rightarrow> string \<Rightarrow> transition_result transition" where
  "single_transition source target trigger now i actor db =
     (let vms = fetch_locked db [i]
      in if i \<notin> vm_id ` set vms then (db, Inl (unmanageable_error target [i]))
         else (case enforce vms [source] target of
             Some e \<Rightarrow> (db, Inl e)
           | None \<Rightarrow>
               (let (db1, from_states) = apply_state now vms target db
                in (record_audit \<lparr>au_action = TRANSITION_ACTION, au_actor = actor,
                      au_resource_type = ''vm'', au_resource_id = Some i,
                      au_details = Single_transition (state_value target)
                        (dict_get_or from_states i []) trigger\<rparr> db1,
                    Inr (transition_summary [i] from_states target)))))"

definition transition_to_rolled_back :: "int \<Rightarrow> int \<Rightarrow> string \<Rightarrow> transition_result transition" where
  "transition_to_rolled_back = single_transition Migrated Rolled_back ''operator.revert''"

definition transition_to_available_from_rolled_back ::
  "int \<Rightarrow> int \<Rightarrow> string \<Rightarrow> transition_result transition" where
  "transition_to_available_from_rolled_back =
     single_transition Rolled_back Available ''operator.confirm_rollback''"

fun ALLOWED_PATCH_TRANSITIONS :: "lifecycle_state \<Rightarrow> lifecycle_state list" where
  "ALLOWED_PATCH_TRANSITIONS Migrated = [Rolled_back]"
| "ALLOWED_PATCH_TRANSITIONS Rolled_back = [Available]"
| "ALLOWED_PATCH_TRANSITIONS _ = []"

definition patch_transition ::
  "int \<Rightarrow> vm \<Rightarrow> lifecycle_state \<Rightarrow> string \<Rightarrow> transition_result transition" where
  "patch_transition now v target actor db =
     (let current = vm_lifecycle_state v
      in if target \<notin> set (ALLOWED_PATCH_TRANSITIONS current)
         then (db, Inl (Lifecycle_Transition_Error target [(vm_id v, current)]))
         else if current = Migrated \<and> target = Rolled_back
         then transition_to_rolled_back now (vm_id v) actor db
         else if current = Rolled_back \<and> target = Available
         then transition_to_available_from_rolled_back now (vm_id v) actor db
         else (db, Inl (Lifecycle_Transition_Error target [(vm_id v, current)])))"

section \<open>Calls as a step relation\<close>

datatype lifecycle_call =
    To_planned int "int list" int string string
  | From_failed_plan int int "int list" string
  | From_deleted_plan int int "int list" string
  | From_plan_edit int int "int list" string
  | Reassign "int list" int int string
  | To_migrated int int "int list" string
  | Patch int vm lifecycle_state string

fun run_call :: "lifecycle_call \<Rightarrow> session \<Rightarrow> session \<times> (lifecycle_error + unit)" where
  "run_call (To_planned now ids pid actor trg) db =
     map_prod id (map_sum id (\<lambda>_. ())) (transition_to_planned now ids pid actor trg db)"
| "run_call (From_failed_plan now pid ids actor) db =
     map_prod id (map_sum id (\<lambda>_. ())) (transition_to_available_from_failed_plan now pid ids actor db)"
| "run_call (From_deleted_plan now pid ids actor) db =
     map_prod id (map_sum id (\<lambda>_. ())) (transition_to_available_from_deleted_plan now pid ids actor db)"
| "run_call (From_plan_edit now pid ids actor) db =
     map_prod id (map_sum id (\<lambda>_. ())) (transition_to_available_from_plan_edit now pid ids actor db)"
| "run_call (Reassign ids p q actor) db = record_plan_reassignment ids p q actor db"
| "run_call (To_migrated now pid ids actor) db =
     map_prod id (map_sum id (\<lambda>_. ())) (transition_to_migrated now pid ids actor db)"
| "run_call (Patch now v target actor) db =
     map_prod id (map_sum id (\<lambda>_. ())) (patch_transition now v target actor db)"

inductive session_steps :: "session \<Rightarrow> session \<Rightarrow> bool" where
  steps_refl: "session_steps db db"
| steps_call: "session_steps db db' \<Longrightarrow> session_steps db (fst (run_call c db'))"

inductive_cases session_stepsE: "session_steps db db'"

end
