(* ===== verification/Lifecycle_Audit.thy ===== *)
theory Lifecycle_Audit
  imports Lifecycle
begin

text \<open>
  Correctness of the lifecycle service: each call either leaves the session alone, or moves a
  set of VMs along one edge of the state machine and stages one audit row that describes
  exactly that move. From this follow the legality of every history and the replay of the
  audit log.
\<close>

section \<open>The state machine\<close>

inductive legal :: "lifecycle_state \<Rightarrow> lifecycle_state \<Rightarrow> bool" where
  "legal Available Planned"
| "legal Planned Available"
| "legal Planned Migrated"
| "legal Migrated Rolled_back"
| "legal Rolled_back Available"

code_pred legal .

inductive_simps legal_simps [simp]: "legal s t"

definition state_of :: "session \<Rightarrow> int \<Rightarrow> string option" where
  "state_of db i = map_option (\<lambda>v. state_value (vm_lifecycle_state v)) (find_vm (s_vms db) i)"

definition wf_session :: "session \<Rightarrow> bool" where
  "wf_session db \<longleftrightarrow> wf_rows (s_vms db)"

section \<open>Replaying the audit log\<close>

text \<open>
  A reviewer who knows the states before reads the log row by row, checks that the recorded
  prior states are the ones reached so far, and moves the named VMs.
\<close>

fun replay_row :: "audit_row \<Rightarrow> (int \<Rightarrow> string option) \<Rightarrow> (int \<Rightarrow> string option) option" where
  "replay_row r m =
     (case au_details r of
        Batch_transition ids to_state from_states _ \<Rightarrow>
          if list_all (\<lambda>i. m i \<noteq> None \<and> m i = dict_get from_states i) ids
          then Some (\<lambda>i. if i \<in> set ids then Some to_state else m i) else None
      | Single_transition to_state from_state _ \<Rightarrow>
          (case au_resource_id r of
             None \<Rightarrow> None
           | Some i \<Rightarrow> if m i = Some from_state then Some (m(i := Some to_state)) else None)
      | Plan_move ids _ _ _ \<Rightarrow> if list_all (\<lambda>i. m i = Some ''planned'') ids then Some m else None
      | _ \<Rightarrow> Some m)"

fun replay :: "audit_row list \<Rightarrow> (int \<Rightarrow> string option) \<Rightarrow> (int \<Rightarrow> string option) option" where
  "replay [] m = Some m"
| "replay (r # rs) m = (case replay_row r m of None \<Rightarrow> None | Some m' \<Rightarrow> replay rs m')"

declare replay_row.simps [simp del]

lemma replay_append:
  "replay (rs @ rs') m = (case replay rs m of None \<Rightarrow> None | Some m' \<Rightarrow> replay rs' m')"
  by (induction rs arbitrary: m) (auto split: option.split)

section \<open>What one call does\<close>

definition moved :: "int \<Rightarrow> vm list \<Rightarrow> lifecycle_state \<Rightarrow> session \<Rightarrow> session" where
  "moved now vms target db = fst (apply_state now vms target db)"

inductive effect :: "session \<Rightarrow> session \<Rightarrow> bool" where
  effect_none: "effect db db"
| effect_note: "au_details r = Plan_move (map vm_id vms) p q trg \<Longrightarrow>
    (\<And>v. v \<in> set vms \<Longrightarrow> v \<in> set (s_vms db) \<and> vm_lifecycle_state v = Planned) \<Longrightarrow>
    effect db (record_audit r db)"
| effect_batch: "(\<And>v. v \<in> set vms \<Longrightarrow> v \<in> set (s_vms db) \<and> legal (vm_lifecycle_state v) target) \<Longrightarrow>
    distinct (map vm_id vms) \<Longrightarrow>
    au_details r = Batch_transition (map vm_id vms) (state_value target)
      (map (\<lambda>v. (vm_id v, state_value (vm_lifecycle_state v))) vms) trg \<Longrightarrow>
    effect db (record_audit r (moved now vms target db))"
| effect_single: "v \<in> set (s_vms db) \<Longrightarrow> legal (vm_lifecycle_state v) target \<Longrightarrow>
    au_resource_id r = Some (vm_id v) \<Longrightarrow>
    au_details r = Single_transition (state_value target) (state_value (vm_lifecycle_state v)) trg \<Longrightarrow>
    effect db (record_audit r (moved now [v] target db))"

lemma fetch_locked_mem: "v \<in> set (fetch_locked db ids) \<longleftrightarrow> v \<in> set (s_vms db) \<and> vm_id v \<in> set ids"
  by (auto simp: fetch_locked_def select_vms_def)

lemma fetch_locked_distinct: "wf_session db \<Longrightarrow> distinct (map vm_id (fetch_locked db ids))"
  by (auto simp: fetch_locked_def select_vms_def wf_session_def wf_rows_def distinct_map
      intro: inj_on_subset)

lemma distinct_filter_ids: "distinct (map vm_id vs) \<Longrightarrow> distinct (map vm_id (filter p vs))"
  by (auto simp: distinct_map intro: inj_on_subset)

lemma enforce_None: "enforce vms allowed target = None \<longleftrightarrow> (\<forall>v\<in>set vms. vm_lifecycle_state v \<in> set allowed)"
  by (auto simp: enforce_def Let_def filter_empty_conv)

lemma missing_ids_Nil: "missing_ids (fetch_locked db ids) ids = [] \<longleftrightarrow> (\<forall>i\<in>set ids. i \<in> vm_id ` set (s_vms db))"
proof -
  have "vm_id ` set (fetch_locked db ids) = vm_id ` set (s_vms db) \<inter> set ids"
    by (auto simp: fetch_locked_mem image_iff)
  then show ?thesis by (auto simp: missing_ids_def filter_empty_conv)
qed

lemma apply_state_split:
  "apply_state now vms target db =
     (moved now vms target db, map (\<lambda>v. (vm_id v, state_value (vm_lifecycle_state v))) vms)"
  by (simp add: moved_def apply_state_def)

lemma fetch_one:
  assumes "wf_session db" and "v \<in> set (s_vms db)"
  shows "fetch_locked db [vm_id v] = [v]"
proof -
  have "filter (\<lambda>r. vm_id r = vm_id v) (s_vms db) = [v]"
    using assms by (intro filter_key_single) (simp_all add: wf_session_def wf_rows_def)
  then show ?thesis by (simp add: fetch_locked_def select_vms_def)
qed

lemma release_effect:
  assumes "wf_session db"
  shows "effect db (fst (release_planned_to_available now pid ids actor trg db))"
  unfolding release_planned_to_available_def Let_def apply_state_split
  by (auto simp: fetch_locked_mem fetch_locked_distinct [OF assms]
      intro!: effect_none effect_batch distinct_filter_ids)

lemma planned_effect:
  assumes "wf_session db"
  shows "effect db (fst (transition_to_planned now ids pid actor trg db))"
  unfolding transition_to_planned_def Let_def apply_state_split
  by (auto simp: fetch_locked_mem fetch_locked_distinct [OF assms] enforce_None
      intro!: effect_none effect_batch split: option.split)

lemma migrated_effect:
  assumes "wf_session db"
  shows "effect db (fst (transition_to_migrated now pid ids actor db))"
  unfolding transition_to_migrated_def Let_def apply_state_split
  by (auto simp: fetch_locked_mem fetch_locked_distinct [OF assms] enforce_None
      intro!: effect_none effect_batch distinct_filter_ids split: option.split)

lemma reassign_effect: "effect db (fst (record_plan_reassignment ids p q actor db))"
  unfolding record_plan_reassignment_def Let_def
  by (auto simp: fetch_locked_mem enforce_None intro!: effect_none effect_note split: option.split)

lemma single_effect:
  assumes "wf_session db" and "legal source target"
  shows "effect db (fst (single_transition source target trg now i actor db))"
proof (cases "\<exists>v\<in>set (s_vms db). vm_id v = i \<and> vm_lifecycle_state v = source")
  case True
  then obtain v where v: "v \<in> set (s_vms db)" "vm_id v = i" "vm_lifecycle_state v = source" by blast
  then have "fetch_locked db [i] = [v]" using fetch_one [OF assms(1) v(1)] by simp
  with v assms(2) show ?thesis
    by (auto simp: single_transition_def Let_def apply_state_split enforce_def dict_get_or_def
        intro!: effect_single)
next
  case False
  show ?thesis
  proof (cases "i \<in> vm_id ` set (fetch_locked db [i])")
    case True
    with False have "enforce (fetch_locked db [i]) [source] target \<noteq> None"
      unfolding enforce_None by (auto simp: fetch_locked_mem)
    with True show ?thesis by (auto simp: single_transition_def Let_def intro: effect_none)
  qed (simp add: single_transition_def Let_def effect_none)
qed

lemma run_call_effect: "wf_session db \<Longrightarrow> effect db (fst (run_call c db))"
  by (cases c) (simp_all add: release_effect planned_effect migrated_effect reassign_effect
      single_effect effect_none patch_transition_def Let_def transition_to_rolled_back_def
      transition_to_available_from_rolled_back_def transition_to_available_from_failed_plan_def
      transition_to_available_from_deleted_plan_def transition_to_available_from_plan_edit_def)

section \<open>Effects preserve well-formedness and the log\<close>

lemma s_vms_record_audit [simp]: "s_vms (record_audit r db) = s_vms db"
  and s_audit_record_audit [simp]: "s_audit (record_audit r db) = s_audit db @ [r]"
  by (simp_all add: record_audit_def)

lemma s_audit_moved [simp]: "s_audit (moved now vms target db) = s_audit db"
  by (simp add: moved_def apply_state_def)

lemma s_vms_moved:
  "s_vms (moved now vms target db) =
     map (\<lambda>v. if vm_id v \<in> vm_id ` set vms then move_vm now target v else v) (s_vms db)"
  by (simp add: moved_def apply_state_def)

lemma vm_id_move [simp]: "vm_id (move_vm now target v) = vm_id v"
  and state_move [simp]: "vm_lifecycle_state (move_vm now target v) = target"
  by (simp_all add: move_vm_def)

lemma wf_moved [simp]: "wf_session (moved now vms target db) = wf_session db"
  and wf_record_audit [simp]: "wf_session (record_audit r db) = wf_session db"
proof -
  have "map vm_id (s_vms (moved now vms target db)) = map vm_id (s_vms db)"
    by (simp add: s_vms_moved)
  then show "wf_session (moved now vms target db) = wf_session db"
    by (simp only: wf_session_def wf_rows_def)
qed (simp add: wf_session_def)

lemma effect_wf: "effect db db' \<Longrightarrow> wf_session db \<Longrightarrow> wf_session db'"
  by (induction rule: effect.induct) simp_all

lemma find_vm_map:
  "(\<And>v. vm_id (f v) = vm_id v) \<Longrightarrow> find_vm (map f vs) i = map_option f (find_vm vs i)"
  by (induction vs) (auto simp: find_vm_def)

lemma state_of_moved:
  "state_of (moved now vms target db) i =
     (if i \<in> vm_id ` set vms \<and> state_of db i \<noteq> None then Some (state_value target) else state_of db i)"
proof (cases "find_vm (s_vms db) i")
  case (Some v)
  then have "vm_id v = i" using find_vm_Some by blast
  with Some show ?thesis by (auto simp: state_of_def s_vms_moved find_vm_map)
next
  case None
  then show ?thesis by (simp add: state_of_def s_vms_moved find_vm_map del: find_vm_None)
qed

lemma state_of_record_audit [simp]: "state_of (record_audit r db) = state_of db"
  by (simp add: state_of_def fun_eq_iff)

lemma state_of_row: "wf_session db \<Longrightarrow> v \<in> set (s_vms db) \<Longrightarrow> state_of db (vm_id v) = Some (state_value (vm_lifecycle_state v))"
  by (simp add: state_of_def wf_session_def find_vm_unique)

lemma dict_get_states:
  "distinct (map vm_id vs) \<Longrightarrow> v \<in> set vs \<Longrightarrow>
     dict_get (map (\<lambda>v. (vm_id v, f v)) vs) (vm_id v) = Some (f v)"
  by (induction vs) auto

text \<open>One effect stages at most one row, and the row replays to the new states.\<close>

lemma effect_replay:
  assumes "effect db db'" and "wf_session db"
  shows "\<exists>rows. s_audit db' = s_audit db @ rows \<and> replay rows (state_of db) = Some (state_of db')"
  using assms
proof (induction rule: effect.induct)
  case (effect_none db)
  then show ?case by simp
next
  case (effect_note r vms p q trg db)
  then have "state_of db (vm_id v) = Some ''planned''" if "v \<in> set vms" for v
    using that state_of_row [of db v] by simp
  with effect_note(1) show ?case by (auto simp: replay_row.simps list_all_iff)
next
  case (effect_batch vms db target r trg now)
  let ?f = "\<lambda>v. state_value (vm_lifecycle_state v)"
  have st: "state_of db (vm_id v) = Some (?f v)" if "v \<in> set vms" for v
    using that effect_batch(1,4) state_of_row by blast
  then have "list_all (\<lambda>i. state_of db i \<noteq> None \<and>
      state_of db i = dict_get (map (\<lambda>v. (vm_id v, ?f v)) vms) i) (map vm_id vms)"
    using dict_get_states [OF effect_batch(2), of _ ?f] by (simp add: list_all_iff)
  moreover have "state_of (moved now vms target db) =
      (\<lambda>i. if i \<in> set (map vm_id vms) then Some (state_value target) else state_of db i)"
    using st by (auto simp: state_of_moved fun_eq_iff)
  ultimately show ?case using effect_batch(3) by (simp add: replay_row.simps)
next
  case (effect_single v db target r trg now)
  then have st: "state_of db (vm_id v) = Some (state_value (vm_lifecycle_state v))"
    by (intro state_of_row)
  then have "state_of (moved now [v] target db) = (state_of db)(vm_id v := Some (state_value target))"
    by (auto simp: state_of_moved fun_eq_iff)
  with st effect_single(3,4) show ?case by (simp add: replay_row.simps fun_upd_def)
qed

definition only_lifecycle_differs :: "vm \<Rightarrow> vm \<Rightarrow> bool" where
  "only_lifecycle_differs v v' \<longleftrightarrow>
     v\<lparr>vm_lifecycle_state := vm_lifecycle_state v', vm_lifecycle_state_changed_at := vm_lifecycle_state_changed_at v'\<rparr> = v'"

lemma only_lifecycle_refl: "only_lifecycle_differs v v"
  by (simp add: only_lifecycle_differs_def)

lemma only_lifecycle_move: "only_lifecycle_differs v (move_vm now t v)"
  by (simp add: only_lifecycle_differs_def move_vm_def)

lemma only_lifecycle_trans:
  assumes "only_lifecycle_differs v w" and "only_lifecycle_differs w u"
  shows "only_lifecycle_differs v u"
proof -
  let ?set = "\<lambda>x s c. x\<lparr>vm_lifecycle_state := s, vm_lifecycle_state_changed_at := c\<rparr>"
  have "?set v (vm_lifecycle_state u) (vm_lifecycle_state_changed_at u) =
      ?set (?set v (vm_lifecycle_state w) (vm_lifecycle_state_changed_at w))
        (vm_lifecycle_state u) (vm_lifecycle_state_changed_at u)" by simp
  also have "\<dots> = u" using assms by (simp only: only_lifecycle_differs_def)
  finally show ?thesis by (simp only: only_lifecycle_differs_def)
qed

lemma effect_vm:
  assumes "effect db db'" and "wf_session db" and "find_vm (s_vms db) i = Some v"
  shows "\<exists>v'. find_vm (s_vms db') i = Some v' \<and> legal\<^sup>*\<^sup>* (vm_lifecycle_state v) (vm_lifecycle_state v') \<and>
    only_lifecycle_differs v v'"
proof -
  have *: "\<exists>v'. find_vm (s_vms (moved now vms target db)) i = Some v' \<and>
      legal\<^sup>*\<^sup>* (vm_lifecycle_state v) (vm_lifecycle_state v') \<and> only_lifecycle_differs v v'"
    if vms: "\<And>u. u \<in> set vms \<Longrightarrow> u \<in> set (s_vms db) \<and> legal (vm_lifecycle_state u) target"
    for now vms target
  proof (cases "vm_id v \<in> vm_id ` set vms")
    case True
    then obtain u where u: "u \<in> set vms" "vm_id u = vm_id v" by (metis imageE)
    with vms assms(2,3) have "u = v"
      by (metis find_vm_Some find_vm_unique option.inject wf_session_def)
    with u vms have "legal (vm_lifecycle_state v) target" by blast
    then have "legal\<^sup>*\<^sup>* (vm_lifecycle_state v) target" by (rule r_into_rtranclp)
    with True assms(3) show ?thesis
      by (simp del: legal_simps add: s_vms_moved find_vm_map only_lifecycle_move)
  next
    case False
    with assms(3) show ?thesis by (simp add: s_vms_moved find_vm_map only_lifecycle_refl)
  qed
  show ?thesis using assms(1)
  proof cases
    case (effect_batch vms target r trg now)
    then show ?thesis using * [of vms target now] by simp
  next
    case (effect_single u target r trg now)
    then show ?thesis using * [of "[u]" target now] by simp
  qed (use assms(3) only_lifecycle_refl in auto)
qed

lemma session_steps_wf: "session_steps db db' \<Longrightarrow> wf_session db \<Longrightarrow> wf_session db'"
  by (induction rule: session_steps.induct) (blast dest: run_call_effect effect_wf)+

section \<open>Fetched rows and states\<close>

lemma fetch_locked_ids: "vm_id ` set (fetch_locked db ids) = vm_id ` set (s_vms db) \<inter> set ids"
  by (auto simp: fetch_locked_mem image_iff)

lemma state_of_mem: "state_of db i = Some x \<Longrightarrow> \<exists>v\<in>set (s_vms db). vm_id v = i \<and> state_value (vm_lifecycle_state v) = x"
  by (auto simp: state_of_def dest: find_vm_Some)

lemma all_in_state:
  assumes "wf_session db"
  shows "(\<forall>i\<in>set ids. state_of db i = Some (state_value s)) \<longleftrightarrow>
    missing_ids (fetch_locked db ids) ids = [] \<and> (\<forall>v\<in>set (fetch_locked db ids). vm_lifecycle_state v = s)"
    (is "?l \<longleftrightarrow> ?m \<and> ?r")
proof
  assume l: ?l
  have ?m unfolding missing_ids_Nil using l state_of_mem by fastforce
  moreover have ?r
  proof
    fix v assume "v \<in> set (fetch_locked db ids)"
    then have "v \<in> set (s_vms db)" "vm_id v \<in> set ids" by (simp_all add: fetch_locked_mem)
    with l state_of_row [OF assms] show "vm_lifecycle_state v = s" by force
  qed
  ultimately show "?m \<and> ?r" by blast
next
  assume mr: "?m \<and> ?r"
  show ?l
  proof
    fix i assume i: "i \<in> set ids"
    with mr have "i \<in> vm_id ` set (s_vms db)" unfolding missing_ids_Nil by blast
    then obtain v where v: "v \<in> set (s_vms db)" "vm_id v = i" by blast
    with i mr have "vm_lifecycle_state v = s" by (simp add: fetch_locked_mem)
    with state_of_row [OF assms v(1)] v(2) show "state_of db i = Some (state_value s)" by simp
  qed
qed

lemma planned_ids:
  assumes "wf_session db"
  shows "vm_id ` set (filter (\<lambda>v. vm_lifecycle_state v = s) (fetch_locked db ids)) =
    {i \<in> set ids. state_of db i = Some (state_value s)}"
proof (intro set_eqI iffI)
  fix i assume "i \<in> vm_id ` set (filter (\<lambda>v. vm_lifecycle_state v = s) (fetch_locked db ids))"
  then obtain v where v: "v \<in> set (s_vms db)" "vm_id v = i" "i \<in> set ids" "vm_lifecycle_state v = s"
    by (auto simp: fetch_locked_mem)
  then show "i \<in> {i \<in> set ids. state_of db i = Some (state_value s)}"
    using state_of_row [OF assms v(1)] by simp
next
  fix i assume i: "i \<in> {i \<in> set ids. state_of db i = Some (state_value s)}"
  then obtain v where "v \<in> set (s_vms db)" "vm_id v = i" "vm_lifecycle_state v = s"
    using state_of_mem [of db i "state_value s"] by auto
  with i have "v \<in> set (filter (\<lambda>v. vm_lifecycle_state v = s) (fetch_locked db ids))"
    by (simp add: fetch_locked_mem)
  with \<open>vm_id v = i\<close> show "i \<in> vm_id ` set (filter (\<lambda>v. vm_lifecycle_state v = s) (fetch_locked db ids))"
    by blast
qed

lemma migrated_states:
  assumes wf: "wf_session db" and ok: "snd (transition_to_migrated now pid ids actor db) = Inr r"
    and i: "i \<in> set ids"
  shows "state_of (fst (transition_to_migrated now pid ids actor db)) i = Some ''migrated''"
proof -
  let ?vms = "fetch_locked db ids"
  let ?movers = "filter (\<lambda>v. vm_lifecycle_state v = Planned) ?vms"
  have miss: "missing_ids ?vms ids = []" and enf: "enforce ?vms [Planned, Migrated] Migrated = None"
    using ok by (auto simp: transition_to_migrated_def Let_def split: if_splits option.splits)
  have "i \<in> vm_id ` set (s_vms db)" using miss i unfolding missing_ids_Nil by blast
  then obtain v where v: "v \<in> set (s_vms db)" "vm_id v = i" by blast
  then have st: "state_of db i = Some (state_value (vm_lifecycle_state v))"
    using state_of_row [OF wf] by blast
  have "v \<in> set ?vms" using v i by (simp add: fetch_locked_mem)
  then have cases: "vm_lifecycle_state v = Planned \<or> vm_lifecycle_state v = Migrated"
    using enf by (simp add: enforce_None)
  have mv: "i \<in> vm_id ` set ?movers \<longleftrightarrow> vm_lifecycle_state v = Planned"
    unfolding planned_ids [OF wf, of Planned] using i st by (simp del: state_value.simps)
  have "state_of (fst (transition_to_migrated now pid ids actor db)) i =
      (if ?movers = [] then state_of db i else state_of (moved now ?movers Migrated db) i)"
    using miss enf by (simp add: transition_to_migrated_def Let_def apply_state_split)
  also have "\<dots> = Some ''migrated''"
  proof (cases "?movers = []")
    case True
    then have "i \<notin> vm_id ` set ?movers" by simp
    with mv cases st True show ?thesis by simp
  next
    case False
    with mv cases st show ?thesis unfolding state_of_moved by (cases "vm_lifecycle_state v = Planned") auto
  qed
  finally show ?thesis .
qed

section \<open>Properties\<close>

text \<open>
  C6: the audit log is a complete record. Starting from any well-formed inventory, after any
  sequence of lifecycle calls (failed ones included) the staged audit rows replay the states
  of all VMs: every row's recorded prior states match the states reached before it, and the
  last state is the current one.
\<close>

theorem audit_log_replays:
  assumes "session_steps db db'" and "wf_session db"
  shows "\<exists>rows. s_audit db' = s_audit db @ rows \<and> replay rows (state_of db) = Some (state_of db')"
  using assms
proof (induction rule: session_steps.induct)
  case (steps_refl db)
  then show ?case by simp
next
  case (steps_call db db' c)
  then obtain rows where rows: "s_audit db' = s_audit db @ rows" "replay rows (state_of db) = Some (state_of db')"
    by blast
  have "wf_session db'" using session_steps_wf steps_call by blast
  from effect_replay [OF run_call_effect [OF this] this]
  obtain rows' where rows': "s_audit (fst (run_call c db')) = s_audit db' @ rows'"
      "replay rows' (state_of db') = Some (state_of (fst (run_call c db')))" by blast
  with rows show ?case by (intro exI [of _ "rows @ rows'"]) (simp add: replay_append)
qed


text \<open>A refused call stages nothing: neither rows nor audit entries change.\<close>

theorem lifecycle_errors_change_nothing:
  assumes "snd (run_call c db) = Inl e"
  shows "fst (run_call c db) = db"
  using assms
  by (cases c) (auto simp: transition_to_planned_def transition_to_migrated_def
      record_plan_reassignment_def patch_transition_def transition_to_rolled_back_def
      transition_to_available_from_rolled_back_def single_transition_def
      transition_to_available_from_failed_plan_def transition_to_available_from_deleted_plan_def
      transition_to_available_from_plan_edit_def release_planned_to_available_def Let_def
      apply_state_split split: option.splits if_splits)

text \<open>
  Planning is all or nothing. The call succeeds exactly when every requested VM exists and
  is available, and then exactly the requested VMs become planned.
\<close>

theorem transition_to_planned_spec:
  assumes "wf_session db"
  shows "(if \<forall>i\<in>set ids. state_of db i = Some ''available''
     then isl (snd (transition_to_planned now ids pid actor trg db)) = False \<and>
       state_of (fst (transition_to_planned now ids pid actor trg db)) =
         (\<lambda>i. if i \<in> set ids then Some ''planned'' else state_of db i)
     else isl (snd (transition_to_planned now ids pid actor trg db)) \<and>
       fst (transition_to_planned now ids pid actor trg db) = db)"
proof (cases "\<forall>i\<in>set ids. state_of db i = Some (state_value Available)")
  case True
  then have ok: "missing_ids (fetch_locked db ids) ids = []"
      "enforce (fetch_locked db ids) [Available] Planned = None"
    unfolding all_in_state [OF assms] enforce_None by auto
  have "vm_id ` set (fetch_locked db ids) = set ids"
    using ok(1) unfolding missing_ids_Nil fetch_locked_ids by blast
  then have "state_of (moved now (fetch_locked db ids) Planned db) =
      (\<lambda>i. if i \<in> set ids then Some ''planned'' else state_of db i)"
    using True by (auto simp: state_of_moved fun_eq_iff)
  with ok True show ?thesis by (simp add: transition_to_planned_def Let_def apply_state_split)
next
  case False
  then have "missing_ids (fetch_locked db ids) ids \<noteq> [] \<or>
      enforce (fetch_locked db ids) [Available] Planned \<noteq> None"
    unfolding all_in_state [OF assms] enforce_None by auto
  then have "isl (snd (transition_to_planned now ids pid actor trg db)) \<and>
      fst (transition_to_planned now ids pid actor trg db) = db"
    by (auto simp: transition_to_planned_def Let_def)
  with False show ?thesis unfolding state_value.simps by (simp only: if_False)
qed

text \<open>
  Releasing a plan never fails and moves exactly the still planned VMs among the given
  ones back to available; migrated and rolled-back VMs stay as they are.
\<close>

theorem release_planned_spec:
  assumes "wf_session db"
  shows "isl (snd (release_planned_to_available now pid ids actor trg db)) = False \<and>
    state_of (fst (release_planned_to_available now pid ids actor trg db)) =
      (\<lambda>i. if i \<in> set ids \<and> state_of db i = Some ''planned'' then Some ''available'' else state_of db i)"
proof -
  let ?el = "filter (\<lambda>v. vm_lifecycle_state v = Planned) (fetch_locked db ids)"
  note ids = planned_ids [OF assms, of Planned ids, unfolded state_value.simps]
  have st: "state_of (moved now ?el Available db) =
      (\<lambda>i. if i \<in> set ids \<and> state_of db i = Some ''planned'' then Some ''available'' else state_of db i)"
    unfolding fun_eq_iff state_of_moved ids by simp
  show ?thesis
  proof (cases "?el = []")
    case True
    then have "{i \<in> set ids. state_of db i = Some ''planned''} = {}" using ids by simp
    with True show ?thesis by (auto simp: release_planned_to_available_def fun_eq_iff)
  next
    case False
    with st show ?thesis by (simp add: release_planned_to_available_def Let_def apply_state_split)
  qed
qed

text \<open>Marking a plan succeeded a second time succeeds and changes nothing.\<close>

theorem transition_to_migrated_idempotent:
  assumes "wf_session db" and "snd (transition_to_migrated now pid ids actor db) = Inr r"
  shows "transition_to_migrated now' pid' ids actor' (fst (transition_to_migrated now pid ids actor db))
    = (fst (transition_to_migrated now pid ids actor db), Inr (transition_summary [] [] Migrated))"
proof -
  let ?db = "fst (transition_to_migrated now pid ids actor db)"
  have "wf_session ?db" using effect_wf [OF migrated_effect] assms(1) by blast
  moreover have "\<forall>i\<in>set ids. state_of ?db i = Some (state_value Migrated)"
    using migrated_states [OF assms] by simp
  ultimately have all: "missing_ids (fetch_locked ?db ids) ids = [] \<and>
      (\<forall>v\<in>set (fetch_locked ?db ids). vm_lifecycle_state v = Migrated)"
    using all_in_state by blast
  then have m: "\<forall>v\<in>set (fetch_locked ?db ids). vm_lifecycle_state v = Migrated" ..
  from all have "missing_ids (fetch_locked ?db ids) ids = []" ..
  moreover have "enforce (fetch_locked ?db ids) [Planned, Migrated] Migrated = None"
    unfolding enforce_None using m by simp
  moreover have "filter (\<lambda>v. vm_lifecycle_state v = Planned) (fetch_locked ?db ids) = []"
    using m by (auto simp: filter_empty_conv)
  ultimately show ?thesis
    unfolding transition_to_migrated_def [of now' pid' ids actor'] Let_def by simp
qed

text \<open>
  The operator's PATCH accepts exactly the two edges migrated to rolled back and rolled
  back to available; its defensive last branch is never taken.
\<close>

theorem patch_transition_spec:
  assumes "wf_session db" and "v \<in> set (s_vms db)"
  shows "(\<not> isl (snd (patch_transition now v target actor db))) \<longleftrightarrow>
    (vm_lifecycle_state v, target) \<in> {(Migrated, Rolled_back), (Rolled_back, Available)}"
  using fetch_one [OF assms]
  by (cases "vm_lifecycle_state v"; cases target)
    (simp_all add: patch_transition_def Let_def transition_to_rolled_back_def enforce_def
      transition_to_available_from_rolled_back_def single_transition_def apply_state_split)

section \<open>Instances\<close>

definition audit_session :: session where
  "audit_session = \<lparr>s_vms = [mk_vm 1 ''web-1'', mk_vm 2 ''web-2'',
      (mk_vm 3 ''db-1'')\<lparr>vm_lifecycle_state := Migrated\<rparr>], s_audit = []\<rparr>"

lemma audit_session_wf: "wf_session audit_session"
  by code_simp

definition planned_session :: session where
  "planned_session = fst (run_call (To_planned 10 [2, 1] 7 ''ops'' ''plan.create'') audit_session)"

lemma planned_session_steps: "session_steps audit_session planned_session"
  unfolding planned_session_def by (intro steps_call steps_refl)

lemma audit_log_replays_witness:
  "\<exists>rows. s_audit planned_session = s_audit audit_session @ rows \<and>
     replay rows (state_of audit_session) = Some (state_of planned_session)"
  by (rule audit_log_replays [OF planned_session_steps audit_session_wf])


lemma lifecycle_errors_change_nothing_witness:
  "fst (run_call (To_planned 10 [1, 3] 7 ''ops'' ''plan.create'') audit_session) = audit_session"
  by (rule lifecycle_errors_change_nothing [where e = "Lifecycle_Transition_Error Planned [(3, Migrated)]"])
    code_simp

lemma transition_to_planned_spec_witness:
  "state_of (fst (transition_to_planned 10 [2, 1] 7 ''ops'' ''plan.create'' audit_session)) =
     (\<lambda>i. if i \<in> set [2, 1] then Some ''planned'' else state_of audit_session i)"
proof -
  have "\<forall>i\<in>set [2, 1]. state_of audit_session i = Some ''available''" by code_simp
  with transition_to_planned_spec [OF audit_session_wf, of "[2, 1]" 10 7 "''ops''" "''plan.create''"]
  show ?thesis by (simp only: if_True)
qed

lemma planned_session_wf: "wf_session planned_session"
  by code_simp

lemma release_planned_spec_witness:
  "state_of (fst (release_planned_to_available 20 7 [1, 3] ''ops'' ''plan.failed'' planned_session)) =
     (\<lambda>i. if i \<in> set [1, 3] \<and> state_of planned_session i = Some ''planned'' then Some ''available''
          else state_of planned_session i)"
  using release_planned_spec [OF planned_session_wf] by blast

lemma transition_to_migrated_idempotent_witness:
  "transition_to_migrated 31 7 [1, 2, 3] ''ops''
      (fst (transition_to_migrated 30 7 [1, 2, 3] ''ops'' planned_session)) =
   (fst (transition_to_migrated 30 7 [1, 2, 3] ''ops'' planned_session),
    Inr (transition_summary [] [] Migrated))"
proof -
  have "snd (transition_to_migrated 30 7 [1, 2, 3] ''ops'' planned_session) =
      Inr (transition_summary [1, 2] [(1, ''planned''), (2, ''planned'')] Migrated)" by code_simp
  from transition_to_migrated_idempotent [OF planned_session_wf this] show ?thesis .
qed

lemma patch_transition_spec_witness:
  "\<not> isl (snd (patch_transition 40 ((mk_vm 3 ''db-1'')\<lparr>vm_lifecycle_state := Migrated\<rparr>) Rolled_back
     ''ops'' audit_session))"
proof -
  have "(mk_vm 3 ''db-1'')\<lparr>vm_lifecycle_state := Migrated\<rparr> \<in> set (s_vms audit_session)" by code_simp
  from patch_transition_spec [OF audit_session_wf this] show ?thesis by simp
qed

end
