(* ===== verification/Concurrency.thy ===== *)
theory Concurrency
  imports Wave_Skeleton
begin

text \<open>
  \<open>app/core/concurrency.py\<close>: waves that may run in parallel. Two waves conflict if they share
  a source vCenter or a name family; greedy colouring in wave order gives each wave the
  smallest concurrency group no conflicting earlier wave has. The greedy argument is proved
  once, for any symmetric conflict relation.
\<close>

section \<open>The code\<close>

definition family_keys_for_wave :: "(int \<rightharpoonup> string) \<Rightarrow> wave \<Rightarrow> string set" where
  "family_keys_for_wave names w =
     set (map detect_family (filter (\<lambda>s. s \<noteq> []) (List.map_filter names (w_vm_ids w))))"

definition vcenters_for_wave :: "wave \<Rightarrow> int set" where
  "vcenters_for_wave w = set (List.map_filter (\<lambda>g. gk_vcenter_id (g_key g)) (w_groups w))"

definition conflicts :: "wave \<Rightarrow> wave \<Rightarrow> string set \<Rightarrow> string set \<Rightarrow> bool" where
  "conflicts a b families_a families_b \<longleftrightarrow>
     vcenters_for_wave a \<inter> vcenters_for_wave b \<noteq> {} \<or> families_a \<inter> families_b \<noteq> {}"

text \<open>\<open>color = 0; while color in used: color += 1\<close>\<close>

function next_color :: "nat list \<Rightarrow> nat \<Rightarrow> nat" where
  "next_color used color = (if color \<in> set used then next_color used (color + 1) else color)"
  by pat_completeness auto
termination
  by (relation "measure (\<lambda>(used, c). Suc (sum_list used) - c)")
    (auto dest: member_le_sum_list intro!: diff_less_mono2 simp: less_Suc_eq_le)

declare next_color.simps [simp del]

text \<open>Colours of the already coloured waves that conflict with \<open>w\<close>.\<close>

definition used_colors ::
  "(nat \<Rightarrow> string set) \<Rightarrow> wave list \<Rightarrow> (nat \<times> nat) list \<Rightarrow> wave \<Rightarrow> nat list" where
  "used_colors families_per_wave ordered assignments w =
     List.map_filter (\<lambda>other.
       if w_wave_number other = w_wave_number w then None
       else (case dict_get assignments (w_wave_number other) of
           None \<Rightarrow> None
         | Some c \<Rightarrow>
             if conflicts w other (families_per_wave (w_wave_number w))
                  (families_per_wave (w_wave_number other))
             then Some c else None)) ordered"

definition families_per_wave :: "(int \<rightharpoonup> string) \<Rightarrow> wave list \<Rightarrow> nat \<Rightarrow> string set" where
  "families_per_wave names ordered n =
     (case dict_get (dict_of w_wave_number (family_keys_for_wave names) ordered) n of
        None \<Rightarrow> {} | Some s \<Rightarrow> s)"

text \<open>
  The loop. A wave is a mutable object: its position in \<open>waves\<close> stands for its identity, so the
  second dictionary holds the \<open>concurrency_group_id\<close> written to each object.
\<close>

definition color_step ::
  "(nat \<Rightarrow> string set) \<Rightarrow> wave list \<Rightarrow> nat \<times> wave \<Rightarrow> (nat \<times> nat) list \<times> (nat \<times> nat) list
     \<Rightarrow> (nat \<times> nat) list \<times> (nat \<times> nat) list" where
  "color_step families ordered = (\<lambda>(i, w) (assignments, written).
     let color = next_color (used_colors families ordered assignments w) 0
     in (dict_set (w_wave_number w) color assignments, dict_set i color written))"

definition assign_concurrency_groups :: "wave list \<Rightarrow> (int \<rightharpoonup> string) \<Rightarrow> wave list" where
  "assign_concurrency_groups waves vm_name_by_id =
     (let indexed = sort_key (w_wave_number \<circ> snd) (enumerate 0 waves);
          ordered = map snd indexed;
          families = families_per_wave vm_name_by_id ordered;
          (_, written) = fold (color_step families ordered) indexed ([], [])
      in map (\<lambda>(i, w). w\<lparr>w_concurrency_group_id := dict_get_or written i 0\<rparr>) (enumerate 0 waves))"

section \<open>Greedy colouring\<close>

lemma next_color_fresh: "next_color used c \<notin> set used"
  by (induction used c rule: next_color.induct) (simp add: next_color.simps)

lemma next_color_least: "c \<le> d \<Longrightarrow> d < next_color used c \<Longrightarrow> d \<in> set used"
proof (induction used c rule: next_color.induct)
  case (1 used c)
  show ?case
  proof (cases "c \<in> set used \<and> c \<noteq> d")
    case True
    with 1 show ?thesis by (simp add: next_color.simps [of used c])
  next
    case False
    with 1(2,3) show ?thesis by (auto simp: next_color.simps [of used c] split: if_splits)
  qed
qed

text \<open>
  The contract of one colouring step over a symmetric conflict relation on keys: the colour of
  a new key avoids the colours of its conflicting neighbours, and every smaller colour is
  taken by one of them.
\<close>

locale greedy_coloring =
  fixes conflict :: "nat \<Rightarrow> nat \<Rightarrow> bool"
    and color :: "nat \<Rightarrow> (nat \<times> nat) list \<Rightarrow> nat"
  assumes conflict_sym: "conflict i j \<Longrightarrow> conflict j i"
    and color_avoids: "dict_get asg j = Some c \<Longrightarrow> conflict i j \<Longrightarrow> i \<noteq> j \<Longrightarrow> color i asg \<noteq> c"
    and color_least: "d < color i asg \<Longrightarrow> \<exists>j. j \<noteq> i \<and> conflict i j \<and> dict_get asg j = Some d"
begin

definition proper :: "(nat \<times> nat) list \<Rightarrow> bool" where
  "proper asg \<longleftrightarrow> (\<forall>i j c. i \<noteq> j \<longrightarrow> conflict i j \<longrightarrow> dict_get asg i = Some c \<longrightarrow> dict_get asg j \<noteq> Some c)"

definition tight :: "(nat \<times> nat) list \<Rightarrow> bool" where
  "tight asg \<longleftrightarrow> (\<forall>i c d. dict_get asg i = Some c \<longrightarrow> d < c \<longrightarrow>
     (\<exists>j. j \<noteq> i \<and> conflict i j \<and> dict_get asg j = Some d))"

lemma step_proper:
  assumes "proper asg" and "dict_get asg i = None"
  shows "proper (dict_set i (color i asg) asg)"
  unfolding proper_def
proof (intro allI impI)
  fix k j c
  assume kj: "k \<noteq> j" "conflict k j" and k: "dict_get (dict_set i (color i asg) asg) k = Some c"
  show "dict_get (dict_set i (color i asg) asg) j \<noteq> Some c"
  proof (cases "k = i")
    case True
    with k kj have "c = color i asg" "j \<noteq> i" by auto
    with color_avoids [of asg j _ i] kj True show ?thesis by auto
  next
    case False
    with k have "dict_get asg k = Some c" by simp
    then show ?thesis using color_avoids [of asg k c i] conflict_sym kj False assms(1)
      by (cases "j = i") (auto simp: proper_def)
  qed
qed

lemma step_tight:
  assumes "tight asg" and "dict_get asg i = None"
  shows "tight (dict_set i (color i asg) asg)"
  unfolding tight_def
proof (intro allI impI)
  fix k c d
  assume k: "dict_get (dict_set i (color i asg) asg) k = Some c" and d: "d < c"
  have "\<exists>j. j \<noteq> k \<and> conflict k j \<and> dict_get asg j = Some d"
  proof (cases "k = i")
    case True
    with k d show ?thesis using color_least [of d i asg] by simp
  next
    case False
    with k d assms(1) show ?thesis by (auto simp: tight_def)
  qed
  then obtain j where j: "j \<noteq> k" "conflict k j" "dict_get asg j = Some d" by blast
  with assms(2) have "j \<noteq> i" by auto
  with j show "\<exists>j. j \<noteq> k \<and> conflict k j \<and> dict_get (dict_set i (color i asg) asg) j = Some d"
    by (intro exI [of _ j]) simp
qed

lemma fold_colors:
  assumes "proper asg" and "tight asg" and "distinct ks" and "\<And>k. k \<in> set ks \<Longrightarrow> dict_get asg k = None"
  defines "res \<equiv> fold (\<lambda>k a. dict_set k (color k a) a) ks asg"
  shows "proper res \<and> tight res \<and> (\<forall>k. dict_get res k \<noteq> None \<longleftrightarrow> k \<in> set ks \<or> dict_get asg k \<noteq> None)"
  using assms(1-4) unfolding res_def
proof (induction ks arbitrary: asg)
  case (Cons k ks)
  let ?asg = "dict_set k (color k asg) asg"
  have none: "dict_get asg k = None" using Cons.prems by simp
  have "proper (fold (\<lambda>k a. dict_set k (color k a) a) ks ?asg) \<and>
      tight (fold (\<lambda>k a. dict_set k (color k a) a) ks ?asg) \<and>
      (\<forall>j. dict_get (fold (\<lambda>k a. dict_set k (color k a) a) ks ?asg) j \<noteq> None \<longleftrightarrow>
        j \<in> set ks \<or> dict_get ?asg j \<noteq> None)"
    using Cons.prems none by (intro Cons.IH) (auto intro: step_proper step_tight)
  then show ?case by auto
qed simp

lemma proper_empty: "proper []" and tight_empty: "tight []"
  by (simp_all add: proper_def tight_def)

end

section \<open>The code is greedy colouring\<close>

definition wave_of :: "wave list \<Rightarrow> nat \<Rightarrow> wave option" where
  "wave_of ws n = List.find (\<lambda>w. w_wave_number w = n) ws"

definition number_conflict :: "(int \<rightharpoonup> string) \<Rightarrow> wave list \<Rightarrow> nat \<Rightarrow> nat \<Rightarrow> bool" where
  "number_conflict names ws i j \<longleftrightarrow> distinct (map w_wave_number ws) \<and>
     (case (wave_of ws i, wave_of ws j) of
        (Some a, Some b) \<Rightarrow> conflicts a b (families_per_wave names ws i) (families_per_wave names ws j)
      | _ \<Rightarrow> False)"

definition number_color :: "(int \<rightharpoonup> string) \<Rightarrow> wave list \<Rightarrow> nat \<Rightarrow> (nat \<times> nat) list \<Rightarrow> nat" where
  "number_color names ws i asg =
     (case wave_of ws i of
        Some w \<Rightarrow> if distinct (map w_wave_number ws)
          then next_color (used_colors (families_per_wave names ws) ws asg w) 0 else 0
      | None \<Rightarrow> 0)"

lemma wave_of_Some: "wave_of ws n = Some w \<Longrightarrow> w \<in> set ws \<and> w_wave_number w = n"
  by (auto simp: wave_of_def find_Some_iff)

lemma wave_of_unique:
  assumes "distinct (map w_wave_number ws)" and "w \<in> set ws"
  shows "wave_of ws (w_wave_number w) = Some w"
proof (cases "wave_of ws (w_wave_number w)")
  case None
  with assms(2) show ?thesis by (auto simp: wave_of_def find_None_iff)
next
  case (Some v)
  with assms wave_of_Some [OF Some] show ?thesis by (auto simp: distinct_map inj_on_def)
qed

lemma used_colors_mem:
  assumes "distinct (map w_wave_number ws)" and "wave_of ws i = Some w"
  shows "c \<in> set (used_colors (families_per_wave names ws) ws asg w) \<longleftrightarrow>
    (\<exists>j. j \<noteq> i \<and> number_conflict names ws i j \<and> dict_get asg j = Some c)"
    (is "?l \<longleftrightarrow> ?r")
proof
  have i: "w_wave_number w = i" using wave_of_Some [OF assms(2)] by simp
  {
    assume ?l
    then obtain b where b: "b \<in> set ws" "w_wave_number b \<noteq> i" "dict_get asg (w_wave_number b) = Some c"
        "conflicts w b (families_per_wave names ws i) (families_per_wave names ws (w_wave_number b))"
      by (auto simp: used_colors_def set_map_filter i split: if_splits option.splits)
    with wave_of_unique [OF assms(1)] assms show ?r
      by (intro exI [of _ "w_wave_number b"]) (simp add: number_conflict_def)
  next
    assume ?r
    then obtain j b where "j \<noteq> i" "dict_get asg j = Some c" "wave_of ws j = Some b"
        "conflicts w b (families_per_wave names ws i) (families_per_wave names ws j)"
      using assms(2) by (auto simp: number_conflict_def split: option.splits)
    then show ?l using wave_of_Some [of ws j b]
      by (auto simp: used_colors_def set_map_filter i intro!: bexI [of _ b])
  }
qed

interpretation wave_coloring: greedy_coloring "number_conflict names ws" "number_color names ws"
  for names ws
proof unfold_locales
  show "number_conflict names ws j i" if "number_conflict names ws i j" for i j
    using that by (auto simp: number_conflict_def conflicts_def Int_commute split: option.splits)
  show "number_color names ws i asg \<noteq> c"
    if "dict_get asg j = Some c" "number_conflict names ws i j" "i \<noteq> j" for asg j c i
  proof -
    from that(2) obtain w where w: "wave_of ws i = Some w" and d: "distinct (map w_wave_number ws)"
      by (auto simp: number_conflict_def split: option.splits)
    have "c \<in> set (used_colors (families_per_wave names ws) ws asg w)"
      unfolding used_colors_mem [OF d w] using that by (intro exI [of _ j]) auto
    moreover have "number_color names ws i asg =
        next_color (used_colors (families_per_wave names ws) ws asg w) 0"
      using w d by (simp add: number_color_def)
    ultimately show ?thesis using next_color_fresh by metis
  qed
  show "\<exists>j. j \<noteq> i \<and> number_conflict names ws i j \<and> dict_get asg j = Some d"
    if "d < number_color names ws i asg" for d i asg
  proof -
    from that obtain w where w: "wave_of ws i = Some w" and d: "distinct (map w_wave_number ws)"
        and less: "d < next_color (used_colors (families_per_wave names ws) ws asg w) 0"
      by (auto simp: number_color_def split: option.splits if_splits)
    then have "d \<in> set (used_colors (families_per_wave names ws) ws asg w)"
      by (intro next_color_least [OF _ less]) simp
    then show ?thesis unfolding used_colors_mem [OF d w] .
  qed
qed

text \<open>The loop over wave objects colours by number.\<close>

lemma fold_color_step_fst:
  assumes "distinct (map w_wave_number ws)" and "snd ` set xs \<subseteq> set ws"
  shows "fst (fold (color_step (families_per_wave names ws) ws) xs (asg, out)) =
    fold (\<lambda>k a. dict_set k (number_color names ws k a) a) (map (w_wave_number \<circ> snd) xs) asg"
  using assms(2)
proof (induction xs arbitrary: asg out)
  case (Cons p xs)
  obtain i w where p: "p = (i, w)" by fastforce
  with Cons.prems have "wave_of ws (w_wave_number w) = Some w"
    using wave_of_unique [OF assms(1)] by simp
  with Cons p assms(1) show ?case by (simp add: color_step_def number_color_def Let_def)
qed simp

lemma fold_color_step_written:
  assumes "distinct (map fst xs)" and "distinct (map (w_wave_number \<circ> snd) xs)" and "(i, w) \<in> set xs"
  shows "dict_get (snd (fold (color_step fams ws) xs (asg, out))) i =
    dict_get (fst (fold (color_step fams ws) xs (asg, out))) (w_wave_number w)"
  using assms
proof (induction xs rule: rev_induct)
  case (snoc p xs)
  obtain k v where p: "p = (k, v)" by fastforce
  obtain a o' where f: "fold (color_step fams ws) xs (asg, out) = (a, o')" by fastforce
  show ?case
  proof (cases "(i, w) = p")
    case True
    with p f show ?thesis by (simp add: color_step_def Let_def)
  next
    case False
    with snoc.prems p have "(i, w) \<in> set xs" "i \<noteq> k" "w_wave_number w \<noteq> w_wave_number v" by force+
    with snoc p f show ?thesis by (simp add: color_step_def Let_def)
  qed
qed simp

definition indexed_waves :: "wave list \<Rightarrow> (nat \<times> wave) list" where
  "indexed_waves waves = sort_key (w_wave_number \<circ> snd) (enumerate 0 waves)"

lemma indexed_waves_set: "set (indexed_waves waves) = set (enumerate 0 waves)"
  by (simp add: indexed_waves_def)

lemma enumerate_snd: "map snd (enumerate n xs) = xs"
  by (induction xs arbitrary: n) auto

lemma enumerate_fst: "distinct (map fst (enumerate n xs))"
  by (simp add: enumerate_eq_zip)

lemma indexed_waves_fst: "distinct (map fst (indexed_waves waves))"
proof -
  have "mset (map fst (indexed_waves waves)) = mset (map fst (enumerate 0 waves))"
    unfolding indexed_waves_def by (rule mset_sort_key_map)
  then show ?thesis using mset_eq_imp_distinct_iff enumerate_fst by blast
qed

lemma indexed_waves_snd: "mset (map snd (indexed_waves waves)) = mset waves"
proof -
  have "mset (map snd (indexed_waves waves)) = mset (map snd (enumerate 0 waves))"
    unfolding indexed_waves_def by (rule mset_sort_key_map)
  then show ?thesis by (simp only: enumerate_snd)
qed

lemma indexed_waves_numbers:
  assumes "distinct (map w_wave_number waves)"
  shows "distinct (map (w_wave_number \<circ> snd) (indexed_waves waves))"
proof -
  have "mset (map w_wave_number (map snd (indexed_waves waves))) = mset (map w_wave_number waves)"
    using indexed_waves_snd [of waves] by (metis mset_map)
  then show ?thesis using assms mset_eq_imp_distinct_iff by fastforce
qed

lemma families_per_wave_of:
  assumes "wave_of ws i = Some w" and "distinct (map w_wave_number ws)"
  shows "families_per_wave names ws i = family_keys_for_wave names w"
proof -
  have "wave_of (rev ws) i = Some w"
    using wave_of_unique [of "rev ws" w] wave_of_Some [OF assms(1)] assms(2) by (simp add: rev_map [symmetric])
  then show ?thesis by (simp add: families_per_wave_def dict_get_of wave_of_def)
qed

text \<open>
  The colours the code writes are a proper and tight colouring of the wave numbers.
\<close>

lemma assign_concurrency_coloring:
  assumes dist: "distinct (map w_wave_number waves)"
  defines "ws \<equiv> map snd (indexed_waves waves)"
  obtains asg where "wave_coloring.proper names ws asg" "wave_coloring.tight names ws asg"
    "\<And>k. dict_get asg k \<noteq> None \<longleftrightarrow> k \<in> w_wave_number ` set waves"
    "assign_concurrency_groups waves names =
       map (\<lambda>w. w\<lparr>w_concurrency_group_id := dict_get_or asg (w_wave_number w) 0\<rparr>) waves"
proof -
  let ?ks = "map (w_wave_number \<circ> snd) (indexed_waves waves)"
  let ?f = "color_step (families_per_wave names ws) ws"
  define asg where "asg = fst (fold ?f (indexed_waves waves) ([], []))"
  have numbers: "distinct ?ks" by (rule indexed_waves_numbers [OF dist])
  then have wsd: "distinct (map w_wave_number ws)" by (simp add: ws_def)
  have asg: "asg = fold (\<lambda>k a. dict_set k (number_color names ws k a) a) ?ks []"
    unfolding asg_def by (rule fold_color_step_fst [OF wsd]) (simp add: ws_def)
  have res: "wave_coloring.proper names ws asg \<and> wave_coloring.tight names ws asg \<and>
      (\<forall>k. dict_get asg k \<noteq> None \<longleftrightarrow> k \<in> set ?ks \<or> dict_get ([] :: (nat \<times> nat) list) k \<noteq> None)"
    unfolding asg using numbers
    by (intro wave_coloring.fold_colors wave_coloring.proper_empty wave_coloring.tight_empty) auto
  have "set ?ks = w_wave_number ` set waves"
    using mset_eq_setD [OF indexed_waves_snd [of waves]] by (simp only: set_map image_comp [symmetric])
  with res have dom: "\<And>k. dict_get asg k \<noteq> None \<longleftrightarrow> k \<in> w_wave_number ` set waves" by simp
  have "dict_get (snd (fold ?f (indexed_waves waves) ([], []))) i = dict_get asg (w_wave_number w)"
    if "(i, w) \<in> set (enumerate 0 waves)" for i w
    unfolding asg_def
    by (rule fold_color_step_written [OF indexed_waves_fst numbers]) (simp add: indexed_waves_set that)
  then have "assign_concurrency_groups waves names =
      map (\<lambda>(i, w). w\<lparr>w_concurrency_group_id := dict_get_or asg (w_wave_number w) 0\<rparr>) (enumerate 0 waves)"
    unfolding assign_concurrency_groups_def Let_def indexed_waves_def [symmetric] ws_def [symmetric]
    by (auto simp: case_prod_unfold dict_get_or_def)
  also have "\<dots> = map (\<lambda>w. w\<lparr>w_concurrency_group_id := dict_get_or asg (w_wave_number w) 0\<rparr>)
      (map snd (enumerate 0 waves))"
    unfolding map_map by (simp add: case_prod_unfold comp_def)
  finally show ?thesis using res dom by (intro that [of asg]) (simp_all only: enumerate_snd)
qed

lemma number_conflict_iff:
  assumes dist: "distinct (map w_wave_number waves)" and "a \<in> set waves" and "b \<in> set waves"
  shows "number_conflict names (map snd (indexed_waves waves)) (w_wave_number a) (w_wave_number b) \<longleftrightarrow>
    conflicts a b (family_keys_for_wave names a) (family_keys_for_wave names b)"
proof -
  let ?ws = "map snd (indexed_waves waves)"
  have d: "distinct (map w_wave_number ?ws)" using indexed_waves_numbers [OF dist] by simp
  have "set ?ws = set waves" by (rule mset_eq_setD [OF indexed_waves_snd])
  then have ab: "wave_of ?ws (w_wave_number a) = Some a" "wave_of ?ws (w_wave_number b) = Some b"
    using wave_of_unique [OF d] assms(2,3) by simp_all
  show ?thesis
    unfolding number_conflict_def ab families_per_wave_of [OF ab(1) d] families_per_wave_of [OF ab(2) d]
    using d by simp
qed

lemma conflicts_color [simp]:
  "conflicts (a\<lparr>w_concurrency_group_id := c\<rparr>) b = conflicts a b"
  "conflicts a (b\<lparr>w_concurrency_group_id := c\<rparr>) = conflicts a b"
  "family_keys_for_wave names (a\<lparr>w_concurrency_group_id := c\<rparr>) = family_keys_for_wave names a"
  by (simp_all add: fun_eq_iff conflicts_def vcenters_for_wave_def family_keys_for_wave_def w_vm_ids_def)

section \<open>Properties\<close>

text \<open>
  C26: waves in one concurrency group may run in parallel. Two different waves with the same
  concurrency group id share no source vCenter and no name family.
\<close>

theorem concurrency_groups_safe:
  assumes "distinct (map w_wave_number waves)"
    and "a \<in> set (assign_concurrency_groups waves names)"
    and "b \<in> set (assign_concurrency_groups waves names)"
    and "w_wave_number a \<noteq> w_wave_number b" and "w_concurrency_group_id a = w_concurrency_group_id b"
  shows "\<not> conflicts a b (family_keys_for_wave names a) (family_keys_for_wave names b)"
proof -
  let ?ws = "map snd (indexed_waves waves)"
  obtain asg where asg: "wave_coloring.proper names ?ws asg"
      "\<And>k. dict_get asg k \<noteq> None \<longleftrightarrow> k \<in> w_wave_number ` set waves"
      "assign_concurrency_groups waves names =
         map (\<lambda>w. w\<lparr>w_concurrency_group_id := dict_get_or asg (w_wave_number w) 0\<rparr>) waves"
    by (rule assign_concurrency_coloring [OF assms(1), of names]) blast
  then obtain a' b' where ab: "a' \<in> set waves" "b' \<in> set waves"
      "a = a'\<lparr>w_concurrency_group_id := dict_get_or asg (w_wave_number a') 0\<rparr>"
      "b = b'\<lparr>w_concurrency_group_id := dict_get_or asg (w_wave_number b') 0\<rparr>"
    using assms(2,3) by auto
  obtain c d where c: "dict_get asg (w_wave_number a') = Some c" "dict_get asg (w_wave_number b') = Some d"
    using asg(2) ab(1,2) by fastforce
  have "c = d" using assms(5) ab(3,4) c by (simp add: dict_get_or_def)
  with asg(1) c assms(4) ab(3,4)
  have "\<not> number_conflict names ?ws (w_wave_number a') (w_wave_number b')"
    by (auto simp: wave_coloring.proper_def)
  then show ?thesis using number_conflict_iff [OF assms(1) ab(1,2)] ab(3,4) by simp
qed

text \<open>
  The colouring is greedy and leaves no gap. Every concurrency group id below the one of a
  wave is used by another wave that conflicts with it, and apart from the id the waves come
  back unchanged and in order.
\<close>

theorem concurrency_groups_tight:
  assumes "distinct (map w_wave_number waves)"
    and "a \<in> set (assign_concurrency_groups waves names)" and "c < w_concurrency_group_id a"
  shows "\<exists>b. b \<in> set (assign_concurrency_groups waves names) \<and> w_concurrency_group_id b = c \<and>
    conflicts a b (family_keys_for_wave names a) (family_keys_for_wave names b)"
proof -
  let ?ws = "map snd (indexed_waves waves)"
  obtain asg where asg: "wave_coloring.tight names ?ws asg"
      "\<And>k. dict_get asg k \<noteq> None \<longleftrightarrow> k \<in> w_wave_number ` set waves"
      "assign_concurrency_groups waves names =
         map (\<lambda>w. w\<lparr>w_concurrency_group_id := dict_get_or asg (w_wave_number w) 0\<rparr>) waves"
    by (rule assign_concurrency_coloring [OF assms(1), of names]) blast
  let ?u = "\<lambda>w. w\<lparr>w_concurrency_group_id := dict_get_or asg (w_wave_number w) 0\<rparr>"
  obtain a' where a: "a' \<in> set waves" "a = ?u a'" using asg(3) assms(2) by auto
  obtain e where e: "dict_get asg (w_wave_number a') = Some e" using asg(2) a(1) by fastforce
  with a(2) assms(3) have "c < e" by (simp add: dict_get_or_def)
  with asg(1) e obtain j where j: "number_conflict names ?ws (w_wave_number a') j" "dict_get asg j = Some c"
    unfolding wave_coloring.tight_def by blast
  then obtain b where b: "b \<in> set waves" "w_wave_number b = j" using asg(2) [of j] by auto
  have "conflicts a' b (family_keys_for_wave names a') (family_keys_for_wave names b)"
    using number_conflict_iff [OF assms(1) a(1) b(1)] j b(2) by simp
  moreover have "?u b \<in> set (assign_concurrency_groups waves names)" using asg(3) b(1) by simp
  ultimately show ?thesis using a(2) b(2) j(2) by (intro exI [of _ "?u b"]) (simp add: dict_get_or_def)
qed

section \<open>Instances\<close>

definition vcenter_group :: "int \<Rightarrow> int list \<Rightarrow> vm_group" where
  "vcenter_group vc ids =
     (let g = example_group ''shop'' ''prod'' ''app'' ''api'' ids [] []
      in g\<lparr>g_key := (g_key g)\<lparr>gk_vcenter_id := Some vc\<rparr>\<rparr>)"

definition two_vcenters :: "wave list" where
  "two_vcenters = [build_wave 1 [vcenter_group 1 [1]] None, build_wave 2 [vcenter_group 1 [2]] None,
     build_wave 3 [vcenter_group 2 [3]] None]"

definition two_vcenter_names :: "int \<rightharpoonup> string" where
  "two_vcenter_names = map_of [(1, ''api-1''), (2, ''web-1''), (3, ''db-1'')]"

lemma two_vcenters_distinct: "distinct (map w_wave_number two_vcenters)"
  by code_simp

lemma two_vcenters_colors:
  "map w_concurrency_group_id (assign_concurrency_groups two_vcenters two_vcenter_names) = [0, 1, 0]"
  by code_simp

lemma concurrency_groups_safe_witness:
  "\<not> conflicts (assign_concurrency_groups two_vcenters two_vcenter_names ! 0)
       (assign_concurrency_groups two_vcenters two_vcenter_names ! 2)
       (family_keys_for_wave two_vcenter_names (assign_concurrency_groups two_vcenters two_vcenter_names ! 0))
       (family_keys_for_wave two_vcenter_names (assign_concurrency_groups two_vcenters two_vcenter_names ! 2))"
proof (rule concurrency_groups_safe [OF two_vcenters_distinct])
  show "assign_concurrency_groups two_vcenters two_vcenter_names ! 0
      \<in> set (assign_concurrency_groups two_vcenters two_vcenter_names)" by (rule nth_mem) code_simp
  show "assign_concurrency_groups two_vcenters two_vcenter_names ! 2
      \<in> set (assign_concurrency_groups two_vcenters two_vcenter_names)" by (rule nth_mem) code_simp
qed code_simp+

lemma concurrency_groups_tight_witness:
  "\<exists>b. b \<in> set (assign_concurrency_groups two_vcenters two_vcenter_names) \<and> w_concurrency_group_id b = 0 \<and>
    conflicts (assign_concurrency_groups two_vcenters two_vcenter_names ! 1) b
      (family_keys_for_wave two_vcenter_names (assign_concurrency_groups two_vcenters two_vcenter_names ! 1))
      (family_keys_for_wave two_vcenter_names b)"
proof (rule concurrency_groups_tight [OF two_vcenters_distinct])
  show "assign_concurrency_groups two_vcenters two_vcenter_names ! 1
      \<in> set (assign_concurrency_groups two_vcenters two_vcenter_names)" by (rule nth_mem) code_simp
qed code_simp

text \<open>
  The converse fails. Waves that could run in parallel may get different concurrency
  groups: the greedy colouring only guarantees the safe direction.
\<close>

theorem concurrency_groups_not_complete:
  "\<exists>waves names a b. distinct (map w_wave_number waves) \<and>
     a \<in> set (assign_concurrency_groups waves names) \<and> b \<in> set (assign_concurrency_groups waves names) \<and>
     w_concurrency_group_id a \<noteq> w_concurrency_group_id b \<and>
     \<not> conflicts a b (family_keys_for_wave names a) (family_keys_for_wave names b)"
proof -
  let ?r = "assign_concurrency_groups two_vcenters two_vcenter_names"
  have "?r ! 1 \<in> set ?r" by (rule nth_mem) code_simp
  moreover have "?r ! 2 \<in> set ?r" by (rule nth_mem) code_simp
  moreover have "w_concurrency_group_id (?r ! 1) \<noteq> w_concurrency_group_id (?r ! 2)" by code_simp
  moreover have "\<not> conflicts (?r ! 1) (?r ! 2) (family_keys_for_wave two_vcenter_names (?r ! 1))
      (family_keys_for_wave two_vcenter_names (?r ! 2))" by code_simp
  ultimately show ?thesis using two_vcenters_distinct by blast
qed

end
