(* ===== verification/Plan_Chunking.thy ===== *)
theory Plan_Chunking
  imports Inventory Family
begin

text \<open>
  \<open>app/core/plan_chunking.py\<close>: cutting a selection into plan-sized batches, and the names of
  the plans of a series. A non-positive limit is the ValueError.
\<close>

section \<open>The code\<close>

definition PLAN_NAME_SLUG_MAX_LEN :: nat where "PLAN_NAME_SLUG_MAX_LEN = 63"

definition chunk_sort_key :: "vm \<Rightarrow> string \<times> string \<times> string \<times> int" where
  "chunk_sort_key v =
     (str_lower (or_empty (vm_application_hint v)), detect_family (vm_name v),
      str_lower (vm_name v), vm_id v)"

datatype chunk_error = Max_per_plan_not_positive

text \<open>The slices of the given sizes, one after another.\<close>

fun cut :: "nat list \<Rightarrow> 'a list \<Rightarrow> 'a list list" where
  "cut [] xs = []"
| "cut (n # ns) xs = take n xs # cut ns (drop n xs)"

definition chunk_sizes :: "nat \<Rightarrow> nat \<Rightarrow> nat list" where
  "chunk_sizes n n_chunks =
     map (\<lambda>i. n div n_chunks + (if i < n mod n_chunks then 1 else 0)) [0..<n_chunks]"

definition chunk_partition :: "vm list \<Rightarrow> int \<Rightarrow> chunk_error + vm list list" where
  "chunk_partition vms max_per_plan =
     (if max_per_plan \<le> 0 then Inl Max_per_plan_not_positive
      else if int (length vms) \<le> max_per_plan then Inr [vms]
      else
        (let ordered = sort_key chunk_sort_key vms;
             m = nat max_per_plan;
             n_chunks = (length ordered + m - 1) div m
         in Inr (cut (chunk_sizes (length ordered) n_chunks) ordered)))"

text \<open>The slug loop: the flag remembers that the last character written was a dash.\<close>

fun slug_chars :: "bool \<Rightarrow> bool \<Rightarrow> string \<Rightarrow> string" where
  "slug_chars started last_dash [] = []"
| "slug_chars started last_dash (c # cs) =
     (if is_alnum c then c # slug_chars True False cs
      else if \<not> last_dash \<and> started then CHR ''-'' # slug_chars started True cs
      else slug_chars started last_dash cs)"

definition slug_for_plan_name :: "string \<Rightarrow> nat \<Rightarrow> string" where
  "slug_for_plan_name value max_len =
     (let slug = strip_by (\<lambda>c. c = CHR ''-'') (slug_chars False False (str_lower value));
          cut_slug = rstrip_by (\<lambda>c. c = CHR ''-'') (take max_len (if slug = [] then ''plan'' else slug))
      in if cut_slug = [] then ''plan'' else cut_slug)"

definition compose_series_name ::
  "string \<Rightarrow> string option \<Rightarrow> string option \<Rightarrow> string option \<Rightarrow> nat \<Rightarrow> nat \<Rightarrow> bool \<Rightarrow> string" where
  "compose_series_name base vcenter_name cluster_name namespace index n_total multi_partition =
     (if n_total \<le> 1 \<and> \<not> multi_partition then base
      else
        (let parts = base # (if multi_partition
               then filter (\<lambda>s. s \<noteq> []) (map or_empty [vcenter_name, cluster_name, namespace])
               else []);
             stem = join_with ''-'' parts
         in if n_total \<le> 1 then slug_for_plan_name stem PLAN_NAME_SLUG_MAX_LEN
            else (let suffix = ''-'' @ show_nat index
                  in slug_for_plan_name stem (PLAN_NAME_SLUG_MAX_LEN - length suffix) @ suffix)))"

section \<open>Cutting\<close>

lemma concat_cut: "sum_list ns = length xs \<Longrightarrow> concat (cut ns xs) = xs"
  by (induction ns arbitrary: xs) (auto simp: min_def)

lemma map_length_cut: "sum_list ns \<le> length xs \<Longrightarrow> map length (cut ns xs) = ns"
  by (induction ns arbitrary: xs) auto

lemma sum_chunk_sizes: "0 < k \<Longrightarrow> sum_list (chunk_sizes n k) = n"
proof -
  assume k: "0 < k"
  have "sum_list (map (\<lambda>i. if i < r then 1 else 0) [0..<m]) = min r m" for r m :: nat
    by (induction m) auto
  then have "sum_list (chunk_sizes n k) = k * (n div k) + n mod k"
    using k by (simp add: chunk_sizes_def sum_list_addf sum_list_triv min_def)
  then show ?thesis by simp
qed

lemma ceil_div_mult: "0 < (m :: nat) \<Longrightarrow> n \<le> ((n + m - 1) div m) * m"
proof -
  assume m: "0 < m"
  have "(n + m - 1) mod m < m" using m by simp
  moreover have "(n + m - 1) div m * m + (n + m - 1) mod m = n + m - 1" by simp
  ultimately show ?thesis using m by linarith
qed

lemma chunk_sizes_bound:
  assumes "0 < k" and "n \<le> k * m" and "s \<in> set (chunk_sizes n k)"
  shows "n div k \<le> s \<and> s \<le> n div k + 1 \<and> s \<le> m"
proof -
  from assms(3) obtain i where s: "s = n div k + (if i < n mod k then 1 else 0)"
    by (auto simp: chunk_sizes_def)
  have "n div k + (if 0 < n mod k then 1 else 0) \<le> m"
  proof (cases "n mod k = 0")
    case True
    then have "n div k * k \<le> m * k" using assms(2) by (metis add.right_neutral div_mult_mod_eq mult.commute)
    with True assms(1) show ?thesis by simp
  next
    case False
    then have "n div k * k < m * k"
      using assms(2) by (metis add.commute add_less_same_cancel1 div_mult_mod_eq le_neq_implies_less
          less_add_same_cancel1 mult.commute neq0_conv order.strict_trans2)
    then have "n div k < m" using assms(1) by simp
    with False show ?thesis by simp
  qed
  with s show ?thesis by (auto split: if_splits)
qed

text \<open>Sorting by an injective key: rows with distinct ids have one chunk order.\<close>

lemma chunk_sort_key_inj: "wf_rows rows \<Longrightarrow> inj_on chunk_sort_key (set rows)"
  by (auto simp: chunk_sort_key_def wf_rows_def distinct_map inj_on_def)

lemma chunk_partition_cases:
  assumes "chunk_partition vms m = Inr chunks"
  obtains (one) "0 < m" "int (length vms) \<le> m" "chunks = [vms]"
  | (many) k where "0 < m" "m < int (length vms)" "k = (length vms + nat m - 1) div nat m" "1 < k"
      "chunks = cut (chunk_sizes (length vms) k) (sort_key chunk_sort_key vms)"
      "concat chunks = sort_key chunk_sort_key vms" "map length chunks = chunk_sizes (length vms) k"
proof (cases "int (length vms) \<le> m")
  case True
  with assms show ?thesis by (intro one) (auto simp: chunk_partition_def split: if_splits)
next
  case False
  define k where "k = (length vms + nat m - 1) div nat m"
  have m: "0 < m" using assms by (auto simp: chunk_partition_def split: if_splits)
  have ch: "chunks = cut (chunk_sizes (length vms) k) (sort_key chunk_sort_key vms)"
    using assms False m by (simp add: chunk_partition_def Let_def k_def)
  have "length vms \<le> k * nat m" unfolding k_def by (rule ceil_div_mult) (use m in simp)
  moreover have "nat m < length vms" using False m by simp
  ultimately have k: "1 < k" by (metis One_nat_def le_neq_implies_less less_one linorder_not_le mult_1 mult_is_0 not_less_eq zero_less_Suc)
  have sum: "sum_list (chunk_sizes (length vms) k) = length (sort_key chunk_sort_key vms)"
    using k by (simp add: sum_chunk_sizes)
  show ?thesis
    using False m k k_def ch concat_cut [OF sum] map_length_cut [OF eq_refl [OF sum]]
    by (intro many [of k]) (simp_all only: not_le)
qed

section \<open>Properties\<close>

lemma chunk_partition_chunks:
  assumes "chunk_partition vms m = Inr chunks" and "vms \<noteq> []"
  shows "mset (concat chunks) = mset vms \<and>
    list_all (\<lambda>c. c \<noteq> [] \<and> int (length c) \<le> m) chunks \<and>
    list_all (\<lambda>c. list_all (\<lambda>d. length c \<le> length d + 1) chunks) chunks"
  using assms(1)
proof (cases rule: chunk_partition_cases)
  case one
  with assms(2) show ?thesis by simp
next
  case (many k)
  have le: "length vms \<le> k * nat m" unfolding many(3) by (rule ceil_div_mult) (use many(1) in simp)
  have pos: "0 < k" using many(4) by simp
  have kn: "k \<le> length vms"
  proof -
    have "length vms + nat m - 1 \<le> length vms * nat m"
      using many(1,2) assms(2) by (cases "nat m"; cases "length vms") (auto simp: algebra_simps)
    then have "k \<le> (length vms * nat m) div nat m" unfolding many(3) by (rule div_le_mono)
    then show ?thesis using many(1) by simp
  qed
  have size: "length vms div k \<le> length c \<and> length c \<le> length vms div k + 1 \<and> length c \<le> nat m"
    if "c \<in> set chunks" for c
  proof -
    have "length c \<in> set (map length chunks)" using that by simp
    then show ?thesis unfolding many(7) by (rule chunk_sizes_bound [OF pos le])
  qed
  have "1 \<le> length vms div k" using kn pos by (simp add: div_greater_zero_iff Suc_leI)
  then have "c \<noteq> [] \<and> int (length c) \<le> m" if "c \<in> set chunks" for c
    using size [OF that] many(1) by auto
  moreover have "length c \<le> length d + 1" if "c \<in> set chunks" "d \<in> set chunks" for c d
    using size [OF that(1)] size [OF that(2)] by simp
  moreover have "mset (concat chunks) = mset vms" unfolding many(6) by simp
  ultimately show ?thesis by (simp add: list_all_iff)
qed

text \<open>
  Batching keeps the selection. The batches together hold exactly the selected VMs, each
  batch has at least one VM (of a non-empty selection) and at most the limit, and two batches
  differ in size by at most one.
\<close>

theorem chunk_partition_spec:
  assumes "chunk_partition vms m = Inr chunks" and "vms \<noteq> []"
  shows "mset (concat chunks) = mset vms \<and>
    list_all (\<lambda>c. c \<noteq> [] \<and> int (length c) \<le> m) chunks \<and>
    list_all (\<lambda>c. list_all (\<lambda>d. length c \<le> length d + 1) chunks) chunks"
  by (rule chunk_partition_chunks [OF assms])

text \<open>
  The batches do not depend on the order of the selection: two listings of the same
  inventory rows that need several batches are cut identically.
\<close>

theorem chunk_partition_deterministic:
  assumes "wf_rows vms" and "mset vms = mset vms'" and "m < int (length vms)"
  shows "chunk_partition vms m = chunk_partition vms' m"
proof -
  have len: "length vms = length vms'" using assms(2) by (rule mset_eq_length)
  have "sort_key chunk_sort_key vms = sort_key chunk_sort_key vms'"
    by (rule sort_key_perm [OF assms(2) chunk_sort_key_inj [OF assms(1)]])
  with len assms(3) show ?thesis by (simp add: chunk_partition_def Let_def)
qed

section \<open>Plan names\<close>

text \<open>
  An RFC 1123 label: lower-case letters, digits and dashes, not starting or ending in a dash.
\<close>

definition is_dash :: "char \<Rightarrow> bool" where "is_dash c \<longleftrightarrow> c = CHR ''-''"

definition label_char :: "char \<Rightarrow> bool" where
  "label_char c \<longleftrightarrow> is_lower c \<or> is_digit c \<or> is_dash c"

definition rfc1123_label :: "string \<Rightarrow> bool" where
  "rfc1123_label s \<longleftrightarrow> s \<noteq> [] \<and> list_all label_char s \<and> \<not> is_dash (hd s) \<and> \<not> is_dash (last s)"

lemma rstrip_by_prefix: "\<exists>t. s = rstrip_by p s @ t"
  by (metis rev_append rev_rev_ident rstrip_by_def takeWhile_dropWhile_id)

lemma rstrip_by_set: "set (rstrip_by p s) \<subseteq> set s"
  by (auto simp: rstrip_by_def dest: set_dropWhileD)

lemma rstrip_by_length: "length (rstrip_by p s) \<le> length s"
  using length_dropWhile_le [of p "rev s"] by (simp only: rstrip_by_def length_rev)

lemma rstrip_by_last: "rstrip_by p s \<noteq> [] \<Longrightarrow> \<not> p (last (rstrip_by p s))"
proof -
  assume ne: "rstrip_by p s \<noteq> []"
  then have "dropWhile p (rev s) \<noteq> []" by (simp add: rstrip_by_def)
  then have "\<not> p (hd (dropWhile p (rev s)))" by (rule hd_dropWhile)
  then show ?thesis using ne by (simp add: rstrip_by_def last_rev)
qed

lemma rstrip_by_hd: "s \<noteq> [] \<Longrightarrow> \<not> p (hd s) \<Longrightarrow> rstrip_by p s \<noteq> [] \<and> hd (rstrip_by p s) = hd s"
proof -
  assume s: "s \<noteq> []" "\<not> p (hd s)"
  then have "rstrip_by p s \<noteq> []" by (cases s) (auto simp: rstrip_by_def dropWhile_eq_Nil_conv)
  moreover obtain t where "s = rstrip_by p s @ t" using rstrip_by_prefix by blast
  ultimately show ?thesis by (metis hd_append2)
qed

lemma strip_by_hd: "strip_by p s \<noteq> [] \<Longrightarrow> \<not> p (hd (strip_by p s))"
proof -
  assume ne: "strip_by p s \<noteq> []"
  have d: "dropWhile p s \<noteq> []"
  proof
    assume "dropWhile p s = []"
    then have "strip_by p s = []" by (simp only: strip_by_def rstrip_by_def) simp
    with ne show False by contradiction
  qed
  then have "\<not> p (hd (dropWhile p s))" by (rule hd_dropWhile)
  with rstrip_by_hd [OF d] show ?thesis by (simp add: strip_by_def)
qed

lemma strip_by_set: "set (strip_by p s) \<subseteq> set s"
  using rstrip_by_set by (fastforce simp: strip_by_def dest: set_dropWhileD)

lemma is_alnum_lower: "is_alnum (lower_char c) \<Longrightarrow> is_lower (lower_char c) \<or> is_digit (lower_char c)"
proof (cases "is_upper c")
  case True
  then have "(of_char (lower_char c) :: nat) = of_char c + 32" by (simp add: of_char_lower_char)
  with True show ?thesis by (simp add: is_upper_def is_lower_def)
qed (simp add: lower_char_def is_alnum_def is_alpha_def)

lemma slug_chars_label: "list_all label_char (slug_chars b d (str_lower s))"
  by (induction s arbitrary: b d) (use is_alnum_lower in \<open>auto simp: label_char_def is_dash_def str_lower_def\<close>)

lemma slug_label:
  assumes "0 < n"
  shows "rfc1123_label (slug_for_plan_name v n)"
proof -
  let ?raw = "strip_by (\<lambda>c. c = CHR ''-'') (slug_chars False False (str_lower v))"
  let ?slug = "if ?raw = [] then ''plan'' else ?raw"
  let ?cut = "rstrip_by (\<lambda>c. c = CHR ''-'') (take n ?slug)"
  have plan: "rfc1123_label ''plan''" by code_simp
  have ne: "?slug \<noteq> []" by simp
  have hd: "\<not> is_dash (hd ?slug)" using strip_by_hd [of _ "slug_chars False False (str_lower v)"]
    by (auto simp: is_dash_def)
  have chars: "list_all label_char ?slug"
    using plan slug_chars_label [of False False v] strip_by_set
    by (auto simp: rfc1123_label_def list_all_iff subset_iff)
  have t: "take n ?slug \<noteq> []" "hd (take n ?slug) = hd ?slug" using ne assms by (simp_all add: hd_take)
  have "?cut \<noteq> [] \<and> hd ?cut = hd ?slug"
    using rstrip_by_hd [OF t(1), of "\<lambda>c. c = CHR ''-''"] t(2) hd by (simp add: is_dash_def)
  moreover have "list_all label_char ?cut"
    unfolding list_all_iff
  proof
    fix x assume "x \<in> set ?cut"
    then have "x \<in> set (take n ?slug)" using rstrip_by_set by (rule subsetD [rotated])
    then have "x \<in> set ?slug" by (rule in_set_takeD)
    with chars show "label_char x" by (simp only: list_all_iff)
  qed
  moreover have "\<not> is_dash (last ?cut)"
    using rstrip_by_last [of "\<lambda>c. c = CHR ''-''" "take n ?slug"] calculation(1) by (simp add: is_dash_def)
  ultimately have "rfc1123_label ?cut" using hd by (simp add: rfc1123_label_def)
  then show ?thesis by (simp add: slug_for_plan_name_def Let_def rfc1123_label_def)
qed

lemma slug_length:
  assumes "4 \<le> n"
  shows "length (slug_for_plan_name v n) \<le> n"
proof -
  have "length (rstrip_by p (take n s)) \<le> n" for p s
    using rstrip_by_length [of p "take n s"] by simp
  with assms show ?thesis by (simp add: slug_for_plan_name_def Let_def)
qed

text \<open>
  The plans of a series get valid Kubernetes names. In a series of several plans whose
  number has at most 58 digits, every name is an RFC 1123 label of at most 63 characters.
\<close>

theorem series_name_valid:
  assumes "1 < n_total" and "length (show_nat index) \<le> 58"
  shows "rfc1123_label (compose_series_name base vc cl ns index n_total multi) \<and>
    length (compose_series_name base vc cl ns index n_total multi) \<le> 63"
proof -
  let ?sfx = "CHR ''-'' # show_nat index"
  obtain stem where eq: "compose_series_name base vc cl ns index n_total multi =
      slug_for_plan_name stem (63 - length ?sfx) @ ?sfx"
    using assms(1) by (simp add: compose_series_name_def Let_def PLAN_NAME_SLUG_MAX_LEN_def)
  have "rfc1123_label (slug_for_plan_name stem (63 - length ?sfx))"
    using assms(2) by (intro slug_label) simp
  moreover have digits: "list_all is_digit (show_nat index)" "show_nat index \<noteq> []"
    by (simp_all add: show_nat_digits)
  moreover have "\<not> is_dash (last (show_nat index))"
  proof
    assume "is_dash (last (show_nat index))"
    moreover have "is_digit (last (show_nat index))" using digits by (simp add: list_all_iff)
    ultimately show False by (simp add: is_dash_def)
  qed
  ultimately have "rfc1123_label (slug_for_plan_name stem (63 - length ?sfx) @ ?sfx)"
    by (auto simp: rfc1123_label_def label_char_def is_dash_def list_all_iff)
  moreover have "length (slug_for_plan_name stem (63 - length ?sfx)) \<le> 63 - length ?sfx"
    using assms(2) by (intro slug_length) simp
  ultimately show ?thesis unfolding eq using assms(2) by auto
qed

lemma dash_digits_unique:
  assumes "xs @ CHR ''-'' # ds = ys @ CHR ''-'' # es" and "list_all is_digit ds" and "list_all is_digit es"
  shows "ds = es"
proof -
  have "takeWhile is_digit (rev (xs @ CHR ''-'' # ds)) = rev ds"
    if "list_all is_digit ds" for xs ds
  proof -
    have "takeWhile is_digit (rev ds @ CHR ''-'' # rev xs) = rev ds @ takeWhile is_digit (CHR ''-'' # rev xs)"
      using that by (intro takeWhile_append2) (simp add: list_all_iff)
    then show ?thesis by simp
  qed
  from this [OF assms(2), of xs] this [OF assms(3), of ys] assms(1) have "rev ds = rev es" by metis
  then show ?thesis by simp
qed

text \<open>
  No two plans of a series share a name: names with different numbers differ, whatever
  base, partition and length the series has, since the number is appended after truncation.
\<close>

theorem series_names_distinct:
  assumes "1 < n_total" and "1 < n_total'" and "index \<noteq> index'"
  shows "compose_series_name base vc cl ns index n_total multi \<noteq>
    compose_series_name base' vc' cl' ns' index' n_total' multi'"
proof
  assume eq: "compose_series_name base vc cl ns index n_total multi =
    compose_series_name base' vc' cl' ns' index' n_total' multi'"
  obtain p where p: "compose_series_name base vc cl ns index n_total multi = p @ CHR ''-'' # show_nat index"
    using assms(1) by (simp add: compose_series_name_def Let_def)
  obtain q where q: "compose_series_name base' vc' cl' ns' index' n_total' multi' =
      q @ CHR ''-'' # show_nat index'"
    using assms(2) by (simp add: compose_series_name_def Let_def)
  have "show_nat index = show_nat index'"
    using dash_digits_unique [of p _ q] eq p q show_nat_digits by metis
  with assms(3) show False by simp
qed

section \<open>Instances\<close>

definition five_vms :: "vm list" where
  "five_vms = [mk_vm 5 ''web-2'', mk_vm 1 ''db-1'', mk_vm 4 ''web-1'', mk_vm 2 ''db-2'', mk_vm 3 ''api'']"

lemma five_vms_chunks:
  "chunk_partition five_vms 2 =
     Inr [[mk_vm 3 ''api'', mk_vm 1 ''db-1''], [mk_vm 2 ''db-2'', mk_vm 4 ''web-1''], [mk_vm 5 ''web-2'']]"
  by code_simp

lemma chunk_partition_spec_witness:
  "mset (concat [[mk_vm 3 ''api'', mk_vm 1 ''db-1''], [mk_vm 2 ''db-2'', mk_vm 4 ''web-1''], [mk_vm 5 ''web-2'']])
     = mset five_vms"
  using chunk_partition_spec [OF five_vms_chunks] by (simp add: five_vms_def)

lemma chunk_partition_deterministic_witness:
  "chunk_partition five_vms 2 = chunk_partition (rev five_vms) 2"
  by (rule chunk_partition_deterministic) (simp_all add: five_vms_def wf_rows_def)

lemma series_name_valid_witness:
  "rfc1123_label (compose_series_name ''Fall Migration'' (Some ''vc01'') None (Some ''prod'') 12 30 True) \<and>
   length (compose_series_name ''Fall Migration'' (Some ''vc01'') None (Some ''prod'') 12 30 True) \<le> 63"
  by (rule series_name_valid) code_simp+

lemma series_names_distinct_witness:
  "compose_series_name ''a'' None None None 11 30 False \<noteq> compose_series_name ''a-1'' None None None 1 30 False"
  by (rule series_names_distinct) simp_all

end
