(* ===== verification/Environment.thy ===== *)
theory Environment
  imports Inventory
begin

text \<open>
  \<open>app/core/environment.py\<close>: free-text environment labels mapped to the canonical
  classification, and the detection cascade over explicit label, custom attributes, folder,
  cluster and VM name. Regular expressions are written out as predicates on ASCII strings.
\<close>

section \<open>The code\<close>

datatype environment =
    PRODUCTION | DEVELOPMENT | TEST | STAGING | DR | INFRASTRUCTURE | DB_ONLY | NON_PROD | UNKNOWN

fun env_value :: "environment \<Rightarrow> string" where
  "env_value PRODUCTION = ''production''"
| "env_value DEVELOPMENT = ''development''"
| "env_value TEST = ''test''"
| "env_value STAGING = ''staging''"
| "env_value DR = ''dr''"
| "env_value INFRASTRUCTURE = ''infrastructure''"
| "env_value DB_ONLY = ''db_only''"
| "env_value NON_PROD = ''non_prod''"
| "env_value UNKNOWN = ''unknown''"

definition ALIASES :: "(string \<times> environment) list" where
  "ALIASES =
    [(''prod'', PRODUCTION), (''prd'', PRODUCTION), (''production'', PRODUCTION),
     (''live'', PRODUCTION), (''dev'', DEVELOPMENT), (''develop'', DEVELOPMENT),
     (''development'', DEVELOPMENT), (''sandbox'', DEVELOPMENT), (''san'', DEVELOPMENT),
     (''test'', TEST), (''tst'', TEST), (''qa'', TEST), (''uat'', TEST),
     (''stg'', STAGING), (''stage'', STAGING), (''staging'', STAGING), (''preprod'', STAGING),
     (''pre-prod'', STAGING), (''dr'', DR), (''disaster'', DR), (''disasterrecovery'', DR),
     (''disaster-recovery'', DR), (''failover'', DR), (''infra'', INFRASTRUCTURE),
     (''infrastructure'', INFRASTRUCTURE), (''shared'', INFRASTRUCTURE), (''ad'', INFRASTRUCTURE),
     (''dc'', INFRASTRUCTURE), (''identity'', INFRASTRUCTURE), (''db'', DB_ONLY),
     (''database'', DB_ONLY), (''data'', DB_ONLY), (''nonprod'', NON_PROD),
     (''non-prod'', NON_PROD), (''non_prod'', NON_PROD), (''lower'', NON_PROD),
     (''unknown'', UNKNOWN), ('''', UNKNOWN)]"

text \<open>
  \<open>sorted(_ALIASES, key=len, reverse=True)\<close>: a reversed sort keeps the order of equal keys,
  which is the ascending sort of the reversed list, reversed.
\<close>

definition aliases_by_length :: "string list" where
  "aliases_by_length = rev (sort_key length (rev (map fst ALIASES)))"

definition env_key :: "string \<Rightarrow> string" where
  "env_key value = filter (\<lambda>c. \<not> is_space c) (str_lower (str_strip value))"

definition normalize :: "string option \<Rightarrow> environment" where
  "normalize value =
     (if or_empty value = [] then UNKNOWN
      else
        (let key = env_key (or_empty value)
         in if key = [] then UNKNOWN
            else (case dict_get ALIASES key of
                Some e \<Rightarrow> e
              | None \<Rightarrow>
                  (case List.find (\<lambda>alias. alias \<noteq> [] \<and> starts_with alias key) aliases_by_length of
                     Some alias \<Rightarrow> (case dict_get ALIASES alias of Some e \<Rightarrow> e | None \<Rightarrow> UNKNOWN)
                   | None \<Rightarrow> UNKNOWN))))"

record detection_result =
  dr_environment :: environment
  dr_confidence :: string
  dr_signal :: string

definition FOLDER_RULES :: "(string \<times> environment) list" where
  "FOLDER_RULES =
    [(''/preprod'', STAGING), (''/staging'', STAGING), (''/production'', PRODUCTION),
     (''/disaster'', DR), (''/identity'', INFRASTRUCTURE), (''/develop'', DEVELOPMENT),
     (''/infra'', INFRASTRUCTURE), (''/shared'', INFRASTRUCTURE), (''/prod'', PRODUCTION),
     (''/stg'', STAGING), (''/dev'', DEVELOPMENT), (''/test'', TEST), (''/uat'', TEST),
     (''/qa'', TEST), (''/dr'', DR)]"

definition CLUSTER_RULES :: "(string \<times> environment) list" where
  "CLUSTER_RULES =
    [(''prod'', PRODUCTION), (''dev'', DEVELOPMENT), (''test'', TEST), (''qa'', TEST),
     (''dr'', DR), (''staging'', STAGING), (''stg'', STAGING), (''infra'', INFRASTRUCTURE)]"

definition NAME_PREFIX_TO_ENV :: "(string \<times> environment) list" where
  "NAME_PREFIX_TO_ENV =
    [(''prod'', PRODUCTION), (''dev'', DEVELOPMENT), (''test'', TEST), (''stg'', STAGING),
     (''dr'', DR), (''infra'', INFRASTRUCTURE), (''ehrstaging'', STAGING), (''ehrdr'', DR)]"

text \<open>\<open>^(prod|dev|...)[-_]\<close> ignoring case: the matched prefix.\<close>

definition name_prefix :: "string \<Rightarrow> string option" where
  "name_prefix name =
     (let s = str_lower name
      in List.find (\<lambda>p. starts_with (p @ ''-'') s \<or> starts_with (p @ ''_'') s)
           (map fst NAME_PREFIX_TO_ENV))"

definition DB_TOKENS :: "string list" where
  "DB_TOKENS = [''database'', ''postgres'', ''mariadb'', ''mongodb'', ''mysql'', ''mongo'',
     ''oracle'', ''redis'', ''sql'', ''db'']"

text \<open>
  \<open>\b(database|...|db)(?![a-z])\<close> ignoring case, searched: a token at a word boundary that no
  letter follows. The flag says whether a word character precedes.
\<close>

definition db_token_here :: "string \<Rightarrow> bool" where
  "db_token_here s \<longleftrightarrow>
     list_ex (\<lambda>t. starts_with t s \<and>
       (case drop (length t) s of [] \<Rightarrow> True | c # _ \<Rightarrow> \<not> is_alpha c)) DB_TOKENS"

fun db_search :: "bool \<Rightarrow> string \<Rightarrow> bool" where
  "db_search after_word [] = False"
| "db_search after_word (c # cs) =
     ((\<not> after_word \<and> db_token_here (c # cs)) \<or> db_search (is_word c) cs)"

definition db_heuristic :: "string \<Rightarrow> bool" where
  "db_heuristic name = db_search False (str_lower name)"

definition ATTRIBUTE_KEYS :: "string list" where
  "ATTRIBUTE_KEYS = [''Environment'', ''environment'', ''ENV'', ''env'', ''Env'']"

definition result_of :: "environment \<Rightarrow> string \<Rightarrow> string \<Rightarrow> detection_result" where
  "result_of e confidence signal =
     \<lparr>dr_environment = e, dr_confidence = confidence, dr_signal = signal\<rparr>"

text \<open>The tiers, each a result or nothing.\<close>

definition tier_explicit :: "string option \<Rightarrow> detection_result option" where
  "tier_explicit explicit =
     (if truthy explicit \<and> normalize explicit \<noteq> UNKNOWN
      then Some (result_of (normalize explicit) ''high'' ''explicit'') else None)"

definition tier_attributes :: "(string \<times> string) list \<Rightarrow> detection_result option" where
  "tier_attributes attributes =
     map_option (\<lambda>k. result_of (normalize (dict_get attributes k)) ''high'' ''custom_attribute'')
       (List.find (\<lambda>k. truthy (dict_get attributes k) \<and> normalize (dict_get attributes k) \<noteq> UNKNOWN)
          ATTRIBUTE_KEYS)"

definition tier_rules ::
  "(string \<times> environment) list \<Rightarrow> string \<Rightarrow> string \<Rightarrow> string option \<Rightarrow> detection_result option" where
  "tier_rules rules confidence signal text_value =
     (if truthy text_value
      then map_option (\<lambda>(_, e). result_of e confidence signal)
        (List.find (\<lambda>(token, _). contains_str token (str_lower (or_empty text_value))) rules)
      else None)"

definition tier_name :: "string option \<Rightarrow> detection_result option" where
  "tier_name name =
     (if truthy name
      then
        (case name_prefix (or_empty name) of
           Some p \<Rightarrow>
             (case dict_get NAME_PREFIX_TO_ENV p of
                Some e \<Rightarrow> Some (result_of e ''low'' ''name_prefix'')
              | None \<Rightarrow> if db_heuristic (or_empty name)
                        then Some (result_of DB_ONLY ''low'' ''db_heuristic'') else None)
         | None \<Rightarrow> if db_heuristic (or_empty name)
                   then Some (result_of DB_ONLY ''low'' ''db_heuristic'') else None)
      else None)"

fun first_some :: "'a option list \<Rightarrow> 'a option" where
  "first_some [] = None"
| "first_some (Some x # _) = Some x"
| "first_some (None # xs) = first_some xs"

definition detect_environment ::
  "string option \<Rightarrow> string option \<Rightarrow> string option \<Rightarrow> (string \<times> string) list \<Rightarrow> string option
     \<Rightarrow> detection_result" where
  "detect_environment name folder_path cluster custom_attributes explicit =
     (case first_some
        [tier_explicit explicit,
         tier_attributes custom_attributes,
         tier_rules FOLDER_RULES ''high'' ''folder'' folder_path,
         tier_rules CLUSTER_RULES ''medium'' ''cluster'' cluster,
         tier_name name] of
        Some r \<Rightarrow> r
      | None \<Rightarrow> result_of UNKNOWN ''low'' ''unset'')"

definition iter_supported_values :: "string list" where
  "iter_supported_values = map env_value
     [PRODUCTION, DEVELOPMENT, TEST, STAGING, DR, INFRASTRUCTURE, DB_ONLY, NON_PROD, UNKNOWN]"

section \<open>Normalization\<close>

lemma filter_strip: "filter (\<lambda>c. \<not> p c) (strip_by p s) = filter (\<lambda>c. \<not> p c) s"
proof -
  have drop: "filter (\<lambda>c. \<not> p c) (dropWhile p s) = filter (\<lambda>c. \<not> p c) s" for s
    by (induction s) auto
  have "filter (\<lambda>c. \<not> p c) (rstrip_by p s) = filter (\<lambda>c. \<not> p c) s" for s
    using drop [of "rev s"] by (simp add: rstrip_by_def rev_filter [symmetric])
  then show ?thesis by (simp add: strip_by_def drop)
qed

lemma is_space_lower [simp]: "is_space (lower_char c) = is_space c"
proof (cases "is_upper c")
  case True
  then have "(of_char (lower_char c) :: nat) = of_char c + 32" by (simp add: of_char_lower_char)
  with True show ?thesis by (simp add: is_space_def is_upper_def)
qed (simp add: lower_char_def)

lemma env_key_eq: "env_key s = filter (\<lambda>c. \<not> is_space c) (str_lower s)"
proof -
  have "filter (\<lambda>c. \<not> is_space c) (str_lower t) = str_lower (filter (\<lambda>c. \<not> is_space c) t)" for t
    by (simp add: str_lower_def filter_map comp_def)
  then show ?thesis by (simp add: env_key_def str_strip_def filter_strip)
qed

text \<open>
  The classification of a label depends only on its letters: case, surrounding blanks and
  inner blanks are irrelevant.
\<close>

theorem normalize_case_and_space:
  assumes "filter (\<lambda>c. \<not> is_space c) (str_lower a) = filter (\<lambda>c. \<not> is_space c) (str_lower b)"
  shows "normalize (Some a) = normalize (Some b)"
proof -
  have "env_key a = env_key b" using assms by (simp only: env_key_eq)
  moreover have "env_key [] = []" by (simp add: env_key_eq str_lower_def)
  ultimately show ?thesis by (auto simp: normalize_def Let_def)
qed

text \<open>Stored values read back: normalizing the value of a classification returns it.\<close>

theorem normalize_roundtrip: "normalize (Some (env_value e)) = e"
proof -
  have "list_all (\<lambda>e. normalize (Some (env_value e)) = e)
      [PRODUCTION, DEVELOPMENT, TEST, STAGING, DR, INFRASTRUCTURE, DB_ONLY, NON_PROD, UNKNOWN]"
    by code_simp
  then show ?thesis by (cases e) (simp_all only: list.pred_inject)
qed

section \<open>The cascade\<close>

lemma find_rule_value:
  "list_all (\<lambda>(_, e). e \<noteq> UNKNOWN) rules \<Longrightarrow> List.find P rules = Some (t, e) \<Longrightarrow> e \<noteq> UNKNOWN"
  by (induction rules) (auto split: if_splits)

lemma known_values:
  "list_all (\<lambda>(_, e). e \<noteq> UNKNOWN) FOLDER_RULES" "list_all (\<lambda>(_, e). e \<noteq> UNKNOWN) CLUSTER_RULES"
  "list_all (\<lambda>(_, e). e \<noteq> UNKNOWN) NAME_PREFIX_TO_ENV"
  by code_simp+

text \<open>A tier only ever returns a known environment, with its own confidence and signal.\<close>

definition sound_tier :: "string list \<Rightarrow> string \<Rightarrow> detection_result option \<Rightarrow> bool" where
  "sound_tier signals confidence t \<longleftrightarrow>
     (case t of None \<Rightarrow> True
      | Some r \<Rightarrow> dr_environment r \<noteq> UNKNOWN \<and> dr_confidence r = confidence \<and> dr_signal r \<in> set signals)"

lemma tier_rules_sound:
  "list_all (\<lambda>(_, e). e \<noteq> UNKNOWN) rules \<Longrightarrow> sound_tier [sig] conf (tier_rules rules conf sig t)"
  using find_rule_value [of rules]
  by (fastforce simp: sound_tier_def tier_rules_def result_of_def split: option.splits)

lemma tier_explicit_sound: "sound_tier [''explicit''] ''high'' (tier_explicit e)"
  by (simp add: sound_tier_def tier_explicit_def result_of_def)

lemma tier_attributes_sound: "sound_tier [''custom_attribute''] ''high'' (tier_attributes a)"
  by (auto simp: sound_tier_def tier_attributes_def result_of_def find_Some_iff split: option.splits)

lemma tier_name_sound: "sound_tier [''name_prefix'', ''db_heuristic''] ''low'' (tier_name n)"
proof -
  have "e \<noteq> UNKNOWN" if "dict_get NAME_PREFIX_TO_ENV p = Some e" for p e
    using that known_values(3) by (auto simp: dict_get_eq_map_of list_all_iff dest: map_of_SomeD)
  then show ?thesis
    by (auto simp: sound_tier_def tier_name_def result_of_def split: option.splits)
qed

lemma first_some_Some: "first_some xs = Some x \<Longrightarrow> Some x \<in> set xs"
  by (induction xs rule: first_some.induct) auto

text \<open>
  The verdict is honest. A detected environment is UNKNOWN exactly when no signal matched,
  and the confidence is determined by the signal: high for an operator label, a custom
  attribute or a folder, medium for a cluster, low for a name and without any signal.
\<close>

theorem detect_environment_confidence:
  "(dr_environment (detect_environment name folder cluster attrs explicit) = UNKNOWN) =
     (dr_signal (detect_environment name folder cluster attrs explicit) = ''unset'') \<and>
   dr_confidence (detect_environment name folder cluster attrs explicit) =
     (if dr_signal (detect_environment name folder cluster attrs explicit)
           \<in> set [''explicit'', ''custom_attribute'', ''folder''] then ''high''
      else if dr_signal (detect_environment name folder cluster attrs explicit) = ''cluster''
        then ''medium'' else ''low'')"
proof (cases "first_some [tier_explicit explicit, tier_attributes attrs,
    tier_rules FOLDER_RULES ''high'' ''folder'' folder,
    tier_rules CLUSTER_RULES ''medium'' ''cluster'' cluster, tier_name name]")
  case None
  then show ?thesis by (simp add: detect_environment_def result_of_def)
next
  case (Some r)
  from first_some_Some [OF this] have "tier_explicit explicit = Some r \<or> tier_attributes attrs = Some r \<or>
      tier_rules FOLDER_RULES ''high'' ''folder'' folder = Some r \<or>
      tier_rules CLUSTER_RULES ''medium'' ''cluster'' cluster = Some r \<or> tier_name name = Some r"
    by (simp only: list.set insert_iff empty_iff) metis
  moreover note tier_explicit_sound [of explicit] tier_attributes_sound [of attrs]
    tier_rules_sound [OF known_values(1), of "''folder''" "''high''" folder]
    tier_rules_sound [OF known_values(2), of "''cluster''" "''medium''" cluster] tier_name_sound [of name]
  ultimately have "dr_environment r \<noteq> UNKNOWN \<and>
      ((dr_signal r \<in> set [''explicit'', ''custom_attribute'', ''folder''] \<and> dr_confidence r = ''high'') \<or>
       (dr_signal r = ''cluster'' \<and> dr_confidence r = ''medium'') \<or>
       (dr_signal r \<in> set [''name_prefix'', ''db_heuristic''] \<and> dr_confidence r = ''low''))"
    unfolding sound_tier_def by (elim disjE) (simp_all)
  moreover have "detect_environment name folder cluster attrs explicit = r"
    using Some by (simp add: detect_environment_def)
  ultimately show ?thesis by auto
qed

text \<open>
  An operator label that normalizes to an environment decides, whatever the inventory
  says.
\<close>

theorem explicit_label_wins:
  assumes "normalize explicit \<noteq> UNKNOWN"
  shows "detect_environment name folder cluster attrs explicit =
    result_of (normalize explicit) ''high'' ''explicit''"
proof -
  have "truthy explicit" using assms by (auto simp: normalize_def truthy_def)
  with assms show ?thesis by (simp add: detect_environment_def tier_explicit_def)
qed

text \<open>
  The cluster rules are not ordered by specificity. A cluster named as non-production is
  detected as PRODUCTION, although the same text normalizes to NON_PROD.
\<close>

theorem nonprod_cluster_detected_as_production:
  "dr_environment (detect_environment None None (Some ''nonprod-east'') [] None) = PRODUCTION \<and>
     normalize (Some ''nonprod-east'') = NON_PROD"
  by code_simp

section \<open>Instances\<close>

lemma normalize_case_and_space_witness: "normalize (Some '' Prod '') = normalize (Some ''PROD'')"
  by (rule normalize_case_and_space) code_simp

lemma explicit_label_wins_witness:
  "detect_environment (Some ''dev-1'') None None [] (Some ''Prod East'') = result_of PRODUCTION ''high'' ''explicit''"
proof -
  have n: "normalize (Some ''Prod East'') = PRODUCTION" by code_simp
  then have "normalize (Some ''Prod East'') \<noteq> UNKNOWN" by simp
  from explicit_label_wins [OF this, of "Some ''dev-1''" None None "[]"] show ?thesis by (simp only: n)
qed

end
