(* ===== verification/Guest_State.thy ===== *)
theory Guest_State
  imports Prelude
begin

text \<open>
  The state a collection reads from a guest (\<open>SSHCollector.collect\<close> in \<open>app/core/ssh.py\<close>), as the
  two drift engines see it: services, listening ports, mounts, cron tables, network and identity.
  A key a dict may lack is an option. Only dicts of the collector's shape are modelled: the guards
  of the engines against values of another JSON type have no counterpart.
\<close>

record guest_service =
  gs_unit :: "string option"
  gs_name :: "string option"
  gs_active :: "string option"
  gs_sub :: "string option"

text \<open>\<open>int(port) if port.isdigit() else port\<close>\<close>

datatype port_number = Port_int int | Port_text string

record guest_port =
  gp_proto :: "string option"
  gp_address :: "string option"
  gp_port :: "port_number option"

record guest_mount =
  gm_target :: "string option"
  gm_source :: "string option"
  gm_fstype :: "string option"

record guest_iface =
  gi_ipv4 :: "string list"
  gi_ipv6 :: "string list"

record guest_network =
  gn_interfaces :: "(string \<times> guest_iface) list"
  gn_routes :: "string list"
  gn_dns :: "string list"

record guest_cron =
  gc_users :: "(string \<times> string list) list"
  gc_system :: "(string \<times> string list) list"

record guest_meta =
  ge_kernel :: "string option"
  ge_os :: "(string \<times> string) list"
  ge_os_family :: "string option"

record guest_state =
  st_services :: "guest_service list"
  st_ports :: "guest_port list"
  st_mounts :: "guest_mount list"
  st_network :: guest_network
  st_cron :: guest_cron
  st_meta :: guest_meta

text \<open>The empty dict.\<close>

definition empty_state :: guest_state where
  "empty_state = \<lparr>st_services = [], st_ports = [], st_mounts = [],
     st_network = \<lparr>gn_interfaces = [], gn_routes = [], gn_dns = []\<rparr>,
     st_cron = \<lparr>gc_users = [], gc_system = []\<rparr>,
     st_meta = \<lparr>ge_kernel = None, ge_os = [], ge_os_family = None\<rparr>\<rparr>"

section \<open>Python renderings and sets\<close>

text \<open>\<open>str(x)\<close> of the values that occur in keys.\<close>

fun show_port :: "port_number option \<Rightarrow> string" where
  "show_port None = ''None''"
| "show_port (Some (Port_int i)) = show_int i"
| "show_port (Some (Port_text s)) = s"

definition show_opt :: "string option \<Rightarrow> string" where
  "show_opt s = (case s of None \<Rightarrow> ''None'' | Some t \<Rightarrow> t)"

text \<open>
  \<open>repr\<close> of an ASCII string: single quotes unless the text has one and no double quote; the
  quote, the backslash and the control characters are escaped.
\<close>

definition hex_digit :: "nat \<Rightarrow> char" where
  "hex_digit n = (if n < 10 then char_of (48 + n) else char_of (87 + n))"

definition repr_char :: "char \<Rightarrow> char \<Rightarrow> string" where
  "repr_char quote c = (let n = of_char c :: nat in
     if c = quote \<or> n = 92 then [CHR 0x5C, c]
     else if n = 10 then [CHR 0x5C, CHR ''n'']
     else if n = 13 then [CHR 0x5C, CHR ''r'']
     else if n = 9 then [CHR 0x5C, CHR ''t'']
     else if n < 32 \<or> n = 127 then [CHR 0x5C, CHR ''x'', hex_digit (n div 16), hex_digit (n mod 16)]
     else [c])"

definition repr_str :: "string \<Rightarrow> string" where
  "repr_str s =
     (let quote = (if CHR 0x27 \<in> set s \<and> CHR 0x22 \<notin> set s then CHR 0x22 else CHR 0x27)
      in quote # concat (map (repr_char quote) s) @ [quote])"

text \<open>\<open>str\<close> of the dict \<open>{"path": p, "entries": es}\<close>.\<close>

definition repr_cron_file :: "string \<times> string list \<Rightarrow> string" where
  "repr_cron_file f =
     (case f of (path, entries) \<Rightarrow>
        [CHR ''{''] @ repr_str ''path'' @ '': '' @ repr_str path @ '', '' @ repr_str ''entries'' @
        '': ['' @ join_with '', '' (map repr_str entries) @ '']'' @ [CHR ''}''])"

text \<open>\<open>sorted(a - b)\<close> of two sets given by their elements.\<close>

definition sorted_diff :: "'a :: linorder list \<Rightarrow> 'a list \<Rightarrow> 'a list" where
  "sorted_diff a b = sort (remdups (filter (\<lambda>x. x \<notin> set b) a))"

lemma set_sorted_diff [simp]: "set (sorted_diff a b) = set a - set b"
  by (auto simp: sorted_diff_def)

lemma distinct_sorted_diff [simp]: "distinct (sorted_diff a b)"
  by (simp add: sorted_diff_def)

lemma sorted_sorted_diff [simp]: "sorted (sorted_diff a b)"
  by (simp add: sorted_diff_def)

lemma sorted_diff_empty [simp]: "sorted_diff a b = [] \<longleftrightarrow> set a \<subseteq> set b"
proof -
  have "sorted_diff a b = [] \<longleftrightarrow> set a - set b = {}"
    by (simp only: set_empty [symmetric] set_sorted_diff)
  then show ?thesis by blast
qed

lemma sorted_diff_cong: "set a = set a' \<Longrightarrow> set b = set b' \<Longrightarrow> sorted_diff a b = sorted_diff a' b'"
  by (rule sorted_distinct_set_unique) simp_all

end
