(* ===== verification/State_Diff.thy ===== *)
theory State_Diff
  imports Guest_State
begin

text \<open>
  The structured diff of the validation pipeline (\<open>compute_diff\<close> and its helpers in
  \<open>app/core/llm/client.py\<close>). Sets are lists of their elements. Where the code sorts a set by a key
  that does not tell its elements apart, the order in which Python iterates over the set reaches the
  result; it is the parameter \<open>order\<close>, a function that rearranges the elements.
\<close>

section \<open>Sections of the diff\<close>

type_synonym port_triple = "string option \<times> port_number option \<times> string option"

record port_diff =
  pd_ports_removed :: "port_triple list"
  pd_ports_added :: "port_triple list"

record mount_diff =
  md_removed :: "string list"
  md_added :: "string list"
  md_changed :: "(string \<times> guest_mount \<times> guest_mount) list"

record iface_change =
  ic_ipv4_added :: "string list"
  ic_ipv4_removed :: "string list"
  ic_ipv6_added :: "string list"
  ic_ipv6_removed :: "string list"

record network_diff =
  nd_interfaces :: "(string \<times> iface_change) list"
  nd_routes_added :: "string list"
  nd_routes_removed :: "string list"
  nd_dns_added :: "string list"
  nd_dns_removed :: "string list"

text \<open>Per user and per file: the entries added and removed.\<close>

record cron_diff =
  xd_users :: "(string \<times> string list \<times> string list) list"
  xd_system :: "(string \<times> string list \<times> string list) list"

record state_diff =
  sd_services_removed :: "string list"
  sd_services_added :: "string list"
  sd_ports :: port_diff
  sd_mounts :: mount_diff
  sd_network :: network_diff
  sd_cron :: cron_diff

section \<open>Computing it\<close>

definition service_units :: "guest_service list \<Rightarrow> string list" where
  "service_units ss = filter (\<lambda>u. u \<noteq> []) (map (\<lambda>s. or_empty (gs_unit s)) ss)"

definition port_triple_of :: "guest_port \<Rightarrow> port_triple" where
  "port_triple_of p = (gp_proto p, gp_port p, gp_address p)"

definition port_sort_key :: "port_triple \<Rightarrow> string \<times> string" where
  "port_sort_key t = (case t of (proto, port, address) \<Rightarrow> (show_opt proto, show_port port))"

definition ports_minus ::
  "(port_triple list \<Rightarrow> port_triple list) \<Rightarrow> guest_port list \<Rightarrow> guest_port list \<Rightarrow> port_triple list" where
  "ports_minus order a b =
     sort_key port_sort_key
       (order (remdups (filter (\<lambda>t. t \<notin> set (map port_triple_of b)) (map port_triple_of a))))"

definition diff_port_lists ::
  "(port_triple list \<Rightarrow> port_triple list) \<Rightarrow> guest_port list \<Rightarrow> guest_port list \<Rightarrow> port_diff" where
  "diff_port_lists order before after =
     \<lparr>pd_ports_removed = ports_minus order before after, pd_ports_added = ports_minus order after before\<rparr>"

definition mounts_by_target :: "guest_mount list \<Rightarrow> (string \<times> guest_mount) list" where
  "mounts_by_target ms =
     dict_of (\<lambda>m. or_empty (gm_target m)) id (filter (\<lambda>m. truthy (gm_target m)) ms)"

definition mount_changed :: "(string \<times> guest_mount) list \<Rightarrow> (string \<times> guest_mount) list \<Rightarrow> string \<Rightarrow> (string \<times> guest_mount \<times> guest_mount) option" where
  "mount_changed bs as t =
     (case (dict_get bs t, dict_get as t) of
        (Some b, Some a) \<Rightarrow>
          if gm_source b \<noteq> gm_source a \<or> gm_fstype b \<noteq> gm_fstype a then Some (t, b, a) else None
      | _ \<Rightarrow> None)"

definition diff_mount_lists :: "guest_mount list \<Rightarrow> guest_mount list \<Rightarrow> mount_diff" where
  "diff_mount_lists before after =
     (let bs = mounts_by_target before; as = mounts_by_target after
      in \<lparr>md_removed = sorted_diff (map fst bs) (map fst as), md_added = sorted_diff (map fst as) (map fst bs),
          md_changed = List.map_filter (mount_changed bs as)
            (sort (remdups (filter (\<lambda>t. dict_has as t) (map fst bs))))\<rparr>)"

definition no_addresses :: guest_iface where "no_addresses = \<lparr>gi_ipv4 = [], gi_ipv6 = []\<rparr>"

definition iface_change_of :: "guest_iface \<Rightarrow> guest_iface \<Rightarrow> iface_change" where
  "iface_change_of b a = \<lparr>ic_ipv4_added = sorted_diff (gi_ipv4 a) (gi_ipv4 b),
     ic_ipv4_removed = sorted_diff (gi_ipv4 b) (gi_ipv4 a),
     ic_ipv6_added = sorted_diff (gi_ipv6 a) (gi_ipv6 b), ic_ipv6_removed = sorted_diff (gi_ipv6 b) (gi_ipv6 a)\<rparr>"

definition is_change :: "iface_change \<Rightarrow> bool" where
  "is_change c \<longleftrightarrow> ic_ipv4_added c \<noteq> [] \<or> ic_ipv4_removed c \<noteq> [] \<or> ic_ipv6_added c \<noteq> [] \<or> ic_ipv6_removed c \<noteq> []"

definition sorted_union :: "string list \<Rightarrow> string list \<Rightarrow> string list" where
  "sorted_union a b = sort (remdups (a @ b))"

definition diff_networks :: "guest_network \<Rightarrow> guest_network \<Rightarrow> network_diff" where
  "diff_networks before after =
     (let bi = gn_interfaces before; ai = gn_interfaces after;
          change = (\<lambda>i. iface_change_of (dict_get_or bi i no_addresses) (dict_get_or ai i no_addresses))
      in \<lparr>nd_interfaces = map (\<lambda>i. (i, change i))
            (filter (\<lambda>i. is_change (change i)) (sorted_union (map fst bi) (map fst ai))),
          nd_routes_added = sorted_diff (gn_routes after) (gn_routes before),
          nd_routes_removed = sorted_diff (gn_routes before) (gn_routes after),
          nd_dns_added = sorted_diff (gn_dns after) (gn_dns before),
          nd_dns_removed = sorted_diff (gn_dns before) (gn_dns after)\<rparr>)"

text \<open>Two tables of entry sets: per key that differs, what came and what went.\<close>

definition diff_entry_tables ::
  "(string \<times> string list) list \<Rightarrow> (string \<times> string list) list \<Rightarrow> (string \<times> string list \<times> string list) list" where
  "diff_entry_tables before after =
     (let b = (\<lambda>k. dict_get_or before k []); a = (\<lambda>k. dict_get_or after k [])
      in map (\<lambda>k. (k, sorted_diff (a k) (b k), sorted_diff (b k) (a k)))
           (filter (\<lambda>k. set (b k) \<noteq> set (a k)) (sorted_union (map fst before) (map fst after))))"

definition diff_crons :: "guest_cron \<Rightarrow> guest_cron \<Rightarrow> cron_diff" where
  "diff_crons before after =
     \<lparr>xd_users = diff_entry_tables (gc_users before) (gc_users after),
      xd_system = diff_entry_tables (dict_of fst snd (gc_system before)) (dict_of fst snd (gc_system after))\<rparr>"

definition compute_diff ::
  "(port_triple list \<Rightarrow> port_triple list) \<Rightarrow> guest_state \<Rightarrow> guest_state \<Rightarrow> state_diff" where
  "compute_diff order baseline current =
     \<lparr>sd_services_removed = sorted_diff (service_units (st_services baseline)) (service_units (st_services current)),
      sd_services_added = sorted_diff (service_units (st_services current)) (service_units (st_services baseline)),
      sd_ports = diff_port_lists order (st_ports baseline) (st_ports current),
      sd_mounts = diff_mount_lists (st_mounts baseline) (st_mounts current),
      sd_network = diff_networks (st_network baseline) (st_network current),
      sd_cron = diff_crons (st_cron baseline) (st_cron current)\<rparr>"

section \<open>What the diff says\<close>

text \<open>Every iteration order of a set rearranges its elements.\<close>

definition iteration_order :: "('a list \<Rightarrow> 'a list) \<Rightarrow> bool" where
  "iteration_order order \<longleftrightarrow> (\<forall>xs. mset (order xs) = mset xs)"

lemma set_ports_minus:
  "iteration_order order \<Longrightarrow>
     set (ports_minus order a b) = port_triple_of ` set a - port_triple_of ` set b"
proof -
  assume "iteration_order order"
  then have "set (order xs) = set xs" for xs
    by (metis iteration_order_def set_mset_mset)
  then show ?thesis by (auto simp: ports_minus_def)
qed

lemma ports_minus_empty:
  "iteration_order order \<Longrightarrow> ports_minus order a b = [] \<longleftrightarrow> port_triple_of ` set a \<subseteq> port_triple_of ` set b"
  using set_ports_minus [of order a b] by (metis Diff_eq_empty_iff set_empty)

lemma iface_unchanged:
  "\<not> is_change (iface_change_of b a) \<longleftrightarrow> set (gi_ipv4 b) = set (gi_ipv4 a) \<and> set (gi_ipv6 b) = set (gi_ipv6 a)"
  by (auto simp: is_change_def iface_change_of_def)

lemma diff_entry_tables_empty:
  "diff_entry_tables before after = [] \<longleftrightarrow> (\<forall>k. set (dict_get_or before k []) = set (dict_get_or after k []))"
proof -
  have "set (dict_get_or before k []) = set (dict_get_or after k [])"
    if "k \<notin> set (map fst before) \<union> set (map fst after)" for k
  proof -
    have "dict_get before k = None" "dict_get after k = None"
      using that dict_has_iff [of before k] dict_has_iff [of after k] by (auto simp: dict_has_def)
    then show ?thesis by (simp add: dict_get_or_def)
  qed
  then show ?thesis
    by (auto simp: diff_entry_tables_def Let_def filter_empty_conv sorted_union_def)
qed

text \<open>A state does not differ from itself, in whatever order sets are iterated.\<close>

lemma compute_diff_refl:
  assumes "iteration_order order"
  shows "compute_diff order s s =
    \<lparr>sd_services_removed = [], sd_services_added = [], sd_ports = \<lparr>pd_ports_removed = [], pd_ports_added = []\<rparr>,
     sd_mounts = \<lparr>md_removed = [], md_added = [], md_changed = []\<rparr>,
     sd_network = \<lparr>nd_interfaces = [], nd_routes_added = [], nd_routes_removed = [], nd_dns_added = [],
       nd_dns_removed = []\<rparr>,
     sd_cron = \<lparr>xd_users = [], xd_system = []\<rparr>\<rparr>"
proof -
  have "ports_minus order a a = []" for a using ports_minus_empty [OF assms, of a a] by simp
  moreover have "List.map_filter (mount_changed bs bs) ts = []" for bs ts
    by (induction ts) (auto simp: map_filter_simps mount_changed_def split: option.splits)
  moreover have "\<not> is_change (iface_change_of i i)" for i by (simp add: iface_unchanged)
  ultimately show ?thesis
    by (simp add: compute_diff_def diff_port_lists_def diff_mount_lists_def diff_networks_def diff_crons_def
        diff_entry_tables_empty Let_def)
qed

section \<open>The order of equal keys\<close>

text \<open>
  The same port on two addresses, as a daemon listening on IPv4 and IPv6 shows it: when both go, the
  order of the two entries is the order in which Python iterates over the set.
\<close>

definition ssh_port :: "string \<Rightarrow> guest_port" where
  "ssh_port a = \<lparr>gp_proto = Some ''tcp'', gp_address = Some a, gp_port = Some (Port_int 22)\<rparr>"

text \<open>
  The diff of two states is not determined by the states. There are states and two iteration
  orders of the same set of removed ports for which the diffs differ, so the cache key, which is a
  digest of the diff, differs too.
\<close>

theorem port_diff_order_dependent:
  "\<exists>before after order order'. iteration_order order \<and> iteration_order order' \<and>
     diff_port_lists order before after \<noteq> diff_port_lists order' before after"
proof (intro exI conjI)
  show "iteration_order (\<lambda>xs :: port_triple list. xs)" "iteration_order (rev :: port_triple list \<Rightarrow> _)"
    by (simp_all add: iteration_order_def)
  show "diff_port_lists (\<lambda>xs. xs) [ssh_port ''0.0.0.0'', ssh_port ''::''] [] \<noteq>
        diff_port_lists rev [ssh_port ''0.0.0.0'', ssh_port ''::''] []"
    by (simp add: diff_port_lists_def ports_minus_def port_triple_of_def ssh_port_def port_sort_key_def)
qed

end
