(* ===== verification/Collection_Diff.thy ===== *)
theory Collection_Diff
  imports Guest_State
begin

text \<open>
  The deterministic comparison of a baseline with a later collection
  (\<open>app/core/collection/diff.py\<close>): six dimensions, each with its changes and the worst of their
  verdicts, and the overall verdict, for which \<open>info\<close> counts as \<open>pass\<close>.
\<close>

datatype verdict = V_pass | V_info | V_warn | V_fail

fun RANK :: "verdict \<Rightarrow> nat" where
  "RANK V_pass = 0"
| "RANK V_info = 0"
| "RANK V_warn = 1"
| "RANK V_fail = 2"

definition bump :: "verdict \<Rightarrow> verdict \<Rightarrow> verdict" where
  "bump current candidate = (if RANK candidate > RANK current then candidate else current)"

text \<open>
  One change: what it is about, the value before and after (\<open>None\<close> for a missing one) and its
  verdict.
\<close>

record change =
  cg_item :: string
  cg_baseline :: "string option"
  cg_current :: "string option"
  cg_verdict :: verdict

record dimension =
  di_name :: string
  di_verdict :: verdict
  di_changes :: "change list"

text \<open>Every dimension appends its changes one by one and bumps the verdict with each.\<close>

definition worst_of :: "change list \<Rightarrow> verdict" where
  "worst_of cs = fold (\<lambda>c w. bump w (cg_verdict c)) cs V_pass"

definition dimension_of :: "string \<Rightarrow> change list \<Rightarrow> dimension" where
  "dimension_of n cs = \<lparr>di_name = n, di_verdict = worst_of cs, di_changes = cs\<rparr>"

definition mk_change :: "string \<Rightarrow> string option \<Rightarrow> string option \<Rightarrow> verdict \<Rightarrow> change" where
  "mk_change item b c v = \<lparr>cg_item = item, cg_baseline = b, cg_current = c, cg_verdict = v\<rparr>"

section \<open>Services\<close>

definition service_state_key :: "guest_service \<Rightarrow> string \<times> string" where
  "service_state_key s =
     (let name = str_strip (if truthy (gs_unit s) then or_empty (gs_unit s) else or_empty (gs_name s));
          active = str_lower (or_empty (gs_active s));
          sub = str_lower (or_empty (gs_sub s));
          running = (active = ''active'' \<and> sub \<in> set [''running'', ''exited''])
      in (name, if running then ''running'' else if active \<noteq> [] then active else ''absent''))"

definition service_states :: "guest_service list \<Rightarrow> (string \<times> string) list" where
  "service_states ss = dict_of fst snd (map service_state_key ss)"

definition service_change :: "(string \<times> string) list \<Rightarrow> string \<times> string \<Rightarrow> change option" where
  "service_change cur u =
     (case u of (unit, base_state) \<Rightarrow>
        (case dict_get cur unit of
           None \<Rightarrow> Some (mk_change unit (Some base_state) (Some ''missing'')
             (if base_state = ''running'' then V_fail else V_info))
         | Some cur_state \<Rightarrow>
             if cur_state = base_state then None
             else if base_state = ''running'' \<and> cur_state \<noteq> ''running''
             then Some (mk_change unit (Some base_state) (Some cur_state) V_fail)
             else Some (mk_change unit (Some base_state) (Some cur_state) V_info)))"

definition new_service :: "string \<times> string \<Rightarrow> change" where
  "new_service u = mk_change (fst u) None (Some (snd u)) V_info"

definition diff_services :: "guest_state \<Rightarrow> guest_state \<Rightarrow> dimension" where
  "diff_services baseline current =
     (let base = service_states (st_services baseline);
          cur = service_states (st_services current)
      in dimension_of ''services''
           (List.map_filter (service_change cur) base
            @ map new_service (filter (\<lambda>u. \<not> dict_has base (fst u)) cur)))"

section \<open>Ports\<close>

definition port_key :: "guest_port \<Rightarrow> string" where
  "port_key p =
     (if truthy (gp_proto p) then or_empty (gp_proto p) else ''tcp'') @ '':'' @
     (if truthy (gp_address p) then or_empty (gp_address p) else ''0.0.0.0'') @ '':'' @ show_port (gp_port p)"

text \<open>Two sets of keys: what is gone is a warning, what is new is informational.\<close>

definition set_changes :: "string \<Rightarrow> string list \<Rightarrow> string list \<Rightarrow> change list" where
  "set_changes present base cur =
     map (\<lambda>k. mk_change k (Some present) (Some ''absent'') V_warn) (sorted_diff base cur)
     @ map (\<lambda>k. mk_change k (Some ''absent'') (Some present) V_info) (sorted_diff cur base)"

definition diff_ports :: "guest_state \<Rightarrow> guest_state \<Rightarrow> dimension" where
  "diff_ports baseline current =
     dimension_of ''ports''
       (set_changes ''listening'' (map port_key (st_ports baseline)) (map port_key (st_ports current)))"

section \<open>Mounts\<close>

definition by_target :: "guest_mount list \<Rightarrow> (string \<times> guest_mount) list" where
  "by_target ms =
     dict_of fst snd (filter (\<lambda>e. fst e \<noteq> []) (map (\<lambda>m. (str_strip (or_empty (gm_target m)), m)) ms))"

definition mount_change :: "(string \<times> guest_mount) list \<Rightarrow> string \<times> guest_mount \<Rightarrow> change option" where
  "mount_change cur e =
     (case e of (target, m) \<Rightarrow>
        (case dict_get cur target of
           None \<Rightarrow> Some (mk_change target (gm_fstype m) (Some ''missing'') V_warn)
         | Some c \<Rightarrow>
             if or_empty (gm_fstype m) \<noteq> or_empty (gm_fstype c)
             then Some (mk_change target (gm_fstype m) (gm_fstype c) V_warn) else None))"

text \<open>The new targets are a set difference, iterated in no fixed order; here in table order.\<close>

definition diff_mounts :: "guest_state \<Rightarrow> guest_state \<Rightarrow> dimension" where
  "diff_mounts baseline current =
     (let base = by_target (st_mounts baseline);
          cur = by_target (st_mounts current)
      in dimension_of ''mounts''
           (List.map_filter (mount_change cur) base
            @ map (\<lambda>(t, m). mk_change t None (gm_fstype m) V_info)
                (filter (\<lambda>(t, m). \<not> dict_has base t) cur)))"

section \<open>Cron\<close>

definition flatten_cron :: "guest_cron \<Rightarrow> string list" where
  "flatten_cron c =
     concat (map (\<lambda>(user, entries). map (\<lambda>e. ''user:'' @ user @ '':'' @ e) entries) (gc_users c))
     @ map (\<lambda>f. ''system:'' @ repr_cron_file f) (gc_system c)"

definition diff_cron :: "guest_state \<Rightarrow> guest_state \<Rightarrow> dimension" where
  "diff_cron baseline current =
     dimension_of ''cron''
       (set_changes ''present'' (flatten_cron (st_cron baseline)) (flatten_cron (st_cron current)))"

section \<open>Kernel and operating system\<close>

definition OS_FIELDS :: "string list" where
  "OS_FIELDS = [''id'', ''version_id'', ''pretty_name'']"

definition kernel_of :: "guest_state \<Rightarrow> string" where
  "kernel_of s = str_strip (or_empty (ge_kernel (st_meta s)))"

definition info_change :: "string \<Rightarrow> string \<Rightarrow> string \<Rightarrow> change list" where
  "info_change item b c =
     (if b \<noteq> [] \<and> c \<noteq> [] \<and> b \<noteq> c then [mk_change item (Some b) (Some c) V_info] else [])"

definition kernel_os_changes :: "guest_state \<Rightarrow> guest_state \<Rightarrow> change list" where
  "kernel_os_changes baseline current =
     info_change ''kernel'' (kernel_of baseline) (kernel_of current)
     @ concat (map (\<lambda>f. info_change (''os.'' @ f) (or_empty (dict_get (ge_os (st_meta baseline)) f))
         (or_empty (dict_get (ge_os (st_meta current)) f))) OS_FIELDS)"

definition diff_kernel_os :: "guest_state \<Rightarrow> guest_state \<Rightarrow> dimension" where
  "diff_kernel_os baseline current =
     (let changes = kernel_os_changes baseline current
      in \<lparr>di_name = ''kernel_os'', di_verdict = (if changes \<noteq> [] then V_info else V_pass),
          di_changes = changes\<rparr>)"

section \<open>Network\<close>

definition has_default_route :: "guest_network \<Rightarrow> bool" where
  "has_default_route n = list_ex (contains_str ''default'') (gn_routes n)"

text \<open>The lists the interface and DNS changes carry are left out; they repeat the states.\<close>

definition network_changes :: "guest_network \<Rightarrow> guest_network \<Rightarrow> change list" where
  "network_changes base cur =
     (let base_ifaces = map fst (gn_interfaces base); cur_ifaces = map fst (gn_interfaces cur)
      in (if sorted_diff base_ifaces cur_ifaces \<noteq> [] then [mk_change ''interfaces'' None None V_warn] else [])
       @ (if sorted_diff cur_ifaces base_ifaces \<noteq> [] then [mk_change ''interfaces'' None None V_info] else [])
       @ (if has_default_route base \<and> \<not> has_default_route cur
          then [mk_change ''default_route'' (Some ''present'') (Some ''absent'') V_warn] else [])
       @ (if length (gn_dns base) \<noteq> length (gn_dns cur) then [mk_change ''dns'' None None V_info] else []))"

definition diff_network_topology :: "guest_state \<Rightarrow> guest_state \<Rightarrow> dimension" where
  "diff_network_topology baseline current =
     dimension_of ''network'' (network_changes (st_network baseline) (st_network current))"

section \<open>The whole comparison\<close>

record collection_diff =
  cd_overall :: verdict
  cd_dimensions :: "dimension list"

definition collection_dimensions :: "guest_state \<Rightarrow> guest_state \<Rightarrow> dimension list" where
  "collection_dimensions base cur =
     [diff_services base cur, diff_ports base cur, diff_mounts base cur, diff_cron base cur,
      diff_kernel_os base cur, diff_network_topology base cur]"

definition scoring_verdict :: "verdict \<Rightarrow> verdict" where
  "scoring_verdict v = (if v = V_info then V_pass else v)"

definition raise_overall :: "verdict \<Rightarrow> verdict \<Rightarrow> verdict" where
  "raise_overall v overall =
     (if RANK (scoring_verdict v) > RANK overall then scoring_verdict v else overall)"

definition overall_of :: "verdict list \<Rightarrow> verdict" where
  "overall_of vs = fold raise_overall vs V_pass"

definition diff_collection :: "guest_state option \<Rightarrow> guest_state option \<Rightarrow> collection_diff" where
  "diff_collection baseline_data current_data =
     (let base = (case baseline_data of None \<Rightarrow> empty_state | Some s \<Rightarrow> s);
          cur = (case current_data of None \<Rightarrow> empty_state | Some s \<Rightarrow> s);
          dimensions = collection_dimensions base cur
      in \<lparr>cd_overall = overall_of (map di_verdict dimensions), cd_dimensions = dimensions\<rparr>)"

section \<open>The worst verdict\<close>

lemma bump_simps:
  "bump w V_pass = w" "bump w V_info = w"
  "bump w V_warn = (if w = V_pass \<or> w = V_info then V_warn else w)"
  "bump w V_fail = V_fail"
  by (cases w; simp add: bump_def)+

lemma worst_from:
  "fold (\<lambda>c w. bump w (cg_verdict c)) cs w =
     (if w = V_fail \<or> V_fail \<in> cg_verdict ` set cs then V_fail
      else if w = V_warn \<or> V_warn \<in> cg_verdict ` set cs then V_warn else w)"
proof (induction cs arbitrary: w)
  case (Cons c cs)
  show ?case
    by (cases w; cases "cg_verdict c") (simp_all add: Cons.IH bump_simps)
qed auto

lemma worst_of_eq:
  "worst_of cs =
     (if V_fail \<in> cg_verdict ` set cs then V_fail
      else if V_warn \<in> cg_verdict ` set cs then V_warn else V_pass)"
  by (simp add: worst_of_def worst_from)

text \<open>\<open>info\<close> has the rank of \<open>pass\<close>, so bumping never reaches it.\<close>

lemma dimension_never_info: "di_verdict (dimension_of n cs) \<noteq> V_info"
  by (simp add: dimension_of_def worst_of_eq)

lemma raise_overall_simps:
  "raise_overall V_pass w = w" "raise_overall V_info w = w"
  "raise_overall V_warn w = (if w = V_pass \<or> w = V_info then V_warn else w)"
  "raise_overall V_fail w = V_fail"
  by (cases w; simp add: raise_overall_def scoring_verdict_def)+

lemma overall_from:
  "overall \<noteq> V_info \<Longrightarrow>
   fold raise_overall vs overall =
     (if overall = V_fail \<or> V_fail \<in> set vs then V_fail
      else if overall = V_warn \<or> V_warn \<in> set vs then V_warn else V_pass)"
proof (induction vs arbitrary: overall)
  case Nil
  then show ?case by (cases overall) auto
next
  case (Cons v vs)
  from Cons.prems show ?case
    by (cases overall; cases v) (simp_all add: Cons.IH raise_overall_simps)
qed

lemma overall_of_eq:
  "overall_of vs = (if V_fail \<in> set vs then V_fail else if V_warn \<in> set vs then V_warn else V_pass)"
  by (simp add: overall_of_def overall_from)

section \<open>What each dimension reports\<close>

definition verdicts_of :: "dimension \<Rightarrow> verdict set" where
  "verdicts_of d = cg_verdict ` set (di_changes d)"

lemma dimension_of_verdict:
  "di_verdict (dimension_of n cs) = V_fail \<longleftrightarrow> V_fail \<in> cg_verdict ` set cs"
  "di_verdict (dimension_of n cs) = V_warn \<longleftrightarrow> V_fail \<notin> cg_verdict ` set cs \<and> V_warn \<in> cg_verdict ` set cs"
  by (auto simp: dimension_of_def worst_of_eq)

lemma mk_change_verdict [simp]: "cg_verdict (mk_change i b c v) = v"
  by (simp add: mk_change_def)

lemma service_states_distinct [simp]: "distinct (map fst (service_states ss))"
  by (simp add: service_states_def)

text \<open>A unit that ran when the baseline was taken and does not run now.\<close>

definition lost_service :: "guest_state \<Rightarrow> guest_state \<Rightarrow> bool" where
  "lost_service b c \<longleftrightarrow>
     (\<exists>u \<in> fst ` set (service_states (st_services b)).
        dict_get (service_states (st_services b)) u = Some ''running'' \<and>
        dict_get (service_states (st_services c)) u \<noteq> Some ''running'')"

lemma service_change_verdict:
  "service_change cur (u, s) = Some ch \<Longrightarrow>
     cg_verdict ch = V_info \<or> cg_verdict ch = V_fail \<and> s = ''running'' \<and> dict_get cur u \<noteq> Some ''running''"
  by (auto simp: service_change_def split: option.splits if_splits)

lemma service_change_fails:
  "dict_get cur u \<noteq> Some ''running'' \<Longrightarrow>
     \<exists>ch. service_change cur (u, ''running'') = Some ch \<and> cg_verdict ch = V_fail"
  by (auto simp: service_change_def split: option.splits)

lemma new_service_verdict [simp]: "cg_verdict (new_service u) = V_info"
  by (simp add: new_service_def)

lemma services_verdict: "di_verdict (diff_services b c) = (if lost_service b c then V_fail else V_pass)"
proof -
  let ?b = "service_states (st_services b)" and ?c = "service_states (st_services c)"
  let ?cs = "List.map_filter (service_change ?c) ?b
            @ map new_service (filter (\<lambda>u. \<not> dict_has ?b (fst u)) ?c)"
  have eq: "diff_services b c = dimension_of ''services'' ?cs"
    by (simp only: diff_services_def Let_def)
  have mem: "dict_get ?b u = Some s \<longleftrightarrow> (u, s) \<in> set ?b" for u s
    by (rule dict_get_iff_mem) simp
  have no_warn: "V_warn \<notin> cg_verdict ` set ?cs"
    by (auto simp: set_map_filter dest!: service_change_verdict)
  have "V_fail \<in> cg_verdict ` set ?cs \<longleftrightarrow> lost_service b c"
  proof
    assume "V_fail \<in> cg_verdict ` set ?cs"
    then obtain u s ch where "(u, s) \<in> set ?b" "service_change ?c (u, s) = Some ch" "cg_verdict ch = V_fail"
      by (auto simp: set_map_filter)
    then show "lost_service b c"
      using service_change_verdict [of ?c u s ch] mem [of u s]
      unfolding lost_service_def by force
  next
    assume "lost_service b c"
    then obtain u where u: "(u, ''running'') \<in> set ?b" "dict_get ?c u \<noteq> Some ''running''"
      using mem by (auto simp: lost_service_def)
    from service_change_fails [OF u(2)] u(1) show "V_fail \<in> cg_verdict ` set ?cs"
      by (force simp: set_map_filter)
  qed
  with no_warn show ?thesis
    by (simp add: eq dimension_of_def worst_of_eq)
qed

lemma set_changes_verdicts:
  "cg_verdict ` set (set_changes p base cur) =
     (if set base \<subseteq> set cur then {} else {V_warn}) \<union> (if set cur \<subseteq> set base then {} else {V_info})"
  by (auto simp: set_changes_def image_Un image_image image_constant_conv)

lemma set_changes_verdict:
  "di_verdict (dimension_of n (set_changes p base cur)) = (if set base \<subseteq> set cur then V_pass else V_warn)"
  by (simp add: dimension_of_def worst_of_eq set_changes_verdicts)

text \<open>A mount point that is gone or has another file system type.\<close>

definition mount_lost :: "guest_state \<Rightarrow> guest_state \<Rightarrow> bool" where
  "mount_lost b c \<longleftrightarrow>
     (\<exists>(t, m) \<in> set (by_target (st_mounts b)).
        case dict_get (by_target (st_mounts c)) t of
          None \<Rightarrow> True | Some m' \<Rightarrow> or_empty (gm_fstype m) \<noteq> or_empty (gm_fstype m'))"

lemma mount_change_verdict: "mount_change cur e = Some ch \<Longrightarrow> cg_verdict ch = V_warn"
  by (auto simp: mount_change_def split: prod.splits option.splits if_splits)

lemma map_filter_verdicts:
  "(\<And>x ch. f x = Some ch \<Longrightarrow> cg_verdict ch = v) \<Longrightarrow>
     cg_verdict ` set (List.map_filter f xs) = (if \<exists>x\<in>set xs. f x \<noteq> None then {v} else {})"
  by (force simp: set_map_filter)

lemma mount_change_reported:
  "mount_change cur e \<noteq> None \<longleftrightarrow>
     (case e of (t, m) \<Rightarrow> case dict_get cur t of
        None \<Rightarrow> True | Some m' \<Rightarrow> or_empty (gm_fstype m) \<noteq> or_empty (gm_fstype m'))"
  by (auto simp: mount_change_def split: option.splits)

lemma mounts_verdict: "di_verdict (diff_mounts b c) = (if mount_lost b c then V_warn else V_pass)"
proof -
  let ?b = "by_target (st_mounts b)" and ?c = "by_target (st_mounts c)"
  let ?new = "map (\<lambda>(t, m). mk_change t None (gm_fstype m) V_info) (filter (\<lambda>(t, m). \<not> dict_has ?b t) ?c)"
  let ?cs = "List.map_filter (mount_change ?c) ?b @ ?new"
  have eq: "diff_mounts b c = dimension_of ''mounts'' ?cs"
    by (simp only: diff_mounts_def Let_def)
  have new: "cg_verdict ` set ?new \<subseteq> {V_info}" by auto
  have lost: "(\<exists>e\<in>set ?b. mount_change ?c e \<noteq> None) \<longleftrightarrow> mount_lost b c"
    by (simp only: mount_lost_def mount_change_reported)
  have "cg_verdict ` set ?cs = (if mount_lost b c then {V_warn} else {}) \<union> cg_verdict ` set ?new"
    by (simp only: set_append image_Un map_filter_verdicts [OF mount_change_verdict] lost)
  with new show ?thesis by (auto simp: eq dimension_of_def worst_of_eq)
qed

lemma info_change_verdict: "ch \<in> set (info_change i b c) \<Longrightarrow> cg_verdict ch = V_info"
  by (auto simp: info_change_def split: if_splits)

text \<open>An interface or the default route is gone.\<close>

definition network_lost :: "guest_network \<Rightarrow> guest_network \<Rightarrow> bool" where
  "network_lost b c \<longleftrightarrow>
     \<not> fst ` set (gn_interfaces b) \<subseteq> fst ` set (gn_interfaces c) \<or>
     has_default_route b \<and> \<not> has_default_route c"

lemma optional_changes_verdicts:
  "cg_verdict ` set ((if p then [mk_change i b c V_warn] else []) @ (if q then [mk_change i' b' c' V_info] else [])
     @ (if r then [mk_change i'' b'' c'' V_warn] else []) @ (if s then [mk_change i3 b3 c3 V_info] else [])) =
   (if p \<or> r then {V_warn} else {}) \<union> (if q \<or> s then {V_info} else {})"
  by (cases p; cases q; cases r; cases s) auto

lemma network_changes_verdicts:
  "V_fail \<notin> cg_verdict ` set (network_changes b c)"
  "V_warn \<in> cg_verdict ` set (network_changes b c) \<longleftrightarrow> network_lost b c"
  unfolding network_changes_def Let_def optional_changes_verdicts by (simp_all add: network_lost_def)

lemma network_verdict:
  "di_verdict (diff_network_topology b c) = (if network_lost (st_network b) (st_network c) then V_warn else V_pass)"
  by (simp add: diff_network_topology_def dimension_of_def worst_of_eq network_changes_verdicts)

definition degraded :: "guest_state \<Rightarrow> guest_state \<Rightarrow> bool" where
  "degraded b c \<longleftrightarrow>
     \<not> set (map port_key (st_ports b)) \<subseteq> set (map port_key (st_ports c)) \<or> mount_lost b c \<or>
     \<not> set (flatten_cron (st_cron b)) \<subseteq> set (flatten_cron (st_cron c)) \<or>
     network_lost (st_network b) (st_network c)"


lemma diff_collection_never_info: "cd_overall (diff_collection b c) \<noteq> V_info"
  by (simp add: diff_collection_def Let_def overall_of_eq)

end
