(* ===== verification/Validation_Tiers.thy ===== *)
theory Validation_Tiers
  imports State_Diff Collection_Diff
begin

text \<open>
  The tier classifier of the validation pipeline (\<open>app/core/validation_tiers.py\<close>): which diffs get a
  verdict without the language model. Titles, summaries and remediation texts are left out; a finding
  is the service it is about and its severity.
\<close>

section \<open>Knowledge bases\<close>

definition KNOWN_GOOD_NEW_SERVICES :: "string list" where
  "KNOWN_GOOD_NEW_SERVICES =
    [''kubevirt-agent'', ''kubevirt-agent.service'', ''qemu-guest-agent'', ''qemu-guest-agent.service'',
     ''cloud-init'', ''cloud-init.service'', ''cloud-init-local.service'', ''cloud-config.service'',
     ''cloud-final.service'', ''virt-who'', ''virt-who.service'']"

definition CRITICAL_SERVICES_FOR_PRODUCTION :: "string list" where
  "CRITICAL_SERVICES_FOR_PRODUCTION =
    [''httpd'', ''httpd.service'', ''nginx'', ''nginx.service'', ''apache2'', ''apache2.service'',
     ''postgresql'', ''postgresql.service'', ''postgresql-16.service'', ''mysql'', ''mysql.service'',
     ''mariadb'', ''mariadb.service'', ''mongod'', ''mongod.service'', ''redis'', ''redis.service'',
     ''tomcat'', ''tomcat.service'', ''java'', ''wildfly'', ''docker'', ''docker.service'', ''podman.service'',
     ''containerd.service'', ''named'', ''named.service'', ''chronyd'', ''chronyd.service'', ''ntpd'',
     ''ntpd.service'', ''smbd'', ''nmbd'', ''winbind'', ''sssd'', ''sssd.service'']"

definition KNOWN_NETWORK_RENAMES :: "(string \<times> string) list" where
  "KNOWN_NETWORK_RENAMES =
    [(''eth0'', ''enp0s3''), (''eth0'', ''ens3''), (''eth0'', ''ens192''), (''eth0'', ''ens18''),
     (''eth1'', ''enp0s8''), (''eth1'', ''ens4'')]"

text \<open>The dict built from the pairs in both directions; a later pair overwrites an earlier one.\<close>

definition rename_set :: "(string \<times> string) list" where
  "rename_set = fold (\<lambda>(old, new) d. dict_set new old (dict_set old new d)) KNOWN_NETWORK_RENAMES []"

section \<open>Results\<close>

datatype tier = Tier1 | Tier2 | Tier3

record tier_verdict =
  tv_status :: verdict
  tv_findings :: "(string \<times> string) list"

record tier_classification =
  tc_tier :: tier
  tc_llm_required :: bool
  tc_verdict :: "tier_verdict option"
  tc_matched_rules :: "string list"

section \<open>Helpers\<close>

text \<open>\<open>iface\<close> got the addresses its partner lost, or the reverse.\<close>

definition is_rename :: "(string \<times> iface_change) list \<Rightarrow> string \<Rightarrow> string option" where
  "is_rename interfaces iface =
     (case dict_get rename_set iface of
        None \<Rightarrow> None
      | Some partner \<Rightarrow>
          (case (dict_get interfaces iface, dict_get interfaces partner) of
             (Some c, Some p) \<Rightarrow>
               if sort (ic_ipv4_added c) = sort (ic_ipv4_removed p) \<and> ic_ipv4_added c \<noteq> [] \<or>
                  sort (ic_ipv4_removed c) = sort (ic_ipv4_added p) \<and> ic_ipv4_removed c \<noteq> []
               then Some partner else None
           | _ \<Rightarrow> None))"

definition matched_renames :: "(string \<times> iface_change) list \<Rightarrow> string list" where
  "matched_renames interfaces =
     concat (map (\<lambda>(i, c). case is_rename interfaces i of None \<Rightarrow> [] | Some p \<Rightarrow> [i, p]) interfaces)"

definition normalize_iface_changes :: "(string \<times> iface_change) list \<Rightarrow> (string \<times> iface_change) list" where
  "normalize_iface_changes interfaces =
     filter (\<lambda>(k, v). k \<notin> set (matched_renames interfaces)) interfaces"

text \<open>\<open>_is_empty_section\<close> on the cron section: every nested list is empty.\<close>

definition cron_is_empty :: "cron_diff \<Rightarrow> bool" where
  "cron_is_empty x \<longleftrightarrow>
     list_all (\<lambda>(k, a, r). a = [] \<and> r = []) (xd_users x) \<and> list_all (\<lambda>(k, a, r). a = [] \<and> r = []) (xd_system x)"

definition ports_unchanged :: "port_diff \<Rightarrow> bool" where
  "ports_unchanged p \<longleftrightarrow> pd_ports_removed p = [] \<and> pd_ports_added p = []"

definition mounts_unchanged :: "mount_diff \<Rightarrow> bool" where
  "mounts_unchanged m \<longleftrightarrow> md_removed m = [] \<and> md_added m = [] \<and> md_changed m = []"

definition diff_is_effectively_empty :: "state_diff \<Rightarrow> bool" where
  "diff_is_effectively_empty d \<longleftrightarrow>
     sd_services_removed d = [] \<and> sd_services_added d = [] \<and> ports_unchanged (sd_ports d) \<and>
     mounts_unchanged (sd_mounts d) \<and> normalize_iface_changes (nd_interfaces (sd_network d)) = [] \<and>
     cron_is_empty (sd_cron d)"

section \<open>The tiers\<close>

definition classified :: "tier \<Rightarrow> verdict \<Rightarrow> (string \<times> string) list \<Rightarrow> string \<Rightarrow> tier_classification" where
  "classified t status findings rule = \<lparr>tc_tier = t, tc_llm_required = False,
     tc_verdict = Some \<lparr>tv_status = status, tv_findings = findings\<rparr>, tc_matched_rules = [rule]\<rparr>"

definition tier1 :: "state_diff \<Rightarrow> tier_classification option" where
  "tier1 d = (if diff_is_effectively_empty d then Some (classified Tier1 V_pass [] ''tier1.empty_diff'') else None)"

definition is_prod :: "string option \<Rightarrow> bool" where
  "is_prod environment \<longleftrightarrow> str_lower (or_empty environment) \<in> set [''prod'', ''production'']"

definition critical_stopped :: "state_diff \<Rightarrow> string list" where
  "critical_stopped d = filter (\<lambda>s. s \<in> set CRITICAL_SERVICES_FOR_PRODUCTION) (sd_services_removed d)"

definition only_known_good_services :: "state_diff \<Rightarrow> bool" where
  "only_known_good_services d \<longleftrightarrow>
     sd_services_added d \<noteq> [] \<and> list_all (\<lambda>s. s \<in> set KNOWN_GOOD_NEW_SERVICES) (sd_services_added d) \<and>
     sd_services_removed d = []"

definition no_other_changes :: "state_diff \<Rightarrow> bool" where
  "no_other_changes d \<longleftrightarrow>
     ports_unchanged (sd_ports d) \<and> mounts_unchanged (sd_mounts d) \<and>
     normalize_iface_changes (nd_interfaces (sd_network d)) = [] \<and>
     nd_routes_added (sd_network d) = [] \<and> nd_routes_removed (sd_network d) = [] \<and>
     nd_dns_added (sd_network d) = [] \<and> nd_dns_removed (sd_network d) = [] \<and> cron_is_empty (sd_cron d)"

definition tier2 :: "state_diff \<Rightarrow> string option \<Rightarrow> tier_classification option" where
  "tier2 d environment =
     (if critical_stopped d \<noteq> [] \<and> is_prod environment
      then Some (classified Tier2 V_fail (map (\<lambda>s. (s, ''critical'')) (critical_stopped d))
        ''tier2.critical_service_stopped'')
      else if critical_stopped d \<noteq> [] \<and> \<not> is_prod environment
      then Some (classified Tier2 V_warn (map (\<lambda>s. (s, ''warn'')) (critical_stopped d))
        ''tier2.critical_service_stopped_nonprod'')
      else if only_known_good_services d \<and> no_other_changes d
      then Some (classified Tier2 V_pass [] ''tier2.only_known_good_services_added'')
      else None)"

definition needs_llm :: tier_classification where
  "needs_llm = \<lparr>tc_tier = Tier3, tc_llm_required = True, tc_verdict = None, tc_matched_rules = []\<rparr>"

definition classify_diff :: "state_diff \<Rightarrow> string option \<Rightarrow> tier_classification" where
  "classify_diff d environment =
     (case tier1 d of
        Some c \<Rightarrow> c
      | None \<Rightarrow> (case tier2 d environment of Some c \<Rightarrow> c | None \<Rightarrow> needs_llm))"

definition count_tier :: "tier \<Rightarrow> nat \<times> nat \<times> nat \<Rightarrow> nat \<times> nat \<times> nat" where
  "count_tier t counts =
     (case counts of (a, b, c) \<Rightarrow>
        (case t of Tier1 \<Rightarrow> (a + 1, b, c) | Tier2 \<Rightarrow> (a, b + 1, c) | Tier3 \<Rightarrow> (a, b, c + 1)))"

definition estimate_tier_distribution :: "(state_diff \<times> string option) list \<Rightarrow> nat \<times> nat \<times> nat" where
  "estimate_tier_distribution diffs =
     fold (\<lambda>(d, env). count_tier (tc_tier (classify_diff d env))) diffs (0, 0, 0)"

section \<open>Facts about the classification\<close>

lemma verdict_iff_no_llm: "tc_llm_required (classify_diff d env) \<longleftrightarrow> tc_verdict (classify_diff d env) = None"
  by (simp add: classify_diff_def tier1_def tier2_def classified_def needs_llm_def)

definition total_count :: "nat \<times> nat \<times> nat \<Rightarrow> nat" where
  "total_count counts = (case counts of (a, b, c) \<Rightarrow> a + b + c)"

lemma total_count_tier: "total_count (count_tier t counts) = Suc (total_count counts)"
  by (cases t; cases counts) (simp_all add: total_count_def count_tier_def)

lemma estimate_total: "total_count (estimate_tier_distribution diffs) = length diffs"
proof -
  have "total_count (fold (\<lambda>(d, env). count_tier (tc_tier (classify_diff d env))) diffs counts) =
      total_count counts + length diffs" for counts
    by (induction diffs arbitrary: counts) (auto simp: total_count_tier)
  from this [of "(0, 0, 0)"] show ?thesis by (simp add: estimate_tier_distribution_def total_count_def)
qed

lemma cron_is_empty_tables:
  "list_all (\<lambda>(k, a, r). a = [] \<and> r = []) (diff_entry_tables before after) \<longleftrightarrow> diff_entry_tables before after = []"
  by (auto simp: diff_entry_tables_def Let_def list_all_iff filter_empty_conv)

lemma map_filter_Nil: "List.map_filter f xs = [] \<longleftrightarrow> (\<forall>x\<in>set xs. f x = None)"
  by (induction xs) (auto simp: List.map_filter_def)

lemma keys_dict_get: "k \<in> set (map fst d) \<longleftrightarrow> (\<exists>v. dict_get d k = Some v)"
  unfolding dict_has_iff [symmetric] dict_has_def by (cases "dict_get d k") simp_all

lemma mounts_unchanged_kept:
  assumes "mounts_unchanged (diff_mount_lists before after)" and "dict_get (mounts_by_target before) t = Some m"
  shows "\<exists>m'. dict_get (mounts_by_target after) t = Some m' \<and> gm_source m' = gm_source m \<and> gm_fstype m' = gm_fstype m"
proof -
  let ?b = "mounts_by_target before" and ?a = "mounts_by_target after"
  let ?d = "diff_mount_lists before after"
  let ?ts = "sort (remdups (filter (\<lambda>t. dict_has ?a t) (map fst ?b)))"
  have "md_removed ?d = []" "md_changed ?d = []"
    using assms(1) by (simp_all only: mounts_unchanged_def)
  then have none: "sorted_diff (map fst ?b) (map fst ?a) = []" "List.map_filter (mount_changed ?b ?a) ?ts = []"
    by (simp_all only: diff_mount_lists_def Let_def mount_diff.select_convs)
  note removed = none(1) [unfolded sorted_diff_empty] and changed = none(2) [unfolded map_filter_Nil]
  have "t \<in> set (map fst ?b)" using assms(2) keys_dict_get [THEN iffD2] by (metis (no_types))
  then have "t \<in> set (map fst ?a)" using removed by (rule subsetD [rotated])
  then obtain m' where m': "dict_get ?a t = Some m'" by (rule keys_dict_get [THEN iffD1, THEN exE])
  have "t \<in> set ?ts"
    using \<open>t \<in> set (map fst ?b)\<close> m' by (simp add: dict_has_def)
  with changed assms(2) m' show ?thesis
    by (fastforce simp: mount_changed_def split: if_splits)
qed

section \<open>Verdicts without the model\<close>

text \<open>What a migrated machine must have kept for a pass to be right.\<close>

definition workload_kept :: "guest_state \<Rightarrow> guest_state \<Rightarrow> bool" where
  "workload_kept b c \<longleftrightarrow>
     set (service_units (st_services b)) \<subseteq> set (service_units (st_services c)) \<and>
     port_triple_of ` set (st_ports b) = port_triple_of ` set (st_ports c) \<and>
     (\<forall>t m. dict_get (mounts_by_target (st_mounts b)) t = Some m \<longrightarrow>
        (\<exists>m'. dict_get (mounts_by_target (st_mounts c)) t = Some m' \<and>
           gm_source m' = gm_source m \<and> gm_fstype m' = gm_fstype m)) \<and>
     (\<forall>u. set (dict_get_or (gc_users (st_cron b)) u []) = set (dict_get_or (gc_users (st_cron c)) u []))"

lemma quiet_diff_keeps:
  assumes "iteration_order order" and "d = compute_diff order b c"
    and "sd_services_removed d = []" and "ports_unchanged (sd_ports d)"
    and "mounts_unchanged (sd_mounts d)" and "cron_is_empty (sd_cron d)"
  shows "workload_kept b c"
proof -
  have "set (service_units (st_services b)) \<subseteq> set (service_units (st_services c))"
    using assms(2,3) by (simp add: compute_diff_def)
  moreover have "port_triple_of ` set (st_ports b) = port_triple_of ` set (st_ports c)"
    using assms(2,4) ports_minus_empty [OF assms(1)]
    by (auto simp: compute_diff_def ports_unchanged_def diff_port_lists_def)
  moreover have "mounts_unchanged (diff_mount_lists (st_mounts b) (st_mounts c))"
    using assms(2,5) by (simp add: compute_diff_def)
  moreover have "\<forall>u. set (dict_get_or (gc_users (st_cron b)) u []) = set (dict_get_or (gc_users (st_cron c)) u [])"
    using assms(2,6) by (simp add: compute_diff_def cron_is_empty_def diff_crons_def cron_is_empty_tables
        diff_entry_tables_empty)
  ultimately show ?thesis using mounts_unchanged_kept by (simp add: workload_kept_def)
qed

lemma pass_keeps_workload:
  assumes "iteration_order order" and "classify_diff (compute_diff order b c) env = cl"
    and "tc_verdict cl = Some v" and "tv_status v = V_pass"
  shows "workload_kept b c \<and>
    set (service_units (st_services c)) - set (service_units (st_services b)) \<subseteq> set KNOWN_GOOD_NEW_SERVICES"
proof -
  let ?d = "compute_diff order b c"
  have new: "set (sd_services_added ?d) = set (service_units (st_services c)) - set (service_units (st_services b))"
    by (simp add: compute_diff_def)
  consider "diff_is_effectively_empty ?d" | "only_known_good_services ?d" "no_other_changes ?d"
    using assms(2-4)
    by (auto simp: classify_diff_def tier1_def tier2_def classified_def needs_llm_def split: if_splits)
  then show ?thesis
  proof cases
    case 1
    then have "workload_kept b c"
      by (intro quiet_diff_keeps [OF assms(1) refl]) (simp_all add: diff_is_effectively_empty_def)
    moreover have "sd_services_added ?d = []" using 1 by (simp add: diff_is_effectively_empty_def)
    ultimately show ?thesis using new by auto
  next
    case 2
    then have "workload_kept b c"
      by (intro quiet_diff_keeps [OF assms(1) refl]) (simp_all add: only_known_good_services_def no_other_changes_def)
    moreover have "set (sd_services_added ?d) \<subseteq> set KNOWN_GOOD_NEW_SERVICES"
      using 2(1) by (auto simp: only_known_good_services_def list_all_iff)
    ultimately show ?thesis using new by simp
  qed
qed

text \<open>
  A pass without the language model is earned. Whenever the classifier passes the diff of two
  states, every service unit, port, mount point (with its source and file system) and user crontab
  of the baseline is still there, no port is new, and every new service is migration tooling.
\<close>

theorem tier_pass_keeps_workload:
  assumes "iteration_order order" and "classify_diff (compute_diff order b c) env = cl"
    and "tc_verdict cl = Some v" and "tv_status v = V_pass"
  shows "workload_kept b c \<and>
    set (service_units (st_services c)) - set (service_units (st_services b)) \<subseteq> set KNOWN_GOOD_NEW_SERVICES"
  using assms by (rule pass_keeps_workload)

text \<open>
  A fail without the language model is a lost critical service of a production machine, and a
  warning a lost critical service of any other; a machine whose critical services are all there gets
  neither.
\<close>

theorem tier_fail_iff_critical_lost:
  "(\<exists>v. tc_verdict (classify_diff (compute_diff order b c) env) = Some v \<and> tv_status v \<noteq> V_pass) \<longleftrightarrow>
     (\<exists>u. u \<in> set CRITICAL_SERVICES_FOR_PRODUCTION \<and> u \<in> set (service_units (st_services b)) \<and>
        u \<notin> set (service_units (st_services c)))" (is "?L \<longleftrightarrow> ?R")
proof -
  let ?d = "compute_diff order b c"
  have removed: "set (sd_services_removed ?d) = set (service_units (st_services b)) - set (service_units (st_services c))"
    by (simp add: compute_diff_def)
  then have "critical_stopped ?d \<noteq> [] \<longleftrightarrow> ?R"
    by (auto simp: critical_stopped_def filter_empty_conv)
  moreover have "critical_stopped ?d \<noteq> [] \<Longrightarrow> \<not> diff_is_effectively_empty ?d"
    by (auto simp: critical_stopped_def diff_is_effectively_empty_def)
  ultimately show ?thesis
    by (auto simp: classify_diff_def tier1_def tier2_def classified_def needs_llm_def)
qed

text \<open>An unchanged machine passes in tier 1.\<close>

lemma unchanged_passes:
  "iteration_order order \<Longrightarrow> classify_diff (compute_diff order s s) env = classified Tier1 V_pass [] ''tier1.empty_diff''"
  by (simp add: classify_diff_def tier1_def diff_is_effectively_empty_def compute_diff_refl ports_unchanged_def
      mounts_unchanged_def normalize_iface_changes_def cron_is_empty_def)

section \<open>Lost routes\<close>

definition routed :: guest_state where
  "routed = empty_state\<lparr>st_network := \<lparr>gn_interfaces = [(''eth0'', \<lparr>gi_ipv4 = [''10.0.0.5/24''], gi_ipv6 = []\<rparr>)],
     gn_routes = [''default via 10.0.0.1 dev eth0''], gn_dns = [''10.0.0.2'']\<rparr>\<rparr>"

definition unrouted :: guest_state where
  "unrouted = routed\<lparr>st_network := (st_network routed)\<lparr>gn_routes := [], gn_dns := []\<rparr>\<rparr>"

text \<open>
  Tier 1 passes a machine that lost its default route and its only resolver although no interface
  was renamed. The deterministic comparison of the wave runs warns about the same two states.
\<close>

theorem tier1_ignores_lost_routes:
  "classify_diff (compute_diff (\<lambda>xs. xs) routed unrouted) (Some ''production'') =
     classified Tier1 V_pass [] ''tier1.empty_diff'' \<and>
   cd_overall (diff_collection (Some routed) (Some unrouted)) = V_warn"
proof
  show "classify_diff (compute_diff (\<lambda>xs. xs) routed unrouted) (Some ''production'') =
     classified Tier1 V_pass [] ''tier1.empty_diff''"
    by code_simp
  show "cd_overall (diff_collection (Some routed) (Some unrouted)) = V_warn"
    by code_simp
qed

definition tooling_state :: guest_state where
  "tooling_state = routed\<lparr>st_services := [\<lparr>gs_unit = Some ''cloud-init'', gs_name = None, gs_active = None, gs_sub = None\<rparr>]\<rparr>"

lemma tier_pass_keeps_workload_witness: "workload_kept routed tooling_state"
proof -
  have v: "tc_verdict (classify_diff (compute_diff (\<lambda>xs. xs) routed tooling_state) None) =
      Some \<lparr>tv_status = V_pass, tv_findings = []\<rparr>"
    by code_simp
  have "iteration_order (\<lambda>xs :: port_triple list. xs)" by (simp add: iteration_order_def)
  from tier_pass_keeps_workload [OF this refl v] show ?thesis by simp
qed

end
