(* ===== verification/LLM_Validation.thy ===== *)
theory LLM_Validation
  imports Prelude
begin

text \<open>
  The verdict of the language model (\<open>LLMClient.validate\<close> and \<open>_parse_verdict\<close> in
  \<open>app/core/llm/client.py\<close>): the checks on its JSON output and the retry loop. The transport is a
  function that gives the reply to each attempt; the output it returns is the parsed JSON, \<open>None\<close>
  where \<open>json.loads\<close> fails. Prompts, error texts and the banner of
  the last error are left out; numbers are integers.

  Python raises where a value has the wrong type for an operation: \<open>lower\<close> on a value that is no
  string, \<open>in\<close> on a set with a list or a dict. These exceptions are not \<open>LLMError\<close>s, so they are an
  outcome of their own.
\<close>

section \<open>JSON\<close>

datatype json = J_null | J_bool bool | J_int int | J_str string | J_list "json list" | J_obj "(string \<times> json) list"

fun json_truthy :: "json \<Rightarrow> bool" where
  "json_truthy J_null = False"
| "json_truthy (J_bool b) = b"
| "json_truthy (J_int i) = (i \<noteq> 0)"
| "json_truthy (J_str s) = (s \<noteq> [])"
| "json_truthy (J_list l) = (l \<noteq> [])"
| "json_truthy (J_obj d) = (d \<noteq> [])"

text \<open>\<open>d.get(k)\<close>\<close>

definition json_get :: "(string \<times> json) list \<Rightarrow> string \<Rightarrow> json" where
  "json_get d k = dict_get_or d k J_null"

definition set_default :: "string \<Rightarrow> json \<Rightarrow> (string \<times> json) list \<Rightarrow> (string \<times> json) list" where
  "set_default k v d = (if dict_has d k then d else dict_set k v d)"

section \<open>Checking the output\<close>

datatype rejection =
    Not_json | Not_an_object | Invalid_status | Findings_not_a_list | Remediation_not_a_list
  | Finding_not_an_object nat | Invalid_severity nat | Invalid_confidence nat | Missing_field nat string
  | Critical_without_fail | Pass_with_findings

datatype 'a outcome = Returned 'a | Rejected rejection | Crashed

fun bind_outcome :: "'a outcome \<Rightarrow> ('a \<Rightarrow> 'b outcome) \<Rightarrow> 'b outcome" where
  "bind_outcome (Returned x) f = f x"
| "bind_outcome (Rejected r) f = Rejected r"
| "bind_outcome Crashed f = Crashed"

definition check_that :: "bool \<Rightarrow> rejection \<Rightarrow> unit outcome" where
  "check_that ok r = (if ok then Returned () else Rejected r)"

text \<open>\<open>(x or "").lower()\<close>\<close>

definition lowered :: "json \<Rightarrow> string outcome" where
  "lowered j = (if \<not> json_truthy j then Returned [] else (case j of J_str s \<Rightarrow> Returned (str_lower s) | _ \<Rightarrow> Crashed))"

definition STATUSES :: "string list" where "STATUSES = [''pass'', ''warn'', ''fail'']"

text \<open>\<open>status not in {"pass", "warn", "fail"}\<close>: lists and dicts cannot be hashed.\<close>

definition status_of_json :: "json \<Rightarrow> string outcome" where
  "status_of_json j =
     (case j of J_str s \<Rightarrow> if s \<in> set STATUSES then Returned s else Rejected Invalid_status
      | J_list _ \<Rightarrow> Crashed | J_obj _ \<Rightarrow> Crashed | _ \<Rightarrow> Rejected Invalid_status)"

definition SEVERITY_RANK :: "(string \<times> nat) list" where
  "SEVERITY_RANK = [(''critical'', 4), (''high'', 3), (''medium'', 2), (''low'', 1), (''info'', 0)]"

definition CONFIDENCES :: "string list" where "CONFIDENCES = [''high'', ''medium'', ''low'']"

definition REQUIRED_FIELDS :: "string list" where
  "REQUIRED_FIELDS = [''source_evidence'', ''current_evidence'', ''remediation'', ''title'']"

definition field_present :: "json \<Rightarrow> bool" where
  "field_present j = (case j of J_str s \<Rightarrow> str_strip s \<noteq> [] | _ \<Rightarrow> json_truthy j)"

text \<open>One finding: its severity rank.\<close>

definition check_finding :: "nat \<Rightarrow> json \<Rightarrow> nat outcome" where
  "check_finding idx j =
     (case j of
        J_obj d \<Rightarrow>
          bind_outcome (lowered (json_get d ''severity'')) (\<lambda>severity.
          bind_outcome (check_that (dict_has SEVERITY_RANK severity) (Invalid_severity idx)) (\<lambda>_.
          bind_outcome (lowered (json_get d ''confidence'')) (\<lambda>confidence.
          bind_outcome (check_that (confidence \<in> set CONFIDENCES) (Invalid_confidence idx)) (\<lambda>_.
          (case List.find (\<lambda>f. \<not> field_present (json_get d f)) REQUIRED_FIELDS of
             Some f \<Rightarrow> Rejected (Missing_field idx f)
           | None \<Rightarrow> Returned (dict_get_or SEVERITY_RANK severity 0))))))
      | _ \<Rightarrow> Rejected (Finding_not_an_object idx))"

fun check_findings :: "nat \<Rightarrow> nat \<Rightarrow> json list \<Rightarrow> nat outcome" where
  "check_findings idx worst [] = Returned worst"
| "check_findings idx worst (j # js) =
     bind_outcome (check_finding idx j) (\<lambda>rank. check_findings (Suc idx) (max worst rank) js)"

definition with_defaults :: "(string \<times> json) list \<Rightarrow> (string \<times> json) list" where
  "with_defaults d =
     set_default ''confidence'' (J_str ''medium'')
       (set_default ''remediation'' (J_list []) (set_default ''findings'' (J_list []) (set_default ''summary'' (J_str []) d)))"

definition as_list :: "json \<Rightarrow> rejection \<Rightarrow> json list outcome" where
  "as_list j r = (case j of J_list l \<Rightarrow> Returned l | _ \<Rightarrow> Rejected r)"

definition parse_verdict :: "json option \<Rightarrow> (string \<times> json) list outcome" where
  "parse_verdict raw =
     (case raw of
        None \<Rightarrow> Rejected Not_json
      | Some (J_obj v) \<Rightarrow>
          bind_outcome (status_of_json (json_get v ''status'')) (\<lambda>status.
          (let verdict = with_defaults v in
          bind_outcome (as_list (json_get verdict ''findings'') Findings_not_a_list) (\<lambda>findings.
          bind_outcome (as_list (json_get verdict ''remediation'') Remediation_not_a_list) (\<lambda>_.
          bind_outcome (check_findings 0 0 findings) (\<lambda>worst.
          bind_outcome (check_that (\<not> (worst \<ge> 4 \<and> status \<noteq> ''fail'')) Critical_without_fail) (\<lambda>_.
          bind_outcome (check_that (\<not> (status = ''pass'' \<and> worst \<ge> 2)) Pass_with_findings) (\<lambda>_.
          Returned verdict)))))))
      | Some _ \<Rightarrow> Rejected Not_an_object)"

section \<open>The retry loop\<close>

datatype reply = Reply "json option" string | Auth_error | Guardrail_error | Backend_error

record llm_verdict =
  lv_status :: string
  lv_findings :: "json list"
  lv_model :: string
  lv_needs_manual_review :: bool

datatype validate_result = Llm_verdict llm_verdict | Llm_error | Uncaught

text \<open>The status and the findings of an accepted verdict.\<close>

definition verdict_of :: "(string \<times> json) list \<Rightarrow> string \<Rightarrow> llm_verdict" where
  "verdict_of v model = \<lparr>lv_status = (case json_get v ''status'' of J_str s \<Rightarrow> s | _ \<Rightarrow> []),
     lv_findings = (case json_get v ''findings'' of J_list l \<Rightarrow> l | _ \<Rightarrow> []), lv_model = model,
     lv_needs_manual_review = False\<rparr>"

definition manual_review :: llm_verdict where
  "manual_review = \<lparr>lv_status = ''warn'', lv_findings = [], lv_model = [], lv_needs_manual_review = True\<rparr>"

fun attempts :: "(nat \<Rightarrow> reply) \<Rightarrow> nat list \<Rightarrow> validate_result" where
  "attempts chat [] = Llm_verdict manual_review"
| "attempts chat (i # is) =
     (case chat i of
        Auth_error \<Rightarrow> Llm_error
      | Guardrail_error \<Rightarrow> Llm_verdict manual_review
      | Backend_error \<Rightarrow> Llm_error
      | Reply raw model \<Rightarrow>
          (case parse_verdict raw of
             Returned v \<Rightarrow> Llm_verdict (verdict_of v model)
           | Rejected _ \<Rightarrow> attempts chat is
           | Crashed \<Rightarrow> Uncaught))"

definition validate_llm :: "nat \<Rightarrow> (nat \<Rightarrow> reply) \<Rightarrow> validate_result" where
  "validate_llm max_retries chat = attempts chat [0..<max_retries + 1]"

section \<open>Accepted verdicts\<close>

lemma bind_Returned: "bind_outcome x f = Returned z \<longleftrightarrow> (\<exists>y. x = Returned y \<and> f y = Returned z)"
  by (cases x) simp_all

lemma check_that_Returned [simp]: "check_that ok r = Returned u \<longleftrightarrow> ok"
  by (simp add: check_that_def)

lemma dict_get_default: "dict_get (set_default k v d) k' = (if k = k' \<and> \<not> dict_has d k then Some v else dict_get d k')"
  by (auto simp: set_default_def dict_has_def)

lemma defaults_status: "json_get (with_defaults v) ''status'' = json_get v ''status''"
  by (simp add: with_defaults_def json_get_def dict_get_or_def dict_get_default)

text \<open>What an accepted finding looks like.\<close>

definition finding_ok :: "json \<Rightarrow> bool" where
  "finding_ok j \<longleftrightarrow> (\<exists>d severity confidence. j = J_obj d \<and>
     lowered (json_get d ''severity'') = Returned severity \<and> dict_has SEVERITY_RANK severity \<and>
     lowered (json_get d ''confidence'') = Returned confidence \<and> confidence \<in> set CONFIDENCES \<and>
     (\<forall>f\<in>set REQUIRED_FIELDS. field_present (json_get d f)))"

definition severity_rank :: "json \<Rightarrow> nat" where
  "severity_rank j =
     (case j of J_obj d \<Rightarrow> (case lowered (json_get d ''severity'') of
        Returned s \<Rightarrow> dict_get_or SEVERITY_RANK s 0 | _ \<Rightarrow> 0) | _ \<Rightarrow> 0)"

lemma check_finding_Returned: "check_finding idx j = Returned r \<Longrightarrow> finding_ok j \<and> r = severity_rank j"
  unfolding check_finding_def finding_ok_def severity_rank_def
  by (cases j) (auto simp: bind_Returned find_None_iff split: option.splits)

lemma check_findings_Returned:
  "check_findings idx worst js = Returned w \<Longrightarrow>
     list_all finding_ok js \<and> worst \<le> w \<and> (\<forall>j\<in>set js. severity_rank j \<le> w) \<and>
     (w = worst \<or> (\<exists>j\<in>set js. severity_rank j = w))"
proof (induction js arbitrary: idx worst)
  case (Cons j js)
  then obtain r where r: "check_finding idx j = Returned r" "check_findings (Suc idx) (max worst r) js = Returned w"
    by (auto simp: bind_Returned)
  from Cons.IH [OF r(2)] check_finding_Returned [OF r(1)] show ?case
    by (auto simp: max_def split: if_splits)
qed simp


definition only_status :: "json \<Rightarrow> json" where
  "only_status s = J_obj [(''status'', s)]"

definition numbered_severity :: json where
  "numbered_severity = J_obj [(''status'', J_str ''fail''), (''findings'', J_list [J_obj [(''severity'', J_int 4)]])]"

text \<open>
  A status that is a list, or a severity that is a number, is not rejected and retried but raises an
  exception that is no \<open>LLMError\<close>, although a good reply would have followed.
\<close>

definition bad_then_good :: "json \<Rightarrow> nat \<Rightarrow> reply" where
  "bad_then_good bad i = (if i = 0 then Reply (Some bad) ''m'' else Reply (Some (only_status (J_str ''pass''))) ''m'')"

lemma malformed_output_escapes:
  "validate_llm 1 (bad_then_good (only_status (J_list []))) = Uncaught"
  "validate_llm 1 (bad_then_good numbered_severity) = Uncaught"
  by code_simp+

text \<open>A verdict \<open>fail\<close> without any finding is accepted; the documented rule asks for a critical one.\<close>

lemma fail_without_findings_accepted:
  "validate_llm 1 (\<lambda>_. Reply (Some (only_status (J_str ''fail''))) ''m'') =
     Llm_verdict \<lparr>lv_status = ''fail'', lv_findings = [], lv_model = ''m'', lv_needs_manual_review = False\<rparr>"
  by code_simp

lemma verdict_status_valid: "parse_verdict raw = Returned v \<Longrightarrow> lv_status (verdict_of v m) \<in> set STATUSES"
  unfolding parse_verdict_def
  by (auto simp: bind_Returned Let_def verdict_of_def defaults_status status_of_json_def
      split: option.splits json.splits if_splits)

lemma attempts_status: "attempts chat is = Llm_verdict lv \<Longrightarrow> lv_status lv \<in> set STATUSES"
proof (induction "is")
  case Nil
  then show ?case by (auto simp: manual_review_def STATUSES_def)
next
  case (Cons i "is")
  have "lv_status manual_review \<in> set STATUSES" by (simp add: manual_review_def STATUSES_def)
  with Cons show ?case
    by (auto split: reply.splits outcome.splits intro: verdict_status_valid)
qed

text \<open>A call ends with a verdict unless the transport fails or a reply crashes the checks.\<close>

lemma attempts_verdict:
  "\<forall>i\<in>set is. chat i = Guardrail_error \<or> (\<exists>raw m. chat i = Reply raw m \<and> parse_verdict raw \<noteq> Crashed) \<Longrightarrow>
     \<exists>v. attempts chat is = Llm_verdict v"
  by (induction "is") (auto split: outcome.splits reply.splits)


end
