(* ===== verification/Validation_Cache.thy ===== *)
theory Validation_Cache
  imports State_Diff
begin

text \<open>
  The cache of language-model verdicts (\<open>app/core/validation_cache.py\<close>). The key is a digest of the
  diff and the OS family; the digest, SHA-256 of the canonical JSON, is a parameter. Times are integers.
\<close>

definition DEFAULT_TTL :: int where "DEFAULT_TTL = 7 * 24 * 60 * 60"

record 'v cache_row =
  ch_key :: string
  ch_os_family :: string
  ch_verdict :: 'v
  ch_source_vm_id :: "int option"
  ch_source_model :: "string option"
  ch_expires_at :: int
  ch_hit_count :: nat
  ch_last_hit_at :: "int option"

definition family_label :: "string option \<Rightarrow> string" where
  "family_label os_family = str_lower (if truthy os_family then or_empty os_family else ''unknown'')"

definition compute_cache_key ::
  "(string \<times> state_diff \<Rightarrow> string) \<Rightarrow> state_diff \<Rightarrow> string option \<Rightarrow> string" where
  "compute_cache_key digest d os_family = digest (family_label os_family, d)"

definition find_row :: "'v cache_row list \<Rightarrow> string \<Rightarrow> 'v cache_row option" where
  "find_row rows k = List.find (\<lambda>r. ch_key r = k) rows"

definition update_row :: "string \<Rightarrow> ('v cache_row \<Rightarrow> 'v cache_row) \<Rightarrow> 'v cache_row list \<Rightarrow> 'v cache_row list" where
  "update_row k f rows = map (\<lambda>r. if ch_key r = k then f r else r) rows"

definition cache_lookup ::
  "(string \<times> state_diff \<Rightarrow> string) \<Rightarrow> int \<Rightarrow> state_diff \<Rightarrow> string option \<Rightarrow> 'v cache_row list \<Rightarrow> 'v cache_row list \<times> 'v option" where
  "cache_lookup digest now d os_family rows =
     (let k = compute_cache_key digest d os_family in
      case find_row rows k of
        None \<Rightarrow> (rows, None)
      | Some r \<Rightarrow>
          if ch_expires_at r \<le> now then (rows, None)
          else (update_row k (\<lambda>r. r\<lparr>ch_hit_count := ch_hit_count r + 1, ch_last_hit_at := Some now\<rparr>) rows,
                Some (ch_verdict r)))"

text \<open>Idempotent on the key: an existing row gets the verdict and a new expiry.\<close>

definition cache_store ::
  "(string \<times> state_diff \<Rightarrow> string) \<Rightarrow> int \<Rightarrow> state_diff \<Rightarrow> string option \<Rightarrow> 'v \<Rightarrow> int option \<Rightarrow> string option
     \<Rightarrow> 'v cache_row list \<Rightarrow> 'v cache_row list" where
  "cache_store digest now d os_family v vm_id model rows =
     (let k = compute_cache_key digest d os_family in
      case find_row rows k of
        Some r \<Rightarrow> update_row k (\<lambda>r. r\<lparr>ch_verdict := v,
            ch_source_model := (if truthy model then model else ch_source_model r),
            ch_expires_at := now + DEFAULT_TTL\<rparr>) rows
      | None \<Rightarrow> rows @ [\<lparr>ch_key = k, ch_os_family = family_label os_family, ch_verdict = v, ch_source_vm_id = vm_id,
            ch_source_model = model, ch_expires_at = now + DEFAULT_TTL, ch_hit_count = 0, ch_last_hit_at = None\<rparr>])"

definition evict_expired :: "int \<Rightarrow> 'v cache_row list \<Rightarrow> 'v cache_row list \<times> nat" where
  "evict_expired now rows =
     (filter (\<lambda>r. \<not> ch_expires_at r \<le> now) rows, length (filter (\<lambda>r. ch_expires_at r \<le> now) rows))"

record cache_stats =
  cs_entries :: nat
  cs_total_hits :: nat
  cs_by_os_family :: "(string \<times> nat \<times> nat) list"

definition bump_family :: "'v cache_row \<Rightarrow> (string \<times> nat \<times> nat) list \<Rightarrow> (string \<times> nat \<times> nat) list" where
  "bump_family r d =
     (let f = (if ch_os_family r = [] then ''unknown'' else ch_os_family r);
          (entries, hits) = dict_get_or d f (0, 0)
      in dict_set f (entries + 1, hits + ch_hit_count r) d)"

definition cache_stats_of :: "'v cache_row list \<Rightarrow> cache_stats" where
  "cache_stats_of rows = \<lparr>cs_entries = length rows, cs_total_hits = sum_list (map ch_hit_count rows),
     cs_by_os_family = fold bump_family rows []\<rparr>"

section \<open>Facts\<close>

definition wf_cache :: "'v cache_row list \<Rightarrow> bool" where
  "wf_cache rows \<longleftrightarrow> distinct (map ch_key rows)"

text \<open>What a lookup answers, without its effect on the hit counters.\<close>

definition cached_verdict :: "int \<Rightarrow> string \<Rightarrow> 'v cache_row list \<Rightarrow> 'v option" where
  "cached_verdict now k rows =
     (case find_row rows k of None \<Rightarrow> None | Some r \<Rightarrow> if ch_expires_at r \<le> now then None else Some (ch_verdict r))"

lemma lookup_answer: "snd (cache_lookup digest now d f rows) = cached_verdict now (compute_cache_key digest d f) rows"
  by (simp add: cache_lookup_def cached_verdict_def Let_def split: option.splits)

lemma find_row_update:
  assumes "\<And>r. ch_key (f r) = ch_key r"
  shows "find_row (update_row k f rows) k' = map_option (\<lambda>r. if ch_key r = k then f r else r) (find_row rows k')"
  using assms by (induction rows) (auto simp: find_row_def update_row_def)

lemma find_row_key: "find_row rows k = Some r \<Longrightarrow> ch_key r = k"
  by (auto simp: find_row_def find_Some_iff)

lemma find_row_snoc: "find_row (rows @ [r]) k = (case find_row rows k of None \<Rightarrow> if ch_key r = k then Some r else None | Some r' \<Rightarrow> Some r')"
  by (induction rows) (auto simp: find_row_def)

lemma keys_update: "(\<And>r. ch_key (f r) = ch_key r) \<Longrightarrow> map ch_key (update_row k f rows) = map ch_key rows"
  by (induction rows) (auto simp: update_row_def)

lemma find_row_None: "find_row rows k = None \<longleftrightarrow> k \<notin> ch_key ` set rows"
  by (auto simp: find_row_def find_None_iff)

lemma store_wf: "wf_cache rows \<Longrightarrow> wf_cache (cache_store digest now d f v i m rows)"
  by (auto simp: wf_cache_def cache_store_def Let_def keys_update find_row_None split: option.splits)

lemma lookup_wf: "wf_cache rows \<Longrightarrow> wf_cache (fst (cache_lookup digest now d f rows))"
  by (auto simp: wf_cache_def cache_lookup_def Let_def keys_update split: option.splits)

lemma cached_after_store:
  "cached_verdict later k (cache_store digest now d f v i m rows) =
     (if k = compute_cache_key digest d f then (if later < now + DEFAULT_TTL then Some v else None)
      else cached_verdict later k rows)"
  by (auto simp: cached_verdict_def cache_store_def Let_def find_row_update find_row_snoc dest: find_row_key
      split: option.splits)

text \<open>A lookup only touches the counters: it changes no later answer.\<close>

lemma cached_after_lookup:
  "cached_verdict later k (fst (cache_lookup digest now d f rows)) = cached_verdict later k rows"
  by (auto simp: cached_verdict_def cache_lookup_def Let_def find_row_update split: option.splits)

lemma find_row_filter:
  "wf_cache rows \<Longrightarrow> find_row (filter p rows) k =
     (case find_row rows k of None \<Rightarrow> None | Some r \<Rightarrow> if p r then Some r else None)"
proof (induction rows)
  case (Cons r rows)
  have "find_row rows (ch_key r) = None"
    using Cons.prems by (auto simp: wf_cache_def find_row_None)
  with Cons show ?case
    by (auto simp: find_row_def wf_cache_def split: option.splits)
qed (simp add: find_row_def)

lemma cached_after_evict:
  "wf_cache rows \<Longrightarrow> now \<le> later \<Longrightarrow> cached_verdict later k (fst (evict_expired now rows)) = cached_verdict later k rows"
  by (auto simp: cached_verdict_def evict_expired_def find_row_filter split: option.splits)

text \<open>
  C30: the cache returns what was stored. Where the digest does not confuse the two keys, a verdict stored
  for a diff and an OS family is the answer for exactly that diff and family until seven days have
  passed, and no answer after that; all other answers stay what they were. Lookups and the periodic
  sweep change no later answer.
\<close>

theorem cache_roundtrip:
  assumes "wf_cache rows" and "now \<le> sweep" and "sweep \<le> later"
    and "digest (family_label f', d') = digest (family_label f, d) \<longrightarrow> family_label f' = family_label f \<and> d' = d"
    and "stored = cache_store digest now d f v i m rows"
    and "swept = fst (evict_expired sweep (fst (cache_lookup digest now d'' f'' stored)))"
  shows "snd (cache_lookup digest later d' f' swept) =
    (if d' = d \<and> family_label f' = family_label f then (if later < now + DEFAULT_TTL then Some v else None)
     else snd (cache_lookup digest later d' f' rows))"
proof -
  have same: "compute_cache_key digest d' f' = compute_cache_key digest d f \<longleftrightarrow> d' = d \<and> family_label f' = family_label f"
    using assms(4) by (auto simp: compute_cache_key_def)
  have "wf_cache (fst (cache_lookup digest now d'' f'' stored))"
    unfolding assms(5) by (intro lookup_wf store_wf assms(1))
  then have "snd (cache_lookup digest later d' f' swept) =
      cached_verdict later (compute_cache_key digest d' f') stored"
    using assms(3) by (simp add: lookup_answer assms(6) cached_after_evict cached_after_lookup)
  then show ?thesis by (auto simp: assms(5) cached_after_store same lookup_answer)
qed

definition blank_diff :: state_diff where
  "blank_diff = compute_diff (\<lambda>xs. xs) empty_state empty_state"

lemma cache_roundtrip_witness:
  "snd (cache_lookup fst 20 blank_diff (Some ''windows'')
     (fst (evict_expired 10 (fst (cache_lookup fst 5 blank_diff None
        (cache_store fst 5 blank_diff (Some ''Windows'') True None None ([] :: bool cache_row list))))))) = Some True"
proof -
  have same: "family_label (Some ''windows'') = family_label (Some ''Windows'')" by code_simp
  have "wf_cache ([] :: bool cache_row list)" by (simp add: wf_cache_def)
  from cache_roundtrip [OF this, where now = 5 and sweep = 10 and later = 20 and digest = fst
      and f' = "Some ''windows''" and f = "Some ''Windows''" and d' = blank_diff and d = blank_diff
      and v = True and i = None and m = None and d'' = blank_diff and f'' = None, OF _ _ _ refl refl] same
  show ?thesis by (simp add: DEFAULT_TTL_def)
qed

end
