(* ===== verification/Validation_Run.thy ===== *)
theory Validation_Run
  imports Inventory Validation_Tiers LLM_Validation Validation_Cache
begin

text \<open>
  Validating a machine (\<open>app/core/validation.py\<close>) and a batch of them (\<open>app/core/bulk_validation.py\<close>,
  \<open>app/api/validations.py\<close>): baseline, SSH collection, diff, tier, cache, language model, result row.
  The clock, the SSH collection, the replies of the model, the digest of the cache and the iteration
  order of sets are parameters. The inference log, host-key audits and texts are left out.
\<close>

section \<open>Tables\<close>

record snapshot =
  sn_vm_id :: int
  sn_collected_at :: int
  sn_raw_data :: guest_state

datatype validation_status = Val_passed | Val_warn | Val_failed

datatype finding_item = From_rule string string | From_model json

record final_verdict =
  fv_status :: string
  fv_findings :: "finding_item list"
  fv_tier :: tier
  fv_matched_rules :: "string list"
  fv_needs_manual_review :: bool

record validation_row =
  va_id :: int
  va_vm_id :: int
  va_status :: validation_status
  va_findings :: "finding_item list"
  va_diff :: state_diff

text \<open>The details of a \<open>validation.completed\<close> audit row.\<close>

record validation_audit =
  am_vm_id :: int
  am_verdict :: string
  am_tier :: tier
  am_cached :: bool
  am_matched_rules :: "string list"
  am_llm_called :: bool
  am_needs_manual_review :: bool

record validation_db =
  vb_vms :: "vm list"
  vb_snapshots :: "snapshot list"
  vb_results :: "validation_row list"
  vb_cache :: "llm_verdict cache_row list"
  vb_usage :: "int list"
  vb_audits :: "validation_audit list"
  vb_next_id :: int

record validation_env =
  ve_now :: int
  ve_order :: "port_triple list \<Rightarrow> port_triple list"
  ve_digest :: "string \<times> state_diff \<Rightarrow> string"
  ve_chat :: "nat \<Rightarrow> reply"
  ve_collect :: "string \<Rightarrow> string \<Rightarrow> guest_state option"

section \<open>One machine\<close>

datatype validation_error = No_baseline | No_host | Ssh_failed | Llm_failed | Invalid_verdict_status

datatype run_outcome = Run_row validation_row | Run_error validation_error | Run_uncaught

definition VERDICT_TO_ENUM :: "(string \<times> validation_status) list" where
  "VERDICT_TO_ENUM = [(''pass'', Val_passed), (''warn'', Val_warn), (''fail'', Val_failed)]"

definition VERDICT_TO_VM_STATUS :: "(string \<times> vm_status) list" where
  "VERDICT_TO_VM_STATUS =
    [(''pass'', Status_validated), (''warn'', Status_validated), (''fail'', Status_failed)]"

text \<open>The latest snapshot, by collection time.\<close>

definition baseline_profile :: "validation_db \<Rightarrow> vm \<Rightarrow> guest_state option" where
  "baseline_profile db v =
     (case rev (sort_key sn_collected_at (filter (\<lambda>s. sn_vm_id s = vm_id v) (vb_snapshots db))) of
        [] \<Rightarrow> None | s # _ \<Rightarrow> Some (sn_raw_data s))"

definition collect_current_state :: "validation_env \<Rightarrow> vm \<Rightarrow> validation_error + guest_state" where
  "collect_current_state env v =
     (let host = (if truthy (vm_ip_address v) then or_empty (vm_ip_address v) else or_empty (vm_source_hostname v));
          user = (if truthy (vm_ssh_user v) then or_empty (vm_ssh_user v) else ''virtvalidate'')
      in if host = [] then Inl No_host
         else (case ve_collect env host user of None \<Rightarrow> Inl Ssh_failed | Some st \<Rightarrow> Inr st))"

fun status_string :: "verdict \<Rightarrow> string" where
  "status_string V_pass = ''pass''"
| "status_string V_info = ''info''"
| "status_string V_warn = ''warn''"
| "status_string V_fail = ''fail''"

definition rule_verdict :: "tier_classification \<Rightarrow> tier_verdict \<Rightarrow> final_verdict" where
  "rule_verdict c v = \<lparr>fv_status = status_string (tv_status v),
     fv_findings = map (\<lambda>(s, sev). From_rule s sev) (tv_findings v), fv_tier = tc_tier c,
     fv_matched_rules = tc_matched_rules c, fv_needs_manual_review = False\<rparr>"

definition model_verdict :: "llm_verdict \<Rightarrow> final_verdict" where
  "model_verdict v = \<lparr>fv_status = lv_status v, fv_findings = map From_model (lv_findings v), fv_tier = Tier3,
     fv_matched_rules = [], fv_needs_manual_review = lv_needs_manual_review v\<rparr>"

text \<open>
  Where the verdict comes from: the tables with the effect on cache and usage, and the verdict with
  the flags \<open>cached\<close> and \<open>llm_called\<close>, or the way it failed.
\<close>

datatype verdict_source = Verdict final_verdict bool bool | Verdict_error validation_error | Verdict_uncaught

definition llm_stage ::
  "validation_env \<Rightarrow> vm \<Rightarrow> state_diff \<Rightarrow> string option \<Rightarrow> validation_db \<Rightarrow> validation_db \<times> verdict_source" where
  "llm_stage env v d os_family db =
     (case validate_llm 1 (ve_chat env) of
        Llm_error \<Rightarrow> (db, Verdict_error Llm_failed)
      | Uncaught \<Rightarrow> (db, Verdict_uncaught)
      | Llm_verdict lv \<Rightarrow>
          (let db1 = (if lv_needs_manual_review lv then db
              else db\<lparr>vb_cache := cache_store (ve_digest env) (ve_now env) d os_family lv (Some (vm_id v))
                (Some (lv_model lv)) (vb_cache db)\<rparr>)
           in (db1\<lparr>vb_usage := vb_usage db1 @ [vm_id v]\<rparr>, Verdict (model_verdict lv) False True)))"

definition verdict_stage ::
  "validation_env \<Rightarrow> bool \<Rightarrow> vm \<Rightarrow> state_diff \<Rightarrow> string option \<Rightarrow> validation_db \<Rightarrow> validation_db \<times> verdict_source" where
  "verdict_stage env use_cache v d os_family db =
     (let c = classify_diff d (vm_environment v) in
      case tc_verdict c of
        Some tv \<Rightarrow> (db, Verdict (rule_verdict c tv) False False)
      | None \<Rightarrow>
          if use_cache
          then (case cache_lookup (ve_digest env) (ve_now env) d os_family (vb_cache db) of
              (rows, Some lv) \<Rightarrow> (db\<lparr>vb_cache := rows\<rparr>, Verdict (model_verdict lv) True False)
            | (rows, None) \<Rightarrow> llm_stage env v d os_family db)
          else llm_stage env v d os_family db)"

definition os_family_of :: "guest_state \<Rightarrow> string option" where
  "os_family_of b = Some (if truthy (ge_os_family (st_meta b)) then or_empty (ge_os_family (st_meta b)) else ''unknown'')"

definition store_result ::
  "vm \<Rightarrow> state_diff \<Rightarrow> final_verdict \<Rightarrow> bool \<Rightarrow> bool \<Rightarrow> validation_db \<Rightarrow> validation_db \<times> run_outcome" where
  "store_result v d fv cached llm_called db =
     (case dict_get VERDICT_TO_ENUM (fv_status fv) of
        None \<Rightarrow> (db, Run_error Invalid_verdict_status)
      | Some status \<Rightarrow>
          (let row = \<lparr>va_id = vb_next_id db, va_vm_id = vm_id v, va_status = status,
                 va_findings = fv_findings fv, va_diff = d\<rparr>
           in (db\<lparr>vb_results := vb_results db @ [row], vb_next_id := vb_next_id db + 1,
                  vb_vms := map (\<lambda>r. if vm_id r = vm_id v
                    then (case dict_get VERDICT_TO_VM_STATUS (fv_status fv) of
                            None \<Rightarrow> r | Some st \<Rightarrow> r\<lparr>vm_status := st\<rparr>) else r) (vb_vms db),
                  vb_audits := vb_audits db @ [\<lparr>am_vm_id = vm_id v, am_verdict = fv_status fv, am_tier = fv_tier fv,
                    am_cached = cached, am_matched_rules = fv_matched_rules fv, am_llm_called = llm_called,
                    am_needs_manual_review = fv_needs_manual_review fv\<rparr>]\<rparr>, Run_row row)))"

definition run_validation ::
  "validation_env \<Rightarrow> bool \<Rightarrow> vm \<Rightarrow> validation_db \<Rightarrow> validation_db \<times> run_outcome" where
  "run_validation env use_cache v db =
     (case baseline_profile db v of
        None \<Rightarrow> (db, Run_error No_baseline)
      | Some b \<Rightarrow>
          (case collect_current_state env v of
             Inl e \<Rightarrow> (db, Run_error e)
           | Inr current \<Rightarrow>
               (let d = compute_diff (ve_order env) b current in
                case verdict_stage env use_cache v d (os_family_of b) db of
                  (db1, Verdict fv cached llm_called) \<Rightarrow> store_result v d fv cached llm_called db1
                | (db1, Verdict_error e) \<Rightarrow> (db1, Run_error e)
                | (db1, Verdict_uncaught) \<Rightarrow> (db1, Run_uncaught))))"

section \<open>The task of the manual flow\<close>

datatype task_status = Task_running | Task_completed | Task_failed

record validation_task =
  tk_vm_id :: int
  tk_status :: task_status
  tk_current_step :: string
  tk_progress :: nat
  tk_validation_id :: "int option"
  tk_verdict :: "validation_status option"

definition new_task :: "int \<Rightarrow> validation_task" where
  "new_task vid = \<lparr>tk_vm_id = vid, tk_status = Task_running, tk_current_step = ''queued'', tk_progress = 0,
     tk_validation_id = None, tk_verdict = None\<rparr>"

definition update_step :: "string \<Rightarrow> nat \<Rightarrow> validation_task \<Rightarrow> validation_task" where
  "update_step step percent t = t\<lparr>tk_current_step := step, tk_progress := percent\<rparr>"

definition mark_completed :: "int \<Rightarrow> validation_status \<Rightarrow> validation_task \<Rightarrow> validation_task" where
  "mark_completed vid verdict t = t\<lparr>tk_status := Task_completed, tk_current_step := ''completed'',
     tk_progress := 100, tk_validation_id := Some vid, tk_verdict := Some verdict\<rparr>"

definition mark_failed :: "validation_task \<Rightarrow> validation_task" where
  "mark_failed t = t\<lparr>tk_status := Task_failed, tk_current_step := ''failed''\<rparr>"

text \<open>An exception that is no \<open>ValidationError\<close> ends the background task without touching the entry.\<close>

definition run_validation_task ::
  "validation_env \<Rightarrow> int \<Rightarrow> validation_db \<Rightarrow> validation_task \<Rightarrow> validation_db \<times> validation_task" where
  "run_validation_task env vid db t =
     (case find_vm (vb_vms db) vid of
        None \<Rightarrow> (db, mark_failed t)
      | Some v \<Rightarrow>
          (case run_validation env True v db of
             (db1, Run_row row) \<Rightarrow> (db1, mark_completed (va_id row) (va_status row) t)
           | (db1, Run_error e) \<Rightarrow> (db1, mark_failed t)
           | (db1, Run_uncaught) \<Rightarrow> (db1, update_step ''llm_reasoning'' 50 t)))"

section \<open>A batch\<close>

datatype vm_run_status = Vm_queued | Vm_running | Vm_completed | Vm_failed

record bulk_task =
  bk_completed_run :: bool
  bk_total :: nat
  bk_completed :: nat
  bk_failed :: nat
  bk_tiers :: "nat \<times> nat \<times> nat"
  bk_llm_calls :: nat
  bk_cache_hits :: nat
  bk_per_vm :: "(int \<times> vm_run_status) list"

definition new_bulk_task :: "nat \<Rightarrow> bulk_task" where
  "new_bulk_task n = \<lparr>bk_completed_run = False, bk_total = n, bk_completed = 0, bk_failed = 0, bk_tiers = (0, 0, 0),
     bk_llm_calls = 0, bk_cache_hits = 0, bk_per_vm = []\<rparr>"

definition queue_vm :: "vm \<Rightarrow> bulk_task \<Rightarrow> bulk_task" where
  "queue_vm v t = t\<lparr>bk_per_vm := dict_set (vm_id v) Vm_queued (bk_per_vm t)\<rparr>"

definition start_vm :: "vm \<Rightarrow> bulk_task \<Rightarrow> bulk_task" where
  "start_vm v t = t\<lparr>bk_per_vm := dict_set (vm_id v) Vm_running (bk_per_vm t)\<rparr>"

definition complete_vm :: "vm \<Rightarrow> tier \<Rightarrow> bool \<Rightarrow> bulk_task \<Rightarrow> bulk_task" where
  "complete_vm v tier cached t =
     (if \<not> dict_has (bk_per_vm t) (vm_id v) then t
      else t\<lparr>bk_per_vm := dict_set (vm_id v) Vm_completed (bk_per_vm t), bk_completed := bk_completed t + 1,
             bk_tiers := count_tier tier (bk_tiers t),
             bk_cache_hits := bk_cache_hits t + (if tier = Tier3 \<and> cached then 1 else 0),
             bk_llm_calls := bk_llm_calls t + (if tier = Tier3 \<and> \<not> cached then 1 else 0)\<rparr>)"

definition fail_vm :: "vm \<Rightarrow> bulk_task \<Rightarrow> bulk_task" where
  "fail_vm v t =
     (if \<not> dict_has (bk_per_vm t) (vm_id v) then t
      else t\<lparr>bk_per_vm := dict_set (vm_id v) Vm_failed (bk_per_vm t), bk_failed := bk_failed t + 1\<rparr>)"

text \<open>The newest of the last fifty audit rows that is about the machine.\<close>

definition read_last_validation_meta :: "validation_db \<Rightarrow> int \<Rightarrow> tier \<times> bool" where
  "read_last_validation_meta db vid =
     (case List.find (\<lambda>a. am_vm_id a = vid) (take 50 (rev (vb_audits db))) of
        Some a \<Rightarrow> (am_tier a, am_cached a) | None \<Rightarrow> (Tier3, False))"

text \<open>The environment may differ from machine to machine: time passes and the model replies anew.\<close>

definition bulk_one ::
  "(int \<Rightarrow> validation_env) \<Rightarrow> bool \<Rightarrow> vm \<Rightarrow> validation_db \<times> bulk_task \<Rightarrow> validation_db \<times> bulk_task" where
  "bulk_one env use_cache v acc =
     (case acc of (db, t) \<Rightarrow>
        (case run_validation (env (vm_id v)) use_cache v db of
           (db1, Run_row row) \<Rightarrow>
             (case read_last_validation_meta db1 (vm_id v) of
                (tier, cached) \<Rightarrow> (db1, complete_vm v tier cached (start_vm v t)))
         | (db1, Run_error e) \<Rightarrow> (db1, fail_vm v (start_vm v t))
         | (db1, Run_uncaught) \<Rightarrow> (db1, fail_vm v (start_vm v t))))"

definition run_bulk_validation ::
  "(int \<Rightarrow> validation_env) \<Rightarrow> bool \<Rightarrow> int list \<Rightarrow> validation_db \<Rightarrow> bulk_task \<Rightarrow> validation_db \<times> bulk_task" where
  "run_bulk_validation env use_cache vids db t =
     (let vms = select_vms (vb_vms db) vids;
          (db1, t1) = fold (bulk_one env use_cache) vms (db, fold queue_vm vms t)
      in (db1, t1\<lparr>bk_completed_run := True\<rparr>))"

text \<open>The tier preview: it never calls the model, but its cache lookups count as hits.\<close>

record tier_preview =
  tp_total :: nat
  tp_tiers :: "nat \<times> nat \<times> nat"
  tp_cache_estimate :: nat
  tp_errors :: nat

definition preview_one ::
  "(int \<Rightarrow> validation_env) \<Rightarrow> vm \<Rightarrow> validation_db \<times> tier_preview \<Rightarrow> validation_db \<times> tier_preview" where
  "preview_one env v acc =
     (case acc of (db, p) \<Rightarrow>
        (case baseline_profile db v of
           None \<Rightarrow> (db, p\<lparr>tp_errors := tp_errors p + 1\<rparr>)
         | Some b \<Rightarrow>
             (case collect_current_state (env (vm_id v)) v of
                Inl e \<Rightarrow> (db, p\<lparr>tp_errors := tp_errors p + 1\<rparr>)
              | Inr current \<Rightarrow>
                  (let d = compute_diff (ve_order (env (vm_id v))) b current;
                       c = classify_diff d (vm_environment v);
                       p1 = p\<lparr>tp_tiers := count_tier (tc_tier c) (tp_tiers p)\<rparr>
                   in if tc_tier c = Tier3
                      then (case cache_lookup (ve_digest (env (vm_id v))) (ve_now (env (vm_id v))) d
                              (ge_os_family (st_meta b)) (vb_cache db) of
                          (rows, Some _) \<Rightarrow> (db\<lparr>vb_cache := rows\<rparr>, p1\<lparr>tp_cache_estimate := tp_cache_estimate p1 + 1\<rparr>)
                        | (rows, None) \<Rightarrow> (db, p1))
                      else (db, p1)))))"

definition preview_tier_distribution ::
  "(int \<Rightarrow> validation_env) \<Rightarrow> int list \<Rightarrow> validation_db \<Rightarrow> validation_db \<times> tier_preview" where
  "preview_tier_distribution env vids db =
     (let vms = select_vms (vb_vms db) vids
      in fold (preview_one env) vms
           (db, \<lparr>tp_total = length vms, tp_tiers = (0, 0, 0), tp_cache_estimate = 0, tp_errors = 0\<rparr>))"

section \<open>The scope of a bulk request\<close>

record bulk_scope =
  sc_vm_ids :: "int list"
  sc_source_vcenter_id :: "int option"
  sc_environment :: "string option"
  sc_application_hint :: "string option"
  sc_only_migrated :: bool
  sc_not_validated_within_hours :: "int option"
  sc_use_cache :: bool

definition resolve_scope :: "vm list \<Rightarrow> bulk_scope \<Rightarrow> vm list" where
  "resolve_scope rows sc =
     sort_key vm_id
       (if sc_vm_ids sc \<noteq> [] then select_vms rows (sc_vm_ids sc)
        else filter (\<lambda>v.
          (sc_source_vcenter_id sc \<noteq> None \<longrightarrow> vm_source_vcenter_id v = sc_source_vcenter_id sc) \<and>
          (truthy (sc_environment sc) \<longrightarrow> vm_environment v = sc_environment sc) \<and>
          (truthy (sc_application_hint sc) \<longrightarrow> vm_application_hint v = sc_application_hint sc)) rows)"

text \<open>Two of the selection axes have no effect.\<close>

lemma scope_ignores_migrated:
  "resolve_scope rows (sc\<lparr>sc_only_migrated := b, sc_not_validated_within_hours := h\<rparr>) = resolve_scope rows sc"
  by (simp add: resolve_scope_def)

text \<open>The bulk endpoint: the machines to validate and the ones skipped for want of a baseline.\<close>

datatype bulk_error = Scope_matched_zero_vms | No_machine_has_a_baseline

definition run_bulk :: "validation_db \<Rightarrow> bulk_scope \<Rightarrow> bulk_error + (int list \<times> int list)" where
  "run_bulk db sc =
     (let matched = resolve_scope (vb_vms db) sc;
          has_baseline = (\<lambda>v. vm_id v \<in> set (map sn_vm_id (vb_snapshots db)));
          validatable = filter has_baseline matched;
          skipped = filter (\<lambda>v. \<not> has_baseline v) matched
      in if matched = [] then Inl Scope_matched_zero_vms
         else if validatable = [] then Inl No_machine_has_a_baseline
         else Inr (map vm_id validatable, map vm_id skipped))"

text \<open>The background run the endpoint schedules, with its task entry.\<close>

definition bulk_run :: "(int \<Rightarrow> validation_env) \<Rightarrow> bulk_scope \<Rightarrow> validation_db \<Rightarrow> bulk_error + (validation_db \<times> bulk_task)" where
  "bulk_run env sc db =
     (case run_bulk db sc of
        Inl e \<Rightarrow> Inl e
      | Inr (validatable, skipped) \<Rightarrow>
          Inr (run_bulk_validation env (sc_use_cache sc) validatable db (new_bulk_task (length validatable))))"

lemma run_bulk_selected:
  assumes "run_bulk db sc = Inr (validatable, skipped)" and "wf_rows (vb_vms db)"
  shows "mset (map vm_id (select_vms (vb_vms db) validatable)) = mset validatable"
proof -
  let ?p = "\<lambda>v. vm_id v \<in> set (map sn_vm_id (vb_snapshots db))"
  have v: "validatable = map vm_id (filter ?p (resolve_scope (vb_vms db) sc))"
    using assms(1) by (auto simp: run_bulk_def Let_def split: if_splits)
  have sorted: "distinct (map vm_id (sort_key vm_id ys)) \<longleftrightarrow> distinct (map vm_id ys)" for ys
    by (rule mset_eq_imp_distinct_iff) simp
  have dist: "distinct (map vm_id (resolve_scope (vb_vms db) sc))"
    using assms(2) by (simp add: resolve_scope_def sorted select_vms_def wf_rows_def distinct_map_filter)
  have "distinct validatable" unfolding v using dist by (auto simp: distinct_map intro: inj_on_subset)
  moreover have "distinct (map vm_id (select_vms (vb_vms db) validatable))"
    using assms(2) by (auto simp: wf_rows_def select_vms_def distinct_map intro: inj_on_subset)
  moreover have "set validatable \<subseteq> vm_id ` set (vb_vms db)"
    unfolding v by (auto simp: resolve_scope_def select_vms_def)
  then have "set (map vm_id (select_vms (vb_vms db) validatable)) = set validatable"
    by (auto simp: select_vms_def)
  ultimately show ?thesis by (metis set_eq_iff_mset_eq_distinct)
qed

end
