(* ===== verification/Validation_Properties.thy ===== *)
theory Validation_Properties
  imports Validation_Run
begin

text \<open>What validating one machine and a batch of machines guarantees.\<close>

section \<open>The stages of a run\<close>

lemma llm_stage_verdict:
  assumes "llm_stage env v d f db = (db', Verdict fv cached called)"
  shows "\<not> cached \<and> called \<and> fv_tier fv = Tier3 \<and> fv_status fv \<in> set STATUSES \<and>
    vb_usage db' = vb_usage db @ [vm_id v] \<and> vb_audits db' = vb_audits db \<and> vb_vms db' = vb_vms db \<and>
    (\<not> fv_needs_manual_review fv \<longrightarrow> (\<exists>lv m. fv = model_verdict lv \<and>
       vb_cache db' = cache_store (ve_digest env) (ve_now env) d f lv (Some (vm_id v)) m (vb_cache db)))"
proof -
  obtain lv where lv: "validate_llm 1 (ve_chat env) = Llm_verdict lv"
    using assms by (auto simp: llm_stage_def split: validate_result.splits)
  have "lv_status lv \<in> set STATUSES"
    using lv unfolding validate_llm_def by (rule attempts_status)
  moreover have "fv = model_verdict lv" "\<not> cached" called
    and "lv_needs_manual_review lv \<Longrightarrow> db' = db\<lparr>vb_usage := vb_usage db @ [vm_id v]\<rparr>"
    and "\<not> lv_needs_manual_review lv \<Longrightarrow>
      db' = db\<lparr>vb_cache := cache_store (ve_digest env) (ve_now env) d f lv (Some (vm_id v)) (Some (lv_model lv)) (vb_cache db),
               vb_usage := vb_usage db @ [vm_id v]\<rparr>"
    using assms unfolding llm_stage_def lv Let_def by auto
  moreover have "fv_tier (model_verdict lv) = Tier3" "fv_status (model_verdict lv) = lv_status lv"
    "fv_needs_manual_review (model_verdict lv) = lv_needs_manual_review lv"
    by (simp_all add: model_verdict_def)
  ultimately show ?thesis by (cases "lv_needs_manual_review lv") auto
qed

lemma llm_stage_failed:
  "llm_stage env v d f db = (db', Verdict_error e) \<Longrightarrow> db' = db"
  "llm_stage env v d f db = (db', Verdict_uncaught) \<Longrightarrow> db' = db"
  by (auto simp: llm_stage_def Let_def split: validate_result.splits)

lemma rule_status:
  "tc_verdict (classify_diff d env) = Some tv \<Longrightarrow> fv_status (rule_verdict (classify_diff d env) tv) \<in> set STATUSES"
  by (auto simp: classify_diff_def tier1_def tier2_def classified_def needs_llm_def rule_verdict_def STATUSES_def
      split: if_splits)

lemma verdict_stage_verdict:
  assumes "verdict_stage env uc v d f db = (db', Verdict fv cached called)"
  shows "vb_usage db' = vb_usage db @ (if called then [vm_id v] else []) \<and>
    (called \<longleftrightarrow> fv_tier fv = Tier3 \<and> \<not> cached) \<and> vb_audits db' = vb_audits db \<and> vb_vms db' = vb_vms db \<and>
    (called \<longrightarrow> fv_status fv \<in> set STATUSES)"
proof (cases "tc_verdict (classify_diff d (vm_environment v))")
  case (Some tv)
  have "tc_tier (classify_diff d (vm_environment v)) \<noteq> Tier3"
    using Some by (auto simp: classify_diff_def tier1_def tier2_def classified_def needs_llm_def split: if_splits)
  with assms Some show ?thesis by (auto simp: verdict_stage_def Let_def rule_verdict_def)
next
  case None
  show ?thesis
  proof (cases "llm_stage env v d f db = (db', Verdict fv cached called)")
    case True
    with llm_stage_verdict [OF this] show ?thesis by auto
  next
    case False
    with assms None show ?thesis
      by (auto simp: verdict_stage_def Let_def model_verdict_def split: prod.splits option.splits if_splits)
  qed
qed

lemma lookup_none_rows: "cache_lookup digest now d f rows = (rows', None) \<Longrightarrow> rows' = rows"
  by (auto simp: cache_lookup_def Let_def split: option.splits if_splits)

lemma verdict_stage_failed:
  "verdict_stage env uc v d f db = (db', Verdict_error e) \<Longrightarrow> db' = db"
  "verdict_stage env uc v d f db = (db', Verdict_uncaught) \<Longrightarrow> db' = db"
  by (auto simp: verdict_stage_def Let_def dest: llm_stage_failed split: option.splits prod.splits if_splits)

lemma store_result_row:
  assumes "store_result v d fv cached called db = (db', Run_row row)"
  shows "vb_usage db' = vb_usage db \<and> vb_cache db' = vb_cache db \<and> vb_snapshots db' = vb_snapshots db \<and>
    dict_get VERDICT_TO_ENUM (fv_status fv) = Some (va_status row) \<and> va_findings row = fv_findings fv \<and>
    (\<exists>a. vb_audits db' = vb_audits db @ [a] \<and> am_vm_id a = vm_id v \<and> am_tier a = fv_tier fv \<and> am_cached a = cached \<and>
       am_llm_called a = called \<and> am_needs_manual_review a = fv_needs_manual_review fv)"
  using assms by (auto simp: store_result_def Let_def split: option.splits)

text \<open>What a run compares: baseline and collection succeed and give this diff and OS family.\<close>

definition diff_of :: "validation_env \<Rightarrow> validation_db \<Rightarrow> vm \<Rightarrow> (state_diff \<times> string option) option" where
  "diff_of env db v =
     (case baseline_profile db v of
        None \<Rightarrow> None
      | Some b \<Rightarrow>
          (case collect_current_state env v of
             Inl _ \<Rightarrow> None | Inr current \<Rightarrow> Some (compute_diff (ve_order env) b current, os_family_of b)))"

lemma run_by_diff:
  "diff_of env db v = Some (d, f) \<Longrightarrow> run_validation env uc v db =
     (case verdict_stage env uc v d f db of
        (db1, Verdict fv cached called) \<Rightarrow> store_result v d fv cached called db1
      | (db1, Verdict_error e) \<Rightarrow> (db1, Run_error e)
      | (db1, Verdict_uncaught) \<Rightarrow> (db1, Run_uncaught))"
  by (auto simp: diff_of_def run_validation_def Let_def split: option.splits sum.splits)

lemma run_row_stages:
  assumes "run_validation env uc v db = (db', Run_row row)"
  obtains d f db1 fv cached called where "diff_of env db v = Some (d, f)"
    "verdict_stage env uc v d f db = (db1, Verdict fv cached called)"
    "store_result v d fv cached called db1 = (db', Run_row row)"
  using assms
  by (auto simp: run_validation_def diff_of_def Let_def split: option.splits sum.splits prod.splits verdict_source.splits)

section \<open>Passing without the model\<close>

text \<open>
  C15: a passed validation that neither asked the model nor the cache is earned: the stored row says
  passed, and every service unit, port, mount and user crontab of the latest baseline is in the state
  just collected, with no new port and no new service but migration tooling.
\<close>

theorem quiet_pass_keeps_workload:
  assumes "run_validation env uc v db = (db', Run_row row)" and "va_status row = Val_passed"
    and "am_tier (last (vb_audits db')) \<noteq> Tier3" and "iteration_order (ve_order env)"
  shows "\<exists>b c. baseline_profile db v = Some b \<and> collect_current_state env v = Inr c \<and> workload_kept b c \<and>
    set (service_units (st_services c)) - set (service_units (st_services b)) \<subseteq> set KNOWN_GOOD_NEW_SERVICES"
proof -
  obtain d f db1 fv cached called where d: "diff_of env db v = Some (d, f)"
    and vs: "verdict_stage env uc v d f db = (db1, Verdict fv cached called)"
    and st: "store_result v d fv cached called db1 = (db', Run_row row)"
    using assms(1) by (rule run_row_stages)
  obtain b c where bc: "baseline_profile db v = Some b" "collect_current_state env v = Inr c"
    and d': "d = compute_diff (ve_order env) b c"
    using d by (auto simp: diff_of_def split: option.splits sum.splits)
  have tier: "fv_tier fv \<noteq> Tier3" using store_result_row [OF st] assms(3) by auto
  then obtain tv where tv: "tc_verdict (classify_diff d (vm_environment v)) = Some tv"
    and fv: "fv = rule_verdict (classify_diff d (vm_environment v)) tv"
    using vs by (auto simp: verdict_stage_def Let_def model_verdict_def llm_stage_def
        split: option.splits prod.splits if_splits validate_result.splits)
  have "fv_status fv = ''pass''"
    using store_result_row [OF st] assms(2) by (auto simp: VERDICT_TO_ENUM_def split: if_splits)
  then have "tv_status tv = V_pass" by (cases "tv_status tv") (auto simp: fv rule_verdict_def)
  from pass_keeps_workload [OF assms(4) _ tv [unfolded d'] this] bc show ?thesis by blast
qed

section \<open>Asking the model once\<close>

text \<open>
  C29: the model is asked once. When it has given a verdict that needs no manual review, validating
  any machine with the same diff, the same OS family and no rule verdict within seven days succeeds
  from the cache, without a call, with the same status and findings.
\<close>

theorem verdict_reused_from_cache:
  assumes "wf_cache (vb_cache db)" and "diff_of env db v = Some (d, f)"
    and "run_validation env uc v db = (db1, Run_row r1)"
    and "am_llm_called (last (vb_audits db1))" and "\<not> am_needs_manual_review (last (vb_audits db1))"
    and "diff_of env2 db1 w = Some (d, f2)" and "family_label f2 = family_label f"
    and "tc_verdict (classify_diff d (vm_environment w)) = None" and "ve_digest env2 = ve_digest env"
    and "ve_now env2 < ve_now env + DEFAULT_TTL"
  shows "\<exists>db2 r2. run_validation env2 True w db1 = (db2, Run_row r2) \<and> va_status r2 = va_status r1 \<and>
    va_findings r2 = va_findings r1 \<and> vb_usage db2 = vb_usage db1"
proof -
  obtain db0 fv cached called where
    vs: "verdict_stage env uc v d f db = (db0, Verdict fv cached called)"
    and st: "store_result v d fv cached called db0 = (db1, Run_row r1)"
    using assms(3) unfolding run_by_diff [OF assms(2)] by (auto split: prod.splits verdict_source.splits)
  note row = store_result_row [OF st]
  have called: called and review: "\<not> fv_needs_manual_review fv" using row assms(4,5) by auto
  have "llm_stage env v d f db = (db0, Verdict fv cached called)"
    using vs called by (auto simp: verdict_stage_def Let_def split: option.splits prod.splits if_splits)
  from llm_stage_verdict [OF this] review obtain lv m where fv: "fv = model_verdict lv"
    and cache: "vb_cache db0 = cache_store (ve_digest env) (ve_now env) d f lv (Some (vm_id v)) m (vb_cache db)"
    by blast
  have "snd (cache_lookup (ve_digest env2) (ve_now env2) d f2 (vb_cache db1)) = Some lv"
    using row assms(7,9,10) by (simp add: lookup_answer cache cached_after_store compute_cache_key_def)
  then obtain rows where hit: "cache_lookup (ve_digest env2) (ve_now env2) d f2 (vb_cache db1) = (rows, Some lv)"
    by (metis prod.collapse)
  have "verdict_stage env2 True w d f2 db1 = (db1\<lparr>vb_cache := rows\<rparr>, Verdict fv True False)"
    using assms(8) hit by (simp add: verdict_stage_def Let_def fv)
  then have run: "run_validation env2 True w db1 = store_result w d fv True False (db1\<lparr>vb_cache := rows\<rparr>)"
    by (simp add: run_by_diff [OF assms(6)])
  have "dict_get VERDICT_TO_ENUM (fv_status fv) = Some (va_status r1)" "va_findings r1 = fv_findings fv"
    using row by blast+
  then obtain db2 r2 where r2: "store_result w d fv True False (db1\<lparr>vb_cache := rows\<rparr>) = (db2, Run_row r2)"
    by (simp add: store_result_def Let_def)
  from store_result_row [OF r2] row show ?thesis by (auto simp: run r2)
qed

section \<open>The counters of a batch\<close>

lemma run_failed_usage:
  "run_validation env uc v db = (db', Run_error e) \<or> run_validation env uc v db = (db', Run_uncaught) \<Longrightarrow>
     vb_usage db' = vb_usage db"
proof -
  assume failed: "run_validation env uc v db = (db', Run_error e) \<or> run_validation env uc v db = (db', Run_uncaught)"
  show ?thesis
  proof (cases "diff_of env db v")
    case None
    with failed show ?thesis
      by (auto simp: run_validation_def diff_of_def split: option.splits sum.splits)
  next
    case (Some p)
    then obtain d f where d: "diff_of env db v = Some (d, f)" by (cases p) auto
    show ?thesis
    proof (cases "\<exists>db1 fv cached called. verdict_stage env uc v d f db = (db1, Verdict fv cached called)")
      case True
      then obtain db1 fv cached called where vs: "verdict_stage env uc v d f db = (db1, Verdict fv cached called)" by blast
      have stored: "store_result v d fv cached called db1 = (db', Run_error e) \<or>
          store_result v d fv cached called db1 = (db', Run_uncaught)"
        using failed by (simp add: run_by_diff [OF d] vs)
      then have "dict_get VERDICT_TO_ENUM (fv_status fv) = None" "db' = db1"
        by (auto simp: store_result_def Let_def split: option.splits)
      with verdict_stage_verdict [OF vs] show ?thesis
        by (auto simp: VERDICT_TO_ENUM_def STATUSES_def verdict_stage_def split: if_splits)
    next
      case False
      with failed show ?thesis
        by (auto simp: run_by_diff [OF d] dest: verdict_stage_failed split: prod.splits verdict_source.splits)
    qed
  qed
qed

text \<open>A row comes with an audit row of the machine, and a call to the model with a usage row.\<close>

lemma run_row_effects:
  assumes "run_validation env uc v db = (db', Run_row row)"
  shows "\<exists>a. vb_audits db' = vb_audits db @ [a] \<and> am_vm_id a = vm_id v \<and>
    vb_usage db' = vb_usage db @ (if am_tier a = Tier3 \<and> \<not> am_cached a then [vm_id v] else [])"
proof -
  obtain d f db1 fv cached called where
    vs: "verdict_stage env uc v d f db = (db1, Verdict fv cached called)"
    and st: "store_result v d fv cached called db1 = (db', Run_row row)"
    using assms by (rule run_row_stages)
  from store_result_row [OF st] obtain a where a: "vb_audits db' = vb_audits db1 @ [a]" "am_vm_id a = vm_id v"
    "am_tier a = fv_tier fv" "am_cached a = cached" and usage: "vb_usage db' = vb_usage db1"
    by blast
  from verdict_stage_verdict [OF vs] a usage show ?thesis by (intro exI [of _ a]) simp
qed

text \<open>What the counters of a batch say after some machines were handled, with \<open>u\<close> usage rows before it.\<close>

definition bulk_counted :: "nat \<Rightarrow> nat \<Rightarrow> validation_db \<times> bulk_task \<Rightarrow> bool" where
  "bulk_counted u n acc =
     (case acc of (db, t) \<Rightarrow>
        bk_completed t + bk_failed t = n \<and> total_count (bk_tiers t) = bk_completed t \<and>
        snd (snd (bk_tiers t)) = bk_llm_calls t + bk_cache_hits t \<and>
        length (vb_usage db) = u + bk_llm_calls t)"

lemma count_tier_third: "snd (snd (count_tier t c)) = snd (snd c) + (if t = Tier3 then 1 else 0)"
  by (cases c; cases t) (simp_all add: count_tier_def)

lemma bulk_one_counted:
  assumes "bulk_counted u n (db, t)" and "dict_has (bk_per_vm t) (vm_id v)"
  shows "bulk_counted u (Suc n) (bulk_one env uc v (db, t))"
proof (cases "run_validation (env (vm_id v)) uc v db")
  case (Pair db1 out)
  show ?thesis
  proof (cases out)
    case (Run_row row)
    with Pair run_row_effects obtain a where a: "vb_audits db1 = vb_audits db @ [a]" "am_vm_id a = vm_id v"
      "vb_usage db1 = vb_usage db @ (if am_tier a = Tier3 \<and> \<not> am_cached a then [vm_id v] else [])"
      by metis
    have "read_last_validation_meta db1 (vm_id v) = (am_tier a, am_cached a)"
      by (simp add: read_last_validation_meta_def a)
    then show ?thesis
      using assms a(3)
      by (simp add: Pair Run_row bulk_one_def bulk_counted_def complete_vm_def start_vm_def total_count_tier
          count_tier_third)
  next
    case (Run_error e)
    with Pair have "vb_usage db1 = vb_usage db" by (blast intro: run_failed_usage)
    with assms show ?thesis
      by (simp add: Pair Run_error bulk_one_def bulk_counted_def fail_vm_def start_vm_def)
  next
    case Run_uncaught
    with Pair have "vb_usage db1 = vb_usage db" by (blast intro: run_failed_usage)
    with assms show ?thesis
      by (simp add: Pair Run_uncaught bulk_one_def bulk_counted_def fail_vm_def start_vm_def)
  qed
qed

lemma bulk_one_keys:
  "dict_has (bk_per_vm (snd acc)) w \<Longrightarrow> dict_has (bk_per_vm (snd (bulk_one env uc v acc))) w"
  "bk_total (snd (bulk_one env uc v acc)) = bk_total (snd acc)"
  by (auto simp: bulk_one_def complete_vm_def fail_vm_def start_vm_def
      split: prod.splits run_outcome.splits)

lemma bulk_fold_counted:
  "bulk_counted u n acc \<Longrightarrow> (\<And>v. v \<in> set vms \<Longrightarrow> dict_has (bk_per_vm (snd acc)) (vm_id v)) \<Longrightarrow>
     bulk_counted u (n + length vms) (fold (bulk_one env uc) vms acc) \<and>
     bk_total (snd (fold (bulk_one env uc) vms acc)) = bk_total (snd acc)"
proof (induction vms arbitrary: n acc)
  case (Cons v vms)
  have "bulk_counted u (Suc n) (bulk_one env uc v acc)"
    using Cons.prems bulk_one_counted [of u n "fst acc" "snd acc" v env uc] by simp
  from Cons.IH [OF this bulk_one_keys(1)] Cons.prems show ?case by (simp add: bulk_one_keys)
qed simp

lemma queued_has: "dict_has (bk_per_vm (fold queue_vm vms t)) w \<longleftrightarrow> w \<in> vm_id ` set vms \<or> dict_has (bk_per_vm t) w"
  by (induction vms arbitrary: t) (auto simp: queue_vm_def)

lemma queued_counters:
  "bk_completed (fold queue_vm vms t) = bk_completed t" "bk_failed (fold queue_vm vms t) = bk_failed t"
  "bk_tiers (fold queue_vm vms t) = bk_tiers t" "bk_llm_calls (fold queue_vm vms t) = bk_llm_calls t"
  "bk_cache_hits (fold queue_vm vms t) = bk_cache_hits t" "bk_total (fold queue_vm vms t) = bk_total t"
  by (induction vms arbitrary: t) (simp_all add: queue_vm_def)

lemma run_bulk_counted:
  assumes "run_bulk_validation env uc vids db (new_bulk_task (length (select_vms (vb_vms db) vids))) = (db', t)"
  shows "bk_completed_run t \<and> bk_completed t + bk_failed t = bk_total t \<and>
     total_count (bk_tiers t) = bk_completed t \<and> snd (snd (bk_tiers t)) = bk_llm_calls t + bk_cache_hits t \<and>
     length (vb_usage db') = length (vb_usage db) + bk_llm_calls t \<and> bk_total t = length (select_vms (vb_vms db) vids)"
proof -
  define vms where "vms = select_vms (vb_vms db) vids"
  define acc where "acc = (db, fold queue_vm vms (new_bulk_task (length vms)))"
  have "bulk_counted (length (vb_usage db)) 0 acc"
    by (simp add: acc_def bulk_counted_def queued_counters new_bulk_task_def total_count_def)
  from bulk_fold_counted [OF this, of vms env uc]
  have "bulk_counted (length (vb_usage db)) (length vms) (fold (bulk_one env uc) vms acc)"
      "bk_total (snd (fold (bulk_one env uc) vms acc)) = length vms"
    by (simp_all add: acc_def queued_has queued_counters new_bulk_task_def)
  then show ?thesis
    using assms
    by (auto simp: run_bulk_validation_def Let_def vms_def [symmetric] acc_def [symmetric] bulk_counted_def
        split: prod.splits)
qed

text \<open>
  The counters of a batch are exact, whatever the cache and the model do. When the endpoint
  accepts a request, its background run counts every validatable machine once, as completed or failed,
  the tiers add up to the completed ones, the third tier is the calls plus the cache hits, and the
  calls are the rows of token usage written.
\<close>

theorem bulk_counters_exact:
  assumes "wf_rows (vb_vms db)" and "run_bulk db sc = Inr (validatable, skipped)"
    and "bulk_run env sc db = Inr (db', t)" and "bk_tiers t = (t1, t2, t3)"
  shows "bk_completed_run t \<and> bk_total t = length validatable \<and> bk_completed t + bk_failed t = bk_total t \<and>
     t1 + t2 + t3 = bk_completed t \<and> t3 = bk_llm_calls t + bk_cache_hits t \<and>
     length (vb_usage db') = length (vb_usage db) + bk_llm_calls t"
proof -
  have "length (select_vms (vb_vms db) validatable) = length validatable"
    using run_bulk_selected [OF assms(2,1)] by (metis length_map mset_eq_length)
  moreover from this have "run_bulk_validation env (sc_use_cache sc) validatable db
      (new_bulk_task (length (select_vms (vb_vms db) validatable))) = (db', t)"
    using assms(2,3) by (simp add: bulk_run_def)
  from run_bulk_counted [OF this] have "bk_completed_run t \<and> bk_completed t + bk_failed t = bk_total t \<and>
     t1 + t2 + t3 = bk_completed t \<and> t3 = bk_llm_calls t + bk_cache_hits t \<and>
     length (vb_usage db') = length (vb_usage db) + bk_llm_calls t \<and>
     bk_total t = length (select_vms (vb_vms db) validatable)"
    by (simp add: assms(4) total_count_def)
  ultimately show ?thesis by simp
qed

section \<open>Examples\<close>

definition sample_vm :: "int \<Rightarrow> vm" where
  "sample_vm i = (mk_vm i ''vm'')\<lparr>vm_ip_address := Some ''10.0.0.1''\<rparr>"

text \<open>The state of a machine with one line in the crontab of root.\<close>

definition cron_state :: guest_state where
  "cron_state = empty_state\<lparr>st_cron := \<lparr>gc_users = [(''root'', [''backup''])], gc_system = []\<rparr>\<rparr>"

definition sample_env :: "guest_state \<Rightarrow> (nat \<Rightarrow> reply) \<Rightarrow> int \<Rightarrow> validation_env" where
  "sample_env current chat now = \<lparr>ve_now = now, ve_order = (\<lambda>xs. xs), ve_digest = (\<lambda>(f, d). f), ve_chat = chat,
     ve_collect = (\<lambda>host user. Some current)\<rparr>"

definition sample_db :: validation_db where
  "sample_db = \<lparr>vb_vms = [sample_vm 1, sample_vm 2],
     vb_snapshots = [\<lparr>sn_vm_id = 1, sn_collected_at = 0, sn_raw_data = empty_state\<rparr>,
       \<lparr>sn_vm_id = 2, sn_collected_at = 0, sn_raw_data = empty_state\<rparr>],
     vb_results = [], vb_cache = [], vb_usage = [], vb_audits = [], vb_next_id = 1\<rparr>"

definition says_pass :: "nat \<Rightarrow> reply" where
  "says_pass i = Reply (Some (only_status (J_str ''pass''))) ''m''"

fun row_of :: "run_outcome \<Rightarrow> validation_row option" where
  "row_of (Run_row r) = Some r"
| "row_of _ = None"

lemma quiet_pass_keeps_workload_witness:
  "workload_kept empty_state empty_state"
proof -
  let ?env = "sample_env empty_state says_pass 1"
  let ?out = "run_validation ?env True (sample_vm 1) sample_db"
  have row: "map_option va_status (row_of (snd ?out)) = Some Val_passed"
    "am_tier (last (vb_audits (fst ?out))) = Tier1"
    by code_simp+
  then obtain db r where out: "?out = (db, Run_row r)" and st: "va_status r = Val_passed"
    by (cases ?out; cases "snd ?out") auto
  have bc: "baseline_profile sample_db (sample_vm 1) = Some empty_state"
    "collect_current_state ?env (sample_vm 1) = Inr empty_state"
    by code_simp+
  have "iteration_order (ve_order ?env)" by (simp add: sample_env_def iteration_order_def)
  from quiet_pass_keeps_workload [OF out st _ this] row(2) bc show ?thesis by (simp add: out)
qed

lemma verdict_reused_from_cache_witness:
  "\<exists>db2 r2. run_validation (sample_env cron_state says_pass 60) True (sample_vm 2)
     (fst (run_validation (sample_env cron_state says_pass 5) True (sample_vm 1) sample_db)) = (db2, Run_row r2) \<and>
     va_status r2 = Val_passed"
proof -
  let ?env = "sample_env cron_state says_pass 5"
  let ?out = "run_validation ?env True (sample_vm 1) sample_db"
  let ?d = "compute_diff (\<lambda>xs. xs) empty_state cron_state"
  have row: "map_option va_status (row_of (snd ?out)) = Some Val_passed"
    "am_llm_called (last (vb_audits (fst ?out)))" "\<not> am_needs_manual_review (last (vb_audits (fst ?out)))"
    by code_simp+
  then obtain db r where out: "?out = (db, Run_row r)" and st: "va_status r = Val_passed"
    by (cases ?out; cases "snd ?out") auto
  have d: "diff_of ?env sample_db (sample_vm 1) = Some (?d, Some ''unknown'')"
    "diff_of (sample_env cron_state says_pass 60) (fst ?out) (sample_vm 2) = Some (?d, Some ''unknown'')"
    "tc_verdict (classify_diff ?d (vm_environment (sample_vm 2))) = None"
    by code_simp+
  have "wf_cache (vb_cache sample_db)" by (simp add: sample_db_def wf_cache_def)
  moreover have "ve_digest (sample_env cron_state says_pass 60) = ve_digest ?env"
    "ve_now (sample_env cron_state says_pass 60) < ve_now ?env + DEFAULT_TTL"
    by (simp_all add: sample_env_def DEFAULT_TTL_def)
  ultimately have "\<exists>db2 r2. run_validation (sample_env cron_state says_pass 60) True (sample_vm 2) db = (db2, Run_row r2) \<and>
      va_status r2 = va_status r \<and> va_findings r2 = va_findings r \<and> vb_usage db2 = vb_usage db"
    using row(2,3) d by (intro verdict_reused_from_cache [OF _ d(1) out _ _ _ refl d(3)]) (simp_all add: out)
  then show ?thesis by (auto simp: out st)
qed

text \<open>
  Malformed output of the model strands the task of the manual flow: where the first reply crashes
  the checks, the task stays \<open>running\<close> at 50 percent although no one works on it any more.
\<close>

lemma malformed_output_strands_task:
  "run_validation_task (sample_env cron_state (bad_then_good (only_status (J_list []))) 5) 1 sample_db (new_task 1) =
     (sample_db, (new_task 1)\<lparr>tk_current_step := ''llm_reasoning'', tk_progress := 50\<rparr>)"
  by code_simp

text \<open>Everything, through the cache.\<close>

definition everything :: bulk_scope where
  "everything = \<lparr>sc_vm_ids = [], sc_source_vcenter_id = None, sc_environment = None, sc_application_hint = None,
     sc_only_migrated = False, sc_not_validated_within_hours = None, sc_use_cache = True\<rparr>"

lemma bulk_counters_exact_witness:
  "\<exists>db' t. bulk_run (\<lambda>_. sample_env cron_state says_pass 5) everything sample_db = Inr (db', t) \<and>
     bk_completed t + bk_failed t = 2"
proof -
  let ?run = "bulk_run (\<lambda>_. sample_env cron_state says_pass 5) everything sample_db"
  have bulk: "run_bulk sample_db everything = Inr ([1, 2], [])" and "\<not> isl ?run" by (code_simp+)
  then obtain db' t where run: "?run = Inr (db', t)" by (cases ?run) auto
  obtain t1 t2 t3 where "bk_tiers t = (t1, t2, t3)" by (metis prod.exhaust)
  moreover have "wf_rows (vb_vms sample_db)" by (simp add: wf_rows_def sample_db_def sample_vm_def mk_vm_def)
  ultimately have "bk_total t = 2 \<and> bk_completed t + bk_failed t = bk_total t"
    using bulk_counters_exact [OF _ bulk run] by simp
  with run show ?thesis by simp
qed

end
