(* ===== verification/Target_Mapping.thy ===== *)
theory Target_Mapping
  imports Inventory
begin

text \<open>
  The data of the target side: \<open>ResourceMapping\<close> rows and the clusters they join
  (\<open>app/models/target.py\<close>, JSON columns as the schemas of \<open>app/schemas/target.py\<close> shape them),
  the operator-declared catalogs, the catalog snapshot of \<open>app/core/mapping_catalog.py\<close> and its
  \<open>destination_kind\<close>. An absent or null JSON field is \<open>None\<close>.
\<close>

section \<open>Mapping rows\<close>

record network_row =
  nr_source_network :: "string option"
  nr_target_network_name :: "string option"
  nr_target_network_type :: "string option"
  nr_target_namespace :: "string option"
  nr_ignored :: bool

record storage_row =
  sr_source_datastore :: "string option"
  sr_target_storage_class :: "string option"
  sr_access_mode :: "string option"
  sr_volume_mode :: "string option"

record criteria_row =
  cr_criteria :: "string option"
  cr_criteria_value :: "string option"
  cr_target_namespace :: "string option"

record namespace_strategy =
  ns_strategy :: "string option"
  ns_single_namespace :: "string option"
  ns_per_env_namespaces :: "(string \<times> string option) list"
  ns_per_app_prefix :: "string option"

text \<open>The legacy list of criteria rows, or a strategy object.\<close>

datatype namespace_mappings = Criteria_rows "criteria_row list" | Strategy namespace_strategy

record resource_mapping =
  rm_id :: int
  rm_vcenter_source_id :: int
  rm_ocp_target_id :: int
  rm_network_mappings :: "network_row list"
  rm_storage_mappings :: "storage_row list"
  rm_namespace_mappings :: namespace_mappings

section \<open>Cluster catalogs\<close>

record ocp_target =
  ot_id :: int
  ot_name :: string

record target_network =
  tn_id :: int
  tn_ocp_target_id :: int
  tn_name :: string
  tn_network_type :: string
  tn_namespace :: "string option"
  tn_role :: "string option"
  tn_topology :: "string option"

record target_storage_class =
  ts_ocp_target_id :: int
  ts_name :: string
  ts_access_mode :: string
  ts_volume_mode :: "string option"
  ts_copy_offload_vendor :: "string option"
  ts_copy_offload_secret :: "string option"

text \<open>The tables the target resolution reads.\<close>

record target_db =
  td_mappings :: "resource_mapping list"
  td_clusters :: "ocp_target list"
  td_networks :: "target_network list"
  td_storage_classes :: "target_storage_class list"

section \<open>The catalog snapshot\<close>

text \<open>
  Of a snapshot's network and storage-class dicts only the keys that decide a destination are
  kept.
\<close>

record network_attrs =
  na_network_type :: "string option"
  na_role :: "string option"
  na_topology :: "string option"

record storage_attrs =
  sa_access_mode :: "string option"
  sa_volume_mode :: "string option"
  sa_copy_offload_vendor :: "string option"
  sa_copy_offload_secret :: "string option"

record catalog_snapshot =
  cs_ocp_target_id :: "int option"
  cs_networks :: "(string \<times> network_attrs) list"
  cs_storage_classes :: "(string \<times> storage_attrs) list"

definition catalog_network :: "catalog_snapshot \<Rightarrow> string option \<Rightarrow> network_attrs option" where
  "catalog_network cat name = (if truthy name then dict_get (cs_networks cat) (or_empty name) else None)"

definition catalog_storage_class :: "catalog_snapshot \<Rightarrow> string option \<Rightarrow> storage_attrs option" where
  "catalog_storage_class cat name =
     (if truthy name then dict_get (cs_storage_classes cat) (or_empty name) else None)"

definition catalog_attrs :: "target_network \<Rightarrow> network_attrs" where
  "catalog_attrs n = \<lparr>na_network_type = Some (tn_network_type n), na_role = tn_role n, na_topology = tn_topology n\<rparr>"

definition storage_attrs_of :: "target_storage_class \<Rightarrow> storage_attrs" where
  "storage_attrs_of s = \<lparr>sa_access_mode = Some (ts_access_mode s), sa_volume_mode = ts_volume_mode s,
     sa_copy_offload_vendor = ts_copy_offload_vendor s, sa_copy_offload_secret = ts_copy_offload_secret s\<rparr>"

definition load_catalog :: "target_db \<Rightarrow> int option \<Rightarrow> catalog_snapshot option" where
  "load_catalog db ocp_target_id =
     (case ocp_target_id of
        None \<Rightarrow> None
      | Some tid \<Rightarrow>
          if List.find (\<lambda>t. ot_id t = tid) (td_clusters db) = None then None
          else Some \<lparr>cs_ocp_target_id = Some tid,
            cs_networks = dict_of tn_name catalog_attrs
              (filter (\<lambda>n. tn_ocp_target_id n = tid) (td_networks db)),
            cs_storage_classes = dict_of ts_name storage_attrs_of
              (filter (\<lambda>s. ts_ocp_target_id s = tid) (td_storage_classes db))\<rparr>)"

definition load_step ::
  "target_db \<Rightarrow> resource_mapping \<Rightarrow> (int \<times> catalog_snapshot) list \<Rightarrow> (int \<times> catalog_snapshot) list" where
  "load_step db m out =
     (let tid = rm_ocp_target_id m
      in if dict_has out tid then out
         else (case load_catalog db (Some tid) of None \<Rightarrow> out | Some snap \<Rightarrow> dict_set tid snap out))"

definition load_catalogs_for :: "target_db \<Rightarrow> resource_mapping list \<Rightarrow> (int \<times> catalog_snapshot) list" where
  "load_catalogs_for db mappings = fold (load_step db) mappings []"

text \<open>\<open>a or b\<close> on optional strings: the empty string counts as absent.\<close>

definition or_else :: "string option \<Rightarrow> string option \<Rightarrow> string option" where
  "or_else a b = (if truthy a then a else b)"

definition destination_kind :: "network_attrs option \<Rightarrow> string option \<Rightarrow> string" where
  "destination_kind network row_type =
     (let ntype = or_empty (or_else (Option.bind network na_network_type) (or_else row_type (Some ''nad'')))
      in if ntype = ''pod'' then ''pod''
         else if ntype \<in> set [''udn'', ''cudn''] \<and> Option.bind network na_role = Some ''primary''
           then ''primary_udn''
         else if Option.bind network na_topology = Some ''localnet'' then ''localnet''
         else ''multus'')"

section \<open>Facts\<close>

lemma truthy_simps [simp]: "\<not> truthy None" "truthy (Some s) \<longleftrightarrow> s \<noteq> []"
  by (simp_all add: truthy_def)

lemma truthy_or_else [simp]: "truthy (or_else a b) \<longleftrightarrow> truthy a \<or> truthy b"
  by (simp add: or_else_def)

lemma truthyE:
  assumes "truthy x"
  obtains s where "x = Some s" "s \<noteq> []"
  using assms by (cases x) auto

end
