(* ===== verification/Mapping_Resolver.thy ===== *)
theory Mapping_Resolver
  imports Target_Mapping
begin

text \<open>
  \<open>MappingResolver\<close> of \<open>app/core/mtv.py\<close>: where a source network, a source datastore and a VM
  go under one resource mapping. The first row of a source decides. The VM comes as the flat
  payload \<open>_vm_payload\<close> of \<open>app/core/plan_pipeline.py\<close> builds, with the empty string for an
  absent field.
\<close>

record mapping_resolver =
  mr_network_mappings :: "network_row list"
  mr_storage_mappings :: "storage_row list"
  mr_namespace_mappings :: namespace_mappings
  mr_catalog :: "catalog_snapshot option"

record vm_payload =
  vp_name :: string
  vp_moref :: string
  vp_vsphere_networks :: "string list"
  vp_vsphere_datastores :: "string list"
  vp_environment :: string
  vp_application_hint :: string
  vp_target_namespace :: string
  vp_vcenter_folder :: string
  vp_target_storage_class :: string
  vp_target_network_attachment :: string

section \<open>Constants of the forklift schemas\<close>

definition STORAGE_ACCESS_MODES :: "string list" where
  "STORAGE_ACCESS_MODES = [''ReadWriteOnce'', ''ReadWriteMany'', ''ReadOnlyMany'']"

definition VOLUME_MODES :: "string list" where
  "VOLUME_MODES = [''Filesystem'', ''Block'']"

definition COPY_OFFLOAD_VENDORS :: "string list" where
  "COPY_OFFLOAD_VENDORS = [''flashsystem'', ''vantara'', ''ontap'', ''primera3par'', ''pureFlashArray'',
     ''powerflex'', ''powermax'', ''powerstore'', ''infinibox'']"

section \<open>Namespaces\<close>

text \<open>The slug loop: the flag remembers that the last character written was a dash.\<close>

fun slugify_chars :: "bool \<Rightarrow> string \<Rightarrow> string" where
  "slugify_chars last_dash [] = []"
| "slugify_chars last_dash (c # cs) =
     (if is_alnum c then c # slugify_chars False cs
      else if \<not> last_dash then CHR ''-'' # slugify_chars True cs
      else slugify_chars last_dash cs)"

definition slugify :: "string \<Rightarrow> string" where
  "slugify value =
     (let slug = strip_by (\<lambda>c. c = CHR ''-'') (slugify_chars False (str_lower value))
      in if slug = [] then ''unassigned'' else slug)"

definition none_if_empty :: "string option \<Rightarrow> string option" where
  "none_if_empty s = (if truthy s then s else None)"

definition same_label :: "string \<Rightarrow> string \<Rightarrow> bool" where
  "same_label env key \<longleftrightarrow> str_lower (str_strip key) = env"

definition resolve_strategy :: "namespace_strategy \<Rightarrow> vm_payload \<Rightarrow> string option" where
  "resolve_strategy strategy vm =
     (let kind = str_lower (or_empty (ns_strategy strategy))
      in if kind = ''single'' then none_if_empty (ns_single_namespace strategy)
         else if kind = ''per_environment'' then
           (let env = str_lower (str_strip (vp_environment vm))
            in case List.find (\<lambda>(key, ns). same_label env key) (ns_per_env_namespaces strategy) of
                 Some (_, ns) \<Rightarrow> none_if_empty ns
               | None \<Rightarrow> None)
         else if kind = ''per_application'' then
           (let pre = or_empty (or_else (ns_per_app_prefix strategy) (Some ''app''));
                app = str_strip (vp_application_hint vm)
            in if app = [] then Some ''unassigned-vms''
               else Some (pre @ ''-'' @ slugify app @ ''-vms''))
         else None)"

definition criteria_match :: "criteria_row \<Rightarrow> vm_payload \<Rightarrow> bool" where
  "criteria_match entry vm =
     (let crit = or_empty (or_else (cr_criteria entry) (Some ''default''));
          value = or_empty (cr_criteria_value entry)
      in truthy (cr_target_namespace entry) \<and>
         (crit = ''default''
          \<or> (crit = ''environment'' \<and> vp_environment vm = value)
          \<or> (crit = ''application'' \<and> vp_application_hint vm = value)
          \<or> (crit = ''vcenter_folder'' \<and> vp_vcenter_folder vm = value)))"

definition resolve_namespace :: "mapping_resolver \<Rightarrow> vm_payload \<Rightarrow> string option" where
  "resolve_namespace r vm =
     (case mr_namespace_mappings r of
        Strategy nm \<Rightarrow> resolve_strategy nm vm
      | Criteria_rows rows \<Rightarrow>
          Option.bind (List.find (\<lambda>entry. criteria_match entry vm) rows) cr_target_namespace)"

section \<open>Networks\<close>

definition network_row_of :: "mapping_resolver \<Rightarrow> string \<Rightarrow> network_row option" where
  "network_row_of r src = List.find (\<lambda>e. nr_source_network e = Some src) (mr_network_mappings r)"

definition storage_row_of :: "mapping_resolver \<Rightarrow> string \<Rightarrow> storage_row option" where
  "storage_row_of r src = List.find (\<lambda>e. sr_source_datastore e = Some src) (mr_storage_mappings r)"

record mapped_network =
  mn_name :: string
  mn_namespace :: string
  mn_type :: string
  mn_kind :: string

definition resolve_network :: "mapping_resolver \<Rightarrow> string \<Rightarrow> mapped_network option" where
  "resolve_network r src =
     (case network_row_of r src of
        None \<Rightarrow> None
      | Some entry \<Rightarrow>
          if nr_ignored entry
          then Some \<lparr>mn_name = [], mn_namespace = [], mn_type = ''ignored'', mn_kind = ''ignored''\<rparr>
          else if \<not> truthy (nr_target_network_name entry) then None
          else
            (let name = or_empty (nr_target_network_name entry);
                 row_type = or_else (nr_target_network_type entry) (Some ''nad'');
                 net = Option.bind (mr_catalog r) (\<lambda>cat. catalog_network cat (Some name))
             in Some \<lparr>mn_name = name, mn_namespace = or_empty (nr_target_namespace entry),
                  mn_type = or_empty (or_else (Option.bind net na_network_type) row_type),
                  mn_kind = destination_kind net row_type\<rparr>))"

section \<open>Storage\<close>

definition resolve_storage :: "mapping_resolver \<Rightarrow> string \<Rightarrow> string option" where
  "resolve_storage r src = none_if_empty (Option.bind (storage_row_of r src) sr_target_storage_class)"

definition catalog_sc :: "mapping_resolver \<Rightarrow> string \<Rightarrow> storage_attrs option" where
  "catalog_sc r src =
     Option.bind (mr_catalog r) (\<lambda>cat. catalog_storage_class cat (resolve_storage r src))"

definition known_mode :: "string list \<Rightarrow> string option \<Rightarrow> string option" where
  "known_mode modes mode = (if or_empty mode \<in> set modes then mode else None)"

definition resolve_access_mode :: "mapping_resolver \<Rightarrow> string \<Rightarrow> string option" where
  "resolve_access_mode r src =
     (case storage_row_of r src of
        None \<Rightarrow> None
      | Some entry \<Rightarrow> known_mode STORAGE_ACCESS_MODES
          (or_else (sr_access_mode entry) (Option.bind (catalog_sc r src) sa_access_mode)))"

definition resolve_volume_mode :: "mapping_resolver \<Rightarrow> string \<Rightarrow> string option" where
  "resolve_volume_mode r src =
     (case storage_row_of r src of
        None \<Rightarrow> None
      | Some entry \<Rightarrow> known_mode VOLUME_MODES
          (or_else (sr_volume_mode entry) (Option.bind (catalog_sc r src) sa_volume_mode)))"

record offload_config =
  oc_secret_ref :: string
  oc_vendor_product :: string

definition resolve_offload :: "mapping_resolver \<Rightarrow> string \<Rightarrow> offload_config option" where
  "resolve_offload r src =
     (let vendor = Option.bind (catalog_sc r src) sa_copy_offload_vendor;
          secret = Option.bind (catalog_sc r src) sa_copy_offload_secret
      in if \<not> truthy vendor \<or> \<not> truthy secret \<or> or_empty vendor \<notin> set COPY_OFFLOAD_VENDORS then None
         else Some \<lparr>oc_secret_ref = or_empty secret, oc_vendor_product = or_empty vendor\<rparr>)"

section \<open>Facts\<close>

lemma none_if_empty_Some: "none_if_empty s = Some x \<longleftrightarrow> s = Some x \<and> x \<noteq> []"
  by (cases s) (auto simp: none_if_empty_def)

lemma none_if_empty_None [simp]: "none_if_empty s = None \<longleftrightarrow> \<not> truthy s"
  by (cases s) (auto simp: none_if_empty_def)

lemma resolve_storage_nonempty: "resolve_storage r src = Some sc \<Longrightarrow> sc \<noteq> []"
  by (auto simp: resolve_storage_def none_if_empty_Some)

lemma resolve_strategy_nonempty: "resolve_strategy s vm = Some ns \<Longrightarrow> ns \<noteq> []"
  by (auto simp: resolve_strategy_def Let_def none_if_empty_Some split: if_splits option.splits prod.splits)

lemma resolve_namespace_nonempty: "resolve_namespace r vm = Some ns \<Longrightarrow> ns \<noteq> []"
proof (cases "mr_namespace_mappings r")
  case (Criteria_rows rows)
  assume "resolve_namespace r vm = Some ns"
  with Criteria_rows obtain e where "List.find (\<lambda>entry. criteria_match entry vm) rows = Some e"
      "cr_target_namespace e = Some ns"
    by (auto simp: resolve_namespace_def bind_eq_Some_conv)
  then have "criteria_match e vm" by (auto simp: find_Some_iff)
  with \<open>cr_target_namespace e = Some ns\<close> show "ns \<noteq> []" by (simp add: criteria_match_def Let_def)
qed (auto simp: resolve_namespace_def dest: resolve_strategy_nonempty)

lemma destination_kind_cases:
  "destination_kind net t \<in> {''pod'', ''primary_udn'', ''localnet'', ''multus''}"
  by (auto simp: destination_kind_def Let_def)

lemma resolve_network_named:
  assumes "resolve_network r src = Some m" and "mn_kind m \<noteq> ''ignored''"
  shows "mn_name m \<noteq> []"
  using assms by (auto simp: resolve_network_def Let_def split: option.splits if_splits elim: truthyE)

end
