(* ===== verification/Target_Resolution.thy ===== *)
theory Target_Resolution
  imports Mapping_Resolver
begin

text \<open>
  \<open>app/core/target_resolution.py\<close>: where one VM lands, read from its overrides, the resource
  mapping of its (vCenter, cluster) pair and the cluster catalogs. \<open>resolve_vms_bulk\<close> loads the
  caches once for many VMs.
\<close>

section \<open>Results\<close>

record resolved_network =
  rn_source :: string
  rn_target_network_id :: "int option"
  rn_target_network_name :: "string option"
  rn_target_network_namespace :: "string option"
  rn_target_network_type :: "string option"
  rn_destination_kind :: "string option"
  rn_ignored :: bool

definition blank_network :: "string \<Rightarrow> resolved_network" where
  "blank_network src = \<lparr>rn_source = src, rn_target_network_id = None, rn_target_network_name = None,
     rn_target_network_namespace = None, rn_target_network_type = None, rn_destination_kind = None,
     rn_ignored = False\<rparr>"

definition network_is_resolved :: "resolved_network \<Rightarrow> bool" where
  "network_is_resolved n \<longleftrightarrow>
     rn_ignored n \<or> rn_target_network_type n = Some ''pod'' \<or> truthy (rn_target_network_name n)"

record resolved_storage =
  rs_source :: string
  rs_target_storage_class_name :: "string option"
  rs_access_mode :: "string option"
  rs_volume_mode :: "string option"

definition blank_storage :: "string \<Rightarrow> resolved_storage" where
  "blank_storage src = \<lparr>rs_source = src, rs_target_storage_class_name = None, rs_access_mode = None,
     rs_volume_mode = None\<rparr>"

definition storage_is_resolved :: "resolved_storage \<Rightarrow> bool" where
  "storage_is_resolved s \<longleftrightarrow> truthy (rs_target_storage_class_name s)"

datatype gap_reason =
    Unknown_cluster int
  | No_source_vcenter
  | No_mapping_for_vcenter int
  | Several_clusters "string list"
  | No_mapping_for_pair "int option" int
  | Strategy_without_namespace
  | No_namespace_without_mapping
  | Network_without_namespace string
  | Network_not_mapped string
  | Datastore_not_mapped string

record resolved_target =
  rt_cluster_id :: "int option"
  rt_cluster_name :: "string option"
  rt_namespace :: "string option"
  rt_networks :: "resolved_network list"
  rt_storage :: "resolved_storage list"
  rt_mapping_id :: "int option"
  rt_is_complete :: bool
  rt_reasons :: "gap_reason list"

section \<open>Caches\<close>

record resolver_caches =
  rc_mappings_by_vcenter :: "(int \<times> resource_mapping list) list"
  rc_mappings_by_pair :: "((int \<times> int) \<times> resource_mapping) list"
  rc_clusters :: "(int \<times> ocp_target) list"
  rc_networks_by_cluster :: "(int \<times> (string \<times> target_network) list) list"
  rc_storage_by_cluster :: "(int \<times> (string \<times> target_storage_class) list) list"

fun index_networks :: "int \<times> target_network list \<Rightarrow> int \<times> (string \<times> target_network) list" where
  "index_networks (cid, ns) = (cid, dict_of tn_name id ns)"

fun index_storage :: "int \<times> target_storage_class list \<Rightarrow> int \<times> (string \<times> target_storage_class) list" where
  "index_storage (cid, ss) = (cid, dict_of ts_name id ss)"

text \<open>The callers load every row; the namespaces cache is not read by the resolver.\<close>

definition load_caches :: "target_db \<Rightarrow> resolver_caches" where
  "load_caches db = \<lparr>rc_mappings_by_vcenter = group_by_key rm_vcenter_source_id (td_mappings db),
     rc_mappings_by_pair = dict_of (\<lambda>m. (rm_vcenter_source_id m, rm_ocp_target_id m)) id (td_mappings db),
     rc_clusters = dict_of ot_id id (td_clusters db),
     rc_networks_by_cluster = map index_networks (group_by_key tn_ocp_target_id (td_networks db)),
     rc_storage_by_cluster = map index_storage (group_by_key ts_ocp_target_id (td_storage_classes db))\<rparr>"

section \<open>Cluster and namespace\<close>

definition cluster_label :: "resolver_caches \<Rightarrow> resource_mapping \<Rightarrow> string" where
  "cluster_label caches m =
     (case dict_get (rc_clusters caches) (rm_ocp_target_id m) of
        Some c \<Rightarrow> ot_name c | None \<Rightarrow> show_int (rm_ocp_target_id m))"

definition resolve_cluster :: "vm \<Rightarrow> resolver_caches \<Rightarrow> int option \<times> gap_reason option" where
  "resolve_cluster v caches =
     (case vm_target_cluster_id_override v of
        Some c \<Rightarrow> (Some c, None)
      | None \<Rightarrow>
          (case vm_source_vcenter_id v of
             None \<Rightarrow> (None, Some No_source_vcenter)
           | Some vc \<Rightarrow>
               (case dict_get_or (rc_mappings_by_vcenter caches) vc [] of
                  [] \<Rightarrow> (None, Some (No_mapping_for_vcenter vc))
                | [m] \<Rightarrow> (Some (rm_ocp_target_id m), None)
                | ms \<Rightarrow> (None, Some (Several_clusters (sort (map (cluster_label caches) ms)))))))"

definition vm_matches :: "vm \<Rightarrow> criteria_row \<Rightarrow> bool" where
  "vm_matches v entry \<longleftrightarrow>
     (let crit = or_empty (or_else (cr_criteria entry) (Some ''default''));
          value = or_empty (cr_criteria_value entry)
      in truthy (cr_target_namespace entry) \<and>
         (crit = ''default''
          \<or> (crit = ''environment'' \<and> or_empty (vm_environment v) = value)
          \<or> (crit = ''application'' \<and> or_empty (vm_application_hint v) = value)
          \<or> (crit = ''vcenter_folder'' \<and> or_empty (vm_vsphere_folder v) = value)))"

definition resolve_namespace_via_strategy :: "namespace_mappings \<Rightarrow> vm \<Rightarrow> string option" where
  "resolve_namespace_via_strategy nm v =
     (case nm of
        Strategy st \<Rightarrow>
          (let kind = str_lower (or_empty (ns_strategy st))
           in if kind = ''single'' then none_if_empty (ns_single_namespace st)
              else if kind = ''per_environment'' then
                (let env = str_lower (str_strip (or_empty (vm_environment v)))
                 in case List.find (\<lambda>(key, ns). same_label env key) (ns_per_env_namespaces st) of
                      Some (_, ns) \<Rightarrow> none_if_empty ns
                    | None \<Rightarrow> None)
              else if kind = ''per_application'' then
                (let pre = or_empty (or_else (ns_per_app_prefix st) (Some ''app''));
                     app = str_strip (or_empty (vm_application_hint v))
                 in if app = [] then Some ''unassigned-vms''
                    else Some (pre @ ''-'' @ slugify app @ ''-vms''))
              else None)
      | Criteria_rows rows \<Rightarrow> Option.bind (List.find (vm_matches v) rows) cr_target_namespace)"

section \<open>Networks and storage\<close>

definition network_index :: "resource_mapping option \<Rightarrow> (string \<times> network_row) list" where
  "network_index mapping =
     (case mapping of
        None \<Rightarrow> []
      | Some m \<Rightarrow> dict_of (\<lambda>e. or_empty (nr_source_network e)) id
          (filter (\<lambda>e. truthy (nr_source_network e)) (rm_network_mappings m)))"

definition storage_index :: "resource_mapping option \<Rightarrow> (string \<times> storage_row) list" where
  "storage_index mapping =
     (case mapping of
        None \<Rightarrow> []
      | Some m \<Rightarrow> dict_of (\<lambda>e. or_empty (sr_source_datastore e)) id
          (filter (\<lambda>e. truthy (sr_source_datastore e)) (rm_storage_mappings m)))"

definition mapped_target ::
  "(string \<times> target_network) list \<Rightarrow> network_row \<Rightarrow> resolved_network \<Rightarrow> resolved_network \<times> gap_reason list" where
  "mapped_target catalog entry net =
     (let tgt_name = str_strip (or_empty (nr_target_network_name entry));
          tgt_type = none_if_empty (Some (str_strip (or_empty (nr_target_network_type entry))))
      in if tgt_name \<noteq> [] then
           (let hit = dict_get catalog tgt_name;
                ntype = (if tgt_type = None then map_option tn_network_type hit else tgt_type);
                inline_namespace = none_if_empty (Some (str_strip (or_empty (nr_target_namespace entry))));
                kind = destination_kind (map_option catalog_attrs hit) ntype;
                namespaceless = kind \<in> set [''pod'', ''primary_udn''];
                ns = (if namespaceless then None else or_else inline_namespace (Option.bind hit tn_namespace))
            in (net\<lparr>rn_target_network_id := map_option tn_id hit, rn_target_network_name := Some tgt_name,
                  rn_target_network_namespace := ns, rn_target_network_type := ntype,
                  rn_destination_kind := Some kind\<rparr>,
                if \<not> truthy ns \<and> \<not> namespaceless \<and> str_lower (or_empty ntype) \<noteq> ''cudn''
                then [Network_without_namespace tgt_name] else []))
         else if str_lower (or_empty tgt_type) = ''pod''
           then (net\<lparr>rn_target_network_type := Some ''pod'', rn_destination_kind := Some ''pod''\<rparr>, [])
         else (net, []))"

definition resolve_source_network ::
  "(string \<times> network_row) list \<Rightarrow> (string \<times> target_network) list \<Rightarrow> bool \<Rightarrow> string
     \<Rightarrow> resolved_network \<times> gap_reason list" where
  "resolve_source_network index catalog has_mapping src =
     (let entry = dict_get index src; net = blank_network src
      in if (\<exists>e\<in>set_option entry. nr_ignored e)
         then (net\<lparr>rn_ignored := True, rn_destination_kind := Some ''ignored''\<rparr>, [])
         else (case (case entry of None \<Rightarrow> (net, []) | Some e \<Rightarrow> mapped_target catalog e net) of
             (net, reasons) \<Rightarrow>
               (net, reasons @ (if \<not> network_is_resolved net \<and> has_mapping then [Network_not_mapped src] else []))))"

definition mapped_class ::
  "(string \<times> target_storage_class) list \<Rightarrow> storage_row \<Rightarrow> resolved_storage \<Rightarrow> resolved_storage" where
  "mapped_class catalog entry stor =
     (let tgt_sc = str_strip (or_empty (sr_target_storage_class entry)); hit = dict_get catalog tgt_sc
      in if tgt_sc = [] then stor
         else stor\<lparr>rs_target_storage_class_name := Some tgt_sc,
                rs_access_mode := (if truthy (sr_access_mode entry) then sr_access_mode entry
                  else map_option ts_access_mode hit),
                rs_volume_mode := or_else (sr_volume_mode entry) (Option.bind hit ts_volume_mode)\<rparr>)"

definition resolve_source_datastore ::
  "(string \<times> storage_row) list \<Rightarrow> (string \<times> target_storage_class) list \<Rightarrow> bool \<Rightarrow> string
     \<Rightarrow> resolved_storage \<times> gap_reason list" where
  "resolve_source_datastore index catalog has_mapping src =
     (let stor = (case dict_get index src of None \<Rightarrow> blank_storage src
                  | Some e \<Rightarrow> mapped_class catalog e (blank_storage src))
      in (stor, if \<not> storage_is_resolved stor \<and> has_mapping then [Datastore_not_mapped src] else []))"

section \<open>One VM, many VMs\<close>

definition nonempty_strings :: "string list \<Rightarrow> string list" where
  "nonempty_strings xs = filter (\<lambda>s. s \<noteq> []) xs"

definition pair_mapping :: "resolver_caches \<Rightarrow> vm \<Rightarrow> int \<Rightarrow> resource_mapping option" where
  "pair_mapping caches v cluster_id =
     Option.bind (vm_source_vcenter_id v) (\<lambda>vc. dict_get (rc_mappings_by_pair caches) (vc, cluster_id))"

definition resolve_vm_namespace :: "vm \<Rightarrow> resource_mapping option \<Rightarrow> string option \<times> gap_reason list" where
  "resolve_vm_namespace v mapping =
     (if truthy (vm_target_namespace_override v) then (vm_target_namespace_override v, [])
      else (case mapping of
          None \<Rightarrow> (None, [No_namespace_without_mapping])
        | Some m \<Rightarrow>
            (let ns = resolve_namespace_via_strategy (rm_namespace_mappings m) v
             in (ns, if \<not> truthy ns then [Strategy_without_namespace] else []))))"

definition resolve_on_cluster :: "vm \<Rightarrow> resolver_caches \<Rightarrow> int \<Rightarrow> resolved_target" where
  "resolve_on_cluster v caches cid =
     (let cluster = dict_get (rc_clusters caches) cid;
          mapping = pair_mapping caches v cid;
          (ns, ns_reasons) = resolve_vm_namespace v mapping;
          nets = map (resolve_source_network (network_index mapping)
            (dict_get_or (rc_networks_by_cluster caches) cid []) (mapping \<noteq> None))
            (nonempty_strings (vm_vsphere_networks v));
          stores = map (resolve_source_datastore (storage_index mapping)
            (dict_get_or (rc_storage_by_cluster caches) cid []) (mapping \<noteq> None))
            (nonempty_strings (vm_vsphere_datastores v))
      in \<lparr>rt_cluster_id = Some cid, rt_cluster_name = map_option ot_name cluster, rt_namespace = ns,
          rt_networks = map fst nets, rt_storage = map fst stores, rt_mapping_id = map_option rm_id mapping,
          rt_is_complete = truthy ns \<and> list_all network_is_resolved (map fst nets) \<and>
            list_all storage_is_resolved (map fst stores) \<and> mapping \<noteq> None,
          rt_reasons = (if cluster = None then [Unknown_cluster cid] else []) @
            (if mapping = None then [No_mapping_for_pair (vm_source_vcenter_id v) cid] else []) @
            ns_reasons @ concat (map snd nets) @ concat (map snd stores)\<rparr>)"

definition resolve_vm_with_caches :: "vm \<Rightarrow> resolver_caches \<Rightarrow> resolved_target" where
  "resolve_vm_with_caches v caches =
     (case resolve_cluster v caches of
        (Some cid, None) \<Rightarrow> resolve_on_cluster v caches cid
      | (cluster_id, gap) \<Rightarrow>
          \<lparr>rt_cluster_id = cluster_id, rt_cluster_name = None, rt_namespace = None,
           rt_networks = map blank_network (nonempty_strings (vm_vsphere_networks v)),
           rt_storage = map blank_storage (nonempty_strings (vm_vsphere_datastores v)),
           rt_mapping_id = None, rt_is_complete = False,
           rt_reasons = (case gap of None \<Rightarrow> [] | Some r \<Rightarrow> [r])\<rparr>)"

definition resolve_vm_target :: "vm \<Rightarrow> target_db \<Rightarrow> resolved_target" where
  "resolve_vm_target v db = resolve_vm_with_caches v (load_caches db)"

definition resolve_vms_iter :: "vm list \<Rightarrow> target_db \<Rightarrow> (int \<times> resolved_target) list" where
  "resolve_vms_iter vms db =
     (let caches = load_caches db in dict_of vm_id (\<lambda>v. resolve_vm_with_caches v caches) vms)"

definition resolve_vms_bulk :: "int list \<Rightarrow> vm list \<Rightarrow> target_db \<Rightarrow> (int \<times> resolved_target) list" where
  "resolve_vms_bulk vm_ids rows db =
     (if vm_ids = [] then []
      else (let caches = load_caches db
            in dict_of vm_id (\<lambda>v. resolve_vm_with_caches v caches) (select_vms rows vm_ids)))"

section \<open>Facts\<close>

lemma dict_get_map_index:
  "dict_get (map index_networks d) k = map_option (dict_of tn_name id) (dict_get d k)"
  "dict_get (map index_storage e) k = map_option (dict_of ts_name id) (dict_get e k)"
  by (induction d; force) (induction e; force)

lemma resolve_cluster_cases:
  "(\<exists>c. resolve_cluster v caches = (Some c, None)) \<or> (\<exists>g. resolve_cluster v caches = (None, Some g))"
  by (auto simp: resolve_cluster_def split: option.split list.split)

lemma network_gap_reported:
  assumes "snd (resolve_source_network index catalog True src) = []"
  shows "network_is_resolved (fst (resolve_source_network index catalog True src))"
  using assms by (auto simp: resolve_source_network_def Let_def network_is_resolved_def split: prod.splits if_splits)

lemma storage_gap_reported:
  assumes "snd (resolve_source_datastore index catalog True src) = []"
  shows "storage_is_resolved (fst (resolve_source_datastore index catalog True src))"
  using assms by (auto simp: resolve_source_datastore_def Let_def split: if_splits)

text \<open>
  An incomplete resolution says why. Whenever a VM is not completely resolved, at least one
  gap is reported.
\<close>

theorem incomplete_has_reason:
  "rt_is_complete (resolve_vm_target v db) \<or> rt_reasons (resolve_vm_target v db) \<noteq> []"
proof (cases "resolve_cluster v (load_caches db)")
  case (Pair c g)
  let ?m = "pair_mapping (load_caches db) v (the c)"
  consider (cluster) cid where "c = Some cid" "g = None" | (gap) r where "c = None" "g = Some r"
    using resolve_cluster_cases [of v "load_caches db"] Pair by auto
  then show ?thesis
  proof cases
    case cluster
    show ?thesis
    proof (cases ?m)
      case None
      with cluster Pair show ?thesis
        by (auto simp: resolve_vm_target_def resolve_vm_with_caches_def resolve_on_cluster_def Let_def split: prod.split)
    next
      case (Some m)
      have "truthy (fst (resolve_vm_namespace v ?m)) \<or> snd (resolve_vm_namespace v ?m) \<noteq> []"
        using Some by (simp add: resolve_vm_namespace_def Let_def)
      with Some cluster Pair show ?thesis
        unfolding resolve_vm_target_def resolve_vm_with_caches_def resolve_on_cluster_def Let_def
        by (auto simp: list_all_iff network_gap_reported storage_gap_reported split: prod.split)
    qed
  next
    case gap
    with Pair show ?thesis by (simp add: resolve_vm_target_def resolve_vm_with_caches_def)
  qed
qed

end
