(* ===== verification/Mapping_Validation.thy ===== *)
theory Mapping_Validation
  imports Mapping_Resolver
begin

text \<open>
  Stage 0, \<open>app/core/mapping_validation.py\<close>: every VM of a selection must have a target
  namespace, a target for each of its networks and datastores and at least one datastore. Gaps
  carry their kind; the printed text is not modelled.
\<close>

datatype gap_kind =
    Gap_network string
  | Gap_datastore string
  | Gap_namespace
  | Gap_no_mapping int
  | Gap_no_datastore

record mapping_gap =
  mg_vm_id :: int
  mg_vm_name :: string
  mg_kind :: gap_kind

definition gap_of :: "vm \<Rightarrow> gap_kind \<Rightarrow> mapping_gap" where
  "gap_of v k = \<lparr>mg_vm_id = vm_id v, mg_vm_name = vm_name v, mg_kind = k\<rparr>"

definition is_blank :: "string option \<Rightarrow> bool" where
  "is_blank s \<longleftrightarrow> str_strip (or_empty s) = []"

definition mapped_networks :: "resource_mapping option \<Rightarrow> string list" where
  "mapped_networks mapping =
     (case mapping of
        None \<Rightarrow> []
      | Some m \<Rightarrow> map (\<lambda>e. or_empty (nr_source_network e))
          (filter (\<lambda>e. truthy (nr_source_network e) \<and> (\<not> is_blank (nr_target_network_name e) \<or> nr_ignored e))
            (rm_network_mappings m)))"

definition mapped_datastores :: "resource_mapping option \<Rightarrow> string list" where
  "mapped_datastores mapping =
     (case mapping of
        None \<Rightarrow> []
      | Some m \<Rightarrow> map (\<lambda>e. or_empty (sr_source_datastore e))
          (filter (\<lambda>e. truthy (sr_source_datastore e) \<and> \<not> is_blank (sr_target_storage_class e))
            (rm_storage_mappings m)))"

definition vm_to_resolver_payload :: "vm \<Rightarrow> vm_payload" where
  "vm_to_resolver_payload v =
     \<lparr>vp_name = [], vp_moref = [], vp_vsphere_networks = [], vp_vsphere_datastores = [],
      vp_environment = str_strip (or_empty (vm_environment v)),
      vp_application_hint = str_strip (or_empty (vm_application_hint v)),
      vp_target_namespace = [], vp_vcenter_folder = str_strip (or_empty (vm_vsphere_folder v)),
      vp_target_storage_class = [], vp_target_network_attachment = []\<rparr>"

definition resolver_of :: "resource_mapping \<Rightarrow> catalog_snapshot option \<Rightarrow> mapping_resolver" where
  "resolver_of m catalog =
     \<lparr>mr_network_mappings = rm_network_mappings m, mr_storage_mappings = rm_storage_mappings m,
      mr_namespace_mappings = rm_namespace_mappings m, mr_catalog = catalog\<rparr>"

definition has_target_namespace :: "vm \<Rightarrow> resource_mapping option \<Rightarrow> bool" where
  "has_target_namespace v mapping \<longleftrightarrow>
     truthy (vm_target_namespace_override v) \<or>
     (case mapping of
        None \<Rightarrow> False
      | Some m \<Rightarrow> truthy (resolve_namespace (resolver_of m None) (vm_to_resolver_payload v)))"

definition pick_mapping_for_vm :: "vm \<Rightarrow> resource_mapping list \<Rightarrow> resource_mapping option" where
  "pick_mapping_for_vm v mappings =
     (case vm_source_vcenter_id v of
        None \<Rightarrow> None
      | Some vc \<Rightarrow> List.find (\<lambda>m. rm_vcenter_source_id m = vc) mappings)"

definition has_target_namespace_via_any :: "vm \<Rightarrow> resource_mapping list \<Rightarrow> bool" where
  "has_target_namespace_via_any v mappings \<longleftrightarrow>
     truthy (vm_target_namespace_override v) \<or> list_ex (\<lambda>m. has_target_namespace v (Some m)) mappings"

definition resource_gaps :: "vm \<Rightarrow> string list \<Rightarrow> string list \<Rightarrow> bool \<Rightarrow> mapping_gap list" where
  "resource_gaps v mapped_nets mapped_ds has_namespace =
     map (\<lambda>src. gap_of v (Gap_network src))
       (filter (\<lambda>src. src \<noteq> [] \<and> src \<notin> set mapped_nets) (vm_vsphere_networks v))
     @ (if \<not> list_ex (\<lambda>s. s \<noteq> []) (vm_vsphere_datastores v) then [gap_of v Gap_no_datastore] else [])
     @ map (\<lambda>src. gap_of v (Gap_datastore src))
         (filter (\<lambda>src. src \<noteq> [] \<and> src \<notin> set mapped_ds) (vm_vsphere_datastores v))
     @ (if \<not> has_namespace then [gap_of v Gap_namespace] else [])"

definition vm_gaps :: "resource_mapping list \<Rightarrow> vm \<Rightarrow> mapping_gap list" where
  "vm_gaps mappings v =
     (case vm_source_vcenter_id v of
        None \<Rightarrow> resource_gaps v (concat (map (\<lambda>m. mapped_networks (Some m)) mappings))
          (concat (map (\<lambda>m. mapped_datastores (Some m)) mappings)) (has_target_namespace_via_any v mappings)
      | Some vc \<Rightarrow>
          (let vm_mapping = pick_mapping_for_vm v mappings
           in if mappings \<noteq> [] \<and> vm_mapping = None then [gap_of v (Gap_no_mapping vc)]
              else resource_gaps v (mapped_networks vm_mapping) (mapped_datastores vm_mapping)
                (has_target_namespace v vm_mapping)))"

definition validate_plan_inputs :: "vm list \<Rightarrow> resource_mapping list \<Rightarrow> mapping_gap list" where
  "validate_plan_inputs vms mappings = concat (map (vm_gaps mappings) vms)"

section \<open>Facts\<close>

lemma resource_gaps_empty:
  "resource_gaps v nets ds ns = [] \<longleftrightarrow>
     (\<forall>src\<in>set (vm_vsphere_networks v). src \<noteq> [] \<longrightarrow> src \<in> set nets) \<and>
     (\<forall>src\<in>set (vm_vsphere_datastores v). src \<noteq> [] \<longrightarrow> src \<in> set ds) \<and>
     (\<exists>src\<in>set (vm_vsphere_datastores v). src \<noteq> []) \<and> ns"
  by (auto simp: resource_gaps_def filter_empty_conv list_ex_iff)

lemma str_strip_nonempty: "str_strip s \<noteq> [] \<Longrightarrow> s \<noteq> []"
  by (auto simp: str_strip_def strip_by_def rstrip_by_def)

lemma not_blank_truthy: "\<not> is_blank x \<Longrightarrow> truthy x"
  by (cases x) (auto simp: is_blank_def dest: str_strip_nonempty)

end
