(* ===== verification/MTV.thy ===== *)
theory MTV
  imports Mapping_Resolver
begin

text \<open>
  The MTV document generator of \<open>app/core/mtv.py\<close> with the semantic half of
  \<open>app/core/mtv_validate.py\<close>. \<open>generate_wave_yaml\<close> returns the three documents as records; their
  YAML text and the JSON-schema check of the CRDs belong to \<open>yaml\<close> and \<open>jsonschema\<close>, so the
  schema errors of the documents are a parameter.
\<close>

section \<open>Context, documents, errors\<close>

record wave_context =
  wc_plan_id :: int
  wc_wave_number :: nat
  wc_rationale :: string
  wc_namespace :: string
  wc_source_provider :: string
  wc_destination_provider :: string
  wc_default_target_namespace :: string
  wc_migration_type :: string

text \<open>The settings of \<open>app/core/config.py\<close> the context defaults to.\<close>

record mtv_settings =
  mtv_namespace :: string
  mtv_source_provider :: string
  mtv_destination_provider :: string
  mtv_default_target_namespace :: string

definition from_settings ::
  "mtv_settings \<Rightarrow> int \<Rightarrow> nat \<Rightarrow> string \<Rightarrow> string option \<Rightarrow> string option \<Rightarrow> string \<Rightarrow> wave_context" where
  "from_settings st plan_id wave_number rationale source_provider destination_provider migration_type =
     \<lparr>wc_plan_id = plan_id, wc_wave_number = wave_number, wc_rationale = rationale,
      wc_namespace = mtv_namespace st,
      wc_source_provider = or_empty (or_else source_provider (Some (mtv_source_provider st))),
      wc_destination_provider = or_empty (or_else destination_provider (Some (mtv_destination_provider st))),
      wc_default_target_namespace = mtv_default_target_namespace st,
      wc_migration_type = (if migration_type \<in> set [''cold'', ''warm''] then migration_type else ''cold'')\<rparr>"

datatype net_destination = Dest_ignored | Dest_pod | Dest_multus string string

record storage_entry =
  se_storage_class :: string
  se_access_mode :: "string option"
  se_volume_mode :: "string option"
  se_offload :: "offload_config option"

record plan_doc =
  pd_description :: string
  pd_type :: string
  pd_target_namespace :: string
  pd_network_map :: string
  pd_storage_map :: string
  pd_vms :: "(string option \<times> string) list"

record wave_docs =
  wd_basename :: string
  wd_namespace :: string
  wd_providers :: "string \<times> string"
  wd_network_map :: "(string \<times> net_destination) list"
  wd_storage_map :: "(string \<times> storage_entry) list"
  wd_plan :: plan_doc

text \<open>\<open>MTVGenerationError\<close> by its cause; the unmapped sources keep the VMs that use them.\<close>

datatype mtv_error =
    Empty_wave
  | Cannot_generate "string list" "(string \<times> string list) list" "(string \<times> string list) list"
  | Network_without_target string string
  | Several_namespaces "string list"
  | No_datastores
  | Invalid_documents "string list"
  | Unknown_vm_ids "int list"

definition resource_basename :: "wave_context \<Rightarrow> string" where
  "resource_basename ctx = ''vv-plan-'' @ show_int (wc_plan_id ctx) @ ''-wave-'' @ show_nat (wc_wave_number ctx)"

section \<open>Namespaces\<close>

definition resolver_namespace :: "mapping_resolver option \<Rightarrow> vm_payload \<Rightarrow> string option" where
  "resolver_namespace r vm = Option.bind r (\<lambda>r. resolve_namespace r vm)"

text \<open>
  The resolver first, then the VM's own target namespace, then the default. \<open>generate_wave_yaml\<close>,
  \<open>_build_network_map\<close> and \<open>_build_plan\<close> each spell this chain out.
\<close>

definition namespace_for :: "wave_context \<Rightarrow> mapping_resolver option \<Rightarrow> vm_payload \<Rightarrow> string" where
  "namespace_for ctx r vm =
     or_empty (or_else (resolver_namespace r vm)
       (or_else (Some (vp_target_namespace vm)) (Some (wc_default_target_namespace ctx))))"

section \<open>NetworkMap\<close>

definition network_destination ::
  "wave_context \<Rightarrow> mapping_resolver option \<Rightarrow> vm_payload \<Rightarrow> string \<Rightarrow> mtv_error + net_destination" where
  "network_destination ctx r vm src =
     (let nad_fallback = vp_target_network_attachment vm;
          ns_fallback = namespace_for ctx r vm
      in case Option.bind r (\<lambda>r. resolve_network r src) of
           Some mapped \<Rightarrow> Inr
             (if mn_kind mapped = ''ignored'' then Dest_ignored
              else if mn_kind mapped \<in> set [''pod'', ''primary_udn''] then Dest_pod
              else (let ns = (if mn_type mapped = ''cudn'' then Some ns_fallback else None)
                    in Dest_multus (mn_name mapped)
                         (or_empty (or_else ns (or_else (Some (mn_namespace mapped)) (Some ns_fallback))))))
         | None \<Rightarrow>
             if nad_fallback \<noteq> [] then Inr (Dest_multus nad_fallback ns_fallback)
             else Inl (Network_without_target src (vp_name vm)))"

fun add_networks ::
  "wave_context \<Rightarrow> mapping_resolver option \<Rightarrow> vm_payload \<Rightarrow> string list \<Rightarrow> (string \<times> net_destination) list
     \<Rightarrow> mtv_error + (string \<times> net_destination) list" where
  "add_networks ctx r vm [] seen = Inr seen"
| "add_networks ctx r vm (src # srcs) seen =
     (if src = [] \<or> dict_has seen src then add_networks ctx r vm srcs seen
      else (case network_destination ctx r vm src of
          Inl e \<Rightarrow> Inl e
        | Inr d \<Rightarrow> add_networks ctx r vm srcs (dict_set src d seen)))"

fun build_network_map ::
  "wave_context \<Rightarrow> mapping_resolver option \<Rightarrow> vm_payload list \<Rightarrow> (string \<times> net_destination) list
     \<Rightarrow> mtv_error + (string \<times> net_destination) list" where
  "build_network_map ctx r [] seen = Inr seen"
| "build_network_map ctx r (vm # vms) seen =
     (case add_networks ctx r vm (vp_vsphere_networks vm) seen of
        Inl e \<Rightarrow> Inl e
      | Inr seen' \<Rightarrow> build_network_map ctx r vms seen')"

section \<open>StorageMap\<close>

definition storage_class_for :: "mapping_resolver option \<Rightarrow> vm_payload \<Rightarrow> string \<Rightarrow> string" where
  "storage_class_for r vm src =
     or_empty (or_else (Option.bind r (\<lambda>r. resolve_storage r src)) (Some (vp_target_storage_class vm)))"

definition storage_entry_for :: "mapping_resolver option \<Rightarrow> vm_payload \<Rightarrow> string \<Rightarrow> storage_entry" where
  "storage_entry_for r vm src =
     \<lparr>se_storage_class = storage_class_for r vm src,
      se_access_mode = Option.bind r (\<lambda>r. resolve_access_mode r src),
      se_volume_mode = Option.bind r (\<lambda>r. resolve_volume_mode r src),
      se_offload = Option.bind r (\<lambda>r. resolve_offload r src)\<rparr>"

fun add_datastores ::
  "mapping_resolver option \<Rightarrow> vm_payload \<Rightarrow> string list \<Rightarrow> (string \<times> storage_entry) list
     \<Rightarrow> (string \<times> storage_entry) list" where
  "add_datastores r vm [] seen = seen"
| "add_datastores r vm (src # srcs) seen =
     (if src = [] \<or> dict_has seen src \<or> storage_class_for r vm src = [] then add_datastores r vm srcs seen
      else add_datastores r vm srcs (dict_set src (storage_entry_for r vm src) seen))"

fun build_storage_map ::
  "mapping_resolver option \<Rightarrow> vm_payload list \<Rightarrow> (string \<times> storage_entry) list
     \<Rightarrow> (string \<times> storage_entry) list" where
  "build_storage_map r [] seen = seen"
| "build_storage_map r (vm # vms) seen =
     build_storage_map r vms (add_datastores r vm (vp_vsphere_datastores vm) seen)"

section \<open>Plan\<close>

definition plan_vm :: "vm_payload \<Rightarrow> string option \<times> string" where
  "plan_vm vm = (if vp_moref vm \<noteq> [] then Some (vp_moref vm) else None, vp_name vm)"

definition build_plan ::
  "wave_context \<Rightarrow> vm_payload list \<Rightarrow> mapping_resolver option \<Rightarrow> mtv_error + plan_doc" where
  "build_plan ctx vms r =
     (let resolved_namespaces = map (namespace_for ctx r) vms;
          plan_target_ns = (case resolved_namespaces of [] \<Rightarrow> wc_default_target_namespace ctx | ns # _ \<Rightarrow> ns);
          distinct_ns = sort (remdups (filter (\<lambda>ns. ns \<noteq> []) resolved_namespaces))
      in if length distinct_ns > 1 then Inl (Several_namespaces distinct_ns)
         else Inr \<lparr>pd_description = (if wc_rationale ctx = []
               then ''VirtValidate wave '' @ show_nat (wc_wave_number ctx) else wc_rationale ctx),
            pd_type = wc_migration_type ctx, pd_target_namespace = plan_target_ns,
            pd_network_map = resource_basename ctx @ ''-netmap'',
            pd_storage_map = resource_basename ctx @ ''-storagemap'',
            pd_vms = map plan_vm vms\<rparr>)"

section \<open>Semantic validation\<close>

definition label_alnum :: "char \<Rightarrow> bool" where
  "label_alnum c \<longleftrightarrow> is_lower c \<or> is_digit c"

definition dns1123 :: "string \<Rightarrow> bool" where
  "dns1123 s \<longleftrightarrow> s \<noteq> [] \<and> length s \<le> 253 \<and> label_alnum (hd s) \<and> label_alnum (last s) \<and>
     list_all (\<lambda>c. label_alnum c \<or> c = CHR ''-'' \<or> c = CHR ''.'') s"

definition moref_pattern :: "string \<Rightarrow> bool" where
  "moref_pattern s \<longleftrightarrow> starts_with ''vm-'' s \<and> str_isdigit (drop 3 s)"

text \<open>
  A pod or ignored destination has no place for a NAD name here, so the check that it names none
  is left out, like the checks on the document kinds.
\<close>

datatype semantic_error =
    Bad_name string
  | Vm_unnamed
  | Bad_moref string
  | Multus_without_nad string
  | Offload_without_secret string

definition name_errors :: "string \<Rightarrow> string \<Rightarrow> semantic_error list" where
  "name_errors name namespace =
     map Bad_name (filter (\<lambda>v. \<not> matches_to_end dns1123 v) [name, namespace])"

definition vm_errors :: "string option \<times> string \<Rightarrow> semantic_error list" where
  "vm_errors v =
     (if \<not> truthy (fst v) \<and> snd v = [] then [Vm_unnamed] else []) @
     (if truthy (fst v) \<and> \<not> matches_to_end moref_pattern (or_empty (fst v))
      then [Bad_moref (or_empty (fst v))] else [])"

fun network_errors :: "string \<times> net_destination \<Rightarrow> semantic_error list" where
  "network_errors (src, Dest_multus name ns) = (if name = [] \<or> ns = [] then [Multus_without_nad src] else [])"
| "network_errors (src, _) = []"

definition storage_errors :: "string \<times> storage_entry \<Rightarrow> semantic_error list" where
  "storage_errors e =
     (case se_offload (snd e) of
        None \<Rightarrow> []
      | Some xcopy \<Rightarrow> if str_strip (oc_secret_ref xcopy) = [] then [Offload_without_secret (fst e)] else [])"

definition semantic_errors :: "wave_docs \<Rightarrow> semantic_error list" where
  "semantic_errors docs =
     name_errors (wd_basename docs @ ''-netmap'') (wd_namespace docs)
     @ concat (map network_errors (wd_network_map docs))
     @ name_errors (wd_basename docs @ ''-storagemap'') (wd_namespace docs)
     @ concat (map storage_errors (wd_storage_map docs))
     @ name_errors (wd_basename docs) (wd_namespace docs)
     @ concat (map vm_errors (pd_vms (wd_plan docs)))"

section \<open>The pre-check and the generator\<close>

definition unresolved_namespaces ::
  "wave_context \<Rightarrow> mapping_resolver option \<Rightarrow> vm_payload list \<Rightarrow> string list" where
  "unresolved_namespaces ctx r vms = map vp_name (filter (\<lambda>vm. namespace_for ctx r vm = []) vms)"

definition unmapped_networks_of :: "mapping_resolver option \<Rightarrow> vm_payload \<Rightarrow> string list" where
  "unmapped_networks_of r vm =
     (case r of
        None \<Rightarrow> []
      | Some res \<Rightarrow> filter (\<lambda>src. src \<noteq> [] \<and> resolve_network res src = None) (vp_vsphere_networks vm))"

definition unmapped_datastores_of :: "mapping_resolver option \<Rightarrow> vm_payload \<Rightarrow> string list" where
  "unmapped_datastores_of r vm =
     (case r of
        None \<Rightarrow>
          if vp_vsphere_datastores vm \<noteq> [] \<and> vp_target_storage_class vm = []
          then [hd (vp_vsphere_datastores vm)] else []
      | Some res \<Rightarrow>
          filter (\<lambda>src. src \<noteq> [] \<and> resolve_storage res src = None \<and> vp_target_storage_class vm = [])
            (vp_vsphere_datastores vm))"

definition users_by_source :: "(vm_payload \<Rightarrow> string list) \<Rightarrow> vm_payload list \<Rightarrow> (string \<times> string list) list" where
  "users_by_source f vms =
     fold (\<lambda>vm d. fold (\<lambda>src. dict_append src (vp_name vm)) (f vm) d) vms []"

definition pre_check ::
  "wave_context \<Rightarrow> mapping_resolver option \<Rightarrow> vm_payload list \<Rightarrow> mtv_error option" where
  "pre_check ctx r vms =
     (let vms_without_namespace = unresolved_namespaces ctx r vms;
          unmapped_nets = users_by_source (unmapped_networks_of r) vms;
          unmapped_ds = users_by_source (unmapped_datastores_of r) vms
      in if vms_without_namespace \<noteq> [] \<or> unmapped_nets \<noteq> [] \<or> unmapped_ds \<noteq> []
         then Some (Cannot_generate vms_without_namespace unmapped_nets unmapped_ds) else None)"

definition assemble ::
  "wave_context \<Rightarrow> (string \<times> net_destination) list \<Rightarrow> (string \<times> storage_entry) list \<Rightarrow> plan_doc \<Rightarrow> wave_docs" where
  "assemble ctx nets stores plan =
     \<lparr>wd_basename = resource_basename ctx, wd_namespace = wc_namespace ctx,
      wd_providers = (wc_source_provider ctx, wc_destination_provider ctx),
      wd_network_map = nets, wd_storage_map = stores, wd_plan = plan\<rparr>"

text \<open>
  \<open>describe\<close> renders a semantic error as the validator prints it; \<open>schema_errors\<close> is the CRD
  schema check. An empty list of both is a valid text.
\<close>

definition generate_wave_yaml ::
  "(wave_docs \<Rightarrow> string list) \<Rightarrow> (semantic_error \<Rightarrow> string) \<Rightarrow> wave_context \<Rightarrow> vm_payload list
     \<Rightarrow> mapping_resolver option \<Rightarrow> mtv_error + wave_docs" where
  "generate_wave_yaml schema_errors describe ctx vms r =
     (if vms = [] then Inl Empty_wave
      else (case pre_check ctx r vms of
        Some e \<Rightarrow> Inl e
      | None \<Rightarrow>
          (case build_network_map ctx r vms [] of
             Inl e \<Rightarrow> Inl e
           | Inr nets \<Rightarrow>
               (let stores = build_storage_map r vms []
                in case build_plan ctx vms r of
                     Inl e \<Rightarrow> Inl e
                   | Inr plan \<Rightarrow>
                       if stores = [] then Inl No_datastores
                       else (let docs = assemble ctx nets stores plan;
                                 problems = schema_errors docs @ map describe (semantic_errors docs)
                             in if problems \<noteq> [] then Inl (Invalid_documents problems) else Inr docs)))))"

end
