(* ===== verification/Classification.thy ===== *)
theory Classification
  imports VM_Groups
begin

text \<open>
  The heuristics of \<open>app/core/preclassifier.py\<close>: role, state and risk of a VM or a group, the
  risk assessment, and HA roles from names. A pattern \<open>\b(t1|...|tn)\b\<close> searched ignoring case
  holds when one of the tokens is a whole word of the text.
\<close>

section \<open>Words and trailing numbers\<close>

definition words_of :: "string \<Rightarrow> string list" where
  "words_of s = filter (\<lambda>w. w \<noteq> []) (split_on (\<lambda>c. \<not> is_word c) (str_lower s))"

definition matches_word :: "string list \<Rightarrow> string \<Rightarrow> bool" where
  "matches_word tokens s \<longleftrightarrow> list_ex (\<lambda>w. w \<in> set tokens) (words_of s)"

definition trailing_digits :: "string \<Rightarrow> string" where
  "trailing_digits s = rev (takeWhile is_digit (rev s))"

definition name_stem :: "string \<Rightarrow> string" where
  "name_stem s = rstrip_by is_digit s"

section \<open>Roles\<close>

definition ROLE_PATTERNS :: "(string \<times> string list) list" where
  "ROLE_PATTERNS =
    [(''edge'', [''lb'', ''haproxy'', ''proxy'', ''edge'', ''gateway'', ''router'', ''ingress'', ''envoy'']),
     (''data'', [''db'', ''sql'', ''postgres'', ''oracle'', ''mongo'', ''mysql'', ''mariadb'', ''redis'',
        ''cache'', ''kafka'', ''rabbit'', ''memcache'', ''imaging'', ''process'']),
     (''infrastructure'', [''ad'', ''dc'', ''rhidm'', ''domain'', ''ldap'', ''dns'', ''ntp'', ''kdc'',
        ''vault'', ''consul'', ''pki'', ''cert'', ''hsm'', ''kms'', ''backup'', ''snapshot'']),
     (''web'', [''web'', ''www'', ''nginx'', ''apache'', ''httpd'', ''caddy'', ''iis'']),
     (''app'', [''app'', ''api'', ''service'', ''svc'', ''backend'', ''worker'', ''tomcat'', ''jboss'',
        ''wildfly''])]"

definition KNOWN_ROLES :: "string list" where
  "KNOWN_ROLES = [''web'', ''app'', ''data'', ''edge'', ''infrastructure'', ''other'']"

definition role_haystack :: "vm \<Rightarrow> string" where
  "role_haystack v =
     join_with '' '' (filter (\<lambda>s. s \<noteq> [])
       [vm_name v, or_empty (vm_role v), or_empty (vm_application_hint v)])"

definition detect_role :: "vm \<Rightarrow> string" where
  "detect_role v =
     (let role_hint = str_lower (str_strip (or_empty (vm_role v)))
      in if role_hint \<in> set KNOWN_ROLES then role_hint
         else (case List.find (\<lambda>(_, tokens). matches_word tokens (role_haystack v)) ROLE_PATTERNS of
             Some (label, _) \<Rightarrow> label
           | None \<Rightarrow> ''other''))"

definition detect_state :: "string \<Rightarrow> string" where
  "detect_state role =
     (if role \<in> set [''data'', ''infrastructure''] then ''stateful''
      else if role \<in> set [''web'', ''app'', ''edge''] then ''stateless''
      else ''unknown'')"

definition detect_risk :: "string \<Rightarrow> string \<Rightarrow> nat \<Rightarrow> bool \<Rightarrow> string" where
  "detect_risk role state vm_count has_sequential_names =
     (if state = ''stateful'' \<and> role \<in> set [''data'', ''infrastructure''] then ''high''
      else if state = ''stateless'' \<and> role \<in> set [''web'', ''app'', ''edge'']
        then (if vm_count \<le> 3 then ''low'' else ''medium'')
      else if has_sequential_names \<and> vm_count \<ge> 2 then ''medium''
      else ''medium'')"

section \<open>Risk assessment\<close>

definition is_ha_peer :: "ha_member \<Rightarrow> bool" where
  "is_ha_peer m \<longleftrightarrow> hm_ha_role m \<noteq> ''standalone''"

definition assess_factors ::
  "string \<Rightarrow> string \<Rightarrow> nat \<Rightarrow> ha_member list \<Rightarrow> bool \<Rightarrow> (risk_factor \<times> mitigation) list" where
  "assess_factors role state vm_count ha_members has_sequential_names =
     (if state = ''stateful'' then [(Persistent_data, Verify_backup)] else []) @
     (if role = ''data'' then [(Database_tier, Connection_draining)]
      else if role = ''infrastructure'' then [(Infrastructure_service, Secondary_infrastructure)]
      else []) @
     (if state = ''stateful'' \<and> length (filter is_ha_peer ha_members) < 2
      then [(Single_point_of_failure, Establish_replica)] else []) @
     (if has_sequential_names \<and> vm_count \<ge> 2
      then [(Sequential_cluster vm_count, Spread_ha_members)] else []) @
     (if vm_count > 10 then [(Large_group vm_count, Pilot_migration)] else [])"

definition assess_risk ::
  "string \<Rightarrow> string \<Rightarrow> nat \<Rightarrow> ha_member list \<Rightarrow> bool \<Rightarrow> risk_assessment" where
  "assess_risk role state vm_count ha_members has_sequential_names =
     (let fs = assess_factors role state vm_count ha_members has_sequential_names
      in \<lparr>ra_level = (if length fs \<ge> 3 then ''high'' else if length fs \<ge> 1 then ''medium'' else ''low''),
          ra_factors = map fst fs, ra_mitigations = map snd fs,
          ra_rollback_complexity =
            (if state = ''stateful'' then ''high''
             else if role = ''infrastructure'' then ''medium'' else ''low''),
          ra_estimated_downtime =
            (if state = ''stateless'' then ''0 (live migration possible)''
             else if role = ''data'' then ''10-30 minutes per VM (connection drain + cutover)''
             else ''5-15 minutes per VM'')\<rparr>)"

section \<open>Names\<close>

definition name_prefix_bucket :: "string \<Rightarrow> string" where
  "name_prefix_bucket name =
     (let stem = (if trailing_digits name = [] then name
            else (case rev (name_stem name) of
                [] \<Rightarrow> []
              | c # cs \<Rightarrow> if c = CHR ''-'' \<or> c = CHR ''_'' then rev cs else name_stem name))
      in take 12 (str_lower stem))"

definition HA_PATTERNS :: "(string \<times> string list) list" where
  "HA_PATTERNS =
    [(''primary'', [''primary'', ''leader'', ''master'', ''active'', ''writer'', ''main'']),
     (''replica'', [''replica'', ''secondary'', ''follower'', ''reader'', ''slave'']),
     (''standby'', [''standby'', ''passive'', ''backup''])]"

definition detect_ha_role :: "string \<Rightarrow> int option \<Rightarrow> string" where
  "detect_ha_role name sequence_index =
     (case List.find (\<lambda>(_, tokens). matches_word tokens name) HA_PATTERNS of
        Some (role, _) \<Rightarrow> role
      | None \<Rightarrow>
          (case sequence_index of
             Some i \<Rightarrow> if i \<ge> 0 then (if i = 0 then ''primary'' else ''member'') else ''standalone''
           | None \<Rightarrow> ''standalone''))"

definition ha_member_of :: "vm \<Rightarrow> string \<Rightarrow> ha_member" where
  "ha_member_of v role = \<lparr>hm_vm_id = vm_id v, hm_vm_name = vm_name v, hm_ha_role = role\<rparr>"

definition detect_ha_members :: "vm list \<Rightarrow> ha_member list" where
  "detect_ha_members vms =
     (let members = map (\<lambda>v. ha_member_of v (detect_ha_role (vm_name v) None)) vms;
          pattern_hits = list_ex is_ha_peer members
      in if pattern_hits \<or> length vms < 2 then members
         else if list_ex (\<lambda>v. trailing_digits (vm_name v) = []) vms then members
         else
           (let suffixes = sort (map (\<lambda>(i, v). (read_nat (trailing_digits (vm_name v)), i))
                  (enumerate 0 vms));
                lowest_index = snd (hd suffixes)
            in map (\<lambda>(i, v). ha_member_of v (if i = lowest_index then ''primary'' else ''member''))
                 (enumerate 0 vms)))"

definition has_sequential_names :: "string list \<Rightarrow> bool" where
  "has_sequential_names names =
     list_ex (\<lambda>(_, suffixes). length suffixes \<ge> 2)
       (group_by_key name_stem (filter (\<lambda>n. trailing_digits n \<noteq> []) names))"

section \<open>Facts\<close>

lemma detect_role_known: "detect_role v \<in> set KNOWN_ROLES"
proof -
  have "list_all (\<lambda>(label, _). label \<in> set KNOWN_ROLES) ROLE_PATTERNS" by code_simp
  then have "l \<in> set KNOWN_ROLES" if "List.find P ROLE_PATTERNS = Some (l, ts)" for P l ts
  proof -
    from that have "(l, ts) \<in> set ROLE_PATTERNS" by (auto simp: find_Some_iff)
    with \<open>list_all (\<lambda>(label, _). label \<in> set KNOWN_ROLES) ROLE_PATTERNS\<close> show ?thesis
      by (auto simp: list_all_iff)
  qed
  moreover have "''other'' \<in> set KNOWN_ROLES" by code_simp
  ultimately show ?thesis by (auto simp: detect_role_def Let_def split: option.split)
qed

text \<open>Every VM of the group has one entry in the HA manifest, in order.\<close>

lemma detect_ha_members_ids: "map hm_vm_id (detect_ha_members vms) = map vm_id vms"
proof -
  have "map (\<lambda>(i, v). f i v) (enumerate n vms) = map (\<lambda>p. f (fst p) (snd p)) (enumerate n vms)"
    for f :: "nat \<Rightarrow> vm \<Rightarrow> int" and n by (simp add: case_prod_unfold)
  have "map (\<lambda>p. vm_id (snd p)) (enumerate n vms) = map vm_id vms" for n
    by (induction vms arbitrary: n) auto
  then show ?thesis
    by (auto simp: detect_ha_members_def Let_def ha_member_of_def comp_def case_prod_unfold)
qed

lemma roles_enumerate:
  "map hm_ha_role (map (\<lambda>(i, v). ha_member_of v (f i)) (enumerate n vms)) = map f [n..<n + length vms]"
proof (induction vms arbitrary: n)
  case (Cons v vms)
  have "[n..<n + length (v # vms)] = n # [Suc n..<Suc n + length vms]"
    by (simp add: upt_conv_Cons del: upt_Suc)
  with Cons [of "Suc n"] show ?case by (simp add: ha_member_of_def del: upt_Suc)
qed simp

lemma count_one:
  assumes "a \<noteq> b"
  shows "length (filter (\<lambda>r. r = a) (map (\<lambda>i. if i = k then a else b) [n..<m])) =
      (if n \<le> k \<and> k < m then 1 else 0)"
    and "length (filter (\<lambda>r. r = b) (map (\<lambda>i. if i = k then a else b) [n..<m])) =
      (m - n) - (if n \<le> k \<and> k < m then 1 else 0)"
  using assms by (induction m) (auto simp: not_le)

text \<open>
  The fallback tags exactly one primary. In a group of at least two VMs whose names all end
  in a number and carry no HA word, exactly one VM is the primary and all others are members.
\<close>

theorem sequential_cluster_has_one_primary:
  assumes "2 \<le> length vms" and "list_all (\<lambda>v. trailing_digits (vm_name v) \<noteq> []) vms"
    and "list_all (\<lambda>v. detect_ha_role (vm_name v) None = ''standalone'') vms"
  shows "length (filter (\<lambda>m. hm_ha_role m = ''primary'') (detect_ha_members vms)) = 1 \<and>
    length (filter (\<lambda>m. hm_ha_role m = ''member'') (detect_ha_members vms)) = length vms - 1"
proof -
  let ?key = "\<lambda>(i, v). (read_nat (trailing_digits (vm_name v)), i :: nat)"
  let ?low = "snd (hd (sort (map ?key (enumerate 0 vms))))"
  let ?role = "\<lambda>i. if i = ?low then ''primary'' else ''member''"
  have res: "detect_ha_members vms = map (\<lambda>(i, v). ha_member_of v (?role i)) (enumerate 0 vms)"
    using assms by (simp add: detect_ha_members_def Let_def list_ex_iff list_all_iff is_ha_peer_def ha_member_of_def)
  have ne: "sort (map ?key (enumerate 0 vms)) \<noteq> []"
  proof
    assume "sort (map ?key (enumerate 0 vms)) = []"
    then have "length (sort (map ?key (enumerate 0 vms))) = 0" by simp
    with assms(1) show False by simp
  qed
  then have "hd (sort (map ?key (enumerate 0 vms))) \<in> set (map ?key (enumerate 0 vms))"
    by (metis hd_in_set set_sort)
  then have low: "?low < length vms"
    by (auto simp: in_set_enumerate_eq)
  have roles: "map hm_ha_role (detect_ha_members vms) = map ?role [0..<length vms]"
    unfolding res using roles_enumerate [of ?role 0 vms] by simp
  have "length (filter (\<lambda>r. r = ''primary'') (map hm_ha_role (detect_ha_members vms))) = 1"
    unfolding roles using low count_one(1) [of "''primary''" "''member''" ?low 0 "length vms"] by simp
  moreover have "length (filter (\<lambda>r. r = ''member'') (map hm_ha_role (detect_ha_members vms))) = length vms - 1"
    unfolding roles using low count_one(2) [of "''primary''" "''member''" ?low 0 "length vms"] by simp
  ultimately show ?thesis by (simp add: filter_map comp_def)
qed

text \<open>
  Every risk above low is explained: the level is low exactly when no factor was found,
  and each factor comes with one mitigation.
\<close>

theorem assess_risk_explained:
  "(ra_level (assess_risk role state n ms sq) = ''low'') = (ra_factors (assess_risk role state n ms sq) = []) \<and>
   length (ra_mitigations (assess_risk role state n ms sq)) = length (ra_factors (assess_risk role state n ms sq))"
  by (simp add: assess_risk_def Let_def) (auto simp: Suc_le_eq)

end
