(* ===== verification/Preclassifier.thy ===== *)
theory Preclassifier
  imports Classification Environment
begin

text \<open>
  \<open>PreClassifier\<close> of \<open>app/core/preclassifier.py\<close>: VMs are partitioned by migration scope,
  inside a scope clustered by application hint, by shared networks and datastores and by name
  prefix, merged under an explicit cap, and given dependency hints. \<open>split_ha_group\<close> turns an
  HA group into micro-groups. Notes (operator-facing text) are not modelled.
\<close>

section \<open>Building and merging groups\<close>

type_synonym primary_key = "int option \<times> int option \<times> string \<times> string"

definition shared_overlap :: "string list list \<Rightarrow> string list" where
  "shared_overlap items =
     (case filter (\<lambda>x. x \<noteq> []) items of
        [] \<Rightarrow> []
      | s # ss \<Rightarrow> fold (\<lambda>t out. filter (\<lambda>x. x \<in> set t) out) ss s)"

definition sorted_set :: "'a :: linorder list \<Rightarrow> 'a list" where
  "sorted_set xs = sort (remdups xs)"

definition role_risk :: "string \<Rightarrow> nat" where
  "role_risk r =
     (if r = ''data'' then 5 else if r = ''infrastructure'' then 4 else if r = ''edge'' then 3
      else if r = ''app'' then 2 else if r = ''web'' then 1 else 0)"

text \<open>\<open>max(items, key=f)\<close>: the first of the elements with the largest key.\<close>

definition max_by :: "('a \<Rightarrow> 'b :: linorder) \<Rightarrow> 'a list \<Rightarrow> 'a" where
  "max_by f xs = foldl (\<lambda>best x. if f x > f best then x else best) (hd xs) (tl xs)"

definition majority_role :: "vm list \<Rightarrow> string" where
  "majority_role vms =
     fst (max_by (\<lambda>(role, members). (length members, role_risk role)) (group_by_key detect_role vms))"

definition attribute_set :: "(vm \<Rightarrow> string option) \<Rightarrow> vm list \<Rightarrow> string list" where
  "attribute_set f vms =
     sorted_set (map (\<lambda>v. str_lower (str_strip (or_empty (f v)))) (filter (\<lambda>v. truthy (f v)) vms))"

definition seems_stateful :: "vm \<Rightarrow> bool" where
  "seems_stateful v \<longleftrightarrow> detect_state (detect_role v) = ''stateful''"

definition build_group ::
  "int option \<Rightarrow> string \<Rightarrow> vm list \<Rightarrow> string \<Rightarrow> string \<Rightarrow> int option \<Rightarrow> vm_group" where
  "build_group vcenter_id target_namespace vms discriminator environment target_cluster_id =
     (let role = majority_role vms;
          state = (if list_ex seems_stateful (tl vms)
                   then ''stateful'' else detect_state role);
          sequential = has_sequential_names (map vm_name vms);
          ha = detect_ha_members vms
      in \<lparr>g_key = \<lparr>gk_vcenter_id = vcenter_id, gk_target_namespace = target_namespace,
            gk_role = role, gk_state = state, gk_discriminator = discriminator,
            gk_environment = environment, gk_target_cluster_id = target_cluster_id\<rparr>,
          g_vm_ids = sort (map vm_id vms),
          g_shared_attributes =
            [(''networks'', sorted_set (shared_overlap (map vm_vsphere_networks vms))),
             (''datastores'', sorted_set (shared_overlap (map vm_vsphere_datastores vms))),
             (''application_hints'', attribute_set vm_application_hint vms),
             (''environments'', attribute_set vm_environment vms),
             (''os_families'', attribute_set vm_os_family vms)],
          g_estimated_role = role, g_estimated_state = state,
          g_migration_risk = detect_risk role state (length vms) sequential,
          g_dependency_hints = [],
          g_risk_assessment = Some (assess_risk role state (length vms) ha sequential),
          g_ha_members = ha\<rparr>)"

definition network_datastore_discriminator :: "vm list \<Rightarrow> string" where
  "network_datastore_discriminator cluster =
     (let nets = sorted_set (shared_overlap (map vm_vsphere_networks cluster));
          ds = sorted_set (shared_overlap (map vm_vsphere_datastores cluster))
      in if nets \<noteq> [] \<and> ds \<noteq> [] then ''net+ds:'' @ hd nets @ ''+'' @ hd ds
         else if nets \<noteq> [] then ''net:'' @ hd nets
         else if ds \<noteq> [] then ''ds:'' @ hd ds
         else ''cluster:'' @ vm_name (hd cluster))"

definition risk_rank :: "string \<Rightarrow> nat" where
  "risk_rank r = (if r = ''high'' then 3 else if r = ''medium'' then 2 else if r = ''low'' then 1 else 0)"

definition merge_groups :: "vm_group \<Rightarrow> vm_group \<Rightarrow> vm_group" where
  "merge_groups a b =
     (let role = (if role_risk (g_estimated_role a) \<ge> role_risk (g_estimated_role b)
                  then g_estimated_role a else g_estimated_role b);
          states = [g_estimated_state a, g_estimated_state b];
          state = (if ''stateful'' \<in> set states then ''stateful''
                   else if ''unknown'' \<in> set states then ''unknown'' else ''stateless'');
          risk = (if risk_rank (g_migration_risk a) \<ge> risk_rank (g_migration_risk b)
                  then g_migration_risk a else g_migration_risk b);
          shared = map (\<lambda>dim. (dim, sorted_set
              (dict_get_or (g_shared_attributes a) dim [] @ dict_get_or (g_shared_attributes b) dim [])))
            [''networks'', ''datastores'', ''application_hints'', ''environments'', ''os_families'']
      in \<lparr>g_key = \<lparr>gk_vcenter_id = gk_vcenter_id (g_key a),
            gk_target_namespace = gk_target_namespace (g_key a), gk_role = role, gk_state = state,
            gk_discriminator = take 64 (''merged:'' @ gk_discriminator (g_key a) @ ''+''
              @ gk_discriminator (g_key b)),
            gk_environment = gk_environment (g_key a),
            gk_target_cluster_id = gk_target_cluster_id (g_key a)\<rparr>,
          g_vm_ids = sorted_set (g_vm_ids a @ g_vm_ids b), g_shared_attributes = shared,
          g_estimated_role = role, g_estimated_state = state, g_migration_risk = risk,
          g_dependency_hints = [], g_risk_assessment = None, g_ha_members = []\<rparr>)"

section \<open>HA micro-groups\<close>

definition ha_priority :: "string \<Rightarrow> nat" where
  "ha_priority r =
     (if r = ''primary'' then 0 else if r = ''standby'' then 1 else if r = ''replica'' then 2
      else if r = ''member'' then 3 else if r = ''standalone'' then 4 else 5)"

definition ha_micro_group :: "vm_group \<Rightarrow> ha_member \<Rightarrow> vm_group" where
  "ha_micro_group g m =
     g\<lparr>g_key := (g_key g)\<lparr>gk_role := g_estimated_role g, gk_state := g_estimated_state g,
           gk_discriminator := gk_discriminator (g_key g) @ ''/ha:'' @ hm_ha_role m @ '':'' @ hm_vm_name m\<rparr>,
       g_vm_ids := [hm_vm_id m], g_ha_members := [m]\<rparr>"

definition split_ha_group :: "vm_group \<Rightarrow> vm_group list" where
  "split_ha_group g =
     (if ha_count g < 2 then [g]
      else map (ha_micro_group g)
        (sort_key (\<lambda>m. (ha_priority (hm_ha_role m), hm_vm_name m)) (g_ha_members g)))"

section \<open>The three passes inside a scope\<close>

definition hint_of :: "vm \<Rightarrow> string" where
  "hint_of v = str_lower (str_strip (or_empty (vm_application_hint v)))"

definition shares :: "string list \<Rightarrow> string list \<Rightarrow> bool" where
  "shares xs ys \<longleftrightarrow> list_ex (\<lambda>x. x \<in> set ys) xs"

definition infra_overlap :: "vm \<Rightarrow> vm \<Rightarrow> bool" where
  "infra_overlap seed other \<longleftrightarrow>
     (let net_overlap = shares (vm_vsphere_networks seed) (vm_vsphere_networks other);
          ds_overlap = shares (vm_vsphere_datastores seed) (vm_vsphere_datastores other)
      in (net_overlap \<and> ds_overlap)
         \<or> (vm_vsphere_networks seed = [] \<and> vm_vsphere_networks other = [] \<and> ds_overlap)
         \<or> (vm_vsphere_datastores seed = [] \<and> vm_vsphere_datastores other = [] \<and> net_overlap))"

definition pull_in :: "vm \<Rightarrow> vm \<Rightarrow> vm list \<times> int list \<Rightarrow> vm list \<times> int list" where
  "pull_in seed other = (\<lambda>(cluster, grouped_ids).
     if vm_id other \<in> set grouped_ids \<or> vm_id other = vm_id seed then (cluster, grouped_ids)
     else if infra_overlap seed other then (cluster @ [other], vm_id other # grouped_ids)
     else (cluster, grouped_ids))"

definition cluster_step :: "vm list \<Rightarrow> vm \<Rightarrow> int list \<times> vm list list \<Rightarrow> int list \<times> vm list list" where
  "cluster_step remaining seed = (\<lambda>(grouped_ids, clusters).
     if vm_id seed \<in> set grouped_ids then (grouped_ids, clusters)
     else
       (case fold (pull_in seed) remaining ([seed], vm_id seed # grouped_ids) of
          (cluster, ids) \<Rightarrow>
            if length cluster = 1 then (removeAll (vm_id seed) ids, clusters)
            else (ids, clusters @ [cluster])))"

definition infra_clusters :: "vm list \<Rightarrow> int list \<times> vm list list" where
  "infra_clusters remaining = fold (cluster_step remaining) remaining ([], [])"

fun build_in :: "primary_key \<Rightarrow> vm list \<Rightarrow> string \<Rightarrow> vm_group" where
  "build_in (vcenter_id, target_cluster_id, target_namespace, env) vms disc =
     build_group vcenter_id target_namespace vms disc env target_cluster_id"

fun hint_role_group :: "primary_key \<Rightarrow> string \<Rightarrow> string \<times> vm list \<Rightarrow> vm_group" where
  "hint_role_group pk hint (role, role_vms) = build_in pk role_vms (''hint:'' @ hint @ '':'' @ role)"

fun hint_groups :: "primary_key \<Rightarrow> string \<times> vm list \<Rightarrow> vm_group list" where
  "hint_groups pk (hint, vms) = map (hint_role_group pk hint) (group_by_key detect_role vms)"

definition cluster_group :: "primary_key \<Rightarrow> vm list \<Rightarrow> vm_group" where
  "cluster_group pk cluster = build_in pk cluster (network_datastore_discriminator cluster)"

definition prefix_or_misc :: "vm \<Rightarrow> string" where
  "prefix_or_misc v = (let p = name_prefix_bucket (vm_name v) in if p = [] then ''misc'' else p)"

fun prefix_group :: "primary_key \<Rightarrow> string \<times> vm list \<Rightarrow> vm_group" where
  "prefix_group pk (bucket_name, vms) = build_in pk vms (''prefix:'' @ bucket_name)"

definition classify_within_primary :: "primary_key \<Rightarrow> vm list \<Rightarrow> vm_group list" where
  "classify_within_primary pk bucket =
     (let by_hint = group_by_key hint_of (filter (\<lambda>v. hint_of v \<noteq> []) bucket);
          remaining = filter (\<lambda>v. hint_of v = []) bucket;
          (grouped_ids, clusters) = infra_clusters remaining;
          leftover_vms = filter (\<lambda>v. vm_id v \<notin> set grouped_ids) remaining;
          by_prefix = group_by_key prefix_or_misc leftover_vms
      in concat (map (hint_groups pk) by_hint) @ map (cluster_group pk) clusters
         @ map (prefix_group pk) by_prefix)"

section \<open>Consolidation under an explicit cap\<close>

text \<open>\<open>round\<close> of a quotient: to the nearest integer, halves to even.\<close>

definition round_div :: "nat \<Rightarrow> nat \<Rightarrow> nat" where
  "round_div a b =
     (let q = a div b; r = a mod b
      in if 2 * r < b then q else if 2 * r > b then q + 1 else if even q then q else q + 1)"

definition vm_total :: "vm_group list \<Rightarrow> nat" where
  "vm_total gs = sum_list (map (\<lambda>g. length (g_vm_ids g)) gs)"

fun insert_by_size :: "vm_group \<Rightarrow> vm_group list \<Rightarrow> vm_group list" where
  "insert_by_size m [] = [m]"
| "insert_by_size m (g # gs) =
     (if length (g_vm_ids m) \<le> length (g_vm_ids g) then m # g # gs else g # insert_by_size m gs)"

lemma length_insert_by_size [simp]: "length (insert_by_size m gs) = Suc (length gs)"
  by (induction gs) auto

text \<open>The caller keeps \<open>allowed\<close> at least 1, so two groups can always be popped.\<close>

function merge_down :: "nat \<Rightarrow> vm_group list \<Rightarrow> vm_group list" where
  "merge_down allowed gs =
     (if length gs \<le> allowed then gs
      else (case gs of
          a # b # rest \<Rightarrow> merge_down allowed (insert_by_size (merge_groups a b) rest)
        | _ \<Rightarrow> gs))"
  by pat_completeness auto
termination by (relation "measure (\<lambda>(n, gs). length gs)") auto

declare merge_down.simps [simp del]

fun consolidate_loop ::
  "nat \<Rightarrow> vm_group list list \<Rightarrow> vm_group list list \<Rightarrow> vm_group list list" where
  "consolidate_loop max_groups finished [] = finished"
| "consolidate_loop max_groups finished (gs # rest) =
     (let primary_groups = sort_key (\<lambda>g. length (g_vm_ids g)) gs;
          total_remaining = vm_total (concat (finished @ primary_groups # rest));
          primary_count = vm_total primary_groups;
          allowed = min (max 1 (round_div (max_groups * primary_count) (max 1 total_remaining)))
            (length primary_groups)
      in consolidate_loop max_groups (finished @ [merge_down allowed primary_groups]) rest)"

definition consolidate :: "nat \<Rightarrow> vm_group list \<Rightarrow> vm_group list" where
  "consolidate max_groups groups =
     (if length groups \<le> max_groups then groups
      else concat (consolidate_loop max_groups []
        (map snd (group_by_key (\<lambda>g. (gk_vcenter_id (g_key g), gk_target_cluster_id (g_key g),
           gk_target_namespace (g_key g))) groups))))"

section \<open>Dependency hints and the entry point\<close>

definition ids_with_role :: "vm_group list \<Rightarrow> string \<Rightarrow> string list" where
  "ids_with_role groups role = map g_id (filter (\<lambda>g. g_estimated_role g = role) groups)"

definition dependency_hints_for :: "vm_group list \<Rightarrow> vm_group \<Rightarrow> string list" where
  "dependency_hints_for groups g =
     filter (\<lambda>h. h \<noteq> g_id g)
       (if g_estimated_role g = ''app''
        then ids_with_role groups ''data'' @ ids_with_role groups ''infrastructure''
        else if g_estimated_role g \<in> set [''web'', ''edge'']
        then ids_with_role groups ''app'' @ ids_with_role groups ''data''
        else [])"

definition add_dependency_hints :: "vm_group list \<Rightarrow> vm_group list" where
  "add_dependency_hints groups =
     map (\<lambda>g. g\<lparr>g_dependency_hints := dependency_hints_for groups g\<rparr>) groups"

definition primary_key_of :: "vm \<Rightarrow> primary_key" where
  "primary_key_of v =
     (vm_source_vcenter_id v, vm_target_cluster_id_override v,
      str_strip (or_empty (vm_target_namespace_override v)), env_value (normalize (vm_environment v)))"

definition collapse_small :: "vm_group list \<Rightarrow> vm_group list" where
  "collapse_small gs =
     (if vm_total gs < 5 \<and> length gs > 1 then [foldl merge_groups (hd gs) (tl gs)] else gs)"

definition group_sort_key :: "vm_group \<Rightarrow> int \<times> string \<times> string \<times> string \<times> string" where
  "group_sort_key g =
     (case gk_vcenter_id (g_key g) of Some i \<Rightarrow> i | None \<Rightarrow> -1, gk_target_namespace (g_key g),
      gk_role (g_key g), gk_state (g_key g), gk_discriminator (g_key g))"

fun classify_scope :: "primary_key \<times> vm list \<Rightarrow> vm_group list" where
  "classify_scope (pk, bucket) = collapse_small (classify_within_primary pk bucket)"

definition partition_groups :: "vm list \<Rightarrow> vm_group list" where
  "partition_groups vms = concat (map classify_scope (group_by_key primary_key_of vms))"

definition classify :: "nat option \<Rightarrow> vm list \<Rightarrow> vm_group list" where
  "classify max_groups vms =
     (let groups = partition_groups vms;
          groups = (case max_groups of None \<Rightarrow> groups | Some m \<Rightarrow> consolidate (max 1 m) groups)
      in sort_key group_sort_key (add_dependency_hints groups))"

end
