(* ===== verification/Plan_Pipeline.thy ===== *)
theory Plan_Pipeline
  imports Mapping_Validation MTV Preclassifier Concurrency
begin

text \<open>
  \<open>app/core/plan_pipeline.py\<close>: Stage 0 to Stage 5 and Stage 7 of plan generation. Stage 6 asks a
  language model for each wave's description: its answer is a parameter. The considerations and
  the mapping summary of a wave, which nothing reads back, are left out.
\<close>

definition vm_payload_of :: "vm \<Rightarrow> vm_payload" where
  "vm_payload_of v =
     \<lparr>vp_name = vm_name v, vp_moref = or_empty (vm_moref v), vp_vsphere_networks = vm_vsphere_networks v,
      vp_vsphere_datastores = vm_vsphere_datastores v, vp_environment = or_empty (vm_environment v),
      vp_application_hint = or_empty (vm_application_hint v),
      vp_target_namespace = or_empty (vm_target_namespace_override v),
      vp_vcenter_folder = or_empty (vm_vsphere_folder v), vp_target_storage_class = [],
      vp_target_network_attachment = []\<rparr>"

definition build_resolver ::
  "resource_mapping option \<Rightarrow> (int \<times> catalog_snapshot) list \<Rightarrow> mapping_resolver option" where
  "build_resolver mapping catalogs =
     map_option (\<lambda>m. resolver_of m (dict_get catalogs (rm_ocp_target_id m))) mapping"

text \<open>The first VM of the wave with a vCenter decides; the target cluster plays no part.\<close>

fun mapping_for_ids ::
  "int list \<Rightarrow> resource_mapping list \<Rightarrow> vm list \<Rightarrow> resource_mapping option" where
  "mapping_for_ids [] mappings vms = None"
| "mapping_for_ids (vid # vids) mappings vms =
     (case Option.bind (find_vm vms vid) vm_source_vcenter_id of
        None \<Rightarrow> mapping_for_ids vids mappings vms
      | Some vc \<Rightarrow> List.find (\<lambda>m. rm_vcenter_source_id m = vc) mappings)"

definition mapping_for_wave :: "wave \<Rightarrow> resource_mapping list \<Rightarrow> vm list \<Rightarrow> resource_mapping option" where
  "mapping_for_wave w mappings vms = (if mappings = [] then None else mapping_for_ids (w_vm_ids w) mappings vms)"

text \<open>What the pipeline does not compute: YAML schemas, message texts, the model's answers.\<close>

record pipeline_env =
  pe_schema_errors :: "wave_docs \<Rightarrow> string list"
  pe_describe :: "semantic_error \<Rightarrow> string"
  pe_annotate :: "wave \<Rightarrow> string"
  pe_settings :: mtv_settings

definition emit_wave_yaml ::
  "pipeline_env \<Rightarrow> int \<Rightarrow> wave \<Rightarrow> string \<Rightarrow> vm list \<Rightarrow> mapping_resolver option \<Rightarrow> string
     \<Rightarrow> mtv_error + wave_docs" where
  "emit_wave_yaml env plan_id w description vms r migration_type =
     (let missing = filter (\<lambda>vid. find_vm vms vid = None) (w_vm_ids w);
          vm_payloads = map vm_payload_of (List.map_filter (find_vm vms) (w_vm_ids w))
      in if missing \<noteq> [] then Inl (Unknown_vm_ids missing)
         else generate_wave_yaml (pe_schema_errors env) (pe_describe env)
           (from_settings (pe_settings env) plan_id (w_wave_number w) description None None migration_type)
           vm_payloads r)"

record annotated_wave =
  aw_wave :: wave
  aw_description :: string
  aw_vm_names :: "string list"
  aw_mtv_yaml :: wave_docs

datatype pipeline_error =
    Plan_validation "mapping_gap list"
  | Yaml_emit mtv_error
  | Skeleton skeleton_error

definition name_lookup :: "vm list \<Rightarrow> int \<rightharpoonup> string" where
  "name_lookup vms vid = map_option vm_name (find_vm vms vid)"

definition wave_vm_name :: "vm list \<Rightarrow> int \<Rightarrow> string" where
  "wave_vm_name vms vid = (case name_lookup vms vid of Some n \<Rightarrow> n | None \<Rightarrow> ''vm-'' @ show_int vid)"

definition emit_wave ::
  "pipeline_env \<Rightarrow> int \<Rightarrow> vm list \<Rightarrow> resource_mapping list \<Rightarrow> (int \<times> catalog_snapshot) list \<Rightarrow> string
     \<Rightarrow> wave \<Rightarrow> pipeline_error + annotated_wave" where
  "emit_wave env plan_id vms mappings catalogs migration_type w =
     (let r = build_resolver (mapping_for_wave w mappings vms) catalogs
      in case emit_wave_yaml env plan_id w (pe_annotate env w) vms r migration_type of
           Inl e \<Rightarrow> Inl (Yaml_emit e)
         | Inr docs \<Rightarrow> Inr \<lparr>aw_wave = w, aw_description = pe_annotate env w,
             aw_vm_names = map (wave_vm_name vms) (w_vm_ids w), aw_mtv_yaml = docs\<rparr>)"

fun emit_waves :: "(wave \<Rightarrow> 'e + 'a) \<Rightarrow> wave list \<Rightarrow> 'e + 'a list" where
  "emit_waves f [] = Inr []"
| "emit_waves f (w # ws) =
     (case f w of
        Inl e \<Rightarrow> Inl e
      | Inr a \<Rightarrow> (case emit_waves f ws of Inl e \<Rightarrow> Inl e | Inr as \<Rightarrow> Inr (a # as)))"

definition plan_groups :: "vm list \<Rightarrow> vm_group list" where
  "plan_groups vms = split_overconcentrated_families (classify None vms) (name_lookup vms)"

definition run_pipeline ::
  "pipeline_env \<Rightarrow> int \<Rightarrow> vm list \<Rightarrow> resource_mapping list \<Rightarrow> (int \<times> catalog_snapshot) list \<Rightarrow> string
     \<Rightarrow> pipeline_error + (annotated_wave list \<times> vm_group list)" where
  "run_pipeline env plan_id vms mappings catalogs migration_type =
     (let gaps = validate_plan_inputs vms mappings; groups = plan_groups vms
      in if gaps \<noteq> [] then Inl (Plan_validation gaps)
         else (case assign_waves default_assigner groups of
             Inl e \<Rightarrow> Inl (Skeleton e)
           | Inr ws \<Rightarrow>
               (case emit_waves (emit_wave env plan_id vms mappings catalogs migration_type)
                   (assign_concurrency_groups ws (name_lookup vms)) of
                  Inl e \<Rightarrow> Inl e
                | Inr aws \<Rightarrow> Inr (aws, groups))))"

end
