(* ===== verification/Plan_Membership.thy ===== *)
theory Plan_Membership
  imports Lifecycle Target_Resolution Plan_Pipeline
begin

text \<open>
  The plan rows of \<open>app/models/plan.py\<close>, the tables a request works on, and
  \<open>app/core/plan_membership.py\<close>: which partition a plan covers and which plan holds a VM. Both
  are derived when they are read, from the waves and from the target resolver.
\<close>

section \<open>Plan rows\<close>

text \<open>
  A wave document: the keys of \<open>AnnotatedWave.to_dict\<close> that describe membership, and the three
  keys a manual edit adds. The texts of Stage 6 other than the description are left out.
\<close>

record override_entry =
  oe_code :: string
  oe_family :: "string option"
  oe_count :: "nat option"
  oe_limit :: "nat option"
  oe_by :: string
  oe_at :: int

record manual_edit =
  me_edited_at :: int
  me_edited_by :: string
  me_edit_count :: nat
  me_note :: "string option"

record wave_doc =
  wd_wave_number :: nat
  wd_vm_ids :: "int list"
  wd_vm_names :: "string list"
  wd_group_ids :: "string list"
  wd_vm_count :: nat
  wd_estimated_risk :: string
  wd_concurrency_group_id :: nat
  wd_description :: string
  wd_method :: string
  wd_mtv_yaml_available :: bool
  wd_manual_edit :: "manual_edit option"
  wd_overrides :: "override_entry list"
  wd_reannotation :: "string option"

datatype exclusion = Blocked_for_type "string list" | Target_unresolved | Mapping_gaps "gap_kind list"

record migration_plan =
  mp_id :: int
  mp_name :: string
  mp_vm_ids :: "int list"
  mp_waves :: "wave_doc list"
  mp_mapping_ids :: "int list"
  mp_status :: string
  mp_migration_type :: string
  mp_series_id :: "string option"
  mp_series_index :: "nat option"
  mp_series_total :: "nat option"
  mp_excluded_vms :: "(int \<times> exclusion) list"
  mp_wave_number_seq :: "nat option"

datatype run_status = Run_pending | Run_running | Run_completed | Run_failed

text \<open>A baseline or validation run of one wave.\<close>

record run_row =
  rr_plan_id :: int
  rr_wave_number :: nat
  rr_status :: run_status

section \<open>The tables\<close>

record app_db =
  ad_session :: session
  ad_targets :: target_db
  ad_vcenters :: "(int \<times> string) list"
  ad_plans :: "migration_plan list"
  ad_baseline_runs :: "run_row list"
  ad_validation_runs :: "run_row list"
  ad_next_plan_id :: int

abbreviation ad_vms :: "app_db \<Rightarrow> vm list" where
  "ad_vms db \<equiv> s_vms (ad_session db)"

definition get_plan :: "app_db \<Rightarrow> int \<Rightarrow> migration_plan option" where
  "get_plan db pid = List.find (\<lambda>p. mp_id p = pid) (ad_plans db)"

section \<open>Partitions\<close>

record partition =
  pt_vcenter_id :: "int option"
  pt_cluster_id :: int
  pt_namespace :: string
  pt_vcenter_name :: "string option"
  pt_cluster_name :: "string option"

definition pt_key :: "partition \<Rightarrow> int option \<times> int \<times> string" where
  "pt_key p = (pt_vcenter_id p, pt_cluster_id p, pt_namespace p)"

definition partition_of :: "(int \<times> string) list \<Rightarrow> vm \<Rightarrow> resolved_target \<Rightarrow> partition option" where
  "partition_of vc_names v r =
     (case rt_cluster_id r of
        None \<Rightarrow> None
      | Some cid \<Rightarrow>
          if \<not> truthy (rt_namespace r) then None
          else Some \<lparr>pt_vcenter_id = vm_source_vcenter_id v, pt_cluster_id = cid,
            pt_namespace = or_empty (rt_namespace r),
            pt_vcenter_name = Option.bind (vm_source_vcenter_id v) (dict_get vc_names),
            pt_cluster_name = rt_cluster_name r\<rparr>)"

definition resolve_partitions :: "app_db \<Rightarrow> vm list \<Rightarrow> (int \<times> partition option) list" where
  "resolve_partitions db vms =
     (if vms = [] then []
      else (let resolutions = resolve_vms_iter vms (ad_targets db)
            in dict_of vm_id
                 (\<lambda>v. Option.bind (dict_get resolutions (vm_id v)) (partition_of (ad_vcenters db) v)) vms))"

definition REPRESENTATIVE_CANDIDATES :: nat where "REPRESENTATIVE_CANDIDATES = 3"

definition representative :: "app_db \<Rightarrow> migration_plan \<Rightarrow> vm option" where
  "representative db p =
     (let ids = take REPRESENTATIVE_CANDIDATES (mp_vm_ids p)
      in case List.map_filter (find_vm (ad_vms db)) ids of [] \<Rightarrow> None | v # _ \<Rightarrow> Some v)"

definition plan_partitions :: "app_db \<Rightarrow> migration_plan list \<Rightarrow> (int \<times> partition option) list" where
  "plan_partitions db plans =
     (let reps = List.map_filter (representative db) plans;
          by_vm = resolve_partitions db reps
      in dict_of mp_id
           (\<lambda>p. case representative db p of
              None \<Rightarrow> None | Some v \<Rightarrow> Option.bind (dict_get by_vm (vm_id v)) id) plans)"

section \<open>The plan of a VM\<close>

definition wave_number_of :: "wave_doc list \<Rightarrow> int \<Rightarrow> nat option" where
  "wave_number_of waves vid = map_option wd_wave_number (List.find (\<lambda>w. vid \<in> set (wd_vm_ids w)) waves)"

record plan_entry =
  pe_plan_id :: int
  pe_plan_name :: string
  pe_plan_wave_number :: "nat option"

definition index_step ::
  "int list \<Rightarrow> migration_plan \<Rightarrow> (int \<times> plan_entry) list \<Rightarrow> (int \<times> plan_entry) list" where
  "index_step wanted p out =
     fold (\<lambda>vid. dict_set vid \<lparr>pe_plan_id = mp_id p, pe_plan_name = mp_name p, pe_plan_wave_number = None\<rparr>)
       (filter (\<lambda>vid. vid \<in> set wanted) (mp_vm_ids p)) out"

definition add_wave :: "app_db \<Rightarrow> int \<Rightarrow> plan_entry \<Rightarrow> plan_entry" where
  "add_wave db vid e =
     e\<lparr>pe_plan_wave_number := Option.bind (get_plan db (pe_plan_id e)) (\<lambda>p. wave_number_of (mp_waves p) vid)\<rparr>"

definition vm_plan_index :: "app_db \<Rightarrow> int list \<Rightarrow> bool \<Rightarrow> (int \<times> plan_entry) list" where
  "vm_plan_index db wanted with_wave =
     (let rows = sort_key mp_id (filter (\<lambda>p. mp_status p \<noteq> ''failed'') (ad_plans db));
          out = fold (index_step wanted) rows []
      in if wanted = [] then []
         else if with_wave then map (\<lambda>(vid, e). (vid, add_wave db vid e)) out
         else out)"

section \<open>Facts\<close>

text \<open>The caches are the same for every selection, so a VM's partition does not depend on the others.\<close>

definition vm_partition :: "app_db \<Rightarrow> vm \<Rightarrow> partition option" where
  "vm_partition db v = partition_of (ad_vcenters db) v (resolve_vm_target v (ad_targets db))"

lemma dict_of_at:
  assumes "distinct (map f xs)" and "x \<in> set xs"
  shows "dict_get (dict_of f g xs) (f x) = Some (g x)"
proof -
  have "dict_has (dict_of f g xs) (f x)" using assms(2) by simp
  then obtain w where w: "dict_get (dict_of f g xs) (f x) = Some w" by (auto simp: dict_has_def)
  then obtain y where "y \<in> set xs" "f y = f x" "w = g y" by (auto dest!: dict_get_of_Some)
  with assms w show ?thesis by (auto simp: distinct_map inj_on_def)
qed

lemma resolve_partitions_at:
  assumes "distinct (map vm_id vms)" and "v \<in> set vms"
  shows "dict_get (resolve_partitions db vms) (vm_id v) = Some (vm_partition db v)"
proof -
  have "dict_get (resolve_vms_iter vms (ad_targets db)) (vm_id v) = Some (resolve_vm_target v (ad_targets db))"
    by (simp add: resolve_vms_iter_def Let_def resolve_vm_target_def dict_of_at [OF assms])
  moreover have "vms \<noteq> []" using assms(2) by auto
  ultimately show ?thesis
    by (simp add: resolve_partitions_def vm_partition_def Let_def dict_of_at [OF assms])
qed

end
