(* ===== verification/Collection_Engine.thy ===== *)
theory Collection_Engine
  imports Guest_State
begin

text \<open>
  Collecting one machine (\<open>app/core/collection/engine.py\<close>, \<open>collector_spec.py\<close>): every outcome of
  the SSH session becomes a result value. The session itself is a parameter, a function of the host,
  the port and the user name; timestamps, durations, error texts and the command log are left out.
\<close>

section \<open>The probe catalog\<close>

record probe_spec =
  ps_name :: string
  ps_data_key :: string
  ps_available :: bool

definition PASS1_SPEC :: "probe_spec list" where
  "PASS1_SPEC = map (\<lambda>(n, k, a). \<lparr>ps_name = n, ps_data_key = k, ps_available = a\<rparr>)
    [(''vm_identity'', ''meta'', True), (''systemd_services'', ''services'', True),
     (''network_interfaces'', ''network'', True), (''listening_ports'', ''ports'', True),
     (''mounts'', ''mounts'', True), (''cron'', ''cron'', True),
     (''uptime_load'', ''uptime'', False), (''memory'', ''memory'', False),
     (''disk_usage'', ''disk'', False), (''time_sync'', ''time_sync'', False),
     (''pending_reboot'', ''pending_reboot'', False), (''top_processes'', ''top_processes'', False),
     (''restart_loops'', ''restart_loops'', False), (''established_outbound'', ''established_outbound'', False),
     (''systemd_timers'', ''systemd_timers'', False), (''journal_errors'', ''journal_errors'', False),
     (''log_mtimes'', ''log_mtimes'', False), (''package_inventory'', ''package_inventory'', False),
     (''tls_cert_expiry'', ''tls_cert_expiry'', False)]"

definition pass1_probe_names :: "bool \<Rightarrow> string list" where
  "pass1_probe_names available_only =
     map ps_name (filter (\<lambda>p. \<not> available_only \<or> ps_available p) PASS1_SPEC)"

definition pass1_data_keys :: "string list" where
  "pass1_data_keys = map ps_data_key (filter ps_available PASS1_SPEC)"

definition probe_data_key :: "string \<Rightarrow> string" where
  "probe_data_key name =
     (case List.find (\<lambda>p. ps_name p = name) PASS1_SPEC of Some p \<Rightarrow> ps_data_key p | None \<Rightarrow> name)"

section \<open>Targets, outcomes, results\<close>

record vm_target =
  vt_vm_id :: int
  vt_host :: string
  vt_port :: int
  vt_username :: string
  vt_vcenter_id :: "int option"

datatype failure_category =
    Unreachable | Auth_failed | Host_key_changed | Command_failed | Partial | Timeout

record ssh_error =
  se_kind :: string
  se_text :: string
  se_fingerprint :: string

text \<open>
  What \<open>SSHCollector.collect\<close> does: return the state, with the keys its dict has and the
  fingerprint of the host key, or raise one of the exceptions the engine tells apart.
\<close>

datatype ssh_outcome =
    Ssh_state "string list" guest_state "string option"
  | Ssh_error ssh_error
  | Socket_timeout
  | Authentication_exception
  | Other_exception

record collection_result =
  cr_vm_id :: int
  cr_succeeded :: bool
  cr_collected_data :: "guest_state option"
  cr_host_key_fingerprint :: "string option"
  cr_probes_run :: "string list"
  cr_failure_category :: "failure_category option"

definition mk_result :: "int \<Rightarrow> bool \<Rightarrow> failure_category option \<Rightarrow> collection_result" where
  "mk_result i ok cat = \<lparr>cr_vm_id = i, cr_succeeded = ok, cr_collected_data = None,
     cr_host_key_fingerprint = None, cr_probes_run = pass1_probe_names True, cr_failure_category = cat\<rparr>"

section \<open>Collecting\<close>

definition categorize_ssh_error :: "ssh_error \<Rightarrow> failure_category" where
  "categorize_ssh_error e =
     (let msg = str_lower (se_text e); has = (\<lambda>s. contains_str s msg) in
      if se_kind e = ''host_key_mismatch'' then Host_key_changed
      else if se_kind e = ''host_key_unknown'' then Auth_failed
      else if se_kind e = ''auth_failed'' then Auth_failed
      else if has ''authentication'' then Auth_failed
      else if has ''timed out'' \<or> has ''timeout'' then Timeout
      else if has ''unreachable'' \<or> has ''no route'' \<or> has ''connection refused'' then Unreachable
      else if has ''name or service not known'' \<or> has ''could not resolve'' then Unreachable
      else Command_failed)"

text \<open>
  The collector that \<open>_make_collector\<close> builds keeps its default port: the port of the target is
  not passed on.
\<close>

definition COLLECTOR_PORT :: int where "COLLECTOR_PORT = 22"

definition state_result :: "int \<Rightarrow> string list \<Rightarrow> guest_state \<Rightarrow> string option \<Rightarrow> collection_result" where
  "state_result i keys st fp =
     (let missing = filter (\<lambda>k. k \<notin> set keys) pass1_data_keys;
          r = (mk_result i True None)\<lparr>cr_collected_data := Some st,
                cr_host_key_fingerprint := (if truthy fp then fp else None)\<rparr>
      in if missing \<noteq> []
         then r\<lparr>cr_failure_category := Some Partial,
                cr_probes_run := filter (\<lambda>p. probe_data_key p \<in> set keys) (pass1_probe_names True)\<rparr>
         else r)"

definition collect :: "(string \<Rightarrow> int \<Rightarrow> string \<Rightarrow> ssh_outcome) \<Rightarrow> vm_target \<Rightarrow> collection_result" where
  "collect ssh t =
     (if vt_host t = [] then mk_result (vt_vm_id t) False (Some Unreachable)
      else (case ssh (vt_host t) COLLECTOR_PORT (vt_username t) of
          Ssh_error e \<Rightarrow> (mk_result (vt_vm_id t) False (Some (categorize_ssh_error e)))
            \<lparr>cr_host_key_fingerprint := (if se_fingerprint e \<noteq> [] then Some (se_fingerprint e) else None)\<rparr>
        | Socket_timeout \<Rightarrow> mk_result (vt_vm_id t) False (Some Timeout)
        | Authentication_exception \<Rightarrow> mk_result (vt_vm_id t) False (Some Auth_failed)
        | Other_exception \<Rightarrow> mk_result (vt_vm_id t) False (Some Command_failed)
        | Ssh_state keys st fp \<Rightarrow> state_result (vt_vm_id t) keys st fp))"

lemma mk_result_simps [simp]:
  "cr_vm_id (mk_result i ok c) = i" "cr_succeeded (mk_result i ok c) = ok"
  "cr_failure_category (mk_result i ok c) = c" "cr_collected_data (mk_result i ok c) = None"
  by (simp_all add: mk_result_def)

lemma state_result_simps [simp]:
  "cr_vm_id (state_result i keys st fp) = i" "cr_succeeded (state_result i keys st fp)"
  "cr_collected_data (state_result i keys st fp) = Some st"
  by (simp_all add: state_result_def Let_def)

text \<open>The result names its target, and has data exactly when it succeeded.\<close>

lemma collect_vm_id [simp]: "cr_vm_id (collect ssh t) = vt_vm_id t"
  by (simp add: collect_def split: ssh_outcome.splits)

lemma collect_succeeded_iff: "cr_succeeded (collect ssh t) \<longleftrightarrow> cr_collected_data (collect ssh t) \<noteq> None"
  by (simp add: collect_def split: ssh_outcome.splits)

lemma collect_failure_categorized: "\<not> cr_succeeded (collect ssh t) \<Longrightarrow> cr_failure_category (collect ssh t) \<noteq> None"
  by (simp add: collect_def split: ssh_outcome.splits if_splits)

text \<open>A custom SSH port of the inventory row has no effect.\<close>

lemma collect_ignores_port: "collect ssh (t\<lparr>vt_port := p\<rparr>) = collect ssh t"
  by (simp add: collect_def split: ssh_outcome.splits)

end
