(* ===== verification/Collection_Batch.thy ===== *)
theory Collection_Batch
  imports Collection_Engine "HOL-Library.Multiset"
begin

text \<open>
  The bounded-concurrency orchestrator (\<open>app/core/collection/orchestrator.py\<close>) as a step relation.
  A target waits for the global semaphore, is admitted, waits for the semaphore of its vCenter, is
  collected, and its result is recorded. Between two suspension points an asyncio task runs alone, so
  recording the result, updating the circuit breaker, the callback and the release of the semaphores
  are one step. Which waiting task goes next is left open. The result of a target is fixed by the
  function \<open>engine\<close>; \<open>None\<close> is a raised exception.
\<close>

record batch_config =
  bc_max_concurrency :: int
  bc_per_vcenter :: int
  bc_breaker :: int

definition semaphore_size :: "batch_config \<Rightarrow> nat" where
  "semaphore_size c = nat (max 1 (min (bc_max_concurrency c) 100))"

definition per_vc_size :: "batch_config \<Rightarrow> nat" where
  "per_vc_size c = nat (max 0 (bc_per_vcenter c))"

definition breaker_threshold :: "batch_config \<Rightarrow> nat" where
  "breaker_threshold c = nat (max 0 (bc_breaker c))"

record batch =
  ba_waiting :: "vm_target list"
  ba_queued :: "vm_target list"
  ba_collecting :: "vm_target list"
  ba_results :: "(vm_target \<times> collection_result) list"
  ba_streak :: "int \<Rightarrow> nat"
  ba_tripped :: "int set"

definition batch_start :: "vm_target list \<Rightarrow> batch" where
  "batch_start ts = \<lparr>ba_waiting = ts, ba_queued = [], ba_collecting = [], ba_results = [],
     ba_streak = (\<lambda>_. 0), ba_tripped = {}\<rparr>"

section \<open>The parts of a task\<close>

definition CONNECTION_FAILURES :: "failure_category list" where
  "CONNECTION_FAILURES = [Unreachable, Timeout, Auth_failed]"

definition is_connection_failure :: "collection_result \<Rightarrow> bool" where
  "is_connection_failure r \<longleftrightarrow>
     (case cr_failure_category r of None \<Rightarrow> False | Some c \<Rightarrow> c \<in> set CONNECTION_FAILURES)"

definition collect_one :: "(vm_target \<Rightarrow> collection_result option) \<Rightarrow> vm_target \<Rightarrow> collection_result" where
  "collect_one engine t =
     (case engine t of Some r \<Rightarrow> r | None \<Rightarrow> mk_result (vt_vm_id t) False (Some Command_failed))"

definition short_circuit :: "vm_target \<Rightarrow> collection_result" where
  "short_circuit t = mk_result (vt_vm_id t) False (Some Unreachable)"

definition breaker_open :: "batch_config \<Rightarrow> batch \<Rightarrow> vm_target \<Rightarrow> bool" where
  "breaker_open c s t \<longleftrightarrow>
     breaker_threshold c \<noteq> 0 \<and> (case vt_vcenter_id t of None \<Rightarrow> False | Some vc \<Rightarrow> vc \<in> ba_tripped s)"

definition in_flight :: "batch \<Rightarrow> nat" where
  "in_flight s = length (ba_queued s) + length (ba_collecting s)"

definition vc_load :: "batch \<Rightarrow> int \<Rightarrow> nat" where
  "vc_load s vc = length (filter (\<lambda>t. vt_vcenter_id t = Some vc) (ba_collecting s))"

definition vc_free :: "batch_config \<Rightarrow> batch \<Rightarrow> vm_target \<Rightarrow> bool" where
  "vc_free c s t \<longleftrightarrow>
     per_vc_size c = 0 \<or> (case vt_vcenter_id t of None \<Rightarrow> True | Some vc \<Rightarrow> vc_load s vc < per_vc_size c)"

text \<open>Appending a result and updating the streak and the breaker of its vCenter.\<close>

definition record_result :: "batch_config \<Rightarrow> vm_target \<Rightarrow> collection_result \<Rightarrow> batch \<Rightarrow> batch" where
  "record_result c t r s =
     (let s1 = s\<lparr>ba_results := ba_results s @ [(t, r)]\<rparr> in
      case vt_vcenter_id t of
        None \<Rightarrow> s1
      | Some vc \<Rightarrow>
          if breaker_threshold c = 0 then s1
          else if is_connection_failure r
          then (let n = Suc (ba_streak s vc)
                in s1\<lparr>ba_streak := (ba_streak s)(vc := n),
                      ba_tripped := (if breaker_threshold c \<le> n then insert vc (ba_tripped s) else ba_tripped s)\<rparr>)
          else if cr_succeeded r then s1\<lparr>ba_streak := (ba_streak s)(vc := 0)\<rparr>
          else s1)"

section \<open>Steps\<close>

inductive batch_step ::
  "batch_config \<Rightarrow> (vm_target \<Rightarrow> collection_result option) \<Rightarrow> batch \<Rightarrow> batch \<Rightarrow> bool"
  for c engine where
  admit: "t \<in> set (ba_waiting s) \<Longrightarrow> in_flight s < semaphore_size c \<Longrightarrow> \<not> breaker_open c s t \<Longrightarrow>
     batch_step c engine s (s\<lparr>ba_waiting := remove1 t (ba_waiting s), ba_queued := ba_queued s @ [t]\<rparr>)"
| skip: "t \<in> set (ba_waiting s) \<Longrightarrow> in_flight s < semaphore_size c \<Longrightarrow> breaker_open c s t \<Longrightarrow>
     batch_step c engine s
       (record_result c t (short_circuit t) (s\<lparr>ba_waiting := remove1 t (ba_waiting s)\<rparr>))"
| connect: "t \<in> set (ba_queued s) \<Longrightarrow> vc_free c s t \<Longrightarrow>
     batch_step c engine s (s\<lparr>ba_queued := remove1 t (ba_queued s), ba_collecting := ba_collecting s @ [t]\<rparr>)"
| complete: "t \<in> set (ba_collecting s) \<Longrightarrow>
     batch_step c engine s
       (record_result c t (collect_one engine t) (s\<lparr>ba_collecting := remove1 t (ba_collecting s)\<rparr>))"

inductive batch_steps ::
  "batch_config \<Rightarrow> (vm_target \<Rightarrow> collection_result option) \<Rightarrow> batch \<Rightarrow> batch \<Rightarrow> bool"
  for c engine where
  here: "batch_steps c engine s s"
| further: "batch_steps c engine s s' \<Longrightarrow> batch_step c engine s' s'' \<Longrightarrow> batch_steps c engine s s''"

inductive_cases batch_stepE: "batch_step c engine s s'"

definition batch_done :: "batch \<Rightarrow> bool" where
  "batch_done s \<longleftrightarrow> ba_waiting s = [] \<and> ba_queued s = [] \<and> ba_collecting s = []"

text \<open>The results a run of the whole batch may return; an empty batch returns at once.\<close>

definition batch_returns ::
  "batch_config \<Rightarrow> (vm_target \<Rightarrow> collection_result option) \<Rightarrow> vm_target list \<Rightarrow> (vm_target \<times> collection_result) list \<Rightarrow> bool" where
  "batch_returns c engine ts rs \<longleftrightarrow>
     (\<exists>s. batch_steps c engine (batch_start ts) s \<and> batch_done s \<and> ba_results s = rs)"

section \<open>Recording a result\<close>

lemma record_result_simps [simp]:
  "ba_waiting (record_result c t r s) = ba_waiting s"
  "ba_queued (record_result c t r s) = ba_queued s"
  "ba_collecting (record_result c t r s) = ba_collecting s"
  "ba_results (record_result c t r s) = ba_results s @ [(t, r)]"
  by (simp_all add: record_result_def Let_def split: option.splits)

lemma in_flight_record [simp]: "in_flight (record_result c t r s) = in_flight s"
  by (simp add: in_flight_def)

lemma vc_load_record [simp]: "vc_load (record_result c t r s) vc = vc_load s vc"
  by (simp add: vc_load_def)

lemma tripped_record: "ba_tripped s \<subseteq> ba_tripped (record_result c t r s)"
  by (auto simp: record_result_def Let_def split: option.splits)

lemma collect_one_vm_id: "(\<And>r. engine t = Some r \<Longrightarrow> cr_vm_id r = vt_vm_id t) \<Longrightarrow> cr_vm_id (collect_one engine t) = vt_vm_id t"
  by (simp add: collect_one_def split: option.splits)

section \<open>Bounds\<close>

definition within_limits :: "batch_config \<Rightarrow> batch \<Rightarrow> bool" where
  "within_limits c s \<longleftrightarrow>
     in_flight s \<le> semaphore_size c \<and> (per_vc_size c \<noteq> 0 \<longrightarrow> (\<forall>vc. vc_load s vc \<le> per_vc_size c))"

lemma length_filter_remove1: "length (filter p (remove1 t xs)) \<le> length (filter p xs)"
  by (induction xs) auto

lemma length_remove1_mem: "t \<in> set xs \<Longrightarrow> Suc (length (remove1 t xs)) = length xs"
  by (induction xs) auto

lemma step_within_limits: "batch_step c engine s s' \<Longrightarrow> within_limits c s \<Longrightarrow> within_limits c s'"
proof (induction rule: batch_step.induct)
  case (admit t s)
  then show ?case by (simp add: within_limits_def in_flight_def vc_load_def)
next
  case (skip t s)
  then show ?case by (simp add: within_limits_def in_flight_def vc_load_def)
next
  case (connect t s)
  let ?s = "s\<lparr>ba_queued := remove1 t (ba_queued s), ba_collecting := ba_collecting s @ [t]\<rparr>"
  have "in_flight ?s = in_flight s"
    using length_remove1_mem [OF connect(1)] by (simp add: in_flight_def)
  moreover have "vc_load ?s vc \<le> per_vc_size c" if "per_vc_size c \<noteq> 0" for vc
    using that connect by (auto simp: vc_load_def within_limits_def vc_free_def)
  ultimately show ?case using connect(3) by (simp add: within_limits_def)
next
  case (complete t s)
  let ?s = "s\<lparr>ba_collecting := remove1 t (ba_collecting s)\<rparr>"
  have "in_flight ?s \<le> in_flight s"
    using length_remove1_mem [OF complete(1)] by (simp add: in_flight_def)
  moreover have "vc_load ?s vc \<le> vc_load s vc" for vc
    by (simp add: vc_load_def length_filter_remove1)
  ultimately show ?case using complete(2) unfolding within_limits_def vc_load_record in_flight_record
    by (meson order_trans)
qed

lemma steps_within_limits: "batch_steps c engine s s' \<Longrightarrow> within_limits c s \<Longrightarrow> within_limits c s'"
  by (induction rule: batch_steps.induct) (simp_all add: step_within_limits)

lemma start_within_limits [simp]: "within_limits c (batch_start ts)"
  by (simp add: within_limits_def batch_start_def in_flight_def vc_load_def)

text \<open>
  C27: the blast radius is bounded. In every reachable state of a batch at most
  \<open>max_concurrency\<close>, and never more than 100, targets are in flight, and at most
  \<open>max_concurrency_per_vcenter\<close> sessions to one vCenter are open, whatever the order of the tasks.
\<close>

theorem batch_bounded:
  assumes "batch_steps c engine (batch_start ts) s"
  shows "in_flight s \<le> semaphore_size c \<and> semaphore_size c \<le> 100 \<and>
    (0 < bc_per_vcenter c \<longrightarrow> (\<forall>vc. int (vc_load s vc) \<le> bc_per_vcenter c))"
proof -
  have lim: "within_limits c s" using steps_within_limits [OF assms] by simp
  have "semaphore_size c \<le> 100" by (simp add: semaphore_size_def)
  moreover have "int (vc_load s vc) \<le> bc_per_vcenter c" if "0 < bc_per_vcenter c" for vc
  proof -
    have "vc_load s vc \<le> nat (bc_per_vcenter c)"
      using lim that by (simp add: within_limits_def per_vc_size_def)
    with that show ?thesis by linarith
  qed
  ultimately show ?thesis using lim by (simp add: within_limits_def)
qed

section \<open>Completion\<close>

definition batch_work :: "batch \<Rightarrow> nat" where
  "batch_work s = 3 * length (ba_waiting s) + 2 * length (ba_queued s) + length (ba_collecting s)"

lemma step_work: "batch_step c engine s s' \<Longrightarrow> batch_work s' < batch_work s"
  by (induction rule: batch_step.induct) (auto simp: batch_work_def dest: length_remove1_mem)

definition targets_of :: "batch \<Rightarrow> vm_target multiset" where
  "targets_of s = mset (ba_waiting s) + mset (ba_queued s) + mset (ba_collecting s) + mset (map fst (ba_results s))"

lemma step_targets: "batch_step c engine s s' \<Longrightarrow> targets_of s' = targets_of s"
  by (induction rule: batch_step.induct) (auto simp: targets_of_def)

lemma steps_targets: "batch_steps c engine s s' \<Longrightarrow> targets_of s' = targets_of s"
  by (induction rule: batch_steps.induct) (simp_all add: step_targets)

lemma progress:
  assumes "within_limits c s" and "\<not> batch_done s"
  shows "\<exists>s'. batch_step c engine s s'"
proof (cases "ba_collecting s")
  case (Cons t ts)
  then show ?thesis using batch_step.complete [of t s] by auto
next
  case no_session: Nil
  show ?thesis
  proof (cases "ba_queued s")
    case (Cons t ts)
    have "vc_free c s t" by (auto simp: vc_free_def vc_load_def no_session split: option.splits)
    with Cons show ?thesis using batch_step.connect [of t s c engine] by auto
  next
    case Nil
    with assms(2) no_session obtain t where t: "t \<in> set (ba_waiting s)"
      by (cases "ba_waiting s") (auto simp: batch_done_def)
    have "in_flight s < semaphore_size c"
      by (simp add: in_flight_def Nil no_session semaphore_size_def)
    with t show ?thesis using batch_step.admit [of t s c engine] batch_step.skip [of t s c engine] by blast
  qed
qed

lemma done_targets:
  "batch_steps c engine (batch_start ts) s \<Longrightarrow> batch_done s \<Longrightarrow> mset (map fst (ba_results s)) = mset ts"
  using steps_targets [of c engine "batch_start ts" s] by (simp add: targets_of_def batch_done_def batch_start_def)

text \<open>
  C11: a batch always completes. No reachable state is stuck before every target has a result, every
  step uses up work, so there is no infinite run, and when the batch is done every target has exactly
  one result, whatever the engine returned or raised.
\<close>

theorem batch_completes:
  assumes "batch_steps c engine (batch_start ts) s"
  shows "(\<not> batch_done s \<longrightarrow> (\<exists>s'. batch_step c engine s s')) \<and>
    (\<forall>s'. batch_step c engine s s' \<longrightarrow> batch_work s' < batch_work s) \<and>
    (batch_done s \<longrightarrow> mset (map fst (ba_results s)) = mset ts)"
  using progress [OF steps_within_limits [OF assms]] step_work done_targets [OF assms] by auto

lemma steps_trans: "batch_steps c engine s' s'' \<Longrightarrow> batch_steps c engine s s' \<Longrightarrow> batch_steps c engine s s''"
  by (induction rule: batch_steps.induct) (auto intro: batch_steps.further)

lemma reaches_done:
  "batch_steps c engine (batch_start ts) s \<Longrightarrow> \<exists>s'. batch_steps c engine s s' \<and> batch_done s'"
proof (induction "batch_work s" arbitrary: s rule: less_induct)
  case less
  show ?case
  proof (cases "batch_done s")
    case True
    then show ?thesis by (meson batch_steps.here)
  next
    case False
    with less.prems obtain s' where s': "batch_step c engine s s'"
      using progress steps_within_limits start_within_limits by meson
    then have "batch_steps c engine (batch_start ts) s'" using less.prems by (meson batch_steps.further)
    with less.hyps step_work [OF s'] obtain s'' where "batch_steps c engine s' s''" "batch_done s''" by blast
    then show ?thesis using steps_trans s' by (meson batch_steps.intros)
  qed
qed

lemma batch_returns_some: "\<exists>rs. batch_returns c engine ts rs"
  unfolding batch_returns_def using reaches_done [OF batch_steps.here] by blast

section \<open>The results\<close>

definition results_ok :: "batch_config \<Rightarrow> (vm_target \<Rightarrow> collection_result option) \<Rightarrow> batch \<Rightarrow> bool" where
  "results_ok c engine s \<longleftrightarrow>
     (\<forall>(t, r)\<in>set (ba_results s). r = collect_one engine t \<or> breaker_threshold c \<noteq> 0 \<and> r = short_circuit t)"

lemma step_results_ok: "batch_step c engine s s' \<Longrightarrow> results_ok c engine s \<Longrightarrow> results_ok c engine s'"
  by (induction rule: batch_step.induct) (auto simp: results_ok_def breaker_open_def)

lemma steps_results_ok: "batch_steps c engine s s' \<Longrightarrow> results_ok c engine s \<Longrightarrow> results_ok c engine s'"
  by (induction rule: batch_steps.induct) (simp_all add: step_results_ok)

lemma batch_returns_targets: "batch_returns c engine ts rs \<Longrightarrow> mset (map fst rs) = mset ts"
  by (auto simp: batch_returns_def dest: done_targets simp flip: mset_map)

lemma batch_returns_ids:
  "batch_returns c (\<lambda>t. Some (collect ssh t)) ts rs \<Longrightarrow> (t, r) \<in> set rs \<Longrightarrow> cr_vm_id r = vt_vm_id t"
proof -
  assume "batch_returns c (\<lambda>t. Some (collect ssh t)) ts rs" and "(t, r) \<in> set rs"
  then obtain s where s: "batch_steps c (\<lambda>t. Some (collect ssh t)) (batch_start ts) s" "(t, r) \<in> set (ba_results s)"
    by (auto simp: batch_returns_def)
  have "results_ok c (\<lambda>t. Some (collect ssh t)) s"
    by (rule steps_results_ok [OF s(1)]) (simp add: results_ok_def batch_start_def)
  with s(2) show ?thesis by (auto simp: results_ok_def collect_one_def short_circuit_def)
qed

text \<open>
  C28: without the circuit breaker the outcome does not depend on the interleaving: every run of the
  batch returns, in some order, exactly the result of collecting each target.
\<close>

theorem batch_schedule_independent:
  assumes "batch_returns c engine ts rs" and "bc_breaker c \<le> 0"
  shows "mset rs = mset (map (\<lambda>t. (t, collect_one engine t)) ts)"
proof -
  obtain s where s: "batch_steps c engine (batch_start ts) s" "ba_results s = rs"
    using assms(1) by (auto simp: batch_returns_def)
  have "results_ok c engine s"
    by (rule steps_results_ok [OF s(1)]) (simp add: results_ok_def batch_start_def)
  then have ok: "\<forall>x\<in>set rs. x = (fst x, collect_one engine (fst x))"
    using assms(2) s(2) by (auto simp: results_ok_def breaker_threshold_def)
  then have "rs = map (\<lambda>t. (t, collect_one engine t)) (map fst rs)"
    by (induction rs) auto
  then have "mset rs = image_mset (\<lambda>t. (t, collect_one engine t)) (mset (map fst rs))"
    by (metis mset_map)
  also have "\<dots> = mset (map (\<lambda>t. (t, collect_one engine t)) ts)"
    using batch_returns_targets [OF assms(1)] by simp
  finally show ?thesis .
qed

section \<open>The circuit breaker\<close>

definition admitted :: "batch \<Rightarrow> int \<Rightarrow> vm_target multiset" where
  "admitted s vc = filter_mset (\<lambda>t. vt_vcenter_id t = Some vc) (mset (ba_queued s) + mset (ba_collecting s))"

lemma step_tripped: "batch_step c engine s s' \<Longrightarrow> ba_tripped s \<subseteq> ba_tripped s'"
  by (induction rule: batch_step.induct) (use tripped_record in fastforce)+

lemma remove1_subset: "filter_mset p (mset (remove1 t xs)) \<subseteq># filter_mset p (mset xs)"
  by (simp add: multiset_filter_mono)

lemma step_admitted:
  assumes "batch_step c engine s s'" and "vc \<in> ba_tripped s" and "breaker_threshold c \<noteq> 0"
  shows "admitted s' vc \<subseteq># admitted s vc"
  using assms
proof (induction rule: batch_step.induct)
  case (admit t s)
  then have "vt_vcenter_id t \<noteq> Some vc" by (auto simp: breaker_open_def)
  then show ?case by (simp add: admitted_def)
next
  case (skip t s)
  then show ?case by (simp add: admitted_def)
next
  case (connect t s)
  then show ?case by (simp add: admitted_def multiset_filter_mono)
next
  case (complete t s)
  have "mset (ba_queued s) + (mset (ba_collecting s) - {#t#}) \<subseteq># mset (ba_queued s) + mset (ba_collecting s)"
    by simp
  then show ?case unfolding admitted_def by (simp add: multiset_filter_mono)
qed

text \<open>
  The streak of a vCenter: connection failures since its last success, in the order of completion.
\<close>

fun streak_step :: "int \<Rightarrow> vm_target \<times> collection_result \<Rightarrow> nat \<Rightarrow> nat" where
  "streak_step vc (t, r) n =
     (if vt_vcenter_id t \<noteq> Some vc then n
      else if is_connection_failure r then Suc n else if cr_succeeded r then 0 else n)"

definition streak_of :: "int \<Rightarrow> (vm_target \<times> collection_result) list \<Rightarrow> nat" where
  "streak_of vc rs = fold (streak_step vc) rs 0"

definition breaker_ok :: "batch_config \<Rightarrow> batch \<Rightarrow> bool" where
  "breaker_ok c s \<longleftrightarrow> breaker_threshold c = 0 \<or>
     (\<forall>vc. ba_streak s vc = streak_of vc (ba_results s) \<and>
       (vc \<in> ba_tripped s \<longleftrightarrow> (\<exists>n \<le> length (ba_results s). breaker_threshold c \<le> streak_of vc (take n (ba_results s)))))"

lemma streak_of_snoc: "streak_of vc (rs @ [x]) = streak_step vc x (streak_of vc rs)"
  by (simp add: streak_of_def)

lemma prefix_exists_snoc:
  "(\<exists>n \<le> length (rs @ [x]). P (take n (rs @ [x]))) \<longleftrightarrow> (\<exists>n \<le> length rs. P (take n rs)) \<or> P (rs @ [x])"
proof
  assume "\<exists>n \<le> length (rs @ [x]). P (take n (rs @ [x]))"
  then obtain n where "n \<le> length (rs @ [x])" "P (take n (rs @ [x]))" by blast
  then show "(\<exists>n \<le> length rs. P (take n rs)) \<or> P (rs @ [x])"
    by (cases "n \<le> length rs") (auto simp: le_Suc_eq)
next
  assume "(\<exists>n \<le> length rs. P (take n rs)) \<or> P (rs @ [x])"
  then show "\<exists>n \<le> length (rs @ [x]). P (take n (rs @ [x]))"
  proof
    assume "\<exists>n \<le> length rs. P (take n rs)"
    then obtain n where "n \<le> length rs" "P (take n rs)" by blast
    then show ?thesis by (intro exI [of _ n]) simp
  next
    assume "P (rs @ [x])"
    then show ?thesis by (intro exI [of _ "length (rs @ [x])"]) simp
  qed
qed

lemma record_breaker_ok:
  assumes "breaker_ok c s"
  shows "breaker_ok c (record_result c t r s)"
proof (cases "breaker_threshold c = 0")
  case True
  then show ?thesis by (simp add: breaker_ok_def)
next
  case False
  let ?s = "record_result c t r s"
  have old: "ba_streak s vc = streak_of vc (ba_results s)"
    "vc \<in> ba_tripped s \<longleftrightarrow> (\<exists>n \<le> length (ba_results s). breaker_threshold c \<le> streak_of vc (take n (ba_results s)))" for vc
    using assms False by (auto simp: breaker_ok_def)
  have streak: "ba_streak ?s vc = streak_step vc (t, r) (ba_streak s vc)" for vc
    using False by (auto simp: record_result_def Let_def split: option.splits)
  have tripped: "vc \<in> ba_tripped ?s \<longleftrightarrow> vc \<in> ba_tripped s \<or> breaker_threshold c \<le> ba_streak ?s vc" for vc
  proof -
    have "breaker_threshold c \<le> ba_streak s vc \<Longrightarrow> vc \<in> ba_tripped s"
      unfolding old by (metis order_refl take_all)
    with False show ?thesis by (auto simp: record_result_def Let_def split: option.splits)
  qed
  show ?thesis
    unfolding breaker_ok_def record_result_simps prefix_exists_snoc [where P = "\<lambda>rs. breaker_threshold c \<le> streak_of _ rs"]
      tripped streak old streak_of_snoc by blast
qed

lemma start_breaker_ok [simp]: "breaker_ok c (batch_start ts)"
  by (auto simp: breaker_ok_def batch_start_def streak_of_def)

lemma breaker_ok_cong:
  "ba_streak s' = ba_streak s \<Longrightarrow> ba_tripped s' = ba_tripped s \<Longrightarrow> ba_results s' = ba_results s \<Longrightarrow>
     breaker_ok c s' = breaker_ok c s"
  by (simp add: breaker_ok_def)

lemma step_breaker_ok: "batch_step c engine s s' \<Longrightarrow> breaker_ok c s \<Longrightarrow> breaker_ok c s'"
proof (induction rule: batch_step.induct)
  case (admit t s)
  then show ?case by (simp cong: breaker_ok_cong add: breaker_ok_def)
next
  case (skip t s)
  then show ?case by (intro record_breaker_ok) (simp add: breaker_ok_def)
next
  case (connect t s)
  then show ?case by (simp add: breaker_ok_def)
next
  case (complete t s)
  then show ?case by (intro record_breaker_ok) (simp add: breaker_ok_def)
qed

lemma steps_breaker_ok: "batch_steps c engine s s' \<Longrightarrow> breaker_ok c s \<Longrightarrow> breaker_ok c s'"
  by (induction rule: batch_steps.induct) (simp_all add: step_breaker_ok)

lemma steps_tripped: "batch_steps c engine s s' \<Longrightarrow> ba_tripped s \<subseteq> ba_tripped s'"
  by (induction rule: batch_steps.induct) (auto dest: step_tripped)

lemma steps_admitted:
  "batch_steps c engine s s' \<Longrightarrow> vc \<in> ba_tripped s \<Longrightarrow> breaker_threshold c \<noteq> 0 \<Longrightarrow>
     admitted s' vc \<subseteq># admitted s vc"
proof (induction rule: batch_steps.induct)
  case (further s s' s'')
  moreover have "vc \<in> ba_tripped s'" using further steps_tripped by blast
  ultimately show ?case using step_admitted by (meson subset_mset.order_trans)
qed simp

text \<open>A result is what collecting gives, unless the breaker of its vCenter is open by now.\<close>

definition skips_ok :: "batch_config \<Rightarrow> (vm_target \<Rightarrow> collection_result option) \<Rightarrow> batch \<Rightarrow> bool" where
  "skips_ok c engine s \<longleftrightarrow>
     (\<forall>(t, r)\<in>set (ba_results s). r = collect_one engine t \<or> (\<exists>vc\<in>ba_tripped s. vt_vcenter_id t = Some vc))"

lemma step_skips_ok: "batch_step c engine s s' \<Longrightarrow> skips_ok c engine s \<Longrightarrow> skips_ok c engine s'"
proof (induction rule: batch_step.induct)
  case (skip t s)
  let ?s = "s\<lparr>ba_waiting := remove1 t (ba_waiting s)\<rparr>"
  have "ba_tripped s \<subseteq> ba_tripped (record_result c t (short_circuit t) ?s)"
    using tripped_record [of ?s c t "short_circuit t"] by simp
  with skip show ?case by (fastforce simp: skips_ok_def breaker_open_def split: option.splits)
next
  case (complete t s)
  let ?s = "s\<lparr>ba_collecting := remove1 t (ba_collecting s)\<rparr>"
  have "ba_tripped s \<subseteq> ba_tripped (record_result c t (collect_one engine t) ?s)"
    using tripped_record [of ?s c t "collect_one engine t"] by simp
  with complete show ?case by (fastforce simp: skips_ok_def)
qed (auto simp: skips_ok_def)

lemma steps_skips_ok: "batch_steps c engine s s' \<Longrightarrow> skips_ok c engine s \<Longrightarrow> skips_ok c engine s'"
  by (induction rule: batch_steps.induct) (simp_all add: step_skips_ok)

definition breaker_reached :: "batch_config \<Rightarrow> int \<Rightarrow> (vm_target \<times> collection_result) list \<Rightarrow> bool" where
  "breaker_reached c vc rs \<longleftrightarrow> (\<exists>n \<le> length rs. breaker_threshold c \<le> streak_of vc (take n rs))"

text \<open>
  C14: the circuit breaker isolates a failing vCenter and only that one. Once the completed results
  of a vCenter have shown the threshold of consecutive connection failures, no target of it is
  admitted any more, so only sessions already admitted still reach it. As long as they have not, every
  result of that vCenter comes from collecting its target.
\<close>

theorem breaker_isolates:
  assumes "batch_steps c engine (batch_start ts) s" and "batch_steps c engine s s'" and "0 < bc_breaker c"
  shows "(breaker_reached c vc (ba_results s) \<longrightarrow> admitted s' vc \<subseteq># admitted s vc) \<and>
    (\<not> breaker_reached c vc (ba_results s') \<longrightarrow>
       (\<forall>(t, r)\<in>set (ba_results s'). vt_vcenter_id t = Some vc \<longrightarrow> r = collect_one engine t))"
proof -
  have thr: "breaker_threshold c \<noteq> 0" using assms(3) by (simp add: breaker_threshold_def)
  have reach: "batch_steps c engine (batch_start ts) s'" using steps_trans [OF assms(2,1)] .
  have tripped: "vc \<in> ba_tripped b \<longleftrightarrow> breaker_reached c vc (ba_results b)"
    if "batch_steps c engine (batch_start ts) b" for b
    using steps_breaker_ok [OF that start_breaker_ok] thr by (auto simp: breaker_ok_def breaker_reached_def)
  have "skips_ok c engine s'"
    by (rule steps_skips_ok [OF reach]) (simp add: skips_ok_def batch_start_def)
  then show ?thesis
    using steps_admitted [OF assms(2) _ thr, of vc] tripped [OF assms(1)] tripped [OF reach]
    by (fastforce simp: skips_ok_def)
qed

section \<open>A concrete batch\<close>

definition site :: "int \<Rightarrow> vm_target" where
  "site i = \<lparr>vt_vm_id = i, vt_host = ''h'', vt_port = 22, vt_username = ''u'', vt_vcenter_id = Some 1\<rparr>"

definition down :: "vm_target \<Rightarrow> collection_result option" where
  "down t = Some (mk_result (vt_vm_id t) False (Some Timeout))"

definition small_batch :: batch_config where
  "small_batch = \<lparr>bc_max_concurrency = 1, bc_per_vcenter = 1, bc_breaker = 1\<rparr>"

text \<open>One session at a time and a breaker that opens at the first failure.\<close>

definition one_failed :: batch where
  "one_failed = record_result small_batch (site 1) (collect_one down (site 1)) ((batch_start [site 1, site 2])\<lparr>ba_waiting := [site 2]\<rparr>)"

lemma reach_one_failed: "batch_steps small_batch down (batch_start [site 1, site 2]) one_failed"
proof -
  let ?s0 = "batch_start [site 1, site 2]"
  let ?s1 = "?s0\<lparr>ba_waiting := remove1 (site 1) (ba_waiting ?s0), ba_queued := ba_queued ?s0 @ [site 1]\<rparr>"
  let ?s2 = "?s1\<lparr>ba_queued := remove1 (site 1) (ba_queued ?s1), ba_collecting := ba_collecting ?s1 @ [site 1]\<rparr>"
  have "batch_step small_batch down ?s0 ?s1"
    by (rule batch_step.admit) (simp_all add: batch_start_def in_flight_def semaphore_size_def small_batch_def breaker_open_def site_def)
  moreover have "batch_step small_batch down ?s1 ?s2"
    by (rule batch_step.connect) (simp_all add: batch_start_def vc_free_def vc_load_def site_def per_vc_size_def small_batch_def)
  moreover have "batch_step small_batch down ?s2 one_failed"
    using batch_step.complete [of "site 1" ?s2 small_batch down]
    by (simp add: one_failed_def batch_start_def)
  ultimately show ?thesis by (meson batch_steps.intros)
qed

lemma batch_bounded_witness: "in_flight one_failed \<le> 1"
  using batch_bounded [OF reach_one_failed] by (simp add: semaphore_size_def small_batch_def)

lemma batch_completes_witness: "\<exists>s'. batch_step small_batch down one_failed s'"
  using batch_completes [OF reach_one_failed]
  by (simp add: batch_done_def one_failed_def)

lemma one_failed_reached: "breaker_reached small_batch 1 (ba_results one_failed)"
  unfolding breaker_reached_def
  by (rule exI [of _ 1]) (simp add: one_failed_def batch_start_def streak_of_def breaker_threshold_def small_batch_def
      site_def collect_one_def down_def is_connection_failure_def CONNECTION_FAILURES_def)

definition all_results :: batch where
  "all_results = record_result small_batch (site 2) (short_circuit (site 2)) (one_failed\<lparr>ba_waiting := []\<rparr>)"

lemma reach_all_results: "batch_steps small_batch down one_failed all_results"
proof -
  have "breaker_open small_batch one_failed (site 2)"
    by (simp add: breaker_open_def one_failed_def batch_start_def breaker_threshold_def small_batch_def
        site_def collect_one_def down_def is_connection_failure_def CONNECTION_FAILURES_def record_result_def)
  then have "batch_step small_batch down one_failed all_results"
    using batch_step.skip [of "site 2" one_failed small_batch down]
    by (simp add: all_results_def one_failed_def in_flight_def semaphore_size_def small_batch_def batch_start_def)
  then show ?thesis by (meson batch_steps.intros)
qed

lemma breaker_isolates_witness: "admitted all_results 1 \<subseteq># admitted one_failed 1"
  using breaker_isolates [OF reach_one_failed reach_all_results, of 1] one_failed_reached
  by (simp add: small_batch_def)

definition no_breaker :: batch_config where
  "no_breaker = \<lparr>bc_max_concurrency = 1, bc_per_vcenter = 1, bc_breaker = 0\<rparr>"

lemma batch_schedule_independent_witness:
  "\<exists>rs. batch_returns no_breaker down [site 1] rs \<and> mset rs = {#(site 1, collect_one down (site 1))#}"
proof -
  obtain rs where "batch_returns no_breaker down [site 1] rs" using batch_returns_some by blast
  with batch_schedule_independent [OF this] show ?thesis by (auto simp: no_breaker_def)
qed

end
