(* ===== verification/Wave_Jobs.thy ===== *)
theory Wave_Jobs
  imports Plan_Membership Environment Collection_Diff Collection_Batch
begin

text \<open>
  Baseline and validation runs of a wave: the rows of \<open>app/models/baseline_run.py\<close> and
  \<open>validation_run.py\<close>, the endpoints of \<open>app/api/waves.py\<close> that create them, and the background
  tasks of \<open>app/core/collection/wave_jobs.py\<close>, cut where the task gives up control: the start up to
  the collection, the callback for one result, and the end. Timestamps, messages, the command audit
  and the dry-run preview are left out.
\<close>

section \<open>Rows and tables\<close>

record ssh_key =
  sk_id :: int
  sk_active :: bool
  sk_file_loads :: bool

datatype vm_collection_status = Coll_pending | Coll_in_progress | Coll_captured | Coll_failed

datatype vm_verdict = Vd_passed | Vd_warned | Vd_failed | Vd_unreachable

datatype classification_level = Unclassified | Cui | Secret | Top_secret

record baseline_run = run_row +
  br_id :: int
  br_ssh_key_id :: int
  br_total_vms :: nat
  br_captured_vms :: nat
  br_failed_vms :: nat
  br_authorized_by :: "string option"
  br_authorization_reason :: "string option"

record baseline =
  bl_id :: int
  bl_run_id :: int
  bl_vm_id :: int
  bl_status :: vm_collection_status
  bl_collected_data :: "guest_state option"
  bl_probes_run :: "string list"
  bl_host_key_fingerprint :: "string option"
  bl_failure_category :: "failure_category option"

record validation_run = run_row +
  vr_id :: int
  vr_ssh_key_id :: int
  vr_total_vms :: nat
  vr_passed_vms :: nat
  vr_warned_vms :: nat
  vr_failed_vms :: nat
  vr_unreachable_vms :: nat
  vr_authorized_by :: "string option"
  vr_authorization_reason :: "string option"

record vm_validation =
  vv_id :: int
  vv_run_id :: int
  vv_vm_id :: int
  vv_baseline_id :: "int option"
  vv_verdict :: vm_verdict
  vv_collected_data :: "guest_state option"
  vv_diff_result :: "collection_diff option"
  vv_host_key_changed :: bool
  vv_failure_category :: "failure_category option"

text \<open>The run tables beside the ones of \<open>app_db\<close>, and what the gates read.\<close>

record job_db =
  jd_app :: app_db
  jd_classification :: "(int \<times> classification_level) list"
  jd_keys :: "ssh_key list"
  jd_ssh_operations_enabled :: "bool option"
  jd_baseline_runs :: "baseline_run list"
  jd_baselines :: "baseline list"
  jd_validation_runs :: "validation_run list"
  jd_validations :: "vm_validation list"
  jd_next_id :: int
  jd_audit :: "(string \<times> string \<times> int) list"

text \<open>The view the plan endpoints have of the run tables.\<close>

definition app_view :: "job_db \<Rightarrow> app_db" where
  "app_view db = (jd_app db)\<lparr>ad_baseline_runs := map run_row.truncate (jd_baseline_runs db),
     ad_validation_runs := map run_row.truncate (jd_validation_runs db)\<rparr>"

definition find_baseline_run :: "job_db \<Rightarrow> int \<Rightarrow> baseline_run option" where
  "find_baseline_run db rid = List.find (\<lambda>r. br_id r = rid) (jd_baseline_runs db)"

definition find_validation_run :: "job_db \<Rightarrow> int \<Rightarrow> validation_run option" where
  "find_validation_run db rid = List.find (\<lambda>r. vr_id r = rid) (jd_validation_runs db)"

definition baselines_of :: "job_db \<Rightarrow> int \<Rightarrow> baseline list" where
  "baselines_of db rid = filter (\<lambda>b. bl_run_id b = rid) (jd_baselines db)"

definition validations_of :: "job_db \<Rightarrow> int \<Rightarrow> vm_validation list" where
  "validations_of db rid = filter (\<lambda>v. vv_run_id v = rid) (jd_validations db)"

definition update_baseline_run :: "int \<Rightarrow> (baseline_run \<Rightarrow> baseline_run) \<Rightarrow> job_db \<Rightarrow> job_db" where
  "update_baseline_run rid f db =
     db\<lparr>jd_baseline_runs := map (\<lambda>r. if br_id r = rid then f r else r) (jd_baseline_runs db)\<rparr>"

definition update_validation_run :: "int \<Rightarrow> (validation_run \<Rightarrow> validation_run) \<Rightarrow> job_db \<Rightarrow> job_db" where
  "update_validation_run rid f db =
     db\<lparr>jd_validation_runs := map (\<lambda>r. if vr_id r = rid then f r else r) (jd_validation_runs db)\<rparr>"

section \<open>The gates of the endpoints\<close>

datatype wave_error =
    Ssh_operations_disabled
  | Wave_plan_not_found int
  | Ssh_key_not_found int
  | Ssh_key_retired int
  | No_such_wave nat
  | Empty_wave nat
  | Wave_vms_missing "int list"
  | Authorization_required
  | No_completed_baseline nat
  | Baseline_run_not_found int
  | Run_not_finished int
  | No_failed_vms
  | Original_key_inactive

fun wave_status_code :: "wave_error \<Rightarrow> nat" where
  "wave_status_code Ssh_operations_disabled = 503"
| "wave_status_code (Wave_plan_not_found _) = 404"
| "wave_status_code (Ssh_key_not_found _) = 404"
| "wave_status_code (Baseline_run_not_found _) = 404"
| "wave_status_code _ = 422"

record run_create =
  rc_ssh_key_id :: int
  rc_authorized_by :: "string option"
  rc_authorization_reason :: "string option"

definition ssh_operations_enabled :: "job_db \<Rightarrow> bool" where
  "ssh_operations_enabled db \<longleftrightarrow> jd_ssh_operations_enabled db \<noteq> Some False"

definition find_key :: "job_db \<Rightarrow> int \<Rightarrow> ssh_key option" where
  "find_key db kid = List.find (\<lambda>k. sk_id k = kid) (jd_keys db)"

definition resolve_active_key :: "job_db \<Rightarrow> int \<Rightarrow> wave_error option" where
  "resolve_active_key db kid =
     (case find_key db kid of
        None \<Rightarrow> Some (Ssh_key_not_found kid)
      | Some k \<Rightarrow> if sk_active k then None else Some (Ssh_key_retired kid))"

definition resolve_wave_vm_ids :: "migration_plan \<Rightarrow> nat \<Rightarrow> int list option" where
  "resolve_wave_vm_ids p n = map_option wd_vm_ids (List.find (\<lambda>w. wd_wave_number w = n) (mp_waves p))"

definition resolve_wave_vms :: "job_db \<Rightarrow> migration_plan \<Rightarrow> nat \<Rightarrow> wave_error + vm list" where
  "resolve_wave_vms db p n =
     (case resolve_wave_vm_ids p n of
        None \<Rightarrow> Inl (No_such_wave n)
      | Some ids \<Rightarrow>
          if ids = [] then Inl (Empty_wave n)
          else (let vms = select_vms (ad_vms (jd_app db)) ids;
                    missing = sorted_diff ids (map vm_id vms)
                in if missing \<noteq> [] then Inl (Wave_vms_missing missing) else Inr vms))"

definition SENSITIVE_CLASSIFICATIONS :: "classification_level list" where
  "SENSITIVE_CLASSIFICATIONS = [Cui, Secret, Top_secret]"

definition is_sensitive_source :: "job_db \<Rightarrow> int \<Rightarrow> bool" where
  "is_sensitive_source db vc \<longleftrightarrow>
     (case dict_get (jd_classification db) vc of None \<Rightarrow> False | Some l \<Rightarrow> l \<in> set SENSITIVE_CLASSIFICATIONS)"

text \<open>The reasons are only texts; the gate applies when there is one.\<close>

definition authorization_requirement :: "job_db \<Rightarrow> vm list \<Rightarrow> bool" where
  "authorization_requirement db vms \<longleftrightarrow>
     list_ex (\<lambda>v. normalize (vm_environment v) = PRODUCTION) vms \<or>
     list_ex (\<lambda>v. case vm_source_vcenter_id v of None \<Rightarrow> False | Some vc \<Rightarrow> is_sensitive_source db vc) vms"

definition authorization_missing :: "job_db \<Rightarrow> vm list \<Rightarrow> run_create \<Rightarrow> bool" where
  "authorization_missing db vms payload \<longleftrightarrow>
     authorization_requirement db vms \<and>
     \<not> (truthy (rc_authorized_by payload) \<and> truthy (rc_authorization_reason payload))"

text \<open>The checks both kick-off endpoints start with, in their order.\<close>

definition wave_gate :: "job_db \<Rightarrow> int \<Rightarrow> nat \<Rightarrow> run_create \<Rightarrow> wave_error + vm list" where
  "wave_gate db pid n payload =
     (if \<not> ssh_operations_enabled db then Inl Ssh_operations_disabled
      else (case get_plan (jd_app db) pid of
          None \<Rightarrow> Inl (Wave_plan_not_found pid)
        | Some p \<Rightarrow>
            (case resolve_active_key db (rc_ssh_key_id payload) of
               Some e \<Rightarrow> Inl e
             | None \<Rightarrow>
                 (case resolve_wave_vms db p n of
                    Inl e \<Rightarrow> Inl e
                  | Inr vms \<Rightarrow>
                      if authorization_missing db vms payload then Inl Authorization_required
                      else Inr vms))))"

section \<open>Creating runs\<close>

definition new_baseline :: "int \<Rightarrow> int \<Rightarrow> int \<Rightarrow> baseline" where
  "new_baseline i rid vid = \<lparr>bl_id = i, bl_run_id = rid, bl_vm_id = vid, bl_status = Coll_pending,
     bl_collected_data = None, bl_probes_run = [], bl_host_key_fingerprint = None, bl_failure_category = None\<rparr>"

definition new_validation :: "int \<Rightarrow> int \<Rightarrow> int \<Rightarrow> vm_validation" where
  "new_validation i rid vid = \<lparr>vv_id = i, vv_run_id = rid, vv_vm_id = vid, vv_baseline_id = None,
     vv_verdict = Vd_unreachable, vv_collected_data = None, vv_diff_result = None,
     vv_host_key_changed = False, vv_failure_category = None\<rparr>"

text \<open>Ids come from one counter; the code has a sequence per table.\<close>

definition child_rows :: "(int \<Rightarrow> int \<Rightarrow> int \<Rightarrow> 'a) \<Rightarrow> int \<Rightarrow> int list \<Rightarrow> 'a list" where
  "child_rows mk rid vids = map (\<lambda>(k, vid). mk (rid + 1 + int k) rid vid) (enumerate 0 vids)"

definition insert_baseline_run :: "string \<Rightarrow> string \<Rightarrow> baseline_run \<Rightarrow> int list \<Rightarrow> job_db \<Rightarrow> job_db" where
  "insert_baseline_run action actor run vids db =
     db\<lparr>jd_baseline_runs := jd_baseline_runs db @ [run],
        jd_baselines := jd_baselines db @ child_rows new_baseline (br_id run) vids,
        jd_next_id := jd_next_id db + 1 + int (length vids),
        jd_audit := jd_audit db @ [(action, actor, br_id run)]\<rparr>"

definition new_baseline_run ::
  "int \<Rightarrow> int \<Rightarrow> nat \<Rightarrow> int \<Rightarrow> nat \<Rightarrow> string option \<Rightarrow> string option \<Rightarrow> baseline_run" where
  "new_baseline_run rid pid n kid n_vms by reason = \<lparr>rr_plan_id = pid, rr_wave_number = n,
     rr_status = Run_pending, br_id = rid, br_ssh_key_id = kid, br_total_vms = n_vms, br_captured_vms = 0,
     br_failed_vms = 0, br_authorized_by = by, br_authorization_reason = reason\<rparr>"

definition kick_off_baseline_run ::
  "string \<Rightarrow> int \<Rightarrow> nat \<Rightarrow> run_create \<Rightarrow> job_db \<Rightarrow> job_db \<times> (wave_error + int)" where
  "kick_off_baseline_run actor pid n payload db =
     (case wave_gate db pid n payload of
        Inl e \<Rightarrow> (db, Inl e)
      | Inr vms \<Rightarrow>
          (let rid = jd_next_id db;
               needs_auth = authorization_requirement db vms;
               run = new_baseline_run rid pid n (rc_ssh_key_id payload) (length vms)
                 (if needs_auth then rc_authorized_by payload else None)
                 (if needs_auth then rc_authorization_reason payload else None)
           in (insert_baseline_run ''baseline_run.created'' actor run (map vm_id vms) db, Inr rid)))"

text \<open>A new run for the failed machines of a finished one.\<close>

definition retry_failed_baseline :: "string \<Rightarrow> int \<Rightarrow> job_db \<Rightarrow> job_db \<times> (wave_error + int)" where
  "retry_failed_baseline actor rid db =
     (if \<not> ssh_operations_enabled db then (db, Inl Ssh_operations_disabled)
      else (case find_baseline_run db rid of
          None \<Rightarrow> (db, Inl (Baseline_run_not_found rid))
        | Some prior \<Rightarrow>
            if rr_status prior \<notin> set [Run_completed, Run_failed] then (db, Inl (Run_not_finished rid))
            else (let failed_rows = filter (\<lambda>b. bl_status b = Coll_failed) (baselines_of db rid) in
              if failed_rows = [] then (db, Inl No_failed_vms)
              else if (case find_key db (br_ssh_key_id prior) of None \<Rightarrow> True | Some k \<Rightarrow> \<not> sk_active k)
              then (db, Inl Original_key_inactive)
              else (let nid = jd_next_id db;
                        run = new_baseline_run nid (rr_plan_id prior) (rr_wave_number prior) (br_ssh_key_id prior)
                          (length failed_rows) (br_authorized_by prior) (br_authorization_reason prior)
                    in (insert_baseline_run ''baseline_run.retry_failed'' actor run (map bl_vm_id failed_rows) db,
                        Inr nid)))))"

text \<open>\<open>order_by(BaselineRun.id.desc()).first()\<close> among the completed runs of the wave.\<close>

definition completed_baseline_runs :: "job_db \<Rightarrow> int \<Rightarrow> nat \<Rightarrow> baseline_run list" where
  "completed_baseline_runs db pid n =
     filter (\<lambda>r. rr_plan_id r = pid \<and> rr_wave_number r = n \<and> rr_status r = Run_completed) (jd_baseline_runs db)"

definition latest_completed_baseline_run :: "job_db \<Rightarrow> int \<Rightarrow> nat \<Rightarrow> baseline_run option" where
  "latest_completed_baseline_run db pid n =
     (case rev (sort_key br_id (completed_baseline_runs db pid n)) of [] \<Rightarrow> None | r # _ \<Rightarrow> Some r)"

definition kick_off_validation_run ::
  "string \<Rightarrow> int \<Rightarrow> nat \<Rightarrow> run_create \<Rightarrow> job_db \<Rightarrow> job_db \<times> (wave_error + int)" where
  "kick_off_validation_run actor pid n payload db =
     (case wave_gate db pid n payload of
        Inl e \<Rightarrow> (db, Inl e)
      | Inr vms \<Rightarrow>
          if completed_baseline_runs db pid n = [] then (db, Inl (No_completed_baseline n))
          else (let rid = jd_next_id db;
                    needs_auth = authorization_requirement db vms;
                    run = \<lparr>rr_plan_id = pid, rr_wave_number = n, rr_status = Run_pending, vr_id = rid,
                      vr_ssh_key_id = rc_ssh_key_id payload, vr_total_vms = length vms, vr_passed_vms = 0,
                      vr_warned_vms = 0, vr_failed_vms = 0, vr_unreachable_vms = 0,
                      vr_authorized_by = (if needs_auth then rc_authorized_by payload else None),
                      vr_authorization_reason = (if needs_auth then rc_authorization_reason payload else None)\<rparr>
                in (db\<lparr>jd_validation_runs := jd_validation_runs db @ [run],
                       jd_validations := jd_validations db @ child_rows new_validation rid (map vm_id vms),
                       jd_next_id := jd_next_id db + 1 + int (length vms),
                       jd_audit := jd_audit db @ [(''validation_run.created'', actor, rid)]\<rparr>, Inr rid)))"

section \<open>The baseline task\<close>

definition target_of_vm :: "vm \<Rightarrow> vm_target" where
  "target_of_vm v = \<lparr>vt_vm_id = vm_id v,
     vt_host = (if truthy (vm_ip_address v) then or_empty (vm_ip_address v)
                else if truthy (vm_target_hostname v) then or_empty (vm_target_hostname v)
                else or_empty (vm_source_hostname v)),
     vt_port = (if vm_ssh_port v = 0 then 22 else vm_ssh_port v),
     vt_username = (if truthy (vm_ssh_user v) then or_empty (vm_ssh_user v) else ''virtvalidate''),
     vt_vcenter_id = vm_source_vcenter_id v\<rparr>"

definition build_targets :: "job_db \<Rightarrow> int list \<Rightarrow> vm_target list" where
  "build_targets db vids =
     map (\<lambda>vid. case find_vm (ad_vms (jd_app db)) vid of
            None \<Rightarrow> \<lparr>vt_vm_id = vid, vt_host = [], vt_port = 22, vt_username = ''virtvalidate'', vt_vcenter_id = None\<rparr>
          | Some v \<Rightarrow> target_of_vm v) vids"

definition key_usable :: "job_db \<Rightarrow> int \<Rightarrow> bool" where
  "key_usable db kid \<longleftrightarrow> (case find_key db kid of None \<Rightarrow> False | Some k \<Rightarrow> sk_active k \<and> sk_file_loads k)"

text \<open>Up to the collection: the targets, or nothing when the task ends here.\<close>

definition baseline_start :: "int \<Rightarrow> job_db \<Rightarrow> job_db \<times> vm_target list option" where
  "baseline_start rid db =
     (case find_baseline_run db rid of
        None \<Rightarrow> (db, None)
      | Some run \<Rightarrow>
          if get_plan (jd_app db) (rr_plan_id run) = None
          then (update_baseline_run rid (\<lambda>r. r\<lparr>rr_status := Run_failed\<rparr>) db, None)
          else if \<not> key_usable db (br_ssh_key_id run)
          then (update_baseline_run rid (\<lambda>r. r\<lparr>rr_status := Run_failed\<rparr>) db, None)
          else (update_baseline_run rid (\<lambda>r. r\<lparr>rr_status := Run_running\<rparr>) db,
                Some (build_targets db (map bl_vm_id (baselines_of db rid)))))"

definition captured_row :: "collection_result \<Rightarrow> baseline \<Rightarrow> baseline" where
  "captured_row r b =
     b\<lparr>bl_host_key_fingerprint := cr_host_key_fingerprint r, bl_probes_run := cr_probes_run r,
       bl_status := (if cr_succeeded r then Coll_captured else Coll_failed),
       bl_collected_data := (if cr_succeeded r then cr_collected_data r else bl_collected_data b),
       bl_failure_category := cr_failure_category r\<rparr>"

definition count_captured :: "collection_result \<Rightarrow> baseline_run \<Rightarrow> baseline_run" where
  "count_captured r run =
     (if cr_succeeded r then run\<lparr>br_captured_vms := br_captured_vms run + 1\<rparr>
      else run\<lparr>br_failed_vms := br_failed_vms run + 1\<rparr>)"

text \<open>The callback: \<open>baselines_by_vm.get(result.vm_id)\<close>, the row and the counters.\<close>

definition baseline_record :: "int \<Rightarrow> collection_result \<Rightarrow> job_db \<Rightarrow> job_db" where
  "baseline_record rid r db =
     (case dict_get (dict_of bl_vm_id bl_id (baselines_of db rid)) (cr_vm_id r) of
        None \<Rightarrow> db
      | Some i \<Rightarrow>
          update_baseline_run rid (count_captured r)
            (db\<lparr>jd_baselines := map (\<lambda>b. if bl_id b = i then captured_row r b else b) (jd_baselines db)\<rparr>))"

definition baseline_finish :: "int \<Rightarrow> job_db \<Rightarrow> job_db" where
  "baseline_finish rid db = update_baseline_run rid (\<lambda>r. r\<lparr>rr_status := Run_completed\<rparr>) db"

definition run_baseline_task :: "int \<Rightarrow> collection_result list \<Rightarrow> job_db \<Rightarrow> job_db" where
  "run_baseline_task rid results db =
     (case baseline_start rid db of
        (db1, None) \<Rightarrow> db1
      | (db1, Some _) \<Rightarrow> baseline_finish rid (fold (baseline_record rid) results db1))"

section \<open>The validation task\<close>

definition validation_start :: "int \<Rightarrow> job_db \<Rightarrow> job_db \<times> (int \<times> vm_target list) option" where
  "validation_start rid db =
     (case find_validation_run db rid of
        None \<Rightarrow> (db, None)
      | Some run \<Rightarrow>
          if \<not> key_usable db (vr_ssh_key_id run)
          then (update_validation_run rid (\<lambda>r. r\<lparr>rr_status := Run_failed\<rparr>) db, None)
          else (case latest_completed_baseline_run db (rr_plan_id run) (rr_wave_number run) of
              None \<Rightarrow> (update_validation_run rid (\<lambda>r. r\<lparr>rr_status := Run_failed\<rparr>) db, None)
            | Some b \<Rightarrow> (update_validation_run rid (\<lambda>r. r\<lparr>rr_status := Run_running\<rparr>) db,
                Some (br_id b, build_targets db (map vv_vm_id (validations_of db rid))))))"

definition verdict_from_diff :: "collection_diff \<Rightarrow> vm_verdict" where
  "verdict_from_diff d =
     (if cd_overall d = V_fail then Vd_failed else if cd_overall d = V_warn then Vd_warned else Vd_passed)"

definition host_key_changed :: "baseline option \<Rightarrow> collection_result \<Rightarrow> bool" where
  "host_key_changed b r \<longleftrightarrow>
     (case b of None \<Rightarrow> False
      | Some b \<Rightarrow> truthy (bl_host_key_fingerprint b) \<and> truthy (cr_host_key_fingerprint r) \<and>
          bl_host_key_fingerprint b \<noteq> cr_host_key_fingerprint r)"

definition validated_row :: "baseline option \<Rightarrow> collection_result \<Rightarrow> vm_validation \<Rightarrow> vm_validation" where
  "validated_row baseline r v =
     (let v1 = v\<lparr>vv_baseline_id := map_option bl_id baseline, vv_collected_data := cr_collected_data r\<rparr> in
      if \<not> cr_succeeded r
      then v1\<lparr>vv_verdict := Vd_unreachable, vv_failure_category := cr_failure_category r\<rparr>
      else (let v2 = v1\<lparr>vv_host_key_changed := (host_key_changed baseline r \<or> vv_host_key_changed v)\<rparr> in
        case Option.bind baseline bl_collected_data of
          None \<Rightarrow> v2\<lparr>vv_verdict := Vd_unreachable, vv_failure_category := Some Partial\<rparr>
        | Some data \<Rightarrow>
            (let d = diff_collection (Some data) (cr_collected_data r)
             in v2\<lparr>vv_diff_result := Some d, vv_verdict := verdict_from_diff d,
                   vv_failure_category := cr_failure_category r\<rparr>)))"

definition count_verdict :: "vm_verdict \<Rightarrow> validation_run \<Rightarrow> validation_run" where
  "count_verdict vd run =
     (case vd of
        Vd_passed \<Rightarrow> run\<lparr>vr_passed_vms := vr_passed_vms run + 1\<rparr>
      | Vd_warned \<Rightarrow> run\<lparr>vr_warned_vms := vr_warned_vms run + 1\<rparr>
      | Vd_failed \<Rightarrow> run\<lparr>vr_failed_vms := vr_failed_vms run + 1\<rparr>
      | Vd_unreachable \<Rightarrow> run\<lparr>vr_unreachable_vms := vr_unreachable_vms run + 1\<rparr>)"

definition baseline_for :: "job_db \<Rightarrow> int \<Rightarrow> int \<Rightarrow> baseline option" where
  "baseline_for db brid vid = dict_get (dict_of bl_vm_id id (baselines_of db brid)) vid"

definition validation_record :: "int \<Rightarrow> int \<Rightarrow> collection_result \<Rightarrow> job_db \<Rightarrow> job_db" where
  "validation_record rid brid r db =
     (case dict_get (dict_of vv_vm_id id (validations_of db rid)) (cr_vm_id r) of
        None \<Rightarrow> db
      | Some v \<Rightarrow>
          (let v' = validated_row (baseline_for db brid (cr_vm_id r)) r v
           in update_validation_run rid (count_verdict (vv_verdict v'))
                (db\<lparr>jd_validations := map (\<lambda>w. if vv_id w = vv_id v then v' else w) (jd_validations db)\<rparr>)))"

definition validation_finish :: "int \<Rightarrow> job_db \<Rightarrow> job_db" where
  "validation_finish rid db = update_validation_run rid (\<lambda>r. r\<lparr>rr_status := Run_completed\<rparr>) db"

definition run_wave_validation_task :: "int \<Rightarrow> collection_result list \<Rightarrow> job_db \<Rightarrow> job_db" where
  "run_wave_validation_task rid results db =
     (case validation_start rid db of
        (db1, None) \<Rightarrow> db1
      | (db1, Some (brid, _)) \<Rightarrow> validation_finish rid (fold (validation_record rid brid) results db1))"

section \<open>Coverage and revocation\<close>

text \<open>The machines of a wave that its latest completed run captured.\<close>

definition baseline_coverage :: "job_db \<Rightarrow> int \<Rightarrow> nat \<Rightarrow> (baseline_run \<times> int list) option" where
  "baseline_coverage db pid n =
     map_option (\<lambda>run. (run, map bl_vm_id (filter (\<lambda>b. bl_status b = Coll_captured) (baselines_of db (br_id run)))))
       (latest_completed_baseline_run db pid n)"

datatype revoke_error =
    Revoke_plan_not_found int | Revoke_key_not_found int | Revoke_wave wave_error
  | No_completed_validation | Validation_has_failures nat

definition latest_completed_validation_run :: "job_db \<Rightarrow> int \<Rightarrow> nat \<Rightarrow> validation_run option" where
  "latest_completed_validation_run db pid n =
     (case rev (sort_key vr_id (filter (\<lambda>r. rr_plan_id r = pid \<and> rr_wave_number r = n \<and> rr_status r = Run_completed)
              (jd_validation_runs db))) of [] \<Rightarrow> None | r # _ \<Rightarrow> Some r)"

text \<open>The safety gate before the key is removed from the machines of a wave: the machines, or a refusal.\<close>

definition revocation_gate :: "job_db \<Rightarrow> int \<Rightarrow> nat \<Rightarrow> int \<Rightarrow> bool \<Rightarrow> revoke_error + vm list" where
  "revocation_gate db pid n kid force =
     (case get_plan (jd_app db) pid of
        None \<Rightarrow> Inl (Revoke_plan_not_found pid)
      | Some p \<Rightarrow>
          if find_key db kid = None then Inl (Revoke_key_not_found kid)
          else (case resolve_wave_vms db p n of
              Inl e \<Rightarrow> Inl (Revoke_wave e)
            | Inr vms \<Rightarrow>
                if force then Inr vms
                else (case latest_completed_validation_run db pid n of
                    None \<Rightarrow> Inl No_completed_validation
                  | Some latest \<Rightarrow>
                      if vr_failed_vms latest > 0 then Inl (Validation_has_failures (vr_failed_vms latest))
                      else Inr vms)))"

end
