(* ===== verification/Wave_Jobs_Properties.thy ===== *)
theory Wave_Jobs_Properties
  imports Wave_Jobs
begin

text \<open>What the runs of a wave guarantee: the gates, the counters, and what a retry does to the coverage.\<close>

section \<open>Recording results\<close>

text \<open>
  What the two tasks share: every result is written into the row of its machine and counted under
  the kind the row has then.
\<close>

locale result_recorder =
  fixes ok :: "'db \<Rightarrow> bool"
    and rows :: "'db \<Rightarrow> 'row list"
    and key :: "'row \<Rightarrow> int"
    and kind :: "'row \<Rightarrow> 'c"
    and counter :: "'db \<Rightarrow> 'c \<Rightarrow> nat"
    and put :: "'res \<Rightarrow> 'db \<Rightarrow> 'db"
    and res_key :: "'res \<Rightarrow> int"
    and fill :: "'res \<Rightarrow> 'row \<Rightarrow> 'row"
  assumes keys_distinct: "ok db \<Longrightarrow> distinct (map key (rows db))"
    and put_ok: "ok db \<Longrightarrow> ok (put r db)"
    and put_rows: "ok db \<Longrightarrow> rows (put r db) = map (\<lambda>w. if key w = res_key r then fill r w else w) (rows db)"
    and put_counter: "ok db \<Longrightarrow> w \<in> set (rows db) \<Longrightarrow> key w = res_key r \<Longrightarrow>
      counter (put r db) c = counter db c + (if kind (fill r w) = c then 1 else 0)"
    and fill_key: "key (fill r w) = key w"
begin

lemma put_keys: "ok db \<Longrightarrow> map key (rows (put r db)) = map key (rows db)"
  by (simp add: put_rows fill_key)

lemma fold_ok: "ok db \<Longrightarrow> ok (fold put rs db)"
  by (induction rs arbitrary: db) (simp_all add: put_ok)

lemma fold_keys: "ok db \<Longrightarrow> map key (rows (fold put rs db)) = map key (rows db)"
  by (induction rs arbitrary: db) (simp_all add: put_ok put_keys)

lemma count_written:
  assumes "distinct (map key ws)" and "w \<in> set ws" and "key w = k" and "k \<notin> D" and "\<And>x. key (f x) = key x"
  shows "length (filter (\<lambda>x. kind x = c \<and> key x \<in> insert k D) (map (\<lambda>x. if key x = k then f x else x) ws)) =
    length (filter (\<lambda>x. kind x = c \<and> key x \<in> D) ws) + (if kind (f w) = c then 1 else 0)"
  using assms
proof (induction ws)
  case (Cons x ws)
  show ?case
  proof (cases "key x = k")
    case True
    with Cons.prems have "w = x" and rest: "k \<notin> key ` set ws" by (auto simp: image_iff)
    have "length (filter (\<lambda>x. kind x = c \<and> key x \<in> insert k D) (map (\<lambda>x. if key x = k then f x else x) ws)) =
        length (filter (\<lambda>x. kind x = c \<and> key x \<in> D) ws)"
      using rest by (induction ws) auto
    with True \<open>w = x\<close> Cons.prems show ?thesis by simp
  next
    case False
    with Cons.prems have "w \<in> set ws" "distinct (map key ws)" by auto
    from Cons.IH [OF this(2,1) Cons.prems(3,4,5)] False show ?thesis by simp
  qed
qed simp

lemma fold_counter:
  "ok db \<Longrightarrow> distinct (map res_key rs) \<Longrightarrow> res_key ` set rs \<subseteq> key ` set (rows db) \<Longrightarrow>
     counter (fold put rs db) c = counter db c +
       length (filter (\<lambda>w. kind w = c \<and> key w \<in> res_key ` set rs) (rows (fold put rs db)))"
proof (induction rs rule: rev_induct)
  case (snoc r rs)
  let ?db = "fold put rs db"
  have ok: "ok ?db" using snoc.prems(1) by (rule fold_ok)
  have "key ` set (rows ?db) = key ` set (rows db)"
    using fold_keys [OF snoc.prems(1), of rs] by (metis set_map)
  with snoc.prems(3) have "res_key r \<in> key ` set (rows ?db)" by auto
  then obtain w where w: "w \<in> set (rows ?db)" "key w = res_key r" by (metis imageE)
  have "counter (fold put (rs @ [r]) db) c = counter ?db c + (if kind (fill r w) = c then 1 else 0)"
    using put_counter [OF ok w] by simp
  moreover have "length (filter (\<lambda>x. kind x = c \<and> key x \<in> res_key ` set (rs @ [r])) (rows (fold put (rs @ [r]) db))) =
      length (filter (\<lambda>x. kind x = c \<and> key x \<in> res_key ` set rs) (rows ?db)) + (if kind (fill r w) = c then 1 else 0)"
    using count_written [OF keys_distinct [OF ok] w, of "res_key ` set rs" "fill r" c] snoc.prems(2)
    by (simp add: put_rows [OF ok] fill_key)
  moreover have "counter ?db c = counter db c +
      length (filter (\<lambda>w. kind w = c \<and> key w \<in> res_key ` set rs) (rows ?db))"
    using snoc by simp
  ultimately show ?case by linarith
qed simp

text \<open>Every row is filled by the result of its machine.\<close>

lemma fold_filled:
  "ok db \<Longrightarrow> distinct (map res_key rs) \<Longrightarrow> w \<in> set (rows (fold put rs db)) \<Longrightarrow> key w \<in> res_key ` set rs \<Longrightarrow>
     \<exists>r\<in>set rs. \<exists>w0\<in>set (rows db). res_key r = key w \<and> key w0 = key w \<and> w = fill r w0"
proof (induction rs arbitrary: db)
  case (Cons r rs)
  note rest = Cons.IH [OF put_ok [OF Cons.prems(1)]]
  show ?case
  proof (cases "key w = res_key r")
    case True
    then have other: "key w \<notin> res_key ` set rs" using Cons.prems(2) by auto
    have keep: "ok d \<Longrightarrow> w \<in> set (rows (fold put xs d)) \<Longrightarrow> key w \<notin> res_key ` set xs \<Longrightarrow> w \<in> set (rows d)" for xs d
    proof (induction xs arbitrary: d)
      case (Cons x xs)
      then have "w \<in> set (rows (put x d))" by (simp add: put_ok)
      with Cons.prems(1,3) show ?case by (auto simp: put_rows fill_key split: if_splits)
    qed simp
    have "w \<in> set (rows (put r db))"
      using keep [OF put_ok [OF Cons.prems(1)] _ other] Cons.prems(3) by simp
    then show ?thesis using True Cons.prems(1) by (fastforce simp: put_rows fill_key split: if_splits)
  next
    case False
    with Cons.prems(4) have "key w \<in> res_key ` set rs" by simp
    with rest Cons.prems(2,3) have "\<exists>x\<in>set rs. \<exists>w1\<in>set (rows (put r db)). res_key x = key w \<and> key w1 = key w \<and> w = fill x w1"
      by simp
    then obtain x w1 where x: "x \<in> set rs" "res_key x = key w" "w1 \<in> set (rows (put r db))"
      "key w1 = key w" "w = fill x w1"
      by blast
    have "key w1 \<noteq> res_key r" using False x(4) by argo
    with x(3) have "w1 \<in> set (rows db)" by (auto simp: put_rows [OF Cons.prems(1)] fill_key split: if_splits)
    with x(2,4,5) have "\<exists>w0\<in>set (rows db). res_key x = key w \<and> key w0 = key w \<and> w = fill x w0" by blast
    with x(1) show ?thesis by (rule rev_bexI [OF list.set_intros(2)])
  qed
qed simp

lemma all_recorded:
  assumes "ok db" and "mset (map res_key rs) = mset (map key (rows db))" and "\<And>c. counter db c = 0"
  shows "counter (fold put rs db) c = length (filter (\<lambda>w. kind w = c) (rows (fold put rs db)))"
    and "\<forall>w\<in>set (rows (fold put rs db)). \<exists>r\<in>set rs. \<exists>w0\<in>set (rows db).
      res_key r = key w \<and> key w0 = key w \<and> w = fill r w0"
proof -
  have dist: "distinct (map res_key rs)"
    using assms(2) keys_distinct [OF assms(1)] by (metis mset_eq_imp_distinct_iff)
  have keys: "res_key ` set rs = key ` set (rows db)"
    using arg_cong [OF assms(2), of set_mset] by simp
  have all: "key w \<in> res_key ` set rs" if "w \<in> set (rows (fold put rs db))" for w
    using that keys fold_keys [OF assms(1), of rs] by (metis image_eqI set_map)
  then have "filter (\<lambda>w. kind w = c \<and> key w \<in> res_key ` set rs) (rows (fold put rs db)) =
      filter (\<lambda>w. kind w = c) (rows (fold put rs db))"
    by (intro filter_cong) auto
  with fold_counter [OF assms(1) dist, of c] keys assms(3)
  show "counter (fold put rs db) c = length (filter (\<lambda>w. kind w = c) (rows (fold put rs db)))" by simp
  show "\<forall>w\<in>set (rows (fold put rs db)). \<exists>r\<in>set rs. \<exists>w0\<in>set (rows db).
      res_key r = key w \<and> key w0 = key w \<and> w = fill r w0"
    using fold_filled [OF assms(1) dist] all by blast
qed

end

section \<open>Well-formed run tables\<close>

definition wf_jobs :: "job_db \<Rightarrow> bool" where
  "wf_jobs db \<longleftrightarrow> distinct (map vm_id (ad_vms (jd_app db))) \<and>
     distinct (map bl_id (jd_baselines db)) \<and> distinct (map vv_id (jd_validations db)) \<and>
     (\<forall>b\<in>set (jd_baselines db). bl_id b < jd_next_id db \<and> bl_run_id b < jd_next_id db) \<and>
     (\<forall>v\<in>set (jd_validations db). vv_id v < jd_next_id db \<and> vv_run_id v < jd_next_id db) \<and>
     (\<forall>r\<in>set (jd_baseline_runs db). br_id r < jd_next_id db) \<and>
     (\<forall>r\<in>set (jd_validation_runs db). vr_id r < jd_next_id db)"

lemma child_rows_of:
  "(\<And>i r v. run_of (mk i r v) = r) \<Longrightarrow> filter (\<lambda>b. run_of b = rid) (child_rows mk rid vids) = child_rows mk rid vids"
  by (rule filter_True) (auto simp: child_rows_def)

lemma child_rows_map:
  "(\<And>i r v. key (mk i r v) = v) \<Longrightarrow> map key (child_rows mk rid vids) = vids"
  by (simp add: child_rows_def comp_def split_def)

lemma child_rows_ids:
  assumes "\<And>i r v. f (mk i r v) = i"
  shows "map f (child_rows mk rid vids) = map (\<lambda>k. rid + 1 + int k) [0..<length vids]"
proof -
  have "map f (child_rows mk rid vids) = map (\<lambda>k. rid + 1 + int k) (map fst (enumerate 0 vids))"
    by (simp add: child_rows_def split_def comp_def assms del: map_fst_enumerate)
  then show ?thesis by simp
qed

lemma child_rows_mem: "b \<in> set (child_rows mk rid vids) \<Longrightarrow> \<exists>i v. v \<in> set vids \<and> rid < i \<and> i \<le> rid + int (length vids) \<and> b = mk i rid v"
proof -
  assume "b \<in> set (child_rows mk rid vids)"
  then obtain k where "k < length vids" "b = mk (rid + 1 + int k) rid (vids ! k)"
    by (auto simp: child_rows_def in_set_enumerate_eq)
  then show ?thesis by (intro exI [of _ "rid + 1 + int k"] exI [of _ "vids ! k"]) simp
qed

lemma distinct_child_ids: "distinct (map (\<lambda>k. rid + 1 + int k) [0..<n])"
  by (simp add: distinct_map inj_on_def)

lemma wave_gate_vms:
  assumes "wave_gate db pid n payload = Inr vms"
  obtains p ids where "get_plan (jd_app db) pid = Some p" "resolve_wave_vm_ids p n = Some ids" "ids \<noteq> []"
    "vms = select_vms (ad_vms (jd_app db)) ids" "set ids \<subseteq> vm_id ` set vms"
    "ssh_operations_enabled db" "resolve_active_key db (rc_ssh_key_id payload) = None"
    "\<not> authorization_missing db vms payload"
  using assms
  by (auto simp: wave_gate_def resolve_wave_vms_def Let_def split: if_splits option.splits sum.splits)

lemma wave_gate_distinct: "wf_jobs db \<Longrightarrow> wave_gate db pid n payload = Inr vms \<Longrightarrow> distinct (map vm_id vms)"
  by (erule wave_gate_vms) (auto simp: wf_jobs_def select_vms_def distinct_map intro: inj_on_subset)

lemma map_by_id:
  "distinct (map f xs) \<Longrightarrow> x \<in> set xs \<Longrightarrow> (\<And>y. y \<in> set xs \<Longrightarrow> P y \<longleftrightarrow> y = x) \<Longrightarrow>
     map (\<lambda>y. if f y = f x then g y else y) xs = map (\<lambda>y. if P y then g y else y) xs"
  by (auto simp: distinct_map inj_on_def)

lemma dict_of_unique:
  "distinct (map f xs) \<Longrightarrow> x \<in> set xs \<Longrightarrow> dict_get (dict_of f g xs) (f x) = Some (g x)"
proof -
  assume dist: "distinct (map f xs)" and x: "x \<in> set xs"
  then have "List.find (\<lambda>y. f y = f x) (rev xs) \<noteq> None" by (auto simp: find_None_iff)
  then obtain y where y: "List.find (\<lambda>y. f y = f x) (rev xs) = Some y" by auto
  then have "y \<in> set xs" "f y = f x" by (auto simp: find_Some_iff) (metis length_rev nth_mem set_rev)
  with dist x have "y = x" by (auto simp: distinct_map inj_on_def)
  with y show ?thesis by (simp add: dict_get_of)
qed

lemma dict_of_missing: "dict_get (dict_of f g xs) k = None \<longleftrightarrow> k \<notin> f ` set xs"
  by (auto simp: dict_get_of find_None_iff)

section \<open>Baseline runs\<close>

definition baseline_counter :: "int \<Rightarrow> job_db \<Rightarrow> vm_collection_status \<Rightarrow> nat" where
  "baseline_counter rid db c =
     (case find_baseline_run db rid of
        None \<Rightarrow> 0
      | Some run \<Rightarrow>
          (case c of Coll_captured \<Rightarrow> br_captured_vms run | Coll_failed \<Rightarrow> br_failed_vms run | _ \<Rightarrow> 0))"

definition baseline_open :: "int \<Rightarrow> job_db \<Rightarrow> bool" where
  "baseline_open rid db \<longleftrightarrow> find_baseline_run db rid \<noteq> None \<and> distinct (map bl_id (jd_baselines db)) \<and>
     distinct (map bl_vm_id (baselines_of db rid))"

lemma find_update_baseline:
  assumes "\<And>r. br_id (f r) = br_id r"
  shows "find_baseline_run (update_baseline_run rid f db) rid' =
    map_option (\<lambda>r. if br_id r = rid then f r else r) (find_baseline_run db rid')"
proof -
  have "List.find (\<lambda>r. br_id r = rid') (map (\<lambda>r. if br_id r = rid then f r else r) rs) =
      map_option (\<lambda>r. if br_id r = rid then f r else r) (List.find (\<lambda>r. br_id r = rid') rs)" for rs
    using assms by (induction rs) auto
  then show ?thesis by (simp add: find_baseline_run_def update_baseline_run_def)
qed

lemma find_run_id: "find_baseline_run db rid = Some r \<Longrightarrow> br_id r = rid"
  by (auto simp: find_baseline_run_def find_Some_iff)

lemma baselines_update_run [simp]:
  "baselines_of (update_baseline_run rid f db) rid' = baselines_of db rid'"
  "jd_baselines (update_baseline_run rid f db) = jd_baselines db"
  by (simp_all add: baselines_of_def update_baseline_run_def)

lemma captured_row_simps [simp]:
  "bl_id (captured_row r b) = bl_id b" "bl_run_id (captured_row r b) = bl_run_id b"
  "bl_vm_id (captured_row r b) = bl_vm_id b"
  "bl_status (captured_row r b) = (if cr_succeeded r then Coll_captured else Coll_failed)"
  by (simp_all add: captured_row_def)

lemma count_captured_id [simp]: "br_id (count_captured r run) = br_id run"
  by (simp add: count_captured_def)

lemma baseline_record_found:
  assumes "baseline_open rid db" and "b \<in> set (baselines_of db rid)" and "bl_vm_id b = cr_vm_id r"
  shows "baseline_record rid r db = update_baseline_run rid (count_captured r)
    (db\<lparr>jd_baselines := map (\<lambda>x. if bl_id x = bl_id b then captured_row r x else x) (jd_baselines db)\<rparr>)"
  using dict_of_unique [of bl_vm_id "baselines_of db rid" b bl_id] assms
  by (simp add: baseline_record_def baseline_open_def)

lemma baseline_record_missing:
  "cr_vm_id r \<notin> bl_vm_id ` set (baselines_of db rid) \<Longrightarrow> baseline_record rid r db = db"
  by (simp add: baseline_record_def dict_of_missing [THEN iffD2])

lemma baseline_record_rows:
  assumes "baseline_open rid db"
  shows "baselines_of (baseline_record rid r db) rid =
      map (\<lambda>b. if bl_vm_id b = cr_vm_id r then captured_row r b else b) (baselines_of db rid)"
proof (cases "cr_vm_id r \<in> bl_vm_id ` set (baselines_of db rid)")
  case True
  then obtain b where b: "b \<in> set (baselines_of db rid)" "bl_vm_id b = cr_vm_id r" by auto
  have "inj_on bl_id (set (jd_baselines db))" "inj_on bl_vm_id (set (baselines_of db rid))"
    using assms by (auto simp: baseline_open_def distinct_map)
  then have same: "bl_id x = bl_id b \<longleftrightarrow> bl_vm_id x = cr_vm_id r" if "x \<in> set (baselines_of db rid)" for x
    using that b by (auto simp: baselines_of_def inj_on_def)
  have "filter (\<lambda>x. bl_run_id x = rid) (map (\<lambda>x. if bl_id x = bl_id b then captured_row r x else x) xs) =
      map (\<lambda>x. if bl_id x = bl_id b then captured_row r x else x) (filter (\<lambda>x. bl_run_id x = rid) xs)" for xs
    by (induction xs) auto
  then show ?thesis
    using same by (simp add: baseline_record_found [OF assms b]) (simp add: baselines_of_def)
next
  case False
  then have "bl_vm_id b \<noteq> cr_vm_id r" if "b \<in> set (baselines_of db rid)" for b using that by (metis image_eqI)
  then have "map (\<lambda>b. if bl_vm_id b = cr_vm_id r then captured_row r b else b) (baselines_of db rid) = baselines_of db rid"
    by (intro map_idI) simp
  then show ?thesis by (simp add: baseline_record_missing [OF False])
qed

lemma baseline_record_ids:
  "map bl_id (jd_baselines (baseline_record rid r db)) = map bl_id (jd_baselines db)"
  by (auto simp: baseline_record_def split: option.splits)

lemma baseline_record_run:
  "find_baseline_run (baseline_record rid r db) rid = map_option
     (if cr_vm_id r \<in> bl_vm_id ` set (baselines_of db rid) then count_captured r else id) (find_baseline_run db rid)"
proof -
  have "find_baseline_run (db\<lparr>jd_baselines := x\<rparr>) rid = find_baseline_run db rid" for x
    by (simp add: find_baseline_run_def)
  moreover have "dict_get (dict_of bl_vm_id bl_id (baselines_of db rid)) (cr_vm_id r) = None \<longleftrightarrow>
      cr_vm_id r \<notin> bl_vm_id ` set (baselines_of db rid)"
    by (rule dict_of_missing)
  ultimately show ?thesis
    by (auto simp: baseline_record_def find_update_baseline dest: find_run_id split: option.splits
        intro!: map_option_cong simp: option.map_id)
qed

interpretation bl: result_recorder "baseline_open rid" "\<lambda>db. baselines_of db rid" bl_vm_id bl_status
  "baseline_counter rid" "baseline_record rid" cr_vm_id captured_row for rid
proof
  fix db r w and c :: vm_collection_status
  assume ok: "baseline_open rid db"
  then show "distinct (map bl_vm_id (baselines_of db rid))" by (simp add: baseline_open_def)
  show rows: "baselines_of (baseline_record rid r db) rid =
      map (\<lambda>w. if bl_vm_id w = cr_vm_id r then captured_row r w else w) (baselines_of db rid)"
    by (rule baseline_record_rows [OF ok])
  have "map bl_vm_id (baselines_of (baseline_record rid r db) rid) = map bl_vm_id (baselines_of db rid)"
    by (simp add: rows)
  with ok show "baseline_open rid (baseline_record rid r db)"
    by (simp add: baseline_open_def baseline_record_ids baseline_record_run)
  assume "w \<in> set (baselines_of db rid)" and "bl_vm_id w = cr_vm_id r"
  then have "cr_vm_id r \<in> bl_vm_id ` set (baselines_of db rid)" by (metis image_eqI)
  with ok show "baseline_counter rid (baseline_record rid r db) c =
      baseline_counter rid db c + (if bl_status (captured_row r w) = c then 1 else 0)"
    by (auto simp: baseline_open_def baseline_counter_def baseline_record_run count_captured_def
        split: vm_collection_status.splits)
next
  show "bl_vm_id (captured_row r w) = bl_vm_id w" for r w by simp
qed

lemma fresh_rows:
  assumes "wf_jobs db" and "rid = jd_next_id db"
  shows "filter (\<lambda>b. bl_run_id b = rid) (jd_baselines db) = []" "find_baseline_run db rid = None"
    "filter (\<lambda>v. vv_run_id v = rid) (jd_validations db) = []" "find_validation_run db rid = None"
  using assms by (force simp: wf_jobs_def filter_empty_conv find_baseline_run_def find_validation_run_def find_None_iff)+

lemma distinct_new_ids:
  assumes "distinct (map f xs)" and "\<forall>x\<in>set xs. f x < rid" and "\<And>i r v. f (mk i r v) = i"
  shows "distinct (map f (xs @ child_rows mk rid vids))"
proof -
  have "distinct (map f (child_rows mk rid vids))"
    by (simp add: child_rows_ids [where f = f, OF assms(3)] distinct_child_ids)
  moreover have "f x \<noteq> f y" if "x \<in> set xs" "y \<in> set (child_rows mk rid vids)" for x y
    using child_rows_mem [OF that(2)] assms(2,3) that(1) by force
  ultimately show ?thesis using assms(1) by auto
qed

lemma new_baseline_simps [simp]:
  "bl_id (new_baseline i r v) = i" "bl_run_id (new_baseline i r v) = r" "bl_vm_id (new_baseline i r v) = v"
  "bl_status (new_baseline i r v) = Coll_pending"
  by (simp_all add: new_baseline_def)

lemma insert_baseline_rows:
  assumes "wf_jobs db" and "br_id run = jd_next_id db"
  shows "baselines_of (insert_baseline_run act a run vids db) (jd_next_id db) = child_rows new_baseline (jd_next_id db) vids"
    "find_baseline_run (insert_baseline_run act a run vids db) (jd_next_id db) = Some run"
    "distinct (map bl_id (jd_baselines (insert_baseline_run act a run vids db)))"
proof -
  show "baselines_of (insert_baseline_run act a run vids db) (jd_next_id db) = child_rows new_baseline (jd_next_id db) vids"
    by (simp add: baselines_of_def insert_baseline_run_def assms(2) fresh_rows [OF assms(1) refl] child_rows_of)
  show "find_baseline_run (insert_baseline_run act a run vids db) (jd_next_id db) = Some run"
    using fresh_rows(2) [OF assms(1) refl]
    by (simp add: find_baseline_run_def insert_baseline_run_def find_append assms(2))
  show "distinct (map bl_id (jd_baselines (insert_baseline_run act a run vids db)))"
    using distinct_new_ids [of bl_id "jd_baselines db" "jd_next_id db" new_baseline vids] assms
    by (simp add: insert_baseline_run_def wf_jobs_def)
qed

lemma targets_ids: "map vt_vm_id (build_targets db vids) = vids"
proof -
  have "vt_vm_id (case find_vm rows vid of
      None \<Rightarrow> \<lparr>vt_vm_id = vid, vt_host = [], vt_port = 22, vt_username = ''virtvalidate'', vt_vcenter_id = None\<rparr>
    | Some v \<Rightarrow> target_of_vm v) = vid" for rows vid
    by (auto simp: target_of_vm_def find_vm_def find_Some_iff split: option.splits)
  then show ?thesis by (simp add: build_targets_def comp_def)
qed

lemma returned_ids:
  assumes "batch_returns c (\<lambda>t. Some (collect ssh t)) (build_targets db vids) trs"
  shows "mset (map cr_vm_id (map snd trs)) = mset vids"
proof -
  have "map cr_vm_id (map snd trs) = map vt_vm_id (map fst trs)"
    using batch_returns_ids [OF assms] by auto
  moreover have "mset (map vt_vm_id (map fst trs)) = mset (map vt_vm_id (build_targets db vids))"
    using batch_returns_targets [OF assms] by (metis mset_map)
  ultimately show ?thesis by (metis targets_ids)
qed

lemma fold_run_field:
  "(\<And>r run. f (count_captured r run) = f run) \<Longrightarrow>
     map_option f (find_baseline_run (fold (baseline_record rid) rs db) rid) =
     map_option f (find_baseline_run db rid)"
  by (induction rs arbitrary: db) (simp_all add: baseline_record_run option.map_comp comp_def)

lemma fold_total:
  "map_option br_total_vms (find_baseline_run (fold (baseline_record rid) rs db) rid) =
     map_option br_total_vms (find_baseline_run db rid)"
  by (rule fold_run_field) (simp add: count_captured_def)

text \<open>Running the task of a fresh run.\<close>

lemma baseline_task_accounts:
  assumes "find_baseline_run db rid = Some run" "baselines_of db rid = child_rows new_baseline rid vids"
    "distinct (map bl_id (jd_baselines db))" "distinct vids"
    and run: "br_captured_vms run = 0" "br_failed_vms run = 0"
    and start: "baseline_start rid db = (db1, Some targets)"
    and batch: "batch_returns c (\<lambda>t. Some (collect ssh t)) targets trs"
  defines "db' \<equiv> run_baseline_task rid (map snd trs) db"
  shows "\<exists>run'. find_baseline_run db' rid = Some run' \<and> rr_status run' = Run_completed \<and>
      br_total_vms run' = br_total_vms run \<and> br_captured_vms run' = length (filter (\<lambda>b. bl_status b = Coll_captured) (baselines_of db' rid)) \<and>
      br_failed_vms run' = length (filter (\<lambda>b. bl_status b = Coll_failed) (baselines_of db' rid))"
    and "map bl_vm_id (baselines_of db' rid) = vids"
    and "\<forall>b\<in>set (baselines_of db' rid). \<exists>r\<in>snd ` set trs. cr_vm_id r = bl_vm_id b \<and>
      b = captured_row r (new_baseline (bl_id b) rid (bl_vm_id b))"
proof -
  have keys: "map bl_vm_id (child_rows new_baseline rid vids) = vids" by (simp add: child_rows_map)
  have db1: "db1 = update_baseline_run rid (\<lambda>r. r\<lparr>rr_status := Run_running\<rparr>) db"
    and targets: "targets = build_targets db vids"
    using start assms(1,2) keys by (auto simp: baseline_start_def split: if_splits)
  let ?rs = "map snd trs"
  let ?done = "fold (baseline_record rid) ?rs db1"
  have db': "db' = baseline_finish rid ?done" by (simp add: db'_def run_baseline_task_def start)
  have run1: "find_baseline_run db1 rid = Some (run\<lparr>rr_status := Run_running\<rparr>)"
    using assms(1) find_run_id [OF assms(1)] by (simp add: db1 find_update_baseline)
  have rows1: "baselines_of db1 rid = child_rows new_baseline rid vids" by (simp add: db1 assms(2))
  have ok: "baseline_open rid db1"
    using assms(3,4) by (simp add: baseline_open_def run1 rows1 keys) (simp add: db1)
  have all: "mset (map cr_vm_id ?rs) = mset (map bl_vm_id (baselines_of db1 rid))"
    using returned_ids [OF batch [unfolded targets]] by (simp add: rows1 keys)
  have zero: "baseline_counter rid db1 c = 0" for c
    by (simp add: baseline_counter_def run1 run split: vm_collection_status.splits)
  note counted = bl.all_recorded(1) [OF ok all zero] and filled = bl.all_recorded(2) [OF ok all zero]
  have rows': "baselines_of db' rid = baselines_of ?done rid" by (simp add: db' baseline_finish_def)
  obtain run2 where run2: "find_baseline_run ?done rid = Some run2"
    using bl.fold_ok [OF ok, of ?rs] by (auto simp: baseline_open_def)
  have "find_baseline_run db' rid = Some (run2\<lparr>rr_status := Run_completed\<rparr>)"
    using find_run_id [OF run2] by (simp add: db' baseline_finish_def find_update_baseline run2)
  moreover have "br_total_vms run2 = br_total_vms run"
    using fold_total [of rid ?rs db1] by (simp add: run1 run2)
  ultimately show
    "\<exists>run'. find_baseline_run db' rid = Some run' \<and> rr_status run' = Run_completed \<and>
      br_total_vms run' = br_total_vms run \<and> br_captured_vms run' = length (filter (\<lambda>b. bl_status b = Coll_captured) (baselines_of db' rid)) \<and>
      br_failed_vms run' = length (filter (\<lambda>b. bl_status b = Coll_failed) (baselines_of db' rid))"
    using counted [of Coll_captured] counted [of Coll_failed]
    by (simp add: baseline_counter_def run2 rows')
  show "map bl_vm_id (baselines_of db' rid) = vids"
    using bl.fold_keys [OF ok, of ?rs] by (simp add: rows' rows1 keys)
  show "\<forall>b\<in>set (baselines_of db' rid). \<exists>r\<in>snd ` set trs. cr_vm_id r = bl_vm_id b \<and>
      b = captured_row r (new_baseline (bl_id b) rid (bl_vm_id b))"
  proof
    fix b assume "b \<in> set (baselines_of db' rid)"
    with filled obtain r w where r: "r \<in> set ?rs" "cr_vm_id r = bl_vm_id b" "w \<in> set (child_rows new_baseline rid vids)"
      "b = captured_row r w"
      unfolding rows' rows1 by blast
    from child_rows_mem [OF r(3)] obtain i v where "w = new_baseline i rid v" by blast
    with r(4) have "b = captured_row r (new_baseline (bl_id b) rid (bl_vm_id b))" by simp
    with r(1,2) show "\<exists>r\<in>snd ` set trs. cr_vm_id r = bl_vm_id b \<and>
      b = captured_row r (new_baseline (bl_id b) rid (bl_vm_id b))" by auto
  qed
qed

lemma length_partition:
  "(\<forall>x\<in>set xs. P x \<noteq> Q x) \<Longrightarrow> length (filter P xs) + length (filter Q xs) = length xs"
  by (induction xs) auto

text \<open>
  C12: a baseline run accounts for every machine. When the task of a freshly created run has collected
  its targets, in whatever order and whatever failed, the run is completed, its captured and failed
  counters are the numbers of captured and failed rows and add up to the total, every machine of the
  wave has one row, and a row is captured, with the collected data, exactly when its result succeeded.
\<close>

theorem baseline_run_accounts:
  assumes "wf_jobs db" and "kick_off_baseline_run actor pid n payload db = (db1, Inr rid)"
    and "baseline_start rid db1 = (db2, Some targets)"
    and "batch_returns c (\<lambda>t. Some (collect ssh t)) targets trs"
    and "db3 = run_baseline_task rid (map snd trs) db1"
  shows "\<exists>vms run. wave_gate db pid n payload = Inr vms \<and> find_baseline_run db3 rid = Some run \<and>
    rr_status run = Run_completed \<and> br_captured_vms run + br_failed_vms run = br_total_vms run \<and>
    br_captured_vms run = length (filter (\<lambda>b. bl_status b = Coll_captured) (baselines_of db3 rid)) \<and>
    map bl_vm_id (baselines_of db3 rid) = map vm_id vms \<and>
    (\<forall>b\<in>set (baselines_of db3 rid). \<exists>r\<in>snd ` set trs. cr_vm_id r = bl_vm_id b \<and>
       bl_status b = (if cr_succeeded r then Coll_captured else Coll_failed) \<and>
       (cr_succeeded r \<longrightarrow> bl_collected_data b = cr_collected_data r))"
proof -
  obtain vms where gate: "wave_gate db pid n payload = Inr vms" and rid: "rid = jd_next_id db"
    using assms(2) by (auto simp: kick_off_baseline_run_def Let_def split: sum.splits)
  let ?vids = "map vm_id vms"
  obtain run where db1: "db1 = insert_baseline_run ''baseline_run.created'' actor run ?vids db"
    and run: "br_id run = jd_next_id db" "br_captured_vms run = 0" "br_failed_vms run = 0" "br_total_vms run = length vms"
    using assms(2) gate by (auto simp: kick_off_baseline_run_def Let_def new_baseline_run_def)
  note rows = insert_baseline_rows [OF assms(1) run(1), of "''baseline_run.created''" actor ?vids, folded db1 rid]
  note task = baseline_task_accounts [OF rows(2,1,3) wave_gate_distinct [OF assms(1) gate] run(2,3) assms(3,4), folded assms(5)]
  then obtain run' where run': "find_baseline_run db3 rid = Some run'" "rr_status run' = Run_completed"
    "br_total_vms run' = length vms" "br_captured_vms run' = length (filter (\<lambda>b. bl_status b = Coll_captured) (baselines_of db3 rid))"
    "br_failed_vms run' = length (filter (\<lambda>b. bl_status b = Coll_failed) (baselines_of db3 rid))"
    using run(4) by auto
  have filled: "\<exists>r\<in>snd ` set trs. cr_vm_id r = bl_vm_id b \<and>
       bl_status b = (if cr_succeeded r then Coll_captured else Coll_failed) \<and>
       (cr_succeeded r \<longrightarrow> bl_collected_data b = cr_collected_data r)" if "b \<in> set (baselines_of db3 rid)" for b
  proof -
    from task(3) that obtain r where r: "r \<in> snd ` set trs" "cr_vm_id r = bl_vm_id b"
      "b = captured_row r (new_baseline (bl_id b) rid (bl_vm_id b))" by blast
    have "bl_status b = (if cr_succeeded r then Coll_captured else Coll_failed)"
      "cr_succeeded r \<longrightarrow> bl_collected_data b = cr_collected_data r"
      by (subst r(3), simp add: captured_row_def)+
    with r(1,2) show ?thesis by blast
  qed
  have "(bl_status b = Coll_captured) \<noteq> (bl_status b = Coll_failed)" if "b \<in> set (baselines_of db3 rid)" for b
    using filled [OF that] by (auto split: if_splits)
  then have "\<forall>b\<in>set (baselines_of db3 rid). (bl_status b = Coll_captured) \<noteq> (bl_status b = Coll_failed)"
    by blast
  from length_partition [OF this] task(2) run'(3,4,5)
  have "br_captured_vms run' + br_failed_vms run' = br_total_vms run'" by (metis length_map)
  with run' gate task(2) filled show ?thesis by blast
qed

section \<open>Validation runs\<close>

fun verdict_count :: "vm_verdict \<Rightarrow> validation_run \<Rightarrow> nat" where
  "verdict_count Vd_passed run = vr_passed_vms run"
| "verdict_count Vd_warned run = vr_warned_vms run"
| "verdict_count Vd_failed run = vr_failed_vms run"
| "verdict_count Vd_unreachable run = vr_unreachable_vms run"

definition validation_counter :: "int \<Rightarrow> job_db \<Rightarrow> vm_verdict \<Rightarrow> nat" where
  "validation_counter rid db vd = (case find_validation_run db rid of None \<Rightarrow> 0 | Some run \<Rightarrow> verdict_count vd run)"

text \<open>The validation tables in use, with the baselines \<open>B\<close> the run compares against.\<close>

definition validation_open :: "int \<Rightarrow> int \<Rightarrow> (int \<Rightarrow> baseline option) \<Rightarrow> job_db \<Rightarrow> bool" where
  "validation_open rid brid B db \<longleftrightarrow> find_validation_run db rid \<noteq> None \<and> distinct (map vv_id (jd_validations db)) \<and>
     distinct (map vv_vm_id (validations_of db rid)) \<and> (\<forall>vid. baseline_for db brid vid = B vid)"

lemma find_update_validation:
  assumes "\<And>r. vr_id (f r) = vr_id r"
  shows "find_validation_run (update_validation_run rid f db) rid' =
    map_option (\<lambda>r. if vr_id r = rid then f r else r) (find_validation_run db rid')"
proof -
  have "List.find (\<lambda>r. vr_id r = rid') (map (\<lambda>r. if vr_id r = rid then f r else r) rs) =
      map_option (\<lambda>r. if vr_id r = rid then f r else r) (List.find (\<lambda>r. vr_id r = rid') rs)" for rs
    using assms by (induction rs) auto
  then show ?thesis by (simp add: find_validation_run_def update_validation_run_def)
qed

lemma find_vrun_id: "find_validation_run db rid = Some r \<Longrightarrow> vr_id r = rid"
  by (auto simp: find_validation_run_def find_Some_iff)

lemma validations_update_run [simp]:
  "validations_of (update_validation_run rid f db) rid' = validations_of db rid'"
  "jd_validations (update_validation_run rid f db) = jd_validations db"
  "baseline_for (update_validation_run rid f db) brid vid = baseline_for db brid vid"
  by (simp_all add: validations_of_def update_validation_run_def baseline_for_def baselines_of_def)

lemma validated_row_simps [simp]:
  "vv_id (validated_row b r v) = vv_id v" "vv_run_id (validated_row b r v) = vv_run_id v"
  "vv_vm_id (validated_row b r v) = vv_vm_id v"
  by (simp_all add: validated_row_def Let_def split: option.splits)

text \<open>The verdict a machine should get.\<close>

definition expected_verdict :: "baseline option \<Rightarrow> collection_result \<Rightarrow> vm_verdict" where
  "expected_verdict b r =
     (if \<not> cr_succeeded r then Vd_unreachable
      else (case Option.bind b bl_collected_data of
          None \<Rightarrow> Vd_unreachable
        | Some data \<Rightarrow> verdict_from_diff (diff_collection (Some data) (cr_collected_data r))))"

lemma validated_verdict [simp]: "vv_verdict (validated_row b r v) = expected_verdict b r"
  by (simp add: validated_row_def expected_verdict_def Let_def split: option.splits)

lemma count_verdict_simps [simp]:
  "vr_id (count_verdict vd run) = vr_id run" "vr_total_vms (count_verdict vd run) = vr_total_vms run"
  "verdict_count vd' (count_verdict vd run) = verdict_count vd' run + (if vd = vd' then 1 else 0)"
  by (cases vd; cases vd'; simp add: count_verdict_def)+

lemma validation_record_found:
  assumes "validation_open rid brid B db" and "v \<in> set (validations_of db rid)" and "vv_vm_id v = cr_vm_id r"
  shows "validation_record rid brid r db =
    update_validation_run rid (count_verdict (expected_verdict (B (cr_vm_id r)) r))
      (db\<lparr>jd_validations := map (\<lambda>w. if vv_id w = vv_id v then validated_row (B (cr_vm_id r)) r v else w) (jd_validations db)\<rparr>)"
  using dict_of_unique [of vv_vm_id "validations_of db rid" v id] assms
  by (simp add: validation_record_def validation_open_def Let_def)

lemma validation_record_missing:
  "cr_vm_id r \<notin> vv_vm_id ` set (validations_of db rid) \<Longrightarrow> validation_record rid brid r db = db"
  by (simp add: validation_record_def dict_of_missing [THEN iffD2])

lemma validation_record_rows:
  assumes "validation_open rid brid B db"
  shows "validations_of (validation_record rid brid r db) rid =
      map (\<lambda>v. if vv_vm_id v = cr_vm_id r then validated_row (B (cr_vm_id r)) r v else v) (validations_of db rid)"
proof (cases "cr_vm_id r \<in> vv_vm_id ` set (validations_of db rid)")
  case True
  then obtain v where v: "v \<in> set (validations_of db rid)" "vv_vm_id v = cr_vm_id r" by auto
  let ?row = "validated_row (B (cr_vm_id r)) r v"
  have inj: "inj_on vv_id (set (jd_validations db))" "inj_on vv_vm_id (set (validations_of db rid))"
    using assms by (auto simp: validation_open_def distinct_map)
  then have same: "vv_id x = vv_id v \<longleftrightarrow> vv_vm_id x = cr_vm_id r" "vv_vm_id x = cr_vm_id r \<Longrightarrow> x = v"
    if "x \<in> set (validations_of db rid)" for x
    using that v by (auto simp: validations_of_def inj_on_def)
  have "vv_run_id v = rid" using v(1) by (simp add: validations_of_def)
  moreover have "vv_run_id x = rid" if "x \<in> set (jd_validations db)" "vv_id x = vv_id v" for x
    using that v(1) inj(1) by (auto simp: validations_of_def inj_on_def)
  ultimately have "filter (\<lambda>x. vv_run_id x = rid) (map (\<lambda>x. if vv_id x = vv_id v then ?row else x) xs) =
      map (\<lambda>x. if vv_id x = vv_id v then ?row else x) (filter (\<lambda>x. vv_run_id x = rid) xs)"
    if "set xs \<subseteq> set (jd_validations db)" for xs
    using that by (induction xs) auto
  then have "validations_of (validation_record rid brid r db) rid =
      map (\<lambda>x. if vv_id x = vv_id v then ?row else x) (validations_of db rid)"
    by (simp add: validation_record_found [OF assms v]) (simp add: validations_of_def)
  also have "\<dots> = map (\<lambda>x. if vv_vm_id x = cr_vm_id r then validated_row (B (cr_vm_id r)) r x else x) (validations_of db rid)"
    using same by (intro map_cong) auto
  finally show ?thesis .
next
  case False
  then have "vv_vm_id v \<noteq> cr_vm_id r" if "v \<in> set (validations_of db rid)" for v using that by (metis image_eqI)
  then have "map (\<lambda>v. if vv_vm_id v = cr_vm_id r then validated_row (B (cr_vm_id r)) r v else v) (validations_of db rid) =
      validations_of db rid"
    by (intro map_idI) simp
  then show ?thesis by (simp add: validation_record_missing [OF False])
qed

lemma validation_record_other:
  assumes "validation_open rid brid B db"
  shows "map vv_id (jd_validations (validation_record rid brid r db)) = map vv_id (jd_validations db)"
    and "find_validation_run (validation_record rid brid r db) rid = map_option
     (if cr_vm_id r \<in> vv_vm_id ` set (validations_of db rid) then count_verdict (expected_verdict (B (cr_vm_id r)) r) else id)
     (find_validation_run db rid)"
    and "baseline_for (validation_record rid brid r db) brid vid = baseline_for db brid vid"
proof -
  have keep: "find_validation_run (db\<lparr>jd_validations := x\<rparr>) rid = find_validation_run db rid"
    "baseline_for (db\<lparr>jd_validations := x\<rparr>) brid vid = baseline_for db brid vid" for x
    by (simp_all add: find_validation_run_def baseline_for_def baselines_of_def)
  show "map vv_id (jd_validations (validation_record rid brid r db)) = map vv_id (jd_validations db)"
    by (auto simp: validation_record_def Let_def split: option.splits)
  show "baseline_for (validation_record rid brid r db) brid vid = baseline_for db brid vid"
    by (auto simp: validation_record_def Let_def keep split: option.splits)
  show "find_validation_run (validation_record rid brid r db) rid = map_option
     (if cr_vm_id r \<in> vv_vm_id ` set (validations_of db rid) then count_verdict (expected_verdict (B (cr_vm_id r)) r) else id)
     (find_validation_run db rid)"
  proof (cases "cr_vm_id r \<in> vv_vm_id ` set (validations_of db rid)")
    case True
    then obtain v where v: "v \<in> set (validations_of db rid)" "vv_vm_id v = cr_vm_id r" by auto
    show ?thesis
      using True find_vrun_id [of db rid]
      by (simp add: validation_record_found [OF assms v] find_update_validation keep cong: map_option_cong)
  next
    case False
    then show ?thesis by (simp add: validation_record_missing option.map_id)
  qed
qed

interpretation vl: result_recorder "validation_open rid brid B" "\<lambda>db. validations_of db rid" vv_vm_id vv_verdict
  "validation_counter rid" "validation_record rid brid" cr_vm_id "\<lambda>r. validated_row (B (cr_vm_id r)) r" for rid brid B
proof
  fix db r v and c :: vm_verdict
  assume ok: "validation_open rid brid B db"
  then show "distinct (map vv_vm_id (validations_of db rid))" by (simp add: validation_open_def)
  show rows: "validations_of (validation_record rid brid r db) rid =
      map (\<lambda>w. if vv_vm_id w = cr_vm_id r then validated_row (B (cr_vm_id r)) r w else w) (validations_of db rid)"
    by (rule validation_record_rows [OF ok])
  have "map vv_vm_id (validations_of (validation_record rid brid r db) rid) = map vv_vm_id (validations_of db rid)"
    by (simp add: rows)
  with ok show "validation_open rid brid B (validation_record rid brid r db)"
    by (simp add: validation_open_def validation_record_other [OF ok])
  assume "v \<in> set (validations_of db rid)" and "vv_vm_id v = cr_vm_id r"
  then have "cr_vm_id r \<in> vv_vm_id ` set (validations_of db rid)" by (metis image_eqI)
  with ok show "validation_counter rid (validation_record rid brid r db) c =
      validation_counter rid db c + (if vv_verdict (validated_row (B (cr_vm_id r)) r v) = c then 1 else 0)"
    by (auto simp: validation_open_def validation_counter_def validation_record_other [OF ok])
next
  show "vv_vm_id (validated_row (B (cr_vm_id r)) r v) = vv_vm_id v" for r v by simp
qed

lemma fold_vtotal:
  "validation_open rid brid B db \<Longrightarrow>
     map_option vr_total_vms (find_validation_run (fold (validation_record rid brid) rs db) rid) =
     map_option vr_total_vms (find_validation_run db rid)"
proof (induction rs arbitrary: db)
  case (Cons r rs)
  from Cons.IH [OF vl.put_ok [OF Cons.prems]] show ?case
    by (simp add: validation_record_other [OF Cons.prems] option.map_comp comp_def)
qed simp

lemma count_four_verdicts:
  "length (filter (\<lambda>v. vv_verdict v = Vd_passed) vs) + length (filter (\<lambda>v. vv_verdict v = Vd_warned) vs) +
   length (filter (\<lambda>v. vv_verdict v = Vd_failed) vs) + length (filter (\<lambda>v. vv_verdict v = Vd_unreachable) vs) = length vs"
proof (induction vs)
  case (Cons v vs)
  then show ?case by (cases "vv_verdict v") simp_all
qed simp

lemma new_validation_simps [simp]:
  "vv_id (new_validation i r v) = i" "vv_run_id (new_validation i r v) = r" "vv_vm_id (new_validation i r v) = v"
  by (simp_all add: new_validation_def)

lemma all_verdicts: "(\<forall>vd. P vd) \<longleftrightarrow> P Vd_passed \<and> P Vd_warned \<and> P Vd_failed \<and> P Vd_unreachable"
  by (metis vm_verdict.exhaust)

lemma kick_off_validation_rows:
  assumes "wf_jobs db" and "kick_off_validation_run actor pid n payload db = (db1, Inr rid)"
    and gate: "wave_gate db pid n payload = Inr vms"
  shows "validations_of db1 rid = child_rows new_validation rid (map vm_id vms) \<and>
    distinct (map vv_id (jd_validations db1)) \<and>
    (\<exists>run. find_validation_run db1 rid = Some run \<and> vr_total_vms run = length vms \<and> (\<forall>vd. verdict_count vd run = 0))"
proof -
  obtain run where rid: "rid = jd_next_id db"
    and run: "vr_id run = rid" "vr_total_vms run = length vms" "\<forall>vd. verdict_count vd run = 0"
    and runs: "jd_validation_runs db1 = jd_validation_runs db @ [run]"
    and rows: "jd_validations db1 = jd_validations db @ child_rows new_validation rid (map vm_id vms)"
  proof
    show "rid = jd_next_id db"
      using assms(2) gate by (auto simp: kick_off_validation_run_def Let_def split: if_splits)
    let ?run = "last (jd_validation_runs db1)"
    show "vr_id ?run = rid" "vr_total_vms ?run = length vms" "\<forall>vd. verdict_count vd ?run = 0"
      "jd_validation_runs db1 = jd_validation_runs db @ [?run]"
      "jd_validations db1 = jd_validations db @ child_rows new_validation rid (map vm_id vms)"
      using assms(2) gate
      by (auto simp: kick_off_validation_run_def Let_def all_verdicts split: if_splits)
  qed
  have "validations_of db1 rid = child_rows new_validation rid (map vm_id vms)"
    by (simp add: validations_of_def rows fresh_rows [OF assms(1) rid] child_rows_of)
  moreover have "distinct (map vv_id (jd_validations db1))"
    using distinct_new_ids [of vv_id "jd_validations db" rid new_validation] assms(1)
    by (simp add: rows rid wf_jobs_def)
  moreover have "find_validation_run db1 rid = Some run"
    using fresh_rows(4) [OF assms(1) rid] by (simp add: find_validation_run_def runs find_append run(1))
  ultimately show ?thesis using run by blast
qed

text \<open>
  C13: a validation run accounts for every machine with the right verdict. When the task of a freshly
  created run has collected its targets, the run is completed, its four counters are the numbers of
  rows with that verdict and add up to the total, every machine of the wave has one row, and its
  verdict is the one its result and its row of the latest completed baseline run call for.
\<close>

theorem validation_run_accounts:
  assumes "wf_jobs db" and "kick_off_validation_run actor pid n payload db = (db1, Inr rid)"
    and "validation_start rid db1 = (db2, Some (brid, targets))"
    and "batch_returns c (\<lambda>t. Some (collect ssh t)) targets trs"
    and "db3 = run_wave_validation_task rid (map snd trs) db1"
  shows "\<exists>vms run. wave_gate db pid n payload = Inr vms \<and> find_validation_run db3 rid = Some run \<and>
    rr_status run = Run_completed \<and>
    vr_passed_vms run + vr_warned_vms run + vr_failed_vms run + vr_unreachable_vms run = vr_total_vms run \<and>
    (\<forall>vd. verdict_count vd run = length (filter (\<lambda>v. vv_verdict v = vd) (validations_of db3 rid))) \<and>
    map vv_vm_id (validations_of db3 rid) = map vm_id vms \<and>
    (\<forall>v\<in>set (validations_of db3 rid). \<exists>r\<in>snd ` set trs. cr_vm_id r = vv_vm_id v \<and>
       vv_verdict v = expected_verdict (baseline_for db1 brid (vv_vm_id v)) r)"
proof -
  obtain vms where gate: "wave_gate db pid n payload = Inr vms"
    using assms(2) by (auto simp: kick_off_validation_run_def split: sum.splits)
  let ?vids = "map vm_id vms" and ?rs = "map snd trs" and ?B = "baseline_for db1 brid"
  let ?done = "fold (validation_record rid brid) ?rs db2"
  from kick_off_validation_rows [OF assms(1,2) gate] obtain run where
    rows: "validations_of db1 rid = child_rows new_validation rid ?vids" "distinct (map vv_id (jd_validations db1))"
    and run: "find_validation_run db1 rid = Some run" "vr_total_vms run = length vms" "\<forall>vd. verdict_count vd run = 0"
    by blast
  have keys: "map vv_vm_id (child_rows new_validation rid ?vids) = ?vids" by (simp add: child_rows_map)
  have db2: "db2 = update_validation_run rid (\<lambda>r. r\<lparr>rr_status := Run_running\<rparr>) db1"
    and targets: "targets = build_targets db1 ?vids"
    using assms(3) run(1) keys by (auto simp: validation_start_def rows(1) split: if_splits option.splits)
  have run2: "find_validation_run db2 rid = Some (run\<lparr>rr_status := Run_running\<rparr>)"
    using run(1) find_vrun_id [OF run(1)] by (simp add: db2 find_update_validation)
  have rows2: "validations_of db2 rid = child_rows new_validation rid ?vids" by (simp add: db2 rows)
  have ok: "validation_open rid brid ?B db2"
    using wave_gate_distinct [OF assms(1) gate] rows(2)
    by (simp add: validation_open_def run2 rows2 keys) (simp add: db2)
  have all: "mset (map cr_vm_id ?rs) = mset (map vv_vm_id (validations_of db2 rid))"
    using returned_ids [OF assms(4) [unfolded targets]] by (simp add: rows2 keys)
  have zero: "validation_counter rid db2 vd = 0" for vd
    using run(3) by (cases vd) (simp_all add: validation_counter_def run2 all_verdicts)
  note counted = vl.all_recorded(1) [OF ok all zero] and filled = vl.all_recorded(2) [OF ok all zero]
  obtain run3 where run3: "find_validation_run ?done rid = Some run3"
    using vl.fold_ok [OF ok, of ?rs] by (auto simp: validation_open_def)
  let ?run = "run3\<lparr>rr_status := Run_completed\<rparr>"
  have db3: "db3 = validation_finish rid ?done" by (simp add: assms(5) run_wave_validation_task_def assms(3))
  have found: "find_validation_run db3 rid = Some ?run"
    using find_vrun_id [OF run3] by (simp add: db3 validation_finish_def find_update_validation run3)
  have rows3: "validations_of db3 rid = validations_of ?done rid" by (simp add: db3 validation_finish_def)
  have counts: "verdict_count vd ?run = length (filter (\<lambda>v. vv_verdict v = vd) (validations_of db3 rid))" for vd
    using counted [of vd] by (cases vd) (simp_all add: validation_counter_def run3 rows3)
  have ids: "map vv_vm_id (validations_of db3 rid) = ?vids"
    using vl.fold_keys [OF ok, of ?rs] by (simp add: rows3 rows2 keys)
  have "vr_total_vms ?run = length vms"
    using fold_vtotal [OF ok, of ?rs] run(2) by (simp add: run2 run3)
  then have "vr_passed_vms ?run + vr_warned_vms ?run + vr_failed_vms ?run + vr_unreachable_vms ?run = vr_total_vms ?run"
    using count_four_verdicts [of "validations_of db3 rid"] counts [of Vd_passed] counts [of Vd_warned]
      counts [of Vd_failed] counts [of Vd_unreachable] arg_cong [OF ids, of length]
    by simp
  moreover have "\<forall>v\<in>set (validations_of db3 rid). \<exists>r\<in>snd ` set trs. cr_vm_id r = vv_vm_id v \<and>
       vv_verdict v = expected_verdict (?B (vv_vm_id v)) r"
  proof
    fix v assume "v \<in> set (validations_of db3 rid)"
    with filled obtain r w where r: "r \<in> set ?rs" "cr_vm_id r = vv_vm_id v"
      "v = validated_row (?B (cr_vm_id r)) r w"
      unfolding rows3 by blast
    have "vv_verdict v = expected_verdict (?B (cr_vm_id r)) r" by (subst r(3), simp)
    with r(1,2) show "\<exists>r\<in>snd ` set trs. cr_vm_id r = vv_vm_id v \<and>
       vv_verdict v = expected_verdict (?B (vv_vm_id v)) r" by auto
  qed
  moreover have "rr_status ?run = Run_completed" by simp
  ultimately show ?thesis using gate found counts ids by blast
qed

section \<open>Retrying the failed machines\<close>

lemma fold_run_ids:
  "map br_id (jd_baseline_runs (fold (baseline_record rid) rs db)) = map br_id (jd_baseline_runs db)"
proof -
  have "map br_id (jd_baseline_runs (baseline_record rid r db)) = map br_id (jd_baseline_runs db)" for r db
    by (auto simp: baseline_record_def update_baseline_run_def comp_def split: option.splits intro!: map_cong)
  then show ?thesis by (induction rs arbitrary: db) simp_all
qed

lemma newest_by_key:
  assumes "x \<in> set xs" and "\<And>y. y \<in> set xs \<Longrightarrow> y = x \<or> f y < (f x :: int)"
  shows "\<exists>rest. rev (sort_key f xs) = x # rest"
proof -
  obtain y ys where ys: "rev (sort_key f xs) = y # ys"
    using assms(1) by (cases "rev (sort_key f xs)") (auto dest: arg_cong [of _ _ set])
  then have sorted: "sort_key f xs = rev ys @ [y]" by (metis rev.simps(2) rev_rev_ident)
  have "sorted (map f (rev ys @ [y]))" by (metis sorted sorted_sort_key)
  moreover have "set (rev ys @ [y]) = set xs" by (metis set_sort sorted)
  ultimately have "f x \<le> f y" "y \<in> set xs" using assms(1) by (auto simp: sorted_append)
  then have "y = x" using assms(2) [of y] by auto
  with ys show ?thesis by blast
qed

lemma fold_run_plan:
  "map_option (\<lambda>r. (rr_plan_id r, rr_wave_number r)) (find_baseline_run (fold (baseline_record rid) rs db) rid) =
     map_option (\<lambda>r. (rr_plan_id r, rr_wave_number r)) (find_baseline_run db rid)"
  by (rule fold_run_field) (simp add: count_captured_def)

text \<open>A run that is newest when its task completes is what the wave is validated against.\<close>

lemma newest_run_is_latest:
  assumes run: "find_baseline_run db rid = Some run"
    and newest: "\<forall>r\<in>set (jd_baseline_runs db). br_id r \<le> rid" "distinct (map br_id (jd_baseline_runs db))"
    and start: "baseline_start rid db = (db1, Some targets)"
  shows "\<exists>run'. br_id run' = rid \<and>
    latest_completed_baseline_run (run_baseline_task rid results db) (rr_plan_id run) (rr_wave_number run) = Some run'"
proof -
  let ?done = "fold (baseline_record rid) results db1"
  let ?db = "run_baseline_task rid results db"
  have db1: "db1 = update_baseline_run rid (\<lambda>r. r\<lparr>rr_status := Run_running\<rparr>) db"
    using start run by (auto simp: baseline_start_def split: if_splits)
  have "br_id run = rid" using run by (rule find_run_id)
  then have plan1: "map_option (\<lambda>r. (rr_plan_id r, rr_wave_number r)) (find_baseline_run db1 rid) =
      Some (rr_plan_id run, rr_wave_number run)"
    by (simp add: db1 find_update_baseline run)
  then obtain run2 where run2: "find_baseline_run ?done rid = Some run2"
    "rr_plan_id run2 = rr_plan_id run" "rr_wave_number run2 = rr_wave_number run"
    unfolding fold_run_plan [of rid results db1, symmetric] by auto
  let ?run = "run2\<lparr>rr_status := Run_completed\<rparr>"
  have db': "?db = baseline_finish rid ?done" by (simp add: run_baseline_task_def start)
  have found: "find_baseline_run ?db rid = Some ?run"
    using find_run_id [OF run2(1)] by (simp add: db' baseline_finish_def find_update_baseline run2(1))
  have "map br_id (jd_baseline_runs ?db) = map br_id (jd_baseline_runs ?done)"
    by (simp add: db' baseline_finish_def update_baseline_run_def)
  also have "\<dots> = map br_id (jd_baseline_runs db1)" by (rule fold_run_ids)
  also have "\<dots> = map br_id (jd_baseline_runs db)" by (simp add: db1 update_baseline_run_def)
  finally have ids: "map br_id (jd_baseline_runs ?db) = map br_id (jd_baseline_runs db)" .
  have mem: "?run \<in> set (jd_baseline_runs ?db)" and rid: "br_id ?run = rid"
    using found find_run_id [OF found] by (auto simp: find_baseline_run_def find_Some_iff)
  have "r = ?run \<or> br_id r < br_id ?run" if "r \<in> set (jd_baseline_runs ?db)" for r
  proof -
    have "br_id r \<in> set (map br_id (jd_baseline_runs db))" using that by (simp flip: ids)
    then have "br_id r \<le> rid" using newest(1) by auto
    moreover have "inj_on br_id (set (jd_baseline_runs ?db))" using newest(2) by (simp add: distinct_map flip: ids)
    then have "br_id r = br_id ?run \<longleftrightarrow> r = ?run" using that mem by (rule inj_on_eq_iff)
    ultimately show ?thesis using rid by linarith
  qed
  then have "\<exists>rest. rev (sort_key br_id (completed_baseline_runs ?db (rr_plan_id run) (rr_wave_number run))) = ?run # rest"
    using mem run2 by (intro newest_by_key) (auto simp: completed_baseline_runs_def)
  then have "latest_completed_baseline_run ?db (rr_plan_id run) (rr_wave_number run) = Some ?run"
    by (auto simp: latest_completed_baseline_run_def)
  with rid show ?thesis by blast
qed

text \<open>
  Retrying loses coverage. Once the run a retry created has completed, it is the baseline of the
  wave, and a machine the prior run had captured is no longer covered: there is no baseline row for
  it, and the validation calls it unreachable whatever is collected from it.
\<close>

theorem retry_drops_captured:
  assumes "wf_jobs db" and "find_baseline_run db rid = Some prior" and "distinct (map br_id (jd_baseline_runs db))"
    and "distinct (map bl_vm_id (baselines_of db rid))"
    and "b \<in> set (baselines_of db rid)" and "bl_status b = Coll_captured"
    and "retry_failed_baseline actor rid db = (db1, Inr nid)" and "baseline_start nid db1 = (db2, Some targets)"
    and "db3 = run_baseline_task nid results db1"
  shows "\<exists>run covered. baseline_coverage db3 (rr_plan_id prior) (rr_wave_number prior) = Some (run, covered) \<and>
    br_id run = nid \<and> bl_vm_id b \<notin> set covered \<and> baseline_for db3 nid (bl_vm_id b) = None \<and>
    expected_verdict (baseline_for db3 nid (bl_vm_id b)) r = Vd_unreachable"
proof -
  let ?failed = "filter (\<lambda>b. bl_status b = Coll_failed) (baselines_of db rid)"
  have nid: "nid = jd_next_id db"
    using assms(2,7) by (auto simp: retry_failed_baseline_def Let_def split: if_splits)
  obtain run where db1: "db1 = insert_baseline_run ''baseline_run.retry_failed'' actor run (map bl_vm_id ?failed) db"
    and run: "br_id run = jd_next_id db" "rr_plan_id run = rr_plan_id prior" "rr_wave_number run = rr_wave_number prior"
    using assms(2,7) by (auto simp: retry_failed_baseline_def Let_def new_baseline_run_def split: if_splits)
  note rows = insert_baseline_rows [OF assms(1) run(1), of "''baseline_run.retry_failed''" actor "map bl_vm_id ?failed",
      folded db1 nid]
  have "jd_baseline_runs db1 = jd_baseline_runs db @ [run]" by (simp add: db1 insert_baseline_run_def)
  moreover have "\<forall>r\<in>set (jd_baseline_runs db). br_id r < nid" using assms(1) by (simp add: wf_jobs_def nid)
  ultimately have "\<forall>r\<in>set (jd_baseline_runs db1). br_id r \<le> nid" "distinct (map br_id (jd_baseline_runs db1))"
    using assms(3) run(1) nid by auto
  from newest_run_is_latest [OF rows(2) this assms(8), of results] obtain run' where run': "br_id run' = nid"
    "latest_completed_baseline_run db3 (rr_plan_id prior) (rr_wave_number prior) = Some run'"
    unfolding assms(9) [symmetric] run(2,3) by blast
  have db2: "db2 = update_baseline_run nid (\<lambda>r. r\<lparr>rr_status := Run_running\<rparr>) db1"
    using assms(8) rows(2) by (auto simp: baseline_start_def split: if_splits)
  have dist: "distinct (map bl_vm_id ?failed)" using assms(4) by (auto simp: distinct_map intro: inj_on_subset)
  have keys: "map bl_vm_id (baselines_of db1 nid) = map bl_vm_id ?failed" by (simp add: rows(1) child_rows_map)
  have ok: "baseline_open nid db2"
    using rows(2,3) dist by (simp add: baseline_open_def db2 keys find_update_baseline)
  have "map bl_vm_id (baselines_of db3 nid) = map bl_vm_id (baselines_of db2 nid)"
    using bl.fold_keys [OF ok, of results] by (simp add: assms(9) run_baseline_task_def assms(8) baseline_finish_def)
  then have "map bl_vm_id (baselines_of db3 nid) = map bl_vm_id ?failed" by (simp add: db2 keys)
  then have ids: "bl_vm_id ` set (baselines_of db3 nid) = bl_vm_id ` set ?failed" by (metis set_map)
  have "bl_vm_id b \<notin> bl_vm_id ` set ?failed"
    using assms(4,5,6) by (auto simp: distinct_map inj_on_def)
  with ids have out: "bl_vm_id b \<notin> bl_vm_id ` set (baselines_of db3 nid)" by simp
  then have none: "baseline_for db3 nid (bl_vm_id b) = None" by (simp add: baseline_for_def dict_of_missing)
  with out run' show ?thesis by (auto simp: baseline_coverage_def expected_verdict_def)
qed

section \<open>The gates\<close>


text \<open>Without force, the key is removed only after a completed validation without failed machines.\<close>

lemma revocation_needs_clean_run:
  "revocation_gate db pid n kid False = Inr vms \<Longrightarrow>
     \<exists>latest. latest_completed_validation_run db pid n = Some latest \<and> vr_failed_vms latest = 0"
  by (auto simp: revocation_gate_def Let_def split: if_splits option.splits sum.splits)

section \<open>Examples\<close>

definition sample_wave :: wave_doc where
  "sample_wave = \<lparr>wd_wave_number = 1, wd_vm_ids = [1, 2], wd_vm_names = [], wd_group_ids = [], wd_vm_count = 2,
     wd_estimated_risk = [], wd_concurrency_group_id = 0, wd_description = [], wd_method = [],
     wd_mtv_yaml_available = True, wd_manual_edit = None, wd_overrides = [], wd_reannotation = None\<rparr>"

definition sample_plan :: migration_plan where
  "sample_plan = \<lparr>mp_id = 1, mp_name = ''p'', mp_vm_ids = [1, 2], mp_waves = [sample_wave], mp_mapping_ids = [],
     mp_status = ''planned'', mp_migration_type = ''cold'', mp_series_id = None, mp_series_index = None,
     mp_series_total = None, mp_excluded_vms = [], mp_wave_number_seq = None\<rparr>"

definition prod_vm :: "int \<Rightarrow> vm" where
  "prod_vm i = (mk_vm i ''vm'')\<lparr>vm_environment := Some ''Production'', vm_ip_address := Some ''10.0.0.1''\<rparr>"

definition sample_app :: app_db where
  "sample_app = \<lparr>ad_session = \<lparr>s_vms = [prod_vm 1, prod_vm 2], s_audit = []\<rparr>,
     ad_targets = \<lparr>td_mappings = [], td_clusters = [], td_networks = [], td_storage_classes = []\<rparr>,
     ad_vcenters = [], ad_plans = [sample_plan], ad_baseline_runs = [], ad_validation_runs = [], ad_next_plan_id = 2\<rparr>"

definition sample_jobs :: job_db where
  "sample_jobs = \<lparr>jd_app = sample_app, jd_classification = [],
     jd_keys = [\<lparr>sk_id = 7, sk_active = True, sk_file_loads = True\<rparr>], jd_ssh_operations_enabled = None,
     jd_baseline_runs = [], jd_baselines = [], jd_validation_runs = [], jd_validations = [], jd_next_id = 10, jd_audit = []\<rparr>"

definition approved :: run_create where
  "approved = \<lparr>rc_ssh_key_id = 7, rc_authorized_by = Some ''boss'', rc_authorization_reason = Some ''window''\<rparr>"

text \<open>A finished run that captured the first machine and not the second.\<close>

definition half_captured :: job_db where
  "half_captured = sample_jobs\<lparr>
     jd_baseline_runs := [(new_baseline_run 3 1 1 7 2 None None)\<lparr>rr_status := Run_completed, br_captured_vms := 1, br_failed_vms := 1\<rparr>],
     jd_baselines := [(new_baseline 4 3 1)\<lparr>bl_status := Coll_captured, bl_collected_data := Some empty_state\<rparr>,
       (new_baseline 5 3 2)\<lparr>bl_status := Coll_failed\<rparr>]\<rparr>"

definition no_answer :: "string \<Rightarrow> int \<Rightarrow> string \<Rightarrow> ssh_outcome" where
  "no_answer host p user = Socket_timeout"

definition one_by_one :: batch_config where
  "one_by_one = \<lparr>bc_max_concurrency = 1, bc_per_vcenter = 0, bc_breaker = 0\<rparr>"

lemma sample_wf: "wf_jobs sample_jobs" "wf_jobs half_captured"
  by (simp_all add: wf_jobs_def sample_jobs_def half_captured_def sample_app_def prod_vm_def new_baseline_run_def
      new_baseline_def mk_vm_def)


lemma baseline_run_accounts_witness:
  "\<exists>(trs :: (vm_target \<times> collection_result) list) run. find_baseline_run (run_baseline_task 10 (map snd trs)
       (fst (kick_off_baseline_run ''op'' 1 1 approved sample_jobs))) 10 = Some run \<and>
     br_captured_vms run + br_failed_vms run = br_total_vms run"
proof -
  let ?db1 = "fst (kick_off_baseline_run ''op'' 1 1 approved sample_jobs)"
  have kick: "kick_off_baseline_run ''op'' 1 1 approved sample_jobs = (?db1, Inr 10)"
    "snd (baseline_start 10 ?db1) \<noteq> None"
    by (rule prod_eqI; simp; code_simp) code_simp
  then obtain db2 targets where start: "baseline_start 10 ?db1 = (db2, Some targets)"
    by (cases "baseline_start 10 ?db1") auto
  obtain trs where "batch_returns one_by_one (\<lambda>t. Some (collect no_answer t)) targets trs"
    using batch_returns_some by blast
  from baseline_run_accounts [OF sample_wf(1) kick(1) start this refl] show ?thesis
    by (elim exE conjE) (intro exI conjI, assumption+)
qed

lemma validation_run_accounts_witness:
  "\<exists>(trs :: (vm_target \<times> collection_result) list) run. find_validation_run (run_wave_validation_task 10 (map snd trs)
       (fst (kick_off_validation_run ''op'' 1 1 approved half_captured))) 10 = Some run \<and>
     vr_passed_vms run + vr_warned_vms run + vr_failed_vms run + vr_unreachable_vms run = vr_total_vms run"
proof -
  let ?db1 = "fst (kick_off_validation_run ''op'' 1 1 approved half_captured)"
  have kick: "kick_off_validation_run ''op'' 1 1 approved half_captured = (?db1, Inr 10)"
    "snd (validation_start 10 ?db1) \<noteq> None"
    by (rule prod_eqI; simp; code_simp) code_simp
  then obtain db2 brid targets where start: "validation_start 10 ?db1 = (db2, Some (brid, targets))"
    by (cases "validation_start 10 ?db1") auto
  obtain trs where "batch_returns one_by_one (\<lambda>t. Some (collect no_answer t)) targets trs"
    using batch_returns_some by blast
  from validation_run_accounts [OF sample_wf(2) kick(1) start this refl] show ?thesis
    by (elim exE conjE) (intro exI conjI, assumption+)
qed

lemma retry_drops_captured_witness:
  "\<exists>run covered. baseline_coverage (run_baseline_task 10 [] (fst (retry_failed_baseline ''op'' 3 half_captured))) 1 1 =
     Some (run, covered) \<and> 1 \<notin> set covered"
proof -
  let ?db1 = "fst (retry_failed_baseline ''op'' 3 half_captured)"
  let ?b = "(new_baseline 4 3 1)\<lparr>bl_status := Coll_captured, bl_collected_data := Some empty_state\<rparr>"
  let ?run = "(new_baseline_run 3 1 1 7 2 None None)\<lparr>rr_status := Run_completed, br_captured_vms := 1, br_failed_vms := 1\<rparr>"
  have retry: "retry_failed_baseline ''op'' 3 half_captured = (?db1, Inr 10)" "snd (baseline_start 10 ?db1) \<noteq> None"
    by (rule prod_eqI; simp; code_simp) code_simp
  then obtain db2 targets where start: "baseline_start 10 ?db1 = (db2, Some targets)"
    by (cases "baseline_start 10 ?db1") auto
  have rows: "find_baseline_run half_captured 3 = Some ?run" "distinct (map br_id (jd_baseline_runs half_captured))"
    "baselines_of half_captured 3 = [?b, (new_baseline 5 3 2)\<lparr>bl_status := Coll_failed\<rparr>]"
    by (simp_all add: half_captured_def find_baseline_run_def baselines_of_def new_baseline_run_def new_baseline_def)
  have mem: "distinct (map bl_vm_id (baselines_of half_captured 3))" "?b \<in> set (baselines_of half_captured 3)"
    "bl_status ?b = Coll_captured"
    by (simp_all add: rows(3))
  from retry_drops_captured [OF sample_wf(2) rows(1,2) mem retry(1) start refl, of "[]" "mk_result 1 False None"]
  show ?thesis by (auto simp: new_baseline_run_def)
qed

text \<open>The gate before the key removal counts failed machines only: a run in which no machine was reached passes.\<close>

lemma revocation_admits_unreachable:
  "map_sum id (map vm_id) (revocation_gate (half_captured\<lparr>jd_validation_runs := [\<lparr>rr_plan_id = 1, rr_wave_number = 1,
      rr_status = Run_completed, vr_id = 9, vr_ssh_key_id = 7, vr_total_vms = 2, vr_passed_vms = 0, vr_warned_vms = 0,
      vr_failed_vms = 0, vr_unreachable_vms = 2, vr_authorized_by = None, vr_authorization_reason = None\<rparr>]\<rparr>) 1 1 7 False) =
   Inr [1, 2]"
  by code_simp

end
