(* ===== verification/Command_Guard.thy ===== *)
theory Command_Guard
  imports Prelude
begin

text \<open>
  The read-only gate in front of every SSH command (\<open>app/core/ssh_guard.py\<close>). Its regular expressions
  are written with matchers on positions, which give every way to match, so that backtracking is
  covered; \<open>shlex.split\<close> is the state machine of the Python library in POSIX mode. Strings are ASCII.
\<close>

section \<open>Evaluation\<close>

text \<open>Code equations that classify characters by integers, so that the kernel evaluates the gate on concrete commands.\<close>

lemma of_char_nat_int: "int (of_char c) = of_char c"
  by (simp add: of_char_def)

lemma is_upper_code [code]: "is_upper c \<longleftrightarrow> (let n = (of_char c :: int) in 65 \<le> n \<and> n \<le> 90)"
  by (simp add: is_upper_def Let_def flip: of_char_nat_int)

lemma is_lower_code [code]: "is_lower c \<longleftrightarrow> (let n = (of_char c :: int) in 97 \<le> n \<and> n \<le> 122)"
  by (simp add: is_lower_def Let_def flip: of_char_nat_int)

lemma is_digit_code [code]: "is_digit c \<longleftrightarrow> (let n = (of_char c :: int) in 48 \<le> n \<and> n \<le> 57)"
  by (simp add: is_digit_def Let_def flip: of_char_nat_int)

lemma is_space_code [code]:
  "is_space c \<longleftrightarrow> (let n = (of_char c :: int) in n = 32 \<or> (9 \<le> n \<and> n \<le> 13) \<or> (28 \<le> n \<and> n \<le> 31))"
  by (simp add: is_space_def Let_def flip: of_char_nat_int)

lemma lower_char_code [code]:
  "lower_char (Char b0 b1 b2 b3 b4 b5 b6 b7) =
     (if is_upper (Char b0 b1 b2 b3 b4 b5 b6 b7) then Char b0 b1 b2 b3 b4 True b6 b7 else Char b0 b1 b2 b3 b4 b5 b6 b7)"
proof (cases "is_upper (Char b0 b1 b2 b3 b4 b5 b6 b7)")
  case True
  then have "\<not> b5"
    by (cases b0; cases b1; cases b2; cases b3; cases b4; cases b5; cases b6; cases b7) (simp_all add: is_upper_def)
  with True show ?thesis
    by (simp add: char_eq_nat of_char_lower_char)
qed (simp add: lower_char_def)

lemma starts_with_code [code]:
  "starts_with [] s = True" "starts_with (c # p) [] = False"
  "starts_with (c # p) (d # s) = (c = d \<and> starts_with p s)"
  by (auto simp: starts_with_def)

section \<open>Regular expressions\<close>

text \<open>A position: the character before it, and the rest of the string.\<close>

type_synonym pos = "char option \<times> string"

definition rx_lit :: "string \<Rightarrow> pos \<Rightarrow> pos list" where
  "rx_lit s p = (if starts_with s (snd p) then [(if s = [] then fst p else Some (last s), drop (length s) (snd p))] else [])"

definition rx_chr :: "(char \<Rightarrow> bool) \<Rightarrow> pos \<Rightarrow> pos list" where
  "rx_chr q p = (case snd p of [] \<Rightarrow> [] | c # t \<Rightarrow> if q c then [(Some c, t)] else [])"

definition rx_seq :: "(pos \<Rightarrow> pos list) \<Rightarrow> (pos \<Rightarrow> pos list) \<Rightarrow> pos \<Rightarrow> pos list" where
  "rx_seq r1 r2 p = concat (map r2 (r1 p))"

definition rx_any :: "string list \<Rightarrow> pos \<Rightarrow> pos list" where
  "rx_any ws p = concat (map (\<lambda>w. rx_lit w p) ws)"

definition rx_opt :: "(pos \<Rightarrow> pos list) \<Rightarrow> pos \<Rightarrow> pos list" where
  "rx_opt r p = r p @ [p]"

text \<open>\<open>\s*\<close>\<close>

fun rx_spaces_from :: "char option \<Rightarrow> string \<Rightarrow> pos list" where
  "rx_spaces_from b [] = [(b, [])]"
| "rx_spaces_from b (c # t) = (b, c # t) # (if is_space c then rx_spaces_from (Some c) t else [])"

definition rx_spaces :: "pos \<Rightarrow> pos list" where
  "rx_spaces p = rx_spaces_from (fst p) (snd p)"

text \<open>\<open>\b\<close>\<close>

definition word_at :: "char option \<Rightarrow> bool" where
  "word_at c = (case c of None \<Rightarrow> False | Some c \<Rightarrow> is_word c)"

definition next_char :: "string \<Rightarrow> char option" where
  "next_char t = (case t of [] \<Rightarrow> None | c # _ \<Rightarrow> Some c)"

definition rx_boundary :: "pos \<Rightarrow> pos list" where
  "rx_boundary p = (if word_at (fst p) \<noteq> word_at (next_char (snd p)) then [p] else [])"

definition rx_not_ahead :: "(pos \<Rightarrow> pos list) \<Rightarrow> pos \<Rightarrow> pos list" where
  "rx_not_ahead r p = (if r p = [] then [p] else [])"

definition rx_not_behind :: "(char \<Rightarrow> bool) \<Rightarrow> pos \<Rightarrow> pos list" where
  "rx_not_behind q p = (case fst p of None \<Rightarrow> [p] | Some c \<Rightarrow> if q c then [] else [p])"

fun rx_search_from :: "(pos \<Rightarrow> pos list) \<Rightarrow> char option \<Rightarrow> string \<Rightarrow> bool" where
  "rx_search_from r b [] = (r (b, []) \<noteq> [])"
| "rx_search_from r b (c # t) = (r (b, c # t) \<noteq> [] \<or> rx_search_from r (Some c) t)"

definition rx_search :: "(pos \<Rightarrow> pos list) \<Rightarrow> string \<Rightarrow> bool" where
  "rx_search r s = rx_search_from r None s"

section \<open>Splitting a command\<close>

text \<open>\<open>re.split(r"\|\||&&|[|;&]", command)\<close>, with the parts stripped and the empty ones dropped.\<close>

definition is_separator :: "char \<Rightarrow> bool" where
  "is_separator c \<longleftrightarrow> c \<in> set [CHR ''|'', CHR '';'', CHR ''&'']"

fun raw_segments :: "string \<Rightarrow> string list" where
  "raw_segments [] = [[]]"
| "raw_segments (c # cs) =
     (if is_separator c
      then (case cs of
              d # ds \<Rightarrow> if c = d \<and> c \<noteq> CHR '';'' then [] # raw_segments ds else [] # raw_segments cs
            | [] \<Rightarrow> [[], []])
      else (case raw_segments cs of [] \<Rightarrow> [[c]] | w # ws \<Rightarrow> (c # w) # ws))"

definition split_segments :: "string \<Rightarrow> string list" where
  "split_segments command = filter (\<lambda>p. p \<noteq> []) (map str_strip (raw_segments command))"

text \<open>\<open>shlex.split\<close>: \<open>None\<close> is the \<open>ValueError\<close> for an open quotation or a final backslash.\<close>

datatype lex_mode = Between | In_word | In_quote char | Escaped "char option"

definition shlex_whitespace :: "char \<Rightarrow> bool" where
  "shlex_whitespace c \<longleftrightarrow> c \<in> set [CHR '' '', CHR 0x09, CHR 0x0D, CHR 0x0A]"

definition is_quote :: "char \<Rightarrow> bool" where
  "is_quote c \<longleftrightarrow> c \<in> set [CHR 0x27, CHR 0x22]"

abbreviation backslash :: char where "backslash \<equiv> CHR 0x5C"

definition emit :: "string \<Rightarrow> bool \<Rightarrow> string list option \<Rightarrow> string list option" where
  "emit tok quoted rest = (if tok \<noteq> [] \<or> quoted then map_option (\<lambda>ts. tok # ts) rest else rest)"

fun shlex_from :: "lex_mode \<Rightarrow> string \<Rightarrow> bool \<Rightarrow> string \<Rightarrow> string list option" where
  "shlex_from Between tok quoted [] = Some []"
| "shlex_from In_word tok quoted [] = emit tok quoted (Some [])"
| "shlex_from (In_quote q) tok quoted [] = None"
| "shlex_from (Escaped q) tok quoted [] = None"
| "shlex_from Between tok quoted (c # cs) =
     (if shlex_whitespace c then shlex_from Between [] False cs
      else if c = backslash then shlex_from (Escaped None) [] False cs
      else if is_quote c then shlex_from (In_quote c) [] False cs
      else shlex_from In_word [c] False cs)"
| "shlex_from In_word tok quoted (c # cs) =
     (if shlex_whitespace c then emit tok quoted (shlex_from Between [] False cs)
      else if is_quote c then shlex_from (In_quote c) tok quoted cs
      else if c = backslash then shlex_from (Escaped None) tok quoted cs
      else shlex_from In_word (tok @ [c]) quoted cs)"
| "shlex_from (In_quote q) tok quoted (c # cs) =
     (if c = q then shlex_from In_word tok True cs
      else if c = backslash \<and> q = CHR 0x22 then shlex_from (Escaped (Some q)) tok True cs
      else shlex_from (In_quote q) (tok @ [c]) True cs)"
| "shlex_from (Escaped st) tok quoted (c # cs) =
     (case st of
        None \<Rightarrow> shlex_from In_word (tok @ [c]) quoted cs
      | Some q \<Rightarrow> shlex_from (In_quote q) (tok @ (if c \<noteq> backslash \<and> c \<noteq> q then [backslash] else []) @ [c]) quoted cs)"

definition shlex_split :: "string \<Rightarrow> string list option" where
  "shlex_split s = shlex_from Between [] False s"

definition leading_program :: "string \<Rightarrow> string" where
  "leading_program segment = (case shlex_split segment of Some (t # _) \<Rightarrow> t | _ \<Rightarrow> [])"

text \<open>\<open>prog.rsplit("/", 1)[-1]\<close>\<close>

definition base_name :: "string \<Rightarrow> string" where
  "base_name prog = rev (takeWhile (\<lambda>c. c \<noteq> CHR ''/'') (rev prog))"

section \<open>The POSIX rules\<close>

datatype refusal =
    Empty_command | Substitution_or_redirection | Unparseable_segment | Program_not_allowed string
  | Crontab_without_listing | Mutating_subcommand string | W32tm_without_query
  | Mutating_cmdlet | Verb_not_allowed string | Out_not_allowed string

definition POSIX_ALLOWED_PROGRAMS :: "string list" where
  "POSIX_ALLOWED_PROGRAMS = [''ip'', ''ss'', ''cat'', ''findmnt'', ''find'', ''systemctl'', ''crontab'', ''uname'',
     ''hostname'', ''nft'', ''iptables'', ''ip6tables'', ''chronyc'', ''ntpq'', ''timedatectl'', ''ufw'', ''dnf'',
     ''yum'', ''dpkg-query'', ''cut'', ''tail'', ''head'', ''true'', '':'']"

definition REDIRECTION :: "pos \<Rightarrow> pos list" where
  "REDIRECTION =
     rx_seq (rx_not_behind (\<lambda>c. is_digit c \<or> c = CHR ''&'')) (rx_seq (rx_lit ''>'') (rx_seq (rx_opt (rx_lit ''>''))
       (rx_seq rx_spaces (rx_seq (rx_not_ahead (rx_seq (rx_lit ''/dev/null'') rx_boundary))
         (rx_seq (rx_not_ahead (rx_lit ''&'')) (rx_chr (\<lambda>c. \<not> is_space c)))))))"

definition global_deny :: "string \<Rightarrow> bool" where
  "global_deny command \<longleftrightarrow>
     rx_search (rx_lit ''$('') command \<or> rx_search (rx_lit [CHR 0x60]) command \<or> rx_search REDIRECTION command"

text \<open>\<open>\b(a|b|...)\b\<close>, \<open>\btool\b\s+(a|b|...)\b\<close> and \<open>\s(a|b|...)\b\<close>.\<close>

definition word_of :: "string list \<Rightarrow> pos \<Rightarrow> pos list" where
  "word_of ws = rx_seq rx_boundary (rx_seq (rx_any ws) rx_boundary)"

definition subcommand_of :: "string \<Rightarrow> string list \<Rightarrow> pos \<Rightarrow> pos list" where
  "subcommand_of tool ws = rx_seq rx_boundary (rx_seq (rx_lit tool) (rx_seq rx_boundary
     (rx_seq (rx_chr is_space) (rx_seq rx_spaces (rx_seq (rx_any ws) rx_boundary)))))"

definition flag_of :: "string list \<Rightarrow> pos \<Rightarrow> pos list" where
  "flag_of ws = rx_seq (rx_chr is_space) (rx_seq (rx_any ws) rx_boundary)"

definition IPTABLES_FLAGS :: "string list" where
  "IPTABLES_FLAGS = [''-A'', ''-I'', ''-D'', ''-R'', ''-F'', ''-X'', ''-N'', ''-P'', ''--append'', ''--insert'',
     ''--delete'', ''--replace'', ''--flush'', ''--policy'', ''--new-chain'', ''--delete-chain'']"

definition DUALUSE_MUTATION :: "(string \<times> (pos \<Rightarrow> pos list)) list" where
  "DUALUSE_MUTATION =
    [(''systemctl'', word_of [''start'', ''stop'', ''restart'', ''reload'', ''try-restart'', ''enable'', ''disable'',
        ''mask'', ''unmask'', ''kill'', ''isolate'', ''set-property'', ''edit'', ''set-default'', ''reset-failed'',
        ''daemon-reload'']),
     (''nft'', subcommand_of ''nft'' [''add'', ''delete'', ''flush'', ''insert'', ''create'', ''replace'', ''rename'']),
     (''iptables'', flag_of IPTABLES_FLAGS),
     (''find'', flag_of [''-delete'', ''-exec'', ''-execdir'', ''-ok'', ''-okdir'', ''-fprint'', ''-fprintf'', ''-fls'']),
     (''dnf'', subcommand_of ''dnf'' [''install'', ''remove'', ''erase'', ''upgrade'', ''update'', ''reinstall'',
        ''autoremove'', ''downgrade'', ''distro-sync'', ''localinstall'', ''groupinstall'', ''groupremove'']),
     (''yum'', subcommand_of ''yum'' [''install'', ''remove'', ''erase'', ''upgrade'', ''update'', ''reinstall'',
        ''autoremove'', ''downgrade'', ''localinstall'', ''groupinstall'', ''groupremove'']),
     (''ufw'', subcommand_of ''ufw'' [''enable'', ''disable'', ''allow'', ''deny'', ''reject'', ''limit'', ''delete'',
        ''reset'', ''reload'', ''default'']),
     (''ip6tables'', flag_of IPTABLES_FLAGS)]"

definition segment_refusal :: "string \<Rightarrow> refusal option" where
  "segment_refusal seg =
     (let prog = leading_program seg; base = base_name prog in
      if prog = [] then Some Unparseable_segment
      else if base \<notin> set POSIX_ALLOWED_PROGRAMS then Some (Program_not_allowed base)
      else if base = ''crontab''
      then (if rx_search (flag_of [''-l'']) seg then None else Some Crontab_without_listing)
      else (case dict_get DUALUSE_MUTATION base of
              None \<Rightarrow> None
            | Some deny \<Rightarrow> if rx_search deny seg then Some (Mutating_subcommand base) else None))"

text \<open>The first refusal, \<open>None\<close> when the command may run.\<close>

fun first_refusal :: "string list \<Rightarrow> refusal option" where
  "first_refusal [] = None"
| "first_refusal (s # ss) = (case segment_refusal s of Some r \<Rightarrow> Some r | None \<Rightarrow> first_refusal ss)"

definition posix_refusal :: "string \<Rightarrow> refusal option" where
  "posix_refusal command =
     (if global_deny command then Some Substitution_or_redirection
      else (let segments = split_segments command
            in if segments = [] then Some Empty_command else first_refusal segments))"

section \<open>The PowerShell rules\<close>

definition PS_ALLOWED_VERBS :: "string list" where
  "PS_ALLOWED_VERBS = [''Get'', ''Select'', ''Where'', ''Sort'', ''Measure'', ''Compare'', ''Group'', ''ConvertTo'',
     ''ConvertFrom'', ''Format'', ''Out'']"

definition PS_DENY_VERBS :: "string list" where
  "PS_DENY_VERBS = [''Set'', ''New'', ''Remove'', ''Stop'', ''Start'', ''Restart'', ''Suspend'', ''Resume'', ''Add'',
     ''Clear'', ''Disable'', ''Enable'', ''Rename'', ''Move'', ''Copy'', ''Install'', ''Uninstall'', ''Register'',
     ''Unregister'', ''Invoke'', ''Reset'', ''Update'', ''Write'', ''Push'', ''Pop'', ''Out-File'', ''Export'', ''Import'']"

text \<open>Case is ignored: both sides are lowered.\<close>

definition ps_denied :: "string \<Rightarrow> bool" where
  "ps_denied command \<longleftrightarrow>
     rx_search (rx_seq rx_boundary (rx_seq (rx_any (map str_lower PS_DENY_VERBS)) (rx_lit ''-''))) (str_lower command)"

text \<open>
  \<open>\b([A-Z][a-zA-Z]+)-[A-Z][a-zA-Z0-9]+\b\<close> at a position: the verb and the rest. A letter run is
  followed by a character that is no letter, so only the longest run can match.
\<close>

definition cmdlet_at :: "char option \<Rightarrow> string \<Rightarrow> (string \<times> char option \<times> string) option" where
  "cmdlet_at b t =
     (let verb = takeWhile is_alpha t; rest = drop (length verb) t;
          noun = takeWhile is_alnum (drop 1 rest); after = drop (length noun) (drop 1 rest)
      in if \<not> word_at b \<and> length verb \<ge> 2 \<and> is_upper (hd verb) \<and> next_char rest = Some (CHR ''-'') \<and>
            length noun \<ge> 2 \<and> is_upper (hd noun) \<and> \<not> word_at (next_char after)
         then Some (verb, Some (last noun), after) else None)"

lemma cmdlet_at_shorter: "cmdlet_at b t = Some (v, b', t') \<Longrightarrow> length t' < length t"
proof -
  assume at: "cmdlet_at b t = Some (v, b', t')"
  let ?rest = "drop (length (takeWhile is_alpha t)) t"
  have "next_char ?rest = Some (CHR ''-'')" and t': "\<exists>n. t' = drop n (drop 1 ?rest)"
    using at by (auto simp: cmdlet_at_def Let_def split: if_splits)
  then have "?rest \<noteq> []" by (auto simp: next_char_def)
  then have "length (drop 1 ?rest) < length ?rest" by simp
  moreover have "length ?rest \<le> length t" by simp
  moreover obtain n where "t' = drop n (drop 1 ?rest)" using t' by blast
  ultimately show ?thesis by simp
qed

lemma cmdlet_at_code [code]:
  "cmdlet_at b t =
     (if word_at b then None
      else (case t of [] \<Rightarrow> None | c # s \<Rightarrow>
        if \<not> is_upper c then None
        else (let verb = takeWhile is_alpha t; rest = drop (length verb) t in
          if next_char rest \<noteq> Some (CHR ''-'') then None
          else (let noun = takeWhile is_alnum (drop 1 rest); after = drop (length noun) (drop 1 rest)
            in if length verb \<ge> 2 \<and> length noun \<ge> 2 \<and> is_upper (hd noun) \<and> \<not> word_at (next_char after)
               then Some (verb, Some (last noun), after) else None))))"
  by (cases t) (simp_all add: cmdlet_at_def Let_def is_alpha_def)

text \<open>\<open>finditer\<close>: the search goes on behind a match. The matched tokens as verb and noun.\<close>

function cmdlets_from :: "char option \<Rightarrow> string \<Rightarrow> string list" where
  "cmdlets_from b t =
     (case cmdlet_at b t of
        Some (v, b', t') \<Rightarrow> v # cmdlets_from b' t'
      | None \<Rightarrow> (case t of [] \<Rightarrow> [] | c # cs \<Rightarrow> cmdlets_from (Some c) cs))"
  by pat_completeness auto
termination
  by (relation "measure (\<lambda>(b, t). length t)") (auto dest: cmdlet_at_shorter)

declare cmdlets_from.simps [simp del]

definition cmdlets :: "string \<Rightarrow> string list" where
  "cmdlets s = cmdlets_from None s"

text \<open>\<open>\bOut-([A-Z][a-zA-Z]+)\b\<close>: the groups matched.\<close>

fun out_targets :: "char option \<Rightarrow> string \<Rightarrow> string list" where
  "out_targets b [] = []"
| "out_targets b (c # t) =
     (let noun = takeWhile is_alpha (drop 4 (c # t))
      in (if \<not> word_at b \<and> starts_with ''Out-'' (c # t) \<and> length noun \<ge> 2 \<and> is_upper (hd noun) \<and>
             \<not> word_at (next_char (drop (length noun) (drop 4 (c # t)))) then [noun] else []) @
         out_targets (Some c) t)"

lemma out_targets_code [code]:
  "out_targets b [] = []"
  "out_targets b (c # t) =
     (if word_at b then out_targets (Some c) t
      else if \<not> starts_with ''Out-'' (c # t) then out_targets (Some c) t
      else (let noun = takeWhile is_alpha (drop 4 (c # t))
        in (if length noun \<ge> 2 \<and> is_upper (hd noun) \<and> \<not> word_at (next_char (drop (length noun) (drop 4 (c # t))))
            then [noun] else []) @ out_targets (Some c) t))"
  by simp_all

definition powershell_refusal :: "string \<Rightarrow> refusal option" where
  "powershell_refusal command =
     (if ps_denied command then Some Mutating_cmdlet
      else (case List.find (\<lambda>v. v \<notin> set PS_ALLOWED_VERBS) (cmdlets command) of
              Some v \<Rightarrow> Some (Verb_not_allowed v)
            | None \<Rightarrow> map_option Out_not_allowed (List.find (\<lambda>t. t \<noteq> ''String'') (out_targets None command))))"

section \<open>The gate\<close>

definition PS_PREFIXES :: "string list" where "PS_PREFIXES = [''powershell'', ''pwsh'']"

definition first_word :: "string \<Rightarrow> string" where
  "first_word stripped = str_lower (base_name (takeWhile (\<lambda>c. \<not> is_space c) stripped))"

definition W32TM_QUERY :: "pos \<Rightarrow> pos list" where
  "W32TM_QUERY = rx_seq rx_boundary (rx_seq (rx_lit ''w32tm'') (rx_seq rx_boundary
     (rx_seq (rx_chr is_space) (rx_seq rx_spaces (rx_seq (rx_lit ''/query'') rx_boundary)))))"

definition assert_read_only :: "string \<Rightarrow> refusal option" where
  "assert_read_only command =
     (let stripped = str_strip command in
      if stripped = [] then Some Empty_command
      else if first_word stripped \<in> set PS_PREFIXES then powershell_refusal stripped
      else if first_word stripped = ''w32tm''
      then (if rx_search W32TM_QUERY stripped then None else Some W32tm_without_query)
      else posix_refusal stripped)"

end
