(* ===== verification/Command_Sets.thy ===== *)
theory Command_Sets
  imports Command_Guard
begin

text \<open>
  The dispatch table of the commands a collection may run (\<open>app/core/commands.py\<close>) and the profile of
  the guest's operating system it is chosen by (\<open>app/core/os_profile.py\<close>).
\<close>

section \<open>Profiles\<close>

datatype distro_family = Rhel_like | Debian_like | Windows_family | Unknown_family

datatype confidence = High_confidence | Medium_confidence | Low_confidence

record os_profile =
  op_distro :: string
  op_distro_family :: distro_family
  op_major_version :: int
  op_minor_version :: int
  op_kernel_version :: string
  op_architecture :: string
  op_is_systemd :: bool
  op_pretty_name :: string
  op_detection_confidence :: confidence

section \<open>Command sets\<close>

record command_set =
  cs_services_running :: string
  cs_network_addr_v4 :: string
  cs_network_addr_v6 :: string
  cs_network_routes :: string
  cs_resolv_conf :: string
  cs_listening_ports :: string
  cs_mounts :: string
  cs_cron_users :: string
  cs_cron_user_template :: string
  cs_cron_system_paths :: string
  cs_os_release :: string
  cs_uname_kernel :: string
  cs_uname_arch :: string
  cs_hostname_fqdn :: string
  cs_firewall_inspect :: string
  cs_time_sync_status :: string
  cs_package_list :: string
  cs_windows_system_info :: "string option"
  cs_windows_hotfixes :: "string option"
  cs_windows_ad_membership :: "string option"
  cs_windows_processes :: "string option"
  cs_windows_users :: "string option"

definition NETWORK_ADDR_V4 :: string where "NETWORK_ADDR_V4 = ''ip -o -4 addr show''"
definition NETWORK_ADDR_V6 :: string where "NETWORK_ADDR_V6 = ''ip -o -6 addr show''"
definition NETWORK_ROUTES :: string where "NETWORK_ROUTES = ''ip -4 route show''"
definition RESOLV_CONF :: string where "RESOLV_CONF = ''cat /etc/resolv.conf''"
definition MOUNTS :: string where "MOUNTS = ''findmnt -rn -o TARGET,SOURCE,FSTYPE,OPTIONS,SIZE,USED''"
definition CRON_USERS :: string where "CRON_USERS = ''cut -d: -f1 /etc/passwd''"
definition CRON_USER_TEMPLATE :: string where "CRON_USER_TEMPLATE = ''crontab -l -u {user} 2>/dev/null''"
definition CRON_SYSTEM_PATHS :: string where
  "CRON_SYSTEM_PATHS = ''find /etc/cron.d /etc/crontab /etc/cron.hourly /etc/cron.daily '' @
     ''/etc/cron.weekly /etc/cron.monthly -maxdepth 1 -type f 2>/dev/null''"
definition OS_RELEASE :: string where "OS_RELEASE = ''cat /etc/os-release''"
definition UNAME_KERNEL :: string where "UNAME_KERNEL = ''uname -r''"
definition UNAME_ARCH :: string where "UNAME_ARCH = ''uname -m''"
definition HOSTNAME :: string where "HOSTNAME = ''hostname -f || hostname''"
definition SERVICES_SYSTEMD :: string where
  "SERVICES_SYSTEMD = ''systemctl list-units --type=service --state=running '' @ ''--no-legend --no-pager --plain''"

definition rhel7 :: command_set where
  "rhel7 = \<lparr>cs_services_running = SERVICES_SYSTEMD, cs_network_addr_v4 = NETWORK_ADDR_V4,
     cs_network_addr_v6 = NETWORK_ADDR_V6, cs_network_routes = NETWORK_ROUTES, cs_resolv_conf = RESOLV_CONF,
     cs_listening_ports = ''ss -tuln | tail -n +2'', cs_mounts = MOUNTS, cs_cron_users = CRON_USERS,
     cs_cron_user_template = CRON_USER_TEMPLATE, cs_cron_system_paths = CRON_SYSTEM_PATHS,
     cs_os_release = OS_RELEASE, cs_uname_kernel = UNAME_KERNEL, cs_uname_arch = UNAME_ARCH,
     cs_hostname_fqdn = HOSTNAME, cs_firewall_inspect = ''iptables -L -n -v 2>/dev/null'',
     cs_time_sync_status = ''ntpq -pn 2>/dev/null || chronyc sources 2>/dev/null'',
     cs_package_list = ''yum list installed 2>/dev/null | tail -n +2'',
     cs_windows_system_info = None, cs_windows_hotfixes = None, cs_windows_ad_membership = None,
     cs_windows_processes = None, cs_windows_users = None\<rparr>"

definition rhel_modern :: command_set where
  "rhel_modern = \<lparr>cs_services_running = SERVICES_SYSTEMD, cs_network_addr_v4 = NETWORK_ADDR_V4,
     cs_network_addr_v6 = NETWORK_ADDR_V6, cs_network_routes = NETWORK_ROUTES, cs_resolv_conf = RESOLV_CONF,
     cs_listening_ports = ''ss -tulnH'', cs_mounts = MOUNTS, cs_cron_users = CRON_USERS,
     cs_cron_user_template = CRON_USER_TEMPLATE, cs_cron_system_paths = CRON_SYSTEM_PATHS,
     cs_os_release = OS_RELEASE, cs_uname_kernel = UNAME_KERNEL, cs_uname_arch = UNAME_ARCH,
     cs_hostname_fqdn = HOSTNAME,
     cs_firewall_inspect = ''nft list ruleset 2>/dev/null || iptables -L -n -v 2>/dev/null'',
     cs_time_sync_status = ''chronyc sources 2>/dev/null'',
     cs_package_list = ''dnf list --installed 2>/dev/null | tail -n +2'',
     cs_windows_system_info = None, cs_windows_hotfixes = None, cs_windows_ad_membership = None,
     cs_windows_processes = None, cs_windows_users = None\<rparr>"

text \<open>The format string of \<open>dpkg-query\<close>, in single quotes.\<close>

definition quoted :: "string \<Rightarrow> string" where
  "quoted s = CHR 0x27 # s @ [CHR 0x27]"

definition debian_like :: command_set where
  "debian_like = \<lparr>cs_services_running = SERVICES_SYSTEMD, cs_network_addr_v4 = NETWORK_ADDR_V4,
     cs_network_addr_v6 = NETWORK_ADDR_V6, cs_network_routes = NETWORK_ROUTES, cs_resolv_conf = RESOLV_CONF,
     cs_listening_ports = ''ss -tulnH'', cs_mounts = MOUNTS, cs_cron_users = CRON_USERS,
     cs_cron_user_template = CRON_USER_TEMPLATE, cs_cron_system_paths = CRON_SYSTEM_PATHS,
     cs_os_release = OS_RELEASE, cs_uname_kernel = UNAME_KERNEL, cs_uname_arch = UNAME_ARCH,
     cs_hostname_fqdn = HOSTNAME,
     cs_firewall_inspect = ''nft list ruleset 2>/dev/null '' @ ''|| ufw status verbose 2>/dev/null '' @
       ''|| iptables -L -n -v 2>/dev/null'',
     cs_time_sync_status = ''timedatectl show-timesync 2>/dev/null '' @ ''|| chronyc sources 2>/dev/null'',
     cs_package_list = ''dpkg-query -W -f='' @
       quoted (''${Package}'' @ [backslash] @ ''t${Version}'' @ [backslash] @ ''n'') @ '' 2>/dev/null'',
     cs_windows_system_info = None, cs_windows_hotfixes = None, cs_windows_ad_membership = None,
     cs_windows_processes = None, cs_windows_users = None\<rparr>"

definition modern_default :: command_set where
  "modern_default = rhel_modern"

definition PS :: string where "PS = ''powershell -NoProfile -NonInteractive -Command''"

definition ps_wrap :: "string \<Rightarrow> string" where
  "ps_wrap cmd = PS @ '' '' @ [CHR 0x22] @ str_strip cmd @ [CHR 0x22]"

definition windows_powershell :: command_set where
  "windows_powershell = \<lparr>
     cs_services_running = ps_wrap (''Get-Service | Where-Object { $_.Status -eq '' @ quoted ''Running'' @ '' } | '' @
       ''Select-Object Name, Status, StartType, DisplayName | '' @ ''ConvertTo-Json -Compress''),
     cs_network_addr_v4 = ps_wrap (''Get-NetIPAddress -AddressFamily IPv4 -ErrorAction SilentlyContinue | '' @
       ''Select-Object InterfaceAlias, IPAddress, PrefixLength | '' @ ''ConvertTo-Json -Compress''),
     cs_network_addr_v6 = ps_wrap (''Get-NetIPAddress -AddressFamily IPv6 -ErrorAction SilentlyContinue | '' @
       ''Select-Object InterfaceAlias, IPAddress, PrefixLength | '' @ ''ConvertTo-Json -Compress''),
     cs_network_routes = ps_wrap (''Get-NetRoute -AddressFamily IPv4 | '' @
       ''Select-Object DestinationPrefix, NextHop, InterfaceAlias, RouteMetric | '' @ ''ConvertTo-Json -Compress''),
     cs_resolv_conf = ps_wrap (''Get-DnsClientServerAddress -AddressFamily IPv4 | '' @
       ''Select-Object InterfaceAlias, ServerAddresses | '' @ ''ConvertTo-Json -Compress''),
     cs_listening_ports = ps_wrap (''Get-NetTCPConnection -State Listen | '' @
       ''Select-Object LocalAddress, LocalPort, OwningProcess | '' @ ''ConvertTo-Json -Compress''),
     cs_mounts = ps_wrap (''Get-Volume | '' @ ''Select-Object DriveLetter, FileSystemLabel, FileSystemType, '' @
       ''Size, SizeRemaining, HealthStatus | '' @ ''ConvertTo-Json -Compress''),
     cs_cron_users = '''', cs_cron_user_template = '''',
     cs_cron_system_paths = ps_wrap (''Get-ScheduledTask | Where-Object { $_.State -eq '' @ quoted ''Ready'' @ '' } | '' @
       ''Select-Object TaskName, TaskPath, State, Author | '' @ ''ConvertTo-Json -Compress''),
     cs_os_release = ps_wrap (''Get-CimInstance Win32_OperatingSystem | '' @ ''ConvertTo-Json -Compress -Depth 3''),
     cs_uname_kernel = '''', cs_uname_arch = '''',
     cs_hostname_fqdn = ps_wrap ''[System.Net.Dns]::GetHostEntry($env:COMPUTERNAME).HostName'',
     cs_firewall_inspect = ps_wrap (''Get-NetFirewallRule | Where-Object Enabled -eq '' @ quoted ''True'' @ '' | '' @
       ''Select-Object DisplayName, Direction, Action, Profile | '' @ ''ConvertTo-Json -Compress''),
     cs_time_sync_status = ''w32tm /query /status'',
     cs_package_list = ps_wrap (''Get-CimInstance Win32_Product | '' @ ''Select-Object Name, Version, Vendor | '' @
       ''ConvertTo-Json -Compress''),
     cs_windows_system_info = Some (ps_wrap (''Get-CimInstance Win32_OperatingSystem | '' @
       ''ConvertTo-Json -Compress -Depth 3'')),
     cs_windows_hotfixes = Some (ps_wrap (''Get-HotFix | '' @ ''Select-Object HotFixID, Description, InstalledOn | '' @
       ''ConvertTo-Json -Compress'')),
     cs_windows_ad_membership = Some (ps_wrap (''Get-CimInstance Win32_ComputerSystem | '' @
       ''Select-Object Domain, PartOfDomain, DomainRole | '' @ ''ConvertTo-Json -Compress'')),
     cs_windows_processes = Some (ps_wrap (''Get-Process | Sort-Object CPU -Descending | '' @
       ''Select-Object -First 20 ProcessName, Id, CPU, WorkingSet | '' @ ''ConvertTo-Json -Compress'')),
     cs_windows_users = Some (ps_wrap (''Get-LocalUser | '' @ ''Select-Object Name, Enabled, LastLogon | '' @
       ''ConvertTo-Json -Compress''))\<rparr>"

definition command_set_for :: "os_profile \<Rightarrow> command_set" where
  "command_set_for p =
     (case op_distro_family p of
        Windows_family \<Rightarrow> windows_powershell
      | Rhel_like \<Rightarrow> (if op_major_version p \<noteq> 0 \<and> op_major_version p \<le> 7 then rhel7 else rhel_modern)
      | Debian_like \<Rightarrow> debian_like
      | Unknown_family \<Rightarrow> modern_default)"

text \<open>The preview of a dry run, from the declared OS family alone.\<close>

definition command_set_for_family :: "string option \<Rightarrow> command_set" where
  "command_set_for_family os_family =
     (let fam = str_lower (str_strip (or_empty os_family)); has = (\<lambda>tok. contains_str tok fam) in
      if has ''win'' then windows_powershell
      else if list_ex has [''ubuntu'', ''debian''] then debian_like
      else if fam \<in> set [''rhel7'', ''rhel-7'', ''centos7'', ''centos-7''] then rhel7
      else if list_ex has [''rhel'', ''rocky'', ''alma'', ''centos'', ''fedora'', ''ol'', ''oracle''] then rhel_modern
      else modern_default)"

section \<open>Every command of the table is admitted\<close>

text \<open>The commands of a set that can be run as they are. The Windows set leaves four fields empty.\<close>

definition runnable_commands :: "command_set \<Rightarrow> string list" where
  "runnable_commands cs = filter (\<lambda>c. c \<noteq> [])
     ([cs_services_running cs, cs_network_addr_v4 cs, cs_network_addr_v6 cs, cs_network_routes cs, cs_resolv_conf cs,
       cs_listening_ports cs, cs_mounts cs, cs_cron_users cs, cs_cron_system_paths cs, cs_os_release cs,
       cs_uname_kernel cs, cs_uname_arch cs, cs_hostname_fqdn cs, cs_firewall_inspect cs, cs_time_sync_status cs,
       cs_package_list cs] @
      List.map_filter id [cs_windows_system_info cs, cs_windows_hotfixes cs, cs_windows_ad_membership cs,
        cs_windows_processes cs, cs_windows_users cs])"

definition table_admitted :: "command_set \<Rightarrow> bool" where
  "table_admitted cs \<longleftrightarrow> list_all (\<lambda>c. assert_read_only c = None) (runnable_commands cs)"

lemma admitted_rhel7: "table_admitted rhel7" by code_simp

lemma admitted_rhel_modern: "table_admitted rhel_modern" by code_simp

lemma admitted_debian_like: "table_admitted debian_like" by code_simp




text \<open>The Windows set has longer commands; it is checked in three parts.\<close>

lemma admitted_windows_1: "list_all (\<lambda>c. assert_read_only c = None) (take 6 (runnable_commands windows_powershell))"
  by code_simp

lemma admitted_windows_2: "list_all (\<lambda>c. assert_read_only c = None) (take 6 (drop 6 (runnable_commands windows_powershell)))"
  by code_simp

lemma admitted_windows_3: "list_all (\<lambda>c. assert_read_only c = None) (drop 12 (runnable_commands windows_powershell))"
  by code_simp

lemma admitted_windows_powershell: "table_admitted windows_powershell"
proof -
  let ?cs = "runnable_commands windows_powershell"
  have "?cs = take 6 ?cs @ take 6 (drop 6 ?cs) @ drop 12 ?cs"
    by (metis add_numeral_left append_assoc append_take_drop_id drop_drop numeral_Bit0 numeral_plus_numeral semiring_norm(2) arith_simps(1) arith_simps(2))
  then show ?thesis
    unfolding table_admitted_def using admitted_windows_1 admitted_windows_2 admitted_windows_3 by (metis list_all_append)
qed

end
