(* ===== verification/Ssh_Session.thy ===== *)
theory Ssh_Session
  imports Command_Sets Collection_Engine
begin

text \<open>
  One collection over SSH (\<open>SSHCollector\<close> in \<open>app/core/ssh.py\<close>, \<open>detect\<close> in \<open>app/core/os_profile.py\<close>): every
  command passes the gate, is logged, and its output is parsed. The remote side is a parameter: the
  answer to a command may depend on how many commands came before. Output is the decoded text; hashes,
  previews and durations of the log are left out. On a Windows guest the session is followed up to
  the detection; the PowerShell collectors are not modelled.
\<close>

section \<open>Text\<close>

definition is_linebreak :: "char \<Rightarrow> bool" where
  "is_linebreak c \<longleftrightarrow> c \<in> set [CHR 0x0A, CHR 0x0B, CHR 0x0C, CHR 0x0D, CHR 0x1C, CHR 0x1D, CHR 0x1E]"

text \<open>\<open>str.splitlines\<close>\<close>

fun splitlines :: "string \<Rightarrow> string list" where
  "splitlines [] = []"
| "splitlines (c # cs) =
     (if c = CHR 0x0D then [] # (case cs of d # ds \<Rightarrow> if d = CHR 0x0A then splitlines ds else splitlines cs | [] \<Rightarrow> [])
      else if is_linebreak c then [] # splitlines cs
      else (case splitlines cs of [] \<Rightarrow> [[c]] | w # ws \<Rightarrow> (c # w) # ws))"

text \<open>\<open>s.split()\<close> and \<open>s.split(None, n)\<close>\<close>

definition not_space :: "char \<Rightarrow> bool" where "not_space c \<longleftrightarrow> \<not> is_space c"

definition split_ws :: "string \<Rightarrow> string list" where
  "split_ws s = filter (\<lambda>w. w \<noteq> []) (split_on is_space s)"

fun split_ws_max :: "nat \<Rightarrow> string \<Rightarrow> string list" where
  "split_ws_max 0 s = (let r = dropWhile is_space s in if r = [] then [] else [r])"
| "split_ws_max (Suc n) s =
     (let r = dropWhile is_space s
      in if r = [] then [] else takeWhile not_space r # split_ws_max n (dropWhile not_space r))"

text \<open>\<open>text.replace("\r\n", "\n").replace("\r", "\n")\<close>\<close>

fun unify_newlines :: "string \<Rightarrow> string" where
  "unify_newlines [] = []"
| "unify_newlines (c # cs) =
     (if c = CHR 0x0D
      then CHR 0x0A # (case cs of d # ds \<Rightarrow> if d = CHR 0x0A then unify_newlines ds else unify_newlines cs | [] \<Rightarrow> [])
      else c # unify_newlines cs)"

text \<open>\<open>int(s)\<close>: surrounding whitespace, a sign and single underscores between digits are accepted.\<close>

definition int_digits :: "string \<Rightarrow> int option" where
  "int_digits s = (if list_all str_isdigit (split_on (\<lambda>c. c = CHR ''_'') s)
     then Some (int (read_nat (filter (\<lambda>c. c \<noteq> CHR ''_'') s))) else None)"

definition py_int :: "string \<Rightarrow> int option" where
  "py_int s = (case str_strip s of
      [] \<Rightarrow> None
    | c # cs \<Rightarrow> if c = CHR ''-'' then map_option uminus (int_digits cs)
                else if c = CHR ''+'' then int_digits cs else int_digits (c # cs))"

text \<open>\<open>local.rpartition(":")\<close>, the parts before and behind.\<close>

definition rpartition_colon :: "string \<Rightarrow> string \<times> string" where
  "rpartition_colon s =
     (let back = rev (takeWhile (\<lambda>c. c \<noteq> CHR '':'') (rev s))
      in if length back = length s then ([], s) else (take (length s - length back - 1) s, back))"

text \<open>\<open>shlex.quote\<close>\<close>

definition shell_safe :: "char \<Rightarrow> bool" where
  "shell_safe c \<longleftrightarrow> is_word c \<or> c \<in> set ''@%+=:,./-''"

definition shlex_quote :: "string \<Rightarrow> string" where
  "shlex_quote s =
     (if s = [] then quoted []
      else if list_all shell_safe s then s
      else quoted (concat (map (\<lambda>c. if c = CHR 0x27 then [CHR 0x27, CHR 0x22, CHR 0x27, CHR 0x22, CHR 0x27] else [c]) s)))"

text \<open>\<open>template.format(user=u)\<close> of a template whose only braces are those of \<open>{user}\<close>.\<close>

definition format_user :: "string \<Rightarrow> string \<Rightarrow> string" where
  "format_user template u =
     (case find_str ''{user}'' template of None \<Rightarrow> template | Some i \<Rightarrow> take i template @ u @ drop (i + 6) template)"

section \<open>The profile of a guest\<close>

definition DISTRO_BY_ID :: "(string \<times> string) list" where
  "DISTRO_BY_ID = [(''rhel'', ''rhel''), (''fedora'', ''fedora''), (''rocky'', ''rocky''), (''almalinux'', ''alma''),
     (''centos'', ''centos''), (''ubuntu'', ''ubuntu''), (''debian'', ''debian'')]"

definition family_of :: "string \<Rightarrow> string \<Rightarrow> distro_family" where
  "family_of distro id_like =
     (if distro \<in> set [''rhel'', ''fedora'', ''rocky'', ''alma'', ''centos''] then Rhel_like
      else if distro \<in> set [''ubuntu'', ''debian''] then Debian_like
      else if starts_with ''windows'' distro then Windows_family
      else (let tokens = split_ws (str_lower id_like) in
        if list_ex (\<lambda>t. t \<in> set [''rhel'', ''fedora'', ''centos'']) tokens then Rhel_like
        else if list_ex (\<lambda>t. t \<in> set [''debian'', ''ubuntu'']) tokens then Debian_like
        else Unknown_family))"

definition split_version :: "string \<Rightarrow> int \<times> int" where
  "split_version raw =
     (if raw = [] then (0, 0)
      else (let parts = split_on (\<lambda>c. c = CHR ''.'') raw in
        case py_int (hd parts) of
          None \<Rightarrow> (0, 0)
        | Some major \<Rightarrow> (major, (case tl parts of [] \<Rightarrow> 0 | p # _ \<Rightarrow> (case py_int p of None \<Rightarrow> 0 | Some minor \<Rightarrow> minor)))))"

text \<open>\<open>value[1:-1]\<close> if the value starts and ends with the quote; a lone quote becomes empty.\<close>

definition unquote :: "string \<Rightarrow> string" where
  "unquote value =
     (if value \<noteq> [] \<and> hd value = CHR 0x22 \<and> last value = CHR 0x22 then butlast (tl value)
      else if value \<noteq> [] \<and> hd value = CHR 0x27 \<and> last value = CHR 0x27 then butlast (tl value)
      else value)"

definition os_release_line :: "string \<Rightarrow> (string \<times> string) list \<Rightarrow> (string \<times> string) list" where
  "os_release_line line out =
     (if CHR ''='' \<notin> set line \<or> starts_with ''#'' line then out
      else (let key = takeWhile (\<lambda>c. c \<noteq> CHR ''='') line
            in dict_set (str_strip key) (unquote (str_strip (drop (Suc (length key)) line))) out))"

definition parse_os_release :: "string \<Rightarrow> (string \<times> string) list" where
  "parse_os_release raw = fold os_release_line (splitlines raw) []"

definition version_label :: "os_profile \<Rightarrow> string" where
  "version_label p =
     (if op_major_version p = 0 then []
      else if op_minor_version p \<noteq> 0 then show_int (op_major_version p) @ ''.'' @ show_int (op_minor_version p)
      else show_int (op_major_version p))"

definition detect :: "string \<Rightarrow> string \<Rightarrow> string \<Rightarrow> os_profile" where
  "detect os_release_text uname_r uname_m =
     (let fields = parse_os_release os_release_text;
          distro = dict_get_or DISTRO_BY_ID (str_lower (str_strip (dict_get_or fields ''ID'' []))) ''unknown'';
          version = split_version (dict_get_or fields ''VERSION_ID'' []);
          pretty = dict_get_or fields ''PRETTY_NAME'' []
      in \<lparr>op_distro = distro, op_distro_family = family_of distro (dict_get_or fields ''ID_LIKE'' []),
          op_major_version = fst version, op_minor_version = snd version,
          op_kernel_version = str_strip uname_r, op_architecture = str_strip uname_m, op_is_systemd = True,
          op_pretty_name = (if pretty \<noteq> [] then pretty else dict_get_or fields ''NAME'' []),
          op_detection_confidence = (if distro = ''unknown'' then Low_confidence
             else if fst version = 0 then Medium_confidence else High_confidence)\<rparr>)"

definition UNKNOWN_PROFILE :: os_profile where
  "UNKNOWN_PROFILE = \<lparr>op_distro = ''unknown'', op_distro_family = Unknown_family, op_major_version = 0,
     op_minor_version = 0, op_kernel_version = [], op_architecture = [], op_is_systemd = True,
     op_pretty_name = [], op_detection_confidence = Low_confidence\<rparr>"

section \<open>Running commands\<close>

text \<open>What the remote side does with a command: exit status and output, or an exception of the transport.\<close>

datatype remote_answer = Answer int string | Answer_timeout | Answer_error

record command_entry =
  ce_command :: string
  ce_exit_status :: "int option"
  ce_blocked :: bool

datatype session_error = Command_not_allowed refusal | Session_timeout | Session_error

type_synonym remote = "nat \<Rightarrow> string \<Rightarrow> remote_answer"

type_synonym 'a session = "command_entry list \<Rightarrow> (session_error + 'a) \<times> command_entry list"

definition return_session :: "'a \<Rightarrow> 'a session" where
  "return_session x log = (Inr x, log)"

definition bind_session :: "'a session \<Rightarrow> ('a \<Rightarrow> 'b session) \<Rightarrow> 'b session" where
  "bind_session m f log = (case m log of (Inl e, log') \<Rightarrow> (Inl e, log') | (Inr x, log') \<Rightarrow> f x log')"

definition ssh_run :: "remote \<Rightarrow> string \<Rightarrow> string session" where
  "ssh_run remote command log =
     (case assert_read_only command of
        Some r \<Rightarrow> (Inl (Command_not_allowed r), log @ [\<lparr>ce_command = command, ce_exit_status = None, ce_blocked = True\<rparr>])
      | None \<Rightarrow>
          (case remote (length log) command of
             Answer_timeout \<Rightarrow> (Inl Session_timeout, log)
           | Answer_error \<Rightarrow> (Inl Session_error, log)
           | Answer status text \<Rightarrow>
               (Inr (if status \<noteq> 0 then [] else unify_newlines text),
                log @ [\<lparr>ce_command = command, ce_exit_status = Some status, ce_blocked = False\<rparr>])))"

definition PS_PROBE :: string where
  "PS_PROBE = ''powershell -NoProfile -NonInteractive -Command '' @ [CHR 0x22] @
     ''Get-CimInstance Win32_OperatingSystem | '' @ ''ConvertTo-Json -Compress -Depth 3'' @ [CHR 0x22]"

datatype detected_os = Posix_guest os_profile | Windows_guest string

definition detect_os :: "remote \<Rightarrow> detected_os session" where
  "detect_os remote =
     bind_session (ssh_run remote ''cat /etc/os-release'') (\<lambda>os_release.
       if str_strip os_release \<noteq> []
       then bind_session (ssh_run remote ''uname -r'') (\<lambda>kernel.
            bind_session (ssh_run remote ''uname -m'') (\<lambda>arch.
            return_session (Posix_guest (detect os_release (str_strip kernel) (str_strip arch)))))
       else bind_session (ssh_run remote PS_PROBE) (\<lambda>win_json.
            return_session (if str_strip win_json \<noteq> [] then Windows_guest (str_strip win_json)
                            else Posix_guest UNKNOWN_PROFILE)))"

section \<open>The collectors\<close>

definition service_of_line :: "string \<Rightarrow> guest_service option" where
  "service_of_line line =
     (case split_ws_max 4 line of
        unit # load # active # sub # rest \<Rightarrow>
          Some \<lparr>gs_unit = Some unit, gs_name = None, gs_active = Some active, gs_sub = Some sub\<rparr>
      | _ \<Rightarrow> None)"

definition parse_services :: "string \<Rightarrow> guest_service list" where
  "parse_services out = List.map_filter service_of_line (splitlines out)"

text \<open>\<open>re.match(r"\d+:\s+(\S+)\s+inet\s+(\S+)", line)\<close>, and the same with \<open>inet6\<close>.\<close>

definition match_addr :: "string \<Rightarrow> string \<Rightarrow> (string \<times> string) option" where
  "match_addr proto line =
     (let r1 = dropWhile is_digit line; r2 = drop 1 r1; r3 = dropWhile is_space r2;
          iface = takeWhile not_space r3; r4 = dropWhile is_space (dropWhile not_space r3);
          r5 = drop (length proto) r4; r6 = dropWhile is_space r5; cidr = takeWhile not_space r6
      in if line \<noteq> [] \<and> is_digit (hd line) \<and> starts_with '':'' r1 \<and> r3 \<noteq> r2 \<and> iface \<noteq> [] \<and>
            starts_with proto r4 \<and> r6 \<noteq> r5 \<and> cidr \<noteq> []
         then Some (iface, cidr) else None)"

definition no_addresses :: guest_iface where "no_addresses = \<lparr>gi_ipv4 = [], gi_ipv6 = []\<rparr>"

definition add_addr4 :: "string \<times> string \<Rightarrow> (string \<times> guest_iface) list \<Rightarrow> (string \<times> guest_iface) list" where
  "add_addr4 m d = (case m of (iface, cidr) \<Rightarrow>
     (let i = dict_get_or d iface no_addresses in dict_set iface (i\<lparr>gi_ipv4 := gi_ipv4 i @ [cidr]\<rparr>) d))"

definition add_addr6 :: "string \<times> string \<Rightarrow> (string \<times> guest_iface) list \<Rightarrow> (string \<times> guest_iface) list" where
  "add_addr6 m d = (case m of (iface, cidr) \<Rightarrow>
     (let i = dict_get_or d iface no_addresses in dict_set iface (i\<lparr>gi_ipv6 := gi_ipv6 i @ [cidr]\<rparr>) d))"

definition parse_routes :: "string \<Rightarrow> string list" where
  "parse_routes out = filter (\<lambda>l. l \<noteq> []) (map str_strip (splitlines out))"

definition parse_dns :: "string \<Rightarrow> string list" where
  "parse_dns out = List.map_filter (\<lambda>line.
     if starts_with ''nameserver'' line then (case split_ws line of _ # server # _ \<Rightarrow> Some server | _ \<Rightarrow> None) else None)
     (splitlines out)"

definition parse_network :: "string \<Rightarrow> string \<Rightarrow> string \<Rightarrow> string \<Rightarrow> guest_network" where
  "parse_network addr_out addr6_out route_out resolv =
     \<lparr>gn_interfaces = fold add_addr6 (List.map_filter (match_addr ''inet6'') (splitlines addr6_out))
        (fold add_addr4 (List.map_filter (match_addr ''inet'') (splitlines addr_out)) []),
      gn_routes = parse_routes route_out, gn_dns = parse_dns resolv\<rparr>"

definition port_of_line :: "string \<Rightarrow> guest_port option" where
  "port_of_line line =
     (case split_ws line of
        proto # state # recvq # sendq # loc # rest \<Rightarrow>
          (case rpartition_colon loc of (addr, port) \<Rightarrow>
             if port = [] then None
             else Some \<lparr>gp_proto = Some proto, gp_address = Some addr,
                    gp_port = Some (if str_isdigit port then Port_int (int (read_nat port)) else Port_text port)\<rparr>)
      | _ \<Rightarrow> None)"

definition parse_ports :: "string \<Rightarrow> guest_port list" where
  "parse_ports out = List.map_filter port_of_line (splitlines out)"

definition PSEUDO_FILESYSTEMS :: "string list" where
  "PSEUDO_FILESYSTEMS = [''proc'', ''sysfs'', ''cgroup'', ''cgroup2'', ''devpts'', ''tmpfs'', ''devtmpfs'']"

definition mount_of_line :: "string \<Rightarrow> guest_mount option" where
  "mount_of_line line =
     (case split_ws_max 5 line of
        target # source # fstype # options # rest \<Rightarrow>
          (if fstype \<in> set PSEUDO_FILESYSTEMS then None
           else Some \<lparr>gm_target = Some target, gm_source = Some source, gm_fstype = Some fstype\<rparr>)
      | _ \<Rightarrow> None)"

definition parse_mounts :: "string \<Rightarrow> guest_mount list" where
  "parse_mounts out = List.map_filter mount_of_line (splitlines out)"

text \<open>The lines that are neither blank nor comments.\<close>

definition cron_entries :: "string \<Rightarrow> string list" where
  "cron_entries body = filter (\<lambda>ln. str_strip ln \<noteq> [] \<and> \<not> starts_with ''#'' (dropWhile is_space ln)) (splitlines body)"

definition user_command :: "command_set \<Rightarrow> string \<Rightarrow> string" where
  "user_command cs user = format_user (cs_cron_user_template cs) (shlex_quote user)"

fun collect_user_crons ::
  "remote \<Rightarrow> command_set \<Rightarrow> string list \<Rightarrow> (string \<times> string list) list \<Rightarrow> (string \<times> string list) list session" where
  "collect_user_crons remote cs [] acc = return_session acc"
| "collect_user_crons remote cs (l # ls) acc =
     (let user = str_strip l in
      if user = [] then collect_user_crons remote cs ls acc
      else bind_session (ssh_run remote (user_command cs user)) (\<lambda>body.
        collect_user_crons remote cs ls (if cron_entries body = [] then acc else dict_set user (cron_entries body) acc)))"

fun collect_system_crons ::
  "remote \<Rightarrow> string list \<Rightarrow> (string \<times> string list) list \<Rightarrow> (string \<times> string list) list session" where
  "collect_system_crons remote [] acc = return_session acc"
| "collect_system_crons remote (l # ls) acc =
     (let path = str_strip l in
      if path = [] then collect_system_crons remote ls acc
      else bind_session (ssh_run remote (''cat '' @ shlex_quote path)) (\<lambda>body.
        collect_system_crons remote ls (if cron_entries body = [] then acc else acc @ [(path, cron_entries body)])))"

definition collect_cron :: "remote \<Rightarrow> command_set \<Rightarrow> guest_cron session" where
  "collect_cron remote cs =
     bind_session (ssh_run remote (cs_cron_users cs)) (\<lambda>users_out.
     bind_session (collect_user_crons remote cs (splitlines users_out) []) (\<lambda>user_crons.
     bind_session (ssh_run remote (cs_cron_system_paths cs)) (\<lambda>sys_listing.
     bind_session (collect_system_crons remote (splitlines sys_listing) []) (\<lambda>system_entries.
     return_session \<lparr>gc_users = user_crons, gc_system = system_entries\<rparr>))))"

text \<open>The family as it is stored.\<close>

definition family_name :: "distro_family \<Rightarrow> string" where
  "family_name f = (case f of Rhel_like \<Rightarrow> ''rhel-like'' | Debian_like \<Rightarrow> ''debian-like''
     | Windows_family \<Rightarrow> ''windows'' | Unknown_family \<Rightarrow> ''unknown'')"

definition meta_of :: "os_profile \<Rightarrow> guest_meta" where
  "meta_of p = \<lparr>ge_kernel = Some (op_kernel_version p),
     ge_os = [(''id'', op_distro p), (''version_id'', version_label p), (''pretty_name'', op_pretty_name p)],
     ge_os_family = Some (family_name (op_distro_family p))\<rparr>"

definition collect_posix :: "remote \<Rightarrow> os_profile \<Rightarrow> guest_state session" where
  "collect_posix remote p =
     (let cs = command_set_for p in
      bind_session (ssh_run remote (cs_hostname_fqdn cs)) (\<lambda>hostname.
      bind_session (ssh_run remote (cs_services_running cs)) (\<lambda>services.
      bind_session (ssh_run remote (cs_network_addr_v4 cs)) (\<lambda>addr4.
      bind_session (ssh_run remote (cs_network_addr_v6 cs)) (\<lambda>addr6.
      bind_session (ssh_run remote (cs_network_routes cs)) (\<lambda>routes.
      bind_session (ssh_run remote (cs_resolv_conf cs)) (\<lambda>resolv.
      bind_session (ssh_run remote (cs_listening_ports cs)) (\<lambda>ports.
      bind_session (ssh_run remote (cs_mounts cs)) (\<lambda>mounts.
      bind_session (collect_cron remote cs) (\<lambda>cron.
      return_session \<lparr>st_services = parse_services services, st_ports = parse_ports ports,
        st_mounts = parse_mounts mounts, st_network = parse_network addr4 addr6 routes resolv,
        st_cron = cron, st_meta = meta_of p\<rparr>))))))))))"

datatype collected = Collected_state guest_state | Windows_collection string

definition collect_session :: "remote \<Rightarrow> collected session" where
  "collect_session remote =
     bind_session (detect_os remote) (\<lambda>os.
       case os of
         Posix_guest p \<Rightarrow> bind_session (collect_posix remote p) (\<lambda>st. return_session (Collected_state st))
       | Windows_guest json \<Rightarrow> return_session (Windows_collection json))"

section \<open>The connection\<close>

text \<open>
  What happens before the first command: the key file, the FIPS gate, and the outcome of
  \<open>SSHClient.connect\<close>: connected, with the host key added or known, or one of the exceptions that
  are told apart, with their text. The texts of the host-key errors are left out: the callers read the kind.
\<close>

datatype connect_outcome =
    Connected bool "string option" | Bad_host_key string | Authentication_failure string
  | Ssh_exception string | Os_error string

record ssh_setup =
  su_key_error :: "string option"
  su_key_rejected :: "string option"

record host_key_event =
  hk_added :: bool
  hk_fingerprint :: "string option"

definition mk_ssh_error :: "string \<Rightarrow> string \<Rightarrow> string \<Rightarrow> ssh_error" where
  "mk_ssh_error kind text fp = \<lparr>se_kind = kind, se_text = text, se_fingerprint = fp\<rparr>"

definition failed_text :: "string \<Rightarrow> string \<Rightarrow> string" where
  "failed_text host e = ''SSH connection to '' @ host @ '' failed: '' @ e"

definition ssh_exception_error :: "string \<Rightarrow> string \<Rightarrow> ssh_error" where
  "ssh_exception_error host msg =
     (if contains_str ''not found in known_hosts'' (str_lower msg) \<or> contains_str ''no hostkey'' (str_lower msg)
      then mk_ssh_error ''host_key_unknown'' [] [] else mk_ssh_error ''generic'' (failed_text host msg) [])"

text \<open>The collector of \<open>ssh.py\<close>: an authentication failure is one of paramiko's SSH exceptions.\<close>

definition connect :: "ssh_setup \<Rightarrow> string \<Rightarrow> connect_outcome \<Rightarrow> ssh_error + host_key_event" where
  "connect setup host outcome =
     (case su_key_error setup of
        Some msg \<Rightarrow> Inl (mk_ssh_error ''generic'' msg [])
      | None \<Rightarrow>
          (case su_key_rejected setup of
             Some msg \<Rightarrow> Inl (mk_ssh_error ''generic'' msg [])
           | None \<Rightarrow>
               (case outcome of
                  Bad_host_key fp \<Rightarrow> Inl (mk_ssh_error ''host_key_mismatch'' [] fp)
                | Authentication_failure msg \<Rightarrow> Inl (ssh_exception_error host msg)
                | Ssh_exception msg \<Rightarrow> Inl (ssh_exception_error host msg)
                | Os_error msg \<Rightarrow> Inl (mk_ssh_error ''generic'' (failed_text host msg) [])
                | Connected added fp \<Rightarrow> Inr \<lparr>hk_added = added, hk_fingerprint = fp\<rparr>)))"

text \<open>The collector of the engine, with its injected key: an unknown host key is a generic error.\<close>

definition injected_connect :: "string \<Rightarrow> connect_outcome \<Rightarrow> ssh_error + host_key_event" where
  "injected_connect host outcome =
     (case outcome of
        Bad_host_key fp \<Rightarrow> Inl (mk_ssh_error ''host_key_mismatch'' [] fp)
      | Authentication_failure msg \<Rightarrow> Inl (mk_ssh_error ''auth_failed'' (''SSH authentication to '' @ host @ '' failed: '' @ msg) [])
      | Ssh_exception msg \<Rightarrow> Inl (mk_ssh_error ''generic'' (failed_text host msg) [])
      | Os_error msg \<Rightarrow> Inl (mk_ssh_error ''generic'' (failed_text host msg) [])
      | Connected added fp \<Rightarrow> Inr \<lparr>hk_added = added, hk_fingerprint = fp\<rparr>)"

text \<open>
  The whole call as the engine sees it. What a Windows guest gives is an argument. The state of a
  POSIX guest has all keys of the catalog.
\<close>

definition STATE_KEYS :: "string list" where
  "STATE_KEYS = [''meta'', ''services'', ''network'', ''ports'', ''mounts'', ''cron'']"

definition outcome_of_session ::
  "(string \<Rightarrow> ssh_outcome) \<Rightarrow> host_key_event \<Rightarrow> session_error + collected \<Rightarrow> ssh_outcome" where
  "outcome_of_session windows ev r =
     (case r of
        Inr (Collected_state st) \<Rightarrow> Ssh_state STATE_KEYS st (hk_fingerprint ev)
      | Inr (Windows_collection json) \<Rightarrow> windows json
      | Inl Session_timeout \<Rightarrow> Socket_timeout
      | Inl Session_error \<Rightarrow> Other_exception
      | Inl (Command_not_allowed _) \<Rightarrow> Other_exception)"

definition injected_collect ::
  "(string \<Rightarrow> connect_outcome) \<Rightarrow> (string \<Rightarrow> remote) \<Rightarrow> (string \<Rightarrow> ssh_outcome) \<Rightarrow> string \<Rightarrow> int \<Rightarrow> string \<Rightarrow> ssh_outcome" where
  "injected_collect net remote windows host port username =
     (case injected_connect host (net host) of
        Inl e \<Rightarrow> Ssh_error e
      | Inr ev \<Rightarrow> outcome_of_session windows ev (fst (collect_session (remote host) [])))"

end
