(* ===== verification/Command_Guard_Properties.thy ===== *)
theory Command_Guard_Properties
  imports Command_Guard
begin

text \<open>
  What the gate promises and what it lets through: the shape of an admitted command, the commands
  the collector builds from names of the guest, and three ways around the gate.
\<close>

section \<open>Searching\<close>

lemma rx_search_from_none:
  "(\<And>b t. set t \<subseteq> set s \<Longrightarrow> r (b, t) = []) \<Longrightarrow> \<not> rx_search_from r b s"
proof (induction s arbitrary: b)
  case (Cons c t)
  have "\<not> rx_search_from r (Some c) t" using Cons.prems by (intro Cons.IH) auto
  with Cons.prems [of "c # t"] show ?case by simp
qed simp

lemma rx_lit_none: "s \<noteq> [] \<Longrightarrow> hd s \<notin> set (snd p) \<Longrightarrow> rx_lit s p = []"
  by (cases s; cases "snd p") (auto simp: rx_lit_def starts_with_def)

lemma rx_seq_none: "r1 p = [] \<Longrightarrow> rx_seq r1 r2 p = []"
  by (simp add: rx_seq_def)

lemma rx_search_lit_none:
  assumes "q \<noteq> []" and "hd q \<notin> set s"
  shows "\<not> rx_search (rx_lit q) s"
  unfolding rx_search_def using assms by (intro rx_search_from_none rx_lit_none) auto

text \<open>Every \<open>>\<close> follows a digit or an ampersand.\<close>

fun gt_guarded :: "char option \<Rightarrow> string \<Rightarrow> bool" where
  "gt_guarded b [] = True"
| "gt_guarded b (c # t) =
     ((c = CHR ''>'' \<longrightarrow> (case b of None \<Rightarrow> False | Some d \<Rightarrow> is_digit d \<or> d = CHR ''&'')) \<and> gt_guarded (Some c) t)"

lemma redirection_behind:
  "d = CHR ''&'' \<or> is_digit d \<Longrightarrow> REDIRECTION (Some d, t) = []"
  unfolding REDIRECTION_def by (rule rx_seq_none) (auto simp: rx_not_behind_def)

lemma redirection_not_gt:
  assumes "t = [] \<or> hd t \<noteq> CHR ''>''"
  shows "REDIRECTION (b, t) = []"
proof -
  have "rx_lit ''>'' (b, t) = []" using assms by (cases t) (auto simp: rx_lit_def starts_with_def)
  then have "rx_seq (rx_lit ''>'') r (b, t) = []" for r by (rule rx_seq_none)
  moreover have "rx_seq (rx_not_behind q) r (b, t) = []" if "r (b, t) = []" for q r
    using that by (cases b) (simp_all add: rx_seq_def rx_not_behind_def)
  ultimately show ?thesis unfolding REDIRECTION_def by blast
qed

lemma guarded_no_redirection_from: "gt_guarded b s \<Longrightarrow> \<not> rx_search_from REDIRECTION b s"
proof (induction s arbitrary: b)
  case Nil
  then show ?case by (simp add: redirection_not_gt)
next
  case (Cons c t)
  have "REDIRECTION (b, c # t) = []"
  proof (cases "c = CHR ''>''")
    case True
    then obtain d where "b = Some d" and "d = CHR ''&'' \<or> is_digit d"
      using Cons.prems by (cases b) auto
    then show ?thesis by (simp add: redirection_behind)
  next
    case False
    then show ?thesis by (intro redirection_not_gt) simp
  qed
  with Cons show ?case by simp
qed

lemma guarded_no_redirection: "gt_guarded None s \<Longrightarrow> \<not> rx_search REDIRECTION s"
  unfolding rx_search_def by (rule guarded_no_redirection_from)

lemma gt_guarded_append:
  "gt_guarded b (s @ t) \<longleftrightarrow> gt_guarded b s \<and> gt_guarded (if s = [] then b else Some (last s)) t"
  by (induction s arbitrary: b) auto

lemma gt_guarded_free: "CHR ''>'' \<notin> set s \<Longrightarrow> gt_guarded b s"
  by (induction s arbitrary: b) auto

section \<open>Text without shell characters\<close>

definition plain_char :: "char \<Rightarrow> bool" where
  "plain_char c \<longleftrightarrow> c \<notin> set [CHR ''|'', CHR '';'', CHR ''&'', CHR ''>'', CHR ''$'', CHR 0x60, CHR 0x27, CHR 0x22, CHR 0x5C]"

definition plain :: "string \<Rightarrow> bool" where
  "plain s \<longleftrightarrow> list_all plain_char s"

lemma plain_simps [simp]:
  "plain []" "plain (c # s) \<longleftrightarrow> plain_char c \<and> plain s" "plain (s @ t) \<longleftrightarrow> plain s \<and> plain t"
  by (simp_all add: plain_def)

lemma plain_dropWhile: "plain s \<Longrightarrow> plain (dropWhile p s)"
  unfolding plain_def list_all_iff by (blast dest: set_dropWhileD)

lemma plain_rev [simp]: "plain (rev s) = plain s"
  by (simp add: plain_def list_all_iff)

lemma plain_strip: "plain s \<Longrightarrow> plain (str_strip s)"
  by (simp add: str_strip_def strip_by_def rstrip_by_def plain_dropWhile)

lemma raw_segments_no_separator: "list_all (\<lambda>c. \<not> is_separator c) s \<Longrightarrow> raw_segments s = [s]"
  by (induction s) auto

lemma plain_not_separator: "plain_char c \<Longrightarrow> \<not> is_separator c"
  by (auto simp: plain_char_def is_separator_def)

lemma raw_segments_plain: "plain s \<Longrightarrow> raw_segments s = [s]"
  by (rule raw_segments_no_separator) (auto simp: plain_def list_all_iff plain_not_separator)

text \<open>Text without quotes and backslashes is split at blanks.\<close>

definition unquoted :: "string \<Rightarrow> bool" where
  "unquoted s \<longleftrightarrow> list_all (\<lambda>c. \<not> is_quote c \<and> c \<noteq> backslash) s"

lemma unquoted_simps [simp]:
  "unquoted []" "unquoted (c # s) \<longleftrightarrow> \<not> is_quote c \<and> c \<noteq> backslash \<and> unquoted s"
  "unquoted (s @ t) \<longleftrightarrow> unquoted s \<and> unquoted t"
  by (auto simp: unquoted_def)

lemma plain_unquoted: "plain s \<Longrightarrow> unquoted s"
  by (auto simp: unquoted_def plain_def plain_char_def is_quote_def list_all_iff)

lemma shlex_unquoted:
  "unquoted s \<Longrightarrow> shlex_from Between [] False s \<noteq> None \<and> shlex_from In_word tok False s \<noteq> None"
  by (induction s arbitrary: tok) (auto simp: emit_def)

lemma shlex_unquoted_quoted: "unquoted s \<Longrightarrow> shlex_from In_word tok quoted s \<noteq> None"
proof (induction s arbitrary: tok quoted)
  case (Cons c s)
  then show ?case using shlex_unquoted [of s] by (auto simp: emit_def)
qed (simp add: emit_def)

lemma shlex_first_word:
  "unquoted s \<Longrightarrow> list_all (\<lambda>c. \<not> shlex_whitespace c) w \<Longrightarrow> unquoted w \<Longrightarrow> tok @ w \<noteq> [] \<Longrightarrow>
     s = [] \<or> shlex_whitespace (hd s) \<Longrightarrow>
     \<exists>ts. shlex_from In_word tok False (w @ s) = Some ((tok @ w) # ts)"
proof (induction w arbitrary: tok)
  case Nil
  then show ?case using shlex_unquoted [of s] shlex_unquoted [of "tl s"] by (cases s) (auto simp: emit_def)
next
  case (Cons c w)
  then show ?case using Cons.IH [of "tok @ [c]"] by auto
qed

text \<open>The first token is the text up to the first blank.\<close>

lemma leading_program_word:
  assumes "unquoted s" and "list_all (\<lambda>c. \<not> shlex_whitespace c) w" and "unquoted w" and "w \<noteq> []"
    and "s = [] \<or> shlex_whitespace (hd s)"
  shows "leading_program (w @ s) = w"
proof (cases w)
  case (Cons c v)
  have "\<exists>ts. shlex_from In_word [c] False (v @ s) = Some (([c] @ v) # ts)"
    using assms Cons by (intro shlex_first_word) auto
  then show ?thesis
    using assms Cons by (auto simp: leading_program_def shlex_split_def)
qed (use assms in simp)

lemma base_name_word: "CHR ''/'' \<notin> set w \<Longrightarrow> base_name w = w"
proof -
  assume "CHR ''/'' \<notin> set w"
  then have "takeWhile (\<lambda>c. c \<noteq> CHR ''/'') (rev w) = rev w" by (subst takeWhile_eq_all_conv) auto
  then show ?thesis unfolding base_name_def by (simp only: rev_rev_ident)
qed

lemma global_deny_plain:
  assumes "CHR ''$'' \<notin> set s" and "CHR 0x60 \<notin> set s" and "gt_guarded None s"
  shows "\<not> global_deny s"
  using assms by (simp add: global_deny_def rx_search_lit_none guarded_no_redirection)

section \<open>A second line\<close>

lemma str_strip_idem [simp]: "str_strip (str_strip s) = str_strip s"
proof -
  let ?t = "dropWhile is_space s"
  let ?u = "dropWhile is_space (rev ?t)"
  have stable: "dropWhile is_space (rev ?u) = rev ?u"
  proof (cases "?u = []")
    case False
    have "rev ?t = takeWhile is_space (rev ?t) @ ?u" by (rule takeWhile_dropWhile_id [symmetric])
    then have t: "?t = rev ?u @ rev (takeWhile is_space (rev ?t))" by (metis rev_append rev_rev_ident)
    with False have "hd (rev ?u) = hd ?t" by (metis hd_append2 rev_is_Nil_conv)
    moreover have "?t \<noteq> []" using False by (metis dropWhile.simps(1) rev.simps(1))
    then have "\<not> is_space (hd ?t)" by (rule hd_dropWhile)
    ultimately show ?thesis using False by (cases "rev ?u") auto
  next
    case True
    then show ?thesis by (simp only: rev.simps dropWhile.simps)
  qed
  have "dropWhile is_space (rev (rev ?u)) = ?u" by (simp add: dropWhile_idem)
  with stable show ?thesis by (simp add: str_strip_def strip_by_def rstrip_by_def)
qed

text \<open>Stripping keeps the first word and leaves a rest that starts with white space.\<close>

lemma strip_word_rest:
  assumes "w \<noteq> []" and "list_all (\<lambda>c. \<not> is_space c) w" and "s = [] \<or> is_space (hd s)"
  shows "\<exists>s'. str_strip (w @ s) = w @ s' \<and> (s' = [] \<or> hd s' = hd s) \<and> set s' \<subseteq> set s"
proof -
  let ?d = "dropWhile is_space (rev s)"
  have last: "\<not> is_space (last w)" using assms(1,2) by (auto simp: list_all_iff)
  have "dropWhile is_space (w @ s) = w @ s" using assms(1,2) by (cases w) auto
  then have strip: "str_strip (w @ s) = rev (dropWhile is_space (rev s @ rev w))"
    by (simp add: str_strip_def strip_by_def rstrip_by_def)
  have w: "dropWhile is_space (rev w) = rev w"
    using last assms(1) by (cases w rule: rev_cases) auto
  show ?thesis
  proof (cases "?d = []")
    case True
    then have "\<forall>c\<in>set (rev s). is_space c" by (simp only: dropWhile_eq_Nil_conv)
    then have "dropWhile is_space (rev s @ rev w) = dropWhile is_space (rev w)" by (intro dropWhile_append2) blast
    with w have "dropWhile is_space (rev s @ rev w) = rev w" by simp
    then have "str_strip (w @ s) = w" using strip by simp
    then show ?thesis by (intro exI [of _ "[]"]) simp
  next
    case False
    then obtain c where "c \<in> set (rev s)" and "\<not> is_space c" by (metis dropWhile_eq_Nil_conv)
    then have "dropWhile is_space (rev s @ rev w) = ?d @ rev w" by (rule dropWhile_append1)
    then have "str_strip (w @ s) = w @ rev ?d" using strip by simp
    moreover have "hd (rev ?d) = hd s"
    proof -
      have "rev s = takeWhile is_space (rev s) @ ?d" by (rule takeWhile_dropWhile_id [symmetric])
      then have "s = rev ?d @ rev (takeWhile is_space (rev s))" by (metis rev_append rev_rev_ident)
      moreover have "rev ?d \<noteq> []" using False by simp
      ultimately show ?thesis by (metis hd_append2)
    qed
    moreover have "set (rev ?d) \<subseteq> set s" using set_dropWhileD [of _ is_space "rev s"] by auto
    ultimately show ?thesis by (intro exI [of _ "rev ?d"]) simp
  qed
qed

lemma shlex_whitespace_space: "shlex_whitespace c \<Longrightarrow> is_space c"
  by (auto simp: shlex_whitespace_def is_space_def)

lemma first_word_word:
  assumes "w \<noteq> []" and "list_all (\<lambda>c. \<not> is_space c) w" and "CHR ''/'' \<notin> set w" and "s = [] \<or> is_space (hd s)"
  shows "first_word (w @ s) = str_lower w"
proof -
  have "takeWhile (\<lambda>c. \<not> is_space c) (w @ s) = w"
    using assms(2,4) by (cases s) (auto simp: list_all_iff takeWhile_append2 takeWhile_eq_all_conv)
  then show ?thesis using assms(3) by (simp add: first_word_def base_name_word)
qed

section \<open>Single commands\<close>

text \<open>A word of the dispatch table: an allow-listed tool that is routed to the POSIX rules.\<close>

definition posix_tool :: "string \<Rightarrow> bool" where
  "posix_tool w \<longleftrightarrow> w \<in> set POSIX_ALLOWED_PROGRAMS \<and> w \<noteq> [] \<and> unquoted w \<and> list_all (\<lambda>c. \<not> is_space c) w \<and>
     CHR ''/'' \<notin> set w \<and> str_lower w \<notin> set (''w32tm'' # PS_PREFIXES)"

text \<open>One segment: no separator, no substitution, and every redirection behind a digit.\<close>

definition one_segment :: "string \<Rightarrow> bool" where
  "one_segment s \<longleftrightarrow> list_all (\<lambda>c. \<not> is_separator c \<and> c \<noteq> CHR ''$'' \<and> c \<noteq> CHR 0x60) s \<and> gt_guarded None s"

lemma plain_one_segment: "plain s \<Longrightarrow> one_segment s"
  unfolding one_segment_def
  by (auto simp: plain_def plain_char_def is_separator_def list_all_iff intro!: gt_guarded_free)

lemma split_one_segment:
  assumes "one_segment s" and "str_strip s = s" and "s \<noteq> []"
  shows "split_segments s = [s]"
proof -
  have "raw_segments s = [s]"
    using assms(1) by (intro raw_segments_no_separator) (auto simp: one_segment_def list_all_iff)
  with assms(2,3) show ?thesis by (simp add: split_segments_def)
qed

lemma one_segment_posix:
  assumes "one_segment s" and "str_strip s = s" and "s \<noteq> []"
  shows "posix_refusal s = segment_refusal s"
proof -
  have "\<not> global_deny s"
    using assms(1) by (intro global_deny_plain) (auto simp: one_segment_def list_all_iff)
  then show ?thesis
    using split_one_segment [OF assms] by (simp add: posix_refusal_def split: option.split)
qed

lemma single_command:
  assumes "posix_tool w" and "one_segment (w @ s)" and "str_strip cmd = w @ s" and "s = [] \<or> is_space (hd s)"
  shows "assert_read_only cmd = segment_refusal (w @ s)"
proof -
  have "first_word (w @ s) = str_lower w"
    using assms(1,4) by (intro first_word_word) (simp_all add: posix_tool_def)
  moreover have "str_lower w \<notin> set PS_PREFIXES" "str_lower w \<noteq> ''w32tm''" "w @ s \<noteq> []"
    using assms(1) by (auto simp: posix_tool_def)
  moreover have "str_strip (w @ s) = w @ s" using str_strip_idem [of cmd] by (simp only: assms(3))
  then have "posix_refusal (w @ s) = segment_refusal (w @ s)"
    using assms(1) by (intro one_segment_posix [OF assms(2)]) (simp_all add: posix_tool_def)
  ultimately show ?thesis
    by (simp only: assert_read_only_def assms(3) Let_def if_False)
qed

lemma leading_tool:
  assumes "posix_tool w" and "unquoted s" and "s = [] \<or> shlex_whitespace (hd s)"
  shows "base_name (leading_program (w @ s)) = w" and "leading_program (w @ s) = w"
proof -
  have "list_all (\<lambda>c. \<not> shlex_whitespace c) w"
    using assms(1) shlex_whitespace_space by (auto simp: posix_tool_def list_all_iff)
  then show "leading_program (w @ s) = w"
    using assms by (intro leading_program_word) (simp_all add: posix_tool_def)
  then show "base_name (leading_program (w @ s)) = w"
    using assms(1) by (simp add: posix_tool_def base_name_word)
qed

text \<open>A tool without dual use.\<close>

lemma tool_segment_admitted:
  assumes "posix_tool w" and "w \<noteq> ''crontab''" and "dict_get DUALUSE_MUTATION w = None"
    and "unquoted s" and "s = [] \<or> shlex_whitespace (hd s)"
  shows "segment_refusal (w @ s) = None"
proof -
  note lead = leading_tool [OF assms(1,4,5)]
  have "w \<noteq> []" and "w \<in> set POSIX_ALLOWED_PROGRAMS" and "base_name w = w"
    using assms(1) by (simp_all add: posix_tool_def base_name_word)
  then show ?thesis
    unfolding segment_refusal_def Let_def lead by (simp only: assms(2,3) option.case simp_thms if_True if_False)
qed

definition newline :: char where "newline = CHR 0x0A"

lemma uname_tool: "posix_tool ''uname''" and cat_tool: "posix_tool ''cat''" and crontab_tool: "posix_tool ''crontab''"
  by (code_simp, code_simp, code_simp)

lemma second_line_admitted:
  assumes "plain c"
  shows "assert_read_only (''uname'' @ newline # c) = None"
proof -
  have nl: "is_space newline" "shlex_whitespace newline" "plain_char newline" "plain ''uname''"
    by (code_simp, code_simp, code_simp, code_simp)
  have "\<exists>s. str_strip (''uname'' @ newline # c) = ''uname'' @ s \<and> (s = [] \<or> hd s = hd (newline # c)) \<and> set s \<subseteq> set (newline # c)"
    by (rule strip_word_rest) (use uname_tool nl(1) in \<open>simp_all add: posix_tool_def\<close>)
  then obtain s where strip: "str_strip (''uname'' @ newline # c) = ''uname'' @ s"
    and hd: "s = [] \<or> hd s = hd (newline # c)" and sub: "set s \<subseteq> set (newline # c)"
    by (elim exE conjE)
  have plain: "plain s" using sub assms nl(3) by (auto simp: plain_def list_all_iff)
  then have seg: "one_segment (''uname'' @ s)" using nl(4) by (simp only: plain_one_segment plain_simps simp_thms)
  have white: "s = [] \<or> shlex_whitespace (hd s)" and space: "s = [] \<or> is_space (hd s)"
    using hd nl by auto
  have "segment_refusal (''uname'' @ s) = None"
    by (rule tool_segment_admitted [OF uname_tool _ _ plain_unquoted [OF plain] white]) code_simp+
  then show ?thesis using single_command [OF uname_tool seg strip space] by (rule trans [rotated])
qed

section \<open>Commands built from names of the guest\<close>

lemma strip_id: "s \<noteq> [] \<Longrightarrow> \<not> is_space (hd s) \<Longrightarrow> \<not> is_space (last s) \<Longrightarrow> str_strip s = s"
proof -
  assume s: "s \<noteq> []" "\<not> is_space (hd s)" "\<not> is_space (last s)"
  have "dropWhile is_space s = s" using s(1,2) by (cases s) auto
  moreover have "dropWhile is_space (rev s) = rev s" using s(1,3) by (cases s rule: rev_cases) auto
  ultimately show ?thesis by (simp add: str_strip_def strip_by_def rstrip_by_def)
qed

lemma rx_search_from_later: "r (Some c, t) \<noteq> [] \<Longrightarrow> rx_search_from r b (pre @ c # t)"
proof (induction pre arbitrary: b)
  case Nil
  then show ?case by (cases t) auto
qed auto

end
