(* ===== verification/Ssh_Properties.thy ===== *)
theory Ssh_Properties
  imports Ssh_Session Command_Guard_Properties Collection_Batch
begin

text \<open>
  What one collection guarantees: only admitted commands reach the guest, names without shell
  characters never stop it, odd names do, and what the engine makes of its outcome.
\<close>

section \<open>The commands built from names\<close>

definition safe_name :: "string \<Rightarrow> bool" where
  "safe_name s \<longleftrightarrow> s \<noteq> [] \<and> list_all shell_safe s"

lemma shell_safe_plain: "shell_safe c \<Longrightarrow> plain_char c \<and> \<not> is_space c"
  by (auto simp: shell_safe_def plain_char_def is_word_def is_alnum_def is_alpha_def is_upper_def is_lower_def
      is_digit_def is_space_def)

lemma safe_name_facts:
  assumes "safe_name s"
  shows "plain s" and "list_all (\<lambda>c. \<not> is_space c) s" and "s \<noteq> []" and "shlex_quote s = s"
  using assms shell_safe_plain by (auto simp: safe_name_def plain_def list_all_iff shlex_quote_def)

lemma cat_admitted:
  assumes "safe_name p"
  shows "assert_read_only (''cat '' @ shlex_quote p) = None"
proof -
  note p = safe_name_facts [OF assms]
  have cat: "plain ''cat''" "plain_char (CHR '' '')" "is_space (CHR '' '')" "shlex_whitespace (CHR '' '')"
    "\<not> is_space (hd ''cat'')" "dict_get DUALUSE_MUTATION ''cat'' = None" "''cat'' \<noteq> ''crontab''"
    by (code_simp, code_simp, code_simp, code_simp, code_simp, code_simp, code_simp)
  let ?s = "CHR '' '' # p"
  have s: "plain ?s" using p(1) cat(2) by simp
  have seg: "one_segment (''cat'' @ ?s)" using s cat(1) by (simp only: plain_one_segment plain_simps simp_thms)
  have "\<not> is_space (last (''cat'' @ ?s))" using p(2,3) by (simp add: list_all_iff)
  then have strip: "str_strip (''cat'' @ ?s) = ''cat'' @ ?s" using cat(5) by (intro strip_id) simp_all
  have "segment_refusal (''cat'' @ ?s) = None"
    using cat(4) by (intro tool_segment_admitted [OF cat_tool cat(7) cat(6) plain_unquoted [OF s]]) simp
  then have "assert_read_only (''cat'' @ ?s) = None"
    using single_command [OF cat_tool seg strip] cat(3) by simp
  then show ?thesis using p(4) by simp
qed

definition USER_PREFIX :: string where "USER_PREFIX = '' -l -u ''"
definition USER_SUFFIX :: string where "USER_SUFFIX = '' 2>/dev/null''"

lemma format_template: "format_user CRON_USER_TEMPLATE u = ''crontab'' @ USER_PREFIX @ u @ USER_SUFFIX"
proof -
  have "find_str ''{user}'' CRON_USER_TEMPLATE = Some 14" by code_simp
  moreover have "take 14 CRON_USER_TEMPLATE = ''crontab'' @ USER_PREFIX" by code_simp
  moreover have "drop 20 CRON_USER_TEMPLATE = USER_SUFFIX" by code_simp
  ultimately show ?thesis by (simp add: format_user_def)
qed

lemma crontab_listing_found: "rx_search (flag_of [''-l'']) (''crontab'' @ USER_PREFIX @ r)"
proof -
  have "flag_of [''-l''] (Some (CHR ''b''), USER_PREFIX @ r) \<noteq> []"
    by (simp add: flag_of_def rx_seq_def rx_chr_def rx_any_def rx_lit_def USER_PREFIX_def starts_with_def
        rx_boundary_def word_at_def next_char_def is_space_def is_word_def is_alnum_def is_alpha_def is_upper_def
        is_lower_def is_digit_def)
  then have "rx_search_from (flag_of [''-l'']) None (''cronta'' @ CHR ''b'' # USER_PREFIX @ r)"
    by (rule rx_search_from_later)
  then show ?thesis by (simp add: rx_search_def)
qed

lemma crontab_admitted:
  assumes "safe_name u"
  shows "assert_read_only (format_user CRON_USER_TEMPLATE (shlex_quote u)) = None"
proof -
  note u = safe_name_facts [OF assms]
  have k: "plain USER_PREFIX" "plain ''crontab''" "unquoted USER_SUFFIX" "gt_guarded (Some c) USER_SUFFIX"
    "list_all (\<lambda>c. \<not> is_separator c \<and> c \<noteq> CHR ''$'' \<and> c \<noteq> CHR 0x60) USER_SUFFIX" "\<not> is_space (hd ''crontab'')"
    "is_space (hd USER_PREFIX)" "shlex_whitespace (hd USER_PREFIX)" "USER_PREFIX \<noteq> []" "USER_SUFFIX \<noteq> []"
    "\<not> is_space (last USER_SUFFIX)" for c
    by (code_simp, code_simp, code_simp, simp add: USER_SUFFIX_def is_digit_def, code_simp, code_simp, code_simp,
        code_simp, code_simp, code_simp, code_simp)
  let ?s = "USER_PREFIX @ u @ USER_SUFFIX"
  have "one_segment (''crontab'' @ USER_PREFIX @ u)"
    using k(1,2) u(1) by (simp only: plain_one_segment plain_simps simp_thms)
  then have seg: "one_segment (''crontab'' @ ?s)"
    using k(4,5) by (simp add: one_segment_def gt_guarded_append)
  have strip: "str_strip (''crontab'' @ ?s) = ''crontab'' @ ?s"
    using k(6,10,11) by (intro strip_id) simp_all
  have unq: "unquoted ?s" using k(1,3) u(1) by (simp add: plain_unquoted)
  have "segment_refusal (''crontab'' @ ?s) = None"
    using leading_tool [OF crontab_tool unq] k(8,9) crontab_listing_found [of "u @ USER_SUFFIX"]
    by (simp add: segment_refusal_def Let_def POSIX_ALLOWED_PROGRAMS_def)
  then have "assert_read_only (''crontab'' @ ?s) = None"
    using single_command [OF crontab_tool seg strip] k(7,9) by simp
  then show ?thesis using u(4) by (simp add: format_template)
qed

section \<open>Sessions\<close>

text \<open>
  A session only appends to the log. What it appends was admitted, up to a last entry that was
  refused, and then the refusal is its result.
\<close>

definition entry_admitted :: "command_entry \<Rightarrow> bool" where
  "entry_admitted e \<longleftrightarrow> \<not> ce_blocked e \<and> assert_read_only (ce_command e) = None"

definition entry_refused :: "refusal \<Rightarrow> command_entry \<Rightarrow> bool" where
  "entry_refused r e \<longleftrightarrow> ce_blocked e \<and> ce_exit_status e = None \<and> assert_read_only (ce_command e) = Some r"

definition ends_gated :: "session_error + 'a \<Rightarrow> command_entry list \<Rightarrow> bool" where
  "ends_gated res new \<longleftrightarrow>
     (case res of
        Inl (Command_not_allowed r) \<Rightarrow> \<exists>ok e. new = ok @ [e] \<and> list_all entry_admitted ok \<and> entry_refused r e
      | _ \<Rightarrow> list_all entry_admitted new)"

definition gated :: "'a session \<Rightarrow> bool" where
  "gated m \<longleftrightarrow> (\<forall>log. \<exists>new. snd (m log) = log @ new \<and> ends_gated (fst (m log)) new)"

named_theorems gated \<open>sessions that keep to the gate\<close>

lemma gated_return [gated]: "gated (return_session x)"
  by (simp add: gated_def return_session_def ends_gated_def)

lemma gated_run [gated]: "gated (ssh_run remote command)"
  unfolding gated_def
proof
  fix log
  show "\<exists>new. snd (ssh_run remote command log) = log @ new \<and> ends_gated (fst (ssh_run remote command log)) new"
    by (auto simp: ssh_run_def ends_gated_def entry_admitted_def entry_refused_def split: option.split remote_answer.split)
qed

lemma ends_gated_append:
  "list_all entry_admitted new \<Longrightarrow> ends_gated r new' \<Longrightarrow> ends_gated r (new @ new')"
  unfolding ends_gated_def
  by (auto split: sum.splits session_error.splits intro: exI [of _ "new @ _"])

lemma gated_bind [gated]:
  assumes "gated m" and "\<And>x. gated (f x)"
  shows "gated (bind_session m f)"
  unfolding gated_def
proof
  fix log
  obtain r log' where m: "m log = (r, log')" by (cases "m log")
  with assms(1) obtain new where new: "log' = log @ new" "ends_gated r new" unfolding gated_def by (metis fst_conv snd_conv)
  show "\<exists>new. snd (bind_session m f log) = log @ new \<and> ends_gated (fst (bind_session m f log)) new"
  proof (cases r)
    case (Inl e)
    then show ?thesis using m new by (auto simp: bind_session_def ends_gated_def)
  next
    case (Inr x)
    obtain new' where new': "snd (f x log') = log' @ new'" "ends_gated (fst (f x log')) new'"
      using assms(2) unfolding gated_def by blast
    have "list_all entry_admitted new" using new(2) Inr by (simp add: ends_gated_def)
    then have "ends_gated (fst (f x log')) (new @ new')" using new'(2) by (rule ends_gated_append)
    then show ?thesis using m Inr new(1) new'(1) by (auto simp: bind_session_def)
  qed
qed

lemma gated_user_crons [gated]: "gated (collect_user_crons remote cs ls acc)"
  by (induction ls arbitrary: acc) (auto simp: Let_def intro!: gated)

lemma gated_system_crons [gated]: "gated (collect_system_crons remote ls acc)"
  by (induction ls arbitrary: acc) (auto simp: Let_def intro!: gated)

lemma gated_cron [gated]: "gated (collect_cron remote cs)"
  unfolding collect_cron_def by (intro gated)

lemma gated_posix [gated]: "gated (collect_posix remote p)"
  unfolding collect_posix_def Let_def by (intro gated)

lemma gated_detect [gated]: "gated (detect_os remote)"
  unfolding detect_os_def by (auto intro!: gated)

lemma gated_session [gated]: "gated (collect_session remote)"
  unfolding collect_session_def by (intro gated_bind gated_detect) (auto intro!: gated split: detected_os.split)

section \<open>Collections that are not refused\<close>

definition unrefused :: "'a session \<Rightarrow> bool" where
  "unrefused m \<longleftrightarrow> (\<forall>log r. fst (m log) \<noteq> Inl (Command_not_allowed r))"

lemma unrefused_return: "unrefused (return_session x)"
  by (simp add: unrefused_def return_session_def)

lemma unrefused_run: "assert_read_only command = None \<Longrightarrow> unrefused (ssh_run remote command)"
  by (simp add: unrefused_def ssh_run_def split: remote_answer.split)

lemma unrefused_bind:
  assumes "unrefused m" and "\<And>x log log'. m log = (Inr x, log') \<Longrightarrow> unrefused (f x)"
  shows "unrefused (bind_session m f)"
  unfolding unrefused_def
proof (intro allI)
  fix log r
  obtain res log' where m: "m log = (res, log')" by (cases "m log")
  show "fst (bind_session m f log) \<noteq> Inl (Command_not_allowed r)"
  proof (cases res)
    case (Inl e)
    then show ?thesis using assms(1) m by (auto simp: bind_session_def unrefused_def) (metis fst_conv)
  next
    case (Inr x)
    then have "unrefused (f x)" using assms(2) m by blast
    then show ?thesis using m Inr by (simp add: bind_session_def unrefused_def)
  qed
qed

lemma unrefused_bind_all:
  "unrefused m \<Longrightarrow> (\<And>x. unrefused (f x)) \<Longrightarrow> unrefused (bind_session m f)"
  by (rule unrefused_bind)

text \<open>The lines of an answer are blank or safe names.\<close>

definition names_safe :: "string \<Rightarrow> bool" where
  "names_safe out \<longleftrightarrow> list_all (\<lambda>l. str_strip l = [] \<or> safe_name (str_strip l)) (splitlines out)"

definition answers_safely :: "remote \<Rightarrow> string \<Rightarrow> bool" where
  "answers_safely remote command \<longleftrightarrow> (\<forall>n text. remote n command = Answer 0 text \<longrightarrow> names_safe (unify_newlines text))"

lemma run_names_safe:
  "answers_safely remote command \<Longrightarrow> ssh_run remote command log = (Inr out, log') \<Longrightarrow> names_safe out"
  by (auto simp: ssh_run_def answers_safely_def names_safe_def split: option.splits remote_answer.splits if_splits)

lemma unrefused_user_crons:
  assumes "cs_cron_user_template cs = CRON_USER_TEMPLATE" and "list_all (\<lambda>l. str_strip l = [] \<or> safe_name (str_strip l)) ls"
  shows "unrefused (collect_user_crons remote cs ls acc)"
  using assms(2)
  by (induction ls arbitrary: acc)
     (auto simp: Let_def user_command_def assms(1) crontab_admitted intro!: unrefused_return unrefused_bind_all unrefused_run)

lemma unrefused_system_crons:
  assumes "list_all (\<lambda>l. str_strip l = [] \<or> safe_name (str_strip l)) ls"
  shows "unrefused (collect_system_crons remote ls acc)"
  using assms
  by (induction ls arbitrary: acc)
     (auto simp: Let_def cat_admitted [simplified] intro!: unrefused_return unrefused_bind_all unrefused_run)

text \<open>The sets of POSIX guests.\<close>

definition posix_set :: "command_set \<Rightarrow> bool" where
  "posix_set cs \<longleftrightarrow> cs = rhel7 \<or> cs = rhel_modern \<or> cs = debian_like"

lemma command_set_posix: "op_distro_family p \<noteq> Windows_family \<Longrightarrow> posix_set (command_set_for p)"
  by (simp add: command_set_for_def posix_set_def modern_default_def split: distro_family.split)

lemma admitted_command: "table_admitted cs \<Longrightarrow> c \<in> set (runnable_commands cs) \<Longrightarrow> assert_read_only c = None"
  by (simp add: table_admitted_def list_all_iff)

lemma posix_set_admitted: "posix_set cs \<Longrightarrow> table_admitted cs"
  by (auto simp: posix_set_def admitted_rhel7 admitted_rhel_modern admitted_debian_like)

lemma posix_set_cron:
  assumes "posix_set cs"
  shows "cs_cron_user_template cs = CRON_USER_TEMPLATE" "cs_cron_users cs = CRON_USERS"
    "cs_cron_system_paths cs = CRON_SYSTEM_PATHS"
  using assms by (auto simp: posix_set_def rhel7_def rhel_modern_def debian_like_def)

lemma posix_set_runs:
  assumes "posix_set cs"
  shows "assert_read_only (cs_hostname_fqdn cs) = None" "assert_read_only (cs_services_running cs) = None"
    "assert_read_only (cs_network_addr_v4 cs) = None" "assert_read_only (cs_network_addr_v6 cs) = None"
    "assert_read_only (cs_network_routes cs) = None" "assert_read_only (cs_resolv_conf cs) = None"
    "assert_read_only (cs_listening_ports cs) = None" "assert_read_only (cs_mounts cs) = None"
    "assert_read_only (cs_cron_users cs) = None" "assert_read_only (cs_cron_system_paths cs) = None"
proof -
  have fields: "cs_hostname_fqdn cs = HOSTNAME" "cs_services_running cs = SERVICES_SYSTEMD"
    "cs_network_addr_v4 cs = NETWORK_ADDR_V4" "cs_network_addr_v6 cs = NETWORK_ADDR_V6"
    "cs_network_routes cs = NETWORK_ROUTES" "cs_resolv_conf cs = RESOLV_CONF" "cs_mounts cs = MOUNTS"
    "cs_cron_users cs = CRON_USERS" "cs_cron_system_paths cs = CRON_SYSTEM_PATHS" "cs_listening_ports cs \<noteq> []"
    using assms by (auto simp: posix_set_def rhel7_def rhel_modern_def debian_like_def)
  have nonempty: "HOSTNAME \<noteq> []" "SERVICES_SYSTEMD \<noteq> []" "NETWORK_ADDR_V4 \<noteq> []" "NETWORK_ADDR_V6 \<noteq> []"
    "NETWORK_ROUTES \<noteq> []" "RESOLV_CONF \<noteq> []" "MOUNTS \<noteq> []" "CRON_USERS \<noteq> []" "CRON_SYSTEM_PATHS \<noteq> []"
    by (simp_all add: HOSTNAME_def SERVICES_SYSTEMD_def NETWORK_ADDR_V4_def NETWORK_ADDR_V6_def NETWORK_ROUTES_def
        RESOLV_CONF_def MOUNTS_def CRON_USERS_def CRON_SYSTEM_PATHS_def)
  note run = admitted_command [OF posix_set_admitted [OF assms]]
  show "assert_read_only (cs_hostname_fqdn cs) = None" "assert_read_only (cs_services_running cs) = None"
    "assert_read_only (cs_network_addr_v4 cs) = None" "assert_read_only (cs_network_addr_v6 cs) = None"
    "assert_read_only (cs_network_routes cs) = None" "assert_read_only (cs_resolv_conf cs) = None"
    "assert_read_only (cs_listening_ports cs) = None" "assert_read_only (cs_mounts cs) = None"
    "assert_read_only (cs_cron_users cs) = None" "assert_read_only (cs_cron_system_paths cs) = None"
    by (rule run, simp add: runnable_commands_def fields nonempty)+
qed

lemma unrefused_cron:
  assumes "posix_set cs" and "answers_safely remote CRON_USERS" and "answers_safely remote CRON_SYSTEM_PATHS"
  shows "unrefused (collect_cron remote cs)"
  unfolding collect_cron_def
proof (intro unrefused_bind unrefused_return)
  show "unrefused (ssh_run remote (cs_cron_users cs))" "unrefused (ssh_run remote (cs_cron_system_paths cs))"
    using posix_set_runs(9,10) [OF assms(1)] by (simp_all add: unrefused_run)
next
  fix out log log'
  assume "ssh_run remote (cs_cron_users cs) log = (Inr out, log')"
  then have "names_safe out" using assms(2) run_names_safe by (simp add: posix_set_cron [OF assms(1)])
  then show "unrefused (collect_user_crons remote cs (splitlines out) [])"
    using posix_set_cron(1) [OF assms(1)] by (intro unrefused_user_crons) (simp_all add: names_safe_def)
next
  fix out log log'
  assume "ssh_run remote (cs_cron_system_paths cs) log = (Inr out, log')"
  then have "names_safe out" using assms(3) run_names_safe by (simp add: posix_set_cron [OF assms(1)])
  then show "unrefused (collect_system_crons remote (splitlines out) [])"
    by (intro unrefused_system_crons) (simp add: names_safe_def)
qed

lemma unrefused_posix:
  assumes "op_distro_family p \<noteq> Windows_family" and "answers_safely remote CRON_USERS"
    and "answers_safely remote CRON_SYSTEM_PATHS"
  shows "unrefused (collect_posix remote p)"
proof -
  note posix = command_set_posix [OF assms(1)]
  show ?thesis
    unfolding collect_posix_def Let_def
    by (intro unrefused_bind_all unrefused_return unrefused_run posix_set_runs [OF posix] unrefused_cron [OF posix] assms(2,3))
qed

lemma family_windows: "family_of d l = Windows_family \<Longrightarrow> starts_with ''windows'' d"
  by (simp add: family_of_def Let_def split: if_splits)

lemma detected_family: "op_distro_family (detect a b c) \<noteq> Windows_family"
proof -
  have table: "list_all (\<lambda>(k, d). \<not> starts_with ''windows'' d) DISTRO_BY_ID" "\<not> starts_with ''windows'' ''unknown''"
    by (code_simp, code_simp)
  have "\<not> starts_with ''windows'' (dict_get_or DISTRO_BY_ID k ''unknown'')" for k
    using table map_of_SomeD [of DISTRO_BY_ID k]
    by (auto simp: dict_get_or_def dict_get_eq_map_of list_all_iff split: option.split)
  then show ?thesis using family_windows by (auto simp: detect_def Let_def)
qed

lemma detect_os_family:
  "detect_os remote log = (Inr (Posix_guest p), log') \<Longrightarrow> op_distro_family p \<noteq> Windows_family"
  by (auto simp: detect_os_def bind_session_def return_session_def detected_family UNKNOWN_PROFILE_def
      split: prod.splits sum.splits if_splits)

lemma detection_commands:
  "assert_read_only ''cat /etc/os-release'' = None" "assert_read_only ''uname -r'' = None"
  "assert_read_only ''uname -m'' = None" "assert_read_only PS_PROBE = None"
  by (code_simp, code_simp, code_simp, code_simp)

lemma unrefused_detect: "unrefused (detect_os remote)"
  unfolding detect_os_def using detection_commands by (auto intro!: unrefused_bind_all unrefused_run unrefused_return)

lemma unrefused_session:
  assumes "answers_safely remote CRON_USERS" and "answers_safely remote CRON_SYSTEM_PATHS"
  shows "unrefused (collect_session remote)"
  unfolding collect_session_def
proof (rule unrefused_bind [OF unrefused_detect])
  fix os log log'
  assume os: "detect_os remote log = (Inr os, log')"
  show "unrefused (case os of Posix_guest p \<Rightarrow> bind_session (collect_posix remote p) (\<lambda>st. return_session (Collected_state st))
      | Windows_guest json \<Rightarrow> return_session (Windows_collection json))"
  proof (cases os)
    case (Posix_guest p)
    then show ?thesis
      using unrefused_posix [OF detect_os_family assms] os by (auto intro!: unrefused_bind_all unrefused_return)
  qed (simp add: unrefused_return)
qed

section \<open>File names with separators\<close>

text \<open>The text of a quoted name, between the outer quotes.\<close>

definition quote_escape :: "string \<Rightarrow> string" where
  "quote_escape s = concat (map (\<lambda>c. if c = CHR 0x27 then [CHR 0x27, CHR 0x22, CHR 0x27, CHR 0x22, CHR 0x27] else [c]) s)"

lemma quote_escape_simps [simp]:
  "quote_escape [] = []"
  "quote_escape (c # s) = (if c = CHR 0x27 then [CHR 0x27, CHR 0x22, CHR 0x27, CHR 0x22, CHR 0x27] else [c]) @ quote_escape s"
  "quote_escape (s @ t) = quote_escape s @ quote_escape t"
  by (simp_all add: quote_escape_def)

lemma escape_stays_quoted: "shlex_from (In_quote (CHR 0x27)) tok q (quote_escape s) = None"
  by (induction s arbitrary: tok q) (auto simp: shlex_whitespace_def is_quote_def)

lemma unquoted_blanks: "list_all is_space s \<Longrightarrow> unquoted s"
  by (auto simp: list_all_iff unquoted_def is_quote_def is_space_def Let_def)

lemma shlex_strip_end:
  "list_all is_space ws \<Longrightarrow> shlex_from m tok q (s @ ws) = None \<Longrightarrow> shlex_from m tok q s = None"
proof (induction m tok q s rule: shlex_from.induct)
  case (1 tok quoted)
  have "shlex_from Between tok quoted ws = shlex_from Between [] False ws" by (cases ws) simp_all
  then show ?case using shlex_unquoted [OF unquoted_blanks, of ws] 1 by auto
next
  case (2 tok quoted)
  have "shlex_from In_word tok quoted ws \<noteq> None"
    using shlex_unquoted_quoted [OF unquoted_blanks] 2 by blast
  then show ?case using 2 by simp
qed (auto simp: emit_def split: if_splits option.splits)

lemma raw_segments_first:
  "list_all (\<lambda>c. \<not> is_separator c) x \<Longrightarrow> is_separator d \<Longrightarrow> \<exists>ss. raw_segments (x @ d # y) = x # ss"
proof (induction x)
  case Nil
  then show ?case by (cases y) auto
next
  case (Cons c x)
  then obtain ss where "raw_segments (x @ d # y) = x # ss" by auto
  with Cons.prems show ?case by (cases "x @ d # y") auto
qed

lemma rstrip_decompose: "\<exists>ws. list_all is_space ws \<and> s = rstrip_by is_space s @ ws"
proof -
  have "s = rev (dropWhile is_space (rev s)) @ rev (takeWhile is_space (rev s))"
    by (metis rev_append rev_rev_ident takeWhile_dropWhile_id)
  moreover have "list_all is_space (rev (takeWhile is_space (rev s)))"
    by (auto simp: list_all_iff dest: set_takeWhileD)
  ultimately show ?thesis unfolding rstrip_by_def by blast
qed

text \<open>A command whose first segment does not parse is refused.\<close>

lemma first_segment_unparseable:
  assumes "str_strip cmd = x @ d # y" and "list_all (\<lambda>c. \<not> is_separator c) x" and "is_separator d"
    and "shlex_split x = None" and "x \<noteq> []" and "\<not> is_space (hd x)"
  shows "posix_refusal (str_strip cmd) \<noteq> None"
proof (cases "global_deny (str_strip cmd)")
  case False
  obtain ss where raw: "raw_segments (str_strip cmd) = x # ss"
    using raw_segments_first [OF assms(2,3)] assms(1) by metis
  have strip: "str_strip x = rstrip_by is_space x"
    using assms(5,6) by (cases x) (simp_all add: str_strip_def strip_by_def)
  obtain ws where ws: "list_all is_space ws" "x = rstrip_by is_space x @ ws" using rstrip_decompose by blast
  have none: "shlex_split (rstrip_by is_space x) = None"
    using shlex_strip_end [OF ws(1)] assms(4) ws(2) unfolding shlex_split_def by metis
  then have "rstrip_by is_space x \<noteq> []" by (auto simp: shlex_split_def)
  then have "split_segments (str_strip cmd) = rstrip_by is_space x # filter (\<lambda>p. p \<noteq> []) (map str_strip ss)"
    by (simp add: split_segments_def raw strip)
  moreover have "segment_refusal (rstrip_by is_space x) = Some Unparseable_segment"
    by (simp add: segment_refusal_def leading_program_def none Let_def)
  ultimately show ?thesis using False by (simp add: posix_refusal_def)
qed (simp add: posix_refusal_def)

lemma split_at_separator:
  "\<exists>c\<in>set p. is_separator c \<Longrightarrow> \<exists>a d b. p = a @ d # b \<and> list_all (\<lambda>c. \<not> is_separator c) a \<and> is_separator d"
  using split_list_first_prop [of p is_separator] by (auto simp: list_all_iff)

lemma separator_refused:
  assumes "\<exists>c\<in>set p. is_separator c"
  shows "assert_read_only (''cat '' @ shlex_quote p) \<noteq> None"
proof -
  obtain a d b where p: "p = a @ d # b" and a: "list_all (\<lambda>c. \<not> is_separator c) a" and d: "is_separator d"
    using split_at_separator [OF assms] by blast
  have "\<not> shell_safe d" using d by (auto simp: is_separator_def shell_safe_def is_word_def is_alnum_def is_alpha_def
      is_upper_def is_lower_def is_digit_def)
  then have "\<not> list_all shell_safe p" using p by simp
  moreover have "d \<noteq> CHR 0x27" using d by (auto simp: is_separator_def)
  ultimately have quote: "shlex_quote p = CHR 0x27 # quote_escape a @ d # quote_escape b @ [CHR 0x27]"
    using p by (auto simp: shlex_quote_def quoted_def quote_escape_def)
  let ?x = "''cat '' @ CHR 0x27 # quote_escape a"
  let ?cmd = "''cat '' @ shlex_quote p"
  have cmd: "?cmd = ?x @ d # quote_escape b @ [CHR 0x27]" using quote by simp
  have strip: "str_strip ?cmd = ?cmd"
    unfolding cmd by (rule strip_id) (simp_all add: is_space_def Let_def)
  have first: "first_word ?cmd = ''cat''"
    using first_word_word [of "''cat''" "CHR '' '' # shlex_quote p"] cat_tool
    by (simp add: posix_tool_def is_space_def Let_def) code_simp
  have "list_all (\<lambda>c. \<not> is_separator c) (quote_escape s)" if "list_all (\<lambda>c. \<not> is_separator c) s" for s
    using that by (induction s) (auto simp: is_separator_def)
  then have x: "list_all (\<lambda>c. \<not> is_separator c) ?x" using a by (auto simp: is_separator_def)
  have none: "shlex_split ?x = None"
    using escape_stays_quoted [of "[]" False a]
    by (simp add: shlex_split_def shlex_whitespace_def is_quote_def emit_def)
  have refused: "posix_refusal (str_strip ?cmd) \<noteq> None"
    by (rule first_segment_unparseable [OF trans [OF strip cmd] x d none]) (simp_all add: is_space_def Let_def)
  have "''cat'' \<notin> set PS_PREFIXES" "''cat'' \<noteq> ''w32tm''" "?cmd \<noteq> []" by (code_simp, code_simp, simp)
  then have "assert_read_only ?cmd = posix_refusal ?cmd"
    unfolding assert_read_only_def strip Let_def first by (simp only: if_False)
  with refused show ?thesis unfolding strip by simp
qed

lemma system_crons_refused:
  assumes "\<exists>l\<in>set ls. \<exists>c\<in>set (str_strip l). is_separator c"
  shows "fst (collect_system_crons remote ls acc log) \<noteq> Inr x"
  using assms
proof (induction ls arbitrary: acc log)
  case (Cons l ls)
  show ?case
  proof (cases "\<exists>c\<in>set (str_strip l). is_separator c")
    case True
    then have "assert_read_only (''cat '' @ shlex_quote (str_strip l)) \<noteq> None" by (rule separator_refused)
    moreover have "str_strip l \<noteq> []" using True by auto
    ultimately show ?thesis by (auto simp: Let_def bind_session_def ssh_run_def)
  next
    case False
    then have rest: "fst (collect_system_crons remote ls acc' log') \<noteq> Inr x" for acc' log'
      using Cons by auto
    show ?thesis
      using rest by (simp add: Let_def bind_session_def split: prod.split sum.split)
  qed
qed simp

lemma inr_bindE:
  assumes "fst (bind_session m f log) = Inr y"
  obtains x log' where "m log = (Inr x, log')" and "fst (f x log') = Inr y"
  using assms by (auto simp: bind_session_def split: prod.splits sum.splits)

lemma posix_collects_cron:
  "fst (collect_posix remote p log) = Inr st \<Longrightarrow>
     \<exists>log' cron. fst (collect_cron remote (command_set_for p) log') = Inr cron"
  unfolding collect_posix_def Let_def by (elim inr_bindE) (metis fst_conv)

lemma cron_reads_listing:
  "fst (collect_cron remote cs log) = Inr cron \<Longrightarrow>
     \<exists>log1 log2 listing sys. ssh_run remote (cs_cron_system_paths cs) log1 = (Inr listing, log2) \<and>
       fst (collect_system_crons remote (splitlines listing) [] log2) = Inr sys"
  unfolding collect_cron_def by (elim inr_bindE) (metis fst_conv)

lemma session_collects_posix:
  assumes "fst (collect_session remote log) = Inr (Collected_state st)"
  shows "\<exists>p log' st'. op_distro_family p \<noteq> Windows_family \<and> fst (collect_posix remote p log') = Inr st'"
proof -
  obtain os log' where os: "detect_os remote log = (Inr os, log')"
    and rest: "fst ((case os of Posix_guest p \<Rightarrow> bind_session (collect_posix remote p) (\<lambda>st. return_session (Collected_state st))
      | Windows_guest json \<Rightarrow> return_session (Windows_collection json)) log') = Inr (Collected_state st)"
    using assms unfolding collect_session_def by (rule inr_bindE)
  show ?thesis
  proof (cases os)
    case (Posix_guest p)
    with rest obtain st' log'' where "collect_posix remote p log' = (Inr st', log'')"
      by (auto elim: inr_bindE)
    then show ?thesis using os Posix_guest detect_os_family by (metis fst_conv)
  next
    case (Windows_guest json)
    with rest show ?thesis by (simp add: return_session_def)
  qed
qed

section \<open>Connections that are refused\<close>

text \<open>An occurrence of a text does not cross a character that does not occur in it.\<close>

lemma contains_across:
  assumes "c \<notin> set k"
  shows "contains_str k (x @ c # y) \<longleftrightarrow> contains_str k x \<or> contains_str k y"
proof
  assume "contains_str k (x @ c # y)"
  then obtain l r where eq: "x @ c # y = l @ k @ r" by (auto simp: contains_str_iff)
  show "contains_str k x \<or> contains_str k y"
  proof (cases "length l + length k \<le> length x")
    case True
    then have "x = l @ k @ drop (length l + length k) x"
      by (metis (no_types, lifting) append.assoc append_eq_append_conv_if append_take_drop_id eq length_append)
    then show ?thesis by (metis contains_str_iff)
  next
    case False
    show ?thesis
    proof (cases "length x < length l")
      case True
      then have "y = drop (length x + 1) l @ k @ r"
        using arg_cong [OF eq, of "drop (length x + 1)"] by simp
      then show ?thesis by (metis contains_str_iff)
    next
      case pos: False
      have inside: "length x - length l < length k" "\<not> length x < length l" using False pos by linarith+
      have "k ! (length x - length l) = (l @ k @ r) ! length x"
        using inside by (simp only: nth_append if_True if_False)
      also have "\<dots> = c" by (simp flip: eq)
      finally have "c \<in> set k" using inside(1) nth_mem by blast
      with assms show ?thesis by simp
    qed
  qed
next
  assume "contains_str k x \<or> contains_str k y"
  then show "contains_str k (x @ c # y)"
    by (auto simp: contains_str_iff) (metis append.assoc append_Cons)+
qed

lemma contains_gap:
  assumes "h \<noteq> []" and "\<forall>c\<in>set h. c \<notin> set k" and "k \<noteq> []"
  shows "contains_str k (x @ h @ y) \<longleftrightarrow> contains_str k x \<or> contains_str k y"
  using assms(1,2)
proof (induction h arbitrary: x rule: list_nonempty_induct)
  case (single c)
  then show ?case using contains_across [of c k] by simp
next
  case (cons c h)
  have nil: "\<not> contains_str k []" using assms(3) by simp
  have "contains_str k ((x @ [c]) @ h @ y) \<longleftrightarrow> contains_str k (x @ [c]) \<or> contains_str k y"
    using cons.prems by (intro cons.IH) simp
  moreover have "contains_str k (x @ [c]) \<longleftrightarrow> contains_str k x"
    using contains_across [of c k x "[]"] cons.prems nil by simp
  ultimately show ?case by simp
qed

text \<open>
  The text of paramiko's exception when every address of a host refuses the connection or cannot be
  reached (\<open>NoValidConnectionsError\<close>, an \<open>OSError\<close>).
\<close>

definition no_connection :: "string \<Rightarrow> string" where
  "no_connection host = ''[Errno None] Unable to connect to port 22 on '' @ host"

definition numeric_host :: "string \<Rightarrow> bool" where
  "numeric_host h \<longleftrightarrow> h \<noteq> [] \<and> list_all (\<lambda>c. is_digit c \<or> c = CHR ''.'') h"

definition CONNECTION_WORDS :: "string list" where
  "CONNECTION_WORDS = [''authentication'', ''timed out'', ''timeout'', ''unreachable'', ''no route'',
     ''connection refused'', ''name or service not known'', ''could not resolve'']"

lemma lower_numeric: "numeric_host h \<Longrightarrow> str_lower h = h"
  by (auto simp: numeric_host_def str_lower_def list_all_iff lower_char_def is_upper_def is_digit_def intro!: map_idI)

lemma no_connection_words:
  assumes "numeric_host h" and "k \<in> set CONNECTION_WORDS"
  shows "\<not> contains_str k (str_lower (failed_text h (no_connection h)))"
proof -
  let ?a = "''ssh connection to ''" and ?b = "'' failed: [errno none] unable to connect to port 22 on ''"
  have lower: "str_lower ''SSH connection to '' = ?a" "str_lower ('' failed: '' @ ''[Errno None] Unable to connect to port 22 on '') = ?b"
    by (code_simp, code_simp)
  have rendered: "str_lower (failed_text h (no_connection h)) = ?a @ h @ ?b @ h @ []"
    using lower lower_numeric [OF assms(1)] by (simp add: failed_text_def no_connection_def)
  have words: "list_all (\<lambda>k. \<not> contains_str k ?a \<and> \<not> contains_str k ?b \<and> k \<noteq> [] \<and> list_all (\<lambda>c. \<not> is_digit c \<and> c \<noteq> CHR ''.'') k)
      CONNECTION_WORDS" by code_simp
  then have k: "\<not> contains_str k ?a" "\<not> contains_str k ?b" "k \<noteq> []" "list_all (\<lambda>c. \<not> is_digit c \<and> c \<noteq> CHR ''.'') k"
    using assms(2) by (auto simp: list_all_iff)
  have h: "h \<noteq> []" "\<forall>c\<in>set h. c \<notin> set k" using assms(1) k(4) by (auto simp: numeric_host_def list_all_iff)
  have "\<not> contains_str k []" using k(3) by simp
  then show ?thesis unfolding rendered contains_gap [OF h k(3)] using k(1,2) by blast
qed

lemma refused_connection_category:
  assumes "numeric_host h"
  shows "categorize_ssh_error (mk_ssh_error ''generic'' (failed_text h (no_connection h)) []) = Command_failed"
proof -
  have "\<not> contains_str k (str_lower (failed_text h (no_connection h)))" if "k \<in> set CONNECTION_WORDS" for k
    using no_connection_words assms that by blast
  then show ?thesis by (simp add: categorize_ssh_error_def mk_ssh_error_def CONNECTION_WORDS_def)
qed

lemma refused_connection_result:
  assumes "numeric_host (vt_host t)" and "net (vt_host t) = Os_error (no_connection (vt_host t))"
  shows "cr_failure_category (collect (injected_collect net remote windows) t) = Some Command_failed"
  using assms refused_connection_category [OF assms(1)]
  by (simp add: collect_def injected_collect_def injected_connect_def numeric_host_def)

section \<open>What the gate and the session guarantee\<close>

text \<open>
  Every command of every dispatch table, whatever the profile of the guest, is admitted by the gate
  (the formatted crontab command and the fields a Windows guest leaves empty apart).
\<close>

theorem dispatch_table_admitted: "table_admitted (command_set_for p)"
  by (simp add: command_set_for_def modern_default_def admitted_rhel7 admitted_rhel_modern admitted_debian_like
      admitted_windows_powershell split: distro_family.split)

text \<open>Two remote sides that answer the admitted commands alike cannot be told apart by a session.\<close>

definition agree_on_admitted :: "remote \<Rightarrow> remote \<Rightarrow> bool" where
  "agree_on_admitted r r' \<longleftrightarrow> (\<forall>n c. assert_read_only c = None \<longrightarrow> r n c = r' n c)"

lemma ssh_run_cong: "agree_on_admitted r r' \<Longrightarrow> ssh_run r = ssh_run r'"
  by (auto simp: fun_eq_iff ssh_run_def agree_on_admitted_def split: option.split)

lemma cron_cong:
  assumes "ssh_run r = ssh_run r'"
  shows "collect_user_crons r cs ls acc = collect_user_crons r' cs ls acc"
    and "collect_system_crons r ls sys = collect_system_crons r' ls sys"
  by (induction ls arbitrary: acc sys) (auto simp: assms Let_def)

lemma session_cong: "agree_on_admitted r r' \<Longrightarrow> collect_session r = collect_session r'"
proof -
  assume "agree_on_admitted r r'"
  then have run: "ssh_run r = ssh_run r'" by (rule ssh_run_cong)
  have "collect_posix r = collect_posix r'"
    unfolding fun_eq_iff collect_posix_def collect_cron_def run cron_cong [OF run] by simp
  then show ?thesis unfolding collect_session_def detect_os_def run by simp
qed

text \<open>
  C35: only admitted commands reach the guest. The log of a collection is a list of admitted commands,
  with one refused command behind them exactly when the collection ends in its refusal; and what a
  guest would answer to any command the gate refuses has no influence on the collection.
\<close>

theorem session_keeps_to_gate:
  "ends_gated (fst (collect_session remote [])) (snd (collect_session remote [])) \<and>
   collect_session (\<lambda>n c. if assert_read_only c = None then remote n c else Answer_error) = collect_session remote"
proof
  obtain new where "snd (collect_session remote []) = [] @ new" "ends_gated (fst (collect_session remote [])) new"
    using gated_session unfolding gated_def by blast
  then show "ends_gated (fst (collect_session remote [])) (snd (collect_session remote []))" by simp
  show "collect_session (\<lambda>n c. if assert_read_only c = None then remote n c else Answer_error) = collect_session remote"
    by (rule session_cong) (simp add: agree_on_admitted_def)
qed

text \<open>
  C36: the gate never stops a collection of a guest whose user names and cron file names have no
  characters that the shell treats specially, whatever else the guest answers.
\<close>

theorem safe_names_never_refused:
  assumes "answers_safely remote CRON_USERS" and "answers_safely remote CRON_SYSTEM_PATHS"
  shows "fst (collect_session remote []) \<noteq> Inl (Command_not_allowed r)"
  using unrefused_session [OF assms] by (simp add: unrefused_def)

text \<open>A guest with two users and a cron file.\<close>

definition small_guest :: remote where
  "small_guest n c =
     (if c = ''cat /etc/os-release'' then Answer 0 (''ID=rhel'' @ [CHR 0x0A] @ ''VERSION_ID=7.9'')
      else if c = CRON_USERS then Answer 0 (''root'' @ [CHR 0x0A] @ ''app'')
      else if c = CRON_SYSTEM_PATHS then Answer 0 ''/etc/cron.d/backup''
      else Answer 0 [])"

lemma safe_names_never_refused_witness:
  "fst (collect_session small_guest []) \<noteq> Inl (Command_not_allowed Unparseable_segment)"
proof (rule safe_names_never_refused)
  have "names_safe (unify_newlines (''root'' @ [CHR 0x0A] @ ''app''))" "names_safe (unify_newlines ''/etc/cron.d/backup'')"
    by (code_simp, code_simp)
  moreover have "CRON_USERS \<noteq> ''cat /etc/os-release''" "CRON_SYSTEM_PATHS \<noteq> ''cat /etc/os-release''" "CRON_SYSTEM_PATHS \<noteq> CRON_USERS"
    by (code_simp, code_simp, code_simp)
  ultimately show "answers_safely small_guest CRON_USERS" "answers_safely small_guest CRON_SYSTEM_PATHS"
    by (auto simp: answers_safely_def small_guest_def)
qed

text \<open>
  C37: one cron file with a \<open>;\<close>, \<open>|\<close> or \<open>&\<close> in its name costs the whole collection: the quoted name is cut at the
  separator, the gate refuses the command, and nothing that was collected before is kept.
\<close>

theorem separator_in_cron_path_aborts:
  assumes "\<forall>n. \<exists>out. remote n CRON_SYSTEM_PATHS = Answer 0 out \<and>
      (\<exists>l\<in>set (splitlines (unify_newlines out)). \<exists>c\<in>set (str_strip l). is_separator c)"
  shows "fst (collect_session remote []) \<noteq> Inr (Collected_state st)"
proof
  assume "fst (collect_session remote []) = Inr (Collected_state st)"
  then obtain p log st' where p: "op_distro_family p \<noteq> Windows_family" and "fst (collect_posix remote p log) = Inr st'"
    using session_collects_posix by blast
  then obtain log' cron where cron: "fst (collect_cron remote (command_set_for p) log') = Inr cron"
    using posix_collects_cron by blast
  then obtain log1 log2 listing sys where listing: "ssh_run remote CRON_SYSTEM_PATHS log1 = (Inr listing, log2)"
    and sys: "fst (collect_system_crons remote (splitlines listing) [] log2) = Inr sys"
    using cron_reads_listing [OF cron] unfolding posix_set_cron [OF command_set_posix [OF p]] by blast
  obtain out where "remote (length log1) CRON_SYSTEM_PATHS = Answer 0 out"
    and out: "\<exists>l\<in>set (splitlines (unify_newlines out)). \<exists>c\<in>set (str_strip l). is_separator c"
    using assms by blast
  then have "listing = unify_newlines out"
    using listing by (auto simp: ssh_run_def split: option.splits)
  with out system_crons_refused sys show False by blast
qed

text \<open>The same guest with a second cron file.\<close>

definition odd_guest :: remote where
  "odd_guest n c = (if c = CRON_SYSTEM_PATHS then Answer 0 (''/etc/cron.d/backup'' @ [CHR 0x0A] @ ''/etc/cron.d/a&b'') else small_guest n c)"

lemma separator_in_cron_path_aborts_witness: "\<nexists>st. fst (collect_session odd_guest []) = Inr (Collected_state st)"
proof
  assume "\<exists>st. fst (collect_session odd_guest []) = Inr (Collected_state st)"
  then obtain st where st: "fst (collect_session odd_guest []) = Inr (Collected_state st)" by blast
  let ?out = "''/etc/cron.d/backup'' @ [CHR 0x0A] @ ''/etc/cron.d/a&b''"
  have "list_ex (\<lambda>l. list_ex is_separator (str_strip l)) (splitlines (unify_newlines ?out))" by code_simp
  then have "\<forall>n. \<exists>out. odd_guest n CRON_SYSTEM_PATHS = Answer 0 out \<and>
      (\<exists>l\<in>set (splitlines (unify_newlines out)). \<exists>c\<in>set (str_strip l). is_separator c)"
    unfolding list_ex_iff odd_guest_def by (intro allI exI [of _ ?out]) simp
  then have "fst (collect_session odd_guest []) \<noteq> Inr (Collected_state st)"
    by (rule separator_in_cron_path_aborts)
  with st show False by contradiction
qed

text \<open>
  The gate is not read-only. It does not treat a line break as the end of a command, so behind
  \<open>uname\<close> and a line break it admits any text without shell characters, such as \<open>rm -rf /\<close>.
\<close>

theorem gate_admits_second_line:
  assumes "plain c"
  shows "assert_read_only (''uname'' @ newline # c) = None"
  using second_line_admitted [OF assms] .

lemma gate_admits_second_line_witness: "assert_read_only (''uname'' @ newline # ''rm -rf /'') = None"
proof -
  have "plain ''rm -rf /''" by code_simp
  then show ?thesis by (rule gate_admits_second_line)
qed

text \<open>Other commands that change the host and are admitted, and close relatives that are refused.\<close>

lemma gate_gaps:
  "assert_read_only ''cat /etc/shadow 1>/etc/cron.d/x'' = None"
  "assert_read_only ''find / -fprint0 /etc/passwd'' = None"
  "assert_read_only ''dnf -y install x'' = None"
  "assert_read_only ''ip link set eth0 down'' = None"
  "assert_read_only ''w32tm /query & del x'' = None"
  "assert_read_only ''powershell -Command rm x; shutdown /r'' = None"
  by (code_simp, code_simp, code_simp, code_simp, code_simp, code_simp)

lemma gate_refuses:
  "assert_read_only ''cat /etc/shadow >/etc/cron.d/x'' = Some Substitution_or_redirection"
  "assert_read_only ''find / -fprint /etc/passwd'' = Some (Mutating_subcommand ''find'')"
  "assert_read_only ''dnf install x'' = Some (Mutating_subcommand ''dnf'')"
  "assert_read_only ''rm x'' = Some (Program_not_allowed ''rm'')"
  by (code_simp, code_simp, code_simp, code_simp)

section \<open>A vCenter that refuses every connection\<close>

definition refusing :: "(string \<Rightarrow> connect_outcome) \<Rightarrow> vm_target \<Rightarrow> bool" where
  "refusing net t \<longleftrightarrow> numeric_host (vt_host t) \<and> net (vt_host t) = Os_error (no_connection (vt_host t))"

definition ssh_engine ::
  "(string \<Rightarrow> connect_outcome) \<Rightarrow> (string \<Rightarrow> remote) \<Rightarrow> (string \<Rightarrow> ssh_outcome) \<Rightarrow> vm_target \<Rightarrow> collection_result option" where
  "ssh_engine net remote windows t = Some (collect (injected_collect net remote windows) t)"

definition still_closed :: "vm_target set \<Rightarrow> batch \<Rightarrow> bool" where
  "still_closed T s \<longleftrightarrow> ba_tripped s = {} \<and> set (ba_waiting s) \<union> set (ba_queued s) \<union> set (ba_collecting s) \<subseteq> T \<and>
     (\<forall>(t, r)\<in>set (ba_results s). cr_failure_category r = Some Command_failed)"

lemma command_failure_keeps_closed:
  assumes "still_closed T s" and "cr_failure_category r = Some Command_failed"
  shows "still_closed T (record_result c t r s)"
proof -
  have "\<not> is_connection_failure r" using assms(2) by (simp add: is_connection_failure_def CONNECTION_FAILURES_def)
  then have "ba_tripped (record_result c t r s) = ba_tripped s"
    by (simp add: record_result_def Let_def split: option.split)
  with assms show ?thesis by (auto simp: still_closed_def)
qed

lemma refused_keeps_closed:
  "batch_step c (ssh_engine net remote windows) s s' \<Longrightarrow> still_closed {t. refusing net t} s \<Longrightarrow>
     still_closed {t. refusing net t} s'"
proof (induction rule: batch_step.induct)
  case (complete t s)
  then have "refusing net t" by (auto simp: still_closed_def)
  then have "cr_failure_category (collect_one (ssh_engine net remote windows) t) = Some Command_failed"
    by (simp add: collect_one_def ssh_engine_def refusing_def refused_connection_result)
  moreover have "still_closed {t. refusing net t} (s\<lparr>ba_collecting := remove1 t (ba_collecting s)\<rparr>)"
    using complete.prems set_remove1_subset [of t "ba_collecting s"] by (auto simp: still_closed_def)
  ultimately show ?case by (intro command_failure_keeps_closed)
next
  case (admit t s)
  then show ?case using set_remove1_subset [of t "ba_waiting s"] by (auto simp: still_closed_def)
next
  case (connect t s)
  then show ?case using set_remove1_subset [of t "ba_queued s"] by (auto simp: still_closed_def)
next
  case (skip t s)
  then show ?case by (simp add: still_closed_def breaker_open_def split: option.splits)
qed

lemma refused_stays_closed:
  "batch_steps c (ssh_engine net remote windows) s s' \<Longrightarrow> still_closed {t. refusing net t} s \<Longrightarrow>
     still_closed {t. refusing net t} s'"
  by (induction rule: batch_steps.induct) (simp_all add: refused_keeps_closed)

text \<open>
  A vCenter whose machines all refuse the connection never opens the circuit breaker. The exception
  of the transport carries none of the words the engine looks for, so each failure counts as a failed
  command and not as a failed connection, and every machine is tried.
\<close>

theorem refused_connections_keep_breaker_closed:
  assumes "list_all (refusing net) ts" and "batch_steps c (ssh_engine net remote windows) (batch_start ts) s"
  shows "ba_tripped s = {} \<and> (\<forall>(t, r)\<in>set (ba_results s). cr_failure_category r = Some Command_failed)"
proof -
  have "still_closed {t. refusing net t} (batch_start ts)"
    using assms(1) by (auto simp: still_closed_def batch_start_def list_all_iff)
  then have "still_closed {t. refusing net t} s" by (rule refused_stays_closed [OF assms(2)])
  then show ?thesis by (simp add: still_closed_def)
qed

definition host_at :: "int \<Rightarrow> vm_target" where
  "host_at i = \<lparr>vt_vm_id = i, vt_host = ''10.0.0.5'', vt_port = 22, vt_username = ''u'', vt_vcenter_id = Some 1\<rparr>"

definition refuse_all :: "string \<Rightarrow> connect_outcome" where
  "refuse_all host = Os_error (no_connection host)"

text \<open>A threshold of one, and a machine that was tried.\<close>

lemma refused_connections_keep_breaker_closed_witness:
  "\<exists>s. batch_steps small_batch (ssh_engine refuse_all (\<lambda>_. small_guest) (\<lambda>_. Other_exception)) (batch_start [host_at 1, host_at 2]) s \<and>
     length (ba_results s) = 1 \<and> ba_tripped s = {}"
proof -
  let ?e = "ssh_engine refuse_all (\<lambda>_. small_guest) (\<lambda>_. Other_exception)"
  let ?s0 = "batch_start [host_at 1, host_at 2]"
  let ?s1 = "?s0\<lparr>ba_waiting := remove1 (host_at 1) (ba_waiting ?s0), ba_queued := ba_queued ?s0 @ [host_at 1]\<rparr>"
  let ?s2 = "?s1\<lparr>ba_queued := remove1 (host_at 1) (ba_queued ?s1), ba_collecting := ba_collecting ?s1 @ [host_at 1]\<rparr>"
  let ?s3 = "record_result small_batch (host_at 1) (collect_one ?e (host_at 1)) (?s2\<lparr>ba_collecting := remove1 (host_at 1) (ba_collecting ?s2)\<rparr>)"
  have "batch_step small_batch ?e ?s0 ?s1"
    by (rule batch_step.admit) (simp_all add: batch_start_def in_flight_def semaphore_size_def small_batch_def breaker_open_def host_at_def)
  moreover have "batch_step small_batch ?e ?s1 ?s2"
    by (rule batch_step.connect) (simp_all add: batch_start_def vc_free_def vc_load_def host_at_def per_vc_size_def small_batch_def)
  moreover have "batch_step small_batch ?e ?s2 ?s3" by (rule batch_step.complete) simp
  ultimately have steps: "batch_steps small_batch ?e ?s0 ?s3" by (meson batch_steps.intros)
  have "numeric_host ''10.0.0.5''" by code_simp
  then have "list_all (refusing refuse_all) [host_at 1, host_at 2]"
    by (simp add: refusing_def refuse_all_def host_at_def)
  from refused_connections_keep_breaker_closed [OF this steps] steps
  show ?thesis by (intro exI [of _ ?s3]) (simp add: batch_start_def)
qed

text \<open>
  With strict checking, a host that is not in \<open>known_hosts\<close> is told apart by the collector of \<open>ssh.py\<close>, but
  not by the collector of the engine: its failure counts as a failed command.
\<close>

lemma unknown_host_key_categories:
  defines "msg \<equiv> ''Server 10.0.0.5 not found in known_hosts''"
  shows "map_sum se_kind id (connect \<lparr>su_key_error = None, su_key_rejected = None\<rparr> ''10.0.0.5'' (Ssh_exception msg)) =
      Inl ''host_key_unknown''"
    and "cr_failure_category (collect (injected_collect (\<lambda>_. Ssh_exception msg) (\<lambda>_. small_guest) (\<lambda>_. Other_exception)) (host_at 1)) =
      Some Command_failed"
  unfolding msg_def by (code_simp, code_simp)

end
