(* ===== verification/Platform_Features.thy ===== *)
theory Platform_Features
  imports Prelude
begin

text \<open>
  What each OpenShift and MTV release supports (\<open>app/core/platform_features.py\<close>): the pairing of the
  releases and the support level of every feature. Titles, summaries and source links are left out.
\<close>

type_synonym release = "nat \<times> nat"

datatype product = OCP | MTV

datatype support = GA | TP | DP

record feature =
  ft_key :: string
  ft_product :: product
  ft_since :: release
  ft_status :: support
  ft_status_by_version :: "(release \<times> support) list"

definition mk_feature :: "string \<Rightarrow> product \<Rightarrow> release \<Rightarrow> support \<Rightarrow> (release \<times> support) list \<Rightarrow> feature" where
  "mk_feature key product since status by_version =
     \<lparr>ft_key = key, ft_product = product, ft_since = since, ft_status = status, ft_status_by_version = by_version\<rparr>"

definition OCP_TO_MTV :: "(release \<times> release) list" where
  "OCP_TO_MTV = [((4, 18), (2, 8)), ((4, 19), (2, 9)), ((4, 20), (2, 10)), ((4, 21), (2, 11)), ((4, 22), (2, 12))]"

definition LATEST_OCP :: release where "LATEST_OCP = Max (set (map fst OCP_TO_MTV))"

lemma LATEST_OCP_code [code]: "LATEST_OCP = (4, 22)"
  by (simp add: LATEST_OCP_def OCP_TO_MTV_def)

definition FEATURES :: "feature list" where
  "FEATURES =
    [mk_feature ''primary_udn_layer2'' OCP (4, 18) GA [],
     mk_feature ''udn_import_preserve_ip_mac'' OCP (4, 21) GA [],
     mk_feature ''mtv_udn_destination'' OCP (4, 20) TP [],
     mk_feature ''localnet_cudn'' OCP (4, 18) GA [],
     mk_feature ''passt_binding'' OCP (4, 18) TP [],
     mk_feature ''bgp_evpn_primary_cudn'' OCP (4, 22) TP [],
     mk_feature ''ipv6_single_stack_vms'' OCP (4, 22) GA [],
     mk_feature ''live_nad_swap'' OCP (4, 22) GA [],
     mk_feature ''storage_live_migration'' OCP (4, 21) GA [],
     mk_feature ''copy_offload_cold'' MTV (2, 10) TP [((2, 11), GA), ((2, 12), GA)],
     mk_feature ''copy_offload_warm'' MTV (2, 10) DP [((2, 11), TP), ((2, 12), GA)],
     mk_feature ''multi_nic_same_network'' MTV (2, 12) GA [],
     mk_feature ''cross_cluster_live_migration'' OCP (4, 21) TP []]"

text \<open>\<open>re.search(r"(\d+)\.(\d+)", raw)\<close>: inside a run of digits no later start can match either.\<close>

fun search_version :: "string \<Rightarrow> release option" where
  "search_version [] = None"
| "search_version (c # t) =
     (let major = takeWhile is_digit (c # t); rest = dropWhile is_digit (c # t); minor = takeWhile is_digit (drop 1 rest)
      in if major \<noteq> [] \<and> starts_with ''.'' rest \<and> minor \<noteq> [] then Some (read_nat major, read_nat minor)
         else search_version t)"

definition parse_version :: "string option \<Rightarrow> release option" where
  "parse_version raw = (if truthy raw then search_version (or_empty raw) else None)"

definition mtv_for :: "string option \<Rightarrow> release option" where
  "mtv_for ocp_version =
     (case parse_version ocp_version of
        None \<Rightarrow> None
      | Some v \<Rightarrow> (case dict_get OCP_TO_MTV v of
            Some m \<Rightarrow> Some m
          | None \<Rightarrow> if LATEST_OCP < v then dict_get OCP_TO_MTV LATEST_OCP else None))"

definition effective_versions :: "string option \<Rightarrow> string option \<Rightarrow> release option \<times> release option" where
  "effective_versions ocp_version mtv_version =
     (parse_version ocp_version,
      (case parse_version mtv_version of Some m \<Rightarrow> Some m | None \<Rightarrow> mtv_for ocp_version))"

definition newest :: "product \<Rightarrow> release" where
  "newest p = (case p of OCP \<Rightarrow> LATEST_OCP | MTV \<Rightarrow> dict_get_or OCP_TO_MTV LATEST_OCP (0, 0))"

text \<open>The level of a feature on a target, \<open>None\<close> where the release predates it.\<close>

definition status_of :: "feature \<Rightarrow> release option \<Rightarrow> release option \<Rightarrow> support option" where
  "status_of f ocp mtv =
     (let version = (case (case ft_product f of OCP \<Rightarrow> ocp | MTV \<Rightarrow> mtv) of Some v \<Rightarrow> v | None \<Rightarrow> newest (ft_product f))
      in if version < ft_since f then None else Some (dict_get_or (ft_status_by_version f) version (ft_status f)))"

definition feature_status :: "string \<Rightarrow> release option \<Rightarrow> release option \<Rightarrow> support option" where
  "feature_status key ocp mtv =
     Option.bind (List.find (\<lambda>f. ft_key f = key) FEATURES) (\<lambda>f. status_of f ocp mtv)"

text \<open>Every feature with its level.\<close>

definition features_for :: "string option \<Rightarrow> string option \<Rightarrow> (string \<times> support option) list" where
  "features_for ocp_version mtv_version =
     (case effective_versions ocp_version mtv_version of
        (ocp, mtv) \<Rightarrow> map (\<lambda>f. (ft_key f, feature_status (ft_key f) ocp mtv)) FEATURES)"

section \<open>Facts\<close>

lemma feature_keys_distinct: "distinct (map ft_key FEATURES)"
  by code_simp

text \<open>How good a level is; a feature a release lacks is worst.\<close>

definition support_rank :: "support option \<Rightarrow> nat" where
  "support_rank s = (case s of None \<Rightarrow> 0 | Some DP \<Rightarrow> 1 | Some TP \<Rightarrow> 2 | Some GA \<Rightarrow> 3)"

text \<open>Among the releases of the table a later pair never supports less.\<close>

definition releases_improve :: "(release \<times> release) list \<Rightarrow> bool" where
  "releases_improve ps = list_all (\<lambda>f. list_all (\<lambda>(o1, m1). list_all (\<lambda>(o2, m2).
     o1 \<le> o2 \<longrightarrow> support_rank (status_of f (Some o1) (Some m1)) \<le> support_rank (status_of f (Some o2) (Some m2))) ps) ps) FEATURES"

lemma known_releases_improve: "releases_improve OCP_TO_MTV"
  by code_simp

text \<open>
  Behind the table support is lost: the levels of single releases are not carried on, so with MTV 2.13
  warm copy offload is a developer preview again. An OpenShift release before the table has no paired
  MTV release, and an unknown MTV release is taken for the newest.
\<close>

lemma support_regresses:
  "feature_status ''copy_offload_warm'' (Some (4, 22)) (Some (2, 12)) = Some GA"
  "feature_status ''copy_offload_warm'' (Some (4, 23)) (Some (2, 13)) = Some DP"
  "feature_status ''copy_offload_cold'' (Some (4, 23)) (Some (2, 13)) = Some TP"
  by (code_simp, code_simp, code_simp)

lemma old_release_taken_for_newest:
  "effective_versions (Some ''4.17.3'') None = (Some (4, 17), None)"
  "feature_status ''copy_offload_warm'' (Some (4, 17)) None = Some GA"
  "effective_versions (Some ''4.18'') None = (Some (4, 18), Some (2, 8))"
  "feature_status ''copy_offload_warm'' (Some (4, 18)) (Some (2, 8)) = None"
  by (code_simp, code_simp, code_simp, code_simp)

end
