(* ===== verification/Mapping_Checks.thy ===== *)
theory Mapping_Checks
  imports Mapping_Resolver Platform_Features "HOL-Library.Word"
begin

text \<open>
  The platform checks of a resource mapping (\<open>app/core/mapping_checks.py\<close>): what a mapping points to is
  judged against the catalog of the cluster and the support table. Messages are left out. Addresses
  are 32-bit words: IPv4 only, any other text is unparseable.
\<close>

unbundle bit_operations_syntax

section \<open>IPv4 addresses\<close>

text \<open>\<open>ip_address\<close>: four decimal octets without leading zeros.\<close>

definition parse_octet :: "string \<Rightarrow> nat option" where
  "parse_octet s =
     (if str_isdigit s \<and> length s \<le> 3 \<and> (length s = 1 \<or> hd s \<noteq> CHR ''0'') \<and> read_nat s \<le> 255
      then Some (read_nat s) else None)"

definition ip_address :: "string \<Rightarrow> 32 word option" where
  "ip_address s =
     (case map parse_octet (split_on (\<lambda>c. c = CHR ''.'') s) of
        [Some a, Some b, Some c, Some d] \<Rightarrow> Some (((of_nat a * 256 + of_nat b) * 256 + of_nat c) * 256 + of_nat d)
      | _ \<Rightarrow> None)"

text \<open>A network: its address and its mask.\<close>

definition netmask :: "nat \<Rightarrow> 32 word" where
  "netmask p = NOT (mask (32 - p))"

text \<open>
  The mask behind the slash: a prefix length, a mask, or an inverted mask, in this order.
\<close>

definition mask_of_int :: "32 word \<Rightarrow> 32 word option" where
  "mask_of_int w =
     (if list_ex (\<lambda>p. netmask p = w) [0..<33] then Some w
      else if list_ex (\<lambda>p. netmask p = NOT w) [0..<33] then Some (NOT w) else None)"

definition parse_mask :: "string \<Rightarrow> 32 word option" where
  "parse_mask s =
     (if str_isdigit s \<and> read_nat s \<le> 32 then Some (netmask (read_nat s))
      else Option.bind (ip_address s) mask_of_int)"

text \<open>\<open>ip_network(c, strict=False)\<close>: host bits are dropped.\<close>

definition ip_network :: "string \<Rightarrow> (32 word \<times> 32 word) option" where
  "ip_network s =
     (case split_on (\<lambda>c. c = CHR ''/'') s of
        [a] \<Rightarrow> map_option (\<lambda>w. (w, netmask 32)) (ip_address a)
      | [a, m] \<Rightarrow> (case (ip_address a, parse_mask m) of
            (Some w, Some k) \<Rightarrow> Some (w AND k, k) | _ \<Rightarrow> None)
      | _ \<Rightarrow> None)"

definition in_network :: "32 word \<Rightarrow> 32 word \<times> 32 word \<Rightarrow> bool" where
  "in_network w n \<longleftrightarrow> w AND snd n = fst n"

definition in_any :: "string \<Rightarrow> string list \<Rightarrow> bool option" where
  "in_any ip cidrs =
     (case ip_address ip of
        None \<Rightarrow> None
      | Some addr \<Rightarrow> (let parsed = List.map_filter ip_network cidrs
          in if parsed = [] then None else Some (list_ex (in_network addr) parsed)))"

section \<open>The catalog and the machines as the checks see them\<close>

record network_facts = network_attrs +
  nf_ipam_mode :: "string option"
  nf_binding :: "string option"
  nf_transport :: "string option"
  nf_subnets :: "string list"
  nf_physical_network_name :: "string option"

record platform_catalog =
  pc_ocp_version :: "string option"
  pc_mtv_version :: "string option"
  pc_localnet_bridge_mappings :: "string list option"
  pc_networks :: "(string \<times> network_facts) list"
  pc_storage_classes :: "(string \<times> storage_attrs) list"
  pc_namespaces :: "(string \<times> string option) list"

definition empty_catalog :: platform_catalog where
  "empty_catalog = \<lparr>pc_ocp_version = None, pc_mtv_version = None, pc_localnet_bridge_mappings = None,
     pc_networks = [], pc_storage_classes = [], pc_namespaces = []\<rparr>"

record vm_view =
  vw_name :: string
  vw_vsphere_networks :: "string list"
  vw_vsphere_datastores :: "string list"
  vw_nic_ips :: "(string \<times> string) list"
  vw_target_namespace :: "string option"

record nic_facts =
  nic_network :: "string option"
  nic_ipv4 :: "string option"

text \<open>The addresses of one interface: separated by commas or semicolons.\<close>

definition nic_pairs :: "nic_facts \<Rightarrow> (string \<times> string) list" where
  "nic_pairs nic =
     (if \<not> truthy (nic_network nic) then []
      else map (\<lambda>ip. (or_empty (nic_network nic), ip))
        (filter (\<lambda>ip. ip \<noteq> []) (map str_strip (split_on (\<lambda>c. c = CHR '','' \<or> c = CHR '';'') (or_empty (nic_ipv4 nic))))))"

text \<open>The interfaces are those of the hardware facts.\<close>

definition vm_view_of :: "nic_facts list \<Rightarrow> vm \<Rightarrow> string option \<Rightarrow> vm_view" where
  "vm_view_of nics v namespace =
     (let ips = concat (map nic_pairs nics)
      in \<lparr>vw_name = vm_name v, vw_vsphere_networks = vm_vsphere_networks v, vw_vsphere_datastores = vm_vsphere_datastores v,
          vw_nic_ips = (if ips = [] \<and> truthy (vm_ip_address v) \<and> length (vm_vsphere_networks v) = 1
             then [(hd (vm_vsphere_networks v), or_empty (vm_ip_address v))] else ips),
          vw_target_namespace = namespace\<rparr>)"

section \<open>Collecting findings\<close>

datatype severity = Blocking | Warning | Info

fun severity_rank :: "severity \<Rightarrow> nat" where
  "severity_rank Blocking = 0"
| "severity_rank Warning = 1"
| "severity_rank Info = 2"

record mapping_finding =
  mf_code :: string
  mf_severity :: severity
  mf_source :: "string option"
  mf_target :: "string option"
  mf_vm_names :: "string list"

text \<open>One call of \<open>add\<close>.\<close>

record report =
  re_code :: string
  re_severity :: severity
  re_source :: "string option"
  re_target :: "string option"
  re_vm :: "string option"

definition report_of :: "string \<Rightarrow> severity \<Rightarrow> string option \<Rightarrow> string option \<Rightarrow> string option \<Rightarrow> report" where
  "report_of code sev src tgt v = \<lparr>re_code = code, re_severity = sev, re_source = src, re_target = tgt, re_vm = v\<rparr>"

definition note_vm :: "string option \<Rightarrow> mapping_finding \<Rightarrow> mapping_finding" where
  "note_vm v f =
     (if truthy v \<and> or_empty v \<notin> set (mf_vm_names f) then f\<lparr>mf_vm_names := mf_vm_names f @ [or_empty v]\<rparr> else f)"

type_synonym finding_key = "string \<times> string option \<times> string option"

definition report_key :: "report \<Rightarrow> finding_key" where
  "report_key r = (re_code r, re_source r, re_target r)"

definition add_report :: "report \<Rightarrow> (finding_key \<times> mapping_finding) list \<Rightarrow> (finding_key \<times> mapping_finding) list" where
  "add_report r d =
     (let f = (case dict_get d (report_key r) of
            Some f \<Rightarrow> f
          | None \<Rightarrow> \<lparr>mf_code = re_code r, mf_severity = re_severity r, mf_source = re_source r,
                      mf_target = re_target r, mf_vm_names = []\<rparr>)
      in dict_set (report_key r) (note_vm (re_vm r) f) d)"

definition finding_order :: "mapping_finding \<Rightarrow> nat \<times> string \<times> string" where
  "finding_order f = (severity_rank (mf_severity f), mf_code f, or_empty (mf_source f))"

definition collected_findings :: "report list \<Rightarrow> mapping_finding list" where
  "collected_findings rs = sort_key finding_order (map snd (fold add_report rs []))"

section \<open>The checks\<close>

definition UDN_BATCH_WARN_THRESHOLD :: nat where "UDN_BATCH_WARN_THRESHOLD = 72"

definition COPY_OFFLOAD_DP_VENDORS :: "string list" where
  "COPY_OFFLOAD_DP_VENDORS = [''infinibox'', ''primera3par'']"

text \<open>The rows by source; of two rows of a source the last decides.\<close>

definition net_rows :: "network_row list \<Rightarrow> (string option \<times> network_row) list" where
  "net_rows rows = dict_of nr_source_network id rows"

definition sc_rows :: "storage_row list \<Rightarrow> (string option \<times> storage_row) list" where
  "sc_rows rows = dict_of sr_source_datastore id rows"

definition used_networks :: "network_row list \<Rightarrow> (string \<times> string list) list" where
  "used_networks rows = fold (\<lambda>(src, row) d.
     if \<not> truthy src \<or> nr_ignored row \<or> \<not> truthy (nr_target_network_name row) then d
     else dict_append (or_empty (nr_target_network_name row)) (or_empty src) d) (net_rows rows) []"

definition used_storage :: "storage_row list \<Rightarrow> (string \<times> string list) list" where
  "used_storage rows = fold (\<lambda>(src, row) d.
     if truthy src \<and> truthy (sr_target_storage_class row)
     then dict_append (or_empty (sr_target_storage_class row)) (or_empty src) d else d) (sc_rows rows) []"

definition source_label :: "string list \<Rightarrow> string option" where
  "source_label sources = Some (join_with '', '' (sort sources))"

definition platform_network :: "platform_catalog \<Rightarrow> string option \<Rightarrow> network_facts option" where
  "platform_network cat name = (if truthy name then dict_get (pc_networks cat) (or_empty name) else None)"

definition kind_of :: "network_facts option \<Rightarrow> string option \<Rightarrow> string" where
  "kind_of net row_type = destination_kind (map_option network_attrs.truncate net) row_type"

text \<open>A report when the condition holds.\<close>

definition report_if :: "bool \<Rightarrow> report \<Rightarrow> report list" where
  "report_if b r = (if b then [r] else [])"

text \<open>The levels of the features on this target.\<close>

type_synonym levels = "string \<Rightarrow> support option"

definition below_ga :: "support option \<Rightarrow> bool" where
  "below_ga s \<longleftrightarrow> s \<noteq> None \<and> s \<noteq> Some GA"

definition primary_reports :: "levels \<Rightarrow> string option \<Rightarrow> string \<Rightarrow> string list \<Rightarrow> network_facts \<Rightarrow> report list" where
  "primary_reports status provider_address name sources net =
     (let label = source_label sources; evpn = status ''bgp_evpn_primary_cudn'' in
      report_if (na_topology net \<notin> {None, Some ''layer2''}) (report_of ''udn.primary_not_layer2'' Blocking label (Some name) None) @
      report_if (nf_ipam_mode net \<notin> {None, Some ''persistent''}) (report_of ''udn.ipam_not_persistent'' Blocking label (Some name) None) @
      report_if (nf_binding net = Some ''passt'' \<and> status ''passt_binding'' \<noteq> Some GA)
        (report_of ''udn.passt_tech_preview'' Warning None (Some name) None) @
      report_if (nf_transport net = Some ''evpn'' \<and> evpn = None) (report_of ''udn.evpn_unavailable'' Blocking None (Some name) None) @
      report_if (nf_transport net = Some ''evpn'' \<and> below_ga evpn) (report_of ''udn.evpn_support_level'' Warning None (Some name) None) @
      report_if (truthy provider_address \<and> nf_subnets net \<noteq> [] \<and> in_any (or_empty provider_address) (nf_subnets net) = Some True)
        (report_of ''udn.provider_ip_inside_subnet'' Blocking label (Some name) None) @
      report_if (below_ga (status ''mtv_udn_destination'')) (report_of ''udn.mtv_destination_support'' Warning None (Some name) None))"

definition localnet_reports :: "platform_catalog \<Rightarrow> string \<Rightarrow> string list \<Rightarrow> network_facts \<Rightarrow> report list" where
  "localnet_reports cat name sources net =
     (let label = source_label sources in
      report_if (nf_ipam_mode net \<notin> {None, Some ''disabled'', Some ''none''})
        (report_of ''localnet.ipam_enabled'' Blocking label (Some name) None) @
      (if \<not> truthy (nf_physical_network_name net)
       then [report_of ''localnet.no_physical_network'' Warning None (Some name) None]
       else report_if (case pc_localnet_bridge_mappings cat of None \<Rightarrow> False
               | Some ms \<Rightarrow> or_empty (nf_physical_network_name net) \<notin> set ms)
            (report_of ''localnet.bridge_mapping_missing'' Blocking label (Some name) None)))"

definition network_reports :: "platform_catalog \<Rightarrow> levels \<Rightarrow> string option \<Rightarrow> string \<times> string list \<Rightarrow> report list" where
  "network_reports cat status provider_address entry =
     (case entry of (name, sources) \<Rightarrow>
        (case platform_network cat (Some name) of
           None \<Rightarrow> []
         | Some net \<Rightarrow>
             (if kind_of (Some net) None = ''primary_udn'' then primary_reports status provider_address name sources net
              else if kind_of (Some net) None = ''localnet'' then localnet_reports cat name sources net
              else [])))"

text \<open>One machine on one of its source networks.\<close>

definition vm_network_reports ::
  "platform_catalog \<Rightarrow> network_row list \<Rightarrow> bool \<Rightarrow> vm_view \<Rightarrow> string \<Rightarrow> report list" where
  "vm_network_reports cat rows preserve_static_ips v src =
     (case dict_get (net_rows rows) (Some src) of
        None \<Rightarrow> []
      | Some row \<Rightarrow>
          (let net = platform_network cat (nr_target_network_name row);
               name = or_empty (nr_target_network_name row);
               subnets = (case net of None \<Rightarrow> [] | Some n \<Rightarrow> nf_subnets n);
               ns = vw_target_namespace v
           in if nr_ignored row \<or> \<not> truthy (nr_target_network_name row) \<or>
                 kind_of net (nr_target_network_type row) \<noteq> ''primary_udn'' then []
              else report_if (truthy ns \<and> dict_has (pc_namespaces cat) (or_empty ns) \<and>
                     Option.bind (dict_get (pc_namespaces cat) (or_empty ns)) id \<noteq> Some name)
                   (report_of ''udn.namespace_not_primary'' Blocking (Some src) (Some name) (Some (vw_name v))) @
                 (if preserve_static_ips \<and> subnets \<noteq> []
                  then concat (map (\<lambda>(nic_net, ip). report_if (nic_net = src \<and> in_any ip subnets = Some False)
                     (report_of ''udn.static_ip_outside_subnet'' Blocking (Some src) (Some name) (Some (vw_name v)))) (vw_nic_ips v))
                  else [])))"

definition vm_reports :: "platform_catalog \<Rightarrow> network_row list \<Rightarrow> bool \<Rightarrow> vm_view \<Rightarrow> report list" where
  "vm_reports cat rows preserve_static_ips v =
     concat (map (vm_network_reports cat rows preserve_static_ips v) (vw_vsphere_networks v))"

definition offload_reports ::
  "levels \<Rightarrow> string \<Rightarrow> (string \<times> string) list \<Rightarrow> string \<Rightarrow> string list \<Rightarrow> storage_attrs \<Rightarrow> report list" where
  "offload_reports status migration_type datastore_types name sources sc =
     (let vendor = or_empty (sa_copy_offload_vendor sc);
          st = status (if migration_type = ''warm'' then ''copy_offload_warm'' else ''copy_offload_cold'') in
      if vendor = [] then []
      else report_if (\<not> truthy (sa_copy_offload_secret sc)) (report_of ''offload.no_secret'' Warning None (Some name) None) @
        report_if (vendor \<in> set COPY_OFFLOAD_DP_VENDORS) (report_of ''offload.vendor_developer_preview'' Warning None (Some name) None) @
        report_if (st = None) (report_of ''offload.unavailable'' Blocking None (Some name) None) @
        report_if (below_ga st) (report_of ''offload.support_level'' Warning None (Some name) None) @
        concat (map (\<lambda>src. report_if (str_upper (dict_get_or datastore_types src []) = ''NFS'')
          (report_of ''offload.nfs_datastore'' Warning (Some src) (Some name) None)) sources))"

definition storage_reports ::
  "platform_catalog \<Rightarrow> levels \<Rightarrow> storage_row list \<Rightarrow> string \<Rightarrow> (string \<times> string) list \<Rightarrow> string \<times> string list \<Rightarrow> report list" where
  "storage_reports cat status rows migration_type datastore_types entry =
     (case entry of (name, sources) \<Rightarrow>
        (let sc = dict_get (pc_storage_classes cat) name;
             modes = map (\<lambda>src. or_else (Option.bind (dict_get (sc_rows rows) (Some src)) sr_access_mode)
                        (Option.bind sc sa_access_mode)) sources
         in report_if (Some ''ReadWriteOnce'' \<in> set modes)
              (report_of ''storage.rwo_no_live_migration'' Warning (source_label sources) (Some name) None) @
            (case sc of None \<Rightarrow> [] | Some sc \<Rightarrow> offload_reports status migration_type datastore_types name sources sc)))"

definition udn_count :: "platform_catalog \<Rightarrow> nat" where
  "udn_count cat = length (filter (\<lambda>(name, n). na_network_type n \<in> {Some ''udn'', Some ''cudn''}) (pc_networks cat))"

record mapping_check =
  mc_network_mappings :: "network_row list"
  mc_storage_mappings :: "storage_row list"
  mc_catalog :: "platform_catalog option"
  mc_vms :: "vm_view list"
  mc_migration_type :: string
  mc_preserve_static_ips :: bool
  mc_datastore_types :: "(string \<times> string) list"
  mc_provider_address :: "string option"

definition mapping_reports :: "mapping_check \<Rightarrow> report list" where
  "mapping_reports mc =
     (let cat = (case mc_catalog mc of None \<Rightarrow> empty_catalog | Some cat \<Rightarrow> cat);
          versions = effective_versions (pc_ocp_version cat) (pc_mtv_version cat);
          status = (\<lambda>key. feature_status key (fst versions) (snd versions)) in
      report_if (\<not> truthy (pc_ocp_version cat)) (report_of ''target.version_unknown'' Info None None None) @
      concat (map (network_reports cat status (mc_provider_address mc)) (used_networks (mc_network_mappings mc))) @
      concat (map (vm_reports cat (mc_network_mappings mc) (mc_preserve_static_ips mc)) (mc_vms mc)) @
      concat (map (storage_reports cat status (mc_storage_mappings mc) (mc_migration_type mc) (mc_datastore_types mc))
        (used_storage (mc_storage_mappings mc))) @
      report_if (UDN_BATCH_WARN_THRESHOLD < udn_count cat) (report_of ''udn.many_networks'' Info None None None))"

definition check_mapping :: "mapping_check \<Rightarrow> mapping_finding list" where
  "check_mapping mc = collected_findings (mapping_reports mc)"

section \<open>The view of one wave\<close>

definition snapshot_of :: "platform_catalog \<Rightarrow> catalog_snapshot" where
  "snapshot_of cat = \<lparr>cs_ocp_target_id = None, cs_networks = map (\<lambda>(n, f). (n, network_attrs.truncate f)) (pc_networks cat),
     cs_storage_classes = pc_storage_classes cat\<rparr>"

record network_use =
  nu_source :: string
  nu_kind :: string
  nu_target :: "string option"
  nu_vm_count :: nat

record storage_use =
  su_source :: string
  su_storage_class :: "string option"
  su_access_mode :: "string option"
  su_volume_mode :: "string option"
  su_offload :: "string option"
  su_vm_count :: nat

definition new_network_use :: "mapping_resolver \<Rightarrow> string \<Rightarrow> network_use" where
  "new_network_use r src =
     (let mapped = resolve_network r src
      in \<lparr>nu_source = src, nu_kind = (case mapped of None \<Rightarrow> ''unmapped'' | Some m \<Rightarrow> if mn_kind m = [] then ''unmapped'' else mn_kind m),
          nu_target = (case mapped of None \<Rightarrow> None | Some m \<Rightarrow> if mn_name m = [] then None else Some (mn_name m)),
          nu_vm_count = 0\<rparr>)"

definition use_network :: "mapping_resolver \<Rightarrow> string \<Rightarrow> (string \<times> network_use) list \<Rightarrow> (string \<times> network_use) list" where
  "use_network r src nets =
     (if src = [] then nets
      else (let row = dict_get_or nets src (new_network_use r src)
            in dict_set src (row\<lparr>nu_vm_count := nu_vm_count row + 1\<rparr>) nets))"

definition new_storage_use :: "mapping_resolver \<Rightarrow> string \<Rightarrow> storage_use" where
  "new_storage_use r src =
     \<lparr>su_source = src, su_storage_class = resolve_storage r src, su_access_mode = resolve_access_mode r src,
      su_volume_mode = resolve_volume_mode r src, su_offload = map_option oc_vendor_product (resolve_offload r src), su_vm_count = 0\<rparr>"

definition use_storage :: "mapping_resolver \<Rightarrow> string \<Rightarrow> (string \<times> storage_use) list \<Rightarrow> (string \<times> storage_use) list" where
  "use_storage r src stores =
     (if src = [] then stores
      else (let row = dict_get_or stores src (new_storage_use r src)
            in dict_set src (row\<lparr>su_vm_count := su_vm_count row + 1\<rparr>) stores))"

text \<open>The three fields the namespace of a machine is resolved by.\<close>

definition wave_payload :: "vm \<Rightarrow> vm_payload" where
  "wave_payload v = \<lparr>vp_name = [], vp_moref = [], vp_vsphere_networks = [], vp_vsphere_datastores = [],
     vp_environment = or_empty (vm_environment v), vp_application_hint = or_empty (vm_application_hint v),
     vp_target_namespace = [], vp_vcenter_folder = or_empty (vm_vsphere_folder v),
     vp_target_storage_class = [], vp_target_network_attachment = []\<rparr>"

definition wave_namespace :: "mapping_resolver \<Rightarrow> vm \<Rightarrow> string option" where
  "wave_namespace r v = or_else (vm_target_namespace_override v) (resolve_namespace r (wave_payload v))"

record wave_view =
  wv_networks :: "network_use list"
  wv_storage :: "storage_use list"
  wv_findings :: "mapping_finding list"

definition wave_networks :: "mapping_resolver \<Rightarrow> vm list \<Rightarrow> (string \<times> network_use) list" where
  "wave_networks r vms = fold (use_network r) (concat (map vm_vsphere_networks vms)) []"

definition wave_storage :: "mapping_resolver \<Rightarrow> vm list \<Rightarrow> (string \<times> storage_use) list" where
  "wave_storage r vms = fold (use_storage r) (concat (map vm_vsphere_datastores vms)) []"

text \<open>
  The resolver reads the same catalog as the checks; only the rows whose source the wave uses are
  judged, and the note on an unknown version is left to the preflight.
\<close>

definition wave_mapping_view ::
  "network_row list \<Rightarrow> storage_row list \<Rightarrow> namespace_mappings \<Rightarrow> platform_catalog option \<Rightarrow> (vm \<times> nic_facts list) list \<Rightarrow>
     string \<Rightarrow> wave_view" where
  "wave_mapping_view nrows srows nm cat vms migration_type =
     (let r = \<lparr>mr_network_mappings = nrows, mr_storage_mappings = srows, mr_namespace_mappings = nm,
               mr_catalog = map_option snapshot_of cat\<rparr>;
          nets = wave_networks r (map fst vms); stores = wave_storage r (map fst vms);
          findings = check_mapping \<lparr>mc_network_mappings = filter (\<lambda>e. truthy (nr_source_network e) \<and> dict_has nets (or_empty (nr_source_network e))) nrows,
            mc_storage_mappings = filter (\<lambda>e. truthy (sr_source_datastore e) \<and> dict_has stores (or_empty (sr_source_datastore e))) srows,
            mc_catalog = cat, mc_vms = map (\<lambda>(v, nics). vm_view_of nics v (wave_namespace r v)) vms,
            mc_migration_type = migration_type, mc_preserve_static_ips = True, mc_datastore_types = [], mc_provider_address = None\<rparr>
      in \<lparr>wv_networks = sort_key nu_source (map snd nets), wv_storage = sort_key su_source (map snd stores),
          wv_findings = filter (\<lambda>f. mf_code f \<noteq> ''target.version_unknown'') findings\<rparr>)"

end
