(* ===== verification/Mapping_Checks_Properties.thy ===== *)
theory Mapping_Checks_Properties
  imports Mapping_Checks
begin

text \<open>
  What the platform checks report: one finding per code, source and target with the machines
  concerned, worst first; and a mapping without blocking findings keeps every static address inside
  a subnet of its network.
\<close>

section \<open>Collecting\<close>

definition finding_matches :: "report list \<Rightarrow> finding_key \<Rightarrow> mapping_finding \<Rightarrow> bool" where
  "finding_matches rs k f \<longleftrightarrow>
     (mf_code f, mf_source f, mf_target f) = k \<and> distinct (mf_vm_names f) \<and>
     set (mf_vm_names f) = {v. v \<noteq> [] \<and> (\<exists>r\<in>set rs. report_key r = k \<and> re_vm r = Some v)} \<and>
     (\<exists>r\<in>set rs. report_key r = k \<and> re_severity r = mf_severity f)"

definition collecting_ok :: "report list \<Rightarrow> (finding_key \<times> mapping_finding) list \<Rightarrow> bool" where
  "collecting_ok rs d \<longleftrightarrow>
     distinct (map fst d) \<and> fst ` set d = report_key ` set rs \<and> (\<forall>(k, f)\<in>set d. finding_matches rs k f)"

lemma note_vm_simps [simp]:
  "mf_code (note_vm v f) = mf_code f" "mf_source (note_vm v f) = mf_source f"
  "mf_target (note_vm v f) = mf_target f" "mf_severity (note_vm v f) = mf_severity f"
  "set (mf_vm_names (note_vm v f)) = set (mf_vm_names f) \<union> {w. w \<noteq> [] \<and> v = Some w}"
  "distinct (mf_vm_names (note_vm v f)) = distinct (mf_vm_names f)"
  by (cases v; auto simp: note_vm_def)+

lemma distinct_set_dict_set:
  "distinct (map fst d) \<Longrightarrow> set (dict_set k v d) = insert (k, v) {(k', w). (k', w) \<in> set d \<and> k' \<noteq> k}"
  by (induction k v d rule: dict_set.induct) (auto simp: image_iff)

lemma add_report_ok:
  assumes "collecting_ok rs d"
  shows "collecting_ok (rs @ [r]) (add_report r d)"
proof -
  have dist: "distinct (map fst d)" and keys: "fst ` set d = report_key ` set rs"
    and match: "\<And>k f. (k, f) \<in> set d \<Longrightarrow> finding_matches rs k f"
    using assms by (auto simp: collecting_ok_def)
  define f where "f = (case dict_get d (report_key r) of Some f \<Rightarrow> f
      | None \<Rightarrow> \<lparr>mf_code = re_code r, mf_severity = re_severity r, mf_source = re_source r, mf_target = re_target r, mf_vm_names = []\<rparr>)"
  have add: "add_report r d = dict_set (report_key r) (note_vm (re_vm r) f) d"
    by (simp add: add_report_def f_def Let_def)
  have own: "finding_matches (rs @ [r]) (report_key r) (note_vm (re_vm r) f)"
  proof (cases "dict_get d (report_key r)")
    case None
    then have "report_key r \<notin> report_key ` set rs"
      using dict_has_iff [of d "report_key r"] unfolding keys [symmetric] by (simp add: dict_has_def)
    then have "re_vm r' = Some v \<Longrightarrow> report_key r' \<noteq> report_key r" if "r' \<in> set rs" for r' v
      using that by (metis imageI)
    then show ?thesis
      using None by (auto simp: finding_matches_def f_def) (simp_all add: report_key_def)
  next
    case (Some g)
    then have "finding_matches rs (report_key r) g" using match dict_get_iff_mem [OF dist] by blast
    then show ?thesis using Some by (auto simp: finding_matches_def f_def)
  qed
  have others: "finding_matches (rs @ [r]) k g" if "(k, g) \<in> set d" "k \<noteq> report_key r" for k g
    using match [OF that(1)] that(2) by (auto simp: finding_matches_def)
  show ?thesis
    unfolding add collecting_ok_def
  proof (intro conjI)
    show "distinct (map fst (dict_set (report_key r) (note_vm (re_vm r) f) d))" by (rule distinct_dict_set [OF dist])
    show "fst ` set (dict_set (report_key r) (note_vm (re_vm r) f) d) = report_key ` set (rs @ [r])"
      using keys_dict_set [of "report_key r" _ d] keys by simp
    show "\<forall>(k, g)\<in>set (dict_set (report_key r) (note_vm (re_vm r) f) d). finding_matches (rs @ [r]) k g"
      using own others by (auto simp: distinct_set_dict_set [OF dist])
  qed
qed

lemma fold_reports_ok: "collecting_ok rs' d \<Longrightarrow> collecting_ok (rs' @ rs) (fold add_report rs d)"
proof (induction rs arbitrary: rs' d)
  case (Cons r rs)
  then have "collecting_ok ((rs' @ [r]) @ rs) (fold add_report rs (add_report r d))"
    by (intro Cons.IH add_report_ok)
  then show ?case by simp
qed simp

lemma collected_ok: "collecting_ok rs (fold add_report rs [])"
  using fold_reports_ok [of "[]" "[]" rs] by (simp add: collecting_ok_def)

lemma collected_findings_set: "set (collected_findings rs) = snd ` set (fold add_report rs [])"
  by (simp add: collected_findings_def)

definition key_of :: "mapping_finding \<Rightarrow> finding_key" where
  "key_of f = (mf_code f, mf_source f, mf_target f)"

lemma matches_key: "finding_matches rs k f \<Longrightarrow> k = key_of f"
  by (auto simp: finding_matches_def key_of_def)

lemma collected_matches: "(k, f) \<in> set (fold add_report rs []) \<Longrightarrow> finding_matches rs k f"
  using collected_ok [of rs] unfolding collecting_ok_def by blast

lemma collected_findings_exact:
  assumes "f \<in> set (collected_findings rs)"
  shows "finding_matches rs (key_of f) f"
proof -
  obtain k where "(k, f) \<in> set (fold add_report rs [])" using assms by (auto simp: collected_findings_set)
  then show ?thesis using collected_matches matches_key by metis
qed

lemma report_collected:
  assumes "r \<in> set rs"
  obtains f where "f \<in> set (collected_findings rs)" and "key_of f = report_key r"
proof -
  have "report_key r \<in> fst ` set (fold add_report rs [])"
    using assms collected_ok [of rs] by (auto simp: collecting_ok_def)
  then obtain f where "(report_key r, f) \<in> set (fold add_report rs [])" by force
  moreover from this have "key_of f = report_key r" using collected_matches matches_key by metis
  ultimately show thesis by (intro that [of f]) (force simp: collected_findings_set)+
qed

lemma distinct_keys: "distinct (map key_of (collected_findings rs))"
proof -
  let ?d = "fold add_report rs []"
  have "map (key_of \<circ> snd) ?d = map fst ?d"
    using collected_matches matches_key by (intro map_cong refl) (metis comp_apply prod.collapse)
  then have "map key_of (map snd ?d) = map fst ?d" by simp
  moreover have "distinct (map fst ?d)" using collected_ok [of rs] by (simp add: collecting_ok_def)
  ultimately have "distinct (map key_of (map snd ?d))" by metis
  moreover have "mset (map key_of (collected_findings rs)) = mset (map key_of (map snd ?d))"
    unfolding collected_findings_def by (rule mset_sort_key_map)
  ultimately show ?thesis by (metis mset_eq_imp_distinct_iff)
qed

lemma sorted_findings: "sorted (map finding_order (collected_findings rs))"
  by (simp add: collected_findings_def)

text \<open>C32: The findings of a mapping are listed worst first, one for each code, source and target that
  some check reports, and each names exactly the machines reported under it, once.
\<close>

theorem check_mapping_exact:
  "sorted (map (\<lambda>f. severity_rank (mf_severity f)) (check_mapping mc)) \<and>
   distinct (map key_of (check_mapping mc)) \<and>
   key_of ` set (check_mapping mc) = report_key ` set (mapping_reports mc) \<and>
   list_all (\<lambda>f. finding_matches (mapping_reports mc) (key_of f) f) (check_mapping mc)"
proof (intro conjI)
  let ?fs = "check_mapping mc"
  have "sorted (map finding_order ?fs)" unfolding check_mapping_def by (rule sorted_findings)
  then show "sorted (map (\<lambda>f. severity_rank (mf_severity f)) ?fs)"
    by (simp add: sorted_iff_nth_mono finding_order_def less_eq_prod_def) (meson less_imp_le)
  show "distinct (map key_of ?fs)" unfolding check_mapping_def by (rule distinct_keys)
  show "list_all (\<lambda>f. finding_matches (mapping_reports mc) (key_of f) f) ?fs"
    unfolding check_mapping_def list_all_iff using collected_findings_exact by blast
  have "report_key r \<in> key_of ` set ?fs" if "r \<in> set (mapping_reports mc)" for r
    using report_collected [OF that] unfolding check_mapping_def by (metis image_eqI)
  moreover have "key_of f \<in> report_key ` set (mapping_reports mc)" if "f \<in> set ?fs" for f
    using that collected_findings_exact unfolding check_mapping_def finding_matches_def by (metis image_eqI)
  ultimately show "key_of ` set ?fs = report_key ` set (mapping_reports mc)" by blast
qed

text \<open>A mapping that no report blocks.\<close>

lemma blocking_reported:
  assumes "r \<in> set (mapping_reports mc)" and "re_severity r = Blocking"
    and one: "\<And>r'. r' \<in> set (mapping_reports mc) \<Longrightarrow> report_key r' = report_key r \<Longrightarrow> re_severity r' = Blocking"
  shows "\<exists>f\<in>set (check_mapping mc). mf_severity f = Blocking \<and> mf_code f = re_code r \<and>
    (\<forall>v. re_vm r = Some v \<longrightarrow> v \<noteq> [] \<longrightarrow> v \<in> set (mf_vm_names f))"
proof -
  obtain f where f: "f \<in> set (check_mapping mc)" "key_of f = report_key r"
    using report_collected [OF assms(1)] unfolding check_mapping_def by blast
  have match: "finding_matches (mapping_reports mc) (report_key r) f"
    using collected_findings_exact f unfolding check_mapping_def by metis
  then have "mf_severity f = Blocking" using one by (auto simp: finding_matches_def)
  moreover have "mf_code f = re_code r" using f(2) by (simp add: key_of_def report_key_def)
  ultimately show ?thesis using f(1) match assms(1) by (auto simp: finding_matches_def)
qed

section \<open>Networks of addresses\<close>

text \<open>Membership in a network is the range between its first and its last address.\<close>

lemma high_bits: "w AND NOT (mask n) = u AND NOT (mask n) \<longleftrightarrow> drop_bit n w = drop_bit n (u :: 32 word)"
proof
  assume eq: "w AND NOT (mask n) = u AND NOT (mask n)"
  show "drop_bit n w = drop_bit n u"
  proof (rule bit_eqI)
    fix i
    have "bit (w AND NOT (mask n)) (n + i) = bit (u AND NOT (mask n)) (n + i)" using eq by simp
    then show "bit (drop_bit n w) i = bit (drop_bit n u) i"
      by (auto simp: bit_simps dest: bit_imp_le_length)
  qed
next
  assume eq: "drop_bit n w = drop_bit n u"
  show "w AND NOT (mask n) = u AND NOT (mask n)"
  proof (rule bit_eqI)
    fix i
    have "n \<le> i \<Longrightarrow> bit w i = bit u i" using arg_cong [OF eq, of "\<lambda>x. bit x (i - n)"] by (simp add: bit_simps)
    then show "bit (w AND NOT (mask n)) i = bit (u AND NOT (mask n)) i" by (auto simp: bit_simps)
  qed
qed

lemma in_network_prefix:
  "in_network w (u AND netmask p, netmask p) \<longleftrightarrow> unat w div 2 ^ (32 - p) = unat u div 2 ^ (32 - p)"
  unfolding in_network_def netmask_def fst_conv snd_conv high_bits
  by (simp only: word_unat_eq_iff unat_drop_bit_eq) (simp only: drop_bit_eq_div)

lemma in_network_range:
  assumes "in_network w n" shows "fst n \<le> w \<and> w \<le> fst n OR NOT (snd n)"
proof -
  have "fst n = w AND snd n" using assms by (simp add: in_network_def)
  moreover have "w AND snd n \<le> w" by (rule word_and_le2)
  moreover have "w \<le> (w AND snd n) OR NOT (snd n)"
  proof -
    have "(w AND snd n) OR NOT (snd n) = w OR NOT (snd n)" by (rule bit_eqI) (auto simp: bit_simps)
    then show ?thesis by (simp add: le_word_or2)
  qed
  ultimately show ?thesis by simp
qed

section \<open>Static addresses\<close>

text \<open>The severity of a report follows from its code.\<close>

definition blocking_codes :: "string list" where
  "blocking_codes = [''udn.primary_not_layer2'', ''udn.ipam_not_persistent'', ''udn.evpn_unavailable'',
     ''udn.provider_ip_inside_subnet'', ''localnet.ipam_enabled'', ''localnet.bridge_mapping_missing'',
     ''udn.namespace_not_primary'', ''udn.static_ip_outside_subnet'', ''offload.unavailable'']"

definition severity_fits :: "report \<Rightarrow> bool" where
  "severity_fits r \<longleftrightarrow> (re_severity r = Blocking \<longleftrightarrow> re_code r \<in> set blocking_codes)"

lemma severity_fits_report_if: "list_all severity_fits (report_if b r) \<longleftrightarrow> (b \<longrightarrow> severity_fits r)"
  by (simp add: report_if_def)

lemma severity_fits_report_of: "severity_fits (report_of c s a b v) \<longleftrightarrow> (s = Blocking \<longleftrightarrow> c \<in> set blocking_codes)"
  by (simp add: severity_fits_def report_of_def)

lemmas severity_simps = severity_fits_report_if severity_fits_report_of list_all_append

lemma list_all_concat_map: "list_all p (concat (map f xs)) \<longleftrightarrow> list_all (\<lambda>x. list_all p (f x)) xs"
  by (induction xs) auto

lemma list_all_true [simp]: "list_all (\<lambda>x. True) xs"
  by (induction xs) simp_all

lemma primary_reports_fit: "list_all severity_fits (primary_reports status addr name sources net)"
  unfolding primary_reports_def Let_def by (simp add: severity_simps blocking_codes_def)

lemma localnet_reports_fit: "list_all severity_fits (localnet_reports cat name sources net)"
  unfolding localnet_reports_def Let_def by (simp add: severity_simps blocking_codes_def)

lemma vm_reports_fit: "list_all severity_fits (vm_reports cat rows preserve v)"
  unfolding vm_reports_def vm_network_reports_def Let_def list_all_concat_map
  by (auto simp: severity_simps list_all_concat_map blocking_codes_def list_all_iff [of _ "vw_vsphere_networks v"]
      list_all_iff [of _ "vw_nic_ips v"] split: option.split)

lemma storage_reports_fit: "list_all severity_fits (storage_reports cat status rows mt dts entry)"
  unfolding storage_reports_def offload_reports_def Let_def
  by (auto simp: severity_simps list_all_concat_map blocking_codes_def list_all_iff [of _ "snd entry"]
      split: prod.split option.split)

lemma network_reports_fit: "list_all severity_fits (network_reports cat status addr entry)"
  by (simp add: network_reports_def primary_reports_fit localnet_reports_fit split: prod.split option.split)

lemma mapping_reports_fit: "list_all severity_fits (mapping_reports mc)"
  unfolding mapping_reports_def Let_def
  by (simp add: severity_simps list_all_concat_map network_reports_fit vm_reports_fit storage_reports_fit)
     (simp add: list_all_iff blocking_codes_def)

text \<open>Without a blocking finding nothing was reported as blocking.\<close>

lemma nothing_blocking:
  assumes "\<forall>f\<in>set (check_mapping mc). mf_severity f \<noteq> Blocking" and "r \<in> set (mapping_reports mc)"
  shows "re_severity r \<noteq> Blocking"
proof
  assume blocking: "re_severity r = Blocking"
  have "re_severity r' = Blocking" if "r' \<in> set (mapping_reports mc)" "report_key r' = report_key r" for r'
    using mapping_reports_fit [of mc] that assms(2) blocking
    by (auto simp: list_all_iff severity_fits_def report_key_def)
  then show False using blocking_reported [OF assms(2) blocking] assms(1) by blast
qed

definition lands_on_primary :: "platform_catalog \<Rightarrow> network_row list \<Rightarrow> string \<Rightarrow> network_facts \<Rightarrow> bool" where
  "lands_on_primary cat rows src net \<longleftrightarrow>
     (\<exists>row. dict_get (net_rows rows) (Some src) = Some row \<and> \<not> nr_ignored row \<and>
        platform_network cat (nr_target_network_name row) = Some net \<and>
        kind_of (Some net) (nr_target_network_type row) = ''primary_udn'')"

text \<open>C31: When the checks find nothing blocking and static addresses are to be kept, every address of a
  machine on a network that maps to a primary user-defined network lies, as a number, inside one of
  the subnets of that network (if the address and some subnet can be read).
\<close>

theorem unblocked_addresses_fit:
  assumes "\<forall>f\<in>set (check_mapping mc). mf_severity f \<noteq> Blocking"
    and "mc_catalog mc = Some cat" and "mc_preserve_static_ips mc"
    and "v \<in> set (mc_vms mc)" and "src \<in> set (vw_vsphere_networks v)" and "(src, ip) \<in> set (vw_nic_ips v)"
    and "lands_on_primary cat (mc_network_mappings mc) src net"
    and "ip_address ip = Some a" and "List.map_filter ip_network (nf_subnets net) \<noteq> []"
  shows "\<exists>n\<in>set (List.map_filter ip_network (nf_subnets net)). fst n \<le> a \<and> a \<le> fst n OR NOT (snd n)"
proof -
  let ?rows = "mc_network_mappings mc"
  obtain row where row: "dict_get (net_rows ?rows) (Some src) = Some row" "\<not> nr_ignored row"
    "platform_network cat (nr_target_network_name row) = Some net"
    "kind_of (Some net) (nr_target_network_type row) = ''primary_udn''"
    using assms(7) by (auto simp: lands_on_primary_def)
  have named: "truthy (nr_target_network_name row)" using row(3) by (simp add: platform_network_def split: if_splits)
  have subnets: "nf_subnets net \<noteq> []" using assms(9) by auto
  let ?r = "report_of ''udn.static_ip_outside_subnet'' Blocking (Some src) (Some (or_empty (nr_target_network_name row))) (Some (vw_name v))"
  have "in_any ip (nf_subnets net) \<noteq> Some False"
  proof
    assume "in_any ip (nf_subnets net) = Some False"
    then have "?r \<in> set (vm_network_reports cat ?rows True v src)"
      using row named subnets assms(6)
      by (auto simp: vm_network_reports_def Let_def report_if_def intro!: bexI [of _ "(src, ip)"])
    then have "?r \<in> set (mapping_reports mc)"
      using assms(2-5) by (auto simp: mapping_reports_def Let_def vm_reports_def)
    from nothing_blocking [OF assms(1) this] show False by (simp add: report_of_def)
  qed
  then have "\<exists>n\<in>set (List.map_filter ip_network (nf_subnets net)). in_network a n"
    using assms(8,9) by (auto simp: in_any_def Let_def list_ex_iff split: if_splits)
  then show ?thesis using in_network_range by blast
qed

section \<open>A cluster with one primary network\<close>

definition udn_facts :: network_facts where
  "udn_facts = \<lparr>na_network_type = Some ''udn'', na_role = Some ''primary'', na_topology = Some ''layer2'',
     nf_ipam_mode = Some ''persistent'', nf_binding = None, nf_transport = None, nf_subnets = [''10.1.0.0/16''],
     nf_physical_network_name = None\<rparr>"

definition udn_catalog :: platform_catalog where
  "udn_catalog = empty_catalog\<lparr>pc_ocp_version := Some ''4.22'', pc_networks := [(''blue'', udn_facts), (''green'', udn_facts\<lparr>nf_subnets := [''10.2.0.0/16'']\<rparr>)],
     pc_namespaces := [(''apps'', Some ''blue'')]\<rparr>"

definition to_network :: "string \<Rightarrow> string \<Rightarrow> network_row" where
  "to_network src name = \<lparr>nr_source_network = Some src, nr_target_network_name = Some name, nr_target_network_type = None,
     nr_target_namespace = None, nr_ignored = False\<rparr>"

definition vm_at :: "string \<Rightarrow> vm_view" where
  "vm_at ip = \<lparr>vw_name = ''web'', vw_vsphere_networks = [''vlan7''], vw_vsphere_datastores = [], vw_nic_ips = [(''vlan7'', ip)],
     vw_target_namespace = Some ''apps''\<rparr>"

definition one_vm_check :: "network_row list \<Rightarrow> string \<Rightarrow> mapping_check" where
  "one_vm_check rows ip = \<lparr>mc_network_mappings = rows, mc_storage_mappings = [], mc_catalog = Some udn_catalog, mc_vms = [vm_at ip],
     mc_migration_type = ''cold'', mc_preserve_static_ips = True, mc_datastore_types = [], mc_provider_address = None\<rparr>"

lemmas char_classes = is_digit_def is_upper_def is_lower_def is_alpha_def is_alnum_def is_space_def

lemma addresses:
  "ip_address ''10.1.2.3'' = Some 0x0A010203" "ip_address ''10.2.2.3'' = Some 0x0A020203"
  "ip_network ''10.1.0.0/16'' = Some (0x0A010000, 0xFFFF0000)" "ip_network ''10.2.0.0/16'' = Some (0x0A020000, 0xFFFF0000)"
  by (simp_all add: ip_address_def ip_network_def parse_octet_def parse_mask_def netmask_def read_nat_def str_isdigit_def
      char_classes mask_eq_exp_minus_1)

lemma in_blue: "in_any ''10.1.2.3'' [''10.1.0.0/16''] = Some True" "in_any ''10.2.2.3'' [''10.1.0.0/16''] = Some False"
  by (simp_all add: in_any_def addresses List.map_filter_def in_network_def)

lemma blue_status: "effective_versions (Some ''4.22'') None = (Some (4, 22), Some (2, 12))"
  "feature_status ''bgp_evpn_primary_cudn'' (Some (4, 22)) (Some (2, 12)) = Some TP"
  "feature_status ''passt_binding'' (Some (4, 22)) (Some (2, 12)) = Some TP"
  "feature_status ''mtv_udn_destination'' (Some (4, 22)) (Some (2, 12)) = Some TP"
  by (code_simp, code_simp, code_simp, code_simp)

lemma one_row: "net_rows [to_network src name] = [(Some src, to_network src name)]"
  by (simp add: net_rows_def dict_of_def to_network_def)

lemma blue_used: "used_networks [to_network ''vlan7'' ''blue''] = [(''blue'', [''vlan7''])]"
  by (simp add: used_networks_def one_row) (simp add: to_network_def)

lemma blue_reports:
  "mapping_reports (one_vm_check [to_network ''vlan7'' ''blue''] ip) =
     report_of ''udn.mtv_destination_support'' Warning None (Some ''blue'') None #
     report_if (in_any ip [''10.1.0.0/16''] = Some False)
       (report_of ''udn.static_ip_outside_subnet'' Blocking (Some ''vlan7'') (Some ''blue'') (Some ''web''))"
  unfolding one_vm_check_def mapping_reports_def
  by (simp add: udn_catalog_def empty_catalog_def blue_status blue_used network_reports_def platform_network_def
      kind_of_def destination_kind_def network_attrs.truncate_def udn_facts_def primary_reports_def below_ga_def report_if_def
      vm_reports_def vm_network_reports_def vm_at_def one_row dict_has_def used_storage_def sc_rows_def dict_of_def udn_count_def
      UDN_BATCH_WARN_THRESHOLD_def or_else_def Let_def) (simp add: to_network_def)

lemma collected_one: "collected_findings [r] = [note_vm (re_vm r) \<lparr>mf_code = re_code r, mf_severity = re_severity r,
    mf_source = re_source r, mf_target = re_target r, mf_vm_names = []\<rparr>]"
  by (simp add: collected_findings_def add_report_def Let_def)

lemma blue_check: "map mf_severity (check_mapping (one_vm_check [to_network ''vlan7'' ''blue''] ''10.1.2.3'')) = [Warning]"
  by (simp add: check_mapping_def blue_reports in_blue report_if_def collected_one report_of_def)

lemma unblocked_addresses_fit_witness:
  "\<exists>n\<in>set (List.map_filter ip_network [''10.1.0.0/16'']). fst n \<le> 0x0A010203 \<and> 0x0A010203 \<le> fst n OR NOT (snd n)"
proof -
  let ?mc = "one_vm_check [to_network ''vlan7'' ''blue''] ''10.1.2.3''"
  have "\<forall>s\<in>set (map mf_severity (check_mapping ?mc)). s \<noteq> Blocking" unfolding blue_check by simp
  then have unblocked: "\<forall>f\<in>set (check_mapping ?mc). mf_severity f \<noteq> Blocking" by simp
  have primary: "lands_on_primary udn_catalog (mc_network_mappings ?mc) ''vlan7'' udn_facts"
    by (simp add: one_vm_check_def lands_on_primary_def one_row platform_network_def udn_catalog_def kind_of_def
        destination_kind_def network_attrs.truncate_def udn_facts_def or_else_def) (simp add: to_network_def)
  have "\<exists>n\<in>set (List.map_filter ip_network (nf_subnets udn_facts)). fst n \<le> 0x0A010203 \<and> 0x0A010203 \<le> fst n OR NOT (snd n)"
    by (rule unblocked_addresses_fit [OF unblocked _ _ _ _ _ primary addresses(1), where v = "vm_at ''10.1.2.3''"])
       (simp_all add: one_vm_check_def vm_at_def udn_facts_def List.map_filter_def addresses)
  then show ?thesis by (simp add: udn_facts_def)
qed

text \<open>
  Two rows for one source network: the checks judge the last, the generator sends the machine to the
  first. The address lies outside the network the machine is sent to, and nothing is blocking.
\<close>

lemma duplicate_rows_judged_apart:
  defines "rows \<equiv> [to_network ''vlan7'' ''green'', to_network ''vlan7'' ''blue'']"
  shows "map mf_severity (check_mapping (one_vm_check rows ''10.1.2.3'')) = [Warning]"
    and "map_option mn_name (resolve_network \<lparr>mr_network_mappings = rows, mr_storage_mappings = [],
      mr_namespace_mappings = Criteria_rows [], mr_catalog = Some (snapshot_of udn_catalog)\<rparr> ''vlan7'') = Some ''green''"
proof -
  have last: "net_rows rows = net_rows [to_network ''vlan7'' ''blue'']"
    by (simp add: rows_def net_rows_def dict_of_def to_network_def)
  moreover have "vm_network_reports cat rows = vm_network_reports cat [to_network ''vlan7'' ''blue'']" for cat
    by (simp add: fun_eq_iff vm_network_reports_def last)
  ultimately have "mapping_reports (one_vm_check rows ''10.1.2.3'') = mapping_reports (one_vm_check [to_network ''vlan7'' ''blue''] ''10.1.2.3'')"
    by (simp add: mapping_reports_def one_vm_check_def used_networks_def vm_reports_def)
  then show "map mf_severity (check_mapping (one_vm_check rows ''10.1.2.3'')) = [Warning]"
    using blue_check by (simp add: check_mapping_def)
  show "map_option mn_name (resolve_network \<lparr>mr_network_mappings = rows, mr_storage_mappings = [],
      mr_namespace_mappings = Criteria_rows [], mr_catalog = Some (snapshot_of udn_catalog)\<rparr> ''vlan7'') = Some ''green''"
    by (simp add: rows_def resolve_network_def network_row_of_def to_network_def Let_def)
qed

section \<open>The view of a wave\<close>

text \<open>A source network of the wave is listed with the number of its uses.\<close>

lemma fold_use_network:
  "src \<noteq> [] \<Longrightarrow> map_option nu_vm_count (dict_get (fold (use_network r) ss d) src) =
     (let n = count_list ss src; old = map_option nu_vm_count (dict_get d src)
      in if n = 0 then old else Some (n + (case old of None \<Rightarrow> 0 | Some m \<Rightarrow> m)))"
proof (induction ss arbitrary: d)
  case (Cons s ss)
  show ?case
    unfolding fold_simps Cons.IH [OF Cons.prems]
    by (auto simp: Let_def use_network_def dict_get_or_def new_network_use_def Cons.prems split: option.split)
qed (simp add: Let_def)

theorem wave_network_counts:
  "src \<noteq> [] \<Longrightarrow> map_option nu_vm_count (dict_get (wave_networks r vms) src) =
     (let n = count_list (concat (map vm_vsphere_networks vms)) src in if n = 0 then None else Some n)"
  by (simp add: wave_networks_def fold_use_network Let_def)

end
