(* ===== verification/Baseline_Capture.thy ===== *)
theory Baseline_Capture
  imports Inventory Ssh_Session
begin

text \<open>
  Capturing baselines (\<open>app/core/capture.py\<close>, \<open>app/core/scheduler.py\<close>, the capture endpoints of
  \<open>app/api/vms.py\<close> and \<open>app/api/snapshots.py\<close>): one routine collects a machine and stores a numbered snapshot;
  the scheduler and the background tasks of the endpoints call it. The clock is left out.
\<close>

section \<open>Tables\<close>

record base_snapshot =
  bs_id :: int
  bs_vm_id :: int
  bs_number :: nat
  bs_ssh_user :: string
  bs_raw_data :: guest_state

datatype capture_audit =
    Host_key_accepted string int "string option"
  | Host_key_failure string string int string
  | Baseline_collected string int int nat string
  | Capture_triggered string int string string
  | Bulk_triggered string string nat nat
  | Bulk_completed string string nat nat nat

record capture_db =
  kb_vms :: "vm list"
  kb_snapshots :: "base_snapshot list"
  kb_audits :: "capture_audit list"
  kb_next_id :: int

section \<open>One collection\<close>

text \<open>
  A call of \<open>SSHCollector.collectect\<close> returns the state with the host-key event of the connection, raises
  \<open>SSHCollectionError\<close>, or raises something else: a refused command, a timeout, a broken channel.
\<close>

datatype collect_outcome = Collected host_key_event guest_state | Collect_error ssh_error | Collect_crash

text \<open>What a Windows guest gives is an argument, as in the session.\<close>

definition collect_outcome_of ::
  "ssh_setup \<Rightarrow> (string \<Rightarrow> connect_outcome) \<Rightarrow> (string \<Rightarrow> remote) \<Rightarrow> (string \<Rightarrow> collect_outcome) \<Rightarrow> string \<Rightarrow> collect_outcome" where
  "collect_outcome_of setup net remote windows host =
     (case connect setup host (net host) of
        Inl e \<Rightarrow> Collect_error e
      | Inr ev \<Rightarrow> (case fst (collect_session (remote host) []) of
            Inl _ \<Rightarrow> Collect_crash
          | Inr (Collected_state st) \<Rightarrow> Collected ev st
          | Inr (Windows_collection json) \<Rightarrow> windows json))"

text \<open>The row of the settings may not exist yet.\<close>

datatype host_key_policy = Policy_strict | Policy_auto_accept

definition resolve_host_key_policy :: "host_key_policy option \<Rightarrow> host_key_policy" where
  "resolve_host_key_policy row = (case row of None \<Rightarrow> Policy_auto_accept | Some p \<Rightarrow> p)"

type_synonym collector = "string \<Rightarrow> string \<Rightarrow> collect_outcome"

definition ssh_host :: "vm \<Rightarrow> string option" where
  "ssh_host v = (if truthy (vm_ip_address v) then vm_ip_address v else vm_source_hostname v)"

definition ssh_user_of :: "vm \<Rightarrow> string" where
  "ssh_user_of v = (if truthy (vm_ssh_user v) then or_empty (vm_ssh_user v) else ''virtvalidate'')"

section \<open>Collecting and storing\<close>

definition record_capture_audit :: "capture_audit \<Rightarrow> capture_db \<Rightarrow> capture_db" where
  "record_capture_audit a db = db\<lparr>kb_audits := kb_audits db @ [a]\<rparr>"

definition audit_host_key_event :: "string \<Rightarrow> vm \<Rightarrow> host_key_event \<Rightarrow> capture_db \<Rightarrow> capture_db" where
  "audit_host_key_event actor v ev db =
     (if hk_added ev then record_capture_audit (Host_key_accepted actor (vm_id v) (hk_fingerprint ev)) db else db)"

definition audit_host_key_failure :: "string \<Rightarrow> vm \<Rightarrow> ssh_error \<Rightarrow> capture_db \<Rightarrow> capture_db" where
  "audit_host_key_failure actor v e db =
     (if se_kind e \<in> {''host_key_mismatch'', ''host_key_unknown''}
      then record_capture_audit (Host_key_failure (se_kind e) actor (vm_id v) (se_fingerprint e)) db else db)"

text \<open>\<open>coalesce(max(snapshot_number), 0) + 1\<close>\<close>

definition numbers_of :: "int \<Rightarrow> capture_db \<Rightarrow> nat list" where
  "numbers_of vid db = map bs_number (filter (\<lambda>s. bs_vm_id s = vid) (kb_snapshots db))"

definition next_snapshot_number :: "int \<Rightarrow> capture_db \<Rightarrow> nat" where
  "next_snapshot_number vid db = fold max (numbers_of vid db) 0 + 1"

definition leave_discovered :: "int \<Rightarrow> vm list \<Rightarrow> vm list" where
  "leave_discovered vid = map (\<lambda>v. if vm_id v = vid \<and> vm_status v = Status_discovered
     then v\<lparr>vm_status := Status_baseline_captured\<rparr> else v)"

definition add_snapshot :: "int \<Rightarrow> nat \<Rightarrow> string \<Rightarrow> guest_state \<Rightarrow> capture_db \<Rightarrow> capture_db \<times> base_snapshot" where
  "add_snapshot vid n user st db =
     (let s = \<lparr>bs_id = kb_next_id db, bs_vm_id = vid, bs_number = n, bs_ssh_user = user, bs_raw_data = st\<rparr>
      in (db\<lparr>kb_snapshots := kb_snapshots db @ [s], kb_next_id := kb_next_id db + 1\<rparr>, s))"

datatype capture_error = No_host | Collection_failed ssh_error

datatype capture_result = Captured base_snapshot | Capture_failed capture_error | Capture_crashed

definition collect_and_store :: "collector \<Rightarrow> string \<Rightarrow> vm \<Rightarrow> capture_db \<Rightarrow> capture_db \<times> capture_result" where
  "collect_and_store coll actor v db =
     (if \<not> truthy (ssh_host v) then (db, Capture_failed No_host)
      else (case coll (or_empty (ssh_host v)) (ssh_user_of v) of
          Collect_error e \<Rightarrow> (audit_host_key_failure actor v e db, Capture_failed (Collection_failed e))
        | Collect_crash \<Rightarrow> (db, Capture_crashed)
        | Collected ev st \<Rightarrow>
            (let db1 = audit_host_key_event actor v ev db;
                 n = next_snapshot_number (vm_id v) db1;
                 (db2, s) = add_snapshot (vm_id v) n (ssh_user_of v) st db1;
                 db3 = db2\<lparr>kb_vms := leave_discovered (vm_id v) (kb_vms db2)\<rparr>
             in (record_capture_audit (Baseline_collected actor (bs_id s) (vm_id v) n (ssh_user_of v)) db3, Captured s))))"

section \<open>The scheduler\<close>

text \<open>Only \<open>CaptureError\<close> is caught, so any other exception ends the run.\<close>

fun scheduled_captures :: "collector \<Rightarrow> vm list \<Rightarrow> capture_db \<Rightarrow> capture_db \<times> bool" where
  "scheduled_captures coll [] db = (db, True)"
| "scheduled_captures coll (v # vs) db =
     (case collect_and_store coll ''scheduler'' v db of
        (db1, Captured s) \<Rightarrow> scheduled_captures coll vs db1
      | (db1, Capture_failed e) \<Rightarrow> scheduled_captures coll vs db1
      | (db1, Capture_crashed) \<Rightarrow> (db1, False))"

text \<open>One collector serves the whole run; the policy is read once per run.\<close>

definition collect_baselines_for_all_vms ::
  "(host_key_policy \<Rightarrow> collector) \<Rightarrow> host_key_policy option \<Rightarrow> capture_db \<Rightarrow> capture_db \<times> bool" where
  "collect_baselines_for_all_vms coll row db =
     scheduled_captures (coll (resolve_host_key_policy row)) (kb_vms db) db"

text \<open>The cadence, as the hours of the day; each run starts on the hour.\<close>

datatype schedule_preset = Twice_daily | Once_daily | Hourly

definition trigger_for :: "schedule_preset \<Rightarrow> nat list" where
  "trigger_for preset =
     (case preset of Once_daily \<Rightarrow> [6] | Hourly \<Rightarrow> [0..<24] | Twice_daily \<Rightarrow> [6, 18])"

definition load_preset :: "schedule_preset option \<Rightarrow> schedule_preset" where
  "load_preset row = (case row of Some p \<Rightarrow> p | None \<Rightarrow> Twice_daily)"

section \<open>Task entries and endpoints\<close>

datatype capture_status = Capture_running | Capture_completed | Capture_task_failed

record capture_task =
  kt_vm_id :: int
  kt_status :: capture_status
  kt_snapshot_id :: "int option"

type_synonym capture_store = "(string \<times> capture_task) list"

definition new_capture_task :: "int \<Rightarrow> capture_task" where
  "new_capture_task vid = \<lparr>kt_vm_id = vid, kt_status = Capture_running, kt_snapshot_id = None\<rparr>"

definition mark_capture_completed :: "string \<Rightarrow> int \<Rightarrow> capture_store \<Rightarrow> capture_store" where
  "mark_capture_completed tid sid store =
     (case dict_get store tid of None \<Rightarrow> store
      | Some t \<Rightarrow> dict_set tid (t\<lparr>kt_status := Capture_completed, kt_snapshot_id := Some sid\<rparr>) store)"

definition mark_capture_failed :: "string \<Rightarrow> capture_store \<Rightarrow> capture_store" where
  "mark_capture_failed tid store =
     (case dict_get store tid of None \<Rightarrow> store
      | Some t \<Rightarrow> dict_set tid (t\<lparr>kt_status := Capture_task_failed\<rparr>) store)"

record capture_system =
  ky_db :: capture_db
  ky_store :: capture_store

text \<open>The background task; the flag says whether it ended without an exception.\<close>

definition run_capture_task :: "collector \<Rightarrow> string \<Rightarrow> string \<Rightarrow> int \<Rightarrow> capture_system \<Rightarrow> capture_system \<times> bool" where
  "run_capture_task coll actor tid vid s =
     (case find_vm (kb_vms (ky_db s)) vid of
        None \<Rightarrow> (s\<lparr>ky_store := mark_capture_failed tid (ky_store s)\<rparr>, True)
      | Some v \<Rightarrow>
          (case collect_and_store coll actor v (ky_db s) of
             (db, Captured b) \<Rightarrow> (s\<lparr>ky_db := db, ky_store := mark_capture_completed tid (bs_id b) (ky_store s)\<rparr>, True)
           | (db, Capture_failed e) \<Rightarrow> (s\<lparr>ky_db := db, ky_store := mark_capture_failed tid (ky_store s)\<rparr>, True)
           | (db, Capture_crashed) \<Rightarrow> (s\<lparr>ky_db := db\<rparr>, False)))"

definition spawn_capture :: "string \<Rightarrow> string \<Rightarrow> string \<Rightarrow> vm \<Rightarrow> capture_system \<Rightarrow> capture_system" where
  "spawn_capture actor via tid v s =
     s\<lparr>ky_store := dict_set tid (new_capture_task (vm_id v)) (ky_store s),
       ky_db := record_capture_audit (Capture_triggered actor (vm_id v) tid via) (ky_db s)\<rparr>"

datatype capture_http_error = Vm_not_found | Task_not_found | Task_of_other_vm

definition trigger_capture :: "string \<Rightarrow> string \<Rightarrow> int \<Rightarrow> capture_system \<Rightarrow> capture_http_error + capture_system" where
  "trigger_capture actor tid vid s =
     (case find_vm (kb_vms (ky_db s)) vid of
        None \<Rightarrow> Inl Vm_not_found
      | Some v \<Rightarrow> Inr (spawn_capture actor ''single'' tid v s))"

definition get_capture_status :: "int \<Rightarrow> string \<Rightarrow> capture_store \<Rightarrow> capture_http_error + capture_task" where
  "get_capture_status vid tid store =
     (case dict_get store tid of
        None \<Rightarrow> Inl Task_not_found
      | Some t \<Rightarrow> if kt_vm_id t \<noteq> vid then Inl Task_of_other_vm else Inr t)"

definition create_snapshot :: "int \<Rightarrow> string \<Rightarrow> guest_state \<Rightarrow> capture_db \<Rightarrow> capture_http_error + (capture_db \<times> base_snapshot)" where
  "create_snapshot vid user st db =
     (case find_vm (kb_vms db) vid of
        None \<Rightarrow> Inl Vm_not_found
      | Some v \<Rightarrow>
          (let (db1, s) = add_snapshot vid (next_snapshot_number vid db) user st db
           in Inr (db1\<lparr>kb_vms := leave_discovered vid (kb_vms db1)\<rparr>, s)))"

text \<open>The task ids are drawn at random; here they are a function of the machine.\<close>

definition capture_all :: "string \<Rightarrow> (int \<Rightarrow> string) \<Rightarrow> capture_system \<Rightarrow> capture_system \<times> (string \<times> int) list \<times> int list" where
  "capture_all actor tid s =
     (let vms = kb_vms (ky_db s);
          spawned = filter (\<lambda>v. truthy (ssh_host v)) vms
      in (fold (\<lambda>v. spawn_capture actor ''bulk'' (tid (vm_id v)) v) spawned s,
          map (\<lambda>v. (tid (vm_id v), vm_id v)) spawned,
          map vm_id (filter (\<lambda>v. \<not> truthy (ssh_host v)) vms)))"

text \<open>
  The background tasks of one response run in order; after one that raises an exception the following
  ones do not run (Starlette's documentation of background tasks).
\<close>

fun run_background :: "collector \<Rightarrow> string \<Rightarrow> (string \<times> int) list \<Rightarrow> capture_system \<Rightarrow> capture_system" where
  "run_background coll actor [] s = s"
| "run_background coll actor ((tid, vid) # ts) s =
     (case run_capture_task coll actor tid vid s of
        (s1, True) \<Rightarrow> run_background coll actor ts s1
      | (s1, False) \<Rightarrow> s1)"

definition capture_all_run :: "collector \<Rightarrow> string \<Rightarrow> (int \<Rightarrow> string) \<Rightarrow> capture_system \<Rightarrow> capture_system" where
  "capture_all_run coll actor tid s =
     (case capture_all actor tid s of (s1, tasks, skipped) \<Rightarrow> run_background coll actor tasks s1)"

end
