(* ===== verification/Capture_Runs.thy ===== *)
theory Capture_Runs
  imports Baseline_Capture
begin

text \<open>
  Runs over many machines, one after the other: what the scheduled run and the capture-all endpoint
  store, and which task entries they settle. A collection that ends in an exception other than
  \<open>SSHCollectionError\<close> cuts both short.
\<close>

section \<open>One machine\<close>

definition machine_outcome :: "collector \<Rightarrow> vm \<Rightarrow> collect_outcome" where
  "machine_outcome coll v = coll (or_empty (ssh_host v)) (ssh_user_of v)"

definition capture_crashes :: "collector \<Rightarrow> vm \<Rightarrow> bool" where
  "capture_crashes coll v \<longleftrightarrow> truthy (ssh_host v) \<and> machine_outcome coll v = Collect_crash"

definition captured_state :: "collector \<Rightarrow> vm \<Rightarrow> guest_state option" where
  "captured_state coll v =
     (if truthy (ssh_host v) then (case machine_outcome coll v of Collected ev st \<Rightarrow> Some st | _ \<Rightarrow> None) else None)"

definition stored :: "capture_db \<Rightarrow> (int \<times> string \<times> guest_state) list" where
  "stored db = map (\<lambda>s. (bs_vm_id s, bs_ssh_user s, bs_raw_data s)) (kb_snapshots db)"

definition capture_row :: "collector \<Rightarrow> vm \<Rightarrow> (int \<times> string \<times> guest_state) option" where
  "capture_row coll v = map_option (\<lambda>st. (vm_id v, ssh_user_of v, st)) (captured_state coll v)"

lemmas outcome_defs = machine_outcome_def capture_crashes_def captured_state_def capture_row_def

lemma record_capture_audit_simps [simp]:
  "kb_snapshots (record_capture_audit a db) = kb_snapshots db" "kb_vms (record_capture_audit a db) = kb_vms db"
  "kb_next_id (record_capture_audit a db) = kb_next_id db" "stored (record_capture_audit a db) = stored db"
  "kb_audits (record_capture_audit a db) = kb_audits db @ [a]"
  "next_snapshot_number vid (record_capture_audit a db) = next_snapshot_number vid db"
  by (simp_all add: record_capture_audit_def stored_def next_snapshot_number_def numbers_of_def)

lemma host_key_audit_simps [simp]:
  "kb_snapshots (audit_host_key_event actor v ev db) = kb_snapshots db" "kb_vms (audit_host_key_event actor v ev db) = kb_vms db"
  "kb_next_id (audit_host_key_event actor v ev db) = kb_next_id db" "stored (audit_host_key_event actor v ev db) = stored db"
  "kb_snapshots (audit_host_key_failure actor v e db) = kb_snapshots db" "kb_vms (audit_host_key_failure actor v e db) = kb_vms db"
  "kb_next_id (audit_host_key_failure actor v e db) = kb_next_id db" "stored (audit_host_key_failure actor v e db) = stored db"
  by (simp_all add: audit_host_key_event_def audit_host_key_failure_def)

lemma stored_collect_and_store:
  "stored (fst (collect_and_store coll actor v db)) =
     stored db @ (case capture_row coll v of None \<Rightarrow> [] | Some r \<Rightarrow> [r])"
  by (simp add: collect_and_store_def outcome_defs Let_def add_snapshot_def split: collect_outcome.split)
     (simp add: stored_def)

lemma result_collect_and_store:
  "snd (collect_and_store coll actor v db) = Capture_crashed \<longleftrightarrow> capture_crashes coll v"
  "(\<exists>s. snd (collect_and_store coll actor v db) = Captured s) \<longleftrightarrow> captured_state coll v \<noteq> None"
  by (auto simp: collect_and_store_def outcome_defs Let_def add_snapshot_def split: collect_outcome.split)

text \<open>How a machine is reached does not change.\<close>

definition endpoints_of :: "capture_db \<Rightarrow> (int \<times> string option \<times> string) list" where
  "endpoints_of db = map (\<lambda>v. (vm_id v, ssh_host v, ssh_user_of v)) (kb_vms db)"

lemma endpoints_collect_and_store [simp]:
  "endpoints_of (fst (collect_and_store coll actor v db)) = endpoints_of db"
proof -
  have "(\<lambda>v. (vm_id v, ssh_host v, ssh_user_of v)) (if vm_id w = i \<and> vm_status w = Status_discovered
      then w\<lparr>vm_status := Status_baseline_captured\<rparr> else w) = (vm_id w, ssh_host w, ssh_user_of w)" for i w
    by (simp add: ssh_host_def ssh_user_of_def)
  then have "endpoints_of (db\<lparr>kb_vms := leave_discovered i (kb_vms db)\<rparr>) = endpoints_of db" for db i
    by (simp add: endpoints_of_def leave_discovered_def)
  then show ?thesis
    by (auto simp: collect_and_store_def Let_def add_snapshot_def endpoints_of_def split: collect_outcome.split)
qed

section \<open>The scheduled run\<close>

lemma scheduled_step:
  obtains db1 r where "collect_and_store coll ''scheduler'' v db = (db1, r)"
    and "stored db1 = stored db @ (case capture_row coll v of None \<Rightarrow> [] | Some r \<Rightarrow> [r])"
    and "r = Capture_crashed \<longleftrightarrow> capture_crashes coll v"
proof -
  obtain db1 r where r: "collect_and_store coll ''scheduler'' v db = (db1, r)" by fastforce
  show ?thesis
    using that [OF r] stored_collect_and_store [of coll "''scheduler''" v db]
      result_collect_and_store(1) [of coll "''scheduler''" v db] by (simp add: r)
qed

lemma stored_scheduled:
  "stored (fst (scheduled_captures coll vs db)) =
     stored db @ List.map_filter (capture_row coll) (takeWhile (\<lambda>v. \<not> capture_crashes coll v) vs)"
proof (induction vs arbitrary: db)
  case (Cons v vs)
  obtain db1 r where r: "collect_and_store coll ''scheduler'' v db = (db1, r)"
    and own: "stored db1 = stored db @ (case capture_row coll v of None \<Rightarrow> [] | Some r \<Rightarrow> [r])"
    and crash: "r = Capture_crashed \<longleftrightarrow> capture_crashes coll v" by (rule scheduled_step)
  have none: "capture_crashes coll v \<Longrightarrow> capture_row coll v = None" by (simp add: outcome_defs)
  show ?case
  proof (cases "capture_crashes coll v")
    case True
    then show ?thesis using crash own none by (simp add: r List.map_filter_def)
  next
    case False
    then have "scheduled_captures coll (v # vs) db = scheduled_captures coll vs db1"
      using crash by (cases r) (simp_all add: r)
    then show ?thesis using False own Cons.IH [of db1] by (simp add: List.map_filter_def split: option.splits)
  qed
qed (simp add: List.map_filter_def)

lemma scheduled_ends: "snd (scheduled_captures coll vs db) \<longleftrightarrow> \<not> list_ex (capture_crashes coll) vs"
proof (induction vs arbitrary: db)
  case (Cons v vs)
  obtain db1 r where r: "collect_and_store coll ''scheduler'' v db = (db1, r)"
    and crash: "r = Capture_crashed \<longleftrightarrow> capture_crashes coll v" by (rule scheduled_step)
  then show ?case using Cons.IH [of db1] by (cases r) (simp_all add: r)
qed simp

text \<open>
  The scheduled run stores exactly one snapshot for each machine whose collection succeeds, in the
  order of the inventory, but only up to the first machine whose collection ends in an unexpected
  exception; it ends normally only if there is no such machine.
\<close>

theorem scheduled_run_exact:
  "let r = collect_baselines_for_all_vms coll row db; c = coll (resolve_host_key_policy row)
   in stored (fst r) = stored db @ List.map_filter (capture_row c) (takeWhile (\<lambda>v. \<not> capture_crashes c v) (kb_vms db)) \<and>
      (snd r \<longleftrightarrow> \<not> list_ex (capture_crashes c) (kb_vms db))"
  by (simp add: collect_baselines_for_all_vms_def Let_def stored_scheduled scheduled_ends)

section \<open>Capture-all\<close>

lemma find_mem: "List.find p xs = Some w \<Longrightarrow> w \<in> set xs \<and> p w"
  by (auto simp: find_Some_iff)

lemma fold_spawn:
  "ky_db (fold (\<lambda>v. spawn_capture actor via (tid (vm_id v)) v) vs s) =
     fold (\<lambda>v. record_capture_audit (Capture_triggered actor (vm_id v) (tid (vm_id v)) via)) vs (ky_db s)"
  "dict_get (ky_store (fold (\<lambda>v. spawn_capture actor via (tid (vm_id v)) v) vs s)) k =
     (case List.find (\<lambda>v. tid (vm_id v) = k) (rev vs) of Some v \<Rightarrow> Some (new_capture_task (vm_id v))
      | None \<Rightarrow> dict_get (ky_store s) k)"
  by (induction vs arbitrary: s) (auto simp: spawn_capture_def find_append split: option.split)

lemma fold_audits [simp]:
  "kb_vms (fold (\<lambda>v. record_capture_audit (f v)) vs db) = kb_vms db"
  "kb_snapshots (fold (\<lambda>v. record_capture_audit (f v)) vs db) = kb_snapshots db"
  by (induction vs arbitrary: db) simp_all

text \<open>What the task of a machine comes to when it is run.\<close>

definition settled_status :: "collector \<Rightarrow> vm \<Rightarrow> capture_status" where
  "settled_status coll v = (if captured_state coll v \<noteq> None then Capture_completed else Capture_task_failed)"

definition same_endpoint :: "vm \<Rightarrow> vm \<Rightarrow> bool" where
  "same_endpoint v w \<longleftrightarrow> vm_id v = vm_id w \<and> ssh_host v = ssh_host w \<and> ssh_user_of v = ssh_user_of w"

lemma same_endpoint_outcome:
  assumes "same_endpoint v w"
  shows "capture_crashes coll w = capture_crashes coll v" "captured_state coll w = captured_state coll v"
  using assms by (simp_all add: same_endpoint_def outcome_defs)

lemma run_capture_task_effect:
  assumes "find_vm (kb_vms (ky_db s)) (vm_id v) = Some w" and "same_endpoint v w"
    and "dict_get (ky_store s) tid = Some t"
  obtains s1 where "run_capture_task coll actor tid (vm_id v) s = (s1, \<not> capture_crashes coll v)"
    and "endpoints_of (ky_db s1) = endpoints_of (ky_db s)"
    and "\<And>k. k \<noteq> tid \<Longrightarrow> dict_get (ky_store s1) k = dict_get (ky_store s) k"
    and "map_option kt_status (dict_get (ky_store s1) tid) =
      Some (if capture_crashes coll v then kt_status t else settled_status coll v)"
proof -
  obtain db1 r where r: "collect_and_store coll actor w (ky_db s) = (db1, r)" by fastforce
  have ends: "endpoints_of db1 = endpoints_of (ky_db s)"
    using endpoints_collect_and_store [of coll actor w "ky_db s"] by (simp add: r)
  have crash: "r = Capture_crashed \<longleftrightarrow> capture_crashes coll v"
    using result_collect_and_store(1) [of coll actor w "ky_db s"] same_endpoint_outcome(1) [OF assms(2)] by (simp add: r)
  have capt: "(\<exists>b. r = Captured b) \<longleftrightarrow> captured_state coll v \<noteq> None"
    using result_collect_and_store(2) [of coll actor w "ky_db s"] same_endpoint_outcome(2) [OF assms(2)] by (simp add: r)
  have keep: "dict_get (ky_store (fst (run_capture_task coll actor tid (vm_id v) s))) k = dict_get (ky_store s) k" if "k \<noteq> tid" for k
    using that by (cases r) (simp_all add: run_capture_task_def assms(1,3) r mark_capture_completed_def mark_capture_failed_def)
  have own: "map_option kt_status (dict_get (ky_store (fst (run_capture_task coll actor tid (vm_id v) s))) tid) =
      Some (if capture_crashes coll v then kt_status t else settled_status coll v)"
    using crash capt by (cases r)
      (simp_all add: run_capture_task_def assms(1,3) r mark_capture_completed_def mark_capture_failed_def settled_status_def)
  show ?thesis
  proof (rule that [OF _ _ keep own])
    show "run_capture_task coll actor tid (vm_id v) s = (fst (run_capture_task coll actor tid (vm_id v) s), \<not> capture_crashes coll v)"
      using crash by (cases r) (simp_all add: run_capture_task_def assms(1) r)
    show "endpoints_of (ky_db (fst (run_capture_task coll actor tid (vm_id v) s))) = endpoints_of (ky_db s)"
      using ends by (cases r) (simp_all add: run_capture_task_def assms(1) r)
  qed
qed

text \<open>The machines of the run, as the tables know them.\<close>

definition ready :: "(int \<Rightarrow> string) \<Rightarrow> vm list \<Rightarrow> capture_system \<Rightarrow> bool" where
  "ready tid vs s \<longleftrightarrow> (\<forall>v\<in>set vs. (\<exists>w. find_vm (kb_vms (ky_db s)) (vm_id v) = Some w \<and> same_endpoint v w) \<and>
     dict_get (ky_store s) (tid (vm_id v)) = Some (new_capture_task (vm_id v)))"

lemma find_vm_endpoints:
  assumes "endpoints_of db' = endpoints_of db" and "find_vm (kb_vms db) i = Some w"
  shows "\<exists>w'. find_vm (kb_vms db') i = Some w' \<and> same_endpoint w w'"
proof -
  have "map (\<lambda>v. (vm_id v, ssh_host v, ssh_user_of v)) rows' = map (\<lambda>v. (vm_id v, ssh_host v, ssh_user_of v)) rows \<Longrightarrow>
      find_vm rows i = Some w \<Longrightarrow> \<exists>w'. find_vm rows' i = Some w' \<and> same_endpoint w w'" for rows rows'
  proof (induction rows arbitrary: rows')
    case (Cons a rows)
    then obtain a' rows'' where rows': "rows' = a' # rows''" by (cases rows') auto
    show ?case using Cons by (cases "vm_id a = i") (auto simp: rows' find_vm_def same_endpoint_def)
  qed (simp add: find_vm_def)
  then show ?thesis using assms by (simp add: endpoints_of_def)
qed

lemma same_endpoint_trans: "same_endpoint u v \<Longrightarrow> same_endpoint v w \<Longrightarrow> same_endpoint u w"
  by (simp add: same_endpoint_def)

lemma ready_after_task:
  assumes "ready tid (v # vs) s" and "distinct (map (\<lambda>v. tid (vm_id v)) (v # vs))"
  obtains s1 where "run_capture_task coll actor (tid (vm_id v)) (vm_id v) s = (s1, \<not> capture_crashes coll v)"
    and "ready tid vs s1" and "\<And>k. k \<noteq> tid (vm_id v) \<Longrightarrow> dict_get (ky_store s1) k = dict_get (ky_store s) k"
    and "map_option kt_status (dict_get (ky_store s1) (tid (vm_id v))) =
      Some (if capture_crashes coll v then Capture_running else settled_status coll v)"
proof -
  from assms(1) obtain w where w: "find_vm (kb_vms (ky_db s)) (vm_id v) = Some w" "same_endpoint v w"
    and t: "dict_get (ky_store s) (tid (vm_id v)) = Some (new_capture_task (vm_id v))" by (auto simp: ready_def)
  obtain s1 where s1: "run_capture_task coll actor (tid (vm_id v)) (vm_id v) s = (s1, \<not> capture_crashes coll v)"
    and ends: "endpoints_of (ky_db s1) = endpoints_of (ky_db s)"
    and keep: "\<And>k. k \<noteq> tid (vm_id v) \<Longrightarrow> dict_get (ky_store s1) k = dict_get (ky_store s) k"
    and own: "map_option kt_status (dict_get (ky_store s1) (tid (vm_id v))) =
      Some (if capture_crashes coll v then kt_status (new_capture_task (vm_id v)) else settled_status coll v)"
    by (rule run_capture_task_effect [where coll = coll and actor = actor, OF w t]) blast
  have "ready tid vs s1" unfolding ready_def
  proof (intro ballI conjI)
    fix u assume u: "u \<in> set vs"
    with assms(1) obtain x where x: "find_vm (kb_vms (ky_db s)) (vm_id u) = Some x" "same_endpoint u x"
      by (auto simp: ready_def)
    then show "\<exists>w. find_vm (kb_vms (ky_db s1)) (vm_id u) = Some w \<and> same_endpoint u w"
      using find_vm_endpoints [OF ends x(1)] same_endpoint_trans [OF x(2)] by blast
    have "tid (vm_id u) \<noteq> tid (vm_id v)" using assms(2) u by (simp add: image_iff) metis
    then show "dict_get (ky_store s1) (tid (vm_id u)) = Some (new_capture_task (vm_id u))"
      using keep assms(1) u by (simp add: ready_def)
  qed
  with s1 own keep show ?thesis by (intro that [of s1]) (auto simp: new_capture_task_def split: if_splits)
qed

lemma run_background_keeps:
  "ready tid vs s \<Longrightarrow> k \<notin> (\<lambda>v. tid (vm_id v)) ` set vs \<Longrightarrow> distinct (map (\<lambda>v. tid (vm_id v)) vs) \<Longrightarrow>
     dict_get (ky_store (run_background coll actor (map (\<lambda>v. (tid (vm_id v), vm_id v)) vs) s)) k = dict_get (ky_store s) k"
proof (induction vs arbitrary: s)
  case (Cons v vs)
  obtain s1 where s1: "run_capture_task coll actor (tid (vm_id v)) (vm_id v) s = (s1, \<not> capture_crashes coll v)"
    and ready: "ready tid vs s1" and keep: "\<And>k. k \<noteq> tid (vm_id v) \<Longrightarrow> dict_get (ky_store s1) k = dict_get (ky_store s) k"
    by (rule ready_after_task [where coll = coll and actor = actor, OF Cons.prems(1,3)]) blast
  show ?case using Cons.IH [OF ready] Cons.prems keep by (simp add: s1 split: bool.split)
qed simp

lemma run_background_status:
  "ready tid (us @ v # vs) s \<Longrightarrow> distinct (map (\<lambda>v. tid (vm_id v)) (us @ v # vs)) \<Longrightarrow>
     map_option kt_status (dict_get (ky_store (run_background coll actor (map (\<lambda>v. (tid (vm_id v), vm_id v)) (us @ v # vs)) s)) (tid (vm_id v))) =
       Some (if list_ex (capture_crashes coll) (us @ [v]) then Capture_running else settled_status coll v)"
proof (induction us arbitrary: s)
  case Nil
  then have dist: "distinct (map (\<lambda>v. tid (vm_id v)) (v # vs))" and rdy: "ready tid (v # vs) s" by simp_all
  obtain s1 where s1: "run_capture_task coll actor (tid (vm_id v)) (vm_id v) s = (s1, \<not> capture_crashes coll v)"
    and ready: "ready tid vs s1"
    and own: "map_option kt_status (dict_get (ky_store s1) (tid (vm_id v))) =
      Some (if capture_crashes coll v then Capture_running else settled_status coll v)"
    by (rule ready_after_task [where coll = coll and actor = actor, OF rdy dist]) blast
  have "tid (vm_id v) \<notin> (\<lambda>v. tid (vm_id v)) ` set vs" using dist by simp
  from run_background_keeps [OF ready this, of coll actor] dist own show ?case by (cases "capture_crashes coll v") (simp_all add: s1)
next
  case (Cons u us)
  then have dist: "distinct (map (\<lambda>v. tid (vm_id v)) (u # us @ v # vs))" and rdy: "ready tid (u # us @ v # vs) s" by simp_all
  obtain s1 where s1: "run_capture_task coll actor (tid (vm_id u)) (vm_id u) s = (s1, \<not> capture_crashes coll u)"
    and ready: "ready tid (us @ v # vs) s1" and keep: "\<And>k. k \<noteq> tid (vm_id u) \<Longrightarrow> dict_get (ky_store s1) k = dict_get (ky_store s) k"
    by (rule ready_after_task [where coll = coll and actor = actor, OF rdy dist]) blast
  have "dict_get (ky_store s1) (tid (vm_id v)) = Some (new_capture_task (vm_id v))" using ready by (simp add: ready_def)
  moreover have "distinct (map (\<lambda>v. tid (vm_id v)) (us @ v # vs))" using dist by simp
  ultimately show ?case
    using Cons.IH [OF ready] by (cases "list_ex (capture_crashes coll) (us @ [v])"; cases "capture_crashes coll u")
      (simp_all add: s1 new_capture_task_def)
qed


text \<open>C40: After capture-all, the task of a machine with an address is still shown as running for ever if
  its own collection or that of any machine before it ended in an unexpected exception; otherwise it
  is completed exactly when the collection succeeded.
\<close>

theorem capture_all_strands_tasks:
  assumes "wf_rows (kb_vms (ky_db s))" and "inj_on tid (vm_id ` set (kb_vms (ky_db s)))"
    and "filter (\<lambda>v. truthy (ssh_host v)) (kb_vms (ky_db s)) = us @ v # vs"
  shows "map_option kt_status (dict_get (ky_store (capture_all_run coll actor tid s)) (tid (vm_id v))) =
     Some (if list_ex (capture_crashes coll) (us @ [v]) then Capture_running else settled_status coll v)"
proof -
  let ?ws = "us @ v # vs"
  let ?s1 = "fold (\<lambda>v. spawn_capture actor ''bulk'' (tid (vm_id v)) v) ?ws s"
  have sub: "set ?ws \<subseteq> set (kb_vms (ky_db s))" unfolding assms(3) [symmetric] by auto
  have "distinct (map vm_id ?ws)"
    using assms(1) unfolding assms(3) [symmetric] wf_rows_def by (auto simp: distinct_map intro: inj_on_subset)
  moreover have "inj_on tid (set (map vm_id ?ws))"
    by (rule inj_on_subset [OF assms(2)]) (use sub in auto)
  ultimately have dist: "distinct (map (\<lambda>v. tid (vm_id v)) ?ws)"
    using distinct_map [of tid "map vm_id ?ws"] by (simp add: comp_def)
  have ready: "ready tid ?ws ?s1"
    unfolding ready_def
  proof (intro ballI conjI)
    fix u assume u: "u \<in> set ?ws"
    then have "find_vm (kb_vms (ky_db s)) (vm_id u) = Some u" using assms(1) sub by (intro find_vm_unique) auto
    then show "\<exists>w. find_vm (kb_vms (ky_db ?s1)) (vm_id u) = Some w \<and> same_endpoint u w"
      by (simp only: fold_spawn fold_audits) (simp add: same_endpoint_def)
    have "List.find (\<lambda>v. tid (vm_id v) = tid (vm_id u)) (rev ?ws) \<noteq> None"
      unfolding find_None_iff using u by auto
    then obtain w where w: "List.find (\<lambda>v. tid (vm_id v) = tid (vm_id u)) (rev ?ws) = Some w" by blast
    from find_mem [OF this] have mem: "w \<in> set ?ws" "tid (vm_id w) = tid (vm_id u)" by auto
    have "inj_on (\<lambda>v. tid (vm_id v)) (set ?ws)" using dist unfolding distinct_map by blast
    from inj_onD [OF this mem(2) mem(1) u] have "w = u" .
    with w show "dict_get (ky_store ?s1) (tid (vm_id u)) = Some (new_capture_task (vm_id u))"
      unfolding fold_spawn by simp
  qed
  have "capture_all_run coll actor tid s = run_background coll actor (map (\<lambda>v. (tid (vm_id v), vm_id v)) ?ws) ?s1"
    by (simp only: capture_all_run_def capture_all_def Let_def assms(3) prod.case)
  then show ?thesis using run_background_status [OF ready dist] by simp
qed

text \<open>Two machines; the collection of the first is cut short by a refused command.\<close>

definition reached_at :: "int \<Rightarrow> string \<Rightarrow> vm" where
  "reached_at i ip = (mk_vm i ip)\<lparr>vm_ip_address := Some ip\<rparr>"

definition two_machines :: capture_system where
  "two_machines = \<lparr>ky_db = \<lparr>kb_vms = [reached_at 1 ''10.0.0.1'', reached_at 2 ''10.0.0.2''], kb_snapshots = [], kb_audits = [],
     kb_next_id = 1\<rparr>, ky_store = []\<rparr>"

definition odd_collector :: collector where
  "odd_collector host user =
     (if host = ''10.0.0.1'' then Collect_crash else Collected \<lparr>hk_added = False, hk_fingerprint = None\<rparr> empty_state)"

definition one_letter :: "int \<Rightarrow> string" where
  "one_letter i = [char_of (nat (i + 96))]"

lemma capture_all_strands_tasks_witness:
  "map_option kt_status (dict_get (ky_store (capture_all_run odd_collector ''user'' one_letter two_machines)) ''b'') = Some Capture_running"
proof -
  let ?a = "reached_at 1 ''10.0.0.1''" and ?b = "reached_at 2 ''10.0.0.2''"
  have hosts: "ssh_host ?a = Some ''10.0.0.1''" "ssh_host ?b = Some ''10.0.0.2''" by code_simp+
  have inj: "inj_on one_letter (vm_id ` set (kb_vms (ky_db two_machines)))"
    by (simp add: two_machines_def reached_at_def one_letter_def)
  have vms: "filter (\<lambda>v. truthy (ssh_host v)) (kb_vms (ky_db two_machines)) = [?a] @ ?b # []"
    by (simp add: two_machines_def hosts truthy_def)
  have wf: "wf_rows (kb_vms (ky_db two_machines))" by (simp add: two_machines_def wf_rows_def reached_at_def)
  have crash: "list_ex (capture_crashes odd_collector) ([?a] @ [?b])"
    by (simp add: capture_crashes_def machine_outcome_def hosts truthy_def odd_collector_def)
  have "one_letter (vm_id ?b) = ''b''" by code_simp
  then show ?thesis
    using capture_all_strands_tasks [OF wf inj vms, of odd_collector "''user''"] crash by simp
qed

end
