(* ===== verification/Capture_Steps.thy ===== *)
theory Capture_Steps
  imports Capture_Runs
begin

text \<open>
  Captures of one machine may overlap: the scheduler, the background tasks and the endpoint that stores
  a snapshot directly run at the same time. A capture loads the row, collects, reads the highest
  number and inserts the next; the unique index on machine and number refuses the insertion if
  another capture was faster. Validations change the status of machines meanwhile.
\<close>

section \<open>Captures under way\<close>

text \<open>
  \<open>jo_seen\<close> is the status the session has loaded; \<open>jo_number\<close> is set once the number is read. A capture by
  the endpoint, which brings the state with it, writes no audit row.
\<close>

record capture_job =
  jo_vm_id :: int
  jo_actor :: "string option"
  jo_user :: string
  jo_seen :: vm_status
  jo_number :: "(nat \<times> guest_state) option"

record capture_state =
  kc_db :: capture_db
  kc_running :: "capture_job list"

definition status_of_vm :: "capture_db \<Rightarrow> int \<Rightarrow> vm_status option" where
  "status_of_vm db vid = map_option vm_status (find_vm (kb_vms db) vid)"

text \<open>The update writes the new status whatever the row holds by then.\<close>

definition write_status :: "int \<Rightarrow> vm_status \<Rightarrow> capture_db \<Rightarrow> capture_db" where
  "write_status vid st db = db\<lparr>kb_vms := map (\<lambda>v. if vm_id v = vid then v\<lparr>vm_status := st\<rparr> else v) (kb_vms db)\<rparr>"

text \<open>Reading the number: a committed audit row expires the loaded row, so the status is read again.\<close>

definition read_number :: "host_key_event \<Rightarrow> guest_state \<Rightarrow> vm \<Rightarrow> capture_job \<Rightarrow> capture_db \<Rightarrow> capture_job" where
  "read_number ev st v j db =
     j\<lparr>jo_number := Some (next_snapshot_number (jo_vm_id j) db, st),
       jo_seen := (if hk_added ev then vm_status v else jo_seen j)\<rparr>"

definition insert_snapshot :: "capture_job \<Rightarrow> nat \<Rightarrow> guest_state \<Rightarrow> capture_db \<Rightarrow> capture_db" where
  "insert_snapshot j n st db =
     (let (db1, s) = add_snapshot (jo_vm_id j) n (jo_user j) st db;
          db2 = (if jo_seen j = Status_discovered then write_status (jo_vm_id j) Status_baseline_captured db1 else db1)
      in case jo_actor j of None \<Rightarrow> db2
         | Some actor \<Rightarrow> record_capture_audit (Baseline_collected actor (bs_id s) (jo_vm_id j) n (jo_user j)) db2)"

inductive capture_step :: "capture_state \<Rightarrow> capture_state \<Rightarrow> bool" where
  load: "v \<in> set (kb_vms (kc_db s)) \<Longrightarrow> truthy (ssh_host v) \<Longrightarrow>
    capture_step s (s\<lparr>kc_running := kc_running s @ [\<lparr>jo_vm_id = vm_id v, jo_actor = Some actor, jo_user = ssh_user_of v,
      jo_seen = vm_status v, jo_number = None\<rparr>]\<rparr>)"
| fails: "kc_running s = js @ j # js' \<Longrightarrow> jo_number j = None \<Longrightarrow> find_vm (kb_vms (kc_db s)) (jo_vm_id j) = Some v \<Longrightarrow>
    capture_step s (s\<lparr>kc_db := audit_host_key_failure (or_empty (jo_actor j)) v e (kc_db s), kc_running := js @ js'\<rparr>)"
| crashes: "kc_running s = js @ j # js' \<Longrightarrow> jo_number j = None \<Longrightarrow> capture_step s (s\<lparr>kc_running := js @ js'\<rparr>)"
| collected: "kc_running s = js @ j # js' \<Longrightarrow> jo_number j = None \<Longrightarrow> find_vm (kb_vms (kc_db s)) (jo_vm_id j) = Some v \<Longrightarrow>
    capture_step s (s\<lparr>kc_db := audit_host_key_event (or_empty (jo_actor j)) v ev (kc_db s),
      kc_running := js @ read_number ev st v j (kc_db s) # js'\<rparr>)"
| posted: "v \<in> set (kb_vms (kc_db s)) \<Longrightarrow>
    capture_step s (s\<lparr>kc_running := kc_running s @ [\<lparr>jo_vm_id = vm_id v, jo_actor = None, jo_user = user,
      jo_seen = vm_status v, jo_number = Some (next_snapshot_number (vm_id v) (kc_db s), st)\<rparr>]\<rparr>)"
| stored: "kc_running s = js @ j # js' \<Longrightarrow> jo_number j = Some (n, st) \<Longrightarrow> n \<notin> set (numbers_of (jo_vm_id j) (kc_db s)) \<Longrightarrow>
    capture_step s (s\<lparr>kc_running := js @ js', kc_db := insert_snapshot j n st (kc_db s)\<rparr>)"
| refused: "kc_running s = js @ j # js' \<Longrightarrow> jo_number j = Some (n, st) \<Longrightarrow> n \<in> set (numbers_of (jo_vm_id j) (kc_db s)) \<Longrightarrow>
    capture_step s (s\<lparr>kc_running := js @ js'\<rparr>)"
| validated: "st \<noteq> Status_discovered \<Longrightarrow> capture_step s (s\<lparr>kc_db := write_status vid st (kc_db s)\<rparr>)"

inductive capture_steps :: "capture_state \<Rightarrow> capture_state \<Rightarrow> bool" where
  here: "capture_steps s s"
| further: "capture_steps s s' \<Longrightarrow> capture_step s' s'' \<Longrightarrow> capture_steps s s''"

inductive_cases capture_stepE: "capture_step s s'"

text \<open>A new installation: machines, but no snapshot.\<close>

definition fresh_captures :: "vm list \<Rightarrow> capture_state" where
  "fresh_captures vms = \<lparr>kc_db = \<lparr>kb_vms = vms, kb_snapshots = [], kb_audits = [], kb_next_id = 1\<rparr>, kc_running = []\<rparr>"

section \<open>The invariant\<close>

definition numbers_consecutive :: "capture_db \<Rightarrow> bool" where
  "numbers_consecutive db \<longleftrightarrow> (\<forall>vid. numbers_of vid db = [1..<Suc (length (numbers_of vid db))])"

definition ids_fresh :: "capture_db \<Rightarrow> bool" where
  "ids_fresh db \<longleftrightarrow> distinct (map bs_id (kb_snapshots db)) \<and> (\<forall>s\<in>set (kb_snapshots db). bs_id s < kb_next_id db)"

definition collected_audits_backed :: "capture_db \<Rightarrow> bool" where
  "collected_audits_backed db \<longleftrightarrow> (\<forall>actor sid vid n user. Baseline_collected actor sid vid n user \<in> set (kb_audits db) \<longrightarrow>
     (\<exists>s\<in>set (kb_snapshots db). bs_id s = sid \<and> bs_vm_id s = vid \<and> bs_number s = n \<and> bs_ssh_user s = user))"

definition discovered_unseen :: "capture_db \<Rightarrow> bool" where
  "discovered_unseen db \<longleftrightarrow> (\<forall>v\<in>set (kb_vms db). vm_status v = Status_discovered \<longrightarrow> numbers_of (vm_id v) db = [])"

definition job_ok :: "capture_db \<Rightarrow> capture_job \<Rightarrow> bool" where
  "job_ok db j \<longleftrightarrow>
     (\<forall>v\<in>set (kb_vms db). vm_id v = jo_vm_id j \<longrightarrow> vm_status v = Status_discovered \<longrightarrow> jo_seen j = Status_discovered) \<and>
     (\<forall>n st. jo_number j = Some (n, st) \<longrightarrow> 0 < n \<and> n \<le> Suc (length (numbers_of (jo_vm_id j) db)))"

definition captures_ok :: "capture_state \<Rightarrow> bool" where
  "captures_ok s \<longleftrightarrow> wf_rows (kb_vms (kc_db s)) \<and> numbers_consecutive (kc_db s) \<and> ids_fresh (kc_db s) \<and>
     collected_audits_backed (kc_db s) \<and> discovered_unseen (kc_db s) \<and> (\<forall>j\<in>set (kc_running s). job_ok (kc_db s) j)"

lemma next_number_length:
  assumes "numbers_consecutive db"
  shows "next_snapshot_number vid db = Suc (length (numbers_of vid db))"
proof -
  have xs: "fold max [1..<Suc k] 0 = k" for k :: nat by (induction k) simp_all
  show ?thesis
    using assms xs [of "length (numbers_of vid db)"] unfolding next_snapshot_number_def numbers_consecutive_def
    by (metis Suc_eq_plus1)
qed

lemma write_status_simps [simp]:
  "kb_snapshots (write_status vid st db) = kb_snapshots db" "kb_audits (write_status vid st db) = kb_audits db"
  "kb_next_id (write_status vid st db) = kb_next_id db"
  "wf_rows (kb_vms (write_status vid st db)) \<longleftrightarrow> wf_rows (kb_vms db)"
  by (simp_all add: write_status_def wf_rows_def comp_def if_distrib cong: if_cong)

lemma numbers_of_cong: "kb_snapshots db' = kb_snapshots db \<Longrightarrow> numbers_of vid db' = numbers_of vid db"
  by (simp add: numbers_of_def)

lemma write_status_ok:
  assumes "st \<noteq> Status_discovered"
  shows "discovered_unseen db \<Longrightarrow> discovered_unseen (write_status vid st db)"
    and "job_ok db j \<Longrightarrow> job_ok (write_status vid st db) j"
    and "numbers_consecutive (write_status vid st db) \<longleftrightarrow> numbers_consecutive db"
    and "ids_fresh (write_status vid st db) \<longleftrightarrow> ids_fresh db"
    and "collected_audits_backed (write_status vid st db) \<longleftrightarrow> collected_audits_backed db"
proof -
  have n: "numbers_of w (write_status vid st db) = numbers_of w db" for w by (rule numbers_of_cong) simp
  show "discovered_unseen db \<Longrightarrow> discovered_unseen (write_status vid st db)"
    using assms unfolding discovered_unseen_def n by (auto simp: write_status_def)
  show "job_ok db j \<Longrightarrow> job_ok (write_status vid st db) j"
    using assms unfolding job_ok_def n by (auto simp: write_status_def)
qed (simp_all add: numbers_consecutive_def ids_fresh_def collected_audits_backed_def numbers_of_cong [of "write_status vid st db" db])

lemma audit_steps_ok:
  assumes "kb_vms db' = kb_vms db" and "kb_snapshots db' = kb_snapshots db" and "kb_next_id db' = kb_next_id db"
    and "\<And>actor sid vid n user. Baseline_collected actor sid vid n user \<in> set (kb_audits db') \<Longrightarrow>
      Baseline_collected actor sid vid n user \<in> set (kb_audits db)"
  shows "numbers_consecutive db' \<longleftrightarrow> numbers_consecutive db" "ids_fresh db' \<longleftrightarrow> ids_fresh db"
    "discovered_unseen db' \<longleftrightarrow> discovered_unseen db" "job_ok db' j \<longleftrightarrow> job_ok db j"
    "collected_audits_backed db \<Longrightarrow> collected_audits_backed db'"
proof -
  have n: "numbers_of w db' = numbers_of w db" for w by (rule numbers_of_cong) fact
  show "numbers_consecutive db' \<longleftrightarrow> numbers_consecutive db" "ids_fresh db' \<longleftrightarrow> ids_fresh db"
    "discovered_unseen db' \<longleftrightarrow> discovered_unseen db" "job_ok db' j \<longleftrightarrow> job_ok db j"
    by (simp_all add: numbers_consecutive_def ids_fresh_def discovered_unseen_def job_ok_def n assms(1-3))
  show "collected_audits_backed db \<Longrightarrow> collected_audits_backed db'"
    using assms(4) unfolding collected_audits_backed_def assms(2) by blast
qed

lemma host_key_audits_ok:
  "Baseline_collected a sid vid n u \<in> set (kb_audits (audit_host_key_event actor v ev db)) \<Longrightarrow>
     Baseline_collected a sid vid n u \<in> set (kb_audits db)"
  "Baseline_collected a sid vid n u \<in> set (kb_audits (audit_host_key_failure actor v e db)) \<Longrightarrow>
     Baseline_collected a sid vid n u \<in> set (kb_audits db)"
  by (auto simp: audit_host_key_event_def audit_host_key_failure_def split: if_splits)

lemma captures_ok_audit:
  assumes "captures_ok s" and "kb_vms db' = kb_vms (kc_db s)" and "kb_snapshots db' = kb_snapshots (kc_db s)"
    and "kb_next_id db' = kb_next_id (kc_db s)"
    and "\<And>actor sid vid n user. Baseline_collected actor sid vid n user \<in> set (kb_audits db') \<Longrightarrow>
      Baseline_collected actor sid vid n user \<in> set (kb_audits (kc_db s))"
    and "\<forall>j\<in>set js. job_ok (kc_db s) j"
  shows "captures_ok (s\<lparr>kc_db := db', kc_running := js\<rparr>)"
  using assms(1,6) audit_steps_ok [OF assms(2-5)] by (simp add: captures_ok_def assms(2))

lemma captures_ok_key_audits:
  assumes "captures_ok s" and "\<forall>j\<in>set js. job_ok (kc_db s) j"
  shows "captures_ok (s\<lparr>kc_db := audit_host_key_event actor v ev (kc_db s), kc_running := js\<rparr>)"
    and "captures_ok (s\<lparr>kc_db := audit_host_key_failure actor v e (kc_db s), kc_running := js\<rparr>)"
  by (rule captures_ok_audit [OF assms(1) _ _ _ _ assms(2)]; (erule host_key_audits_ok)?; simp)+

section \<open>Storing\<close>

lemma insert_snapshot_simps:
  "numbers_of vid (insert_snapshot j n st db) = numbers_of vid db @ (if vid = jo_vm_id j then [n] else [])"
  "kb_next_id (insert_snapshot j n st db) = kb_next_id db + 1"
  "kb_snapshots (insert_snapshot j n st db) = kb_snapshots db @
     [\<lparr>bs_id = kb_next_id db, bs_vm_id = jo_vm_id j, bs_number = n, bs_ssh_user = jo_user j, bs_raw_data = st\<rparr>]"
  "kb_vms (insert_snapshot j n st db) = (if jo_seen j = Status_discovered
     then kb_vms (write_status (jo_vm_id j) Status_baseline_captured db) else kb_vms db)"
  "kb_audits (insert_snapshot j n st db) = kb_audits db @ (case jo_actor j of None \<Rightarrow> []
     | Some actor \<Rightarrow> [Baseline_collected actor (kb_next_id db) (jo_vm_id j) n (jo_user j)])"
  by (simp_all add: insert_snapshot_def add_snapshot_def Let_def numbers_of_def write_status_def split: option.split)

lemma insert_numbers:
  assumes "numbers_consecutive db" and "job_ok db j" and "jo_number j = Some (n, st)"
    and "n \<notin> set (numbers_of (jo_vm_id j) db)"
  shows "n = Suc (length (numbers_of (jo_vm_id j) db))"
proof -
  let ?k = "length (numbers_of (jo_vm_id j) db)"
  have "numbers_of (jo_vm_id j) db = [1..<Suc ?k]" using assms(1) unfolding numbers_consecutive_def by blast
  then have "set (numbers_of (jo_vm_id j) db) = {1..<Suc ?k}" by (metis set_upt)
  moreover have "0 < n" "n \<le> Suc ?k" using assms(2,3) by (auto simp: job_ok_def)
  ultimately show ?thesis using assms(4) by auto
qed

lemma insert_consecutive:
  assumes "numbers_consecutive db" and "n = Suc (length (numbers_of (jo_vm_id j) db))"
  shows "numbers_consecutive (insert_snapshot j n st db)"
proof -
  have own: "numbers_of vid db = [1..<Suc (length (numbers_of vid db))]" for vid
    using assms(1) unfolding numbers_consecutive_def by blast
  show ?thesis
    unfolding numbers_consecutive_def
  proof
    fix vid
    show "numbers_of vid (insert_snapshot j n st db) = [1..<Suc (length (numbers_of vid (insert_snapshot j n st db)))]"
    proof (cases "vid = jo_vm_id j")
      case True
      have "[1..<Suc (Suc (length (numbers_of vid db)))] = [1..<Suc (length (numbers_of vid db))] @ [Suc (length (numbers_of vid db))]"
        by simp
      then show ?thesis using own [of vid] assms(2) True by (simp only: insert_snapshot_simps if_True refl length_append_singleton)
    qed (use own [of vid] in \<open>simp only: insert_snapshot_simps if_False append_Nil2\<close>)
  qed
qed

lemma insert_job_ok:
  assumes "job_ok db j'"
  shows "job_ok (insert_snapshot j n st db) j'"
proof -
  have "length (numbers_of vid db) \<le> length (numbers_of vid (insert_snapshot j n st db))" for vid
    by (simp add: insert_snapshot_simps)
  moreover have "v \<in> set (kb_vms (insert_snapshot j n st db)) \<Longrightarrow> vm_status v = Status_discovered \<Longrightarrow> v \<in> set (kb_vms db)" for v
    by (auto simp: insert_snapshot_simps write_status_def split: if_splits)
  ultimately show ?thesis
    using assms unfolding job_ok_def by (meson Suc_le_mono le_trans)
qed

lemma insert_discovered:
  assumes "discovered_unseen db" and "job_ok db j"
  shows "discovered_unseen (insert_snapshot j n st db)"
  unfolding discovered_unseen_def
proof (intro ballI impI)
  fix v assume v: "v \<in> set (kb_vms (insert_snapshot j n st db))" "vm_status v = Status_discovered"
  then have row: "v \<in> set (kb_vms db)" by (auto simp: insert_snapshot_simps write_status_def split: if_splits)
  have "vm_id v \<noteq> jo_vm_id j"
  proof
    assume same: "vm_id v = jo_vm_id j"
    then have "jo_seen j = Status_discovered" using assms(2) row v(2) by (simp add: job_ok_def)
    then show False using v same by (auto simp: insert_snapshot_simps write_status_def split: if_splits)
  qed
  then show "numbers_of (vm_id v) (insert_snapshot j n st db) = []"
    using assms(1) row v(2) by (simp add: discovered_unseen_def insert_snapshot_simps)
qed

lemma insert_ok:
  assumes "captures_ok s" and "kc_running s = js @ j # js'" and "jo_number j = Some (n, st)"
    and "n \<notin> set (numbers_of (jo_vm_id j) (kc_db s))"
  shows "captures_ok (s\<lparr>kc_running := js @ js', kc_db := insert_snapshot j n st (kc_db s)\<rparr>)"
proof -
  have j: "job_ok (kc_db s) j" using assms(1,2) by (simp add: captures_ok_def)
  have n: "n = Suc (length (numbers_of (jo_vm_id j) (kc_db s)))"
    using assms(1,3,4) j by (intro insert_numbers) (simp_all add: captures_ok_def)
  have "ids_fresh (insert_snapshot j n st (kc_db s))"
    using assms(1) by (force simp: captures_ok_def ids_fresh_def insert_snapshot_simps)
  moreover have "collected_audits_backed (insert_snapshot j n st (kc_db s))"
    using assms(1) by (auto simp: captures_ok_def collected_audits_backed_def insert_snapshot_simps split: option.splits)
  moreover have "wf_rows (kb_vms (insert_snapshot j n st (kc_db s)))"
    using assms(1) by (simp add: captures_ok_def insert_snapshot_simps(4))
  ultimately show ?thesis
    using assms(1,2) insert_consecutive [OF _ n] insert_discovered [OF _ j] insert_job_ok
    by (simp add: captures_ok_def)
qed

section \<open>Every reachable state\<close>

lemma captures_ok_job:
  assumes "captures_ok s" and "\<And>j. j \<in> set js \<Longrightarrow> job_ok (kc_db s) j"
  shows "captures_ok (s\<lparr>kc_running := js\<rparr>)"
  using assms by (simp add: captures_ok_def)

lemma row_of_id:
  assumes "wf_rows rows" and "v \<in> set rows" and "w \<in> set rows" and "vm_id v = vm_id w"
  shows "v = w"
  using assms by (metis find_vm_unique option.inject)

lemma step_keeps_captures_ok:
  assumes "capture_step s s'" and "captures_ok s"
  shows "captures_ok s'"
proof -
  have row: "vm_status w = vm_status v" if "v \<in> set (kb_vms (kc_db s))" "w \<in> set (kb_vms (kc_db s))" "vm_id w = vm_id v" for v w
    using row_of_id [OF _ that(2,1,3)] assms(2) by (simp add: captures_ok_def)
  have jobs_ok: "\<forall>j\<in>set js. job_ok (kc_db s) j" if "set js \<subseteq> set (kc_running s)" for js
    using assms(2) that by (auto simp: captures_ok_def)
  show ?thesis using assms(1)
proof (cases rule: capture_step.cases)
  case (load v actor)
  show ?thesis unfolding load(1)
  proof (rule captures_ok_job [OF assms(2)])
    fix j assume "j \<in> set (kc_running s @ [\<lparr>jo_vm_id = vm_id v, jo_actor = Some actor, jo_user = ssh_user_of v, jo_seen = vm_status v, jo_number = None\<rparr>])"
    then show "job_ok (kc_db s) j"
      using assms(2) row [OF load(2)] by (auto simp: captures_ok_def job_ok_def)
  qed
next
  case (fails js j js' v e)
  have "\<forall>j\<in>set (js @ js'). job_ok (kc_db s) j" using jobs_ok [of js] jobs_ok [of js'] fails(2) by auto
  from captures_ok_key_audits(2) [OF assms(2) this] show ?thesis unfolding fails(1) by simp
next
  case (crashes js j js')
  show ?thesis unfolding crashes(1)
    by (rule captures_ok_job [OF assms(2)]) (use assms(2) crashes(2) in \<open>auto simp: captures_ok_def\<close>)
next
  case (collected js j js' v ev st)
  have v: "v \<in> set (kb_vms (kc_db s))" "vm_id v = jo_vm_id j" using find_vm_Some [OF collected(4)] by auto
  have "job_ok (kc_db s) (read_number ev st v j (kc_db s))"
    unfolding job_ok_def
  proof (intro conjI ballI impI allI)
    fix w assume w: "w \<in> set (kb_vms (kc_db s))" "vm_id w = jo_vm_id (read_number ev st v j (kc_db s))" "vm_status w = Status_discovered"
    have "vm_id w = vm_id v" using w(2) v(2) by (simp add: read_number_def)
    from row [OF v(1) w(1) this] have "vm_status v = Status_discovered" using w(3) by simp
    with v show "jo_seen (read_number ev st v j (kc_db s)) = Status_discovered"
      using assms(2) collected(2) v by (auto simp: captures_ok_def job_ok_def read_number_def)
  qed (use assms(2) next_number_length in \<open>auto simp: captures_ok_def read_number_def\<close>)
  moreover have "\<forall>j\<in>set js. job_ok (kc_db s) j" "\<forall>j\<in>set js'. job_ok (kc_db s) j"
    using jobs_ok [of js] jobs_ok [of js'] collected(2) by auto
  ultimately have "\<forall>j\<in>set (js @ read_number ev st v j (kc_db s) # js'). job_ok (kc_db s) j" by auto
  from captures_ok_key_audits(1) [OF assms(2) this] show ?thesis unfolding collected(1) .
next
  case (posted v user st)
  show ?thesis unfolding posted(1)
  proof (rule captures_ok_job [OF assms(2)])
    fix j assume "j \<in> set (kc_running s @ [\<lparr>jo_vm_id = vm_id v, jo_actor = None, jo_user = user,
      jo_seen = vm_status v, jo_number = Some (next_snapshot_number (vm_id v) (kc_db s), st)\<rparr>])"
    then show "job_ok (kc_db s) j"
      using assms(2) row [OF posted(2)] next_number_length by (auto simp: captures_ok_def job_ok_def)
  qed
next
  case (stored js j js' n st)
  show ?thesis unfolding stored(1) by (rule insert_ok [OF assms(2) stored(2-4)])
next
  case (refused js j js' n st)
  show ?thesis unfolding refused(1)
    by (rule captures_ok_job [OF assms(2)]) (use assms(2) refused(2) in \<open>auto simp: captures_ok_def\<close>)
next
  case (validated st vid)
  then show ?thesis using assms(2) write_status_ok [OF validated(2)] by (simp add: captures_ok_def)
qed
qed

lemma steps_keep_captures_ok:
  assumes "capture_steps s s'" and "captures_ok s"
  shows "captures_ok s'"
  using assms by (induction rule: capture_steps.induct) (auto intro: step_keeps_captures_ok)

lemma fresh_captures_ok: "wf_rows vms \<Longrightarrow> captures_ok (fresh_captures vms)"
  by (simp add: fresh_captures_def captures_ok_def numbers_consecutive_def numbers_of_def ids_fresh_def
      collected_audits_backed_def discovered_unseen_def)

text \<open>C38: However captures of the scheduler, of background tasks and of the endpoint overlap, the snapshots
  of every machine are numbered 1, 2, 3 and so on in the order they were stored, every audit row of a
  capture has its snapshot, and a machine with a snapshot is no longer merely discovered.
\<close>

theorem overlapping_captures_consistent:
  assumes "wf_rows vms" and "capture_steps (fresh_captures vms) s"
  shows "numbers_of vid (kc_db s) = [1..<Suc (length (numbers_of vid (kc_db s)))] \<and>
    collected_audits_backed (kc_db s) \<and> ids_fresh (kc_db s) \<and> discovered_unseen (kc_db s)"
proof -
  have "captures_ok s" by (rule steps_keep_captures_ok [OF assms(2) fresh_captures_ok [OF assms(1)]])
  then show ?thesis unfolding captures_ok_def numbers_consecutive_def by blast
qed

section \<open>Examples\<close>

text \<open>Two captures of one machine: the first is stored, then the second finds its number taken.\<close>

definition racing :: "nat \<Rightarrow> capture_job" where
  "racing n = \<lparr>jo_vm_id = 1, jo_actor = Some ''user'', jo_user = ''virtvalidate'', jo_seen = Status_discovered,
     jo_number = (if n = 0 then None else Some (n, empty_state))\<rparr>"

definition quiet_event :: host_key_event where "quiet_event = \<lparr>hk_added = False, hk_fingerprint = None\<rparr>"

definition lone :: vm where "lone = reached_at 1 ''10.0.0.1''"

definition first_stored :: capture_db where
  "first_stored = insert_snapshot (racing 1) 1 empty_state (kc_db (fresh_captures [lone]))"

lemma lone_simps: "truthy (ssh_host lone)" "vm_id lone = 1" "ssh_user_of lone = ''virtvalidate''" "vm_status lone = Status_discovered"
  by code_simp+

lemma racing_steps:
  "capture_steps (fresh_captures [lone]) \<lparr>kc_db = first_stored, kc_running = [racing 1]\<rparr>"
proof -
  let ?db = "kc_db (fresh_captures [lone])"
  let ?s = "\<lambda>js. \<lparr>kc_db = ?db, kc_running = js\<rparr>"
  have one: "capture_step (?s js) (?s (js @ [racing 0]))" for js
    using load [of lone "?s js" "''user''"] by (simp add: lone_simps racing_def fresh_captures_def)
  have read: "read_number quiet_event empty_state lone (racing 0) ?db = racing 1"
    by (simp add: read_number_def racing_def quiet_event_def fresh_captures_def next_snapshot_number_def numbers_of_def)
  have coll: "capture_step (?s (js @ racing 0 # js')) (?s (js @ racing 1 # js'))" for js js'
    using collected [of "?s (js @ racing 0 # js')" js "racing 0" js' lone quiet_event empty_state] read
    by (simp add: racing_def fresh_captures_def find_vm_def lone_simps audit_host_key_event_def quiet_event_def)
  have stored: "capture_step (?s [racing 1, racing 1]) \<lparr>kc_db = first_stored, kc_running = [racing 1]\<rparr>"
    using stored [of "?s [racing 1, racing 1]" "[]" "racing 1" "[racing 1]" 1 empty_state]
    by (simp add: racing_def first_stored_def fresh_captures_def numbers_of_def)
  have "capture_steps (fresh_captures [lone]) (?s [])" by (simp add: fresh_captures_def capture_steps.here)
  then have "capture_steps (fresh_captures [lone]) (?s [racing 0, racing 0])"
    using one [of "[]"] one [of "[racing 0]"] by (auto intro: capture_steps.further)
  then have "capture_steps (fresh_captures [lone]) (?s [racing 1, racing 1])"
    using coll [of "[]" "[racing 0]"] coll [of "[racing 1]" "[]"] by (auto intro: capture_steps.further)
  from capture_steps.further [OF this stored] show ?thesis .
qed

lemma overlapping_captures_consistent_witness:
  "numbers_of 1 first_stored = [1..<Suc (length (numbers_of 1 first_stored))] \<and>
    collected_audits_backed first_stored \<and> ids_fresh first_stored \<and> discovered_unseen first_stored"
  using overlapping_captures_consistent [OF _ racing_steps, of 1] by (simp add: wf_rows_def)

text \<open>
  The slower capture can only fail: its insertion is refused. And if the machine is validated in
  between and the slower capture got a later number, its stale view of the status undoes the
  validation.
\<close>

lemma slower_capture_refused:
  "jo_number (racing 1) = Some (n, st) \<Longrightarrow> n \<in> set (numbers_of (jo_vm_id (racing 1)) first_stored)"
  by (simp add: racing_def first_stored_def fresh_captures_def insert_snapshot_simps)

lemma stale_status_undoes_validation:
  assumes "status_of_vm db 1 = Some Status_validated"
  shows "status_of_vm (insert_snapshot (racing (Suc n)) (Suc n) st db) 1 = Some Status_baseline_captured"
proof -
  have "find_vm (map (\<lambda>v. if vm_id v = 1 then v\<lparr>vm_status := s\<rparr> else v) rows) 1 =
      map_option (\<lambda>v. v\<lparr>vm_status := s\<rparr>) (find_vm rows 1)" for rows s
    by (induction rows) (auto simp: find_vm_def)
  then show ?thesis
    using assms by (auto simp: status_of_vm_def insert_snapshot_simps racing_def write_status_def)
qed

end
