(* ===== verification/Bulk_Capture.thy ===== *)
theory Bulk_Capture
  imports Capture_Runs
begin

text \<open>
  Capturing a selected fleet (\<open>app/core/bulk_capture.py\<close>, \<open>capture_bulk\<close> of \<open>app/api/snapshots.py\<close>): the selection,
  the workers behind a global semaphore and one semaphore for each vCenter, and the counters of the
  task entry. Whether the capture of a machine raises is a parameter; times and texts are left out.
\<close>

section \<open>The selection\<close>

text \<open>\<open>ILIKE\<close>: a percent sign matches any text, an underscore any character, a backslash escapes.\<close>

fun like_match :: "string \<Rightarrow> string \<Rightarrow> bool" where
  "like_match [] s = (s = [])"
| "like_match (p # ps) s =
     (if p = CHR ''%'' then like_match ps s \<or> (case s of [] \<Rightarrow> False | c # t \<Rightarrow> like_match (p # ps) t)
      else if p = CHR 0x5C then (case ps of [] \<Rightarrow> False
         | q # qs \<Rightarrow> (case s of [] \<Rightarrow> False | c # t \<Rightarrow> c = q \<and> like_match qs t))
      else (case s of [] \<Rightarrow> False | c # t \<Rightarrow> (p = CHR ''_'' \<or> c = p) \<and> like_match ps t))"

definition ilike :: "string \<Rightarrow> string \<Rightarrow> bool" where
  "ilike name pattern \<longleftrightarrow> like_match (str_lower pattern) (str_lower name)"

definition status_name :: "vm_status \<Rightarrow> string" where
  "status_name st = (case st of Status_discovered \<Rightarrow> ''discovered'' | Status_baseline_captured \<Rightarrow> ''baseline_captured''
     | Status_migrated \<Rightarrow> ''migrated'' | Status_validated \<Rightarrow> ''validated'' | Status_failed \<Rightarrow> ''failed'')"

definition STATUSES :: "vm_status list" where
  "STATUSES = [Status_discovered, Status_baseline_captured, Status_migrated, Status_validated, Status_failed]"

record capture_scope =
  sk_vm_ids :: "int list"
  sk_source_vcenter_id :: "int option"
  sk_environment :: "string option"
  sk_application_hint :: "string option"
  sk_only_status :: "string option"
  sk_name_contains :: "string option"
  sk_max_parallel :: int
  sk_per_vcenter_parallel :: int

definition MAX_VMS_PER_BULK_ACTION :: nat where "MAX_VMS_PER_BULK_ACTION = 10000"

definition scope_valid :: "capture_scope \<Rightarrow> bool" where
  "scope_valid sc \<longleftrightarrow> length (sk_vm_ids sc) \<le> MAX_VMS_PER_BULK_ACTION \<and>
     1 \<le> sk_max_parallel sc \<and> sk_max_parallel sc \<le> 100 \<and> 1 \<le> sk_per_vcenter_parallel sc \<and> sk_per_vcenter_parallel sc \<le> 50"

datatype capture_scope_error = Scope_invalid | Unknown_status | Zero_machines | Nothing_capturable

text \<open>The database refuses a text that names no status.\<close>

definition resolve_capture_scope :: "vm list \<Rightarrow> capture_scope \<Rightarrow> capture_scope_error + vm list" where
  "resolve_capture_scope rows sc =
     (if sk_vm_ids sc \<noteq> [] then Inr (sort_key vm_id (select_vms rows (sk_vm_ids sc)))
      else if truthy (sk_only_status sc) \<and> or_empty (sk_only_status sc) \<notin> set (map status_name STATUSES) then Inl Unknown_status
      else Inr (sort_key vm_id (filter (\<lambda>v.
        (sk_source_vcenter_id sc \<noteq> None \<longrightarrow> vm_source_vcenter_id v = sk_source_vcenter_id sc) \<and>
        (truthy (sk_environment sc) \<longrightarrow> vm_environment v = sk_environment sc) \<and>
        (truthy (sk_application_hint sc) \<longrightarrow> vm_application_hint v = sk_application_hint sc) \<and>
        (truthy (sk_only_status sc) \<longrightarrow> status_name (vm_status v) = or_empty (sk_only_status sc)) \<and>
        (truthy (sk_name_contains sc) \<longrightarrow> ilike (vm_name v) (''%'' @ or_empty (sk_name_contains sc) @ ''%''))) rows)))"

section \<open>The task entry\<close>

datatype vm_capture_status = Vm_queued | Vm_capturing | Vm_captured | Vm_not_captured

record bulk_capture_task =
  bt_status :: capture_status
  bt_total :: nat
  bt_completed :: nat
  bt_failed :: nat
  bt_current_vm :: "string option"
  bt_per_vm :: "(int \<times> vm_capture_status) list"
  bt_max_parallel :: int
  bt_per_vcenter_parallel :: int

definition new_bulk_capture :: "nat \<Rightarrow> int \<Rightarrow> int \<Rightarrow> bulk_capture_task" where
  "new_bulk_capture n g p = \<lparr>bt_status = Capture_running, bt_total = n, bt_completed = 0, bt_failed = 0,
     bt_current_vm = None, bt_per_vm = [], bt_max_parallel = g, bt_per_vcenter_parallel = p\<rparr>"

definition set_vm_status :: "vm \<Rightarrow> vm_capture_status \<Rightarrow> bulk_capture_task \<Rightarrow> bulk_capture_task" where
  "set_vm_status v st t =
     t\<lparr>bt_per_vm := dict_set (vm_id v) st (bt_per_vm t),
       bt_current_vm := (if st = Vm_capturing then Some (vm_name v) else bt_current_vm t),
       bt_completed := bt_completed t + (if st = Vm_captured then 1 else 0),
       bt_failed := bt_failed t + (if st = Vm_not_captured then 1 else 0)\<rparr>"

definition finalize_bulk :: "capture_status \<Rightarrow> bulk_capture_task \<Rightarrow> bulk_capture_task" where
  "finalize_bulk st t = t\<lparr>bt_status := st, bt_current_vm := None\<rparr>"

text \<open>The endpoint: the new entry, the machines to capture and the ones left out for want of an address.\<close>

definition capture_bulk ::
  "string \<Rightarrow> string \<Rightarrow> capture_scope \<Rightarrow> capture_db \<Rightarrow> capture_scope_error + (capture_db \<times> bulk_capture_task \<times> int list \<times> int list)" where
  "capture_bulk actor tid sc db =
     (if \<not> scope_valid sc then Inl Scope_invalid
      else (case resolve_capture_scope (kb_vms db) sc of
          Inl e \<Rightarrow> Inl e
        | Inr matched \<Rightarrow>
            (let capturable = filter (\<lambda>v. truthy (ssh_host v)) matched; skipped = filter (\<lambda>v. \<not> truthy (ssh_host v)) matched
             in if matched = [] then Inl Zero_machines
                else if capturable = [] then Inl Nothing_capturable
                else Inr (record_capture_audit (Bulk_triggered actor tid (length capturable) (length skipped)) db,
                       new_bulk_capture (length capturable) (sk_max_parallel sc) (sk_per_vcenter_parallel sc),
                       map vm_id capturable, map vm_id skipped))))"

section \<open>The workers\<close>

text \<open>
  A worker waits for the global semaphore in the order of the list, then, holding it, for the semaphore
  of its vCenter, then captures.
\<close>

record capture_batch =
  cb_waiting :: "vm list"
  cb_holding :: "vm list"
  cb_capturing :: "vm list"
  cb_task :: bulk_capture_task

definition global_slots :: "capture_batch \<Rightarrow> nat" where
  "global_slots s = nat (max 1 (bt_max_parallel (cb_task s)))"

definition vcenter_slots :: "capture_batch \<Rightarrow> nat" where
  "vcenter_slots s = nat (max 1 (bt_per_vcenter_parallel (cb_task s)))"

definition capturing_from :: "int \<Rightarrow> capture_batch \<Rightarrow> nat" where
  "capturing_from vc s = length (filter (\<lambda>v. vm_source_vcenter_id v = Some vc) (cb_capturing s))"

inductive bulk_step :: "(vm \<Rightarrow> bool) \<Rightarrow> capture_batch \<Rightarrow> capture_batch \<Rightarrow> bool" for ok where
  admit: "cb_waiting s = v # vs \<Longrightarrow> length (cb_holding s) + length (cb_capturing s) < global_slots s \<Longrightarrow>
    bulk_step ok s (s\<lparr>cb_waiting := vs, cb_holding := cb_holding s @ [v]\<rparr>)"
| start: "cb_holding s = hs @ v # hs' \<Longrightarrow> (\<And>vc. vm_source_vcenter_id v = Some vc \<Longrightarrow> capturing_from vc s < vcenter_slots s) \<Longrightarrow>
    bulk_step ok s (s\<lparr>cb_holding := hs @ hs', cb_capturing := cb_capturing s @ [v],
      cb_task := set_vm_status v Vm_capturing (cb_task s)\<rparr>)"
| finish: "cb_capturing s = cs @ v # cs' \<Longrightarrow>
    bulk_step ok s (s\<lparr>cb_capturing := cs @ cs',
      cb_task := set_vm_status v (if ok v then Vm_captured else Vm_not_captured) (cb_task s)\<rparr>)"

inductive bulk_steps :: "(vm \<Rightarrow> bool) \<Rightarrow> capture_batch \<Rightarrow> capture_batch \<Rightarrow> bool" for ok where
  here: "bulk_steps ok s s"
| further: "bulk_steps ok s s' \<Longrightarrow> bulk_step ok s' s'' \<Longrightarrow> bulk_steps ok s s''"

text \<open>The background run: the machines are loaded again by id and queued.\<close>

definition bulk_start :: "vm list \<Rightarrow> int list \<Rightarrow> bulk_capture_task \<Rightarrow> capture_batch" where
  "bulk_start rows ids t =
     (let vms = select_vms rows ids
      in \<lparr>cb_waiting = vms, cb_holding = [], cb_capturing = [], cb_task = fold (\<lambda>v. set_vm_status v Vm_queued) vms t\<rparr>)"

definition bulk_idle :: "capture_batch \<Rightarrow> bool" where
  "bulk_idle s \<longleftrightarrow> cb_waiting s = [] \<and> cb_holding s = [] \<and> cb_capturing s = []"

text \<open>What the run leaves: the final entry and one audit row.\<close>

definition bulk_finish :: "string \<Rightarrow> string \<Rightarrow> capture_batch \<Rightarrow> capture_db \<Rightarrow> bulk_capture_task \<times> capture_db" where
  "bulk_finish actor tid s db =
     (let t = finalize_bulk Capture_completed (cb_task s)
      in (t, record_capture_audit (Bulk_completed actor tid (bt_total t) (bt_completed t) (bt_failed t)) db))"

section \<open>Invariants\<close>

lemma set_vm_status_simps [simp]:
  "bt_max_parallel (set_vm_status v st t) = bt_max_parallel t"
  "bt_per_vcenter_parallel (set_vm_status v st t) = bt_per_vcenter_parallel t"
  "bt_total (set_vm_status v st t) = bt_total t"
  by (simp_all add: set_vm_status_def)

definition within_slots :: "capture_batch \<Rightarrow> bool" where
  "within_slots s \<longleftrightarrow> length (cb_holding s) + length (cb_capturing s) \<le> global_slots s \<and>
     (\<forall>vc. capturing_from vc s \<le> vcenter_slots s)"

lemma step_within_slots: "bulk_step ok s s' \<Longrightarrow> within_slots s \<Longrightarrow> within_slots s'"
proof (induction rule: bulk_step.induct)
  case (start s hs v hs')
  then show ?case
    by (auto simp: within_slots_def global_slots_def vcenter_slots_def capturing_from_def Suc_le_eq)
next
  case (finish s cs v cs')
  have "capturing_from vc (s\<lparr>cb_capturing := cs @ cs', cb_task := t\<rparr>) \<le> capturing_from vc s" for vc t
    using finish(1) by (simp add: capturing_from_def)
  then show ?case
    using finish by (auto simp: within_slots_def global_slots_def vcenter_slots_def intro: le_trans)
qed (simp add: within_slots_def global_slots_def vcenter_slots_def capturing_from_def)

lemma step_limits:
  "bulk_step ok s s' \<Longrightarrow> bt_max_parallel (cb_task s') = bt_max_parallel (cb_task s) \<and>
     bt_per_vcenter_parallel (cb_task s') = bt_per_vcenter_parallel (cb_task s) \<and> bt_total (cb_task s') = bt_total (cb_task s)"
  by (induction rule: bulk_step.induct) simp_all

text \<open>Every machine of the run is in one place, and the counters say how many have finished.\<close>

definition pending :: "capture_batch \<Rightarrow> vm multiset" where
  "pending s = mset (cb_waiting s) + mset (cb_holding s) + mset (cb_capturing s)"

definition outcome_status :: "(vm \<Rightarrow> bool) \<Rightarrow> vm \<Rightarrow> vm_capture_status" where
  "outcome_status ok v = (if ok v then Vm_captured else Vm_not_captured)"

definition counts_ok :: "(vm \<Rightarrow> bool) \<Rightarrow> vm list \<Rightarrow> capture_batch \<Rightarrow> bool" where
  "counts_ok ok vms s \<longleftrightarrow>
     pending s \<subseteq># mset vms \<and>
     bt_completed (cb_task s) + size (filter_mset ok (pending s)) = length (filter ok vms) \<and>
     bt_failed (cb_task s) + size (filter_mset (\<lambda>v. \<not> ok v) (pending s)) = length (filter (\<lambda>v. \<not> ok v) vms) \<and>
     (\<forall>v\<in>set vms. v \<notin># pending s \<longrightarrow> dict_get (bt_per_vm (cb_task s)) (vm_id v) = Some (outcome_status ok v))"

lemma set_vm_status_counts [simp]:
  "bt_completed (set_vm_status v st t) = bt_completed t + (if st = Vm_captured then 1 else 0)"
  "bt_failed (set_vm_status v st t) = bt_failed t + (if st = Vm_not_captured then 1 else 0)"
  "dict_get (bt_per_vm (set_vm_status v st t)) i = (if vm_id v = i then Some st else dict_get (bt_per_vm t) i)"
  by (simp_all add: set_vm_status_def)

lemma step_counts:
  assumes "bulk_step ok s s'" and "wf_rows vms" and "counts_ok ok vms s"
  shows "counts_ok ok vms s'"
proof -
  have inj: "v = w" if "v \<in> set vms" "w \<in> set vms" "vm_id v = vm_id w" for v w
    using that assms(2) by (metis find_vm_unique option.inject)
  have mem: "v \<in> set vms" if "v \<in># pending s" for v
    using that assms(3) by (auto simp: counts_ok_def dest: mset_subset_eqD)
  from assms(1) show ?thesis
  proof (cases rule: bulk_step.cases)
    case (admit v vs)
    have "pending s' = pending s" by (simp add: admit pending_def)
    then show ?thesis using assms(3) admit(1) by (simp add: counts_ok_def)
  next
    case (start hs v hs')
    have same: "pending s' = pending s" by (simp add: start pending_def)
    have "v \<in># pending s" by (simp add: start(2) pending_def)
    then have other: "vm_id v \<noteq> vm_id w" if "w \<in> set vms" "w \<notin># pending s" for w using that inj mem by metis
    have "dict_get (bt_per_vm (cb_task s')) (vm_id w) = Some (outcome_status ok w)" if "w \<in> set vms" "w \<notin># pending s" for w
      using assms(3) other [OF that] that by (simp add: counts_ok_def start(1))
    moreover have "bt_completed (cb_task s') = bt_completed (cb_task s)" "bt_failed (cb_task s') = bt_failed (cb_task s)"
      by (simp_all add: start(1))
    ultimately show ?thesis using assms(3) same by (simp add: counts_ok_def)
  next
    case (finish cs v cs')
    have split: "pending s = add_mset v (pending s')" by (simp add: finish pending_def)
    have v: "v \<in> set vms" using mem by (simp add: split)
    have per_vm: "dict_get (bt_per_vm (cb_task s')) (vm_id w) = Some (outcome_status ok w)" if "w \<in> set vms" "w \<notin># pending s'" for w
    proof (cases "w = v")
      case False
      then have "vm_id w \<noteq> vm_id v" using inj [OF that(1) v] by blast
      moreover have "w \<notin># pending s" using that(2) False by (simp add: split)
      ultimately show ?thesis using assms(3) that(1) by (simp add: counts_ok_def finish(1))
    qed (simp add: finish(1) outcome_status_def)
    have "pending s' \<subseteq># mset vms" using assms(3) split by (metis counts_ok_def mset_subset_eq_insertD subset_mset.less_imp_le)
    moreover have "bt_completed (cb_task s') + size (filter_mset ok (pending s')) = length (filter ok vms)"
      using assms(3) by (auto simp: counts_ok_def split finish(1))
    moreover have "bt_failed (cb_task s') + size (filter_mset (\<lambda>v. \<not> ok v) (pending s')) = length (filter (\<lambda>v. \<not> ok v) vms)"
      using assms(3) by (auto simp: counts_ok_def split finish(1))
    ultimately show ?thesis using per_vm by (simp add: counts_ok_def)
  qed
qed

definition bulk_work :: "capture_batch \<Rightarrow> nat" where
  "bulk_work s = 3 * length (cb_waiting s) + 2 * length (cb_holding s) + length (cb_capturing s)"

lemma bulk_step_work: "bulk_step ok s s' \<Longrightarrow> bulk_work s' < bulk_work s"
  by (induction rule: bulk_step.induct) (simp_all add: bulk_work_def)

lemma step_exists:
  assumes "\<not> bulk_idle s" and "within_slots s"
  shows "\<exists>s'. bulk_step ok s s'"
proof (cases "cb_capturing s")
  case (Cons v cs)
  then have "cb_capturing s = [] @ v # cs" by simp
  from finish [OF this, of ok] show ?thesis by blast
next
  case Nil
  have slots: "0 < vcenter_slots s" "0 < global_slots s" by (simp_all add: vcenter_slots_def global_slots_def)
  show ?thesis
  proof (cases "cb_holding s")
    case (Cons v hs)
    then show ?thesis using start [of s "[]" v hs ok] Nil slots by (auto simp: capturing_from_def)
  next
    case holding: Nil
    then obtain v vs where "cb_waiting s = v # vs" using assms(1) Nil by (cases "cb_waiting s") (auto simp: bulk_idle_def)
    then show ?thesis using admit [of s v vs ok] Nil holding slots by auto
  qed
qed

lemma start_ok:
  assumes "wf_rows rows"
  shows "within_slots (bulk_start rows ids (new_bulk_capture n g p))"
    and "counts_ok ok (select_vms rows ids) (bulk_start rows ids (new_bulk_capture n g p))"
proof -
  have queued: "bt_completed (fold (\<lambda>v. set_vm_status v Vm_queued) vs t) = bt_completed t \<and>
      bt_failed (fold (\<lambda>v. set_vm_status v Vm_queued) vs t) = bt_failed t" for vs t
    by (induction vs arbitrary: t) simp_all
  show "within_slots (bulk_start rows ids (new_bulk_capture n g p))"
    by (simp add: within_slots_def bulk_start_def Let_def capturing_from_def)
  show "counts_ok ok (select_vms rows ids) (bulk_start rows ids (new_bulk_capture n g p))"
    by (simp add: counts_ok_def bulk_start_def Let_def pending_def queued new_bulk_capture_def flip: mset_filter)
qed

lemma steps_ok:
  assumes "bulk_steps ok s s'" and "wf_rows vms" and "within_slots s" and "counts_ok ok vms s"
  shows "within_slots s' \<and> counts_ok ok vms s' \<and> bulk_work s' \<le> bulk_work s \<and>
    bt_max_parallel (cb_task s') = bt_max_parallel (cb_task s) \<and>
    bt_per_vcenter_parallel (cb_task s') = bt_per_vcenter_parallel (cb_task s)"
  using assms
proof (induction rule: bulk_steps.induct)
  case (further s s' s'')
  then show ?case
    using step_within_slots [OF further.hyps(2)] step_counts [OF further.hyps(2)] bulk_step_work [OF further.hyps(2)]
      step_limits [OF further.hyps(2)] by auto
qed simp

section \<open>From the request to the final entry\<close>

lemma capture_bulk_selects:
  assumes "capture_bulk actor tid sc db = Inr (db', t, ids, skipped)" and "wf_rows (kb_vms db)"
  shows "t = new_bulk_capture (length ids) (sk_max_parallel sc) (sk_per_vcenter_parallel sc)"
    and "scope_valid sc" and "length (select_vms (kb_vms db) ids) = length ids"
proof -
  obtain matched where matched: "resolve_capture_scope (kb_vms db) sc = Inr matched"
    and ids: "ids = map vm_id (filter (\<lambda>v. truthy (ssh_host v)) matched)"
    and rest: "t = new_bulk_capture (length ids) (sk_max_parallel sc) (sk_per_vcenter_parallel sc)" "scope_valid sc"
    using assms(1) by (auto simp: capture_bulk_def Let_def split: if_splits sum.splits)
  show "t = new_bulk_capture (length ids) (sk_max_parallel sc) (sk_per_vcenter_parallel sc)" "scope_valid sc" by fact+
  obtain p where p: "matched = sort_key vm_id (filter p (kb_vms db))"
    using matched by (auto simp: resolve_capture_scope_def select_vms_def split: if_splits)
  have sorted: "distinct (map vm_id (sort_key vm_id ys)) \<longleftrightarrow> distinct (map vm_id ys)" for ys
    by (rule mset_eq_imp_distinct_iff) simp
  have "distinct (map vm_id matched)" unfolding p sorted using assms(2) by (simp add: wf_rows_def distinct_map_filter)
  then have dist: "distinct ids" unfolding ids by (rule distinct_map_filter)
  have "distinct (map vm_id (select_vms (kb_vms db) ids))"
    using assms(2) by (simp add: wf_rows_def select_vms_def distinct_map_filter)
  moreover have "set (map vm_id (select_vms (kb_vms db) ids)) = set ids"
    unfolding ids p by (auto simp: select_vms_def)
  ultimately show "length (select_vms (kb_vms db) ids) = length ids"
    using dist by (metis distinct_card length_map)
qed

lemma bulk_reached:
  assumes "wf_rows (kb_vms db)" and "capture_bulk actor tid sc db = Inr (db', t, ids, skipped)"
    and "bulk_steps ok (bulk_start (kb_vms db) ids t) s"
  shows "within_slots s" and "counts_ok ok (select_vms (kb_vms db) ids) s"
    and "bt_max_parallel (cb_task s) = sk_max_parallel sc" "bt_per_vcenter_parallel (cb_task s) = sk_per_vcenter_parallel sc"
    and "bt_total (cb_task s) = length ids"
proof -
  have t: "t = new_bulk_capture (length ids) (sk_max_parallel sc) (sk_per_vcenter_parallel sc)"
    by (rule capture_bulk_selects(1) [OF assms(2,1)])
  have wf: "wf_rows (select_vms (kb_vms db) ids)" using assms(1) by (simp add: wf_rows_def select_vms_def distinct_map_filter)
  have reached: "within_slots s \<and> counts_ok ok (select_vms (kb_vms db) ids) s \<and>
      bt_max_parallel (cb_task s) = bt_max_parallel (cb_task (bulk_start (kb_vms db) ids t)) \<and>
      bt_per_vcenter_parallel (cb_task s) = bt_per_vcenter_parallel (cb_task (bulk_start (kb_vms db) ids t))"
    using steps_ok [OF assms(3) wf] start_ok [OF assms(1)] unfolding t by blast
  have queued: "bt_max_parallel (fold (\<lambda>v. set_vm_status v Vm_queued) vs u) = bt_max_parallel u \<and>
      bt_per_vcenter_parallel (fold (\<lambda>v. set_vm_status v Vm_queued) vs u) = bt_per_vcenter_parallel u \<and>
      bt_total (fold (\<lambda>v. set_vm_status v Vm_queued) vs u) = bt_total u" for vs u
    by (induction vs arbitrary: u) simp_all
  have "bt_total (cb_task s) = bt_total (cb_task (bulk_start (kb_vms db) ids t))"
    using assms(3) by (induction rule: bulk_steps.induct) (auto dest: step_limits)
  then show "bt_total (cb_task s) = length ids" by (simp add: bulk_start_def Let_def queued t new_bulk_capture_def)
  show "within_slots s" "counts_ok ok (select_vms (kb_vms db) ids) s" using reached by blast+
  show "bt_max_parallel (cb_task s) = sk_max_parallel sc" "bt_per_vcenter_parallel (cb_task s) = sk_per_vcenter_parallel sc"
    using reached by (simp_all add: bulk_start_def Let_def queued t new_bulk_capture_def)
qed

text \<open>C39: A bulk capture that is accepted never gets stuck, and when no worker is left every machine of the
  request is counted once: as completed if its capture did not raise, as failed otherwise, and the
  entry of the machine says so; the two counters add up to the total shown.
\<close>

theorem bulk_capture_accounts:
  assumes "wf_rows (kb_vms db)" and "capture_bulk actor tid sc db = Inr (db', t, ids, skipped)"
    and "bulk_steps ok (bulk_start (kb_vms db) ids t) s"
  shows "(bulk_idle s \<or> (\<exists>s'. bulk_step ok s s')) \<and>
    (bulk_idle s \<longrightarrow> bt_completed (cb_task s) = length (filter ok (select_vms (kb_vms db) ids)) \<and>
       bt_completed (cb_task s) + bt_failed (cb_task s) = bt_total (cb_task s) \<and>
       (\<forall>v\<in>set (select_vms (kb_vms db) ids).
          dict_get (bt_per_vm (cb_task s)) (vm_id v) = Some (if ok v then Vm_captured else Vm_not_captured)))"
proof (intro conjI impI)
  show "bulk_idle s \<or> (\<exists>s'. bulk_step ok s s')" using step_exists bulk_reached(1) [OF assms] by blast
  assume "bulk_idle s"
  then have "pending s = {#}" by (simp add: bulk_idle_def pending_def)
  then have counts: "bt_completed (cb_task s) = length (filter ok (select_vms (kb_vms db) ids))"
      "bt_failed (cb_task s) = length (filter (\<lambda>v. \<not> ok v) (select_vms (kb_vms db) ids))"
      "\<forall>v\<in>set (select_vms (kb_vms db) ids). dict_get (bt_per_vm (cb_task s)) (vm_id v) = Some (outcome_status ok v)"
    using bulk_reached(2) [OF assms] by (auto simp: counts_ok_def)
  show "bt_completed (cb_task s) = length (filter ok (select_vms (kb_vms db) ids))" by fact
  show "bt_completed (cb_task s) + bt_failed (cb_task s) = bt_total (cb_task s)"
    using counts(1,2) sum_length_filter_compl [of ok "select_vms (kb_vms db) ids"]
      capture_bulk_selects(3) [OF assms(2,1)] bulk_reached(5) [OF assms] by simp
  show "\<forall>v\<in>set (select_vms (kb_vms db) ids).
      dict_get (bt_per_vm (cb_task s)) (vm_id v) = Some (if ok v then Vm_captured else Vm_not_captured)"
    using counts(3) by (simp add: outcome_status_def)
qed

text \<open>
  At no time does a bulk capture have more workers past the global semaphore than the request allows, nor
  more sessions open to the machines of one vCenter than the request allows for a vCenter.
\<close>

theorem bulk_capture_bounded:
  assumes "wf_rows (kb_vms db)" and "capture_bulk actor tid sc db = Inr (db', t, ids, skipped)"
    and "bulk_steps ok (bulk_start (kb_vms db) ids t) s"
  shows "int (length (cb_holding s) + length (cb_capturing s)) \<le> sk_max_parallel sc \<and>
    int (capturing_from vc s) \<le> sk_per_vcenter_parallel sc"
proof -
  have "1 \<le> sk_max_parallel sc" "1 \<le> sk_per_vcenter_parallel sc"
    using capture_bulk_selects(2) [OF assms(2,1)] by (simp_all add: scope_valid_def)
  then have limits: "int (global_slots s) = sk_max_parallel sc" "int (vcenter_slots s) = sk_per_vcenter_parallel sc"
    using bulk_reached(3,4) [OF assms] by (simp_all add: global_slots_def vcenter_slots_def)
  have "length (cb_holding s) + length (cb_capturing s) \<le> global_slots s" "capturing_from vc s \<le> vcenter_slots s"
    using bulk_reached(1) [OF assms] by (simp_all add: within_slots_def)
  then show ?thesis unfolding limits [symmetric] by simp
qed

section \<open>Two vCenters\<close>

definition in_vcenter :: "int \<Rightarrow> int \<Rightarrow> vm" where
  "in_vcenter i vc = (reached_at i ''10.0.0.1'')\<lparr>vm_source_vcenter_id := Some vc\<rparr>"

definition three_machines :: "vm list" where
  "three_machines = [in_vcenter 1 7, in_vcenter 2 7, in_vcenter 3 8]"

definition three_db :: capture_db where
  "three_db = \<lparr>kb_vms = three_machines, kb_snapshots = [], kb_audits = [], kb_next_id = 1\<rparr>"

definition two_at_once :: capture_scope where
  "two_at_once = \<lparr>sk_vm_ids = [1, 2, 3], sk_source_vcenter_id = None, sk_environment = None, sk_application_hint = None,
     sk_only_status = None, sk_name_contains = None, sk_max_parallel = 2, sk_per_vcenter_parallel = 1\<rparr>"

definition crowded :: capture_batch where
  "crowded = \<lparr>cb_waiting = [in_vcenter 3 8], cb_holding = [in_vcenter 2 7], cb_capturing = [in_vcenter 1 7],
     cb_task = set_vm_status (in_vcenter 1 7) Vm_capturing (cb_task (bulk_start three_machines [1, 2, 3] (new_bulk_capture 3 2 1)))\<rparr>"

lemma in_vcenter_simps [simp]: "vm_id (in_vcenter i vc) = i" "vm_source_vcenter_id (in_vcenter i vc) = Some vc"
  "truthy (ssh_host (in_vcenter i vc))"
  by (simp_all add: in_vcenter_def reached_at_def ssh_host_def truthy_def)

lemma two_at_once_accepted:
  "capture_bulk ''user'' ''t'' two_at_once three_db =
     Inr (record_capture_audit (Bulk_triggered ''user'' ''t'' 3 0) three_db, new_bulk_capture 3 2 1, [1, 2, 3], [])"
  by (simp add: capture_bulk_def scope_valid_def two_at_once_def MAX_VMS_PER_BULK_ACTION_def resolve_capture_scope_def
      select_vms_def three_db_def three_machines_def eval_nat_numeral)

lemma crowded_reached: "bulk_steps ok (bulk_start three_machines [1, 2, 3] (new_bulk_capture 3 2 1)) crowded"
proof -
  let ?a = "in_vcenter 1 7" and ?b = "in_vcenter 2 7" and ?c = "in_vcenter 3 8"
  let ?t = "cb_task (bulk_start three_machines [1, 2, 3] (new_bulk_capture 3 2 1))"
  have t: "bt_max_parallel ?t = 2" "bt_per_vcenter_parallel ?t = 1"
    by (simp_all add: bulk_start_def select_vms_def three_machines_def new_bulk_capture_def)
  let ?s0 = "\<lparr>cb_waiting = [?a, ?b, ?c], cb_holding = [], cb_capturing = [], cb_task = ?t\<rparr>"
  let ?s1 = "\<lparr>cb_waiting = [?b, ?c], cb_holding = [?a], cb_capturing = [], cb_task = ?t\<rparr>"
  let ?s2 = "\<lparr>cb_waiting = [?c], cb_holding = [?a, ?b], cb_capturing = [], cb_task = ?t\<rparr>"
  have s0: "bulk_start three_machines [1, 2, 3] (new_bulk_capture 3 2 1) = ?s0"
    by (simp add: bulk_start_def select_vms_def three_machines_def)
  have "bulk_step ok ?s0 ?s1" using admit [of ?s0 ?a "[?b, ?c]" ok] by (simp add: global_slots_def t)
  moreover have "bulk_step ok ?s1 ?s2" using admit [of ?s1 ?b "[?c]" ok] by (simp add: global_slots_def t)
  moreover have "bulk_step ok ?s2 crowded"
    using start [of ?s2 "[]" ?a "[?b]" ok] by (simp add: crowded_def capturing_from_def vcenter_slots_def t)
  ultimately have "bulk_steps ok ?s0 crowded"
    by (rule bulk_steps.further [OF bulk_steps.further [OF bulk_steps.further [OF bulk_steps.here]]])
  then show ?thesis by (subst s0)
qed

lemma crowded_simps: "cb_waiting crowded = [in_vcenter 3 8]" "cb_holding crowded = [in_vcenter 2 7]"
  "cb_capturing crowded = [in_vcenter 1 7]" "global_slots crowded = 2" "vcenter_slots crowded = 1"
  by (simp_all add: crowded_def global_slots_def vcenter_slots_def bulk_start_def select_vms_def three_machines_def new_bulk_capture_def)

lemma three_machines_wf: "wf_rows (kb_vms three_db)"
  by (simp add: three_db_def three_machines_def wf_rows_def)

lemma bulk_capture_bounded_witness:
  "int (length (cb_holding crowded) + length (cb_capturing crowded)) \<le> 2 \<and> int (capturing_from 7 crowded) \<le> 1"
  using bulk_capture_bounded [OF three_machines_wf two_at_once_accepted, of "\<lambda>v. True" crowded 7] crowded_reached
  by (simp add: three_db_def two_at_once_def)

text \<open>A run over one machine, to its end.\<close>

definition one_db :: capture_db where
  "one_db = three_db\<lparr>kb_vms := [in_vcenter 1 7]\<rparr>"

definition one_done :: capture_batch where
  "one_done = \<lparr>cb_waiting = [], cb_holding = [], cb_capturing = [],
     cb_task = set_vm_status (in_vcenter 1 7) Vm_not_captured (set_vm_status (in_vcenter 1 7) Vm_capturing
       (set_vm_status (in_vcenter 1 7) Vm_queued (new_bulk_capture 1 2 1)))\<rparr>"

lemma one_accepted:
  "capture_bulk ''user'' ''t'' two_at_once one_db =
     Inr (record_capture_audit (Bulk_triggered ''user'' ''t'' 1 0) one_db, new_bulk_capture 1 2 1, [1], [])"
  by (simp add: capture_bulk_def scope_valid_def two_at_once_def MAX_VMS_PER_BULK_ACTION_def resolve_capture_scope_def
      select_vms_def one_db_def)

lemma one_done_reached: "bulk_steps (\<lambda>v. False) (bulk_start (kb_vms one_db) [1] (new_bulk_capture 1 2 1)) one_done"
proof -
  let ?a = "in_vcenter 1 7" and ?t = "set_vm_status (in_vcenter 1 7) Vm_queued (new_bulk_capture 1 2 1)"
  let ?s0 = "\<lparr>cb_waiting = [?a], cb_holding = [], cb_capturing = [], cb_task = ?t\<rparr>"
  let ?s1 = "\<lparr>cb_waiting = [], cb_holding = [?a], cb_capturing = [], cb_task = ?t\<rparr>"
  let ?s2 = "\<lparr>cb_waiting = [], cb_holding = [], cb_capturing = [?a], cb_task = set_vm_status ?a Vm_capturing ?t\<rparr>"
  have s0: "bulk_start (kb_vms one_db) [1] (new_bulk_capture 1 2 1) = ?s0"
    by (simp add: bulk_start_def select_vms_def one_db_def)
  have "bulk_step (\<lambda>v. False) ?s0 ?s1"
    using admit [of ?s0 ?a "[]"] by (simp add: global_slots_def new_bulk_capture_def)
  moreover have "bulk_step (\<lambda>v. False) ?s1 ?s2"
    using start [of ?s1 "[]" ?a "[]"] by (simp add: capturing_from_def vcenter_slots_def new_bulk_capture_def)
  moreover have "bulk_step (\<lambda>v. False) ?s2 one_done"
    using finish [of ?s2 "[]" ?a "[]" "\<lambda>v. False"] by (simp add: one_done_def)
  ultimately have "bulk_steps (\<lambda>v. False) ?s0 one_done"
    by (rule bulk_steps.further [OF bulk_steps.further [OF bulk_steps.further [OF bulk_steps.here]]])
  then show ?thesis by (subst s0)
qed

lemma bulk_capture_accounts_witness:
  "bt_completed (cb_task one_done) = 0 \<and> bt_completed (cb_task one_done) + bt_failed (cb_task one_done) = bt_total (cb_task one_done) \<and>
     dict_get (bt_per_vm (cb_task one_done)) 1 = Some Vm_not_captured"
proof -
  have wf: "wf_rows (kb_vms one_db)" by (simp add: one_db_def wf_rows_def)
  have "bulk_idle one_done" by (simp add: bulk_idle_def one_done_def)
  moreover have "select_vms (kb_vms one_db) [1] = [in_vcenter 1 7]" by (simp add: select_vms_def one_db_def)
  ultimately show ?thesis
    using bulk_capture_accounts [OF wf one_accepted one_done_reached] by simp
qed

text \<open>
  The limit for a vCenter is meant to keep one vCenter from starving another, but a worker that waits for
  its vCenter already holds a global slot: here the machine of the second vCenter cannot start until a
  machine of the first is done.
\<close>

lemma waiting_workers_hold_slots:
  assumes "bulk_step ok crowded s'"
  shows "cb_capturing s' = [] \<and> cb_holding s' = [in_vcenter 2 7]"
  using assms
proof (cases rule: bulk_step.cases)
  case (admit v vs)
  then show ?thesis by (simp add: crowded_simps)
next
  case (start hs v hs')
  then have "v = in_vcenter 2 7" by (auto simp: crowded_simps Cons_eq_append_conv)
  then show ?thesis using start(3) [of 7] by (simp add: crowded_simps capturing_from_def)
next
  case (finish cs v cs')
  then show ?thesis by (auto simp: crowded_simps Cons_eq_append_conv)
qed

end
