(* ===== verification/Baseline_Profile.thy ===== *)
theory Baseline_Profile
  imports Guest_State
begin

text \<open>
  The profile of a machine over its baselines (\<open>app/core/baseline.py\<close>): what is in every snapshot is called
  stable, decided by counting occurrences over all snapshots.
\<close>

section \<open>The synthesis\<close>

text \<open>A \<open>Counter\<close>, in insertion order.\<close>

definition count_up :: "'k \<Rightarrow> ('k \<times> nat) list \<Rightarrow> ('k \<times> nat) list" where
  "count_up k d = dict_set k (dict_get_or d k 0 + 1) d"

definition counts_of :: "'k list \<Rightarrow> ('k \<times> nat) list" where
  "counts_of ks = fold count_up ks []"

text \<open>\<open>examples.setdefault(key, entry)\<close>\<close>

definition add_example :: "('a \<Rightarrow> 'k) \<Rightarrow> 'a \<Rightarrow> ('k \<times> 'a) list \<Rightarrow> ('k \<times> 'a) list" where
  "add_example f x d = (if dict_has d (f x) then d else dict_set (f x) x d)"

definition example_of :: "('a \<Rightarrow> 'k) \<Rightarrow> 'a list \<Rightarrow> ('k \<times> 'a) list" where
  "example_of f xs = fold (add_example f) xs []"

definition port_key :: "guest_port \<Rightarrow> string option \<times> string option \<times> port_number option" where
  "port_key p = (gp_proto p, gp_address p, gp_port p)"

definition mount_key :: "guest_mount \<Rightarrow> string option \<times> string option \<times> string option" where
  "mount_key m = (gm_target m, gm_source m, gm_fstype m)"

record profiled_snapshot =
  ps_collected_at :: int
  ps_raw_data :: guest_state

definition unit_names :: "guest_state \<Rightarrow> string list" where
  "unit_names st = map (or_empty \<circ> gs_unit) (filter (truthy \<circ> gs_unit) (st_services st))"

definition gather :: "(guest_state \<Rightarrow> 'a list) \<Rightarrow> profiled_snapshot list \<Rightarrow> 'a list" where
  "gather f snaps = concat (map (f \<circ> ps_raw_data) snaps)"

definition keys_counting :: "nat \<Rightarrow> ('k \<times> nat) list \<Rightarrow> 'k list" where
  "keys_counting n d = map fst (filter (\<lambda>(k, c). c = n) d)"

definition stable_entries :: "(guest_state \<Rightarrow> 'a list) \<Rightarrow> ('a \<Rightarrow> 'k) \<Rightarrow> profiled_snapshot list \<Rightarrow> 'a list" where
  "stable_entries f key snaps =
     map (\<lambda>k. the (dict_get (example_of key (gather f snaps)) k))
       (keys_counting (length snaps) (counts_of (map key (gather f snaps))))"

record baseline_profile_row =
  pf_vm_id :: int
  pf_snapshot_count :: nat
  pf_first_collected_at :: "int option"
  pf_last_collected_at :: "int option"
  pf_latest_meta :: "guest_meta option"
  pf_services :: "string list"
  pf_open_ports :: "guest_port list"
  pf_stable_mounts :: "guest_mount list"
  pf_dns_servers :: "string list"
  pf_interfaces :: "(string \<times> guest_iface) list"

definition synthesize_profile :: "int \<Rightarrow> profiled_snapshot list \<Rightarrow> baseline_profile_row" where
  "synthesize_profile vid snaps =
     (if snaps = [] then
        \<lparr>pf_vm_id = vid, pf_snapshot_count = 0, pf_first_collected_at = None, pf_last_collected_at = None,
         pf_latest_meta = None, pf_services = [], pf_open_ports = [], pf_stable_mounts = [], pf_dns_servers = [],
         pf_interfaces = []\<rparr>
      else
        \<lparr>pf_vm_id = vid, pf_snapshot_count = length snaps,
         pf_first_collected_at = Some (ps_collected_at (hd snaps)), pf_last_collected_at = Some (ps_collected_at (last snaps)),
         pf_latest_meta = Some (st_meta (ps_raw_data (last snaps))),
         pf_services = sort (keys_counting (length snaps) (counts_of (gather unit_names snaps))),
         pf_open_ports = stable_entries st_ports port_key snaps,
         pf_stable_mounts = stable_entries st_mounts mount_key snaps,
         pf_dns_servers = sort (unique_in_order (gather (gn_dns \<circ> st_network) snaps)),
         pf_interfaces = fold (\<lambda>(name, iface) d. dict_set name iface d) (gather (gn_interfaces \<circ> st_network) snaps) []\<rparr>)"

section \<open>Counting\<close>

lemma counts_exact:
  "distinct (map fst (counts_of ks))" "dict_get (counts_of ks) k = (if k \<in> set ks then Some (count_list ks k) else None)"
proof -
  have "distinct (map fst d) \<Longrightarrow> distinct (map fst (fold count_up ks d))" for d
    by (induction ks arbitrary: d) (simp_all add: count_up_def distinct_dict_set)
  then show "distinct (map fst (counts_of ks))" by (simp add: counts_of_def)
  have "dict_get (fold count_up ks d) k = (if k \<in> set ks then Some (count_list ks k + dict_get_or d k 0) else dict_get d k)" for d
    by (induction ks arbitrary: d) (auto simp: count_up_def dict_get_or_def)
  then show "dict_get (counts_of ks) k = (if k \<in> set ks then Some (count_list ks k) else None)"
    by (simp add: counts_of_def dict_get_or_def)
qed

lemma keys_counting_exact:
  "distinct (keys_counting n (counts_of ks))" "set (keys_counting n (counts_of ks)) = {k \<in> set ks. count_list ks k = n}"
proof -
  show "distinct (keys_counting n (counts_of ks))"
    using counts_exact(1) [of ks] unfolding keys_counting_def by (rule distinct_map_filter)
  have "(k, c) \<in> set (counts_of ks) \<longleftrightarrow> k \<in> set ks \<and> count_list ks k = c" for k c
    unfolding dict_get_iff_mem [OF counts_exact(1), symmetric] counts_exact(2) by simp
  then show "set (keys_counting n (counts_of ks)) = {k \<in> set ks. count_list ks k = n}"
    by (force simp: keys_counting_def)
qed

lemma fold_examples_has: "dict_has (fold (add_example f) xs d) k \<longleftrightarrow> dict_has d k \<or> k \<in> f ` set xs"
  by (induction xs arbitrary: d) (auto simp: add_example_def)

lemma fold_examples_get:
  "dict_get (fold (add_example f) xs d) k = Some y \<Longrightarrow> dict_get d k = Some y \<or> (f y = k \<and> y \<in> set xs)"
proof (induction xs arbitrary: d)
  case (Cons x xs)
  from Cons.IH [of "add_example f x d"] Cons.prems show ?case
    by (auto simp: add_example_def split: if_splits)
qed simp

lemma example_exact:
  assumes "k \<in> f ` set xs"
  shows "\<exists>x\<in>set xs. f x = k \<and> dict_get (example_of f xs) k = Some x"
proof -
  have "dict_has (example_of f xs) k" unfolding example_of_def fold_examples_has using assms by simp
  then obtain x where "dict_get (example_of f xs) k = Some x" by (auto simp: dict_has_def)
  moreover from this have "f x = k \<and> x \<in> set xs" using fold_examples_get [of f xs "[]" k x] by (simp add: example_of_def)
  ultimately show ?thesis by blast
qed

lemma count_list_concat: "count_list (concat xss) k = sum_list (map (\<lambda>xs. count_list xs k) xss)"
  by (induction xss) simp_all

lemma count_distinct: "distinct xs \<Longrightarrow> count_list xs k = (if k \<in> set xs then 1 else 0)"
  by (induction xs) auto

lemma in_every_one:
  assumes "\<forall>xs\<in>set xss. distinct xs"
  shows "count_list (concat xss) k = length xss \<longleftrightarrow> (\<forall>xs\<in>set xss. k \<in> set xs)"
proof -
  have "count_list (concat xss) k = length (filter (\<lambda>xs. k \<in> set xs) xss)"
    using assms by (induction xss) (simp_all add: count_distinct)
  then show ?thesis by (metis filter_id_conv filter_True length_filter_less nat_neq_iff)
qed

section \<open>Stable means in every snapshot\<close>

definition in_every_snapshot :: "(guest_state \<Rightarrow> 'a list) \<Rightarrow> profiled_snapshot list \<Rightarrow> 'a \<Rightarrow> bool" where
  "in_every_snapshot f snaps k \<longleftrightarrow> (\<forall>s\<in>set snaps. k \<in> set (f (ps_raw_data s)))"

definition listed_once :: "(guest_state \<Rightarrow> 'a list) \<Rightarrow> profiled_snapshot list \<Rightarrow> bool" where
  "listed_once f snaps \<longleftrightarrow> (\<forall>s\<in>set snaps. distinct (f (ps_raw_data s)))"

lemma stable_keys:
  assumes "snaps \<noteq> []" and "listed_once f snaps"
  shows "set (keys_counting (length snaps) (counts_of (gather f snaps))) = {k. in_every_snapshot f snaps k}"
proof -
  let ?xss = "map (f \<circ> ps_raw_data) snaps"
  have "k \<in> set (concat ?xss)" if "\<forall>xs\<in>set ?xss. k \<in> set xs" for k using that assms(1) by (cases snaps) auto
  moreover have "count_list (concat ?xss) k = length ?xss \<longleftrightarrow> (\<forall>xs\<in>set ?xss. k \<in> set xs)" for k
    by (rule in_every_one) (use assms(2) in \<open>simp add: listed_once_def\<close>)
  ultimately show ?thesis
    unfolding keys_counting_exact(2) gather_def in_every_snapshot_def by auto
qed

lemma gather_map: "map g (gather f snaps) = gather (map g \<circ> f) snaps"
  by (simp add: gather_def map_concat comp_def)

lemma stable_entries_exact:
  assumes "snaps \<noteq> []" and "listed_once (map key \<circ> f) snaps"
  shows "key ` set (stable_entries f key snaps) = {k. in_every_snapshot (map key \<circ> f) snaps k}"
    and "distinct (map key (stable_entries f key snaps))"
proof -
  let ?ks = "keys_counting (length snaps) (counts_of (map key (gather f snaps)))"
  have "key (the (dict_get (example_of key (gather f snaps)) k)) = k" if "k \<in> set ?ks" for k
  proof -
    have "k \<in> key ` set (gather f snaps)" using that by (simp add: keys_counting_exact)
    from example_exact [OF this] show ?thesis by auto
  qed
  then have keys: "map key (stable_entries f key snaps) = ?ks"
    unfolding stable_entries_def map_map comp_def by (intro map_idI)
  show "distinct (map key (stable_entries f key snaps))" unfolding keys by (rule keys_counting_exact)
  have "key ` set (stable_entries f key snaps) = set ?ks" using arg_cong [OF keys, of set] by simp
  then show "key ` set (stable_entries f key snaps) = {k. in_every_snapshot (map key \<circ> f) snaps k}"
    using stable_keys [OF assms] by (simp only: gather_map)
qed

lemma port_key_inj [simp]: "port_key p = port_key q \<longleftrightarrow> p = q"
  by (auto simp: port_key_def intro: guest_port.equality)

lemma mount_key_inj [simp]: "mount_key p = mount_key q \<longleftrightarrow> p = q"
  by (auto simp: mount_key_def intro: guest_mount.equality)

lemma inj_keys: "inj port_key" "inj mount_key"
  by (simp_all add: inj_def)

lemma listed_once_key: "inj key \<Longrightarrow> listed_once f snaps \<Longrightarrow> listed_once (map key \<circ> f) snaps"
  by (simp add: listed_once_def distinct_map inj_on_subset [OF _ subset_UNIV])

lemma stable_by_key:
  assumes "inj key" and "snaps \<noteq> []" and "listed_once f snaps"
  shows "set (stable_entries f key snaps) = {x. in_every_snapshot f snaps x}"
proof -
  have "x \<in> set (stable_entries f key snaps) \<longleftrightarrow> in_every_snapshot f snaps x" for x
  proof -
    have "x \<in> set (stable_entries f key snaps) \<longleftrightarrow> key x \<in> key ` set (stable_entries f key snaps)"
      by (rule inj_image_mem_iff [OF assms(1), symmetric])
    also have "\<dots> \<longleftrightarrow> in_every_snapshot (map key \<circ> f) snaps (key x)"
      using stable_entries_exact(1) [OF assms(2) listed_once_key [OF assms(1,3)]] by simp
    also have "\<dots> \<longleftrightarrow> in_every_snapshot f snaps x"
      by (simp add: in_every_snapshot_def inj_image_mem_iff [OF assms(1)])
    finally show ?thesis .
  qed
  then show ?thesis by blast
qed

text \<open>
  If no snapshot lists a unit, a port or a mount twice, the profile lists exactly the units, ports
  and mounts that every snapshot has; the units are sorted.
\<close>

theorem profile_lists_stable:
  assumes "snaps \<noteq> []" and "listed_once unit_names snaps" and "listed_once st_ports snaps" and "listed_once st_mounts snaps"
  shows "sorted (pf_services (synthesize_profile vid snaps)) \<and>
    set (pf_services (synthesize_profile vid snaps)) = {u. in_every_snapshot unit_names snaps u} \<and>
    set (pf_open_ports (synthesize_profile vid snaps)) = {p. in_every_snapshot st_ports snaps p} \<and>
    set (pf_stable_mounts (synthesize_profile vid snaps)) = {m. in_every_snapshot st_mounts snaps m}"
  using assms by (simp add: synthesize_profile_def stable_keys stable_by_key inj_keys)

definition listening :: "string \<Rightarrow> guest_port" where
  "listening a = \<lparr>gp_proto = Some ''tcp'', gp_address = Some a, gp_port = Some (Port_int 443)\<rparr>"

definition with_ports :: "guest_port list \<Rightarrow> profiled_snapshot" where
  "with_ports ps = \<lparr>ps_collected_at = 0, ps_raw_data = empty_state\<lparr>st_ports := ps\<rparr>\<rparr>"

lemma profile_lists_stable_witness:
  "set (pf_open_ports (synthesize_profile 1 [with_ports [listening ''0.0.0.0'', listening ''::''], with_ports [listening ''0.0.0.0'']])) =
     {listening ''0.0.0.0''}"
proof -
  let ?s = "[with_ports [listening ''0.0.0.0'', listening ''::''], with_ports [listening ''0.0.0.0'']]"
  have "listed_once unit_names ?s" "listed_once st_ports ?s" "listed_once st_mounts ?s"
    by (simp_all add: listed_once_def with_ports_def unit_names_def empty_state_def listening_def)
  with profile_lists_stable [of ?s 1]
  have "set (pf_open_ports (synthesize_profile 1 ?s)) = {p. in_every_snapshot st_ports ?s p}" by simp
  also have "\<dots> = {listening ''0.0.0.0''}" by (auto simp: in_every_snapshot_def with_ports_def)
  finally show ?thesis .
qed

text \<open>
  The premise is needed: a port that two sockets share (\<open>SO_REUSEPORT\<close>) is listed twice by \<open>ss\<close>, so it
  is not stable though every snapshot has it; and twice in one snapshot makes up for missing in another.
\<close>

lemma shared_port_not_stable:
  "pf_open_ports (synthesize_profile vid [with_ports [listening a, listening a], with_ports [listening a, listening a]]) = []"
  "pf_open_ports (synthesize_profile vid [with_ports [listening a, listening a], with_ports []]) = [listening a]"
  by (simp_all add: synthesize_profile_def stable_entries_def gather_def with_ports_def empty_state_def counts_of_def count_up_def
      dict_get_or_def keys_counting_def example_of_def add_example_def dict_has_def)

end
