(* ===== verification/Validation_Schedules.thy ===== *)
theory Validation_Schedules
  imports Validation_Run
begin

text \<open>
  Saved scopes for bulk validations (\<open>app/api/validation_schedules.py\<close>): creating, changing, deleting and
  firing a schedule. Times, notes and the acting user are left out.
\<close>

section \<open>Rows and requests\<close>

datatype schedule_status = Schedule_enabled | Schedule_paused | Schedule_disabled

record schedule_scope =
  so_vm_ids :: "int list"
  so_source_vcenter_id :: "int option"
  so_environment :: "string option"
  so_application_hint :: "string option"

record schedule_row =
  sl_id :: int
  sl_name :: string
  sl_cron_expression :: string
  sl_timezone :: string
  sl_scope :: "schedule_scope option"
  sl_status :: schedule_status
  sl_last_task_id :: "string option"
  sl_runtime_paused :: bool

record schedule_create =
  sq_name :: string
  sq_cron_expression :: string
  sq_timezone :: string
  sq_scope :: schedule_scope
  sq_status :: schedule_status

text \<open>A field of a change is absent, an explicit null, or a value.\<close>

record schedule_update =
  sp_name :: "string option option"
  sp_cron_expression :: "string option option"
  sp_timezone :: "string option option"
  sp_scope :: "schedule_scope option option"
  sp_status :: "schedule_status option option"
  sp_runtime_paused :: "bool option option"

datatype schedule_audit = Schedule_created int string | Schedule_deleted int string | Schedule_fired int string nat

record schedule_db =
  sd_rows :: "schedule_row list"
  sd_audits :: "schedule_audit list"
  sd_next_id :: int

datatype schedule_error =
    Schedule_invalid | Schedule_not_found | Name_exists | Schedule_is_disabled | Scope_matched_none | No_baselines
  | Integrity_error

definition schedule_of :: "schedule_db \<Rightarrow> int \<Rightarrow> schedule_row option" where
  "schedule_of db sid = List.find (\<lambda>r. sl_id r = sid) (sd_rows db)"

text \<open>The bounds of the request fields.\<close>

definition text_between :: "nat \<Rightarrow> nat \<Rightarrow> string \<Rightarrow> bool" where
  "text_between a b s \<longleftrightarrow> a \<le> length s \<and> length s \<le> b"

definition MAX_SCHEDULE_VMS :: nat where "MAX_SCHEDULE_VMS = 10000"

definition create_valid :: "schedule_create \<Rightarrow> bool" where
  "create_valid q \<longleftrightarrow> text_between 1 255 (sq_name q) \<and> text_between 1 64 (sq_cron_expression q) \<and>
     text_between 0 64 (sq_timezone q) \<and> length (so_vm_ids (sq_scope q)) \<le> MAX_SCHEDULE_VMS"

definition update_valid :: "schedule_update \<Rightarrow> bool" where
  "update_valid p \<longleftrightarrow>
     (case sp_name p of Some (Some n) \<Rightarrow> text_between 1 255 n | _ \<Rightarrow> True) \<and>
     (case sp_cron_expression p of Some (Some c) \<Rightarrow> text_between 1 64 c | _ \<Rightarrow> True) \<and>
     (case sp_timezone p of Some (Some z) \<Rightarrow> text_between 0 64 z | _ \<Rightarrow> True) \<and>
     (case sp_scope p of Some (Some sc) \<Rightarrow> length (so_vm_ids sc) \<le> MAX_SCHEDULE_VMS | _ \<Rightarrow> True)"

section \<open>The endpoints\<close>

definition create_schedule :: "schedule_create \<Rightarrow> schedule_db \<Rightarrow> schedule_error + schedule_db" where
  "create_schedule q db =
     (if \<not> create_valid q then Inl Schedule_invalid
      else if sq_name q \<in> set (map sl_name (sd_rows db)) then Inl Name_exists
      else Inr (db\<lparr>sd_rows := sd_rows db @ [\<lparr>sl_id = sd_next_id db, sl_name = sq_name q, sl_cron_expression = sq_cron_expression q,
               sl_timezone = sq_timezone q, sl_scope = Some (sq_scope q), sl_status = sq_status q, sl_last_task_id = None,
               sl_runtime_paused = False\<rparr>],
             sd_audits := sd_audits db @ [Schedule_created (sd_next_id db) (sq_name q)],
             sd_next_id := sd_next_id db + 1\<rparr>))"

text \<open>
  An explicit null is written too: the database refuses it for every column but the scope, whose JSON
  null is a value. The refusal, like that of a name in use, is not caught.
\<close>

definition null_refused :: "schedule_update \<Rightarrow> bool" where
  "null_refused p \<longleftrightarrow> sp_name p = Some None \<or> sp_cron_expression p = Some None \<or> sp_timezone p = Some None \<or>
     sp_status p = Some None \<or> sp_runtime_paused p = Some None"

definition set_field :: "'a option option \<Rightarrow> 'a \<Rightarrow> 'a" where
  "set_field f old = (case f of Some (Some x) \<Rightarrow> x | _ \<Rightarrow> old)"

definition apply_update :: "schedule_update \<Rightarrow> schedule_row \<Rightarrow> schedule_row" where
  "apply_update p r = r\<lparr>sl_name := set_field (sp_name p) (sl_name r),
     sl_cron_expression := set_field (sp_cron_expression p) (sl_cron_expression r),
     sl_timezone := set_field (sp_timezone p) (sl_timezone r),
     sl_scope := (case sp_scope p of None \<Rightarrow> sl_scope r | Some sc \<Rightarrow> sc),
     sl_status := set_field (sp_status p) (sl_status r),
     sl_runtime_paused := set_field (sp_runtime_paused p) (sl_runtime_paused r)\<rparr>"

definition update_schedule :: "int \<Rightarrow> schedule_update \<Rightarrow> schedule_db \<Rightarrow> schedule_error + schedule_db" where
  "update_schedule sid p db =
     (if \<not> update_valid p then Inl Schedule_invalid
      else (case schedule_of db sid of
          None \<Rightarrow> Inl Schedule_not_found
        | Some r \<Rightarrow>
            if null_refused p \<or> sl_name (apply_update p r) \<in> set (map sl_name (filter (\<lambda>r'. sl_id r' \<noteq> sid) (sd_rows db)))
            then Inl Integrity_error
            else Inr (db\<lparr>sd_rows := map (\<lambda>r'. if sl_id r' = sid then apply_update p r' else r') (sd_rows db)\<rparr>)))"

definition delete_schedule :: "int \<Rightarrow> schedule_db \<Rightarrow> schedule_error + schedule_db" where
  "delete_schedule sid db =
     (case schedule_of db sid of
        None \<Rightarrow> Inl Schedule_not_found
      | Some r \<Rightarrow> Inr (db\<lparr>sd_audits := sd_audits db @ [Schedule_deleted sid (sl_name r)],
                       sd_rows := filter (\<lambda>r'. sl_id r' \<noteq> sid) (sd_rows db)\<rparr>))"

text \<open>Unlike in a bulk request the ids restrict the other axes further. A missing scope matches every machine.\<close>

definition schedule_scope_of :: "schedule_row \<Rightarrow> schedule_scope" where
  "schedule_scope_of r = (case sl_scope r of Some sc \<Rightarrow> sc
     | None \<Rightarrow> \<lparr>so_vm_ids = [], so_source_vcenter_id = None, so_environment = None, so_application_hint = None\<rparr>)"

definition resolve_schedule :: "vm list \<Rightarrow> schedule_scope \<Rightarrow> vm list" where
  "resolve_schedule rows sc =
     sort_key vm_id (filter (\<lambda>v.
       (so_source_vcenter_id sc \<noteq> None \<longrightarrow> vm_source_vcenter_id v = so_source_vcenter_id sc) \<and>
       (truthy (so_environment sc) \<longrightarrow> vm_environment v = so_environment sc) \<and>
       (truthy (so_application_hint sc) \<longrightarrow> vm_application_hint v = so_application_hint sc) \<and>
       (so_vm_ids sc \<noteq> [] \<longrightarrow> vm_id v \<in> set (so_vm_ids sc))) rows)"

text \<open>The machines the background run validates, with the use of the cache.\<close>

definition fire_schedule ::
  "string \<Rightarrow> int \<Rightarrow> validation_db \<Rightarrow> schedule_db \<Rightarrow> schedule_error + (schedule_db \<times> int list)" where
  "fire_schedule tid sid vdb db =
     (case schedule_of db sid of
        None \<Rightarrow> Inl Schedule_not_found
      | Some r \<Rightarrow>
          (let matched = resolve_schedule (vb_vms vdb) (schedule_scope_of r);
               validatable = map vm_id (filter (\<lambda>v. vm_id v \<in> set (map sn_vm_id (vb_snapshots vdb))) matched)
           in if sl_status r = Schedule_disabled then Inl Schedule_is_disabled
              else if matched = [] then Inl Scope_matched_none
              else if validatable = [] then Inl No_baselines
              else Inr (db\<lparr>sd_rows := map (\<lambda>r'. if sl_id r' = sid then r'\<lparr>sl_last_task_id := Some tid\<rparr> else r') (sd_rows db),
                       sd_audits := sd_audits db @ [Schedule_fired sid tid (length validatable)]\<rparr>, validatable)))"

section \<open>Names and ids stay unique\<close>

definition schedules_ok :: "schedule_db \<Rightarrow> bool" where
  "schedules_ok db \<longleftrightarrow> distinct (map sl_id (sd_rows db)) \<and> distinct (map sl_name (sd_rows db)) \<and>
     (\<forall>i\<in>set (map sl_id (sd_rows db)). i < sd_next_id db)"

lemma map_same_id: "map sl_id (map (\<lambda>r. if sl_id r = sid then f r else r) rows) = map sl_id rows"
  if "\<And>r. sl_id (f r) = sl_id r"
  using that by (simp cong: map_cong)

lemma apply_update_id [simp]: "sl_id (apply_update p r) = sl_id r"
  by (simp add: apply_update_def)

lemma names_after_update:
  assumes "distinct (map sl_id rows)" and "distinct (map sl_name rows)" and "List.find (\<lambda>r. sl_id r = sid) rows = Some r"
    and "sl_name (f r) \<notin> set (map sl_name (filter (\<lambda>r'. sl_id r' \<noteq> sid) rows))"
  shows "distinct (map sl_name (map (\<lambda>r'. if sl_id r' = sid then f r' else r') rows))"
  using assms
proof (induction rows)
  case (Cons a rows)
  show ?case
  proof (cases "sl_id a = sid")
    case True
    then have "map (\<lambda>r'. if sl_id r' = sid then f r' else r') rows = rows"
      using Cons.prems(1) by (intro map_idI) (auto simp: image_iff)
    moreover have "filter (\<lambda>r'. sl_id r' \<noteq> sid) rows = rows"
      using Cons.prems(1) True by (auto simp: filter_id_conv image_iff)
    ultimately show ?thesis using Cons.prems True by simp
  next
    case False
    then have r: "List.find (\<lambda>r. sl_id r = sid) rows = Some r" using Cons.prems(3) by simp
    have "sl_name a \<noteq> sl_name (if sl_id b = sid then f b else b)" if "b \<in> set rows" for b
    proof (cases "sl_id b = sid")
      case True
      have "r \<in> set rows" "sl_id r = sid" using r by (auto simp: find_Some_iff)
      then have "b = r" using Cons.prems(1) that True by (auto simp: distinct_map dest: inj_onD)
      then show ?thesis using True False Cons.prems(4) by auto
    qed (use Cons.prems(2) that in \<open>force simp: image_iff\<close>)
    then show ?thesis using Cons False r by (auto simp: image_iff)
  qed
qed simp

theorem schedules_stay_unique:
  assumes "schedules_ok db"
  shows "create_schedule q db = Inr db' \<Longrightarrow> schedules_ok db'"
    and "update_schedule sid p db = Inr db' \<Longrightarrow> schedules_ok db'"
    and "delete_schedule sid db = Inr db' \<Longrightarrow> schedules_ok db'"
    and "fire_schedule tid sid vdb db = Inr (db', ids) \<Longrightarrow> schedules_ok db'"
proof -
  show "create_schedule q db = Inr db' \<Longrightarrow> schedules_ok db'"
    using assms by (force simp: create_schedule_def schedules_ok_def split: if_splits)
  show "schedules_ok db'" if upd: "update_schedule sid p db = Inr db'"
  proof -
    obtain r where r: "List.find (\<lambda>r. sl_id r = sid) (sd_rows db) = Some r"
      and name: "sl_name (apply_update p r) \<notin> set (map sl_name (filter (\<lambda>r'. sl_id r' \<noteq> sid) (sd_rows db)))"
      and db': "db' = db\<lparr>sd_rows := map (\<lambda>r'. if sl_id r' = sid then apply_update p r' else r') (sd_rows db)\<rparr>"
      using upd by (auto simp: update_schedule_def schedule_of_def split: if_splits option.splits)
    have names: "distinct (map sl_name (sd_rows db'))"
      using names_after_update [where f = "apply_update p", OF _ _ r name] assms by (simp add: db' schedules_ok_def)
    have ids: "map sl_id (sd_rows db') = map sl_id (sd_rows db)" by (simp add: db' map_same_id del: map_map)
    have "sd_next_id db' = sd_next_id db" by (simp add: db')
    then show ?thesis using assms names unfolding schedules_ok_def ids by simp
  qed
  show "delete_schedule sid db = Inr db' \<Longrightarrow> schedules_ok db'"
    using assms by (auto simp: delete_schedule_def schedules_ok_def distinct_map_filter split: option.splits)
  show "schedules_ok db'" if fire: "fire_schedule tid sid vdb db = Inr (db', ids)"
  proof -
    have rows: "sd_rows db' = map (\<lambda>r'. if sl_id r' = sid then r'\<lparr>sl_last_task_id := Some tid\<rparr> else r') (sd_rows db)"
      and next_id: "sd_next_id db' = sd_next_id db"
      using fire by (auto simp: fire_schedule_def Let_def split: if_splits option.splits)
    have same: "map sl_name (sd_rows db') = map sl_name (sd_rows db)" "map sl_id (sd_rows db') = map sl_id (sd_rows db)"
      by (simp_all add: rows)
    show ?thesis using assms unfolding schedules_ok_def same next_id .
  qed
qed

section \<open>Schedules and bulk requests\<close>

definition request_of :: "schedule_scope \<Rightarrow> bulk_scope" where
  "request_of sc = \<lparr>sc_vm_ids = so_vm_ids sc, sc_source_vcenter_id = so_source_vcenter_id sc, sc_environment = so_environment sc,
     sc_application_hint = so_application_hint sc, sc_only_migrated = False, sc_not_validated_within_hours = None, sc_use_cache = True\<rparr>"

definition one_kind_of_axis :: "schedule_scope \<Rightarrow> bool" where
  "one_kind_of_axis sc \<longleftrightarrow> so_vm_ids sc = [] \<or>
     (so_source_vcenter_id sc = None \<and> \<not> truthy (so_environment sc) \<and> \<not> truthy (so_application_hint sc))"

lemma resolve_schedule_bulk: "one_kind_of_axis sc \<Longrightarrow> resolve_schedule rows sc = resolve_scope rows (request_of sc)"
  by (auto simp: one_kind_of_axis_def resolve_schedule_def resolve_scope_def request_of_def select_vms_def)

text \<open>
  Firing a schedule that is not disabled validates the same machines as the bulk endpoint does for the
  same scope, and is refused exactly when that is refused, if the scope gives ids or other axes, not both.
\<close>

theorem fire_matches_bulk_run:
  assumes "schedule_of db sid = Some r" and "sl_status r \<noteq> Schedule_disabled" and "sl_scope r = Some sc" and "one_kind_of_axis sc"
  shows "(case fire_schedule tid sid vdb db of Inl e \<Rightarrow> None | Inr (db', ids) \<Rightarrow> Some ids) =
    (case run_bulk vdb (request_of sc) of Inl e \<Rightarrow> None | Inr (ids, skipped) \<Rightarrow> Some ids)"
  using assms(1-3) resolve_schedule_bulk [OF assms(4)]
  by (simp add: fire_schedule_def schedule_scope_of_def run_bulk_def Let_def)

definition nightly :: "schedule_scope \<Rightarrow> schedule_row" where
  "nightly sc = \<lparr>sl_id = 1, sl_name = ''nightly'', sl_cron_expression = ''0 2 * * *'', sl_timezone = ''UTC'', sl_scope = Some sc,
     sl_status = Schedule_enabled, sl_last_task_id = None, sl_runtime_paused = False\<rparr>"

definition in_prod :: "int list \<Rightarrow> schedule_scope" where
  "in_prod ids = \<lparr>so_vm_ids = ids, so_source_vcenter_id = None, so_environment = Some ''prod'', so_application_hint = None\<rparr>"

definition two_validated :: validation_db where
  "two_validated = \<lparr>vb_vms = [(mk_vm 1 ''a'')\<lparr>vm_environment := Some ''prod''\<rparr>, (mk_vm 2 ''b'')\<lparr>vm_environment := Some ''test''\<rparr>],
     vb_snapshots = [\<lparr>sn_vm_id = 1, sn_collected_at = 0, sn_raw_data = empty_state\<rparr>,
       \<lparr>sn_vm_id = 2, sn_collected_at = 0, sn_raw_data = empty_state\<rparr>],
     vb_results = [], vb_cache = [], vb_usage = [], vb_audits = [], vb_next_id = 1\<rparr>"

definition with_schedule :: "schedule_scope \<Rightarrow> schedule_db" where
  "with_schedule sc = \<lparr>sd_rows = [nightly sc], sd_audits = [], sd_next_id = 2\<rparr>"

lemma bulk_prod: "run_bulk two_validated (request_of (in_prod [])) = Inr ([1], [])"
  "run_bulk two_validated (request_of (in_prod [1, 2])) = Inr ([1, 2], [])"
  by (simp_all add: run_bulk_def resolve_scope_def request_of_def in_prod_def two_validated_def truthy_def select_vms_def)

lemma fire_matches_bulk_run_witness:
  "(case fire_schedule ''t'' 1 two_validated (with_schedule (in_prod [])) of Inl e \<Rightarrow> None | Inr (db', ids) \<Rightarrow> Some ids) = Some [1]"
proof -
  have "schedule_of (with_schedule (in_prod [])) 1 = Some (nightly (in_prod []))"
    by (simp add: schedule_of_def with_schedule_def nightly_def)
  from fire_matches_bulk_run [OF this, of "in_prod []" "''t''" two_validated] show ?thesis
    by (simp add: bulk_prod) (simp add: nightly_def one_kind_of_axis_def in_prod_def)
qed

text \<open>With both kinds of axes the schedule takes the intersection, the bulk endpoint the ids alone.\<close>

lemma mixed_scope_differs:
  "(case fire_schedule ''t'' 1 two_validated (with_schedule (in_prod [1, 2])) of Inl e \<Rightarrow> None | Inr (db', ids) \<Rightarrow> Some ids) = Some [1]"
  "run_bulk two_validated (request_of (in_prod [1, 2])) = Inr ([1, 2], [])"
  by (simp_all add: bulk_prod)
     (simp add: fire_schedule_def schedule_of_def with_schedule_def nightly_def schedule_scope_of_def resolve_schedule_def in_prod_def
       two_validated_def truthy_def)

text \<open>A change to a name in use ends in an uncaught error where creating reports a conflict.\<close>

lemma renaming_clash_uncaught:
  "schedule_of db 2 = Some r \<Longrightarrow> nightly sc \<in> set (sd_rows db) \<Longrightarrow> sp_name p = Some (Some ''nightly'') \<Longrightarrow> update_valid p \<Longrightarrow>
     update_schedule 2 p db = Inl Integrity_error"
  by (auto simp: update_schedule_def apply_update_def set_field_def nightly_def image_iff)

end
