(* ===== verification/Preclassifier_Properties.thy ===== *)
theory Preclassifier_Properties
  imports Preclassifier Wave_Skeleton
begin

text \<open>
  What the pre-classifier guarantees: every VM lands in exactly one group, groups stay inside
  their scope, dependency hints point to earlier roles, and HA splitting is a
  \<open>vm_expander\<close>. Also where it falls short: consolidation mixes environments, the collapse of
  small scopes forgets HA members, and the group state depends on the order of the VMs.
\<close>

section \<open>Buckets\<close>

lemma build_group_vm_ids [simp]: "g_vm_ids (build_group vc ns vms d e tc) = sort (map vm_id vms)"
  by (simp add: build_group_def Let_def)

lemma build_group_key [simp]:
  "gk_vcenter_id (g_key (build_group vc ns vms d e tc)) = vc"
  "gk_target_namespace (g_key (build_group vc ns vms d e tc)) = ns"
  "gk_environment (g_key (build_group vc ns vms d e tc)) = e"
  "gk_target_cluster_id (g_key (build_group vc ns vms d e tc)) = tc"
  by (simp_all add: build_group_def Let_def)

lemma build_in_vm_ids [simp]: "g_vm_ids (build_in pk vms d) = sort (map vm_id vms)"
  by (cases pk) simp

lemma built_vm_ids [simp]:
  "g_vm_ids (hint_role_group pk hint p) = sort (map vm_id (snd p))"
  "g_vm_ids (cluster_group pk c) = sort (map vm_id c)"
  "g_vm_ids (prefix_group pk p) = sort (map vm_id (snd p))"
  by (cases p; simp add: cluster_group_def)+

lemma mset_built:
  "(\<And>x. g_vm_ids (f x) = sort (map vm_id (vs x))) \<Longrightarrow>
     mset (all_vm_ids (map f xs)) = mset (map vm_id (concat (map vs xs)))"
  by (induction xs) (simp_all add: image_mset_union)

lemma mset_grouped_ids: "mset (map vm_id (concat (map snd (group_by_key f xs)))) = mset (map vm_id xs)"
  by (metis mset_group_by_key mset_map)

section \<open>The infrastructure clusters\<close>

definition cluster_inv :: "vm list \<Rightarrow> int list \<times> vm list list \<Rightarrow> bool" where
  "cluster_inv R = (\<lambda>(grouped, clusters).
     set grouped = vm_id ` set (concat clusters) \<and> distinct (map vm_id (concat clusters)) \<and>
     set (concat clusters) \<subseteq> set R)"

definition pull_inv :: "vm list \<Rightarrow> int set \<Rightarrow> vm list \<times> int list \<Rightarrow> bool" where
  "pull_inv R G = (\<lambda>(cluster, ids).
     set ids = G \<union> vm_id ` set cluster \<and> distinct (map vm_id cluster) \<and>
     vm_id ` set cluster \<inter> G = {} \<and> set cluster \<subseteq> set R)"

lemma pull_in_inv:
  "pull_inv R G st \<Longrightarrow> other \<in> set R \<Longrightarrow> pull_inv R G (pull_in seed other st)"
  by (cases st) (auto simp: pull_inv_def pull_in_def)

lemma fold_pull_in_inv:
  "pull_inv R G st \<Longrightarrow> set os \<subseteq> set R \<Longrightarrow> pull_inv R G (fold (pull_in seed) os st)"
  by (induction os arbitrary: st) (simp_all add: pull_in_inv)

lemma fold_pull_in_prefix:
  "\<exists>xs. fst (fold (pull_in seed) os (c, ids)) = c @ xs"
proof (induction os arbitrary: c ids)
  case (Cons o' os)
  obtain c' ids' where s: "pull_in seed o' (c, ids) = (c', ids')" by fastforce
  then obtain ys where "c' = c @ ys" by (auto simp: pull_in_def split: if_splits)
  with Cons [of c' ids'] s show ?case by auto
qed simp

lemma cluster_step_inv:
  assumes inv: "cluster_inv R st" and seed: "seed \<in> set R"
  shows "cluster_inv R (cluster_step R seed st)"
proof -
  obtain grouped clusters where st: "st = (grouped, clusters)" by fastforce
  obtain cluster ids where f: "fold (pull_in seed) R ([seed], vm_id seed # grouped) = (cluster, ids)"
    by fastforce
  show ?thesis
  proof (cases "vm_id seed \<in> set grouped")
    case True
    with inv st show ?thesis by (simp add: cluster_step_def)
  next
    case False
    then have "pull_inv R (set grouped) ([seed], vm_id seed # grouped)"
      using seed by (auto simp: pull_inv_def)
    from fold_pull_in_inv [OF this, of R seed] f
    have p: "set ids = set grouped \<union> vm_id ` set cluster" "distinct (map vm_id cluster)"
        "vm_id ` set cluster \<inter> set grouped = {}" "set cluster \<subseteq> set R"
      by (simp_all add: pull_inv_def)
    show ?thesis
    proof (cases "length cluster = 1")
      case True
      obtain xs where "cluster = [seed] @ xs"
        using fold_pull_in_prefix [of seed R "[seed]" "vm_id seed # grouped"] f by auto
      with True have "cluster = [seed]" by simp
      with p(1) False have "set (removeAll (vm_id seed) ids) = set grouped" by auto
      with True False f inv st show ?thesis by (simp add: cluster_step_def cluster_inv_def)
    next
      case many: False
      have "distinct (map vm_id (concat clusters @ cluster))"
        using inv st p by (auto simp: cluster_inv_def)
      with many False f inv st p show ?thesis by (auto simp: cluster_step_def cluster_inv_def)
    qed
  qed
qed

lemma infra_clusters_inv: "cluster_inv R (infra_clusters R)"
proof -
  have "cluster_inv R st \<Longrightarrow> set ss \<subseteq> set R \<Longrightarrow> cluster_inv R (fold (cluster_step R) ss st)" for ss st
    by (induction ss arbitrary: st) (simp_all add: cluster_step_inv)
  from this [of "([], [])" R] show ?thesis by (simp add: infra_clusters_def cluster_inv_def)
qed

text \<open>Clusters and leftovers together are the VMs of the pass.\<close>

lemma infra_clusters_partition:
  assumes "distinct (map vm_id R)" and "infra_clusters R = (grouped, clusters)"
  shows "mset (concat clusters @ filter (\<lambda>v. vm_id v \<notin> set grouped) R) = mset R"
proof -
  let ?rest = "filter (\<lambda>v. vm_id v \<notin> set grouped) R"
  have inv: "set grouped = vm_id ` set (concat clusters)" "distinct (map vm_id (concat clusters))"
      "set (concat clusters) \<subseteq> set R"
    using infra_clusters_inv [of R] assms(2) by (simp_all add: cluster_inv_def)
  have "distinct (concat clusters @ ?rest)"
    using inv assms(1) by (auto simp: distinct_map)
  moreover have "distinct R" using assms(1) by (simp add: distinct_map)
  moreover have "v \<in> set (concat clusters)" if "v \<in> set R" "vm_id v \<in> set grouped" for v
  proof -
    from that(2) obtain u where u: "u \<in> set (concat clusters)" "vm_id u = vm_id v"
      unfolding inv(1) by (metis imageE)
    with inv(3) that(1) assms(1) have "u = v" by (auto simp: distinct_map inj_on_def subset_iff)
    with u show ?thesis by simp
  qed
  then have "set (concat clusters @ ?rest) = set R" using inv(3) by auto
  ultimately show ?thesis by (simp only: set_eq_iff_mset_eq_distinct)
qed

section \<open>One scope\<close>

lemma mset_hint_groups:
  "mset (all_vm_ids (concat (map (hint_groups pk) by_hint))) = mset (map vm_id (concat (map snd by_hint)))"
proof (induction by_hint)
  case (Cons p ps)
  obtain hint vms where p: "p = (hint, vms)" by fastforce
  have "mset (all_vm_ids (hint_groups pk p)) = mset (map vm_id (snd p))"
    using mset_built [of "hint_role_group pk hint" snd "group_by_key detect_role vms"] p
    by (simp add: mset_grouped_ids del: mset_map)
  with Cons show ?case
    by (simp only: list.map concat.simps all_vm_ids_simps mset_append map_append)
qed simp

lemma classify_within_vm_ids:
  assumes "distinct (map vm_id bucket)"
  shows "mset (all_vm_ids (classify_within_primary pk bucket)) = mset (map vm_id bucket)"
proof -
  let ?hinted = "filter (\<lambda>v. hint_of v \<noteq> []) bucket" and ?R = "filter (\<lambda>v. hint_of v = []) bucket"
  obtain grouped clusters where ic: "infra_clusters ?R = (grouped, clusters)" by fastforce
  let ?left = "filter (\<lambda>v. vm_id v \<notin> set grouped) ?R"
  have 1: "mset (all_vm_ids (concat (map (hint_groups pk) (group_by_key hint_of ?hinted))))
      = mset (map vm_id ?hinted)"
    by (simp only: mset_hint_groups mset_grouped_ids)
  have 2: "mset (all_vm_ids (map (cluster_group pk) clusters)) = mset (map vm_id (concat clusters))"
    using mset_built [of "cluster_group pk" "\<lambda>c. c" clusters] by simp
  have 3: "mset (all_vm_ids (map (prefix_group pk) (group_by_key prefix_or_misc ?left))) = mset (map vm_id ?left)"
    using mset_built [of "prefix_group pk" snd "group_by_key prefix_or_misc ?left"]
    by (simp add: mset_grouped_ids del: mset_map)
  have "distinct (map vm_id ?R)" using assms by (auto simp: distinct_map intro: inj_on_subset)
  from infra_clusters_partition [OF this ic]
  have "mset (map vm_id (concat clusters @ ?left)) = mset (map vm_id ?R)" by (simp only: mset_map)
  moreover have "mset (map vm_id ?hinted) + mset (map vm_id ?R) = mset (map vm_id bucket)"
    by (induction bucket) auto
  ultimately show ?thesis
    by (simp only: classify_within_primary_def prod.case Let_def ic all_vm_ids_simps mset_append map_append 1 2 3)
qed

text \<open>Every group of a scope is built by \<open>build_in\<close>.\<close>

lemma classify_within_built:
  assumes "g \<in> set (classify_within_primary pk bucket)"
  shows "\<exists>vms d. g = build_in pk vms d"
proof -
  have "\<exists>vms d. h = build_in pk vms d" if "h \<in> set (hint_groups pk p)" for h p
  proof -
    obtain hint vms where p: "p = (hint, vms)" by fastforce
    have "hint_role_group pk hint q = build_in pk (snd q) (''hint:'' @ hint @ '':'' @ fst q)" for q
      by (cases q) simp
    with that p show ?thesis by auto
  qed
  moreover have "\<exists>vms d. prefix_group pk p = build_in pk vms d" for p by (cases p) auto
  ultimately show ?thesis
    using assms by (fastforce simp: classify_within_primary_def Let_def cluster_group_def split: prod.splits)
qed

lemma classify_within_scope:
  "g \<in> set (classify_within_primary (vc, tc, ns, e) bucket) \<Longrightarrow>
     gk_vcenter_id (g_key g) = vc \<and> gk_target_cluster_id (g_key g) = tc \<and>
     gk_target_namespace (g_key g) = ns \<and> gk_environment (g_key g) = e"
  by (auto dest: classify_within_built)


section \<open>Merging\<close>

lemma merge_groups_vm_ids [simp]: "g_vm_ids (merge_groups a b) = sorted_set (g_vm_ids a @ g_vm_ids b)"
  by (simp add: merge_groups_def Let_def)

lemma mset_merge_groups:
  "distinct (g_vm_ids a @ g_vm_ids b) \<Longrightarrow> mset (g_vm_ids (merge_groups a b)) = mset (g_vm_ids a) + mset (g_vm_ids b)"
  by (simp add: sorted_set_def distinct_remdups_id)

lemma set_merge_groups: "set (g_vm_ids (merge_groups a b)) = set (g_vm_ids a) \<union> set (g_vm_ids b)"
  by (simp add: sorted_set_def)

lemma merge_groups_scope [simp]:
  "gk_vcenter_id (g_key (merge_groups a b)) = gk_vcenter_id (g_key a)"
  "gk_target_cluster_id (g_key (merge_groups a b)) = gk_target_cluster_id (g_key a)"
  "gk_target_namespace (g_key (merge_groups a b)) = gk_target_namespace (g_key a)"
  "gk_environment (g_key (merge_groups a b)) = gk_environment (g_key a)"
  by (simp_all add: merge_groups_def Let_def)

lemma merge_groups_ha [simp]: "g_ha_members (merge_groups a b) = []"
  by (simp add: merge_groups_def Let_def)

lemma distinct_merge:
  "distinct (all_vm_ids (a # b # gs)) \<Longrightarrow>
     distinct (all_vm_ids (merge_groups a b # gs)) \<and>
     mset (all_vm_ids (merge_groups a b # gs)) = mset (all_vm_ids (a # b # gs))"
proof -
  assume d: "distinct (all_vm_ids (a # b # gs))"
  then have "distinct (g_vm_ids a @ g_vm_ids b)" by auto
  from mset_merge_groups [OF this]
  have m: "mset (all_vm_ids (merge_groups a b # gs)) = mset (all_vm_ids (a # b # gs))"
    by (simp only: all_vm_ids_simps mset_append add.assoc)
  then show ?thesis using d mset_eq_imp_distinct_iff by blast
qed

lemma foldl_merge_vm_ids:
  "distinct (all_vm_ids (g # gs)) \<Longrightarrow> mset (g_vm_ids (foldl merge_groups g gs)) = mset (all_vm_ids (g # gs))"
proof (induction gs arbitrary: g)
  case (Cons h gs)
  note d = distinct_merge [OF Cons.prems]
  then have "mset (g_vm_ids (foldl merge_groups (merge_groups g h) gs)) = mset (all_vm_ids (merge_groups g h # gs))"
    by (intro Cons.IH) blast
  with d show ?case by (simp only: foldl_Cons)
qed simp

lemma foldl_merge_scope: "same_scope (foldl merge_groups g gs) g"
  by (induction gs arbitrary: g) (simp_all add: same_scope_def same_plan_cr_def)

lemma collapse_small_vm_ids:
  assumes "distinct (all_vm_ids gs)"
  shows "mset (all_vm_ids (collapse_small gs)) = mset (all_vm_ids gs)"
proof (cases "vm_total gs < 5 \<and> length gs > 1")
  case True
  then obtain g hs where gs: "gs = g # hs" by (cases gs) auto
  with True foldl_merge_vm_ids [of g hs] assms show ?thesis by (simp add: collapse_small_def)
qed (simp only: collapse_small_def if_False)

lemma collapse_small_member:
  assumes "h \<in> set (collapse_small gs)"
  shows "\<exists>g\<in>set gs. same_scope h g" and "h \<in> set gs \<or> g_ha_members h = []"
proof -
  have "h \<in> set gs \<or> (\<exists>g g' hs. gs = g # g' # hs \<and> h = foldl merge_groups g (g' # hs))"
  proof (cases "vm_total gs < 5 \<and> length gs > 1")
    case True
    then obtain g g' hs where "gs = g # g' # hs" by (cases gs; cases "tl gs") auto
    with True assms show ?thesis by (auto simp: collapse_small_def)
  next
    case False
    with assms show ?thesis by (simp only: collapse_small_def if_False simp_thms)
  qed
  moreover have "g_ha_members (foldl merge_groups g (g' # hs)) = []" for g g' hs
    by (induction hs arbitrary: g g') auto
  ultimately show "\<exists>g\<in>set gs. same_scope h g" and "h \<in> set gs \<or> g_ha_members h = []"
    using foldl_merge_scope by (metis list.set_intros(1) same_scope_refl)+
qed

section \<open>The whole selection\<close>

lemma bucket_mem:
  assumes "(pk, bucket) \<in> set (group_by_key primary_key_of vms)"
  shows "v \<in> set bucket \<longleftrightarrow> v \<in> set vms \<and> primary_key_of v = pk"
  using group_by_key_bucket(1) [OF assms] by auto

lemma bucket_distinct:
  "wf_rows vms \<Longrightarrow> (pk, bucket) \<in> set (group_by_key primary_key_of vms) \<Longrightarrow> distinct (map vm_id bucket)"
  using group_by_key_bucket(1) [of pk bucket primary_key_of vms]
  by (auto simp: wf_rows_def distinct_map intro: inj_on_subset)

lemma partition_groups_vm_ids:
  assumes "wf_rows vms"
  shows "mset (all_vm_ids (partition_groups vms)) = mset (map vm_id vms)"
proof -
  have one: "mset (all_vm_ids (collapse_small (classify_within_primary pk bucket))) = mset (map vm_id bucket)"
    if b: "(pk, bucket) \<in> set (group_by_key primary_key_of vms)" for pk bucket
  proof -
    have d: "distinct (map vm_id bucket)" by (rule bucket_distinct [OF assms b])
    note m = classify_within_vm_ids [OF d, of pk]
    then have "distinct (all_vm_ids (classify_within_primary pk bucket))"
      using d mset_eq_imp_distinct_iff by blast
    from collapse_small_vm_ids [OF this] m show ?thesis by (simp only:)
  qed
  have "mset (all_vm_ids (concat (map classify_scope ps)))
      = mset (map vm_id (concat (map snd ps)))" if "set ps \<subseteq> set (group_by_key primary_key_of vms)" for ps
    using that
  proof (induction ps)
    case (Cons p ps)
    obtain pk bucket where p: "p = (pk, bucket)" by fastforce
    with Cons one [of pk bucket] show ?case
      by (simp only: list.map concat.simps classify_scope.simps all_vm_ids_simps mset_append snd_conv map_append
          list.set insert_subset simp_thms)
  qed simp
  from this [OF subset_refl] show ?thesis
    unfolding partition_groups_def mset_grouped_ids .
qed

lemma add_dependency_hints_vm_ids [simp]: "all_vm_ids (add_dependency_hints gs) = all_vm_ids gs"
  by (simp add: add_dependency_hints_def all_vm_ids_def comp_def)

lemma mset_insert_by_size: "mset (insert_by_size m gs) = add_mset m (mset gs)"
  by (induction gs) auto

lemma merge_down_vm_ids:
  "distinct (all_vm_ids gs) \<Longrightarrow> mset (all_vm_ids (merge_down n gs)) = mset (all_vm_ids gs)"
proof (induction n gs rule: merge_down.induct)
  case (1 n gs)
  show ?case
  proof (cases "length gs \<le> n \<or> (\<forall>a b rest. gs \<noteq> a # b # rest)")
    case True
    then show ?thesis by (auto simp: merge_down.simps [of n gs] split: list.split)
  next
    case False
    then obtain a b rest where gs: "gs = a # b # rest" and n: "\<not> length gs \<le> n" by blast
    let ?ins = "insert_by_size (merge_groups a b) rest"
    have ins: "mset (all_vm_ids ?ins) = mset (all_vm_ids (merge_groups a b # rest))"
      by (rule mset_all_vm_ids_perm) (simp add: mset_insert_by_size)
    have d: "distinct (all_vm_ids (merge_groups a b # rest)) \<and>
        mset (all_vm_ids (merge_groups a b # rest)) = mset (all_vm_ids (a # b # rest))"
      using 1(2) unfolding gs by (rule distinct_merge)
    then have "distinct (all_vm_ids ?ins)" using ins mset_eq_imp_distinct_iff by blast
    then have "mset (all_vm_ids (merge_down n ?ins)) = mset (all_vm_ids ?ins)"
      by (intro 1(1) [OF n gs refl])
    moreover have "merge_down n gs = merge_down n ?ins"
      using n unfolding gs by (subst merge_down.simps) simp
    ultimately show ?thesis using ins d gs by (simp only:)
  qed
qed

lemma consolidate_loop_vm_ids:
  "(\<And>gs. gs \<in> set rest \<Longrightarrow> distinct (all_vm_ids gs)) \<Longrightarrow>
     mset (all_vm_ids (concat (consolidate_loop m finished rest))) =
     mset (all_vm_ids (concat finished)) + mset (all_vm_ids (concat rest))"
proof (induction rest arbitrary: finished)
  case (Cons gs rest)
  let ?s = "sort_key (\<lambda>g. length (g_vm_ids g)) gs"
  have s: "mset (all_vm_ids ?s) = mset (all_vm_ids gs)" by (rule mset_all_vm_ids_perm) simp
  then have "distinct (all_vm_ids ?s)" using Cons.prems [of gs] mset_eq_imp_distinct_iff by auto
  from merge_down_vm_ids [OF this] s
  have "mset (all_vm_ids (merge_down n ?s)) = mset (all_vm_ids gs)" for n by (simp only:)
  with Cons show ?case by (simp add: Let_def)
qed simp

lemma consolidate_vm_ids:
  assumes "distinct (all_vm_ids groups)"
  shows "mset (all_vm_ids (consolidate m groups)) = mset (all_vm_ids groups)"
proof (cases "length groups \<le> m")
  case False
  let ?k = "\<lambda>g. (gk_vcenter_id (g_key g), gk_target_cluster_id (g_key g), gk_target_namespace (g_key g))"
  have all: "mset (all_vm_ids (concat (map snd (group_by_key ?k groups)))) = mset (all_vm_ids groups)"
    by (rule mset_all_vm_ids_perm) (rule mset_group_by_key)
  have "distinct (all_vm_ids gs)" if "gs \<in> set (map snd (group_by_key ?k groups))" for gs
  proof -
    from that obtain xs ys where "map snd (group_by_key ?k groups) = xs @ gs # ys" using split_list by fast
    moreover have "distinct (all_vm_ids (concat (map snd (group_by_key ?k groups))))"
      using all assms mset_eq_imp_distinct_iff by blast
    ultimately show ?thesis by simp
  qed
  from consolidate_loop_vm_ids [OF this, where m = m and finished = "[]"] all False show ?thesis
    by (simp only: consolidate_def if_False concat.simps(1) all_vm_ids_simps mset.simps(1) add_0)
qed (simp add: consolidate_def)

lemma classify_vm_ids:
  assumes "wf_rows vms"
  shows "mset (all_vm_ids (classify max_groups vms)) = mset (map vm_id vms)"
proof -
  let ?gs = "case max_groups of None \<Rightarrow> partition_groups vms | Some m \<Rightarrow> consolidate (max 1 m) (partition_groups vms)"
  have p: "mset (all_vm_ids (partition_groups vms)) = mset (map vm_id vms)"
    by (rule partition_groups_vm_ids [OF assms])
  then have "distinct (all_vm_ids (partition_groups vms))"
    using assms mset_eq_imp_distinct_iff unfolding wf_rows_def by blast
  then have "mset (all_vm_ids ?gs) = mset (map vm_id vms)"
    using p consolidate_vm_ids by (cases max_groups) simp_all
  moreover have "mset (all_vm_ids (classify max_groups vms)) = mset (all_vm_ids (add_dependency_hints ?gs))"
    unfolding classify_def Let_def by (rule mset_all_vm_ids_perm) simp
  ultimately show ?thesis by simp
qed

section \<open>HA manifests\<close>

text \<open>
  A manifest is complete when it lists each VM of the group once. Every group classification
  returns has a complete manifest or, after a merge, none.
\<close>

definition manifest_complete :: "vm_group \<Rightarrow> bool" where
  "manifest_complete g \<longleftrightarrow> mset (map hm_vm_id (g_ha_members g)) = mset (g_vm_ids g)"

definition manifest_ok :: "vm_group \<Rightarrow> bool" where
  "manifest_ok g \<longleftrightarrow> g_ha_members g = [] \<or> manifest_complete g"

lemma build_group_manifest: "manifest_ok (build_group vc ns vms d e tc)"
proof -
  have "g_ha_members (build_group vc ns vms d e tc) = detect_ha_members vms"
    by (simp add: build_group_def Let_def)
  then show ?thesis by (simp add: manifest_ok_def manifest_complete_def detect_ha_members_ids del: mset_map)
qed

lemma merge_groups_manifest: "manifest_ok (merge_groups a b)"
  by (simp add: manifest_ok_def)

lemma classify_within_manifest: "g \<in> set (classify_within_primary pk bucket) \<Longrightarrow> manifest_ok g"
  by (cases pk) (auto dest: classify_within_built simp: build_group_manifest)

lemma merge_down_manifest:
  "list_all manifest_ok gs \<Longrightarrow> list_all manifest_ok (merge_down n gs)"
proof (induction n gs rule: merge_down.induct)
  case (1 n gs)
  show ?case
  proof (cases "length gs \<le> n \<or> (\<forall>a b rest. gs \<noteq> a # b # rest)")
    case True
    with 1(2) show ?thesis by (auto simp: merge_down.simps [of n gs] split: list.split)
  next
    case False
    then obtain a b rest where gs: "gs = a # b # rest" and n: "\<not> length gs \<le> n" by blast
    let ?ins = "insert_by_size (merge_groups a b) rest"
    have "set ?ins = set (merge_groups a b # rest)"
      by (rule mset_eq_setD) (simp add: mset_insert_by_size)
    with 1(2) gs have "list_all manifest_ok ?ins" by (simp add: list_all_iff merge_groups_manifest)
    then have "list_all manifest_ok (merge_down n ?ins)" by (intro 1(1) [OF n gs refl])
    moreover have "merge_down n gs = merge_down n ?ins"
      using n unfolding gs by (subst merge_down.simps) simp
    ultimately show ?thesis by (simp only:)
  qed
qed

lemma consolidate_loop_manifest:
  "list_all (list_all manifest_ok) finished \<Longrightarrow> list_all (list_all manifest_ok) rest \<Longrightarrow>
     list_all (list_all manifest_ok) (consolidate_loop m finished rest)"
proof (induction rest arbitrary: finished)
  case (Cons gs rest)
  have "list_all manifest_ok (merge_down n (sort_key (\<lambda>g. length (g_vm_ids g)) gs))" for n
    using Cons.prems(2) by (intro merge_down_manifest) (simp add: list_all_iff)
  with Cons show ?case by (simp add: Let_def)
qed simp

lemma consolidate_manifest:
  assumes "list_all manifest_ok groups"
  shows "list_all manifest_ok (consolidate m groups)"
proof (cases "length groups \<le> m")
  case False
  let ?bs = "map snd (group_by_key (\<lambda>g. (gk_vcenter_id (g_key g), gk_target_cluster_id (g_key g),
    gk_target_namespace (g_key g))) groups)"
  have "set (concat ?bs) = set groups" by (rule mset_eq_setD) (rule mset_group_by_key)
  with assms have "list_all (list_all manifest_ok) ?bs" by (auto simp: list_all_iff)
  then have "list_all (list_all manifest_ok) (consolidate_loop m [] ?bs)"
    by (intro consolidate_loop_manifest) simp_all
  with False show ?thesis
    by (simp only: consolidate_def if_False) (auto simp: list_all_iff)
qed (use assms in \<open>simp add: consolidate_def\<close>)

lemma partition_groups_manifest: "list_all manifest_ok (partition_groups vms)"
  unfolding list_all_iff partition_groups_def
  using collapse_small_member(2) classify_within_manifest by (fastforce simp: manifest_ok_def)

lemma classify_manifest:
  assumes "g \<in> set (classify max_groups vms)"
  shows "manifest_ok g"
proof -
  let ?gs = "case max_groups of None \<Rightarrow> partition_groups vms | Some m \<Rightarrow> consolidate (max 1 m) (partition_groups vms)"
  have ok: "list_all manifest_ok ?gs"
    using partition_groups_manifest consolidate_manifest [OF partition_groups_manifest] by (simp split: option.split)
  from assms obtain h where "h \<in> set ?gs" "g_ha_members g = g_ha_members h" "g_vm_ids g = g_vm_ids h"
    by (auto simp: classify_def Let_def add_dependency_hints_def)
  then show ?thesis using ok by (simp add: list_all_iff manifest_ok_def manifest_complete_def)
qed

text \<open>Splitting an HA group honours the stage contract wherever the manifest is sound.\<close>

lemma split_ha_vm_ids:
  assumes "manifest_ok g"
  shows "mset (all_vm_ids (split_ha_group g)) = mset (g_vm_ids g)"
proof (cases "ha_count g < 2")
  case False
  then have "g_ha_members g \<noteq> []" by (auto simp: ha_count_def)
  with assms have "manifest_complete g" by (simp add: manifest_ok_def)
  moreover have "all_vm_ids (map (ha_micro_group g) ms) = map hm_vm_id ms" for ms
    by (induction ms) (simp_all add: ha_micro_group_def)
  ultimately show ?thesis using False by (simp add: split_ha_group_def manifest_complete_def)
qed (simp add: split_ha_group_def)

interpretation ha_split: vm_expander split_ha_group manifest_ok
  by unfold_locales (rule split_ha_vm_ids, assumption,
    auto simp: split_ha_group_def ha_micro_group_def same_scope_def same_plan_cr_def split: if_splits)

section \<open>Properties\<close>

text \<open>
  C24: classification loses nothing. The groups of a selection of inventory rows together hold
  every VM exactly once, with and without a cap on the number of groups.
\<close>

theorem classify_conserves_vms:
  assumes "wf_rows vms"
  shows "mset (all_vm_ids (classify max_groups vms)) = mset (map vm_id vms)"
  by (rule classify_vm_ids [OF assms])

text \<open>
  Groups are pure. Without a cap, a group's vCenter, target cluster, target namespace and
  environment are those of each of its VMs, so no group crosses a migration scope or mixes
  environments.
\<close>

theorem classify_scope_pure:
  assumes "wf_rows vms" and "g \<in> set (classify None vms)" and "v \<in> set vms" and "vm_id v \<in> set (g_vm_ids g)"
  shows "(gk_vcenter_id (g_key g), gk_target_cluster_id (g_key g), gk_target_namespace (g_key g),
     gk_environment (g_key g)) = primary_key_of v"
proof -
  from assms(2) obtain h where h: "h \<in> set (partition_groups vms)" "g_key g = g_key h" "g_vm_ids g = g_vm_ids h"
    by (auto simp: classify_def Let_def add_dependency_hints_def)
  then obtain pk bucket where b: "(pk, bucket) \<in> set (group_by_key primary_key_of vms)"
      "h \<in> set (collapse_small (classify_within_primary pk bucket))"
    by (auto simp: partition_groups_def)
  have d: "distinct (map vm_id bucket)" by (rule bucket_distinct [OF assms(1) b(1)])
  note m = classify_within_vm_ids [OF d, of pk]
  then have "distinct (all_vm_ids (classify_within_primary pk bucket))"
    using d mset_eq_imp_distinct_iff by blast
  from collapse_small_vm_ids [OF this] m
  have "mset (all_vm_ids (collapse_small (classify_within_primary pk bucket))) = mset (map vm_id bucket)"
    by (simp only:)
  then have "set (all_vm_ids (collapse_small (classify_within_primary pk bucket))) = vm_id ` set bucket"
    by (metis mset_eq_setD set_map)
  moreover have "vm_id v \<in> set (all_vm_ids (collapse_small (classify_within_primary pk bucket)))"
    using assms(4) h(3) b(2) by (auto simp: all_vm_ids_def)
  ultimately obtain u where u: "u \<in> set bucket" "vm_id u = vm_id v" by auto
  then have "u \<in> set vms" "primary_key_of u = pk" using bucket_mem [OF b(1)] by auto
  with u assms(1,3) have pk: "primary_key_of v = pk" by (auto simp: wf_rows_def distinct_map inj_on_def)
  obtain vc tc ns e where pks: "pk = (vc, tc, ns, e)" by (metis prod_cases4)
  from collapse_small_member(1) [OF b(2)]
  obtain k where "k \<in> set (classify_within_primary pk bucket)" "same_scope h k" by blast
  with classify_within_scope [of k vc tc ns e bucket] pks pk h(2) show ?thesis
    by (simp add: same_scope_def same_plan_cr_def)
qed

text \<open>
  Dependency hints point upstream. Every hint of a group is the id of a group in the
  result whose role the wave assigner orders strictly earlier, so the hints are acyclic.
\<close>

theorem classify_hints_upstream:
  assumes "g \<in> set (classify max_groups vms)" and "h \<in> set (g_dependency_hints g)"
  shows "list_ex (\<lambda>d. g_id d = h \<and> role_priority (g_estimated_role d) < role_priority (g_estimated_role g))
    (classify max_groups vms)"
proof -
  obtain gs where gs: "set (classify max_groups vms) = set (add_dependency_hints gs)"
    by (simp add: classify_def Let_def)
  with assms(1) obtain g' where g': "g' \<in> set gs" "g = g'\<lparr>g_dependency_hints := dependency_hints_for gs g'\<rparr>"
    by (auto simp: add_dependency_hints_def)
  with assms(2) have "h \<in> set (dependency_hints_for gs g')" by simp
  then obtain d where d: "d \<in> set gs" "g_id d = h"
      "role_priority (g_estimated_role d) < role_priority (g_estimated_role g')"
    by (auto simp: dependency_hints_for_def ids_with_role_def role_priority_def split: if_splits)
  let ?d = "d\<lparr>g_dependency_hints := dependency_hints_for gs d\<rparr>"
  have "?d \<in> set (classify max_groups vms)" using d(1) gs by (auto simp: add_dependency_hints_def)
  with d g' show ?thesis by (auto simp: list_ex_iff intro!: bexI [of _ ?d])
qed

text \<open>
  HA splitting is lossless on everything the classifier returns, and afterwards no group
  holds more than one clustered VM.
\<close>

theorem split_ha_after_classify:
  assumes "wf_rows vms"
  shows "mset (all_vm_ids (concat (map split_ha_group (classify max_groups vms)))) = mset (map vm_id vms) \<and>
    list_all (\<lambda>g. ha_count g \<le> 1) (concat (map split_ha_group (classify max_groups vms)))"
proof
  have "mset (all_vm_ids (classify max_groups vms)) = mset (map vm_id vms)"
    by (rule classify_vm_ids [OF assms])
  moreover have "mset (all_vm_ids (concat (map split_ha_group (classify max_groups vms))))
      = mset (all_vm_ids (classify max_groups vms))"
    by (rule ha_split.expand_all_vm_ids) (rule classify_manifest)
  ultimately show "mset (all_vm_ids (concat (map split_ha_group (classify max_groups vms)))) = mset (map vm_id vms)"
    by (simp only:)
  show "list_all (\<lambda>g. ha_count g \<le> 1) (concat (map split_ha_group (classify max_groups vms)))"
    by (auto simp: list_all_iff split_ha_group_def ha_micro_group_def ha_count_def split: if_splits)
qed

section \<open>A selection at work\<close>

definition hinted_vm :: "int \<Rightarrow> string \<Rightarrow> string \<Rightarrow> vm" where
  "hinted_vm i n hint = (mk_vm i n)\<lparr>vm_application_hint := Some hint\<rparr>"

definition placed_vm :: "int \<Rightarrow> string \<Rightarrow> string list \<Rightarrow> string list \<Rightarrow> vm" where
  "placed_vm i n nets ds = (mk_vm i n)\<lparr>vm_vsphere_networks := nets, vm_vsphere_datastores := ds\<rparr>"

text \<open>An application tier with a clustered database, enough VMs to stay split by role.\<close>

definition crm_vms :: "vm list" where
  "crm_vms = [hinted_vm 1 ''crm-web-01'' ''CRM'', hinted_vm 2 ''crm-web-02'' ''crm'',
     hinted_vm 3 ''crm-app-01'' ''crm'', hinted_vm 4 ''crm-postgres-primary'' ''crm'',
     hinted_vm 5 ''crm-postgres-replica'' ''crm'']"

definition db_tier :: vm_group where
  "db_tier = hd (filter (\<lambda>g. g_estimated_role g = ''data'') (classify None crm_vms))"

definition app_tier :: vm_group where
  "app_tier = hd (filter (\<lambda>g. g_estimated_role g = ''app'') (classify None crm_vms))"

lemma crm_rows: "wf_rows crm_vms"
  by code_simp

lemma crm_db_tier: "db_tier \<in> set (classify None crm_vms)"
  by code_simp

lemma crm_app_tier: "app_tier \<in> set (classify None crm_vms)"
  by code_simp

lemma crm_db: "hinted_vm 4 ''crm-postgres-primary'' ''crm'' \<in> set crm_vms"
  "vm_id (hinted_vm 4 ''crm-postgres-primary'' ''crm'') \<in> set (g_vm_ids db_tier)"
  by code_simp+

lemma crm_hint: "g_id db_tier \<in> set (g_dependency_hints app_tier)"
  by code_simp

theorem classify_conserves_vms_witness:
  "mset (all_vm_ids (classify (Some 2) crm_vms)) = mset (map vm_id crm_vms)"
  by (rule classify_conserves_vms [OF crm_rows])

theorem classify_scope_pure_witness:
  "(gk_vcenter_id (g_key db_tier), gk_target_cluster_id (g_key db_tier),
    gk_target_namespace (g_key db_tier), gk_environment (g_key db_tier))
   = primary_key_of (hinted_vm 4 ''crm-postgres-primary'' ''crm'')"
  by (rule classify_scope_pure [OF crm_rows crm_db_tier crm_db])

theorem classify_hints_upstream_witness:
  "list_ex (\<lambda>d. g_id d = g_id db_tier \<and>
     role_priority (g_estimated_role d) < role_priority (g_estimated_role app_tier)) (classify None crm_vms)"
  by (rule classify_hints_upstream [OF crm_app_tier crm_hint])

theorem split_ha_after_classify_witness:
  "mset (all_vm_ids (concat (map split_ha_group (classify None crm_vms)))) = mset (map vm_id crm_vms) \<and>
   list_all (\<lambda>g. ha_count g \<le> 1) (concat (map split_ha_group (classify None crm_vms)))"
  by (rule split_ha_after_classify [OF crm_rows])

section \<open>Where classification falls short\<close>

text \<open>
  The cap mixes environments. Consolidation buckets groups by vCenter, cluster and
  namespace only, so a production and a development VM end up in one group.
\<close>

theorem consolidation_mixes_environments:
  "\<exists>p d. map g_vm_ids (classify (Some 1) [p, d]) = [[vm_id p, vm_id d]] \<and>
     length (classify None [p, d]) = 2 \<and>
     normalize (vm_environment p) = PRODUCTION \<and> normalize (vm_environment d) = DEVELOPMENT"
  by (rule exI [of _ "(mk_vm 1 ''crm-01'')\<lparr>vm_environment := Some ''prod''\<rparr>"],
      rule exI [of _ "(mk_vm 2 ''crm-02'')\<lparr>vm_environment := Some ''dev''\<rparr>"]) code_simp

text \<open>
  The collapse of a small scope forgets HA. A database pair and a web server in one scope
  become one group without a manifest, so \<open>split_ha_group\<close> no longer separates the pair.
\<close>

theorem collapse_forgets_ha:
  "\<exists>vms g. classify None vms = [g] \<and> split_ha_group g = [g] \<and>
     length (filter is_ha_peer (detect_ha_members vms)) = 2 \<and> length vms = 3"
proof -
  define vms where "vms = [hinted_vm 1 ''crm-postgres-primary'' ''crm'',
    hinted_vm 2 ''crm-postgres-replica'' ''crm'', hinted_vm 3 ''crm-web-x'' ''crm'']"
  have "classify None vms = [hd (classify None vms)]" unfolding vms_def by code_simp
  moreover have "split_ha_group (hd (classify None vms)) = [hd (classify None vms)]"
    unfolding vms_def by code_simp
  moreover have "length (filter is_ha_peer (detect_ha_members vms)) = 2 \<and> length vms = 3"
    unfolding vms_def by code_simp
  ultimately show ?thesis by blast
qed

text \<open>
  The state of a group depends on the order of its VMs. The promotion to stateful skips
  the first VM, so a database that comes first goes unnoticed.
\<close>

theorem group_state_depends_on_order:
  "\<exists>db w1 w2. g_estimated_state (build_group None [] [db, w1, w2] d e None) = ''stateless'' \<and>
     g_estimated_state (build_group None [] [w1, db, w2] d e None) = ''stateful''"
  by (rule exI [of _ "mk_vm 1 ''postgres-01''"], rule exI [of _ "mk_vm 2 ''web-01''"],
      rule exI [of _ "mk_vm 3 ''web-02''"]) code_simp

text \<open>
  Two clusters on one network lose VMs. Both get the discriminator of the network, hence
  one group id, and the wave assignment keeps only one of them.
\<close>

theorem network_clusters_lose_vms:
  "\<exists>vms ws. wf_rows vms \<and>
     assign_waves default_assigner
       (split_overconcentrated_families (classify None vms) (map_of (map (\<lambda>v. (vm_id v, vm_name v)) vms))) = Inr ws \<and>
     set (concat (map w_vm_ids ws)) \<subset> set (map vm_id vms)"
proof -
  define vms where "vms = [placed_vm 1 ''alpha'' [''n1''] [''d1'', ''d2''], placed_vm 2 ''bravo'' [''n1''] [''d1''],
    placed_vm 3 ''charlie'' [''n1''] [''d2''], placed_vm 4 ''delta'' [''n1''] [''d3'', ''d4''],
    placed_vm 5 ''echo'' [''n1''] [''d3''], placed_vm 6 ''foxtrot'' [''n1''] [''d4'']]"
  let ?r = "assign_waves default_assigner (split_overconcentrated_families (classify None vms)
    (map_of (map (\<lambda>v. (vm_id v, vm_name v)) vms)))"
  have "wf_rows vms" unfolding vms_def by code_simp
  moreover have "?r = Inr (projr ?r) \<and> concat (map w_vm_ids (projr ?r)) = [4, 5, 6]"
    unfolding vms_def by code_simp
  moreover have "set [4, 5, 6] \<subset> set (map vm_id vms)"
    unfolding vms_def by code_simp
  ultimately show ?thesis by metis
qed

end
