(* ===== verification/MTV_Properties.thy ===== *)
theory MTV_Properties
  imports MTV
begin

text \<open>
  What an emitted wave guarantees: it lists the wave's VMs, maps every source network and
  datastore once, lands all VMs in one namespace, and is emitted exactly when the mapping covers
  the wave. Also: the mapping overrules a VM's own target namespace.
\<close>

section \<open>The NetworkMap loop\<close>

lemma add_networks_get:
  assumes "add_networks ctx r vm srcs seen = Inr seen'"
  shows "dict_get seen' k =
    (case dict_get seen k of
       Some d \<Rightarrow> Some d
     | None \<Rightarrow> if k \<in> set srcs \<and> k \<noteq> [] then Some (projr (network_destination ctx r vm k)) else None)"
  using assms
  by (induction srcs arbitrary: seen) (auto simp: dict_has_def split: if_splits sum.splits option.splits)

lemma add_networks_distinct:
  "add_networks ctx r vm srcs seen = Inr seen' \<Longrightarrow> distinct (map fst seen) \<Longrightarrow> distinct (map fst seen')"
  by (induction srcs arbitrary: seen) (auto simp: distinct_dict_set split: if_splits sum.splits)

lemma add_networks_ok:
  "(\<And>src. src \<in> set srcs \<Longrightarrow> src \<noteq> [] \<Longrightarrow> \<exists>d. network_destination ctx r vm src = Inr d) \<Longrightarrow>
     \<exists>seen'. add_networks ctx r vm srcs seen = Inr seen'"
proof (induction srcs arbitrary: seen)
  case (Cons src srcs)
  have ih: "\<exists>seen'. add_networks ctx r vm srcs s = Inr seen'" for s
    by (rule Cons.IH) (simp add: Cons.prems)
  show ?case
  proof (cases "src = [] \<or> dict_has seen src")
    case True
    then show ?thesis using ih [of seen] by auto
  next
    case False
    moreover obtain d where "network_destination ctx r vm src = Inr d" using Cons.prems [of src] False by auto
    ultimately show ?thesis using ih [of "dict_set src d seen"] by simp
  qed
qed simp

definition used_networks :: "vm_payload list \<Rightarrow> string set" where
  "used_networks vms = {src. src \<noteq> [] \<and> (\<exists>vm\<in>set vms. src \<in> set (vp_vsphere_networks vm))}"

definition used_datastores :: "vm_payload list \<Rightarrow> string set" where
  "used_datastores vms = {src. src \<noteq> [] \<and> (\<exists>vm\<in>set vms. src \<in> set (vp_vsphere_datastores vm))}"

lemma dict_keys_iff: "k \<in> set (map fst d) \<longleftrightarrow> dict_get d k \<noteq> None"
  using dict_has_iff [of d k] by (simp add: dict_has_def)

lemma build_network_map_keys:
  assumes "build_network_map ctx r vms seen = Inr nets"
  shows "set (map fst nets) = set (map fst seen) \<union> used_networks vms"
    and "distinct (map fst seen) \<Longrightarrow> distinct (map fst nets)"
proof -
  have "set (map fst nets) = set (map fst seen) \<union> used_networks vms \<and>
      (distinct (map fst seen) \<longrightarrow> distinct (map fst nets))"
    using assms
  proof (induction vms arbitrary: seen)
    case Nil
    then show ?case by (simp add: used_networks_def)
  next
    case (Cons vm vms)
    from Cons.prems obtain seen' where s: "add_networks ctx r vm (vp_vsphere_networks vm) seen = Inr seen'"
        "build_network_map ctx r vms seen' = Inr nets"
      by (auto split: sum.splits)
    have "k \<in> set (map fst seen') \<longleftrightarrow> k \<in> set (map fst seen) \<union> used_networks [vm]" for k
      unfolding dict_keys_iff Un_iff add_networks_get [OF s(1)]
      by (auto simp: used_networks_def split: option.split)
    then have "set (map fst seen') = set (map fst seen) \<union> used_networks [vm]" by blast
    moreover have "used_networks (vm # vms) = used_networks [vm] \<union> used_networks vms"
      by (auto simp: used_networks_def)
    ultimately show ?case using Cons.IH [OF s(2)] add_networks_distinct [OF s(1)] by auto
  qed
  then show "set (map fst nets) = set (map fst seen) \<union> used_networks vms"
    and "distinct (map fst seen) \<Longrightarrow> distinct (map fst nets)" by auto
qed

lemma build_network_map_keep:
  "dict_get seen k = Some v \<Longrightarrow> build_network_map ctx r vms seen = Inr nets \<Longrightarrow> dict_get nets k = Some v"
proof (induction vms arbitrary: seen)
  case (Cons vm vms)
  from Cons.prems(2) obtain seen' where s: "add_networks ctx r vm (vp_vsphere_networks vm) seen = Inr seen'"
      "build_network_map ctx r vms seen' = Inr nets"
    by (auto split: sum.splits)
  have "dict_get seen' k = Some v" using Cons.prems(1) by (simp add: add_networks_get [OF s(1)])
  then show ?case by (rule Cons.IH [OF _ s(2)])
qed simp

text \<open>An entry is the destination of every VM that uses the source, when the VMs agree on it.\<close>

lemma build_network_map_get:
  assumes "build_network_map ctx r vms seen = Inr nets"
    and "\<And>vm. vm \<in> set vms \<Longrightarrow> src \<in> set (vp_vsphere_networks vm) \<Longrightarrow> network_destination ctx r vm src = Inr d"
    and "src \<in> used_networks vms" and "dict_get seen src = None \<or> dict_get seen src = Some d"
  shows "dict_get nets src = Some d"
  using assms
proof (induction vms arbitrary: seen)
  case (Cons vm vms)
  from Cons.prems(1) obtain seen' where s: "add_networks ctx r vm (vp_vsphere_networks vm) seen = Inr seen'"
      "build_network_map ctx r vms seen' = Inr nets"
    by (auto split: sum.splits)
  show ?case
  proof (cases "src \<in> set (vp_vsphere_networks vm)")
    case True
    then have "dict_get seen' src = Some d"
      using Cons.prems by (auto simp: add_networks_get [OF s(1)] used_networks_def)
    then show ?thesis using build_network_map_keep s(2) by blast
  next
    case False
    then have "dict_get seen' src = dict_get seen src"
      by (simp add: add_networks_get [OF s(1)] split: option.split)
    moreover have "src \<in> used_networks vms" using Cons.prems(3) False by (auto simp: used_networks_def)
    ultimately show ?thesis using Cons s(2) by auto
  qed
qed (simp add: used_networks_def)

lemma build_network_map_ok:
  "(\<And>vm src. vm \<in> set vms \<Longrightarrow> src \<in> set (vp_vsphere_networks vm) \<Longrightarrow> src \<noteq> [] \<Longrightarrow>
     \<exists>d. network_destination ctx r vm src = Inr d) \<Longrightarrow> \<exists>nets. build_network_map ctx r vms seen = Inr nets"
proof (induction vms arbitrary: seen)
  case (Cons vm vms)
  obtain seen' where "add_networks ctx r vm (vp_vsphere_networks vm) seen = Inr seen'"
    using add_networks_ok [of "vp_vsphere_networks vm" ctx r vm seen] Cons.prems [of vm] by auto
  with Cons show ?case by simp
qed simp

section \<open>The StorageMap loop\<close>

lemma add_datastores_get:
  "dict_get (add_datastores r vm srcs seen) k =
     (case dict_get seen k of
        Some e \<Rightarrow> Some e
      | None \<Rightarrow> if k \<in> set srcs \<and> k \<noteq> [] \<and> storage_class_for r vm k \<noteq> []
               then Some (storage_entry_for r vm k) else None)"
  by (induction srcs arbitrary: seen) (auto simp: dict_has_def split: option.splits)

lemma add_datastores_distinct:
  "distinct (map fst seen) \<Longrightarrow> distinct (map fst (add_datastores r vm srcs seen))"
  by (induction srcs arbitrary: seen) (auto simp: distinct_dict_set)

lemma build_storage_map_keys:
  assumes "\<And>vm src. vm \<in> set vms \<Longrightarrow> src \<in> set (vp_vsphere_datastores vm) \<Longrightarrow> src \<noteq> [] \<Longrightarrow>
    storage_class_for r vm src \<noteq> []"
  shows "set (map fst (build_storage_map r vms seen)) = set (map fst seen) \<union> used_datastores vms"
    and "distinct (map fst seen) \<Longrightarrow> distinct (map fst (build_storage_map r vms seen))"
proof -
  have "set (map fst (build_storage_map r vms seen)) = set (map fst seen) \<union> used_datastores vms \<and>
      (distinct (map fst seen) \<longrightarrow> distinct (map fst (build_storage_map r vms seen)))"
    using assms
  proof (induction vms arbitrary: seen)
    case Nil
    then show ?case by (simp add: used_datastores_def)
  next
    case (Cons vm vms)
    let ?s = "add_datastores r vm (vp_vsphere_datastores vm) seen"
    have "k \<in> set (map fst ?s) \<longleftrightarrow> k \<in> set (map fst seen) \<union> used_datastores [vm]" for k
      unfolding dict_keys_iff Un_iff add_datastores_get using Cons.prems [of vm k]
      by (auto simp: used_datastores_def split: option.split)
    then have "set (map fst ?s) = set (map fst seen) \<union> used_datastores [vm]" by blast
    moreover have "used_datastores (vm # vms) = used_datastores [vm] \<union> used_datastores vms"
      by (auto simp: used_datastores_def)
    ultimately show ?case using Cons add_datastores_distinct by auto
  qed
  then show "set (map fst (build_storage_map r vms seen)) = set (map fst seen) \<union> used_datastores vms"
    and "distinct (map fst seen) \<Longrightarrow> distinct (map fst (build_storage_map r vms seen))" by auto
qed

section \<open>The pre-check\<close>

lemma dict_append_nonempty [simp]: "dict_append k v d \<noteq> []"
  by (cases d) (auto split: if_splits)

lemma users_by_source_empty: "users_by_source f vms = [] \<longleftrightarrow> (\<forall>vm\<in>set vms. f vm = [])"
proof -
  have inner: "fold (\<lambda>src. dict_append src x) srcs d = [] \<longleftrightarrow> srcs = [] \<and> d = []"
    for srcs x and d :: "(string \<times> string list) list"
    by (induction srcs arbitrary: d) auto
  have "fold (\<lambda>vm d. fold (\<lambda>src. dict_append src (vp_name vm)) (f vm) d) vms d = [] \<longleftrightarrow>
      (\<forall>vm\<in>set vms. f vm = []) \<and> d = []" for d
    by (induction vms arbitrary: d) (auto simp: inner)
  then show ?thesis by (simp add: users_by_source_def)
qed

lemma pre_check_None:
  "pre_check ctx r vms = None \<longleftrightarrow> (\<forall>vm\<in>set vms. namespace_for ctx r vm \<noteq> [] \<and>
     unmapped_networks_of r vm = [] \<and> unmapped_datastores_of r vm = [])"
  by (auto simp: pre_check_def Let_def users_by_source_empty unresolved_namespaces_def filter_empty_conv)

lemma storage_class_for_covered:
  assumes "unmapped_datastores_of r vm = []" and "src \<in> set (vp_vsphere_datastores vm)" and "src \<noteq> []"
  shows "storage_class_for r vm src \<noteq> []"
proof (cases r)
  case None
  with assms show ?thesis
    by (auto simp: unmapped_datastores_of_def storage_class_for_def or_else_def split: if_splits)
next
  case (Some res)
  show ?thesis
  proof (cases "resolve_storage res src")
    case None
    with Some assms show ?thesis
      by (auto simp: unmapped_datastores_of_def storage_class_for_def or_else_def filter_empty_conv)
  next
    case (Some sc)
    with \<open>r = Some res\<close> resolve_storage_nonempty [OF Some] show ?thesis
      by (simp add: storage_class_for_def or_else_def)
  qed
qed

lemma network_destination_covered:
  assumes "unmapped_networks_of (Some res) vm = []" and "src \<in> set (vp_vsphere_networks vm)" and "src \<noteq> []"
  shows "\<exists>d. network_destination ctx (Some res) vm src = Inr d"
  using assms by (auto simp: unmapped_networks_of_def filter_empty_conv network_destination_def Let_def)

lemma network_destination_namespace:
  assumes "resolve_network res src \<noteq> None"
    and "namespace_for ctx (Some res) u = namespace_for ctx (Some res) vm"
  shows "network_destination ctx (Some res) u src = network_destination ctx (Some res) vm src"
proof -
  obtain m where "resolve_network res src = Some m" using assms(1) by blast
  then show ?thesis unfolding network_destination_def Let_def assms(2) by simp
qed

lemma several_namespaces_iff:
  "length (sort (remdups (filter (\<lambda>x. x \<noteq> []) xs))) > 1 \<longleftrightarrow>
     (\<exists>x\<in>set xs. \<exists>y\<in>set xs. x \<noteq> [] \<and> y \<noteq> [] \<and> x \<noteq> (y :: string))"
proof -
  have "length (remdups zs) > 1 \<longleftrightarrow> (\<exists>x\<in>set zs. \<exists>y\<in>set zs. x \<noteq> y)" for zs :: "string list"
  proof -
    have "length (remdups zs) > 1 \<longleftrightarrow> \<not> card (set zs) \<le> Suc 0" by (simp add: length_remdups_card_conv not_le)
    then show ?thesis by (simp add: card_le_Suc0_iff_eq)
  qed
  from this [of "filter (\<lambda>x. x \<noteq> []) xs"] show ?thesis by simp blast
qed

text \<open>The pre-check and the namespace test, read off a generator that gets past them.\<close>

definition covered :: "wave_context \<Rightarrow> mapping_resolver option \<Rightarrow> vm_payload list \<Rightarrow> bool" where
  "covered ctx r vms \<longleftrightarrow> vms \<noteq> [] \<and> pre_check ctx r vms = None \<and>
     list_all (\<lambda>vm. namespace_for ctx r vm = namespace_for ctx r (hd vms)) vms"

lemma covered_namespace:
  assumes "covered ctx r vms" and "u \<in> set vms" and "v \<in> set vms"
  shows "namespace_for ctx r u = namespace_for ctx r v"
proof -
  have "namespace_for ctx r w = namespace_for ctx r (hd vms)" if "w \<in> set vms" for w
    using assms(1) that unfolding covered_def list_all_iff by blast
  from this [OF assms(2)] this [OF assms(3)] show ?thesis by (rule trans [OF _ sym])
qed

lemma build_plan_covered:
  assumes "vms \<noteq> []" and "pre_check ctx r vms = None"
  shows "(\<exists>plan. build_plan ctx vms r = Inr plan) \<longleftrightarrow> covered ctx r vms"
    and "build_plan ctx vms r = Inr plan \<Longrightarrow>
      pd_target_namespace plan = namespace_for ctx r (hd vms) \<and> pd_vms plan = map plan_vm vms"
proof -
  have ne: "namespace_for ctx r vm \<noteq> []" if "vm \<in> set vms" for vm using assms(2) that by (simp add: pre_check_None)
  let ?xs = "map (namespace_for ctx r) vms"
  have hd: "hd vms \<in> set vms" using assms(1) by simp
  have "(\<exists>x\<in>set ?xs. \<exists>y\<in>set ?xs. x \<noteq> [] \<and> y \<noteq> [] \<and> x \<noteq> y) \<longleftrightarrow>
      \<not> list_all (\<lambda>vm. namespace_for ctx r vm = namespace_for ctx r (hd vms)) vms"
    (is "?l \<longleftrightarrow> ?r")
  proof
    assume ?r
    then obtain vm where "vm \<in> set vms" "namespace_for ctx r vm \<noteq> namespace_for ctx r (hd vms)"
      by (auto simp: list_all_iff)
    with ne hd show ?l by auto
  next
    assume ?l
    then obtain u v where uv: "u \<in> set vms" "v \<in> set vms" "namespace_for ctx r u \<noteq> namespace_for ctx r v"
      by auto
    show ?r
    proof
      assume "list_all (\<lambda>vm. namespace_for ctx r vm = namespace_for ctx r (hd vms)) vms"
      then have "namespace_for ctx r u = namespace_for ctx r (hd vms)" "namespace_for ctx r v = namespace_for ctx r (hd vms)"
        using uv(1,2) unfolding list_all_iff by blast+
      with uv(3) show False by simp
    qed
  qed
  then show "(\<exists>plan. build_plan ctx vms r = Inr plan) \<longleftrightarrow> covered ctx r vms"
    using assms unfolding build_plan_def Let_def several_namespaces_iff covered_def by auto
  show "build_plan ctx vms r = Inr plan \<Longrightarrow>
      pd_target_namespace plan = namespace_for ctx r (hd vms) \<and> pd_vms plan = map plan_vm vms"
    using assms(1) by (cases vms) (auto simp: build_plan_def Let_def split: if_splits)
qed

lemma generate_Inr:
  assumes "generate_wave_yaml schema describe ctx vms r = Inr docs"
  obtains nets plan where "vms \<noteq> []" "pre_check ctx r vms = None" "build_network_map ctx r vms [] = Inr nets"
    "build_plan ctx vms r = Inr plan" "build_storage_map r vms [] \<noteq> []"
    "docs = assemble ctx nets (build_storage_map r vms []) plan" "covered ctx r vms"
proof -
  from assms obtain nets plan where *: "vms \<noteq> []" "pre_check ctx r vms = None"
    "build_network_map ctx r vms [] = Inr nets" "build_plan ctx vms r = Inr plan"
    "build_storage_map r vms [] \<noteq> []" "docs = assemble ctx nets (build_storage_map r vms []) plan"
    by (auto simp: generate_wave_yaml_def Let_def split: if_splits option.splits sum.splits)
  moreover have "covered ctx r vms" using build_plan_covered(1) [OF *(1,2)] *(4) by blast
  ultimately show ?thesis using that by blast
qed

lemma generate_plan_vms:
  assumes "generate_wave_yaml schema describe ctx vms r = Inr docs"
  shows "pd_vms (wd_plan docs) = map plan_vm vms"
proof -
  from assms obtain nets plan where g: "vms \<noteq> []" "pre_check ctx r vms = None"
    "build_plan ctx vms r = Inr plan" "docs = assemble ctx nets (build_storage_map r vms []) plan"
    by (rule generate_Inr)
  from build_plan_covered(2) [OF g(1,2,3)] g(4) show ?thesis by (simp add: assemble_def)
qed

lemma storage_keys:
  assumes "pre_check ctx r vms = None"
  shows "set (map fst (build_storage_map r vms [])) = used_datastores vms"
    and "distinct (map fst (build_storage_map r vms []))"
proof -
  have "storage_class_for r vm src \<noteq> []"
    if "vm \<in> set vms" "src \<in> set (vp_vsphere_datastores vm)" "src \<noteq> []" for vm src
    using assms that by (intro storage_class_for_covered) (auto simp: pre_check_None)
  from build_storage_map_keys [where r = r and vms = vms, OF this]
  show "set (map fst (build_storage_map r vms [])) = used_datastores vms"
    and "distinct (map fst (build_storage_map r vms []))" by auto
qed

section \<open>Properties\<close>

text \<open>
  C23: an emitted wave is complete. It lists the wave's VMs in order, lands every one of them in
  the plan's target namespace, and its NetworkMap and StorageMap hold each source network and
  each datastore of the wave exactly once.
\<close>

theorem emitted_wave_complete:
  assumes "generate_wave_yaml schema describe ctx vms r = Inr docs"
  shows "pd_vms (wd_plan docs) = map plan_vm vms \<and> pd_target_namespace (wd_plan docs) \<noteq> [] \<and>
    list_all (\<lambda>vm. namespace_for ctx r vm = pd_target_namespace (wd_plan docs)) vms \<and>
    distinct (map fst (wd_network_map docs)) \<and> set (map fst (wd_network_map docs)) = used_networks vms \<and>
    distinct (map fst (wd_storage_map docs)) \<and> set (map fst (wd_storage_map docs)) = used_datastores vms"
proof -
  from assms obtain nets plan where g: "vms \<noteq> []" "pre_check ctx r vms = None"
    "build_network_map ctx r vms [] = Inr nets" "build_plan ctx vms r = Inr plan"
    "docs = assemble ctx nets (build_storage_map r vms []) plan" "covered ctx r vms"
    by (rule generate_Inr)
  have "namespace_for ctx r (hd vms) \<noteq> []" using g(1,2) by (simp add: pre_check_None)
  with g build_plan_covered(2) [OF g(1,2,4)] storage_keys [OF g(2)] build_network_map_keys [OF g(3)]
  show ?thesis by (simp add: assemble_def covered_def)
qed

text \<open>
  The maps mean the same for every VM. Under a mapping, the NetworkMap entry of a source is
  the destination each VM using it would get alone, so \<open>first VM wins\<close> never hides a difference.
\<close>

theorem network_map_uniform:
  assumes "generate_wave_yaml schema describe ctx vms (Some res) = Inr docs"
    and "vm \<in> set vms" and "src \<in> set (vp_vsphere_networks vm)" and "src \<noteq> []"
  shows "network_destination ctx (Some res) vm src =
    Inr (the (dict_get (wd_network_map docs) src))"
proof -
  from assms(1) obtain nets plan where g: "pre_check ctx (Some res) vms = None"
    "build_network_map ctx (Some res) vms [] = Inr nets"
    "docs = assemble ctx nets (build_storage_map (Some res) vms []) plan" "covered ctx (Some res) vms"
    by (rule generate_Inr)
  from assms g(1) obtain d where d: "network_destination ctx (Some res) vm src = Inr d"
    using network_destination_covered [of res vm src ctx] by (auto simp: pre_check_None)
  have mapped: "resolve_network res src \<noteq> None"
    using assms g(1) by (auto simp: pre_check_None unmapped_networks_of_def filter_empty_conv)
  have "network_destination ctx (Some res) u src = Inr d" if "u \<in> set vms" for u
  proof -
    have "namespace_for ctx (Some res) u = namespace_for ctx (Some res) vm"
      using g(4) that assms(2) by (rule covered_namespace)
    from network_destination_namespace [OF mapped this] d show ?thesis by (rule trans)
  qed
  moreover have "src \<in> used_networks vms" using assms by (auto simp: used_networks_def)
  ultimately have "dict_get nets src = Some d"
    by (intro build_network_map_get [OF g(2)]) simp_all
  with d g(3) show ?thesis by (simp add: assemble_def)
qed

text \<open>
  Coverage decides. Under a mapping the generator reaches the final document check exactly
  when the wave is not empty, every VM has a namespace and they agree, every source network and
  datastore is mapped, and some VM has a datastore.
\<close>

theorem generation_succeeds_iff:
  "(case generate_wave_yaml schema describe ctx vms (Some res) of
      Inr _ \<Rightarrow> True | Inl (Invalid_documents _) \<Rightarrow> True | Inl _ \<Rightarrow> False)
   = (covered ctx (Some res) vms \<and> used_datastores vms \<noteq> {})"
proof (cases "vms \<noteq> [] \<and> pre_check ctx (Some res) vms = None")
  case False
  show ?thesis
  proof (cases "vms = []")
    case ne: False
    with False obtain e where e: "pre_check ctx (Some res) vms = Some e" by auto
    then obtain a b c where "e = Cannot_generate a b c" by (auto simp: pre_check_def Let_def split: if_splits)
    with ne e show ?thesis by (simp add: generate_wave_yaml_def covered_def)
  qed (simp add: generate_wave_yaml_def covered_def)
next
  case True
  have "\<exists>d. network_destination ctx (Some res) vm src = Inr d"
    if "vm \<in> set vms" "src \<in> set (vp_vsphere_networks vm)" "src \<noteq> []" for vm src
    using True that by (intro network_destination_covered) (auto simp: pre_check_None)
  then obtain nets where nets: "build_network_map ctx (Some res) vms [] = Inr nets"
    using build_network_map_ok [of vms ctx "Some res" "[]"] by blast
  have stores: "build_storage_map (Some res) vms [] = [] \<longleftrightarrow> used_datastores vms = {}"
    using storage_keys(1) [of ctx "Some res" vms] True by auto
  have plan_error: "build_plan ctx vms (Some res) = Inl e \<Longrightarrow> \<exists>xs. e = Several_namespaces xs" for e
    by (auto simp: build_plan_def Let_def split: if_splits)
  show ?thesis
  proof (cases "build_plan ctx vms (Some res)")
    case (Inl e)
    with build_plan_covered(1) [of vms ctx "Some res"] True have "\<not> covered ctx (Some res) vms" by auto
    with Inl plan_error True nets show ?thesis by (auto simp: generate_wave_yaml_def Let_def)
  next
    case (Inr plan)
    with build_plan_covered(1) [of vms ctx "Some res"] True have "covered ctx (Some res) vms" by auto
    with Inr True nets stores show ?thesis by (simp add: generate_wave_yaml_def Let_def)
  qed
qed

section \<open>Document validation\<close>

lemma set_dict_set: "set (dict_set k v d) \<subseteq> insert (k, v) (set d)"
  by (induction d) (auto split: if_splits)

lemma add_networks_entries:
  "add_networks ctx r vm srcs seen = Inr seen' \<Longrightarrow> (src, d) \<in> set seen' \<Longrightarrow>
     (src, d) \<in> set seen \<or> network_destination ctx r vm src = Inr d"
proof (induction srcs arbitrary: seen)
  case (Cons s srcs)
  show ?case
  proof (cases "s = [] \<or> dict_has seen s")
    case True
    with Cons show ?thesis by auto
  next
    case False
    with Cons.prems(1) obtain e where e: "network_destination ctx r vm s = Inr e"
        "add_networks ctx r vm srcs (dict_set s e seen) = Inr seen'"
      by (auto split: sum.splits)
    from Cons.IH [OF e(2) Cons.prems(2)] e(1) set_dict_set [of s e seen] show ?thesis by auto
  qed
qed simp

lemma build_network_map_entries:
  "build_network_map ctx r vms seen = Inr nets \<Longrightarrow> (src, d) \<in> set nets \<Longrightarrow>
     (src, d) \<in> set seen \<or> (\<exists>vm\<in>set vms. network_destination ctx r vm src = Inr d)"
proof (induction vms arbitrary: seen)
  case (Cons vm vms)
  from Cons.prems(1) obtain seen' where s: "add_networks ctx r vm (vp_vsphere_networks vm) seen = Inr seen'"
      "build_network_map ctx r vms seen' = Inr nets"
    by (auto split: sum.splits)
  from Cons.IH [OF s(2) Cons.prems(2)] add_networks_entries [OF s(1)] show ?case by auto
qed simp

lemma network_destination_named:
  assumes "network_destination ctx r vm src = Inr (Dest_multus name ns)" and "namespace_for ctx r vm \<noteq> []"
  shows "name \<noteq> [] \<and> ns \<noteq> []"
proof (cases "Option.bind r (\<lambda>r. resolve_network r src)")
  case None
  with assms show ?thesis by (auto simp: network_destination_def Let_def split: if_splits)
next
  case (Some m)
  then obtain res where "resolve_network res src = Some m" by (auto simp: bind_eq_Some_conv)
  with Some assms show ?thesis
    by (auto simp: network_destination_def Let_def or_else_def dest: resolve_network_named split: if_splits)
qed

lemma network_errors_none:
  assumes "pre_check ctx r vms = None" and "build_network_map ctx r vms [] = Inr nets"
  shows "concat (map network_errors nets) = []"
proof -
  have "network_errors (src, d) = []" if m: "(src, d) \<in> set nets" for src d
  proof (cases d)
    case (Dest_multus name ns)
    obtain vm where "vm \<in> set vms" "network_destination ctx r vm src = Inr d"
      using build_network_map_entries [OF assms(2) m] by auto
    with network_destination_named [of ctx r vm src name ns] assms(1) Dest_multus show ?thesis
      by (simp add: pre_check_None)
  qed simp_all
  then show ?thesis by auto
qed

text \<open>
  The document check never blames the network map. Whatever the validator rejects in a
  generated wave is a resource name, a VM without name, a MoRef or an offload Secret.
\<close>

theorem invalid_documents_blame:
  assumes "generate_wave_yaml (\<lambda>_. []) describe ctx vms r = Inl (Invalid_documents ps)"
  shows "\<exists>es. ps = map describe es \<and> es \<noteq> [] \<and>
    list_all (\<lambda>e. case e of Multus_without_nad _ \<Rightarrow> False | _ \<Rightarrow> True) es"
proof -
  have "pre_check ctx r vms \<noteq> Some (Invalid_documents ps)"
    by (auto simp: pre_check_def Let_def split: if_splits)
  moreover have "build_network_map ctx r vms seen \<noteq> Inl (Invalid_documents ps)" for seen
  proof -
    have "add_networks ctx r vm srcs sn \<noteq> Inl (Invalid_documents ps)" for vm srcs sn
      by (induction srcs arbitrary: sn)
        (auto simp: network_destination_def Let_def split: if_splits sum.splits option.splits)
    then show ?thesis by (induction vms arbitrary: seen) (auto split: sum.splits)
  qed
  moreover have "build_plan ctx vms r \<noteq> Inl (Invalid_documents ps)"
    by (auto simp: build_plan_def Let_def split: if_splits)
  ultimately obtain nets plan where g: "pre_check ctx r vms = None" "build_network_map ctx r vms [] = Inr nets"
      "ps = map describe (semantic_errors (assemble ctx nets (build_storage_map r vms []) plan))" "ps \<noteq> []"
    using assms by (auto simp: generate_wave_yaml_def Let_def split: if_splits option.splits sum.splits)
  let ?es = "semantic_errors (assemble ctx nets (build_storage_map r vms []) plan)"
  have "list_all (\<lambda>e. case e of Multus_without_nad _ \<Rightarrow> False | _ \<Rightarrow> True) ?es"
    using network_errors_none [OF g(1,2)]
    by (auto simp: semantic_errors_def assemble_def name_errors_def vm_errors_def storage_errors_def
        list_all_iff split: semantic_error.splits if_splits option.splits)
  with g show ?thesis by auto
qed

section \<open>A wave at work\<close>

definition demo_context :: wave_context where
  "demo_context = \<lparr>wc_plan_id = 7, wc_wave_number = 1, wc_rationale = [], wc_namespace = ''openshift-mtv'',
     wc_source_provider = ''vmware'', wc_destination_provider = ''host'',
     wc_default_target_namespace = [], wc_migration_type = ''cold''\<rparr>"

definition demo_resolver :: mapping_resolver where
  "demo_resolver = \<lparr>mr_network_mappings =
       [\<lparr>nr_source_network = Some ''dmz'', nr_target_network_name = Some ''dmz-nad'',
         nr_target_network_type = Some ''nad'', nr_target_namespace = None, nr_ignored = False\<rparr>],
     mr_storage_mappings =
       [\<lparr>sr_source_datastore = Some ''ds1'', sr_target_storage_class = Some ''ceph'',
         sr_access_mode = Some ''ReadWriteMany'', sr_volume_mode = None\<rparr>],
     mr_namespace_mappings = Strategy \<lparr>ns_strategy = Some ''single'', ns_single_namespace = Some ''shop'',
       ns_per_env_namespaces = [], ns_per_app_prefix = None\<rparr>,
     mr_catalog = None\<rparr>"

definition demo_payload :: "string \<Rightarrow> string \<Rightarrow> string \<Rightarrow> vm_payload" where
  "demo_payload name moref ns = \<lparr>vp_name = name, vp_moref = moref, vp_vsphere_networks = [''dmz''],
     vp_vsphere_datastores = [''ds1''], vp_environment = [], vp_application_hint = [],
     vp_target_namespace = ns, vp_vcenter_folder = [], vp_target_storage_class = [],
     vp_target_network_attachment = []\<rparr>"

definition demo_wave :: "vm_payload list" where
  "demo_wave = [demo_payload ''web-01'' ''vm-11'' [], demo_payload ''web-02'' [] []]"

definition demo_docs :: wave_docs where
  "demo_docs = projr (generate_wave_yaml (\<lambda>_. []) (\<lambda>_. []) demo_context demo_wave (Some demo_resolver))"

lemma demo_generated:
  "generate_wave_yaml (\<lambda>_. []) (\<lambda>_. []) demo_context demo_wave (Some demo_resolver) = Inr demo_docs"
  by code_simp

theorem emitted_wave_complete_witness:
  "pd_vms (wd_plan demo_docs) = map plan_vm demo_wave \<and> pd_target_namespace (wd_plan demo_docs) \<noteq> [] \<and>
   list_all (\<lambda>vm. namespace_for demo_context (Some demo_resolver) vm =
     pd_target_namespace (wd_plan demo_docs)) demo_wave \<and>
   distinct (map fst (wd_network_map demo_docs)) \<and> set (map fst (wd_network_map demo_docs)) = used_networks demo_wave \<and>
   distinct (map fst (wd_storage_map demo_docs)) \<and> set (map fst (wd_storage_map demo_docs)) = used_datastores demo_wave"
  by (rule emitted_wave_complete [OF demo_generated])

theorem network_map_uniform_witness:
  "network_destination demo_context (Some demo_resolver) (demo_payload ''web-02'' [] []) ''dmz'' =
   Inr (the (dict_get (wd_network_map demo_docs) ''dmz''))"
  by (rule network_map_uniform [OF demo_generated]; code_simp)

theorem invalid_documents_blame_witness:
  "\<exists>es. [''moref''] = map (\<lambda>_. ''moref'') es \<and> es \<noteq> [] \<and>
    list_all (\<lambda>e. case e of Multus_without_nad _ \<Rightarrow> False | _ \<Rightarrow> True) es"
proof -
  have "generate_wave_yaml (\<lambda>_. []) (\<lambda>_. ''moref'') demo_context [demo_payload ''web-01'' ''VM-11'' []]
      (Some demo_resolver) = Inl (Invalid_documents [''moref''])"
    by code_simp
  then show ?thesis by (rule invalid_documents_blame)
qed

section \<open>The override the generator ignores\<close>

text \<open>
  A VM's own target namespace does not reach the plan. When the mapping has a namespace
  strategy, a VM pinned to another namespace is still migrated into the strategy's.
\<close>

theorem namespace_override_ignored:
  "\<exists>vm docs. generate_wave_yaml (\<lambda>_. []) describe demo_context [vm] (Some demo_resolver) = Inr docs \<and>
     vp_target_namespace vm = ''pinned'' \<and> pd_target_namespace (wd_plan docs) = ''shop''"
proof -
  let ?vm = "demo_payload ''web-01'' ''vm-11'' ''pinned''"
  let ?r = "generate_wave_yaml (\<lambda>_. []) describe demo_context [?vm] (Some demo_resolver)"
  have "(case ?r of Inr docs \<Rightarrow> pd_target_namespace (wd_plan docs) = ''shop'' | Inl _ \<Rightarrow> False) \<and>
      vp_target_namespace ?vm = ''pinned''" by code_simp
  then show ?thesis by (cases ?r) auto
qed

end
