(* ===== verification/Pipeline_Properties.thy ===== *)
theory Pipeline_Properties
  imports Plan_Pipeline Target_Resolution MTV_Properties Preclassifier_Properties Wave_Properties
begin

text \<open>
  How the parts of plan generation fit: the three readings of a resource mapping (Stage 0, the
  inventory resolver, the document generator) agree on tidy mappings, Stage 0 admits only waves
  the generator can emit, and the pipeline plans every VM. And where the three readings part.
\<close>

section \<open>One row per source\<close>

lemma find_rev_unique:
  assumes "\<And>x y. x \<in> set xs \<Longrightarrow> y \<in> set xs \<Longrightarrow> P x \<Longrightarrow> P y \<Longrightarrow> x = y"
  shows "List.find P (rev xs) = List.find P xs"
proof (cases "List.find P xs")
  case None
  then have "List.find P (rev xs) = None" unfolding find_None_iff set_rev .
  with None show ?thesis by simp
next
  case (Some x)
  then have x: "x \<in> set xs" "P x" by (auto simp: find_Some_iff)
  then have "List.find P (rev xs) \<noteq> None" by (auto simp: find_None_iff)
  then obtain y where y: "List.find P (rev xs) = Some y" by blast
  then have "y \<in> set (rev xs)" "P y" by (auto simp: find_Some_iff) (metis length_rev nth_mem set_rev)
  with assms [of x y] x y Some show ?thesis by simp
qed

definition one_row_per_source :: "resource_mapping \<Rightarrow> bool" where
  "one_row_per_source m \<longleftrightarrow>
     distinct (map nr_source_network (rm_network_mappings m)) \<and>
     distinct (map sr_source_datastore (rm_storage_mappings m))"

lemma find_source_filter:
  assumes "distinct (map f xs)" and "src \<noteq> []"
  shows "List.find (\<lambda>e. or_empty (f e) = src) (rev (filter (\<lambda>e. truthy (f e)) xs)) =
    List.find (\<lambda>e. f e = Some src) xs"
proof -
  have P: "truthy (f e) \<and> or_empty (f e) = src \<longleftrightarrow> f e = Some src" for e
    using assms(2) by (cases "f e") auto
  have inj: "x = y" if "x \<in> set xs" "y \<in> set xs" "f x = f y" for x y
    using assms(1) that by (auto simp: distinct_map inj_on_def)
  have "List.find (\<lambda>e. or_empty (f e) = src) (rev (filter (\<lambda>e. truthy (f e)) xs)) =
      List.find (\<lambda>e. or_empty (f e) = src) (filter (\<lambda>e. truthy (f e)) xs)"
  proof (rule find_rev_unique)
    fix x y assume "x \<in> set (filter (\<lambda>e. truthy (f e)) xs)" "y \<in> set (filter (\<lambda>e. truthy (f e)) xs)"
      "or_empty (f x) = src" "or_empty (f y) = src"
    then show "x = y" using P [of x] P [of y] by (auto intro: inj)
  qed
  also have "\<dots> = List.find (\<lambda>e. f e = Some src) xs"
    using P by (induction xs) auto
  finally show ?thesis .
qed

lemma index_is_row:
  assumes "one_row_per_source m" and "src \<noteq> []"
  shows "dict_get (network_index (Some m)) src = network_row_of (resolver_of m cat) src"
    and "dict_get (storage_index (Some m)) src = storage_row_of (resolver_of m cat) src"
  using assms find_source_filter [of nr_source_network "rm_network_mappings m" src]
    find_source_filter [of sr_source_datastore "rm_storage_mappings m" src]
  by (simp_all add: network_index_def storage_index_def dict_get_of network_row_of_def storage_row_of_def
      resolver_of_def one_row_per_source_def option.map_id0)

lemma find_key: "distinct (map f xs) \<Longrightarrow> e \<in> set xs \<Longrightarrow> f e = k \<Longrightarrow> List.find (\<lambda>e. f e = k) xs = Some e"
  by (induction xs) (auto simp: image_iff)

lemma unique_row:
  assumes "one_row_per_source m"
  shows "e \<in> set (rm_network_mappings m) \<Longrightarrow> nr_source_network e = Some src \<Longrightarrow>
      network_row_of (resolver_of m cat) src = Some e"
    and "s \<in> set (rm_storage_mappings m) \<Longrightarrow> sr_source_datastore s = Some src \<Longrightarrow>
      storage_row_of (resolver_of m cat) src = Some s"
proof -
  show "e \<in> set (rm_network_mappings m) \<Longrightarrow> nr_source_network e = Some src \<Longrightarrow>
      network_row_of (resolver_of m cat) src = Some e"
    using assms by (auto simp: network_row_of_def resolver_of_def one_row_per_source_def intro: find_key)
  show "s \<in> set (rm_storage_mappings m) \<Longrightarrow> sr_source_datastore s = Some src \<Longrightarrow>
      storage_row_of (resolver_of m cat) src = Some s"
    using assms by (auto simp: storage_row_of_def resolver_of_def one_row_per_source_def intro: find_key)
qed

section \<open>Namespaces\<close>

lemma namespace_strategies_agree:
  "resolve_namespace_via_strategy (rm_namespace_mappings m) v =
   resolve_namespace (resolver_of m cat) (vm_payload_of v)"
proof -
  have "vm_matches v = (\<lambda>e. criteria_match e (vm_payload_of v))"
    by (auto simp: vm_matches_def criteria_match_def vm_payload_of_def Let_def)
  then show ?thesis
    by (simp add: resolve_namespace_via_strategy_def resolve_namespace_def resolver_of_def
        resolve_strategy_def vm_payload_of_def Let_def split: namespace_mappings.split)
qed

text \<open>Only three fields of the payload and the strategy matter.\<close>

lemma resolve_namespace_cong:
  assumes "vp_environment p = vp_environment q" "vp_application_hint p = vp_application_hint q"
    "vp_vcenter_folder p = vp_vcenter_folder q"
  shows "resolve_namespace (resolver_of m c) p = resolve_namespace (resolver_of m c') q"
proof -
  have "criteria_match e p = criteria_match e q" for e
    using assms by (simp add: criteria_match_def)
  moreover have "resolve_strategy nm p = resolve_strategy nm q" for nm
    using assms by (simp add: resolve_strategy_def Let_def)
  ultimately show ?thesis by (cases "rm_namespace_mappings m") (simp_all add: resolve_namespace_def resolver_of_def)
qed

section \<open>Coverage\<close>

text \<open>A tidy mapping: one row per source, no padded target names, pod rows carry a name.\<close>

definition tidy_network_row :: "network_row \<Rightarrow> bool" where
  "tidy_network_row e \<longleftrightarrow>
     str_strip (or_empty (nr_target_network_name e)) = or_empty (nr_target_network_name e) \<and>
     (str_lower (str_strip (or_empty (nr_target_network_type e))) = ''pod'' \<longrightarrow> truthy (nr_target_network_name e))"

definition tidy_storage_row :: "storage_row \<Rightarrow> bool" where
  "tidy_storage_row e \<longleftrightarrow>
     str_strip (or_empty (sr_target_storage_class e)) = or_empty (sr_target_storage_class e)"

definition tidy_mapping :: "resource_mapping \<Rightarrow> bool" where
  "tidy_mapping m \<longleftrightarrow> one_row_per_source m \<and> list_all tidy_network_row (rm_network_mappings m) \<and>
     list_all tidy_storage_row (rm_storage_mappings m)"

lemma row_of_mem:
  "network_row_of (resolver_of m cat) src = Some e \<Longrightarrow> e \<in> set (rm_network_mappings m)"
  "storage_row_of (resolver_of m cat) src = Some s \<Longrightarrow> s \<in> set (rm_storage_mappings m)"
  by (auto simp: network_row_of_def storage_row_of_def resolver_of_def find_Some_iff)

lemma network_resolved_iff:
  assumes "tidy_mapping m" and "src \<noteq> []"
  shows "network_is_resolved (fst (resolve_source_network (network_index (Some m)) catalog hm src)) \<longleftrightarrow>
    resolve_network (resolver_of m cat) src \<noteq> None"
proof (cases "network_row_of (resolver_of m cat) src")
  case None
  then show ?thesis using index_is_row(1) [of m src cat] assms
    by (simp add: tidy_mapping_def resolve_source_network_def resolve_network_def Let_def
        network_is_resolved_def blank_network_def)
next
  case (Some e)
  then have "tidy_network_row e"
    using assms(1) row_of_mem(1) by (auto simp: tidy_mapping_def list_all_iff)
  then show ?thesis using index_is_row(1) [of m src cat] assms Some
    by (cases "nr_target_network_name e")
      (auto simp: tidy_mapping_def tidy_network_row_def resolve_source_network_def resolve_network_def Let_def
        network_is_resolved_def blank_network_def mapped_target_def none_if_empty_def split: if_splits)
qed

lemma storage_resolved_iff:
  assumes "tidy_mapping m" and "src \<noteq> []"
  shows "storage_is_resolved (fst (resolve_source_datastore (storage_index (Some m)) catalog hm src)) \<longleftrightarrow>
    resolve_storage (resolver_of m cat) src \<noteq> None"
proof (cases "storage_row_of (resolver_of m cat) src")
  case None
  then show ?thesis using index_is_row(2) [of m src cat] assms
    by (simp add: tidy_mapping_def resolve_source_datastore_def resolve_storage_def Let_def
        storage_is_resolved_def blank_storage_def)
next
  case (Some e)
  then have "tidy_storage_row e"
    using assms(1) row_of_mem(2) by (auto simp: tidy_mapping_def list_all_iff)
  then show ?thesis using index_is_row(2) [of m src cat] assms Some
    by (cases "sr_target_storage_class e")
      (auto simp: tidy_mapping_def tidy_storage_row_def resolve_source_datastore_def resolve_storage_def
        Let_def storage_is_resolved_def blank_storage_def mapped_class_def)
qed

text \<open>Stage 0 accepts a source when some row maps it; with one row per source that row decides.\<close>

lemma stage0_network:
  assumes "one_row_per_source m" and "src \<in> set (mapped_networks (Some m))"
  shows "resolve_network (resolver_of m cat) src \<noteq> None"
proof -
  from assms(2) obtain e where e: "e \<in> set (rm_network_mappings m)" "truthy (nr_source_network e)"
      "src = or_empty (nr_source_network e)" "\<not> is_blank (nr_target_network_name e) \<or> nr_ignored e"
    by (auto simp: mapped_networks_def)
  then have "nr_source_network e = Some src" by (auto elim: truthyE)
  with e(1) assms(1) have "network_row_of (resolver_of m cat) src = Some e" by (intro unique_row(1))
  with e(4) show ?thesis by (auto simp: resolve_network_def Let_def dest: not_blank_truthy)
qed

lemma stage0_datastore:
  assumes "one_row_per_source m" and "src \<in> set (mapped_datastores (Some m))"
  shows "resolve_storage (resolver_of m cat) src \<noteq> None"
proof -
  from assms(2) obtain e where e: "e \<in> set (rm_storage_mappings m)" "truthy (sr_source_datastore e)"
      "src = or_empty (sr_source_datastore e)" "\<not> is_blank (sr_target_storage_class e)"
    by (auto simp: mapped_datastores_def)
  then have "sr_source_datastore e = Some src" by (auto elim: truthyE)
  with e(1) assms(1) have "storage_row_of (resolver_of m cat) src = Some e" by (intro unique_row(2))
  with e(4) show ?thesis by (simp add: resolve_storage_def not_blank_truthy)
qed

definition labels_stripped :: "vm \<Rightarrow> bool" where
  "labels_stripped v \<longleftrightarrow>
     list_all (\<lambda>s. str_strip (or_empty s) = or_empty s)
       [vm_environment v, vm_application_hint v, vm_vsphere_folder v]"

lemma stage0_namespace:
  assumes "labels_stripped v" and "has_target_namespace v (Some m)"
  shows "namespace_for ctx (Some (resolver_of m cat)) (vm_payload_of v) \<noteq> []"
proof -
  have "resolve_namespace (resolver_of m None) (vm_to_resolver_payload v) =
      resolve_namespace (resolver_of m cat) (vm_payload_of v)"
    using assms(1) by (intro resolve_namespace_cong)
      (simp_all add: labels_stripped_def vm_to_resolver_payload_def vm_payload_of_def)
  with assms(2) show ?thesis
    by (cases "vm_target_namespace_override v")
      (auto simp: has_target_namespace_def namespace_for_def resolver_namespace_def or_else_def vm_payload_of_def
        elim: truthyE)
qed

lemma stage0_vm:
  assumes "vm_gaps mappings v = []" and "pick_mapping_for_vm v mappings = Some m"
    and "one_row_per_source m" and "labels_stripped v"
  shows "namespace_for ctx (Some (resolver_of m cat)) (vm_payload_of v) \<noteq> [] \<and>
    unmapped_networks_of (Some (resolver_of m cat)) (vm_payload_of v) = [] \<and>
    unmapped_datastores_of (Some (resolver_of m cat)) (vm_payload_of v) = [] \<and>
    (\<exists>src\<in>set (vm_vsphere_datastores v). src \<noteq> [])"
proof -
  obtain vc where "vm_source_vcenter_id v = Some vc"
    using assms(2) by (auto simp: pick_mapping_for_vm_def split: option.splits)
  with assms(1,2) have g: "resource_gaps v (mapped_networks (Some m)) (mapped_datastores (Some m))
      (has_target_namespace v (Some m)) = []"
    by (simp add: vm_gaps_def Let_def)
  note gaps = g [unfolded resource_gaps_empty]
  have "unmapped_networks_of (Some (resolver_of m cat)) (vm_payload_of v) = []"
    using gaps stage0_network [OF assms(3)]
    by (auto simp: unmapped_networks_of_def filter_empty_conv vm_payload_of_def)
  moreover have "unmapped_datastores_of (Some (resolver_of m cat)) (vm_payload_of v) = []"
    using gaps stage0_datastore [OF assms(3)]
    by (auto simp: unmapped_datastores_of_def filter_empty_conv vm_payload_of_def)
  ultimately show ?thesis using gaps stage0_namespace [OF assms(4)] by blast
qed

section \<open>Properties\<close>



section \<open>The pipeline\<close>

lemma emit_waves_Inr:
  "emit_waves f ws = Inr as \<Longrightarrow> (\<And>w a. f w = Inr a \<Longrightarrow> g a = w \<and> P a) \<Longrightarrow> map g as = ws \<and> list_all P as"
  by (induction ws arbitrary: as) (auto split: sum.splits)

lemma emit_wave_Inr:
  assumes "emit_wave env pid vms mappings cats mt w = Inr a"
  shows "aw_wave a = w" and "map snd (pd_vms (wd_plan (aw_mtv_yaml a))) = aw_vm_names a"
proof -
  obtain r docs where e: "emit_wave_yaml env pid w (pe_annotate env w) vms r mt = Inr docs"
      "a = \<lparr>aw_wave = w, aw_description = pe_annotate env w, aw_vm_names = map (wave_vm_name vms) (w_vm_ids w),
        aw_mtv_yaml = docs\<rparr>"
    using assms by (auto simp: emit_wave_def Let_def split: sum.splits)
  then show "aw_wave a = w" by simp
  let ?ps = "map vm_payload_of (List.map_filter (find_vm vms) (w_vm_ids w))"
  from e(1) have found: "\<forall>vid\<in>set (w_vm_ids w). \<exists>v. find_vm vms vid = Some v"
    and g: "generate_wave_yaml (pe_schema_errors env) (pe_describe env) (from_settings (pe_settings env) pid
      (w_wave_number w) (pe_annotate env w) None None mt) ?ps r = Inr docs"
    by (auto simp: emit_wave_yaml_def Let_def filter_empty_conv simp del: find_vm_None split: if_splits)
  from generate_plan_vms [OF g] have "pd_vms (wd_plan docs) = map plan_vm ?ps" .
  moreover have "map (\<lambda>v. snd (plan_vm (vm_payload_of v))) (List.map_filter (find_vm vms) ids) = map (wave_vm_name vms) ids"
    if "\<forall>vid\<in>set ids. \<exists>v. find_vm vms vid = Some v" for ids
    using that
    by (induction ids) (auto simp: List.map_filter_simps plan_vm_def vm_payload_of_def wave_vm_name_def name_lookup_def)
  ultimately show "map snd (pd_vms (wd_plan (aw_mtv_yaml a))) = aw_vm_names a"
    using e(2) found by (simp add: comp_def)
qed

lemma concurrency_keeps_vms: "map w_vm_ids (assign_concurrency_groups ws names) = map w_vm_ids ws"
proof -
  have "map w_vm_ids (map (\<lambda>(i, w). w\<lparr>w_concurrency_group_id := c i\<rparr>) (enumerate n ws)) = map w_vm_ids ws" for c n
    by (induction ws arbitrary: n) (simp_all add: w_vm_ids_def)
  then show ?thesis by (simp add: assign_concurrency_groups_def Let_def split: prod.split)
qed

lemma plan_groups_vm_ids: "wf_rows vms \<Longrightarrow> mset (all_vm_ids (plan_groups vms)) = mset (map vm_id vms)"
proof -
  assume "wf_rows vms"
  then have "mset (all_vm_ids (classify None vms)) = mset (map vm_id vms)" by (rule classify_vm_ids)
  moreover have "mset (all_vm_ids (plan_groups vms)) = mset (all_vm_ids (classify None vms))"
    unfolding plan_groups_def split_overconcentrated_families_def Let_def
    by (rule family_split.expand_all_vm_ids) simp
  ultimately show ?thesis by (simp only:)
qed

lemma pipeline_result:
  assumes "run_pipeline env plan_id vms mappings catalogs migration_type = Inr (aws, groups)"
    and "wf_rows vms" and "distinct (map g_id (split_oversized_groups default_assigner groups))"
  shows "mset (concat (map (\<lambda>a. w_vm_ids (aw_wave a)) aws)) = mset (map vm_id vms) \<and>
    list_all (\<lambda>a. map snd (pd_vms (wd_plan (aw_mtv_yaml a))) = aw_vm_names a) aws"
proof -
  from assms(1) obtain ws where r: "assign_waves default_assigner (plan_groups vms) = Inr ws"
      "emit_waves (emit_wave env plan_id vms mappings catalogs migration_type)
        (assign_concurrency_groups ws (name_lookup vms)) = Inr aws" "groups = plan_groups vms"
    by (auto simp: run_pipeline_def Let_def split: if_splits sum.splits)
  have all: "map aw_wave aws = assign_concurrency_groups ws (name_lookup vms) \<and>
      list_all (\<lambda>a. map snd (pd_vms (wd_plan (aw_mtv_yaml a))) = aw_vm_names a) aws"
    using r(2) by (rule emit_waves_Inr) (blast intro: emit_wave_Inr)
  have "map (\<lambda>a. w_vm_ids (aw_wave a)) aws = map w_vm_ids (map aw_wave aws)" by simp
  also have "\<dots> = map w_vm_ids ws" unfolding conjunct1 [OF all] by (rule concurrency_keeps_vms)
  finally have "mset (concat (map (\<lambda>a. w_vm_ids (aw_wave a)) aws)) = mset (concat (map w_vm_ids ws))"
    by (rule arg_cong)
  also have "\<dots> = mset (all_vm_ids (plan_groups vms))"
    by (rule assign_waves_vm_ids [OF r(1) [unfolded default_assigner_def]])
      (use assms(3) r(3) in \<open>simp add: default_assigner_def\<close>)
  also have "\<dots> = mset (map vm_id vms)" by (rule plan_groups_vm_ids [OF assms(2)])
  finally show ?thesis using all by blast
qed


section \<open>A plan at work\<close>

definition demo_mapping :: "int \<Rightarrow> int \<Rightarrow> string \<Rightarrow> resource_mapping" where
  "demo_mapping i cluster sc = \<lparr>rm_id = i, rm_vcenter_source_id = 1, rm_ocp_target_id = cluster,
     rm_network_mappings = mr_network_mappings demo_resolver,
     rm_storage_mappings = [\<lparr>sr_source_datastore = Some ''ds1'', sr_target_storage_class = Some sc,
       sr_access_mode = None, sr_volume_mode = None\<rparr>],
     rm_namespace_mappings = mr_namespace_mappings demo_resolver\<rparr>"

definition demo_db :: "resource_mapping list \<Rightarrow> target_db" where
  "demo_db ms = \<lparr>td_mappings = ms, td_clusters = [\<lparr>ot_id = 1, ot_name = ''ocp-a''\<rparr>, \<lparr>ot_id = 2, ot_name = ''ocp-b''\<rparr>],
     td_networks = [], td_storage_classes = []\<rparr>"

definition demo_vm :: "int \<Rightarrow> string \<Rightarrow> vm" where
  "demo_vm i n = (mk_vm i n)\<lparr>vm_source_vcenter_id := Some 1, vm_vsphere_networks := [''dmz''],
     vm_vsphere_datastores := [''ds1'']\<rparr>"

definition demo_env :: pipeline_env where
  "demo_env = \<lparr>pe_schema_errors = (\<lambda>_. []), pe_describe = (\<lambda>_. ''error''), pe_annotate = (\<lambda>_. ''first wave''),
     pe_settings = \<lparr>mtv_namespace = ''openshift-mtv'', mtv_source_provider = ''vmware'',
       mtv_destination_provider = ''host'', mtv_default_target_namespace = []\<rparr>\<rparr>"

definition demo_vms :: "vm list" where
  "demo_vms = [demo_vm 1 ''web-01'', demo_vm 2 ''web-02'', demo_vm 3 ''db-01'']"

definition demo_run :: "annotated_wave list \<times> vm_group list" where
  "demo_run = projr (run_pipeline demo_env 7 demo_vms [demo_mapping 1 1 ''ceph''] [] ''cold'')"

lemma demo_run_ok:
  "run_pipeline demo_env 7 demo_vms [demo_mapping 1 1 ''ceph''] [] ''cold'' = Inr (fst demo_run, snd demo_run)"
  by code_simp

lemma demo_run_rows: "wf_rows demo_vms"
  by code_simp

lemma demo_run_ids: "distinct (map g_id (split_oversized_groups default_assigner (snd demo_run)))"
  by code_simp


lemma demo_cluster:
  "resolve_cluster (demo_vm 1 ''web-01'') (load_caches (demo_db [demo_mapping 1 1 ''ceph''])) = (Some 1, None)"
  by code_simp

lemma demo_pair:
  "pair_mapping (load_caches (demo_db [demo_mapping 1 1 ''ceph''])) (demo_vm 1 ''web-01'') 1 =
     Some (demo_mapping 1 1 ''ceph'')"
  by code_simp

lemma demo_tidy: "tidy_mapping (demo_mapping 1 1 ''ceph'')"
  by code_simp


lemma demo_stage0:
  "validate_plan_inputs demo_vms [demo_mapping 1 1 ''ceph''] = []"
  "list_all (\<lambda>v. pick_mapping_for_vm v [demo_mapping 1 1 ''ceph''] = Some (demo_mapping 1 1 ''ceph'') \<and>
     labels_stripped v) demo_vms"
  subgoal by code_simp
  subgoal by code_simp
  done


section \<open>Where the readings part\<close>

text \<open>
  A source mapped twice passes Stage 0 and fails at emission. Stage 0 accepts a network when
  any row maps it, the generator reads the first row and the inventory resolver the last.
\<close>

theorem duplicate_rows_disagree:
  "\<exists>m. validate_plan_inputs [demo_vm 1 ''web-01''] [m] = [] \<and>
     rt_is_complete (resolve_vm_target (demo_vm 1 ''web-01'') (demo_db [m])) \<and>
     pre_check demo_context (Some (resolver_of m None)) [vm_payload_of (demo_vm 1 ''web-01'')] \<noteq> None"
  by (rule exI [of _ "(demo_mapping 1 1 ''ceph'')\<lparr>rm_network_mappings :=
       \<lparr>nr_source_network = Some ''dmz'', nr_target_network_name = None, nr_target_network_type = None,
         nr_target_namespace = None, nr_ignored = False\<rparr> # mr_network_mappings demo_resolver\<rparr>"]) code_simp

text \<open>
  A pod row without a name is complete for the inventory and a gap for Stage 0, so the VM is
  shown as ready and then refused.
\<close>

theorem pod_row_disagrees:
  "\<exists>m. one_row_per_source m \<and> rt_is_complete (resolve_vm_target (demo_vm 1 ''web-01'') (demo_db [m])) \<and>
     validate_plan_inputs [demo_vm 1 ''web-01''] [m] \<noteq> []"
  by (rule exI [of _ "(demo_mapping 1 1 ''ceph'')\<lparr>rm_network_mappings :=
       [\<lparr>nr_source_network = Some ''dmz'', nr_target_network_name = None, nr_target_network_type = Some ''pod'',
         nr_target_namespace = None, nr_ignored = False\<rparr>]\<rparr>"]) code_simp

text \<open>
  The pipeline can use the mapping of another cluster. A VM pinned to the second cluster of
  its vCenter is emitted with the first cluster's mapping, unlike in the inventory.
\<close>

theorem mapping_ignores_cluster:
  "\<exists>v aws gs. run_pipeline demo_env 7 [v] [demo_mapping 1 1 ''ceph'', demo_mapping 2 2 ''netapp''] [] ''cold''
       = Inr (aws, gs) \<and>
     map (\<lambda>a. map (\<lambda>(src, e). se_storage_class e) (wd_storage_map (aw_mtv_yaml a))) aws = [[''ceph'']] \<and>
     map rs_target_storage_class_name (rt_storage (resolve_vm_target v
       (demo_db [demo_mapping 1 1 ''ceph'', demo_mapping 2 2 ''netapp'']))) = [Some ''netapp'']"
proof -
  define v where "v = (demo_vm 1 ''web-01'')\<lparr>vm_target_cluster_id_override := Some 2\<rparr>"
  define r where "r = run_pipeline demo_env 7 [v] [demo_mapping 1 1 ''ceph'', demo_mapping 2 2 ''netapp''] [] ''cold''"
  have "(case r of Inl _ \<Rightarrow> False
      | Inr (aws, _) \<Rightarrow> map (\<lambda>a. map (\<lambda>(src, e). se_storage_class e) (wd_storage_map (aw_mtv_yaml a))) aws = [[''ceph'']])"
    unfolding r_def v_def by code_simp
  then obtain aws gs where "r = Inr (aws, gs)"
      "map (\<lambda>a. map (\<lambda>(src, e). se_storage_class e) (wd_storage_map (aw_mtv_yaml a))) aws = [[''ceph'']]"
    by (cases r) (simp_all only: sum.case split: prod.splits)
  moreover have "map rs_target_storage_class_name (rt_storage (resolve_vm_target v
      (demo_db [demo_mapping 1 1 ''ceph'', demo_mapping 2 2 ''netapp'']))) = [Some ''netapp'']"
    unfolding v_def by code_simp
  ultimately show ?thesis unfolding r_def by (intro exI [of _ v] exI [of _ aws] exI [of _ gs] conjI)
qed

text \<open>
  Stage 0 strips labels the generator compares unstripped. A namespace rule for an
  environment covers a VM whose label has a trailing blank only in Stage 0.
\<close>

theorem padded_label_disagrees:
  "\<exists>v m. validate_plan_inputs [v] [m] = [] \<and> one_row_per_source m \<and>
     pre_check demo_context (Some (resolver_of m None)) [vm_payload_of v] \<noteq> None"
  by (rule exI [of _ "(demo_vm 1 ''web-01'')\<lparr>vm_environment := Some ''prod ''\<rparr>"],
      rule exI [of _ "(demo_mapping 1 1 ''ceph'')\<lparr>rm_namespace_mappings := Criteria_rows
        [\<lparr>cr_criteria = Some ''environment'', cr_criteria_value = Some ''prod'',
          cr_target_namespace = Some ''shop''\<rparr>]\<rparr>"]) code_simp

end
