(* ===== verification/Assessment.thy ===== *)
theory Assessment
  imports Inventory
begin

text \<open>
  \<open>app/core/assessment.py\<close>: the migratability rules. Each rule reports a finding, says that it
  could not be evaluated, or passes; \<open>assess\<close> runs them all and rolls the findings up to a
  status. Identifiers, categories and the migration type a finding applies to are kept, labels,
  remedies and evidence are left out.
\<close>

section \<open>Facts and results\<close>

definition CRITICAL :: string where "CRITICAL = ''Critical''"
definition WARNING :: string where "WARNING = ''Warning''"
definition INFORMATION :: string where "INFORMATION = ''Information''"

definition SUPPORTED_OS_SUBSTRINGS :: "string list" where
  "SUPPORTED_OS_SUBSTRINGS =
     [''red hat enterprise linux 7'', ''red hat enterprise linux 8'', ''red hat enterprise linux 9'',
      ''red hat enterprise linux 10'', ''windows 10'', ''windows 11'', ''windows server 2016'',
      ''windows server 2019'', ''windows server 2022'', ''windows server 2025'']"

definition INDEPENDENT_MODES :: "string list" where
  "INDEPENDENT_MODES = [''independent_persistent'', ''independent_nonpersistent'']"

definition LIVE_MIGRATION_VM_NAME_MAX :: nat where "LIVE_MIGRATION_VM_NAME_MAX = 47"

text \<open>An empty facts dictionary is \<open>None\<close>: the VM was added by hand.\<close>

record vm_facts =
  vf_name :: string
  vf_source_hostname :: "string option"
  vf_ip_address :: "string option"
  vf_power_state :: "string option"
  vf_guest_os_full :: "string option"
  vf_vsphere_datastores :: "string list"
  vf_hardware :: "hardware_facts option"

definition facts_from_vm :: "vm \<Rightarrow> vm_facts" where
  "facts_from_vm v =
     \<lparr>vf_name = vm_name v, vf_source_hostname = vm_source_hostname v, vf_ip_address = vm_ip_address v,
      vf_power_state = vm_power_state v, vf_guest_os_full = vm_guest_os_full v,
      vf_vsphere_datastores = vm_vsphere_datastores v, vf_hardware = vm_hardware_facts v\<rparr>"

text \<open>\<open>hardware.get(key)\<close>: \<open>d\<close> when there are no facts.\<close>

definition hw :: "vm_facts \<Rightarrow> (hardware_facts \<Rightarrow> 'a) \<Rightarrow> 'a \<Rightarrow> 'a" where
  "hw f key d = (case vf_hardware f of None \<Rightarrow> d | Some h \<Rightarrow> key h)"

definition vf_disks :: "vm_facts \<Rightarrow> disk_facts list" where
  "vf_disks f = hw f hf_disks []"

definition has_disk_detail :: "vm_facts \<Rightarrow> bool" where
  "has_disk_detail f \<longleftrightarrow> vf_disks f \<noteq> []"

definition powered_on :: "vm_facts \<Rightarrow> bool" where
  "powered_on f \<longleftrightarrow> str_lower (or_empty (vf_power_state f)) = ''poweredon''"

datatype rule_result = Found finding | Not_evaluated string | Clean

definition found :: "string \<Rightarrow> string \<Rightarrow> rule_result" where
  "found i c = Found \<lparr>fi_id = i, fi_category = c, fi_applies_to = ''all''\<rparr>"

definition os_name :: "vm_facts \<Rightarrow> string" where
  "os_name f = str_lower (or_empty (vf_guest_os_full f))"

section \<open>The rules\<close>

definition datastore_missing :: "vm_facts \<Rightarrow> rule_result" where
  "datastore_missing f =
     (let orphans = filter (\<lambda>d. \<not> truthy (df_datastore d)) (vf_disks f)
      in if orphans \<noteq> [] \<or> (\<not> has_disk_detail f \<and> vf_vsphere_datastores f = [])
         then found ''vmware.datastore.missing'' CRITICAL else Clean)"

text \<open>The four rules that need the vDisk rows share their shape.\<close>

definition disk_rule :: "string \<Rightarrow> string \<Rightarrow> (disk_facts \<Rightarrow> bool) \<Rightarrow> vm_facts \<Rightarrow> rule_result" where
  "disk_rule i c hit f =
     (if \<not> has_disk_detail f then Not_evaluated i
      else if filter hit (vf_disks f) \<noteq> [] then found i c else Clean)"

definition rdm_disk :: "vm_facts \<Rightarrow> rule_result" where
  "rdm_disk = disk_rule ''vmware.disk.rdm.detected'' WARNING df_raw"

definition independent_mode :: "disk_facts \<Rightarrow> bool" where
  "independent_mode d \<longleftrightarrow> str_lower (or_empty (df_mode d)) \<in> set INDEPENDENT_MODES"

definition independent_disk :: "vm_facts \<Rightarrow> rule_result" where
  "independent_disk = disk_rule ''vmware.disk_mode.independent'' WARNING independent_mode"

definition is_shared :: "disk_facts \<Rightarrow> bool" where
  "is_shared d \<longleftrightarrow>
     (truthy (df_sharing d) \<and> df_sharing d \<noteq> Some ''sharingNone'') \<or>
     (truthy (df_shared_bus d) \<and> df_shared_bus d \<noteq> Some ''noSharing'')"

definition shared_disk :: "vm_facts \<Rightarrow> rule_result" where
  "shared_disk = disk_rule ''vmware.disk.shared.detected'' WARNING is_shared"

definition controller_is :: "string \<Rightarrow> disk_facts \<Rightarrow> bool" where
  "controller_is s d \<longleftrightarrow> contains_str s (str_lower (or_empty (df_controller d)))"

definition nvme_disk :: "vm_facts \<Rightarrow> rule_result" where
  "nvme_disk = disk_rule ''vv.disk.nvme.detected'' CRITICAL (controller_is ''nvme'')"

definition changed_block_tracking :: "vm_facts \<Rightarrow> rule_result" where
  "changed_block_tracking f =
     (case hw f hf_cbt None of
        None \<Rightarrow> Not_evaluated ''vmware.changed_block_tracking.disabled''
      | Some True \<Rightarrow> Clean
      | Some False \<Rightarrow> Found \<lparr>fi_id = ''vmware.changed_block_tracking.disabled'', fi_category = WARNING,
          fi_applies_to = ''warm''\<rparr>)"

definition consolidation_needed :: "vm_facts \<Rightarrow> rule_result" where
  "consolidation_needed f =
     (if hw f hf_consolidation_needed False then found ''vmware.consolidation_needed'' WARNING else Clean)"

definition snapshot :: "vm_facts \<Rightarrow> rule_result" where
  "snapshot f = (if hw f hf_snapshots [] \<noteq> [] then found ''vmware.snapshot.detected'' INFORMATION else Clean)"

definition guest_os :: "vm_facts \<Rightarrow> rule_result" where
  "guest_os f =
     (let name = (if truthy (vf_guest_os_full f) then vf_guest_os_full f else hw f hf_guest_os_tools None)
      in if \<not> truthy name then Not_evaluated ''vmware.os.unsupported''
         else if \<not> list_ex (\<lambda>s. contains_str s (str_lower (or_empty name))) SUPPORTED_OS_SUBSTRINGS
           then found ''vmware.os.unsupported'' WARNING
         else Clean)"

definition windows_2012_no_virtio :: "vm_facts \<Rightarrow> rule_result" where
  "windows_2012_no_virtio f =
     (if contains_str ''windows server 2012'' (os_name f)
      then found ''vv.os.windows2012.no_virtio'' WARNING else Clean)"

definition name_body :: "char \<Rightarrow> bool" where
  "name_body c \<longleftrightarrow> is_alnum c \<or> c = CHR ''-'' \<or> c = CHR ''.''"

definition valid_name :: "string \<Rightarrow> bool" where
  "valid_name s \<longleftrightarrow> s = [] \<or> (is_alnum (hd s) \<and> is_alnum (last s) \<and> list_all name_body s)"

definition vm_name_rule :: "vm_facts \<Rightarrow> rule_result" where
  "vm_name_rule f =
     (if \<not> (matches_to_end valid_name (vf_name f) \<and> length (vf_name f) < 64)
      then found ''vmware.vm.name.invalid'' WARNING else Clean)"

definition vm_name_live_migration :: "vm_facts \<Rightarrow> rule_result" where
  "vm_name_live_migration f =
     (if length (vf_name f) > LIVE_MIGRATION_VM_NAME_MAX
      then found ''vv.vm.name.live_migration_length'' WARNING else Clean)"

definition rhel_static_ip :: "vm_facts \<Rightarrow> rule_result" where
  "rhel_static_ip f =
     (if truthy (vf_ip_address f) \<and>
         (contains_str ''red hat enterprise linux 9'' (os_name f) \<or>
          contains_str ''red hat enterprise linux 10'' (os_name f))
      then found ''vv.os.rhel9_10.static_ip'' INFORMATION else Clean)"

definition hostname_rule :: "vm_facts \<Rightarrow> rule_result" where
  "hostname_rule f =
     (let host = str_strip (or_empty (vf_source_hostname f))
      in if host = ''localhost.localdomain'' then found ''vmware.hostname.default'' WARNING
         else if \<not> powered_on f \<and> (host = [] \<or> host = vf_name f)
           then found ''vmware.hostname.empty'' WARNING
         else Clean)"

definition missing_ip :: "vm_facts \<Rightarrow> rule_result" where
  "missing_ip f = (if \<not> truthy (vf_ip_address f) then found ''vmware.vm_missing_ip.detected'' WARNING else Clean)"

definition hotplug :: "vm_facts \<Rightarrow> rule_result" where
  "hotplug f =
     (let cpu = hw f hf_cpu_hot_add None; mem = hw f hf_mem_hot_add None
      in if cpu = None \<and> mem = None then Not_evaluated ''vmware.cpu_memory.hotplug.enabled''
         else if cpu = Some True \<or> mem = Some True then found ''vmware.cpu_memory.hotplug.enabled'' WARNING
         else Clean)"

definition fault_tolerance :: "vm_facts \<Rightarrow> rule_result" where
  "fault_tolerance f =
     (let state = str_lower (or_empty (hw f hf_ft_state None))
      in if state \<noteq> [] \<and> state \<notin> set [''notconfigured'', ''disabled'']
         then found ''vmware.fault_tolerance.enabled'' INFORMATION else Clean)"

definition cluster_rules :: "vm_facts \<Rightarrow> rule_result" where
  "cluster_rules f =
     (if hw f hf_cluster_rules [] \<noteq> [] then found ''vmware.host_affinity.detected'' WARNING else Clean)"

definition secure_boot :: "vm_facts \<Rightarrow> rule_result" where
  "secure_boot f = (if hw f hf_secure_boot False then found ''vv.firmware.secure_boot'' WARNING else Clean)"

definition disk_serials :: "vm_facts \<Rightarrow> rule_result" where
  "disk_serials f =
     (if hw f hf_enable_uuid False \<and> list_ex (controller_is ''scsi'') (vf_disks f)
      then found ''vmware.disk_serial.truncated'' INFORMATION else Clean)"

definition RULES :: "(vm_facts \<Rightarrow> rule_result) list" where
  "RULES = [datastore_missing, rdm_disk, independent_disk, shared_disk, nvme_disk,
     changed_block_tracking, consolidation_needed, snapshot, guest_os, windows_2012_no_virtio,
     vm_name_rule, vm_name_live_migration, rhel_static_ip, hostname_rule, missing_ip, hotplug,
     fault_tolerance, cluster_rules, secure_boot, disk_serials]"

definition NEVER_EVALUATED :: "string list" where
  "NEVER_EVALUATED = [''vmware.tpm.detected'', ''vmware.passthrough_device.detected'',
     ''vmware.usb_controller.detected'', ''vmware.device.sriov.detected'', ''vmware.cpu_affinity.detected'',
     ''vmware.numa_affinity.detected'', ''vmware.drs.enabled'', ''vmware.dpm.enabled'',
     ''vv.fips.vsphere_version'']"

section \<open>The assessment\<close>

record assessment =
  as_status :: string
  as_findings :: "finding list"
  as_not_evaluated :: "string list"

fun severity_order :: "string \<Rightarrow> nat" where
  "severity_order c = (if c = CRITICAL then 0 else if c = WARNING then 1 else 2)"

fun result_finding :: "rule_result \<Rightarrow> finding option" where
  "result_finding (Found f) = Some f"
| "result_finding _ = None"

fun result_skipped :: "rule_result \<Rightarrow> string option" where
  "result_skipped (Not_evaluated i) = Some i"
| "result_skipped _ = None"

definition rule_results :: "vm_facts \<Rightarrow> rule_result list" where
  "rule_results f = map (\<lambda>r. r f) RULES"

definition status_of :: "finding list \<Rightarrow> string" where
  "status_of findings =
     (if list_ex (\<lambda>x. fi_category x = CRITICAL) findings then ''blocked''
      else if list_ex (\<lambda>x. fi_category x = WARNING) findings then ''warning''
      else ''ok'')"

definition assess :: "vm_facts \<Rightarrow> assessment" where
  "assess f =
     (if vf_hardware f = None
      then \<lparr>as_status = ''unknown'', as_findings = [], as_not_evaluated = [''*'']\<rparr>
      else (let results = rule_results f;
                findings = sort_key (\<lambda>x. (severity_order (fi_category x), fi_id x))
                  (List.map_filter result_finding results)
            in \<lparr>as_status = status_of findings, as_findings = findings,
                as_not_evaluated = NEVER_EVALUATED @ List.map_filter result_skipped results\<rparr>))"

definition blocks :: "string \<Rightarrow> finding \<Rightarrow> bool" where
  "blocks migration_type f \<longleftrightarrow>
     fi_category f = CRITICAL \<or> (migration_type = ''warm'' \<and> fi_applies_to f = ''warm'')"

definition blocks_migration_type :: "finding list option \<Rightarrow> string \<Rightarrow> string list" where
  "blocks_migration_type stored migration_type =
     map fi_id (filter (blocks migration_type) (case stored of None \<Rightarrow> [] | Some fs \<Rightarrow> fs))"

section \<open>What an assessment says\<close>

lemmas rule_defs = rdm_disk_def independent_disk_def shared_disk_def consolidation_needed_def snapshot_def guest_os_def
  windows_2012_no_virtio_def vm_name_rule_def vm_name_live_migration_def rhel_static_ip_def
  hostname_rule_def missing_ip_def hotplug_def fault_tolerance_def cluster_rules_def
  secure_boot_def disk_serials_def disk_rule_def Let_def

lemmas category_defs = CRITICAL_def WARNING_def INFORMATION_def

lemma result_finding_Some [simp]: "result_finding r = Some x \<longleftrightarrow> r = Found x"
  by (cases r) auto

lemma result_skipped_Some [simp]: "result_skipped r = Some i \<longleftrightarrow> r = Not_evaluated i"
  by (cases r) auto

lemma findings_iff:
  "x \<in> set (as_findings (assess f)) \<longleftrightarrow> vf_hardware f \<noteq> None \<and> Found x \<in> set (rule_results f)"
  by (auto simp: assess_def Let_def set_map_filter)

text \<open>A result that is not critical, and concerns warm plans only when tracking is off.\<close>

definition minor :: "vm_facts \<Rightarrow> rule_result \<Rightarrow> bool" where
  "minor f r \<longleftrightarrow> (\<forall>x. r = Found x \<longrightarrow> fi_category x \<noteq> CRITICAL \<and>
     (fi_applies_to x = ''warm'' \<longrightarrow> hw f hf_cbt None = Some False))"

lemma minor_simps [simp]:
  "minor f Clean" "minor f (Not_evaluated i)" "minor f (found i c) \<longleftrightarrow> c \<noteq> CRITICAL"
  by (auto simp: minor_def found_def)

lemma minor_if: "minor f (if c then a else b) \<longleftrightarrow> (if c then minor f a else minor f b)"
  by simp

lemma categories [simp]: "WARNING \<noteq> CRITICAL" "INFORMATION \<noteq> CRITICAL"
  by (simp_all add: category_defs)

lemma minor_cbt: "minor f (changed_block_tracking f)"
  by (auto simp: minor_def changed_block_tracking_def split: option.splits bool.splits)

lemma minor_rules:
  "minor f (rdm_disk f)" "minor f (independent_disk f)" "minor f (shared_disk f)"
  "minor f (consolidation_needed f)" "minor f (snapshot f)" "minor f (guest_os f)"
  "minor f (windows_2012_no_virtio f)" "minor f (vm_name_rule f)" "minor f (vm_name_live_migration f)"
  "minor f (rhel_static_ip f)" "minor f (hostname_rule f)" "minor f (missing_ip f)" "minor f (hotplug f)"
  "minor f (fault_tolerance f)" "minor f (cluster_rules f)" "minor f (secure_boot f)" "minor f (disk_serials f)"
  by (simp_all only: rule_defs minor_if minor_simps categories not_False_eq_True if_cancel)

lemma reported_minor_or_major:
  assumes "Found x \<in> set (rule_results f)"
  shows "minor f (Found x) \<or> datastore_missing f = Found x \<or> nvme_disk f = Found x"
  using assms unfolding rule_results_def RULES_def list.map list.set insert_iff empty_iff
  by (elim disjE; simp only: minor_rules minor_cbt simp_thms)

lemma cbt_found:
  assumes "hw f hf_cbt None = Some False"
  shows "Found \<lparr>fi_id = ''vmware.changed_block_tracking.disabled'', fi_category = WARNING,
    fi_applies_to = ''warm''\<rparr> \<in> set (rule_results f)"
  using assms by (simp add: rule_results_def RULES_def changed_block_tracking_def)

text \<open>A VM no plan may take: a disk off any datastore, no datastore at all, or an NVMe disk.\<close>

definition unmigratable :: "vm_facts \<Rightarrow> bool" where
  "unmigratable f \<longleftrightarrow>
     list_ex (\<lambda>d. \<not> truthy (df_datastore d) \<or> controller_is ''nvme'' d) (vf_disks f)
     \<or> (vf_disks f = [] \<and> vf_vsphere_datastores f = [])"

lemma major_rules:
  "(\<exists>x. Found x \<in> set (rule_results f) \<and> fi_category x = CRITICAL) \<longleftrightarrow> unmigratable f"
proof -
  have major: "(\<exists>x. Found x \<in> set (rule_results f) \<and> fi_category x = CRITICAL) \<longleftrightarrow>
      (\<exists>x. datastore_missing f = Found x \<and> fi_category x = CRITICAL) \<or>
      (\<exists>x. nvme_disk f = Found x \<and> fi_category x = CRITICAL)" (is "?L \<longleftrightarrow> ?R")
  proof
    assume ?L
    then obtain x where "Found x \<in> set (rule_results f)" "fi_category x = CRITICAL" by blast
    with reported_minor_or_major [of x f] show ?R unfolding minor_def by metis
  next
    assume ?R
    then show ?L by (auto simp: rule_results_def RULES_def)
  qed
  have "(\<exists>x. datastore_missing f = Found x \<and> fi_category x = CRITICAL) \<longleftrightarrow>
      list_ex (\<lambda>d. \<not> truthy (df_datastore d)) (vf_disks f) \<or> (vf_disks f = [] \<and> vf_vsphere_datastores f = [])"
    by (auto simp: datastore_missing_def found_def Let_def has_disk_detail_def filter_empty_conv list_ex_iff)
  moreover have "(\<exists>x. nvme_disk f = Found x \<and> fi_category x = CRITICAL) \<longleftrightarrow>
      list_ex (controller_is ''nvme'') (vf_disks f)"
    by (auto simp: nvme_disk_def disk_rule_def found_def has_disk_detail_def filter_empty_conv list_ex_iff)
  ultimately show ?thesis
    unfolding major unmigratable_def by (auto simp: list_ex_iff)
qed

lemma status_blocked: "status_of fs = ''blocked'' \<longleftrightarrow> (\<exists>x\<in>set fs. fi_category x = CRITICAL)"
  by (auto simp: status_of_def list_ex_iff)

lemma assess_blocked:
  "as_status (assess f) = ''blocked'' \<longleftrightarrow> (\<exists>x\<in>set (as_findings (assess f)). fi_category x = CRITICAL)"
  by (simp add: assess_def Let_def status_blocked)

text \<open>
  What makes a VM blocked. The status is blocked exactly for a VM with RVTools facts that has
  a disk off any datastore, no datastore at all, or an NVMe disk.
\<close>

theorem assess_blocked_iff:
  "as_status (assess f) = ''blocked'' \<longleftrightarrow> vf_hardware f \<noteq> None \<and> unmigratable f"
  using major_rules [of f] by (auto simp: assess_blocked findings_iff)

text \<open>
  The gate agrees with the assessment. A stored assessment keeps a VM out of cold plans
  exactly when its status is blocked, and out of warm plans also when the export says that
  changed block tracking is off.
\<close>

theorem assessment_gates_plans:
  "blocks_migration_type (Some (as_findings (assess f))) ''cold'' = [] \<longleftrightarrow> as_status (assess f) \<noteq> ''blocked''"
  "blocks_migration_type (Some (as_findings (assess f))) ''warm'' = [] \<longleftrightarrow>
     as_status (assess f) \<noteq> ''blocked'' \<and> hw f hf_cbt None \<noteq> Some False"
proof -
  show "blocks_migration_type (Some (as_findings (assess f))) ''cold'' = [] \<longleftrightarrow> as_status (assess f) \<noteq> ''blocked''"
    by (auto simp: blocks_migration_type_def blocks_def assess_blocked filter_empty_conv)
  have applies: "fi_applies_to x \<noteq> ''warm''" if "datastore_missing f = Found x \<or> nvme_disk f = Found x" for x
    using that by (auto simp: datastore_missing_def nvme_disk_def disk_rule_def found_def Let_def split: if_splits)
  have warm: "(\<exists>x\<in>set (as_findings (assess f)). fi_applies_to x = ''warm'') \<longleftrightarrow> hw f hf_cbt None = Some False"
    (is "?L \<longleftrightarrow> ?R")
  proof
    assume ?L
    then obtain x where "Found x \<in> set (rule_results f)" "fi_applies_to x = ''warm''"
      by (auto simp: findings_iff)
    with reported_minor_or_major [of x f] applies [of x] show ?R unfolding minor_def by metis
  next
    assume r: ?R
    then have "vf_hardware f \<noteq> None" by (cases "vf_hardware f") (simp_all add: hw_def)
    with cbt_found [OF r] show ?L
      by (intro bexI [of _ "\<lparr>fi_id = ''vmware.changed_block_tracking.disabled'', fi_category = WARNING,
        fi_applies_to = ''warm''\<rparr>"]) (simp_all add: findings_iff)
  qed
  show "blocks_migration_type (Some (as_findings (assess f))) ''warm'' = [] \<longleftrightarrow>
     as_status (assess f) \<noteq> ''blocked'' \<and> hw f hf_cbt None \<noteq> Some False"
    using warm by (auto simp: blocks_migration_type_def blocks_def assess_blocked filter_empty_conv)
qed

lemma assess_complete:
  assumes "vf_hardware f = Some h"
  shows "mset (map Found (as_findings (assess f))) = mset (filter (\<lambda>r. result_finding r \<noteq> None) (rule_results f))"
    and "sorted (map (\<lambda>x. (severity_order (fi_category x), fi_id x)) (as_findings (assess f)))"
    and "set (as_not_evaluated (assess f)) = set NEVER_EVALUATED \<union> {i. Not_evaluated i \<in> set (rule_results f)}"
    and "length (rule_results f) = 20"
proof -
  have "map Found (List.map_filter result_finding rs) = filter (\<lambda>r. result_finding r \<noteq> None) rs" for rs
  proof (induction rs)
    case (Cons r rs)
    then show ?case by (cases r) (auto simp: map_filter_simps)
  qed (simp add: map_filter_simps)
  note found = this
  have fs: "as_findings (assess f) = sort_key (\<lambda>x. (severity_order (fi_category x), fi_id x))
      (List.map_filter result_finding (rule_results f))"
    using assms by (simp add: assess_def Let_def del: severity_order.simps)
  show "mset (map Found (as_findings (assess f))) = mset (filter (\<lambda>r. result_finding r \<noteq> None) (rule_results f))"
    unfolding fs mset_sort_key_map found by (rule refl)
  show "sorted (map (\<lambda>x. (severity_order (fi_category x), fi_id x)) (as_findings (assess f)))"
    unfolding fs by (rule sorted_sort_key)
  show "set (as_not_evaluated (assess f)) = set NEVER_EVALUATED \<union> {i. Not_evaluated i \<in> set (rule_results f)}"
    using assms by (auto simp: assess_def Let_def set_map_filter)
  show "length (rule_results f) = 20" by (simp add: rule_results_def RULES_def)
qed

text \<open>
  No rule is dropped. With facts on the VM the findings are exactly what the twenty rules
  report, ordered by severity and identifier, and every rule that lacks its input is listed as not
  evaluated, as are the rules no export can answer.
\<close>

theorem assess_reports_every_rule:
  assumes "vf_hardware f = Some h"
  shows "mset (map Found (as_findings (assess f))) = mset (filter (\<lambda>r. result_finding r \<noteq> None) (rule_results f))
     \<and> sorted (map (\<lambda>x. (severity_order (fi_category x), fi_id x)) (as_findings (assess f)))
     \<and> set (as_not_evaluated (assess f)) = set NEVER_EVALUATED \<union> {i. Not_evaluated i \<in> set (rule_results f)}
     \<and> length (rule_results f) = 20"
  using assess_complete [OF assms] by blast

text \<open>An NVMe disk and no change tracking, on a powered-off VM.\<close>

definition nvme_facts :: vm_facts where
  "nvme_facts = facts_from_vm ((mk_vm 1 ''db-01'')\<lparr>vm_vsphere_datastores := [''ds1''],
     vm_hardware_facts := Some \<lparr>hf_disks = [\<lparr>df_datastore = Some ''ds1'', df_raw = False, df_mode = None,
        df_sharing = None, df_shared_bus = None, df_controller = Some ''NVMe controller 0''\<rparr>],
       hf_cbt = Some False, hf_consolidation_needed = False, hf_snapshots = [], hf_guest_os_tools = None,
       hf_cpu_hot_add = None, hf_mem_hot_add = None, hf_ft_state = None, hf_cluster_rules = [],
       hf_secure_boot = False, hf_enable_uuid = False\<rparr>\<rparr>)"

lemma nvme_findings:
  "map fi_id (as_findings (assess nvme_facts)) =
     [''vv.disk.nvme.detected'', ''vmware.changed_block_tracking.disabled'',
      ''vmware.hostname.empty'', ''vmware.vm_missing_ip.detected'']"
  by code_simp

theorem assess_reports_every_rule_witness:
  "mset (map Found (as_findings (assess nvme_facts))) =
     mset (filter (\<lambda>r. result_finding r \<noteq> None) (rule_results nvme_facts))"
proof -
  have "vf_hardware nvme_facts = Some (the (vf_hardware nvme_facts))"
    by (simp add: nvme_facts_def facts_from_vm_def)
  then show ?thesis using assess_reports_every_rule [of nvme_facts] by blast
qed

end
