(* ===== verification/Plan_Service.thy ===== *)
theory Plan_Service
  imports Plan_Membership Plan_Chunking Assessment
begin

text \<open>
  The plan endpoints of \<open>app/api/plans.py\<close>, the background generation of
  \<open>app/core/plan_generation.py\<close>, the start-up recovery of \<open>app/core/startup.py\<close> and the VM
  update and deletion of \<open>app/api/vms.py\<close>, as functions on the tables. An endpoint that raises returns the
  tables it was given: the request's transaction is rolled back.
\<close>

section \<open>Requests, errors, environment\<close>

record plan_create =
  pc_name :: string
  pc_vm_ids :: "int list"
  pc_migration_type :: string
  pc_mapping_ids :: "int list option"
  pc_skip_ineligible :: bool
  pc_override_assessment :: bool

datatype service_error =
    No_vm_ids
  | Too_many_vms nat
  | Unknown_vms "int list"
  | Assessment_blocked "(int \<times> string list) list"
  | Unresolved_targets "int list"
  | Nothing_left "(int \<times> exclusion) list"
  | Unknown_mappings "int list"
  | Coverage_gaps "mapping_gap list"
  | Lifecycle_conflict lifecycle_error
  | Bad_batch_size
  | Plan_not_found int
  | Plan_not_complete string
  | Vm_not_found int

fun status_code :: "service_error \<Rightarrow> nat" where
  "status_code (Unknown_vms _) = 404"
| "status_code (Unknown_mappings _) = 404"
| "status_code (Plan_not_found _) = 404"
| "status_code (Vm_not_found _) = 404"
| "status_code (Plan_not_complete _) = 409"
| "status_code Bad_batch_size = 500"
| "status_code _ = 422"

record service_env =
  sv_now :: int
  sv_actor :: string
  sv_series_id :: string
  sv_max_vms_per_plan :: int
  sv_max_scope :: nat
  sv_pipeline :: pipeline_env

type_synonym 'a endpoint = "app_db \<Rightarrow> app_db \<times> (service_error + 'a)"

section \<open>Table updates\<close>

definition update_plan :: "int \<Rightarrow> (migration_plan \<Rightarrow> migration_plan) \<Rightarrow> app_db \<Rightarrow> app_db" where
  "update_plan pid f db = db\<lparr>ad_plans := map (\<lambda>p. if mp_id p = pid then f p else p) (ad_plans db)\<rparr>"

definition audit_plan :: "string \<Rightarrow> string \<Rightarrow> int option \<Rightarrow> audit_details \<Rightarrow> app_db \<Rightarrow> app_db" where
  "audit_plan action actor i details db =
     db\<lparr>ad_session := record_audit \<lparr>au_action = action, au_actor = actor, au_resource_type = ''plan'',
       au_resource_id = i, au_details = details\<rparr> (ad_session db)\<rparr>"

text \<open>A lifecycle call inside a request.\<close>

definition in_session :: "'a transition \<Rightarrow> app_db \<Rightarrow> app_db \<times> (lifecycle_error + 'a)" where
  "in_session t db = (case t (ad_session db) of (s, r) \<Rightarrow> (db\<lparr>ad_session := s\<rparr>, r))"

section \<open>\<open>create_plan\<close>\<close>

definition blocked_for_type :: "vm list \<Rightarrow> string \<Rightarrow> (vm \<times> string list) list" where
  "blocked_for_type vms migration_type =
     filter (\<lambda>(v, ids). ids \<noteq> []) (map (\<lambda>v. (v, blocks_migration_type (vm_assessment v) migration_type)) vms)"

type_synonym partition_key = "int option \<times> int \<times> string"

definition vm_key :: "(int \<times> resolved_target) list \<Rightarrow> vm \<Rightarrow> partition_key option" where
  "vm_key resolutions v =
     (case dict_get resolutions (vm_id v) of
        None \<Rightarrow> None
      | Some r \<Rightarrow>
          (case rt_cluster_id r of
             None \<Rightarrow> None
           | Some cid \<Rightarrow>
               if \<not> truthy (rt_namespace r) then None
               else Some (vm_source_vcenter_id v, cid, or_empty (rt_namespace r))))"

definition partition_vms_for_plans :: "vm list \<Rightarrow> target_db \<Rightarrow> (partition_key \<times> vm list) list \<times> vm list" where
  "partition_vms_for_plans vms db =
     (let key = vm_key (resolve_vms_iter vms db)
      in (group_by_key (\<lambda>v. the (key v)) (filter (\<lambda>v. key v \<noteq> None) vms), filter (\<lambda>v. key v = None) vms))"

definition mapping_rows_for :: "target_db \<Rightarrow> int list option \<Rightarrow> partition_key \<Rightarrow> resource_mapping list" where
  "mapping_rows_for db explicit_mapping_ids key =
     filter (\<lambda>m. Some (rm_vcenter_source_id m) = fst key \<and> rm_ocp_target_id m = fst (snd key) \<and>
         (case explicit_mapping_ids of None \<Rightarrow> True | Some ids \<Rightarrow> rm_id m \<in> set ids))
       (td_mappings db)"

definition gaps_of :: "mapping_gap list \<Rightarrow> int \<Rightarrow> gap_kind list" where
  "gaps_of gaps vid = map mg_kind (filter (\<lambda>g. mg_vm_id g = vid) gaps)"

fun exclude_uncovered ::
  "(partition_key \<Rightarrow> resource_mapping list) \<Rightarrow> (partition_key \<times> vm list) list
     \<Rightarrow> (partition_key \<times> vm list) list \<times> (int \<times> exclusion) list" where
  "exclude_uncovered rows [] = ([], [])"
| "exclude_uncovered rows ((key, vms) # ps) =
     (let gaps = validate_plan_inputs vms (rows key);
          (kept, excluded) = exclude_uncovered rows ps;
          hit = filter (\<lambda>v. gaps_of gaps (vm_id v) \<noteq> []) vms;
          remaining = filter (\<lambda>v. gaps_of gaps (vm_id v) = []) vms
      in if gaps = [] then ((key, vms) # kept, excluded)
         else (if remaining = [] then kept else (key, remaining) # kept,
               map (\<lambda>v. (vm_id v, Mapping_gaps (gaps_of gaps (vm_id v)))) hit @ excluded))"

fun plan_batches :: "(partition_key \<times> vm list) list \<Rightarrow> int \<Rightarrow> (partition_key \<times> vm list) list option" where
  "plan_batches [] m = Some []"
| "plan_batches ((key, vms) # ps) m =
     (case (chunk_partition vms m, plan_batches ps m) of
        (Inr chunks, Some bs) \<Rightarrow> Some (map (Pair key) chunks @ bs)
      | _ \<Rightarrow> None)"

definition series_name :: "plan_create \<Rightarrow> app_db \<Rightarrow> partition_key \<Rightarrow> nat \<Rightarrow> nat \<Rightarrow> bool \<Rightarrow> string" where
  "series_name payload db key index n_total multi =
     compose_series_name (pc_name payload) (Option.bind (fst key) (dict_get (ad_vcenters db)))
       (map_option ot_name (List.find (\<lambda>t. ot_id t = fst (snd key)) (td_clusters (ad_targets db))))
       (Some (snd (snd key))) index n_total multi"

definition new_plan ::
  "service_env \<Rightarrow> plan_create \<Rightarrow> (int \<times> exclusion) list \<Rightarrow> int \<Rightarrow> string \<Rightarrow> int list \<Rightarrow> int list \<Rightarrow> nat \<Rightarrow> nat
     \<Rightarrow> migration_plan" where
  "new_plan env payload excluded pid name vm_ids mapping_ids index n_total =
     \<lparr>mp_id = pid, mp_name = name, mp_vm_ids = vm_ids, mp_waves = [], mp_mapping_ids = mapping_ids,
      mp_status = ''pending'', mp_migration_type = pc_migration_type payload,
      mp_series_id = Some (sv_series_id env), mp_series_index = Some index,
      mp_series_total = Some n_total, mp_excluded_vms = excluded, mp_wave_number_seq = None\<rparr>"

definition insert_plan :: "migration_plan \<Rightarrow> app_db \<Rightarrow> app_db" where
  "insert_plan p db = db\<lparr>ad_plans := ad_plans db @ [p], ad_next_plan_id := mp_id p + 1\<rparr>"

fun create_batches ::
  "service_env \<Rightarrow> plan_create \<Rightarrow> (int \<times> exclusion) list \<Rightarrow> (partition_key \<Rightarrow> resource_mapping list)
     \<Rightarrow> nat \<Rightarrow> bool \<Rightarrow> nat \<Rightarrow> (partition_key \<times> vm list) list \<Rightarrow> app_db
     \<Rightarrow> service_error + (app_db \<times> int list)" where
  "create_batches env payload excluded rows n_total multi index [] db = Inr (db, [])"
| "create_batches env payload excluded rows n_total multi index ((key, vms) # bs) db =
     (let gaps = validate_plan_inputs vms (rows key);
          pid = ad_next_plan_id db;
          p = new_plan env payload excluded pid (series_name payload db key index n_total multi)
                (map vm_id vms) (map rm_id (rows key)) index n_total
      in if gaps \<noteq> [] then Inl (Coverage_gaps gaps)
         else (case in_session (transition_to_planned (sv_now env) (map vm_id vms) pid ''system'' ''plan.create'')
                 (insert_plan p db) of
             (db', Inl e) \<Rightarrow> Inl (Lifecycle_conflict e)
           | (db', Inr _) \<Rightarrow>
               (case create_batches env payload excluded rows n_total multi (Suc index) bs db' of
                  Inl e \<Rightarrow> Inl e
                | Inr (db'', pids) \<Rightarrow> Inr (db'', pid # pids))))"

definition missing_mappings :: "target_db \<Rightarrow> int list option \<Rightarrow> int list" where
  "missing_mappings db ids =
     filter (\<lambda>i. i \<notin> rm_id ` set (td_mappings db)) (case ids of None \<Rightarrow> [] | Some is \<Rightarrow> is)"

definition nothing_left :: "(int \<times> exclusion) list \<Rightarrow> service_error" where
  "nothing_left excluded = Nothing_left excluded"

text \<open>From the partitions on.\<close>

definition create_series ::
  "service_env \<Rightarrow> plan_create \<Rightarrow> (int \<times> exclusion) list \<Rightarrow> (partition_key \<times> vm list) list \<Rightarrow> app_db
     \<Rightarrow> service_error + (app_db \<times> int list)" where
  "create_series env payload excluded0 partitions0 db =
     (let rows = mapping_rows_for (ad_targets db) (pc_mapping_ids payload);
          (partitions, uncovered) = (if pc_skip_ineligible payload then exclude_uncovered rows partitions0
            else (partitions0, []));
          excluded = excluded0 @ uncovered
      in if missing_mappings (ad_targets db) (pc_mapping_ids payload) \<noteq> []
           then Inl (Unknown_mappings (missing_mappings (ad_targets db) (pc_mapping_ids payload)))
         else if partitions = [] then Inl (nothing_left excluded)
         else (case plan_batches partitions (sv_max_vms_per_plan env) of
             None \<Rightarrow> Inl Bad_batch_size
           | Some batches \<Rightarrow>
               (case create_batches env payload excluded rows (length batches) (length partitions > 1) 1
                   batches db of
                  Inl e \<Rightarrow> Inl e
                | Inr (db', pids) \<Rightarrow>
                    Inr (if excluded \<noteq> []
                         then audit_plan ''plan.vms_excluded'' (sv_actor env) (Some (hd pids))
                           (Plan_event (length excluded)) db'
                         else db', pids))))"

definition create_plan_in ::
  "service_env \<Rightarrow> plan_create \<Rightarrow> app_db \<Rightarrow> service_error + (app_db \<times> int list)" where
  "create_plan_in env payload db =
     (let unique_ids = unique_in_order (pc_vm_ids payload);
          vms0 = select_vms (ad_vms db) unique_ids;
          missing = filter (\<lambda>i. i \<notin> vm_id ` set vms0) unique_ids;
          unfit = blocked_for_type vms0 (pc_migration_type payload);
          skip = (unfit \<noteq> [] \<and> \<not> pc_override_assessment payload \<and> pc_skip_ineligible payload);
          vms = (if skip then filter (\<lambda>v. vm_id v \<notin> (vm_id \<circ> fst) ` set unfit) vms0 else vms0);
          excluded1 = (if skip then map (\<lambda>(v, ids). (vm_id v, Blocked_for_type ids)) unfit else []);
          db1 = (if unfit \<noteq> [] \<and> \<not> skip
                 then audit_plan ''plan.assessment_overridden'' (sv_actor env) None (Plan_event (length unfit)) db
                 else db);
          (partitions, unresolvable) = partition_vms_for_plans vms (ad_targets db);
          excluded = excluded1 @ map (\<lambda>v. (vm_id v, Target_unresolved)) unresolvable
      in if unique_ids = [] then Inl No_vm_ids
         else if length unique_ids > sv_max_scope env then Inl (Too_many_vms (length unique_ids))
         else if missing \<noteq> [] then Inl (Unknown_vms missing)
         else if unfit \<noteq> [] \<and> \<not> pc_override_assessment payload \<and> \<not> pc_skip_ineligible payload
           then Inl (Assessment_blocked (map (\<lambda>(v, ids). (vm_id v, ids)) unfit))
         else if unresolvable \<noteq> [] \<and> \<not> pc_skip_ineligible payload
           then Inl (Unresolved_targets (map vm_id unresolvable))
         else if partitions = [] then Inl (nothing_left excluded)
         else create_series env payload excluded partitions db1)"

definition or_rollback :: "app_db \<Rightarrow> service_error + (app_db \<times> 'a) \<Rightarrow> app_db \<times> (service_error + 'a)" where
  "or_rollback db r = (case r of Inl e \<Rightarrow> (db, Inl e) | Inr (db', a) \<Rightarrow> (db', Inr a))"

definition create_plan :: "service_env \<Rightarrow> plan_create \<Rightarrow> int list endpoint" where
  "create_plan env payload db = or_rollback db (create_plan_in env payload db)"

section \<open>Background generation\<close>

definition set_status :: "int \<Rightarrow> string \<Rightarrow> app_db \<Rightarrow> app_db" where
  "set_status pid st = update_plan pid (\<lambda>p. p\<lparr>mp_status := st\<rparr>)"

definition STAGE_STATUS :: "string list" where
  "STAGE_STATUS = [''validating'', ''partitioning'', ''splitting'', ''packing'', ''analyzing_concurrency'',
     ''annotating'', ''emitting_yaml'']"

text \<open>The progress callback writes the stage the pipeline reports; the seven stages are all it reports.\<close>

definition progress :: "int \<Rightarrow> string \<Rightarrow> app_db \<Rightarrow> app_db" where
  "progress pid stage = set_status pid stage"

definition fail_plan :: "int \<Rightarrow> int \<Rightarrow> app_db \<Rightarrow> app_db" where
  "fail_plan now pid db =
     (case get_plan db pid of
        None \<Rightarrow> db
      | Some p \<Rightarrow> fst (in_session (transition_to_available_from_failed_plan now pid (mp_vm_ids p) ''system'')
          (set_status pid ''failed'' db)))"

datatype generation_outcome =
    Generation_gone
  | Generation_failed
  | Generation_done "annotated_wave list"

text \<open>What the task computes from the rows it loads when it starts.\<close>

definition generate :: "service_env \<Rightarrow> app_db \<Rightarrow> int \<Rightarrow> int list \<Rightarrow> generation_outcome" where
  "generate env db pid vm_ids =
     (let unique_ids = unique_in_order vm_ids;
          vms = select_vms (ad_vms db) unique_ids;
          missing = filter (\<lambda>i. i \<notin> vm_id ` set vms) unique_ids
      in if missing \<noteq> [] then Generation_failed
         else (case get_plan db pid of
             None \<Rightarrow> Generation_gone
           | Some p \<Rightarrow>
               (let mappings = (if mp_mapping_ids p = [] then []
                      else filter (\<lambda>m. rm_id m \<in> set (mp_mapping_ids p)) (td_mappings (ad_targets db)));
                    catalogs = load_catalogs_for (ad_targets db) mappings
                in case run_pipeline (sv_pipeline env) pid vms mappings catalogs
                     (if mp_migration_type p = [] then ''cold'' else mp_migration_type p) of
                     Inl e \<Rightarrow> Generation_failed
                   | Inr (aws, groups) \<Rightarrow> Generation_done aws)))"

text \<open>\<open>AnnotatedWave.to_dict\<close>. The pipeline's waves always carry YAML.\<close>

definition wave_doc_of :: "annotated_wave \<Rightarrow> string \<Rightarrow> wave_doc" where
  "wave_doc_of aw how =
     (let w = aw_wave aw
      in \<lparr>wd_wave_number = w_wave_number w, wd_vm_ids = w_vm_ids w, wd_vm_names = aw_vm_names aw,
          wd_group_ids = map g_id (w_groups w), wd_vm_count = w_vm_count w,
          wd_estimated_risk = w_estimated_risk w, wd_concurrency_group_id = w_concurrency_group_id w,
          wd_description = aw_description aw, wd_method = how, wd_mtv_yaml_available = True,
          wd_manual_edit = None, wd_overrides = [], wd_reannotation = None\<rparr>)"

definition finish_generation ::
  "service_env \<Rightarrow> int \<Rightarrow> int list \<Rightarrow> (annotated_wave \<Rightarrow> string) \<Rightarrow> generation_outcome \<Rightarrow> app_db \<Rightarrow> app_db" where
  "finish_generation env pid vm_ids how outcome db =
     (case outcome of
        Generation_gone \<Rightarrow> db
      | Generation_failed \<Rightarrow> fail_plan (sv_now env) pid db
      | Generation_done aws \<Rightarrow>
          (case get_plan db pid of
             None \<Rightarrow> db
           | Some _ \<Rightarrow>
               audit_plan ''plan.generated'' (sv_actor env) (Some pid) (Plan_event (length (unique_in_order vm_ids)))
                 (update_plan pid (\<lambda>p. p\<lparr>mp_vm_ids := unique_in_order vm_ids,
                     mp_waves := map (\<lambda>aw. wave_doc_of aw (how aw)) aws, mp_status := ''complete''\<rparr>) db)))"

section \<open>Start-up recovery\<close>

definition ORPHAN_STATUSES :: "string list" where
  "ORPHAN_STATUSES = [''pending'', ''validating'', ''chunking'', ''llm_grouping'', ''assembling'',
     ''partitioning'', ''subpartitioning'', ''splitting'', ''packing'', ''analyzing_concurrency'',
     ''annotating'', ''emitting_yaml'']"

definition fail_orphan_plans :: "int \<Rightarrow> app_db \<Rightarrow> app_db" where
  "fail_orphan_plans now db =
     fold (fail_plan now) (map mp_id (filter (\<lambda>p. mp_status p \<in> set ORPHAN_STATUSES) (ad_plans db))) db"

section \<open>Ending a plan\<close>

definition delete_plan :: "service_env \<Rightarrow> int \<Rightarrow> unit endpoint" where
  "delete_plan env pid db =
     (case get_plan db pid of
        None \<Rightarrow> (db, Inl (Plan_not_found pid))
      | Some p \<Rightarrow>
          (let db1 = audit_plan ''plan.delete'' (sv_actor env) (Some pid) (Plan_event (length (mp_vm_ids p))) db;
               db2 = fst (in_session (transition_to_available_from_deleted_plan (sv_now env) pid (mp_vm_ids p)
                       (sv_actor env)) db1)
           in (db2\<lparr>ad_plans := filter (\<lambda>q. mp_id q \<noteq> pid) (ad_plans db2)\<rparr>, Inr ())))"

definition mark_plan_succeeded :: "service_env \<Rightarrow> int \<Rightarrow> unit endpoint" where
  "mark_plan_succeeded env pid db =
     (case get_plan db pid of
        None \<Rightarrow> (db, Inl (Plan_not_found pid))
      | Some p \<Rightarrow>
          if mp_status p \<notin> set [''complete'', ''migrated''] then (db, Inl (Plan_not_complete (mp_status p)))
          else (case in_session (transition_to_migrated (sv_now env) pid (mp_vm_ids p) (sv_actor env)) db of
              (_, Inl e) \<Rightarrow> (db, Inl (Lifecycle_conflict e))
            | (db1, Inr _) \<Rightarrow>
                (audit_plan ''plan.mark_succeeded'' (sv_actor env) (Some pid) (Plan_event (length (mp_vm_ids p)))
                   (set_status pid ''migrated'' db1), Inr ())))"

definition delete_vm :: "service_env \<Rightarrow> int \<Rightarrow> unit endpoint" where
  "delete_vm env vid db =
     (case find_vm (ad_vms db) vid of
        None \<Rightarrow> (db, Inl (Vm_not_found vid))
      | Some v \<Rightarrow>
          (db\<lparr>ad_session := record_audit \<lparr>au_action = ''vm.delete'', au_actor = sv_actor env, au_resource_type = ''vm'',
               au_resource_id = Some vid, au_details = Vm_deleted\<rparr>
             (ad_session db\<lparr>s_vms := filter (\<lambda>r. vm_id r \<noteq> vid) (s_vms (ad_session db))\<rparr>)\<rparr>, Inr ()))"

text \<open>
  A lifecycle target goes through the lifecycle service, the other fields of the request are
  written as they come and logged as one update.
\<close>

definition update_vm ::
  "service_env \<Rightarrow> int \<Rightarrow> lifecycle_state option \<Rightarrow> (vm \<Rightarrow> vm) option \<Rightarrow> unit endpoint" where
  "update_vm env vid lifecycle_target updates db =
     (case find_vm (ad_vms db) vid of
        None \<Rightarrow> (db, Inl (Vm_not_found vid))
      | Some v \<Rightarrow>
          (case (case lifecycle_target of
                   None \<Rightarrow> (db, Inr ())
                 | Some t \<Rightarrow> map_prod id (map_sum id (\<lambda>_. ()))
                     (in_session (patch_transition (sv_now env) v t (sv_actor env)) db)) of
             (_, Inl e) \<Rightarrow> (db, Inl (Lifecycle_conflict e))
           | (db1, Inr _) \<Rightarrow>
               (case updates of
                  None \<Rightarrow> (db1, Inr ())
                | Some f \<Rightarrow>
                    (db1\<lparr>ad_session := record_audit \<lparr>au_action = ''vm.update'', au_actor = sv_actor env,
                        au_resource_type = ''vm'', au_resource_id = Some vid, au_details = Vm_updated\<rparr>
                      ((ad_session db1)\<lparr>s_vms := map (\<lambda>r. if vm_id r = vid then f r else r) (ad_vms db1)\<rparr>)\<rparr>, Inr ()))))"

end
