(* ===== verification/Plan_Edit.thy ===== *)
theory Plan_Edit
  imports Plan_Service Wave_Constraints
begin

text \<open>
  \<open>app/core/plan_edit.py\<close> and the write endpoint of \<open>app/api/plan_edits.py\<close>: moving virtual
  machines between the waves and plans of a finished plan. \<open>prepare\<close> works an edit out without
  writing, \<open>apply_edit\<close> stores a prepared edit, \<open>edit_plan\<close> is the endpoint. Message texts are
  left out; the interim description of a wave and the tokens of the background explanation are
  parameters.
\<close>

section \<open>Requests and results\<close>

definition OPERATIONS :: "string list" where
  "OPERATIONS = [''move_to_wave'', ''move_to_plan'', ''remove'', ''add'']"

definition WAVE_RULE_CODES :: "string list" where
  "WAVE_RULE_CODES = [''wave_size'', ''ha_family_cap'']"

record edit_spec =
  es_operation :: string
  es_vm_ids :: "int list"
  es_target_wave :: "nat option"
  es_new_wave :: bool
  es_target_plan_id :: "int option"
  es_note :: "string option"

datatype edit_error = Plan_edit_error nat string "violation list" | Key_error

record edit_move =
  mv_vm_id :: int
  mv_vm_name :: string
  mv_from_plan_id :: "int option"
  mv_from_wave :: "nat option"
  mv_to_plan_id :: "int option"
  mv_to_wave :: "nat option"

record plan_change =
  ch_plan_id :: int
  ch_waves :: "wave_doc list"
  ch_vm_ids :: "int list"
  ch_wave_number_seq :: nat
  ch_touched_waves :: "nat list"
  ch_created_waves :: "nat list"
  ch_removed_waves :: "nat list"

record prepared_edit =
  pp_spec :: edit_spec
  pp_source :: migration_plan
  pp_target :: migration_plan
  pp_violations :: "violation list"
  pp_moves :: "edit_move list"
  pp_changes :: "(int \<times> plan_change) list"

definition pp_blocking :: "prepared_edit \<Rightarrow> violation list" where
  "pp_blocking pe = filter (\<lambda>v. v_severity v = BLOCKING) (pp_violations pe)"

definition pp_overridable :: "prepared_edit \<Rightarrow> violation list" where
  "pp_overridable pe = filter (\<lambda>v. v_severity v = OVERRIDABLE) (pp_violations pe)"

record edit_env =
  ee_service :: service_env
  ee_annotate :: "wave \<Rightarrow> manual_edit \<Rightarrow> override_entry list \<Rightarrow> string"
  ee_token :: "nat \<Rightarrow> string"

type_synonym layout = "(nat \<times> int list) list"

section \<open>Membership helpers\<close>

definition wave_membership :: "migration_plan \<Rightarrow> layout" where
  "wave_membership p = dict_of wd_wave_number wd_vm_ids (mp_waves p)"

definition seq_or_zero :: "migration_plan \<Rightarrow> nat" where
  "seq_or_zero p = (case mp_wave_number_seq p of None \<Rightarrow> 0 | Some n \<Rightarrow> n)"

definition max_of :: "nat list \<Rightarrow> nat" where
  "max_of ns = fold max ns 0"

definition next_wave_number :: "migration_plan \<Rightarrow> layout \<Rightarrow> nat" where
  "next_wave_number p members = max_of (seq_or_zero p # map fst members) + 1"

definition stored_names :: "migration_plan \<Rightarrow> (int \<times> string) list" where
  "stored_names p =
     filter (\<lambda>(vid, n). n \<noteq> []) (concat (map (\<lambda>w. zip (wd_vm_ids w) (wd_vm_names w)) (mp_waves p)))"

definition name_or_id :: "(int \<times> string) list \<Rightarrow> int \<Rightarrow> string" where
  "name_or_id names vid = dict_get_or names vid (''vm-'' @ show_int vid)"

definition as_members :: "layout \<Rightarrow> (int \<times> string) list \<Rightarrow> wave_members" where
  "as_members waves names = map (\<lambda>(n, ids). (n, map (\<lambda>vid. (vid, name_or_id names vid)) ids)) waves"

section \<open>Violations that need the tables\<close>

definition plain_violation ::
  "string \<Rightarrow> string \<Rightarrow> int \<Rightarrow> nat option \<Rightarrow> vm list \<Rightarrow> nat option \<Rightarrow> nat option \<Rightarrow> violation" where
  "plain_violation code severity pid wave_number vms cnt lim =
     \<lparr>v_code = code, v_severity = severity, v_plan_id = Some pid, v_wave_number = wave_number,
      v_family = None, v_vm_ids = map vm_id vms, v_vm_names = map vm_name vms, v_count = cnt, v_limit = lim\<rparr>"

definition run_waves :: "int \<Rightarrow> nat list \<Rightarrow> run_status list \<Rightarrow> run_row list \<Rightarrow> nat list" where
  "run_waves pid wave_numbers states runs =
     map rr_wave_number (filter (\<lambda>r. rr_plan_id r = pid \<and> rr_wave_number r \<in> set wave_numbers \<and>
       rr_status r \<in> set states) runs)"

definition run_violations :: "app_db \<Rightarrow> int \<Rightarrow> nat list \<Rightarrow> violation list" where
  "run_violations db pid wave_numbers =
     (let busy = sort (remdups (run_waves pid wave_numbers [Run_pending, Run_running]
            (ad_baseline_runs db @ ad_validation_runs db)));
          validated = run_waves pid wave_numbers [Run_completed] (ad_validation_runs db)
      in map (\<lambda>n. plain_violation ''wave_run_in_progress'' BLOCKING pid (Some n) [] None None) busy @
         map (\<lambda>n. plain_violation ''wave_already_validated'' OVERRIDABLE pid (Some n) [] None None)
           (sort (remdups (filter (\<lambda>n. n \<notin> set busy) validated))))"

definition has_completed_baseline :: "app_db \<Rightarrow> int \<Rightarrow> nat \<Rightarrow> bool" where
  "has_completed_baseline db pid n = (run_waves pid [n] [Run_completed] (ad_baseline_runs db) \<noteq> [])"

definition plan_mappings :: "app_db \<Rightarrow> migration_plan \<Rightarrow> resource_mapping list" where
  "plan_mappings db p =
     (if mp_mapping_ids p = [] then []
      else filter (\<lambda>m. rm_id m \<in> set (mp_mapping_ids p)) (td_mappings (ad_targets db)))"

definition migration_type_of :: "migration_plan \<Rightarrow> string" where
  "migration_type_of p = (if mp_migration_type p = [] then ''cold'' else mp_migration_type p)"

definition blocked_one :: "string \<Rightarrow> string \<Rightarrow> int \<Rightarrow> vm list \<Rightarrow> violation list" where
  "blocked_one code severity pid vms =
     (if vms = [] then [] else [plain_violation code severity pid None vms None None])"

definition per_vm :: "string \<Rightarrow> int \<Rightarrow> vm list \<Rightarrow> violation list" where
  "per_vm code pid vms = map (\<lambda>v. plain_violation code BLOCKING pid None [v] None None) vms"

text \<open>The checks on virtual machines entering a plan whose partition is known.\<close>

definition entering_violations ::
  "app_db \<Rightarrow> edit_spec \<Rightarrow> migration_plan \<Rightarrow> migration_plan \<Rightarrow> vm list \<Rightarrow> partition \<Rightarrow> violation list" where
  "entering_violations db spec source target vms target_partition =
     (let pid = mp_id target;
          partition_at = (\<lambda>v. Option.bind (dict_get (resolve_partitions db vms) (vm_id v)) id);
          unresolved = filter (\<lambda>v. partition_at v = None) vms;
          mismatched = filter (\<lambda>v. \<exists>p\<in>set_option (partition_at v). pt_key p \<noteq> pt_key target_partition) vms;
          bad = map vm_id unresolved @ map vm_id mismatched;
          eligible = filter (\<lambda>v. vm_id v \<notin> set bad) vms;
          gaps = validate_plan_inputs eligible (plan_mappings db target);
          recheck = (es_operation spec = ''add'' \<or> migration_type_of source \<noteq> migration_type_of target)
      in blocked_one ''target_unresolved'' BLOCKING pid unresolved @
         blocked_one ''partition_mismatch'' BLOCKING pid mismatched @
         per_vm ''mapping_gap'' pid (filter (\<lambda>v. gaps_of gaps (vm_id v) \<noteq> []) eligible) @
         (if recheck
          then per_vm ''assessment_blocked'' pid
            (filter (\<lambda>v. blocks_migration_type (vm_assessment v) (migration_type_of target) \<noteq> []) vms)
          else []))"

definition target_violations ::
  "app_db \<Rightarrow> edit_spec \<Rightarrow> migration_plan \<Rightarrow> migration_plan \<Rightarrow> vm list \<Rightarrow> violation list" where
  "target_violations db spec source target vms =
     (if es_operation spec = ''add''
      then blocked_one ''vm_not_available'' BLOCKING (mp_id target)
        (filter (\<lambda>v. vm_lifecycle_state v \<noteq> Available) vms)
      else []) @
     (case Option.bind (dict_get (plan_partitions db [target]) (mp_id target)) id of
        None \<Rightarrow> [plain_violation ''target_unresolved'' BLOCKING (mp_id target) None [] None None]
      | Some p \<Rightarrow> entering_violations db spec source target vms p)"

section \<open>Rebuilding the waves of a plan\<close>

type_synonym rule_key = "nat option \<times> string \<times> string option"

definition rule_key :: "violation \<Rightarrow> rule_key" where
  "rule_key v = (v_wave_number v, v_code v, v_family v)"

definition keep_override ::
  "(rule_key \<times> violation) list \<Rightarrow> nat \<times> override_entry
     \<Rightarrow> rule_key list \<times> (nat option \<times> override_entry list) list
     \<Rightarrow> rule_key list \<times> (nat option \<times> override_entry list) list" where
  "keep_override standing ne acc =
     (case (ne, acc) of ((n, entry), (seen, out)) \<Rightarrow>
        (let key = (Some n, oe_code entry, oe_family entry)
         in case dict_get standing key of
              None \<Rightarrow> (seen, out)
            | Some current \<Rightarrow>
                (key # seen,
                 dict_append (Some n) (entry\<lparr>oe_count := v_count current, oe_limit := v_limit current\<rparr>) out)))"

definition add_override ::
  "string \<Rightarrow> int \<Rightarrow> violation
     \<Rightarrow> rule_key list \<times> (nat option \<times> override_entry list) list
     \<Rightarrow> rule_key list \<times> (nat option \<times> override_entry list) list" where
  "add_override actor now v acc =
     (case acc of (seen, out) \<Rightarrow>
        if rule_key v \<in> set seen then (seen, out)
        else (rule_key v # seen,
          dict_append (v_wave_number v) \<lparr>oe_code = v_code v, oe_family = v_family v, oe_count = v_count v,
            oe_limit = v_limit v, oe_by = actor, oe_at = now\<rparr> out))"

definition override_entries ::
  "migration_plan \<Rightarrow> wave_members \<Rightarrow> violation list \<Rightarrow> string \<Rightarrow> int
     \<Rightarrow> (nat option \<times> override_entry list) list" where
  "override_entries p after introduced actor now =
     (let standing = dict_of rule_key id
            (filter (\<lambda>v. v_code v \<in> set WAVE_RULE_CODES) (check_waves after (Some (mp_id p))));
          recorded = concat (map (\<lambda>w. map (Pair (wd_wave_number w)) (wd_overrides w)) (mp_waves p));
          fresh = filter (\<lambda>v. v_code v \<in> set WAVE_RULE_CODES \<and> v_plan_id v = Some (mp_id p)) introduced
      in snd (fold (add_override actor now) fresh (fold (keep_override standing) recorded ([], []))))"

definition classify_wave :: "nat \<Rightarrow> vm list \<Rightarrow> wave" where
  "classify_wave n vms = build_wave n (classify None vms) None"

definition next_manual_edit :: "edit_env \<Rightarrow> edit_spec \<Rightarrow> wave_doc option \<Rightarrow> manual_edit" where
  "next_manual_edit env spec previous =
     (let prior = Option.bind previous wd_manual_edit
      in \<lparr>me_edited_at = sv_now (ee_service env), me_edited_by = sv_actor (ee_service env),
          me_edit_count = (case prior of None \<Rightarrow> 0 | Some m \<Rightarrow> me_edit_count m) + 1,
          me_note = or_else (es_note spec) (Option.bind prior me_note)\<rparr>)"

definition build_wave_doc ::
  "edit_env \<Rightarrow> migration_plan \<Rightarrow> nat \<Rightarrow> vm list \<Rightarrow> wave_doc option \<Rightarrow> override_entry list
     \<Rightarrow> resource_mapping list \<Rightarrow> edit_spec \<Rightarrow> (int \<times> catalog_snapshot) list
     \<Rightarrow> wave_doc \<times> mtv_error option" where
  "build_wave_doc env p n vms previous overrides mappings spec catalogs =
     (let medit = next_manual_edit env spec previous;
          w = classify_wave n vms;
          description = ee_annotate env w medit overrides;
          r = build_resolver (mapping_for_wave w mappings vms) catalogs;
          emitted = emit_wave_yaml (sv_pipeline (ee_service env)) (mp_id p) w description vms r (migration_type_of p);
          yaml_error = (case emitted of Inl e \<Rightarrow> Some e | Inr _ \<Rightarrow> None)
      in (\<lparr>wd_wave_number = n, wd_vm_ids = w_vm_ids w,
           wd_vm_names = map vm_name (List.map_filter (find_vm vms) (w_vm_ids w)),
           wd_group_ids = map g_id (w_groups w), wd_vm_count = w_vm_count w,
           wd_estimated_risk = w_estimated_risk w, wd_concurrency_group_id = w_concurrency_group_id w,
           wd_description = description, wd_method = ''mechanical_interim'',
           wd_mtv_yaml_available = (yaml_error = None), wd_manual_edit = Some medit,
           wd_overrides = overrides, wd_reannotation = Some (ee_token env n)\<rparr>, yaml_error))"

definition shell_wave :: "nat \<Rightarrow> int list \<Rightarrow> int option \<Rightarrow> wave" where
  "shell_wave n ids vcenter_id =
     (new_wave n)\<lparr>w_groups := [\<lparr>g_key = \<lparr>gk_vcenter_id = vcenter_id, gk_target_namespace = [], gk_role = ''other'',
          gk_state = ''unknown'', gk_discriminator = ''shell'', gk_environment = ''unknown'',
          gk_target_cluster_id = None\<rparr>,
        g_vm_ids = ids, g_shared_attributes = [], g_estimated_role = ''other'',
        g_estimated_state = ''unknown'', g_migration_risk = ''low'', g_dependency_hints = [],
        g_risk_assessment = None, g_ha_members = []\<rparr>]\<rparr>"

text \<open>The context in which the waves of one plan are rebuilt.\<close>

record rebuild_context =
  rx_env :: edit_env
  rx_plan :: migration_plan
  rx_spec :: edit_spec
  rx_after :: layout
  rx_touched :: "nat list"
  rx_created :: "nat list"
  rx_previous :: "(nat \<times> wave_doc) list"
  rx_rows :: "vm list"
  rx_overrides :: "(nat option \<times> override_entry list) list"
  rx_mappings :: "resource_mapping list"
  rx_catalogs :: "(int \<times> catalog_snapshot) list"

definition yaml_violation :: "rebuild_context \<Rightarrow> nat \<Rightarrow> mtv_error option \<Rightarrow> violation list" where
  "yaml_violation rx n yaml_error =
     (if yaml_error = None then []
      else (let was_ok = (n \<in> set (rx_created rx) \<or>
                 (\<exists>d\<in>set_option (dict_get (rx_previous rx) n). wd_mtv_yaml_available d))
            in [plain_violation ''yaml_emit_failed'' (if was_ok then BLOCKING else INFO)
                  (mp_id (rx_plan rx)) (Some n) [] None None]))"

definition rebuild_wave :: "rebuild_context \<Rightarrow> nat \<Rightarrow> edit_error + (wave_doc option \<times> violation list)" where
  "rebuild_wave rx n =
     (let overrides = dict_get_or (rx_overrides rx) (Some n) []
      in if n \<in> set (rx_touched rx) then
           (let vms = List.map_filter (find_vm (rx_rows rx)) (dict_get_or (rx_after rx) n []);
                (doc, yaml_error) = build_wave_doc (rx_env rx) (rx_plan rx) n vms (dict_get (rx_previous rx) n)
                  overrides (rx_mappings rx) (rx_spec rx) (rx_catalogs rx)
            in if vms = [] then Inr (None, []) else Inr (Some doc, yaml_violation rx n yaml_error))
         else (case dict_get (rx_previous rx) n of
             None \<Rightarrow> Inl Key_error
           | Some d \<Rightarrow> Inr (Some (if overrides \<noteq> [] \<or> wd_overrides d \<noteq> [] then d\<lparr>wd_overrides := overrides\<rparr> else d), [])))"

fun rebuild_waves ::
  "rebuild_context \<Rightarrow> nat list \<Rightarrow> edit_error + (nat \<times> wave_doc option \<times> violation list) list" where
  "rebuild_waves rx [] = Inr []"
| "rebuild_waves rx (n # ns) =
     (case rebuild_wave rx n of
        Inl e \<Rightarrow> Inl e
      | Inr r \<Rightarrow> (case rebuild_waves rx ns of Inl e \<Rightarrow> Inl e | Inr rs \<Rightarrow> Inr ((n, r) # rs)))"

definition first_vcenter :: "(int \<times> int option) list \<Rightarrow> int list \<Rightarrow> int option" where
  "first_vcenter vcenter_by_vm ids =
     (case List.map_filter (\<lambda>vid. Option.bind (dict_get vcenter_by_vm vid) id) ids of [] \<Rightarrow> None | vc # _ \<Rightarrow> Some vc)"

definition recolor :: "(int \<times> int option) list \<Rightarrow> (int \<times> string) list \<Rightarrow> wave_doc list \<Rightarrow> wave_doc list" where
  "recolor vcenter_by_vm names docs =
     (let shells = map (\<lambda>d. shell_wave (wd_wave_number d) (wd_vm_ids d) (first_vcenter vcenter_by_vm (wd_vm_ids d))) docs;
          colored = assign_concurrency_groups shells (dict_get names)
      in map (\<lambda>(d, s). d\<lparr>wd_concurrency_group_id := w_concurrency_group_id s\<rparr>) (zip docs colored))"

definition rebuild_plan ::
  "rebuild_context \<Rightarrow> nat list \<Rightarrow> (int \<times> string) list \<Rightarrow> (int \<times> int option) list
     \<Rightarrow> edit_error + (plan_change \<times> violation list)" where
  "rebuild_plan rx removed names vcenter_by_vm =
     (case rebuild_waves rx (sort (map fst (rx_after rx))) of
        Inl e \<Rightarrow> Inl e
      | Inr results \<Rightarrow>
          (let docs = recolor vcenter_by_vm names (List.map_filter (fst \<circ> snd) results);
               emptied = map fst (filter (\<lambda>r. fst (snd r) = None) results);
               vm_ids = concat (map wd_vm_ids docs);
               kept = map wd_wave_number docs
           in if \<not> distinct vm_ids then Inl (Plan_edit_error 500 ''membership_corrupt'' [])
              else Inr (\<lparr>ch_plan_id = mp_id (rx_plan rx), ch_waves = docs, ch_vm_ids = vm_ids,
                  ch_wave_number_seq = max_of (seq_or_zero (rx_plan rx) # map fst (rx_previous rx) @ map fst (rx_after rx)),
                  ch_touched_waves = sort (filter (\<lambda>n. n \<in> set kept) (rx_touched rx)),
                  ch_created_waves = sort (filter (\<lambda>n. n \<in> set kept) (rx_created rx)),
                  ch_removed_waves = sort (remdups (removed @ emptied))\<rparr>,
                concat (map (snd \<circ> snd) results))))"

section \<open>Preparing an edit\<close>

text \<open>The operation, its plans and its wave request are checked first.\<close>

definition edit_target :: "app_db \<Rightarrow> migration_plan \<Rightarrow> edit_spec \<Rightarrow> edit_error + migration_plan" where
  "edit_target db p spec =
     (if es_operation spec \<notin> set OPERATIONS then Inl (Plan_edit_error 422 ''bad_operation'' [])
      else if es_vm_ids spec = [] then Inl (Plan_edit_error 422 ''no_vms'' [])
      else if mp_status p \<noteq> ''complete'' then Inl (Plan_edit_error 409 ''plan_not_editable'' [])
      else if es_operation spec \<noteq> ''move_to_plan'' then
        (if es_operation spec \<noteq> ''remove'' \<and> \<not> es_new_wave spec \<and> es_target_wave spec = None
         then Inl (Plan_edit_error 422 ''bad_target'' []) else Inr p)
      else (case es_target_plan_id spec of
          None \<Rightarrow> Inl (Plan_edit_error 422 ''bad_target'' [])
        | Some tid \<Rightarrow>
            if tid = mp_id p then Inl (Plan_edit_error 422 ''bad_target'' [])
            else (case get_plan db tid of
                None \<Rightarrow> Inl (Plan_edit_error 404 ''not_found'' [])
              | Some target \<Rightarrow>
                  if mp_status target \<noteq> ''complete'' then Inl (Plan_edit_error 409 ''plan_not_editable'' [])
                  else if \<not> es_new_wave spec \<and> es_target_wave spec = None
                    then Inl (Plan_edit_error 422 ''bad_target'' [])
                  else Inr target)))"

definition wave_of_vm :: "layout \<Rightarrow> (int \<times> nat) list" where
  "wave_of_vm members = dict_of fst snd (concat (map (\<lambda>(n, ids). map (\<lambda>vid. (vid, n)) ids) members))"

definition edit_dest :: "edit_spec \<Rightarrow> migration_plan \<Rightarrow> layout \<Rightarrow> edit_error + nat option" where
  "edit_dest spec target members =
     (if es_operation spec = ''remove'' then Inr None
      else if es_new_wave spec then Inr (Some (next_wave_number target members))
      else (case es_target_wave spec of
          None \<Rightarrow> Inr None
        | Some n \<Rightarrow> if dict_has members n then Inr (Some n) else Inl (Plan_edit_error 422 ''bad_target'' [])))"

text \<open>One pass of the loop over the virtual machines, on the layouts of the plans involved.\<close>

definition move_step ::
  "edit_spec \<Rightarrow> int \<Rightarrow> int \<Rightarrow> nat option \<Rightarrow> (int \<times> nat) list \<Rightarrow> vm
     \<Rightarrow> (int \<times> layout) list \<times> edit_move list \<Rightarrow> (int \<times> layout) list \<times> edit_move list" where
  "move_step spec src tgt dest wof v acc =
     (case acc of (after, moves) \<Rightarrow>
        (let vid = vm_id v;
             from_wave = dict_get wof vid;
             after1 = (case from_wave of
                None \<Rightarrow> after
              | Some n \<Rightarrow> (let l = dict_get_or after src []
                    in dict_set src (dict_set n (remove1 vid (dict_get_or l n [])) l) after));
             after2 = (case dest of
                None \<Rightarrow> after1
              | Some d \<Rightarrow> dict_set tgt (dict_append d vid (dict_get_or after1 tgt [])) after1)
         in if es_operation spec = ''move_to_wave'' \<and> from_wave = dest then (after, moves)
            else (after2, moves @ [\<lparr>mv_vm_id = vid, mv_vm_name = vm_name v,
               mv_from_plan_id = (if from_wave = None then None else Some src), mv_from_wave = from_wave,
               mv_to_plan_id = (if dest = None then None else Some tgt), mv_to_wave = dest\<rparr>])))"

definition drop_empty :: "layout \<Rightarrow> layout" where
  "drop_empty l = filter (\<lambda>(n, ids). ids \<noteq> []) l"

definition removed_waves :: "layout \<Rightarrow> nat list" where
  "removed_waves l = sort (map fst (filter (\<lambda>(n, ids). ids = []) l))"

definition created_waves :: "layout \<Rightarrow> layout \<Rightarrow> nat list" where
  "created_waves before after = sort (filter (\<lambda>n. \<not> dict_has before n) (map fst after))"

definition touched_waves :: "layout \<Rightarrow> layout \<Rightarrow> nat list" where
  "touched_waves before after =
     sort (filter (\<lambda>n. dict_has before n \<and> dict_get after n \<noteq> dict_get before n) (map fst after)
       @ created_waves before after)"

definition moved_layouts ::
  "edit_spec \<Rightarrow> int \<Rightarrow> int \<Rightarrow> nat option \<Rightarrow> (int \<times> layout) list \<Rightarrow> vm list
     \<Rightarrow> (int \<times> layout) list \<times> edit_move list" where
  "moved_layouts spec src tgt dest before vms =
     fold (move_step spec src tgt dest (wave_of_vm (dict_get_or before src []))) vms (before, [])"

definition existing_touched :: "layout \<Rightarrow> layout \<Rightarrow> nat list" where
  "existing_touched before moved =
     filter (\<lambda>n. n \<notin> set (created_waves before (drop_empty moved))) (touched_waves before (drop_empty moved))
     @ removed_waves moved"

text \<open>The rules an edit breaks, before any wave is rebuilt.\<close>

definition introduced_violations ::
  "(int \<times> string) list \<Rightarrow> layout \<Rightarrow> layout \<Rightarrow> int \<Rightarrow> violation list" where
  "introduced_violations names before after pid =
     diff_violations (check_waves (as_members before names) (Some pid))
       (check_waves (as_members after names) (Some pid))"

definition plan_size_violations :: "edit_env \<Rightarrow> migration_plan \<Rightarrow> layout \<Rightarrow> violation list" where
  "plan_size_violations env target after =
     (let size = length (concat (map snd after)); lim = nat (sv_max_vms_per_plan (ee_service env))
      in if int size > sv_max_vms_per_plan (ee_service env)
         then [plain_violation ''plan_size'' OVERRIDABLE (mp_id target) None [] (Some size) (Some lim)] else [])"

definition baseline_violations ::
  "app_db \<Rightarrow> migration_plan \<Rightarrow> layout \<Rightarrow> nat option \<Rightarrow> vm list \<Rightarrow> violation list" where
  "baseline_violations db target before dest moved_vms =
     (case dest of
        None \<Rightarrow> []
      | Some d \<Rightarrow>
          if dict_has before d \<and> has_completed_baseline db (mp_id target) d
          then [plain_violation ''baseline_not_covered'' INFO (mp_id target) (Some d) moved_vms None None]
          else [])"

definition edit_names :: "app_db \<Rightarrow> migration_plan list \<Rightarrow> int list \<Rightarrow> (int \<times> string) list" where
  "edit_names db plans ids =
     dict_of fst snd (concat (map stored_names plans) @
       map (\<lambda>v. (vm_id v, vm_name v)) (select_vms (ad_vms db) ids))"

definition rebuild_context_for ::
  "edit_env \<Rightarrow> app_db \<Rightarrow> edit_spec \<Rightarrow> (int \<times> string) list \<Rightarrow> migration_plan \<Rightarrow> layout \<Rightarrow> layout \<Rightarrow> rebuild_context" where
  "rebuild_context_for env db spec names p before after =
     (let touched = touched_waves before after;
          mappings = plan_mappings db p
      in \<lparr>rx_env = env, rx_plan = p, rx_spec = spec, rx_after = after, rx_touched = touched,
          rx_created = created_waves before after, rx_previous = dict_of wd_wave_number id (mp_waves p),
          rx_rows = select_vms (ad_vms db) (concat (map (\<lambda>n. dict_get_or after n []) touched)),
          rx_overrides = override_entries p (as_members after names)
            (introduced_violations names before after (mp_id p)) (sv_actor (ee_service env)) (sv_now (ee_service env)),
          rx_mappings = mappings, rx_catalogs = load_catalogs_for (ad_targets db) mappings\<rparr>)"

text \<open>The changes of the plans involved, each with the violations its rebuild reports.\<close>

fun rebuild_plans ::
  "(migration_plan \<Rightarrow> edit_error + (plan_change \<times> violation list)) \<Rightarrow> migration_plan list
     \<Rightarrow> edit_error + ((int \<times> plan_change) list \<times> violation list)" where
  "rebuild_plans f [] = Inr ([], [])"
| "rebuild_plans f (p # ps) =
     (case f p of
        Inl e \<Rightarrow> Inl e
      | Inr (c, vs) \<Rightarrow>
          (case rebuild_plans f ps of
             Inl e \<Rightarrow> Inl e
           | Inr (cs, ws) \<Rightarrow> Inr ((mp_id p, c) # cs, vs @ ws)))"

definition prepare_on ::
  "edit_env \<Rightarrow> app_db \<Rightarrow> migration_plan \<Rightarrow> migration_plan \<Rightarrow> edit_spec \<Rightarrow> vm list \<Rightarrow> nat option
     \<Rightarrow> edit_error + prepared_edit" where
  "prepare_on env db p target spec vms dest =
     (let src = mp_id p; tgt = mp_id target;
          plans = (if tgt = src then [p] else [p, target]);
          before = map (\<lambda>q. (mp_id q, wave_membership q)) plans;
          (moved, moves) = moved_layouts spec src tgt dest before vms;
          before_of = (\<lambda>q. dict_get_or before (mp_id q) []);
          moved_of = (\<lambda>q. dict_get_or moved (mp_id q) []);
          after_of = (\<lambda>q. drop_empty (moved_of q));
          moved_vms = filter (\<lambda>v. vm_id v \<in> mv_vm_id ` set moves) vms;
          names = edit_names db plans (concat (map (concat \<circ> map snd \<circ> before_of) plans) @ map vm_id vms);
          vcenter_by_vm = dict_of vm_id vm_source_vcenter_id
            (select_vms (ad_vms db) (concat (map (concat \<circ> map snd \<circ> before_of) plans) @ map vm_id vms));
          violations =
            (if after_of p = []
             then [plain_violation ''would_empty_plan'' BLOCKING src None [] None None] else []) @
            concat (map (\<lambda>q. run_violations db (mp_id q) (existing_touched (before_of q) (moved_of q))) plans) @
            (if es_operation spec \<in> set [''move_to_plan'', ''add'']
             then target_violations db spec p target moved_vms @ plan_size_violations env target (after_of target)
             else []) @
            concat (map (\<lambda>q. introduced_violations names (before_of q) (after_of q) (mp_id q)) plans) @
            baseline_violations db target (before_of target) dest moved_vms;
          rebuild = (\<lambda>q. rebuild_plan (rebuild_context_for env db spec names q (before_of q) (after_of q))
            (removed_waves (moved_of q)) names vcenter_by_vm)
      in if moves = [] then Inl (Plan_edit_error 422 ''no_change'' [])
         else if list_ex (\<lambda>v. v_severity v = BLOCKING) violations
           then Inr \<lparr>pp_spec = spec, pp_source = p, pp_target = target, pp_violations = violations,
                  pp_moves = moves, pp_changes = []\<rparr>
         else (case rebuild_plans rebuild (filter (\<lambda>q. after_of q \<noteq> []) plans) of
             Inl e \<Rightarrow> Inl e
           | Inr (changes, extra) \<Rightarrow> Inr \<lparr>pp_spec = spec, pp_source = p, pp_target = target,
                  pp_violations = violations @ extra, pp_moves = moves, pp_changes = changes\<rparr>))"

definition prepare :: "edit_env \<Rightarrow> app_db \<Rightarrow> migration_plan \<Rightarrow> edit_spec \<Rightarrow> edit_error + prepared_edit" where
  "prepare env db p spec =
     (case edit_target db p spec of
        Inl e \<Rightarrow> Inl e
      | Inr target \<Rightarrow>
          (let vm_ids = unique_in_order (es_vm_ids spec);
               vms = List.map_filter (find_vm (ad_vms db)) vm_ids;
               missing = filter (\<lambda>vid. find_vm (ad_vms db) vid = None) vm_ids;
               wof = wave_of_vm (wave_membership p)
           in if missing \<noteq> [] then Inl (Plan_edit_error 404 ''not_found'' [])
              else if es_operation spec = ''add'' \<and> list_ex (dict_has wof) vm_ids
                then Inl (Plan_edit_error 422 ''already_member'' [])
              else if es_operation spec \<noteq> ''add'' \<and> \<not> list_all (dict_has wof) vm_ids
                then Inl (Plan_edit_error 422 ''not_member'' [])
              else (case edit_dest spec target (wave_membership target) of
                  Inl e \<Rightarrow> Inl e
                | Inr dest \<Rightarrow> prepare_on env db p target spec vms dest)))"

section \<open>Storing an edit\<close>

definition AUDIT_ACTION :: "string \<Rightarrow> string" where
  "AUDIT_ACTION op =
     (if op = ''move_to_wave'' then ''plan.edit.move_vm''
      else if op = ''move_to_plan'' then ''plan.edit.move_to_plan''
      else if op = ''remove'' then ''plan.edit.remove_vm''
      else ''plan.edit.add_vm'')"

definition AUDIT_LIST_CAP :: nat where "AUDIT_LIST_CAP = 200"

definition edit_lifecycle :: "edit_env \<Rightarrow> prepared_edit \<Rightarrow> unit transition" where
  "edit_lifecycle env pe s =
     (let op = es_operation (pp_spec pe);
          moved_ids = map mv_vm_id (pp_moves pe);
          now = sv_now (ee_service env); actor = sv_actor (ee_service env)
      in if op = ''add'' then map_prod id (map_sum id (\<lambda>_. ()))
             (transition_to_planned now moved_ids (mp_id (pp_target pe)) actor ''plan.edit.add'' s)
         else if op = ''remove'' then map_prod id (map_sum id (\<lambda>_. ()))
             (transition_to_available_from_plan_edit now (mp_id (pp_source pe)) moved_ids actor s)
         else if op = ''move_to_plan''
           then record_plan_reassignment moved_ids (mp_id (pp_source pe)) (mp_id (pp_target pe)) actor s
         else (s, Inr ()))"

definition store_change :: "plan_change \<Rightarrow> migration_plan \<Rightarrow> migration_plan" where
  "store_change c p = p\<lparr>mp_waves := ch_waves c, mp_vm_ids := ch_vm_ids c,
     mp_wave_number_seq := Some (ch_wave_number_seq c)\<rparr>"

definition audit_change :: "edit_env \<Rightarrow> prepared_edit \<Rightarrow> int \<times> plan_change \<Rightarrow> app_db \<Rightarrow> app_db" where
  "audit_change env pe pc db =
     (let moved_ids = map mv_vm_id (pp_moves pe); op = es_operation (pp_spec pe)
      in audit_plan (AUDIT_ACTION op) (sv_actor (ee_service env)) (Some (fst pc))
           (Plan_edit_event op (take AUDIT_LIST_CAP moved_ids) (length moved_ids) (ch_touched_waves (snd pc))
             (ch_created_waves (snd pc)) (ch_removed_waves (snd pc))) db)"

definition apply_edit :: "edit_env \<Rightarrow> prepared_edit \<Rightarrow> app_db \<Rightarrow> edit_error + app_db" where
  "apply_edit env pe db =
     (if pp_blocking pe \<noteq> [] then Inl (Plan_edit_error 422 ''blocked'' (pp_blocking pe))
      else (case in_session (edit_lifecycle env pe) db of
          (_, Inl e) \<Rightarrow> Inl (Plan_edit_error 422 ''lifecycle'' [])
        | (db1, Inr _) \<Rightarrow>
            (let db2 = fold (\<lambda>(pid, c). update_plan pid (store_change c)) (pp_changes pe) db1;
                 db3 = fold (audit_change env pe) (pp_changes pe) db2;
                 overridden = pp_overridable pe
             in Inr (if overridden \<noteq> []
                  then audit_plan ''plan.edit.rule_overridden'' (sv_actor (ee_service env))
                    (Some (mp_id (pp_target pe))) (Plan_event (length overridden)) db3
                  else db3))))"

section \<open>The endpoint\<close>

definition edit_plan ::
  "edit_env \<Rightarrow> int \<Rightarrow> edit_spec \<Rightarrow> bool \<Rightarrow> bool \<Rightarrow> app_db \<Rightarrow> app_db \<times> (edit_error + prepared_edit)" where
  "edit_plan env pid request dry_run confirm_overrides db =
     (let spec = request\<lparr>es_note := none_if_empty (Some (str_strip (or_empty (es_note request))))\<rparr>
      in case get_plan db pid of
           None \<Rightarrow> (db, Inl (Plan_edit_error 404 ''not_found'' []))
         | Some p \<Rightarrow>
             (case prepare env db p spec of
                Inl e \<Rightarrow> (db, Inl e)
              | Inr pe \<Rightarrow>
                  if dry_run then (db, Inr pe)
                  else if pp_blocking pe \<noteq> []
                    then (db, Inl (Plan_edit_error 422 ''blocked'' (pp_violations pe)))
                  else if pp_overridable pe \<noteq> [] \<and> \<not> confirm_overrides
                    then (db, Inl (Plan_edit_error 409 ''confirmation_required'' (pp_violations pe)))
                  else (case apply_edit env pe db of
                      Inl e \<Rightarrow> (db, Inl e)
                    | Inr db' \<Rightarrow> (db', Inr pe))))"

end
