(* ===== verification/Plan_System.thy ===== *)
theory Plan_System
  imports Plan_Edit Lifecycle_Audit
begin

text \<open>
  The plan workflow as a whole: requests, the background task and the start-up recovery as steps
  on the tables, and the invariant that ties the lifecycle state of a virtual machine to the
  plans that hold it.
\<close>

section \<open>Open plans\<close>

definition open_plan :: "migration_plan \<Rightarrow> bool" where
  "open_plan p \<longleftrightarrow> mp_status p \<notin> set [''failed'', ''migrated'']"

text \<open>
  The tables agree: plan ids are unique and below the next one, virtual machine ids are unique,
  a virtual machine of an open plan is planned, open plans share none, and a planned virtual
  machine is in an open plan.
\<close>

definition wf_app :: "app_db \<Rightarrow> bool" where
  "wf_app db \<longleftrightarrow> wf_session (ad_session db) \<and> distinct (map mp_id (ad_plans db)) \<and>
     list_all (\<lambda>p. mp_id p < ad_next_plan_id db) (ad_plans db)"

definition row_ids :: "session \<Rightarrow> int set" where
  "row_ids s = vm_id ` set (s_vms s)"

definition planned_vms :: "session \<Rightarrow> int set" where
  "planned_vms s = {i. \<exists>v\<in>set (s_vms s). vm_id v = i \<and> vm_lifecycle_state v = Planned}"

text \<open>What the open plans hold.\<close>

definition held_of :: "migration_plan list \<Rightarrow> int list" where
  "held_of ps = concat (map mp_vm_ids (filter open_plan ps))"

definition held :: "app_db \<Rightarrow> int list" where
  "held db = held_of (ad_plans db)"

text \<open>The waves of a finished plan hold exactly its virtual machines, under distinct numbers.\<close>

definition whole :: "migration_plan \<Rightarrow> bool" where
  "whole p \<longleftrightarrow> mp_status p = ''complete'' \<longrightarrow> distinct (map wd_wave_number (mp_waves p)) \<and>
     mset (concat (map wd_vm_ids (mp_waves p))) = mset (mp_vm_ids p)"

definition consistent :: "app_db \<Rightarrow> bool" where
  "consistent db \<longleftrightarrow> wf_app db \<and> distinct (held db) \<and> list_all whole (ad_plans db) \<and>
     planned_vms (ad_session db) = row_ids (ad_session db) \<inter> set (held db)"

section \<open>Lifecycle calls and planned machines\<close>

lemma planned_vms_list [code]:
  "planned_vms s = set (map vm_id (filter (\<lambda>v. vm_lifecycle_state v = Planned) (s_vms s)))"
  by (auto simp: planned_vms_def)

lemma row_ids_moved [simp]: "row_ids (moved now vms t s) = row_ids s"
proof -
  have "map vm_id (s_vms (moved now vms t s)) = map vm_id (s_vms s)" by (simp add: s_vms_moved)
  then show ?thesis unfolding row_ids_def by (metis list.set_map)
qed

lemma row_ids_record_audit [simp]: "row_ids (record_audit r s) = row_ids s"
  by (simp add: row_ids_def)

lemma planned_vms_record_audit [simp]: "planned_vms (record_audit r s) = planned_vms s"
  by (simp add: planned_vms_def)

lemma planned_vms_moved:
  "planned_vms (moved now vms t s) =
     (if t = Planned then planned_vms s \<union> (row_ids s \<inter> vm_id ` set vms) else planned_vms s - vm_id ` set vms)"
proof (rule set_eqI)
  fix i
  have "i \<in> planned_vms (moved now vms t s) \<longleftrightarrow>
      (\<exists>v\<in>set (s_vms s). vm_id v = i \<and> (if i \<in> vm_id ` set vms then t = Planned else vm_lifecycle_state v = Planned))"
    unfolding planned_vms_def s_vms_moved mem_Collect_eq set_map bex_simps
    by (intro bex_cong refl) (auto simp: if_distrib)
  note at = this
  show "i \<in> planned_vms (moved now vms t s) \<longleftrightarrow> i \<in> (if t = Planned
      then planned_vms s \<union> (row_ids s \<inter> vm_id ` set vms) else planned_vms s - vm_id ` set vms)"
    unfolding at by (cases "t = Planned"; cases "i \<in> vm_id ` set vms") (auto simp: planned_vms_def row_ids_def intro: rev_image_eqI)
qed

lemma to_planned_Inr:
  assumes "transition_to_planned now ids pid actor trg s = (s', Inr r)"
  shows "set ids \<subseteq> row_ids s" and "set ids \<inter> planned_vms s = {}"
    and "planned_vms s' = planned_vms s \<union> set ids" and "row_ids s' = row_ids s"
proof -
  let ?vms = "fetch_locked s ids"
  from assms have m: "missing_ids ?vms ids = []" and e: "enforce ?vms [Available] Planned = None"
    and s': "s' = record_audit (last (s_audit s')) (moved now ?vms Planned s)"
    unfolding transition_to_planned_def Let_def apply_state_split
    by (auto simp: record_audit_def split: if_splits option.splits)
  show sub: "set ids \<subseteq> row_ids s" using m by (auto simp: missing_ids_Nil row_ids_def)
  show "set ids \<inter> planned_vms s = {}"
    using e by (auto simp: enforce_None planned_vms_def fetch_locked_mem)
  have "vm_id ` set ?vms = set ids" using sub by (auto simp: fetch_locked_ids row_ids_def)
  with sub show "planned_vms s' = planned_vms s \<union> set ids"
    by (subst s') (auto simp: planned_vms_moved)
  show "row_ids s' = row_ids s" by (subst s') simp
qed

lemma release_planned_vms:
  "planned_vms (fst (release_planned_to_available now pid ids actor trg s)) = planned_vms s - set ids"
  "row_ids (fst (release_planned_to_available now pid ids actor trg s)) = row_ids s"
proof -
  let ?el = "filter (\<lambda>v. vm_lifecycle_state v = Planned) (fetch_locked s ids)"
  have "planned_vms s - vm_id ` set ?el = planned_vms s - set ids"
    by (auto simp: planned_vms_def fetch_locked_mem)
  moreover have "planned_vms s - set ids = planned_vms s" if "?el = []"
    using that by (auto simp: planned_vms_def fetch_locked_mem filter_empty_conv)
  ultimately show "planned_vms (fst (release_planned_to_available now pid ids actor trg s)) = planned_vms s - set ids"
    and "row_ids (fst (release_planned_to_available now pid ids actor trg s)) = row_ids s"
    unfolding release_planned_to_available_def Let_def apply_state_split
    by (simp_all add: planned_vms_moved split: if_split)
qed

lemma to_migrated_Inr:
  assumes "transition_to_migrated now pid ids actor s = (s', Inr r)"
  shows "planned_vms s' = planned_vms s - set ids" and "row_ids s' = row_ids s"
proof -
  let ?el = "filter (\<lambda>v. vm_lifecycle_state v = Planned) (fetch_locked s ids)"
  have "planned_vms s - vm_id ` set ?el = planned_vms s - set ids"
    by (auto simp: planned_vms_def fetch_locked_mem)
  moreover have "planned_vms s - set ids = planned_vms s" if "?el = []"
    using that by (auto simp: planned_vms_def fetch_locked_mem filter_empty_conv)
  ultimately show "planned_vms s' = planned_vms s - set ids" and "row_ids s' = row_ids s"
    using assms unfolding transition_to_migrated_def Let_def apply_state_split
    by (auto simp: planned_vms_moved split: if_splits option.splits)
qed

lemma single_transition_planned:
  assumes "source \<noteq> Planned" and "target \<noteq> Planned"
  shows "planned_vms (fst (single_transition source target trg now i actor s)) = planned_vms s"
    and "row_ids (fst (single_transition source target trg now i actor s)) = row_ids s"
proof -
  have "planned_vms s - vm_id ` set (fetch_locked s [i]) = planned_vms s"
    if "enforce (fetch_locked s [i]) [source] target = None"
    using that assms(1) by (auto simp: enforce_None planned_vms_def fetch_locked_mem)
  then show "planned_vms (fst (single_transition source target trg now i actor s)) = planned_vms s"
    and "row_ids (fst (single_transition source target trg now i actor s)) = row_ids s"
    using assms(2) unfolding single_transition_def Let_def apply_state_split
    by (simp_all add: planned_vms_moved split: if_split option.split)
qed

lemma patch_planned:
  "planned_vms (fst (patch_transition now v target actor s)) = planned_vms s"
  "row_ids (fst (patch_transition now v target actor s)) = row_ids s"
  by (auto simp: patch_transition_def Let_def transition_to_rolled_back_def
      transition_to_available_from_rolled_back_def single_transition_planned)

lemma reassign_vms: "s_vms (fst (record_plan_reassignment ids p q actor s)) = s_vms s"
  by (simp add: record_plan_reassignment_def Let_def split: option.split)

section \<open>Plans in the table\<close>

lemma held_of_simps [simp]:
  "held_of [] = []" "held_of (xs @ ys) = held_of xs @ held_of ys"
  "held_of (p # ps) = (if open_plan p then mp_vm_ids p else []) @ held_of ps"
  by (simp_all add: held_of_def)

lemma get_plan_Some: "get_plan db pid = Some p \<Longrightarrow> p \<in> set (ad_plans db) \<and> mp_id p = pid"
  by (auto simp: get_plan_def find_Some_iff)

lemma get_plan_split:
  assumes "get_plan db pid = Some p" and "wf_app db"
  obtains xs ys where "ad_plans db = xs @ p # ys" and "mp_id p = pid"
    and "pid \<notin> mp_id ` set xs" and "pid \<notin> mp_id ` set ys"
proof -
  from assms(1) have "p \<in> set (ad_plans db)" and pid: "mp_id p = pid" by (auto dest: get_plan_Some)
  then obtain xs ys where xs: "ad_plans db = xs @ p # ys" by (auto simp: in_set_conv_decomp)
  with assms(2) pid have "pid \<notin> mp_id ` set xs" "pid \<notin> mp_id ` set ys"
    by (auto simp: wf_app_def)
  with xs pid show thesis by (rule that)
qed

lemma update_split:
  assumes "ad_plans db = xs @ p # ys" and "mp_id p = pid" and "pid \<notin> mp_id ` set xs" and "pid \<notin> mp_id ` set ys"
  shows "ad_plans (update_plan pid f db) = xs @ f p # ys"
proof -
  have "map (\<lambda>q. if mp_id q = pid then f q else q) zs = zs" if "pid \<notin> mp_id ` set zs" for zs
    using that by (intro map_idI) auto
  with assms show ?thesis by (simp add: update_plan_def)
qed

lemma update_plan_fields [simp]:
  "ad_session (update_plan pid f db) = ad_session db"
  "ad_next_plan_id (update_plan pid f db) = ad_next_plan_id db"
  by (simp_all add: update_plan_def)

lemma audit_plan_fields [simp]:
  "ad_plans (audit_plan a u i d db) = ad_plans db"
  "ad_next_plan_id (audit_plan a u i d db) = ad_next_plan_id db"
  "planned_vms (ad_session (audit_plan a u i d db)) = planned_vms (ad_session db)"
  "row_ids (ad_session (audit_plan a u i d db)) = row_ids (ad_session db)"
  "wf_session (ad_session (audit_plan a u i d db)) = wf_session (ad_session db)"
  by (simp_all add: audit_plan_def)

lemma consistent_audit_plan [simp]: "consistent (audit_plan a u i d db) = consistent db"
  by (simp add: consistent_def wf_app_def held_def)

lemma in_session_fields [simp]:
  "ad_plans (fst (in_session t db)) = ad_plans db"
  "ad_next_plan_id (fst (in_session t db)) = ad_next_plan_id db"
  "ad_session (fst (in_session t db)) = fst (t (ad_session db))"
  by (simp_all add: in_session_def split: prod.split)

section \<open>Changing one plan\<close>

text \<open>A plan is closed or removed and its machines leave the planned state.\<close>

lemma consistent_close:
  assumes db: "consistent db" "ad_plans db = xs @ p # ys"
    and plans: "ad_plans db' = xs @ qs @ ys" "qs = [] \<or> (\<exists>q. qs = [q] \<and> \<not> open_plan q \<and> whole q \<and> mp_id q = mp_id p)"
    and planned: "planned_vms (ad_session db') = planned_vms (ad_session db) - set (mp_vm_ids p)"
    and same: "row_ids (ad_session db') = row_ids (ad_session db)" "wf_session (ad_session db')"
      "ad_next_plan_id db' = ad_next_plan_id db"
    and stale: "open_plan p \<or> set (mp_vm_ids p) \<inter> planned_vms (ad_session db) = {}"
  shows "consistent db'"
proof -
  have held': "held db' = held_of xs @ held_of ys" using plans by (auto simp: held_def)
  have held: "held db = held_of xs @ (if open_plan p then mp_vm_ids p else []) @ held_of ys"
    using db by (simp add: held_def)
  have "planned_vms (ad_session db') = row_ids (ad_session db') \<inter> set (held db')"
  proof (cases "open_plan p")
    case True
    with db held held' planned same show ?thesis by (auto simp: consistent_def)
  next
    case False
    with stale planned have "planned_vms (ad_session db') = planned_vms (ad_session db)" by auto
    with False db held held' same show ?thesis by (simp add: consistent_def)
  qed
  moreover have "distinct (held db')" using db held held' by (auto simp: consistent_def)
  moreover have "wf_app db'" using plans(2) db plans(1) same
    by (elim disjE exE conjE) (simp_all add: consistent_def wf_app_def)
  moreover have "list_all whole (ad_plans db')" using db plans by (auto simp: consistent_def)
  ultimately show ?thesis by (simp add: consistent_def)
qed

text \<open>A plan stays open, and the planned machines follow what it holds.\<close>

lemma consistent_replace:
  assumes db: "consistent db" "ad_plans db = xs @ p # ys" and op: "open_plan p" "open_plan q"
    and plans: "ad_plans db' = xs @ q # ys" "mp_id q = mp_id p" "whole q"
    and ids: "distinct (mp_vm_ids q)" "set (mp_vm_ids q) \<inter> (set (held_of xs) \<union> set (held_of ys)) = {}"
    and planned: "planned_vms (ad_session db') =
      (planned_vms (ad_session db) - set (mp_vm_ids p)) \<union> (row_ids (ad_session db) \<inter> set (mp_vm_ids q))"
    and same: "row_ids (ad_session db') = row_ids (ad_session db)" "wf_session (ad_session db')"
      "ad_next_plan_id db' = ad_next_plan_id db"
  shows "consistent db'"
proof -
  have held': "held db' = held_of xs @ mp_vm_ids q @ held_of ys" using plans op by (simp add: held_def)
  have held: "held db = held_of xs @ mp_vm_ids p @ held_of ys" using db op by (simp add: held_def)
  have "planned_vms (ad_session db') = row_ids (ad_session db') \<inter> set (held db')"
    using db held held' planned same by (auto simp: consistent_def)
  moreover have "distinct (held db')" using db held held' ids by (auto simp: consistent_def)
  moreover have "wf_app db'" using db plans same by (auto simp: consistent_def wf_app_def)
  moreover have "list_all whole (ad_plans db')" using db plans by (auto simp: consistent_def)
  ultimately show ?thesis by (simp add: consistent_def)
qed

text \<open>The same machines under another open status.\<close>

lemma consistent_relabel:
  assumes db: "consistent db" "ad_plans db = xs @ p # ys" and op: "open_plan p" "open_plan q"
    and plans: "ad_plans db' = xs @ q # ys" "mp_id q = mp_id p" "whole q" "mset (mp_vm_ids q) = mset (mp_vm_ids p)"
    and same: "planned_vms (ad_session db') = planned_vms (ad_session db)"
      "row_ids (ad_session db') = row_ids (ad_session db)" "wf_session (ad_session db')"
      "ad_next_plan_id db' = ad_next_plan_id db"
  shows "consistent db'"
proof (rule consistent_replace [OF db op plans(1-3)])
  have held: "held db = held_of xs @ mp_vm_ids p @ held_of ys" using db op by (simp add: held_def)
  have eq: "set (mp_vm_ids q) = set (mp_vm_ids p)" using plans(4) by (rule mset_eq_setD)
  show "distinct (mp_vm_ids q)"
    using db held mset_eq_imp_distinct_iff [OF plans(4)] by (simp add: consistent_def)
  show "set (mp_vm_ids q) \<inter> (set (held_of xs) \<union> set (held_of ys)) = {}"
    unfolding eq using db held by (auto simp: consistent_def)
  show "planned_vms (ad_session db') =
      (planned_vms (ad_session db) - set (mp_vm_ids p)) \<union> (row_ids (ad_session db) \<inter> set (mp_vm_ids q))"
    unfolding eq same(1) using db held by (auto simp: consistent_def)
qed (use same in simp_all)

section \<open>The steps outside editing\<close>

lemma in_progress_open: "mp_status p \<in> set ORPHAN_STATUSES \<Longrightarrow> open_plan p"
  by (auto simp: ORPHAN_STATUSES_def open_plan_def)

lemma fail_plan_None: "get_plan db pid = None \<Longrightarrow> fail_plan now pid db = db"
  by (simp add: fail_plan_def)

lemma fail_plan_Some:
  assumes "get_plan db pid = Some p"
  shows "fail_plan now pid db =
    fst (in_session (release_planned_to_available now pid (mp_vm_ids p) ''system'' ''plan.failed'')
      (set_status pid ''failed'' db))"
  using assms by (simp add: fail_plan_def transition_to_available_from_failed_plan_def)

lemma wf_release: "wf_session s \<Longrightarrow> wf_session (fst (release_planned_to_available now pid ids actor trg s))"
  by (rule effect_wf [OF release_effect])

lemma consistent_fail_plan:
  assumes "consistent db" and "\<And>p. get_plan db pid = Some p \<Longrightarrow> open_plan p"
  shows "consistent (fail_plan now pid db)"
proof (cases "get_plan db pid")
  case (Some p)
  have wf: "wf_app db" using assms(1) by (simp add: consistent_def)
  then obtain xs ys where split: "ad_plans db = xs @ p # ys" "mp_id p = pid"
      "pid \<notin> mp_id ` set xs" "pid \<notin> mp_id ` set ys"
    using Some get_plan_split by blast
  have "wf_session (ad_session db)" using wf by (simp add: wf_app_def)
  moreover have "\<not> open_plan (p\<lparr>mp_status := ''failed''\<rparr>)" "whole (p\<lparr>mp_status := ''failed''\<rparr>)"
    by (simp_all add: open_plan_def whole_def)
  ultimately show ?thesis
    unfolding fail_plan_Some [OF Some]
    by (intro consistent_close [OF assms(1) split(1), where qs = "[p\<lparr>mp_status := ''failed''\<rparr>]"])
      (simp_all add: set_status_def update_split [OF split] release_planned_vms wf_release assms(2) [OF Some])
qed (simp add: fail_plan_None assms(1))

lemma get_plan_other:
  assumes "pid \<noteq> qid"
  shows "get_plan (fail_plan now qid db) pid = get_plan db pid"
proof -
  have "List.find (\<lambda>p. mp_id p = pid) (map (\<lambda>p. if mp_id p = qid then p\<lparr>mp_status := st\<rparr> else p) ps) =
      List.find (\<lambda>p. mp_id p = pid) ps" for ps st
    using assms by (induction ps) auto
  note other = this
  show ?thesis
    by (simp add: other fail_plan_def get_plan_def set_status_def update_plan_def split: option.split)
qed

lemma consistent_fail_plans:
  assumes "consistent db" and "distinct pids" and "\<And>pid p. pid \<in> set pids \<Longrightarrow> get_plan db pid = Some p \<Longrightarrow> open_plan p"
  shows "consistent (fold (fail_plan now) pids db)"
  using assms
proof (induction pids arbitrary: db)
  case (Cons pid pids)
  have "consistent (fail_plan now pid db)" by (rule consistent_fail_plan) (use Cons.prems in auto)
  moreover have "open_plan p" if "qid \<in> set pids" "get_plan (fail_plan now pid db) qid = Some p" for qid p
  proof -
    from that Cons.prems(2) have "qid \<noteq> pid" by auto
    with that Cons.prems(3) [of qid p] show ?thesis by (simp add: get_plan_other)
  qed
  ultimately show ?case using Cons.IH [of "fail_plan now pid db"] Cons.prems(2) by simp
qed simp

lemma get_plan_unique:
  assumes "wf_app db" and "p \<in> set (ad_plans db)"
  shows "get_plan db (mp_id p) = Some p"
proof -
  have "get_plan db (mp_id p) \<noteq> None" using assms(2) by (auto simp: get_plan_def find_None_iff)
  then obtain q where q: "get_plan db (mp_id p) = Some q" by blast
  then have "q = p" using assms get_plan_Some [OF q] by (auto simp: wf_app_def distinct_map inj_on_def)
  with q show ?thesis by simp
qed

lemma consistent_fail_orphans:
  assumes "consistent db"
  shows "consistent (fail_orphan_plans now db)"
  unfolding fail_orphan_plans_def
proof (rule consistent_fail_plans [OF assms])
  have wf: "wf_app db" using assms by (simp add: consistent_def)
  then show "distinct (map mp_id (filter (\<lambda>p. mp_status p \<in> set ORPHAN_STATUSES) (ad_plans db)))"
    by (auto simp: wf_app_def distinct_map intro: inj_on_subset)
  fix pid p
  assume pid: "pid \<in> set (map mp_id (filter (\<lambda>p. mp_status p \<in> set ORPHAN_STATUSES) (ad_plans db)))"
    and p: "get_plan db pid = Some p"
  then obtain q where "q \<in> set (ad_plans db)" "mp_id q = pid" "mp_status q \<in> set ORPHAN_STATUSES" by auto
  with get_plan_unique [OF wf] p have "mp_status p \<in> set ORPHAN_STATUSES" by auto
  then show "open_plan p" by (rule in_progress_open)
qed

lemma consistent_progress:
  assumes "consistent db" and "get_plan db pid = Some p" and "open_plan p" and "stage \<in> set STAGE_STATUS"
  shows "consistent (progress pid stage db)"
proof -
  have wf: "wf_app db" using assms(1) by (simp add: consistent_def)
  obtain xs ys where split: "ad_plans db = xs @ p # ys" "mp_id p = pid"
      "pid \<notin> mp_id ` set xs" "pid \<notin> mp_id ` set ys"
    using assms(2) wf get_plan_split by blast
  from assms(4) have "open_plan (p\<lparr>mp_status := stage\<rparr>)" "whole (p\<lparr>mp_status := stage\<rparr>)"
    by (auto simp: open_plan_def whole_def STAGE_STATUS_def)
  with wf show ?thesis
    by (intro consistent_relabel [OF assms(1) split(1) assms(3), where q = "p\<lparr>mp_status := stage\<rparr>"])
      (simp_all add: progress_def set_status_def update_split [OF split] wf_app_def)
qed

lemma consistent_delete_plan:
  assumes "consistent db"
    and "\<And>p. get_plan db pid = Some p \<Longrightarrow> open_plan p \<or> set (mp_vm_ids p) \<inter> planned_vms (ad_session db) = {}"
  shows "consistent (fst (delete_plan env pid db))"
proof (cases "get_plan db pid")
  case (Some p)
  have wf: "wf_app db" using assms(1) by (simp add: consistent_def)
  then obtain xs ys where split: "ad_plans db = xs @ p # ys" "mp_id p = pid"
      "pid \<notin> mp_id ` set xs" "pid \<notin> mp_id ` set ys"
    using Some get_plan_split by blast
  have "filter (\<lambda>q. mp_id q \<noteq> pid) zs = zs" if "pid \<notin> mp_id ` set zs" for zs
    using that by (auto simp: filter_id_conv)
  from this [OF split(3)] this [OF split(4)] split(1,2)
  have f: "filter (\<lambda>q. mp_id q \<noteq> pid) (ad_plans db) = xs @ ys" by simp
  have "wf_session (ad_session db)" using wf by (simp add: wf_app_def)
  then show ?thesis
    using Some assms(2) [OF Some]
    by (intro consistent_close [OF assms(1) split(1), where qs = "[]"])
      (simp_all add: delete_plan_def Let_def f release_planned_vms wf_release
        transition_to_available_from_deleted_plan_def)
qed (simp add: delete_plan_def assms(1))

lemma consistent_mark:
  assumes "consistent db"
    and "\<And>p. get_plan db pid = Some p \<Longrightarrow> open_plan p \<or> set (mp_vm_ids p) \<inter> planned_vms (ad_session db) = {}"
  shows "consistent (fst (mark_plan_succeeded env pid db))"
proof (cases "get_plan db pid")
  case (Some p)
  have wf: "wf_app db" using assms(1) by (simp add: consistent_def)
  then obtain xs ys where split: "ad_plans db = xs @ p # ys" "mp_id p = pid"
      "pid \<notin> mp_id ` set xs" "pid \<notin> mp_id ` set ys"
    using Some get_plan_split by blast
  have ws: "wf_session (ad_session db)" using wf by (simp add: wf_app_def)
  show ?thesis
  proof (cases "transition_to_migrated (sv_now env) pid (mp_vm_ids p) (sv_actor env) (ad_session db)")
    case (Pair s' r)
    have ws': "wf_session s'" using effect_wf [OF migrated_effect [OF ws] ws] Pair by (metis fst_conv)
    show ?thesis
    proof (cases r)
      case (Inl e)
      with Pair Some assms(1) show ?thesis
        by (simp add: mark_plan_succeeded_def in_session_def split: if_split)
    next
      case (Inr tr)
      note planned = to_migrated_Inr [OF Pair [unfolded Inr]]
      let ?db1 = "db\<lparr>ad_session := s'\<rparr>"
      have "\<not> open_plan (p\<lparr>mp_status := ''migrated''\<rparr>)" "whole (p\<lparr>mp_status := ''migrated''\<rparr>)"
        by (simp_all add: open_plan_def whole_def)
      then have "consistent (set_status pid ''migrated'' ?db1)"
        by (intro consistent_close [OF assms(1) split(1), where qs = "[p\<lparr>mp_status := ''migrated''\<rparr>]"])
          (use ws' planned assms(2) [OF Some] update_split [of ?db1, OF _ split(2-4)] split(1) in
            \<open>simp_all add: set_status_def\<close>)
      with Pair Inr Some assms(1) show ?thesis
        by (simp add: mark_plan_succeeded_def in_session_def split: if_split)
    qed
  qed
qed (simp add: mark_plan_succeeded_def assms(1))

text \<open>The outcome of a generation that loses nothing.\<close>

definition complete_outcome :: "int list \<Rightarrow> generation_outcome \<Rightarrow> bool" where
  "complete_outcome ids outcome \<longleftrightarrow>
     (case outcome of
        Generation_done aws \<Rightarrow> distinct (map (\<lambda>a. w_wave_number (aw_wave a)) aws) \<and>
          mset (concat (map (\<lambda>a. w_vm_ids (aw_wave a)) aws)) = mset ids
      | _ \<Rightarrow> True)"

lemma consistent_finish:
  assumes "consistent db" and "get_plan db pid = Some p" and "mp_status p \<in> set ORPHAN_STATUSES"
    and "complete_outcome (mp_vm_ids p) outcome"
  shows "consistent (finish_generation env pid (mp_vm_ids p) how outcome db)"
proof (cases outcome)
  case Generation_gone
  then show ?thesis using assms(1) by (simp add: finish_generation_def)
next
  case Generation_failed
  have "consistent (fail_plan (sv_now env) pid db)"
    by (rule consistent_fail_plan [OF assms(1)]) (use in_progress_open [OF assms(3)] assms(2) in simp)
  with Generation_failed show ?thesis by (simp add: finish_generation_def)
next
  case (Generation_done aws)
  have wf: "wf_app db" using assms(1) by (simp add: consistent_def)
  obtain xs ys where split: "ad_plans db = xs @ p # ys" "mp_id p = pid"
      "pid \<notin> mp_id ` set xs" "pid \<notin> mp_id ` set ys"
    using assms(2) wf get_plan_split by blast
  have op: "open_plan p" by (rule in_progress_open [OF assms(3)])
  then have "distinct (mp_vm_ids p)" using assms(1) split(1) by (simp add: consistent_def held_def)
  then have u: "unique_in_order (mp_vm_ids p) = mp_vm_ids p" by (rule unique_in_order_id)
  define f where "f = (\<lambda>q :: migration_plan. q\<lparr>mp_vm_ids := unique_in_order (mp_vm_ids p),
    mp_waves := map (\<lambda>aw. wave_doc_of aw (how aw)) aws, mp_status := ''complete''\<rparr>)"
  have "whole (f p)" "open_plan (f p)" "mp_id (f p) = mp_id p" "mp_vm_ids (f p) = mp_vm_ids p"
    using assms(4) by (simp_all add: f_def Generation_done complete_outcome_def whole_def u comp_def wave_doc_of_def
        Let_def open_plan_def)
  then have "consistent (update_plan pid f db)"
    using wf by (intro consistent_relabel [OF assms(1) split(1) op, where q = "f p"])
      (simp_all add: update_split [OF split] wf_app_def)
  then show ?thesis
    by (simp add: finish_generation_def Generation_done assms(2) f_def)
qed

text \<open>Rows are updated, added and deleted without touching the lifecycle.\<close>

definition keeps_lifecycle :: "(vm \<Rightarrow> vm) \<Rightarrow> bool" where
  "keeps_lifecycle f \<longleftrightarrow> (\<forall>v. vm_id (f v) = vm_id v \<and> vm_lifecycle_state (f v) = vm_lifecycle_state v)"

lemma consistent_session:
  assumes "consistent db" and "ad_plans db' = ad_plans db" and "ad_next_plan_id db' = ad_next_plan_id db"
    and "planned_vms (ad_session db') = planned_vms (ad_session db)"
    and "row_ids (ad_session db') = row_ids (ad_session db)" and "wf_session (ad_session db')"
  shows "consistent db'"
  using assms by (simp add: consistent_def wf_app_def held_def)

lemma update_rows:
  assumes "keeps_lifecycle f"
  shows "planned_vms (s\<lparr>s_vms := map (\<lambda>r. if vm_id r = i then f r else r) (s_vms s)\<rparr>) = planned_vms s"
    and "row_ids (s\<lparr>s_vms := map (\<lambda>r. if vm_id r = i then f r else r) (s_vms s)\<rparr>) = row_ids s"
    and "wf_session (s\<lparr>s_vms := map (\<lambda>r. if vm_id r = i then f r else r) (s_vms s)\<rparr>) = wf_session s"
proof -
  have "vm_id (if vm_id r = i then f r else r) = vm_id r \<and>
      vm_lifecycle_state (if vm_id r = i then f r else r) = vm_lifecycle_state r" for r
    using assms by (simp add: keeps_lifecycle_def)
  note same = this
  show "planned_vms (s\<lparr>s_vms := map (\<lambda>r. if vm_id r = i then f r else r) (s_vms s)\<rparr>) = planned_vms s"
    by (simp add: planned_vms_list filter_map comp_def same)
  have ids: "map vm_id (map (\<lambda>r. if vm_id r = i then f r else r) (s_vms s)) = map vm_id (s_vms s)"
    by (simp add: same)
  show "row_ids (s\<lparr>s_vms := map (\<lambda>r. if vm_id r = i then f r else r) (s_vms s)\<rparr>) = row_ids s"
  proof -
    have rows: "row_ids (s\<lparr>s_vms := xs\<rparr>) = set (map vm_id xs)" for xs by (simp add: row_ids_def)
    show ?thesis unfolding rows ids by (simp add: row_ids_def)
  qed
  show "wf_session (s\<lparr>s_vms := map (\<lambda>r. if vm_id r = i then f r else r) (s_vms s)\<rparr>) = wf_session s"
    using arg_cong [OF ids, of distinct] by (simp add: wf_session_def wf_rows_def)
qed

lemma wf_patch: "wf_session s \<Longrightarrow> wf_session (fst (patch_transition now v t actor s))"
  using effect_wf [OF run_call_effect, of s "Patch now v t actor"] by simp

lemma consistent_update_vm:
  assumes "consistent db" and "\<forall>f\<in>set_option updates. keeps_lifecycle f"
  shows "consistent (fst (update_vm env vid target updates db))"
proof (cases "find_vm (ad_vms db) vid")
  case None
  then show ?thesis using assms(1) by (simp add: update_vm_def del: find_vm_None)
next
  case (Some v)
  have ws: "wf_session (ad_session db)" using assms(1) by (simp add: consistent_def wf_app_def)
  let ?db1 = "fst (in_session (patch_transition (sv_now env) v (the target) (sv_actor env)) db)"
  have one: "consistent ?db1"
    by (rule consistent_session [OF assms(1)]) (simp_all add: patch_planned wf_patch [OF ws])
  have two: "consistent (db1\<lparr>ad_session := record_audit r ((ad_session db1)\<lparr>s_vms :=
      map (\<lambda>r. if vm_id r = vid then f r else r) (s_vms (ad_session db1))\<rparr>)\<rparr>)"
    if "consistent db1" "keeps_lifecycle f" for db1 f r
    by (rule consistent_session [OF that(1)])
      (use that in \<open>simp_all add: update_rows [OF that(2)] consistent_def wf_app_def\<close>)
  show ?thesis
  proof (cases target)
    case None
    with Some assms two show ?thesis by (auto simp: update_vm_def split: option.split)
  next
    case t: (Some t)
    obtain db1 r where pair: "in_session (patch_transition (sv_now env) v t (sv_actor env)) db = (db1, r)"
      by (cases "in_session (patch_transition (sv_now env) v t (sv_actor env)) db")
    with one t have "consistent db1" by simp
    with Some t pair assms two show ?thesis
      by (cases r) (auto simp: update_vm_def split: option.split)
  qed
qed

lemma consistent_delete_vm:
  assumes "consistent db"
  shows "consistent (fst (delete_vm env vid db))"
proof (cases "find_vm (ad_vms db) vid")
  case None
  then show ?thesis using assms by (simp add: delete_vm_def del: find_vm_None)
next
  case (Some v)
  let ?s = "(ad_session db)\<lparr>s_vms := filter (\<lambda>r. vm_id r \<noteq> vid) (ad_vms db)\<rparr>"
  have "planned_vms ?s = planned_vms (ad_session db) - {vid}" "row_ids ?s = row_ids (ad_session db) - {vid}"
    by (auto simp: planned_vms_def row_ids_def)
  moreover have "wf_session ?s"
    using assms by (auto simp: consistent_def wf_app_def wf_session_def wf_rows_def intro: distinct_filter_ids)
  ultimately show ?thesis
    using Some assms by (auto simp: delete_vm_def consistent_def wf_app_def held_def)
qed

end
