(* ===== verification/Plan_Creation.thy ===== *)
theory Plan_Creation
  imports Plan_System
begin

text \<open>
  What \<open>create_plan\<close> does with a selection: every machine lands in exactly one new plan or in the
  list of the excluded, no plan exceeds the batch size or crosses a partition, and the tables stay
  consistent.
\<close>

section \<open>Every machine is accounted for\<close>

lemma mset_map_split:
  "mset (map f (filter P xs)) + mset (map f (filter (\<lambda>x. \<not> P x) xs)) = mset (map f xs)"
  by (induction xs) auto

lemma partition_vms_mset:
  assumes "partition_vms_for_plans vms db = (ps, un)"
  shows "mset (concat (map snd ps)) + mset un = mset vms"
  using assms by (auto simp: partition_vms_for_plans_def Let_def mset_group_by_key
      multiset_partition [of "mset vms", symmetric])

lemma exclude_uncovered_mset:
  assumes "exclude_uncovered rows ps = (kept, ex)"
  shows "mset (map vm_id (concat (map snd kept))) + mset (map fst ex) = mset (map vm_id (concat (map snd ps)))"
  using assms
proof (induction ps arbitrary: kept ex)
  case (Cons kv ps)
  obtain key vms where kv: "kv = (key, vms)" by fastforce
  obtain kept' ex' where r: "exclude_uncovered rows ps = (kept', ex')" by fastforce
  let ?gaps = "validate_plan_inputs vms (rows key)"
  let ?hit = "filter (\<lambda>v. gaps_of ?gaps (vm_id v) \<noteq> []) vms"
  let ?rem = "filter (\<lambda>v. gaps_of ?gaps (vm_id v) = []) vms"
  have split: "mset (map vm_id ?rem) + mset (map vm_id ?hit) = mset (map vm_id vms)"
    by (rule mset_map_split)
  have "map fst (map (\<lambda>v. (vm_id v, Mapping_gaps (gaps_of ?gaps (vm_id v)))) ?hit) = map vm_id ?hit"
    by simp
  note hits = this
  note IH = Cons.IH [OF r]
  show ?case
  proof (cases "?gaps = []")
    case True
    then have "kept = (key, vms) # kept'" "ex = ex'" using Cons.prems by (simp_all add: kv r Let_def)
    with IH show ?thesis by (simp add: kv flip: mset_map)
  next
    case False
    then have res: "concat (map snd kept) = ?rem @ concat (map snd kept')"
        "map fst ex = map vm_id ?hit @ map fst ex'"
      using Cons.prems hits by (auto simp: kv r Let_def comp_def split: if_splits)
    have "mset (map vm_id (concat (map snd kept))) + mset (map fst ex) =
        (mset (map vm_id ?rem) + mset (map vm_id ?hit)) +
        (mset (map vm_id (concat (map snd kept'))) + mset (map fst ex'))"
      unfolding res map_append mset_append by (simp only: ac_simps)
    then show ?thesis unfolding split IH kv by simp
  qed
qed simp

text \<open>\<open>ps\<close> refines \<open>qs\<close>: every part lies in one with the same key.\<close>

definition within :: "(partition_key \<times> vm list) list \<Rightarrow> (partition_key \<times> vm list) list \<Rightarrow> bool" where
  "within ps qs \<longleftrightarrow> (\<forall>k vms. (k, vms) \<in> set ps \<longrightarrow> (\<exists>vms'. (k, vms') \<in> set qs \<and> set vms \<subseteq> set vms'))"

abbreviation nonempty_parts :: "(partition_key \<times> vm list) list \<Rightarrow> bool" where
  "nonempty_parts ps \<equiv> list_all (\<lambda>(k, vms). vms \<noteq> []) ps"

lemma within_refl: "within ps ps"
  by (auto simp: within_def)

lemma within_mono: "within ps qs \<Longrightarrow> within ps (q # qs)"
  unfolding within_def by (meson list.set_intros(2))

lemma within_Cons:
  "within (p # ps) qs \<longleftrightarrow> (\<exists>vms'. (fst p, vms') \<in> set qs \<and> set (snd p) \<subseteq> set vms') \<and> within ps qs"
  by (cases p) (auto simp: within_def)

lemma within_trans: "within ps qs \<Longrightarrow> within qs rs \<Longrightarrow> within ps rs"
  unfolding within_def by (meson order_trans)

lemma plan_batches_mset:
  assumes "plan_batches ps m = Some bs" and "list_all (\<lambda>(k, vms). vms \<noteq> []) ps"
  shows "mset (concat (map snd bs)) = mset (concat (map snd ps)) \<and>
    list_all (\<lambda>(k, vms). vms \<noteq> [] \<and> int (length vms) \<le> m) bs \<and>
    within bs ps"
  using assms
proof (induction ps arbitrary: bs)
  case (Cons kv ps)
  obtain key vms where kv: "kv = (key, vms)" by fastforce
  from Cons.prems(1) obtain chunks bs' where c: "chunk_partition vms m = Inr chunks"
      and b: "plan_batches ps m = Some bs'" and bs: "bs = map (Pair key) chunks @ bs'"
    by (auto simp: kv split: sum.splits option.splits)
  have ne: "vms \<noteq> []" using Cons.prems(2) kv by simp
  note ch = chunk_partition_chunks [OF c ne]
  have IH: "mset (concat (map snd bs')) = mset (concat (map snd ps)) \<and>
      list_all (\<lambda>(k, vms). vms \<noteq> [] \<and> int (length vms) \<le> m) bs' \<and>
      within bs' ps"
    by (rule Cons.IH [OF b]) (use Cons.prems(2) in simp)
  have "set (concat chunks) = set vms" using ch by (blast dest: mset_eq_setD)
  then have sub: "set c \<subseteq> set vms" if "c \<in> set chunks" for c using that by auto
  show ?case
  proof (intro conjI)
    show "mset (concat (map snd bs)) = mset (concat (map snd (kv # ps)))"
      using IH ch by (simp add: bs kv comp_def)
    show "list_all (\<lambda>(k, vms). vms \<noteq> [] \<and> int (length vms) \<le> m) bs"
      using IH ch by (auto simp: bs list_all_iff)
    have "within (map (Pair key) chunks) (kv # ps)" using sub by (auto simp: within_def kv)
    moreover have "within bs' (kv # ps)" using IH by (blast intro: within_mono)
    ultimately show "within bs (kv # ps)" unfolding bs within_def by auto
  qed
qed (simp add: within_def)

section \<open>The new rows\<close>

lemma create_batches_rows:
  assumes "create_batches env payload ex rows n multi i bs db = Inr (db', pids)"
  obtains new where "ad_plans db' = ad_plans db @ new" and "map mp_id new = pids"
    and "map mp_vm_ids new = map (map vm_id \<circ> snd) bs"
    and "list_all (\<lambda>p. mp_status p = ''pending'' \<and> mp_excluded_vms p = ex \<and> mp_waves p = []) new"
    and "ad_targets db' = ad_targets db"
  using assms
proof (induction bs arbitrary: i db pids thesis)
  case (Cons kv bs)
  obtain key vms where kv: "kv = (key, vms)" by fastforce
  define p where "p = new_plan env payload ex (ad_next_plan_id db) (series_name payload db key i n multi)
      (map vm_id vms) (map rm_id (rows key)) i n"
  from Cons.prems(2) obtain db1 tr pids' where t: "in_session (transition_to_planned (sv_now env) (map vm_id vms)
        (ad_next_plan_id db) ''system'' ''plan.create'') (insert_plan p db) = (db1, Inr tr)"
      and rest: "create_batches env payload ex rows n multi (Suc i) bs db1 = Inr (db', pids')"
      and pids: "pids = ad_next_plan_id db # pids'"
    by (auto simp: kv Let_def p_def split: if_splits prod.splits sum.splits)
  have db1: "ad_plans db1 = ad_plans db @ [p]" "ad_targets db1 = ad_targets db"
    using arg_cong [OF t, of "\<lambda>x. ad_plans (fst x)"] arg_cong [OF t, of "\<lambda>x. ad_targets (fst x)"]
    by (simp_all add: insert_plan_def in_session_def split: prod.splits)
  show ?case
  proof (rule Cons.IH [OF _ rest])
    fix new
    assume "ad_plans db' = ad_plans db1 @ new" "map mp_id new = pids'"
      "map mp_vm_ids new = map (map vm_id \<circ> snd) bs"
      "list_all (\<lambda>p. mp_status p = ''pending'' \<and> mp_excluded_vms p = ex \<and> mp_waves p = []) new"
      "ad_targets db' = ad_targets db1"
    then show thesis
      by (intro Cons.prems(1) [of "p # new"]) (simp_all add: db1 pids kv p_def new_plan_def)
  qed
qed simp

lemma consistent_create_batches:
  assumes "create_batches env payload ex rows n multi i bs db = Inr (db', pids)" and "consistent db"
    and "list_all (\<lambda>(k, vms). distinct (map vm_id vms)) bs"
  shows "consistent db'"
  using assms
proof (induction bs arbitrary: i db pids)
  case (Cons kv bs)
  obtain key vms where kv: "kv = (key, vms)" by fastforce
  define p where "p = new_plan env payload ex (ad_next_plan_id db) (series_name payload db key i n multi)
      (map vm_id vms) (map rm_id (rows key)) i n"
  from Cons.prems(1) obtain db1 tr pids' where t: "in_session (transition_to_planned (sv_now env) (map vm_id vms)
        (ad_next_plan_id db) ''system'' ''plan.create'') (insert_plan p db) = (db1, Inr tr)"
      and rest: "create_batches env payload ex rows n multi (Suc i) bs db1 = Inr (db', pids')"
    by (auto simp: kv Let_def p_def split: if_splits prod.splits sum.splits)
  from t obtain s' where s': "transition_to_planned (sv_now env) (map vm_id vms) (ad_next_plan_id db)
        ''system'' ''plan.create'' (ad_session db) = (s', Inr tr)"
      and db1: "db1 = (insert_plan p db)\<lparr>ad_session := s'\<rparr>"
    by (auto simp: in_session_def insert_plan_def split: prod.splits)
  note planned = to_planned_Inr [OF s']
  have ws: "wf_session s'"
    using effect_wf [OF planned_effect, of "ad_session db"] Cons.prems(2) s'
    by (metis consistent_def fst_conv wf_app_def)
  have p: "mp_id p = ad_next_plan_id db" "open_plan p" "whole p" "mp_vm_ids p = map vm_id vms"
    by (simp_all add: p_def new_plan_def open_plan_def whole_def)
  have "set (map vm_id vms) \<inter> set (held db) = {}"
    using planned(1,2) Cons.prems(2) by (auto simp: consistent_def)
  moreover have "mp_id p \<notin> mp_id ` set (ad_plans db)" and
      "list_all (\<lambda>q. mp_id q < ad_next_plan_id db + 1) (ad_plans db)"
    using Cons.prems(2) p(1) by (auto simp: consistent_def wf_app_def list_all_iff)
  ultimately have "consistent db1"
    using Cons.prems(2,3) planned ws p
    by (auto simp: consistent_def wf_app_def held_def db1 insert_plan_def kv)
  then show ?case using Cons.IH [OF rest] Cons.prems(3) by simp
qed simp

section \<open>A whole series\<close>

lemma exclude_uncovered_within:
  assumes "exclude_uncovered rows ps = (kept, ex)" and "nonempty_parts ps"
  shows "within kept ps \<and> nonempty_parts kept"
  using assms
proof (induction ps arbitrary: kept ex)
  case (Cons kv ps)
  obtain key vms where kv: "kv = (key, vms)" by fastforce
  obtain kept' ex' where r: "exclude_uncovered rows ps = (kept', ex')" by fastforce
  have "within kept' ps \<and> nonempty_parts kept'" by (rule Cons.IH [OF r]) (use Cons.prems(2) in simp)
  then have "within kept' (kv # ps)" "nonempty_parts kept'" by (auto intro: within_mono)
  moreover have "\<exists>vms'. (key, vms') \<in> set (kv # ps) \<and> set (filter P vms) \<subseteq> set vms'" for P
    by (rule exI [of _ vms]) (auto simp: kv)
  note this [of "\<lambda>_. True"] this [of "\<lambda>v. gaps_of (validate_plan_inputs vms (rows key)) (vm_id v) = []"]
  ultimately show ?case
    using Cons.prems by (auto simp: kv r Let_def within_Cons split: if_splits)
qed (simp add: within_def)

text \<open>What a successful call promises of its new plans.\<close>

definition series_ok ::
  "int \<Rightarrow> (partition_key \<times> vm list) list \<Rightarrow> (int \<times> exclusion) list \<Rightarrow> migration_plan list \<Rightarrow> bool" where
  "series_ok m ps excluded new \<longleftrightarrow> new \<noteq> [] \<and>
     list_all (\<lambda>p. mp_status p = ''pending'' \<and> mp_excluded_vms p = excluded \<and>
       mp_vm_ids p \<noteq> [] \<and> int (length (mp_vm_ids p)) \<le> m \<and>
       list_ex (\<lambda>(k, vms). set (mp_vm_ids p) \<subseteq> vm_id ` set vms) ps) new"

lemma create_series_Inr:
  assumes "create_series env payload ex0 ps0 db = Inr (db', pids)" and "nonempty_parts ps0"
  obtains new excluded where "ad_plans db' = ad_plans db @ new" and "map mp_id new = pids"
    and "mset (concat (map mp_vm_ids new)) + mset (map fst excluded) =
      mset (map vm_id (concat (map snd ps0))) + mset (map fst ex0)"
    and "series_ok (sv_max_vms_per_plan env) ps0 excluded new"
    and "consistent db \<and> distinct (map vm_id (concat (map snd ps0))) \<longrightarrow> consistent db'"
proof -
  let ?rows = "mapping_rows_for (ad_targets db) (pc_mapping_ids payload)"
  obtain ps un where ps: "(if pc_skip_ineligible payload then exclude_uncovered ?rows ps0 else (ps0, [])) = (ps, un)"
    by fastforce
  have "mset (map vm_id (concat (map snd ps))) + mset (map fst un) = mset (map vm_id (concat (map snd ps0))) \<and>
      within ps ps0 \<and> nonempty_parts ps"
  proof (cases "pc_skip_ineligible payload")
    case True
    then have ex: "exclude_uncovered ?rows ps0 = (ps, un)" using ps by simp
    show ?thesis using exclude_uncovered_mset [OF ex] exclude_uncovered_within [OF ex assms(2)] by blast
  next
    case False
    then have "ps = ps0" "un = []" using ps by simp_all
    with assms(2) show ?thesis by (simp add: within_refl)
  qed
  then have kept: "mset (map vm_id (concat (map snd ps))) + mset (map fst un) = mset (map vm_id (concat (map snd ps0)))"
    and fine: "within ps ps0" "nonempty_parts ps" by blast+
  from assms(1) ps obtain bs db1 where ne: "ps \<noteq> []" and bs: "plan_batches ps (sv_max_vms_per_plan env) = Some bs"
      and rows: "create_batches env payload (ex0 @ un) ?rows (length bs) (length ps > 1) 1 bs db = Inr (db1, pids)"
      and db': "db' = (if ex0 @ un \<noteq> [] then audit_plan ''plan.vms_excluded'' (sv_actor env) (Some (hd pids))
        (Plan_event (length (ex0 @ un))) db1 else db1)"
    unfolding create_series_def Let_def ps prod.case
    by (auto split: if_splits option.splits sum.splits)
  have batches: "mset (concat (map snd bs)) = mset (concat (map snd ps))"
      "list_all (\<lambda>(k, vms). vms \<noteq> [] \<and> int (length vms) \<le> sv_max_vms_per_plan env) bs" "within bs ps"
    using plan_batches_mset [OF bs fine(2)] by simp_all
  have ids: "mset (map vm_id (concat (map snd bs))) = mset (map vm_id (concat (map snd ps)))"
    unfolding mset_map batches(1) by (rule refl)
  obtain new where new: "ad_plans db1 = ad_plans db @ new" "map mp_id new = pids"
      "map mp_vm_ids new = map (map vm_id \<circ> snd) bs"
      "list_all (\<lambda>p. mp_status p = ''pending'' \<and> mp_excluded_vms p = ex0 @ un \<and> mp_waves p = []) new"
      "ad_targets db1 = ad_targets db"
    by (rule create_batches_rows [OF rows])
  have len: "length new = length bs" using arg_cong [OF new(3), of length] by simp
  have "concat (map mp_vm_ids new) = map vm_id (concat (map snd bs))"
    unfolding new(3) by (simp add: map_concat comp_def)
  then have all: "mset (concat (map mp_vm_ids new)) + mset (map fst (ex0 @ un)) =
      mset (map vm_id (concat (map snd ps0))) + mset (map fst ex0)"
    unfolding ids kept [symmetric] by (simp add: ids flip: mset_map)
  have "bs \<noteq> []"
  proof
    assume "bs = []"
    with batches(1) have "concat (map snd ps) = []" by simp
    with ne fine(2) show False by (cases ps) auto
  qed
  moreover have "list_ex (\<lambda>(k, vms). set (mp_vm_ids p) \<subseteq> vm_id ` set vms) ps0 \<and> mp_vm_ids p \<noteq> [] \<and>
      int (length (mp_vm_ids p)) \<le> sv_max_vms_per_plan env" if p: "p \<in> set new" for p
  proof -
    have "mp_vm_ids p \<in> set (map (map vm_id \<circ> snd) bs)" unfolding new(3) [symmetric] using p by simp
    then obtain k vms where b: "(k, vms) \<in> set bs" "mp_vm_ids p = map vm_id vms" by auto
    moreover obtain vms' where "(k, vms') \<in> set ps0" "set vms \<subseteq> set vms'"
      using within_trans [OF batches(3) fine(1)] b(1) unfolding within_def by meson
    moreover from this b(2) have "set (mp_vm_ids p) \<subseteq> vm_id ` set vms'" by auto
    ultimately show ?thesis using batches(2) by (auto simp: list_all_iff list_ex_iff)
  qed
  ultimately have "series_ok (sv_max_vms_per_plan env) ps0 (ex0 @ un) new"
    using new(4) len by (auto simp: series_ok_def list_all_iff)
  moreover have "consistent db'" if "consistent db" "distinct (map vm_id (concat (map snd ps0)))"
  proof -
    have "mset (map vm_id (concat (map snd ps)) @ map fst un) = mset (map vm_id (concat (map snd ps0)))"
      unfolding mset_append by (rule kept)
    from mset_eq_imp_distinct_iff [OF this] that(2)
    have "distinct (map vm_id (concat (map snd ps)))" by simp
    then have "distinct (map vm_id (concat (map snd bs)))"
      using mset_eq_imp_distinct_iff [OF ids] by simp
    then have "list_all (\<lambda>(k, vms). distinct (map vm_id vms)) bs"
      by (induction bs) (auto simp del: mset_map)
    with consistent_create_batches [OF rows that(1)] show ?thesis by (simp add: db')
  qed
  ultimately show thesis
    using that [of new "ex0 @ un"] new(1,2) all by (simp add: db')
qed

section \<open>The selection\<close>

lemma selected_rows:
  assumes "wf_rows rows" and "filter (\<lambda>i. i \<notin> vm_id ` set (select_vms rows ids)) ids = []" and "distinct ids"
  shows "mset (map vm_id (select_vms rows ids)) = mset ids" and "distinct (map vm_id (select_vms rows ids))"
proof -
  show d: "distinct (map vm_id (select_vms rows ids))"
    using assms(1) by (auto simp: wf_rows_def select_vms_def distinct_map intro: inj_on_subset)
  have "set (map vm_id (select_vms rows ids)) = set ids"
    using assms(2) by (auto simp: filter_empty_conv select_vms_def)
  with d assms(3) show "mset (map vm_id (select_vms rows ids)) = mset ids"
    by (simp only: set_eq_iff_mset_eq_distinct)
qed

lemma blocked_rows:
  assumes "distinct (map vm_id vms)"
  shows "mset (map vm_id (filter (\<lambda>v. vm_id v \<notin> (vm_id \<circ> fst) ` set (blocked_for_type vms t)) vms)) +
    mset (map fst (map (\<lambda>(v, ids). (vm_id v, Blocked_for_type ids)) (blocked_for_type vms t))) = mset (map vm_id vms)"
proof -
  let ?B = "\<lambda>v. blocks_migration_type (vm_assessment v) t \<noteq> []"
  have unfit: "map fst (blocked_for_type vms t) = filter ?B vms"
    by (simp add: blocked_for_type_def filter_map comp_def)
  have hit: "vm_id v \<in> (vm_id \<circ> fst) ` set (blocked_for_type vms t) \<longleftrightarrow> ?B v" if "v \<in> set vms" for v
  proof -
    have "(vm_id \<circ> fst) ` set (blocked_for_type vms t) = vm_id ` set (filter ?B vms)"
      unfolding unfit [symmetric] by (simp add: image_comp)
    with that assms show ?thesis by (auto simp: distinct_map inj_on_def)
  qed
  have "filter (\<lambda>v. vm_id v \<notin> (vm_id \<circ> fst) ` set (blocked_for_type vms t)) vms = filter (\<lambda>v. \<not> ?B v) vms"
    using hit by (intro filter_cong) blast+
  moreover have "map fst (map (\<lambda>(v, ids). (vm_id v, Blocked_for_type ids)) (blocked_for_type vms t)) =
      map vm_id (filter ?B vms)"
    unfolding unfit [symmetric] by (simp add: case_prod_beta comp_def)
  moreover have "mset (map vm_id (filter ?B vms)) + mset (map vm_id (filter (\<lambda>v. \<not> ?B v) vms)) = mset (map vm_id vms)"
    by (rule mset_map_split)
  ultimately show ?thesis by (simp only: add.commute)
qed

definition vm_scope :: "app_db \<Rightarrow> int \<Rightarrow> partition_key option" where
  "vm_scope db vid = Option.bind (find_vm (ad_vms db) vid) (\<lambda>v. map_option pt_key (vm_partition db v))"

lemma vm_key_partition:
  assumes "distinct (map vm_id vms)" and "v \<in> set vms"
  shows "vm_key (resolve_vms_iter vms (ad_targets db)) v = map_option pt_key (vm_partition db v)"
proof -
  have "dict_get (resolve_vms_iter vms (ad_targets db)) (vm_id v) = Some (resolve_vm_target v (ad_targets db))"
    by (simp add: resolve_vms_iter_def Let_def resolve_vm_target_def dict_of_at [OF assms])
  then show ?thesis
    by (simp add: vm_key_def vm_partition_def partition_of_def pt_key_def split: option.split)
qed

lemma partition_parts:
  assumes "partition_vms_for_plans vms (ad_targets db) = (ps, un)" and "wf_rows (ad_vms db)"
    and "distinct (map vm_id vms)" and "set vms \<subseteq> set (ad_vms db)"
  shows "nonempty_parts ps" and "(k, vs) \<in> set ps \<Longrightarrow> v \<in> set vs \<Longrightarrow> vm_scope db (vm_id v) = Some k"
proof -
  let ?key = "vm_key (resolve_vms_iter vms (ad_targets db))"
  have ps: "ps = group_by_key (\<lambda>v. the (?key v)) (filter (\<lambda>v. ?key v \<noteq> None) vms)"
    using assms(1) by (simp add: partition_vms_for_plans_def Let_def)
  show "nonempty_parts ps" using group_by_key_bucket(2) unfolding ps list_all_iff by fast
  assume k: "(k, vs) \<in> set ps" and v: "v \<in> set vs"
  have "vs = filter (\<lambda>v. the (?key v) = k) (filter (\<lambda>v. ?key v \<noteq> None) vms)"
    using k unfolding ps by (rule group_by_key_bucket(1))
  with v have mem: "v \<in> set vms" "?key v = Some k" by auto
  have "find_vm (ad_vms db) (vm_id v) = Some v"
    by (rule find_vm_unique) (use assms(2,4) mem(1) in auto)
  with mem(2) vm_key_partition [OF assms(3) mem(1), of db] show "vm_scope db (vm_id v) = Some k"
    by (simp add: vm_scope_def)
qed

text \<open>What the plans of a successful call look like.\<close>

definition plan_rows_ok :: "service_env \<Rightarrow> app_db \<Rightarrow> (int \<times> exclusion) list \<Rightarrow> migration_plan \<Rightarrow> bool" where
  "plan_rows_ok env db excluded p \<longleftrightarrow> mp_status p = ''pending'' \<and> mp_excluded_vms p = excluded \<and>
     mp_vm_ids p \<noteq> [] \<and> int (length (mp_vm_ids p)) \<le> sv_max_vms_per_plan env \<and>
     (\<exists>k. list_all (\<lambda>vid. vm_scope db vid = Some k) (mp_vm_ids p))"

lemma create_plan_in_Inr:
  assumes "create_plan_in env payload db = Inr (db', pids)" and wf: "wf_rows (ad_vms db)"
  obtains new excluded where "ad_plans db' = ad_plans db @ new" and "map mp_id new = pids" and "new \<noteq> []"
    and "mset (concat (map mp_vm_ids new)) + mset (map fst excluded) = mset (unique_in_order (pc_vm_ids payload))"
    and "list_all (plan_rows_ok env db excluded) new" and "consistent db \<longrightarrow> consistent db'"
proof -
  let ?ids = "unique_in_order (pc_vm_ids payload)"
  define vms0 where "vms0 = select_vms (ad_vms db) ?ids"
  define unfit where "unfit = blocked_for_type vms0 (pc_migration_type payload)"
  define skip where "skip = (unfit \<noteq> [] \<and> \<not> pc_override_assessment payload \<and> pc_skip_ineligible payload)"
  define vms where "vms = (if skip then filter (\<lambda>v. vm_id v \<notin> (vm_id \<circ> fst) ` set unfit) vms0 else vms0)"
  define ex1 where "ex1 = (if skip then map (\<lambda>(v, ids). (vm_id v, Blocked_for_type ids)) unfit else [])"
  define db1 where "db1 = (if unfit \<noteq> [] \<and> \<not> skip
    then audit_plan ''plan.assessment_overridden'' (sv_actor env) None (Plan_event (length unfit)) db else db)"
  obtain ps un where ps: "partition_vms_for_plans vms (ad_targets db) = (ps, un)" by fastforce
  from assms(1) have none: "filter (\<lambda>i. i \<notin> vm_id ` set vms0) ?ids = []"
    and series: "create_series env payload (ex1 @ map (\<lambda>v. (vm_id v, Target_unresolved)) un) ps db1 = Inr (db', pids)"
    unfolding create_plan_in_def Let_def vms0_def [symmetric] unfit_def [symmetric] skip_def [symmetric]
      vms_def [symmetric] ex1_def [symmetric] db1_def [symmetric] ps prod.case
    by (simp_all split: if_splits)
  note rows = selected_rows [OF wf none [unfolded vms0_def] distinct_unique_in_order, folded vms0_def]
  have sel: "mset (map vm_id vms) + mset (map fst ex1) = mset ?ids"
    using blocked_rows [OF rows(2)] rows(1) by (simp add: vms_def ex1_def unfit_def del: mset_map)
  have part: "distinct (map vm_id vms)" "set vms \<subseteq> set (ad_vms db)"
    using distinct_filter_ids [OF rows(2)] rows(2)
    by (simp_all add: vms_def) (auto simp: vms0_def select_vms_def)
  note parts = partition_parts [OF ps wf part]
  have pm: "mset (map vm_id (concat (map snd ps))) + mset (map vm_id un) = mset (map vm_id vms)"
    using arg_cong [OF partition_vms_mset [OF ps], of "image_mset vm_id"] by simp
  obtain new excluded where new: "ad_plans db' = ad_plans db1 @ new" "map mp_id new = pids"
      "mset (concat (map mp_vm_ids new)) + mset (map fst excluded) = mset (map vm_id (concat (map snd ps))) +
        mset (map fst (ex1 @ map (\<lambda>v. (vm_id v, Target_unresolved)) un))"
      "series_ok (sv_max_vms_per_plan env) ps excluded new"
      "consistent db1 \<and> distinct (map vm_id (concat (map snd ps))) \<longrightarrow> consistent db'"
    by (rule create_series_Inr [OF series parts(1)])
  have "mset (concat (map mp_vm_ids new)) + mset (map fst excluded) =
      (mset (map vm_id (concat (map snd ps))) + mset (map vm_id un)) + mset (map fst ex1)"
    unfolding new(3) by (simp add: comp_def)
  then have all: "mset (concat (map mp_vm_ids new)) + mset (map fst excluded) = mset ?ids"
    unfolding pm sel .
  have "plan_rows_ok env db excluded p" if p: "p \<in> set new" for p
  proof -
    from p new(4) obtain k vs where k: "(k, vs) \<in> set ps" "set (mp_vm_ids p) \<subseteq> vm_id ` set vs"
      by (auto simp: series_ok_def list_all_iff list_ex_iff)
    have "list_all (\<lambda>vid. vm_scope db vid = Some k) (mp_vm_ids p)"
      unfolding list_all_iff using k(2) parts(2) [OF k(1)] by fast
    with p new(4) show ?thesis unfolding plan_rows_ok_def series_ok_def list_all_iff by blast
  qed
  moreover have "consistent db'" if "consistent db"
  proof (rule mp [OF new(5)], rule conjI)
    show "consistent db1" using that by (simp add: db1_def)
    have "mset (map vm_id (concat (map snd ps)) @ map vm_id un) = mset (map vm_id vms)"
      unfolding mset_append by (rule pm)
    from mset_eq_imp_distinct_iff [OF this] part(1) show "distinct (map vm_id (concat (map snd ps)))" by simp
  qed
  moreover have "ad_plans db1 = ad_plans db" by (simp add: db1_def)
  moreover have "new \<noteq> []" using new(4) by (simp add: series_ok_def)
  ultimately show thesis
    using that [of new excluded] new(1,2) all by (simp add: list_all_iff)
qed

lemma consistent_create_plan:
  assumes "consistent db"
  shows "consistent (fst (create_plan env payload db))"
proof (cases "create_plan_in env payload db")
  case (Inr r)
  obtain db' pids where r: "r = (db', pids)" by fastforce
  have wf: "wf_rows (ad_vms db)" using assms by (simp add: consistent_def wf_app_def wf_session_def)
  have "consistent db'" by (rule create_plan_in_Inr [OF Inr [unfolded r] wf]) (use assms in blast)
  then show ?thesis by (simp add: create_plan_def or_rollback_def Inr r)
qed (simp add: create_plan_def or_rollback_def assms)

text \<open>
  C4: a selection is planned completely. When \<open>create_plan\<close> succeeds, every selected machine is in
  exactly one of the new plans or is listed once as excluded; each new plan is pending, non-empty,
  within the batch size, records the exclusions, and all its machines resolve to one vCenter, cluster
  and namespace.
\<close>

theorem create_plan_accounts:
  assumes "create_plan env payload db = (db', Inr pids)" and "wf_rows (ad_vms db)"
  shows "\<exists>new excluded. ad_plans db' = ad_plans db @ new \<and> map mp_id new = pids \<and>
    mset (concat (map mp_vm_ids new)) + mset (map fst excluded) = mset (unique_in_order (pc_vm_ids payload)) \<and>
    list_all (plan_rows_ok env db excluded) new"
proof -
  from assms(1) have "create_plan_in env payload db = Inr (db', pids)"
    by (auto simp: create_plan_def or_rollback_def split: sum.splits)
  then show ?thesis by (rule create_plan_in_Inr [OF _ assms(2)]) blast
qed

end
