(* ===== verification/Plan_Edit_Properties.thy ===== *)
theory Plan_Edit_Properties
  imports Plan_System Preclassifier_Properties
begin

text \<open>
  What a manual edit does to the plans it touches: which machines the waves hold afterwards,
  which wave numbers are used, which partition the arriving machines belong to, and that the
  tables stay consistent.
\<close>

section \<open>Layouts\<close>

abbreviation members :: "layout \<Rightarrow> int list" where
  "members l \<equiv> concat (map snd l)"

abbreviation layout_of :: "(int \<times> layout) list \<Rightarrow> int \<Rightarrow> layout" where
  "layout_of d pid \<equiv> dict_get_or d pid []"

lemma dict_get_or_set [simp]: "dict_get_or (dict_set k v d) k' e = (if k = k' then v else dict_get_or d k' e)"
  by (simp add: dict_get_or_def)

lemma fst_dict_set: "dict_has l n \<Longrightarrow> map fst (dict_set n v l) = map fst l"
  by (induction l) (auto simp: dict_has_def)

lemma mset_members_remove:
  assumes "dict_get l n = Some ids" and "vid \<in> set ids"
  shows "add_mset vid (mset (members (dict_set n (remove1 vid ids) l))) = mset (members l)"
  using assms
proof (induction l)
  case (Cons kv l)
  obtain k xs where kv: "kv = (k, xs)" by fastforce
  show ?case
  proof (cases "k = n")
    case True
    with Cons.prems show ?thesis by (auto simp: kv simp flip: add_mset_add_single)
  next
    case False
    with Cons show ?thesis by (simp add: kv)
  qed
qed simp

lemma dict_get_appendE:
  assumes "dict_get l n = Some ids" and "vid \<in> set ids"
  shows "\<exists>ids'. dict_get (dict_append d x l) n = Some ids' \<and> vid \<in> set ids'"
  using assms by (auto simp: dict_get_append dict_get_or_def)

text \<open>A machine that the loop has not reached is where it was.\<close>

definition still_at :: "(int \<times> nat) list \<Rightarrow> layout \<Rightarrow> int \<Rightarrow> bool" where
  "still_at wof l vid \<longleftrightarrow> dict_get wof vid = None \<or>
     (\<exists>n ids. dict_get wof vid = Some n \<and> dict_get l n = Some ids \<and> vid \<in> set ids)"

definition taken :: "(int \<times> nat) list \<Rightarrow> int list \<Rightarrow> int multiset" where
  "taken wof ids = mset (filter (\<lambda>i. dict_get wof i \<noteq> None) ids)"

definition given :: "nat option \<Rightarrow> int list \<Rightarrow> int multiset" where
  "given dest ids = (if dest = None then {#} else mset ids)"

definition moves_inv ::
  "(int \<times> nat) list \<Rightarrow> int \<Rightarrow> int \<Rightarrow> nat option \<Rightarrow> (int \<times> layout) list \<Rightarrow> (int \<times> layout) list \<Rightarrow> int list \<Rightarrow> bool" where
  "moves_inv wof src tgt dest before after ids \<longleftrightarrow>
     distinct (map fst (layout_of after src)) \<and> distinct (map fst (layout_of after tgt)) \<and>
     mset (members (layout_of after src)) + taken wof ids =
       mset (members (layout_of before src)) + (if src = tgt then given dest ids else {#}) \<and>
     (src \<noteq> tgt \<longrightarrow> mset (members (layout_of after tgt)) = mset (members (layout_of before tgt)) + given dest ids) \<and>
     fst ` set (layout_of after src) \<subseteq> fst ` set (layout_of before src) \<union> (if src = tgt then set_option dest else {}) \<and>
     fst ` set (layout_of after tgt) \<subseteq> fst ` set (layout_of before tgt) \<union> set_option dest"

lemma taken_append: "taken wof (ids @ [i]) = taken wof ids + (if dict_get wof i = None then {#} else {#i#})"
  by (simp add: taken_def)

lemma given_append: "given dest (ids @ [i]) = given dest ids + (if dest = None then {#} else {#i#})"
  by (simp add: given_def)

text \<open>The two halves of a move: the machine leaves its wave, then joins the other.\<close>

lemma leave_inv:
  assumes inv: "moves_inv wof src tgt dest before after ids" and "dict_get (layout_of after src) n = Some xs"
    and "i \<in> set xs" and wof: "dict_get wof i = Some n" and "dest = None"
  shows "moves_inv wof src tgt dest before (dict_set src (dict_set n (remove1 i xs) (layout_of after src)) after) (ids @ [i])"
proof -
  let ?l = "layout_of after src"
  have has: "dict_has ?l n" using assms(2) by (simp add: dict_has_def)
  have keys: "fst ` set (dict_set n (remove1 i xs) ?l) = fst ` set ?l"
    using arg_cong [OF fst_dict_set [OF has], of set] by simp
  have d: "distinct (map fst (dict_set n (remove1 i xs) ?l))"
    unfolding fst_dict_set [OF has] using inv by (simp add: moves_inv_def)
  have m: "mset (members (dict_set n (remove1 i xs) ?l)) + {#i#} = mset (members ?l)"
    using mset_members_remove [OF assms(2,3)] by simp
  have t: "taken wof (ids @ [i]) = taken wof ids + {#i#}" using wof by (simp add: taken_append)
  have "mset (members (dict_set n (remove1 i xs) ?l)) + taken wof (ids @ [i]) = mset (members ?l) + taken wof ids"
    unfolding t m [symmetric] by (simp only: ac_simps)
  then show ?thesis
    using inv d keys assms(5) by (cases "src = tgt") (simp_all add: moves_inv_def given_def)
qed

lemma join_inv:
  assumes inv: "moves_inv wof src tgt (Some d) before after ids" and wof: "dict_get wof i = None"
  shows "moves_inv wof src tgt (Some d) before (dict_set tgt (dict_append d i (layout_of after tgt)) after) (ids @ [i])"
proof -
  let ?l = "layout_of after tgt"
  have m: "mset (members (dict_append d i ?l)) = mset (members ?l) + {#i#}"
    by (simp add: mset_dict_append)
  have keys: "fst ` set (dict_append d i ?l) = insert d (fst ` set ?l)"
    using keys_dict_append [of d i ?l] by simp
  have dd: "distinct (map fst (dict_append d i ?l))"
    using inv by (simp add: moves_inv_def distinct_dict_append)
  have t: "taken wof (ids @ [i]) = taken wof ids" "given (Some d) (ids @ [i]) = given (Some d) ids + {#i#}"
    using wof by (simp_all add: taken_append given_append)
  show ?thesis
    using inv dd keys by (cases "src = tgt") (auto simp: moves_inv_def mset_dict_append t)
qed

lemma move_inv:
  assumes inv: "moves_inv wof src tgt (Some d) before after ids" and at: "dict_get (layout_of after src) n = Some xs"
    and "i \<in> set xs" and wof: "dict_get wof i = Some n"
    and after1: "after1 = dict_set src (dict_set n (remove1 i xs) (layout_of after src)) after"
  shows "moves_inv wof src tgt (Some d) before (dict_set tgt (dict_append d i (layout_of after1 tgt)) after1) (ids @ [i])"
proof -
  let ?l = "dict_set n (remove1 i xs) (layout_of after src)"
  have has: "dict_has (layout_of after src) n" using at by (simp add: dict_has_def)
  have keys: "fst ` set ?l = fst ` set (layout_of after src)"
    using arg_cong [OF fst_dict_set [OF has], of set] by simp
  have dl: "distinct (map fst ?l)" unfolding fst_dict_set [OF has] using inv by (simp add: moves_inv_def)
  have m: "mset (members ?l) + {#i#} = mset (members (layout_of after src))"
    using mset_members_remove [OF at assms(3)] by simp
  have t: "taken wof (ids @ [i]) = taken wof ids + {#i#}" "given (Some d) (ids @ [i]) = given (Some d) ids + {#i#}"
    using wof by (simp_all add: taken_append given_append)
  let ?k = "layout_of after1 tgt"
  have join: "mset (members (dict_append d i ?k)) = mset (members ?k) + {#i#}"
      "fst ` set (dict_append d i ?k) = insert d (fst ` set ?k)"
    using keys_dict_append [of d i ?k] by (simp_all add: mset_dict_append)
  have dk: "distinct (map fst (dict_append d i ?k))"
    using dl inv by (auto simp: after1 moves_inv_def intro!: distinct_dict_append)
  show ?thesis
  proof (cases "src = tgt")
    case True
    have "mset (members (dict_append d i ?l)) + taken wof (ids @ [i]) =
        mset (members (layout_of before src)) + given (Some d) (ids @ [i])"
    proof -
      have "mset (members (dict_append d i ?l)) = mset (members (layout_of after src))"
        using m by (simp add: mset_dict_append)
      moreover have "mset (members (layout_of after src)) + taken wof ids =
          mset (members (layout_of before src)) + given (Some d) ids"
        using inv True by (simp add: moves_inv_def)
      ultimately show ?thesis unfolding t by (simp only: add.assoc [symmetric])
    qed
    then show ?thesis
      using inv dk True keys join(2) by (auto simp: moves_inv_def after1)
  next
    case False
    have "mset (members ?l) + taken wof (ids @ [i]) = mset (members (layout_of before src))"
    proof -
      have "mset (members ?l) + taken wof (ids @ [i]) = mset (members (layout_of after src)) + taken wof ids"
        unfolding t m [symmetric] by (simp only: ac_simps)
      then show ?thesis using inv False by (simp add: moves_inv_def)
    qed
    then show ?thesis
      using inv dk dl False keys join by (auto simp: moves_inv_def after1 t)
  qed
qed

lemma still_at_leave: "still_at wof l j \<Longrightarrow> dict_get l n = Some xs \<Longrightarrow> j \<noteq> i \<Longrightarrow> still_at wof (dict_set n (remove1 i xs) l) j"
  by (auto simp: still_at_def)

lemma still_at_join: "still_at wof l j \<Longrightarrow> still_at wof (dict_append d i l) j"
  by (auto simp: still_at_def dict_get_append dict_get_or_def)

lemma move_step_inv:
  assumes inv: "moves_inv wof src tgt dest before after ids" and at: "still_at wof (layout_of after src) (vm_id v)"
    and ids: "ids = map mv_vm_id moves" and step: "move_step spec src tgt dest wof v (after, moves) = (after', moves')"
    and origin: "dict_get wof (vm_id v) \<noteq> None \<or> dest \<noteq> None"
  shows "moves_inv wof src tgt dest before after' (map mv_vm_id moves')"
    and "map mv_vm_id moves' = ids @ (if es_operation spec = ''move_to_wave'' \<and> dict_get wof (vm_id v) = dest then [] else [vm_id v])"
    and "j \<noteq> vm_id v \<Longrightarrow> still_at wof (layout_of after src) j \<Longrightarrow> still_at wof (layout_of after' src) j"
proof -
  let ?i = "vm_id v"
  show m: "map mv_vm_id moves' = ids @ (if es_operation spec = ''move_to_wave'' \<and> dict_get wof ?i = dest then [] else [?i])"
    using step ids by (auto simp: move_step_def Let_def split: if_splits)
  show "moves_inv wof src tgt dest before after' (map mv_vm_id moves')"
  proof (cases "es_operation spec = ''move_to_wave'' \<and> dict_get wof ?i = dest")
    case True
    with step inv m show ?thesis by (simp add: move_step_def Let_def)
  next
    case False
    note skip = False
    show ?thesis
    proof (cases "dict_get wof ?i")
      case None
      then obtain d where "dest = Some d" using origin by auto
      with None step inv join_inv [of wof src tgt d before after ids ?i] skip m show ?thesis
        by (auto simp: move_step_def Let_def)
    next
      case (Some n)
      with at obtain xs where xs: "dict_get (layout_of after src) n = Some xs" "?i \<in> set xs"
        by (auto simp: still_at_def)
      then have get: "dict_get_or (layout_of after src) n [] = xs" by (simp add: dict_get_or_def)
      show ?thesis
      proof (cases dest)
        case None
        with Some step inv leave_inv [OF inv xs Some None] skip m get show ?thesis
          by (auto simp: move_step_def Let_def)
      next
        case d: (Some d)
        with Some step inv move_inv [OF inv [unfolded d] xs Some refl] skip m get show ?thesis
          by (auto simp: move_step_def Let_def)
      qed
    qed
  qed
  assume j: "j \<noteq> ?i" "still_at wof (layout_of after src) j"
  show "still_at wof (layout_of after' src) j"
  proof (cases "dict_get wof ?i")
    case None
    with step j show ?thesis
      by (auto simp: move_step_def Let_def intro!: still_at_join split: if_splits option.splits)
  next
    case (Some n)
    with at obtain xs where xs: "dict_get (layout_of after src) n = Some xs"
      by (auto simp: still_at_def)
    then have get: "dict_get_or (layout_of after src) n [] = xs" by (simp add: dict_get_or_def)
    with Some step j still_at_leave [OF j(2) xs j(1)] show ?thesis
      by (auto simp: move_step_def Let_def intro!: still_at_join split: if_splits option.splits)
  qed
qed

lemma fold_moves:
  assumes "distinct (map vm_id vms)" and "moves_inv wof src tgt dest before after (map mv_vm_id moves)"
    and "\<And>v. v \<in> set vms \<Longrightarrow> still_at wof (layout_of after src) (vm_id v)"
    and "\<And>v. v \<in> set vms \<Longrightarrow> dict_get wof (vm_id v) \<noteq> None \<or> dest \<noteq> None"
    and "fold (move_step spec src tgt dest wof) vms (after, moves) = (after', moves')"
  shows "moves_inv wof src tgt dest before after' (map mv_vm_id moves') \<and>
    map mv_vm_id moves' = map mv_vm_id moves @
      filter (\<lambda>i. \<not> (es_operation spec = ''move_to_wave'' \<and> dict_get wof i = dest)) (map vm_id vms)"
  using assms
proof (induction vms arbitrary: after moves)
  case (Cons v vms)
  obtain after1 moves1 where step: "move_step spec src tgt dest wof v (after, moves) = (after1, moves1)" by fastforce
  have at: "still_at wof (layout_of after src) (vm_id v)" by (rule Cons.prems(3)) simp
  have origin: "dict_get wof (vm_id v) \<noteq> None \<or> dest \<noteq> None" by (rule Cons.prems(4)) simp
  note one = move_step_inv [OF Cons.prems(2) at refl step origin]
  have "moves_inv wof src tgt dest before after' (map mv_vm_id moves') \<and>
    map mv_vm_id moves' = map mv_vm_id moves1 @
      filter (\<lambda>i. \<not> (es_operation spec = ''move_to_wave'' \<and> dict_get wof i = dest)) (map vm_id vms)"
  proof (rule Cons.IH [OF _ one(1)])
    show "distinct (map vm_id vms)" using Cons.prems(1) by simp
    show "fold (move_step spec src tgt dest wof) vms (after1, moves1) = (after', moves')"
      using Cons.prems(5) step by simp
    fix u assume u: "u \<in> set vms"
    have "vm_id u \<noteq> vm_id v" using Cons.prems(1) u by (metis distinct.simps(2) image_eqI list.set_map list.simps(9))
    moreover have "still_at wof (layout_of after src) (vm_id u)" by (rule Cons.prems(3)) (use u in simp)
    ultimately show "still_at wof (layout_of after1 src) (vm_id u)" by (rule one(3))
    show "dict_get wof (vm_id u) \<noteq> None \<or> dest \<noteq> None" by (rule Cons.prems(4)) (use u in simp)
  qed
  then show ?case using one(2) by auto
qed simp

section \<open>The layout of a plan\<close>

lemma dict_get_of_map: "dict_get (dict_of f g xs) k = map_option g (dict_get (dict_of f id xs) k)"
  by (simp add: dict_get_of option.map_comp comp_def)

lemma wave_of_vm_Some: "dict_get (wave_of_vm l) i = Some n \<Longrightarrow> \<exists>ids. (n, ids) \<in> set l \<and> i \<in> set ids"
  unfolding wave_of_vm_def by (drule dict_get_of_Some) auto

lemma dict_has_wave_of_vm [simp]: "dict_has (wave_of_vm l) i \<longleftrightarrow> i \<in> set (members l)"
  unfolding wave_of_vm_def by force

lemma still_at_start: "distinct (map fst l) \<Longrightarrow> still_at (wave_of_vm l) l i"
  unfolding still_at_def using wave_of_vm_Some by (cases "dict_get (wave_of_vm l) i") (fastforce simp: dict_get_eq_map_of)+

lemma distinct_membership [simp]: "distinct (map fst (wave_membership p))"
  by (simp add: wave_membership_def)

text \<open>In a whole plan the layout lists the waves as they are.\<close>

lemma dict_set_fresh: "k \<notin> fst ` set d \<Longrightarrow> dict_set k v d = d @ [(k, v)]"
  by (induction d) auto

lemma dict_of_distinct:
  assumes "distinct (map f xs)"
  shows "dict_of f g xs = map (\<lambda>x. (f x, g x)) xs"
proof -
  have "fold (\<lambda>x. dict_set (f x) (g x)) ys d = d @ map (\<lambda>x. (f x, g x)) ys"
    if "distinct (map fst d @ map f ys)" for ys d
    using that
  proof (induction ys arbitrary: d)
    case (Cons y ys)
    have "distinct (map fst (d @ [(f y, g y)]) @ map f ys)" using Cons.prems by auto
    from Cons.IH [OF this] Cons.prems show ?case by (simp add: dict_set_fresh)
  qed simp
  from this [of "[]" xs] assms show ?thesis by (simp add: dict_of_def)
qed

lemma whole_members:
  assumes "whole p" and "mp_status p = ''complete''"
  shows "mset (members (wave_membership p)) = mset (mp_vm_ids p)"
  using assms by (simp add: whole_def wave_membership_def dict_of_distinct comp_def)

lemma members_drop_empty [simp]: "members (drop_empty l) = members l"
  by (induction l) (auto simp: drop_empty_def)

lemma distinct_drop_empty: "distinct (map fst l) \<Longrightarrow> distinct (map fst (drop_empty l))"
  by (auto simp: drop_empty_def distinct_map intro: inj_on_subset)

lemma dict_get_drop_empty:
  assumes "distinct (map fst l)"
  shows "dict_get (drop_empty l) n = (case dict_get l n of Some ids \<Rightarrow> if ids = [] then None else Some ids | None \<Rightarrow> None)"
  using assms
proof (induction l)
  case (Cons kv l)
  obtain k xs where kv: "kv = (k, xs)" by fastforce
  have "dict_get (drop_empty l) k = None" if "k \<notin> fst ` set l"
    using that by (auto simp: dict_get_eq_map_of drop_empty_def map_of_eq_None_iff)
  moreover have "dict_get l k = None" if "k \<notin> fst ` set l"
    using that by (simp add: dict_get_eq_map_of map_of_eq_None_iff)
  ultimately show ?case using Cons by (auto simp: kv drop_empty_def)
qed (simp add: drop_empty_def)

section \<open>Rebuilt waves\<close>

lemma map_filter_find:
  "map vm_id (List.map_filter (find_vm rows) ids) = filter (\<lambda>i. i \<in> vm_id ` set rows) ids"
proof (induction ids)
  case (Cons i ids)
  show ?case
  proof (cases "find_vm rows i")
    case None
    then have "i \<notin> vm_id ` set rows" by simp
    with None Cons show ?thesis by (simp del: find_vm_None)
  next
    case (Some v)
    from find_vm_Some [OF this] have "vm_id v = i" "i \<in> vm_id ` set rows" by auto
    with Some Cons show ?thesis by simp
  qed
qed simp

lemma classify_wave_ids:
  assumes "distinct (map vm_id vms)"
  shows "mset (w_vm_ids (classify_wave n vms)) = mset (map vm_id vms)"
proof -
  have "mset (w_vm_ids (classify_wave n vms)) = mset (all_vm_ids (classify None vms))"
    unfolding classify_wave_def build_wave_def Let_def w_vm_ids_def
    by simp (rule mset_all_vm_ids_perm, simp)
  also have "\<dots> = mset (map vm_id vms)"
    by (rule classify_vm_ids) (use assms in \<open>simp add: wf_rows_def\<close>)
  finally show ?thesis .
qed

lemma build_wave_doc_simps [simp]:
  "wd_wave_number (fst (build_wave_doc env p n vms prev ov ms spec cs)) = n"
  "wd_vm_ids (fst (build_wave_doc env p n vms prev ov ms spec cs)) = w_vm_ids (classify_wave n vms)"
  "wd_mtv_yaml_available (fst (build_wave_doc env p n vms prev ov ms spec cs)) \<longleftrightarrow>
     snd (build_wave_doc env p n vms prev ov ms spec cs) = None"
  by (simp_all add: build_wave_doc_def Let_def)

text \<open>What a wave holds after the rebuild: a rebuilt one only the machines with a row.\<close>

definition kept_ids :: "rebuild_context \<Rightarrow> nat \<Rightarrow> int list \<Rightarrow> int list" where
  "kept_ids rx n ids = (if n \<in> set (rx_touched rx) then filter (\<lambda>i. i \<in> vm_id ` set (rx_rows rx)) ids else ids)"

text \<open>A context of a rebuild: what \<open>prepare\<close> passes.\<close>

definition rx_ok :: "rebuild_context \<Rightarrow> bool" where
  "rx_ok rx \<longleftrightarrow> distinct (members (rx_after rx)) \<and> distinct (map fst (rx_after rx)) \<and>
     (\<forall>n d. dict_get (rx_previous rx) n = Some d \<longrightarrow> wd_wave_number d = n) \<and>
     (\<forall>n ids. (n, ids) \<in> set (rx_after rx) \<longrightarrow> n \<notin> set (rx_touched rx) \<longrightarrow>
       (\<exists>d. dict_get (rx_previous rx) n = Some d \<and> wd_vm_ids d = ids))"

lemma distinct_member: "distinct (concat (map snd l)) \<Longrightarrow> (n, ids) \<in> set l \<Longrightarrow> distinct ids"
  by (induction l) auto

lemma rebuild_wave_result:
  assumes ok: "rx_ok rx" and mem: "(n, ids) \<in> set (rx_after rx)"
  shows "\<exists>d vs. rebuild_wave rx n = Inr (d, vs) \<and>
    (case d of
       None \<Rightarrow> kept_ids rx n ids = []
     | Some w \<Rightarrow> wd_wave_number w = n \<and> mset (wd_vm_ids w) = mset (kept_ids rx n ids))"
proof -
  have after: "dict_get_or (rx_after rx) n [] = ids"
    using ok mem by (auto simp: rx_ok_def dict_get_or_def dict_get_eq_map_of)
  have d: "distinct ids" using ok mem distinct_member by (auto simp: rx_ok_def)
  show ?thesis
  proof (cases "n \<in> set (rx_touched rx)")
    case True
    let ?vms = "List.map_filter (find_vm (rx_rows rx)) ids"
    have ids: "map vm_id ?vms = kept_ids rx n ids" using True by (simp add: map_filter_find kept_ids_def)
    then have "distinct (map vm_id ?vms)" using d by (simp add: kept_ids_def)
    note cl = classify_wave_ids [OF this, of n]
    show ?thesis
    proof (cases "?vms = []")
      case empty: True
      then have "kept_ids rx n ids = []" using ids by simp
      with True empty show ?thesis
        by (simp add: rebuild_wave_def Let_def after split: prod.split)
    next
      case False
      with True cl ids show ?thesis
        by (simp add: rebuild_wave_def Let_def after prod.case_eq_if del: mset_map)
    qed
  next
    case False
    with ok mem obtain d where "dict_get (rx_previous rx) n = Some d" "wd_vm_ids d = ids"
      unfolding rx_ok_def by blast
    moreover from this ok have "wd_wave_number d = n" by (simp add: rx_ok_def)
    ultimately show ?thesis using False by (simp add: rebuild_wave_def Let_def kept_ids_def)
  qed
qed

definition doc_at :: "rebuild_context \<Rightarrow> nat \<Rightarrow> wave_doc option \<Rightarrow> bool" where
  "doc_at rx n d \<longleftrightarrow>
     (case d of
        None \<Rightarrow> kept_ids rx n (dict_get_or (rx_after rx) n []) = []
      | Some w \<Rightarrow> wd_wave_number w = n \<and> mset (wd_vm_ids w) = mset (kept_ids rx n (dict_get_or (rx_after rx) n [])))"

lemma rebuild_waves_result:
  assumes ok: "rx_ok rx" and "set ns \<subseteq> fst ` set (rx_after rx)"
  shows "\<exists>rs. rebuild_waves rx ns = Inr rs \<and> map fst rs = ns \<and> list_all (\<lambda>r. doc_at rx (fst r) (fst (snd r))) rs"
  using assms(2)
proof (induction ns)
  case (Cons n ns)
  then obtain ids where mem: "(n, ids) \<in> set (rx_after rx)" by auto
  then have "dict_get_or (rx_after rx) n [] = ids"
    using ok by (auto simp: rx_ok_def dict_get_or_def dict_get_eq_map_of)
  with rebuild_wave_result [OF ok mem] obtain d vs where d: "rebuild_wave rx n = Inr (d, vs)" "doc_at rx n d"
    unfolding doc_at_def by blast
  from Cons obtain rs where "rebuild_waves rx ns = Inr rs" "map fst rs = ns"
      "list_all (\<lambda>r. doc_at rx (fst r) (fst (snd r))) rs" by auto
  with d show ?case by (intro exI [of _ "(n, d, vs) # rs"]) simp
qed simp

lemma results_ids:
  assumes "list_all (\<lambda>r. doc_at rx (fst r) (fst (snd r))) rs"
  shows "mset (concat (map wd_vm_ids (List.map_filter (fst \<circ> snd) rs))) =
      mset (concat (map (\<lambda>n. kept_ids rx n (dict_get_or (rx_after rx) n [])) (map fst rs)))"
    and "subseq (map wd_wave_number (List.map_filter (fst \<circ> snd) rs)) (map fst rs)"
  using assms by (induction rs) (auto simp: doc_at_def split: option.splits)

lemma length_assign_concurrency: "length (assign_concurrency_groups ws names) = length ws"
  by (simp add: assign_concurrency_groups_def Let_def split: prod.split)

lemma zip_update:
  assumes "\<And>d c. f (d\<lparr>wd_concurrency_group_id := c\<rparr>) = f d" and "length ss = length docs"
  shows "map f (map (\<lambda>(d, s). d\<lparr>wd_concurrency_group_id := w_concurrency_group_id s\<rparr>) (zip docs ss)) = map f docs"
  using assms(2)
proof (induction docs arbitrary: ss)
  case (Cons d docs)
  then show ?case by (cases ss) (auto simp: assms(1))
qed simp

text \<open>A machine is in the wave document with a number.\<close>

definition in_wave :: "wave_doc list \<Rightarrow> nat \<Rightarrow> int \<Rightarrow> bool" where
  "in_wave docs n i \<longleftrightarrow> (n, i) \<in> set (concat (map (\<lambda>(n, ids). map (Pair n) ids) (map (\<lambda>w. (wd_wave_number w, wd_vm_ids w)) docs)))"

lemma in_wave_iff: "in_wave docs n i \<longleftrightarrow> (\<exists>w\<in>set docs. wd_wave_number w = n \<and> i \<in> set (wd_vm_ids w))"
  by (auto simp: in_wave_def)

lemma results_in:
  assumes "list_all (\<lambda>r. doc_at rx (fst r) (fst (snd r))) rs" and "n \<in> fst ` set rs"
    and "i \<in> set (kept_ids rx n (dict_get_or (rx_after rx) n []))"
  shows "in_wave (List.map_filter (fst \<circ> snd) rs) n i"
  using assms(1,2)
proof (induction rs)
  case (Cons r rs)
  obtain m d vs where r: "r = (m, d, vs)" by (cases r) auto
  show ?case
  proof (cases "m = n")
    case True
    with Cons.prems(1) assms(3) obtain w where w: "d = Some w" "wd_wave_number w = n"
        "mset (wd_vm_ids w) = mset (kept_ids rx n (dict_get_or (rx_after rx) n []))"
      by (auto simp: r doc_at_def split: option.splits)
    with mset_eq_setD [OF w(3)] assms(3) show ?thesis by (simp add: in_wave_iff r)
  next
    case False
    with Cons.prems have "list_all (\<lambda>r. doc_at rx (fst r) (fst (snd r))) rs" "n \<in> fst ` set rs"
      by (auto simp: r)
    then have "in_wave (List.map_filter (fst \<circ> snd) rs) n i" by (rule Cons.IH)
    then show ?thesis unfolding r by (cases d) (auto simp: in_wave_iff comp_def)
  qed
qed simp

lemma recolor_fields:
  "map (\<lambda>w. (wd_wave_number w, wd_vm_ids w)) (recolor vcs names docs) = map (\<lambda>w. (wd_wave_number w, wd_vm_ids w)) docs"
  "map wd_vm_ids (recolor vcs names docs) = map wd_vm_ids docs"
  "map wd_wave_number (recolor vcs names docs) = map wd_wave_number docs"
  "map wd_mtv_yaml_available (recolor vcs names docs) = map wd_mtv_yaml_available docs"
  unfolding recolor_def Let_def
  by (rule zip_update; simp add: length_assign_concurrency)+

definition kept_members :: "rebuild_context \<Rightarrow> int list" where
  "kept_members rx = concat (map (\<lambda>(n, ids). kept_ids rx n ids) (rx_after rx))"

lemma distinct_kept_ids: "distinct ids \<Longrightarrow> distinct (kept_ids rx n ids)"
  by (simp add: kept_ids_def)

lemma set_kept_ids: "set (kept_ids rx n ids) \<subseteq> set ids"
  by (auto simp: kept_ids_def)

lemma kept_members_of:
  assumes "distinct (members l)"
  shows "distinct (concat (map (\<lambda>(n, ids). kept_ids rx n ids) l)) \<and>
      set (concat (map (\<lambda>(n, ids). kept_ids rx n ids) l)) \<subseteq> set (members l)"
  using assms
proof (induction l)
  case (Cons kv l)
  obtain n ids where kv: "kv = (n, ids)" by fastforce
  from Cons have IH: "distinct (concat (map (\<lambda>(n, ids). kept_ids rx n ids) l))"
      "set (concat (map (\<lambda>(n, ids). kept_ids rx n ids) l)) \<subseteq> set (members l)" by (simp_all add: kv)
  have "distinct ids" "set ids \<inter> set (members l) = {}" using Cons.prems by (simp_all add: kv)
  with IH distinct_kept_ids [of ids rx n] set_kept_ids [of rx n ids]
  have "set (kept_ids rx n ids) \<inter> set (concat (map (\<lambda>(n, ids). kept_ids rx n ids) l)) = {}"
      "distinct (kept_ids rx n ids)" by blast+
  with IH set_kept_ids [of rx n ids] show ?case
    by (simp only: kv list.map concat.simps distinct_append set_append prod.case snd_conv) blast
qed simp

lemma kept_members_distinct: "distinct (members (rx_after rx)) \<Longrightarrow> distinct (kept_members rx)"
  using kept_members_of [of "rx_after rx" rx] by (simp add: kept_members_def)

lemma subseq_sub: "subseq xs ys \<Longrightarrow> set xs \<subseteq> set ys \<and> (distinct ys \<longrightarrow> distinct xs)"
  by (induction rule: list_emb.induct) auto

text \<open>What a rebuilt plan looks like. The rebuild never fails.\<close>

definition change_ok :: "rebuild_context \<Rightarrow> plan_change \<Rightarrow> bool" where
  "change_ok rx c \<longleftrightarrow> ch_plan_id c = mp_id (rx_plan rx) \<and> ch_vm_ids c = concat (map wd_vm_ids (ch_waves c)) \<and>
     mset (ch_vm_ids c) = mset (kept_members rx) \<and> distinct (ch_vm_ids c) \<and>
     distinct (map wd_wave_number (ch_waves c)) \<and> set (map wd_wave_number (ch_waves c)) \<subseteq> fst ` set (rx_after rx) \<and>
     ch_wave_number_seq c = max_of (seq_or_zero (rx_plan rx) # map fst (rx_previous rx) @ map fst (rx_after rx)) \<and>
     set (ch_created_waves c) \<subseteq> set (rx_created rx) \<and>
     (\<forall>n i. n \<in> fst ` set (rx_after rx) \<longrightarrow> i \<in> set (kept_ids rx n (dict_get_or (rx_after rx) n [])) \<longrightarrow>
       in_wave (ch_waves c) n i)"

lemma rebuild_plan_result:
  assumes ok: "rx_ok rx"
  shows "\<exists>c vs. rebuild_plan rx removed names vcs = Inr (c, vs) \<and> change_ok rx c"
proof -
  let ?ns = "sort (map fst (rx_after rx))"
  obtain rs where rs: "rebuild_waves rx ?ns = Inr rs" "map fst rs = ?ns"
      "list_all (\<lambda>r. doc_at rx (fst r) (fst (snd r))) rs"
    using rebuild_waves_result [OF ok, of ?ns] by auto
  let ?docs = "List.map_filter (fst \<circ> snd) rs"
  let ?K = "\<lambda>n. kept_ids rx n (dict_get_or (rx_after rx) n [])"
  have keys: "distinct (map fst (rx_after rx))" using ok by (simp add: rx_ok_def)
  have K: "map ?K (map fst (rx_after rx)) = map (\<lambda>(n, ids). kept_ids rx n ids) (rx_after rx)"
    using keys by (auto simp: dict_get_or_def dict_get_eq_map_of)
  have "mset (concat (map wd_vm_ids ?docs)) = mset (concat (map ?K ?ns))"
    using results_ids(1) [OF rs(3)] rs(2) by simp
  also have "\<dots> = mset (concat (map ?K (map fst (rx_after rx))))"
    by (rule mset_concat_map_perm) simp
  finally have m: "mset (concat (map wd_vm_ids ?docs)) = mset (kept_members rx)"
    unfolding K kept_members_def .
  have d: "distinct (concat (map wd_vm_ids ?docs))"
    using mset_eq_imp_distinct_iff [OF m] kept_members_distinct ok by (simp add: rx_ok_def)
  have sub: "subseq (map wd_wave_number ?docs) ?ns" using results_ids(2) [OF rs(3)] rs(2) by simp
  have nums: "distinct (map wd_wave_number ?docs)" "set (map wd_wave_number ?docs) \<subseteq> fst ` set (rx_after rx)"
    using subseq_sub [OF sub] keys by (simp_all del: set_map) auto
  have members: "in_wave (recolor vcs names ?docs) n i"
    if "n \<in> fst ` set (rx_after rx)" "i \<in> set (?K n)" for n i
  proof -
    have "n \<in> fst ` set rs" using that(1) arg_cong [OF rs(2), of set] by simp
    from results_in [OF rs(3) this that(2)] show ?thesis by (simp add: in_wave_def recolor_fields(1))
  qed
  then have "\<forall>n i. n \<in> fst ` set (rx_after rx) \<longrightarrow> i \<in> set (?K n) \<longrightarrow> in_wave (recolor vcs names ?docs) n i"
    by blast
  then show ?thesis
    using d nums m
    by (auto simp: rebuild_plan_def rs(1) Let_def recolor_fields change_ok_def simp del: set_map)
qed

section \<open>The rebuild of an edit\<close>

lemma touched_simp:
  "n \<in> set (touched_waves before after) \<longleftrightarrow> n \<in> fst ` set after \<and> \<not> (dict_has before n \<and> dict_get after n = dict_get before n)"
  by (auto simp: touched_waves_def created_waves_def)

lemma rx_simps [simp]:
  "rx_plan (rebuild_context_for env db spec names p before after) = p"
  "rx_after (rebuild_context_for env db spec names p before after) = after"
  "rx_touched (rebuild_context_for env db spec names p before after) = touched_waves before after"
  "rx_created (rebuild_context_for env db spec names p before after) = created_waves before after"
  "rx_previous (rebuild_context_for env db spec names p before after) = dict_of wd_wave_number id (mp_waves p)"
  "rx_rows (rebuild_context_for env db spec names p before after) =
     select_vms (ad_vms db) (concat (map (\<lambda>n. dict_get_or after n []) (touched_waves before after)))"
  by (simp_all add: rebuild_context_for_def Let_def)

lemma rebuild_context_ok:
  assumes "distinct (members after)" and "distinct (map fst after)"
  shows "rx_ok (rebuild_context_for env db spec names p (wave_membership p) after)"
  unfolding rx_ok_def rx_simps
proof (intro conjI allI impI)
  show "distinct (members after)" "distinct (map fst after)" by (rule assms)+
  fix n d assume "dict_get (dict_of wd_wave_number id (mp_waves p)) n = Some d"
  then show "wd_wave_number d = n" by (auto dest!: dict_get_of_Some)
next
  fix n ids assume mem: "(n, ids) \<in> set after" and "n \<notin> set (touched_waves (wave_membership p) after)"
  then have "dict_has (wave_membership p) n" "dict_get after n = dict_get (wave_membership p) n"
    by (force simp: touched_simp)+
  moreover have "dict_get after n = Some ids"
    using mem assms(2) by (simp add: dict_get_eq_map_of)
  ultimately have "map_option wd_vm_ids (dict_get (dict_of wd_wave_number id (mp_waves p)) n) = Some ids"
    by (simp add: wave_membership_def flip: dict_get_of_map)
  then show "\<exists>d. dict_get (dict_of wd_wave_number id (mp_waves p)) n = Some d \<and> wd_vm_ids d = ids" by auto
qed

text \<open>The members of a change: those of the layout, less the ones of rebuilt waves without a row.\<close>

lemma kept_ids_for:
  assumes "distinct (map fst after)" and "(n, ids) \<in> set after"
  shows "kept_ids (rebuild_context_for env db spec names p before after) n ids =
    (if n \<in> set (touched_waves before after) then filter (\<lambda>i. i \<in> vm_id ` set (ad_vms db)) ids else ids)"
proof (cases "n \<in> set (touched_waves before after)")
  case True
  have "dict_get_or after n [] = ids"
    using assms by (simp add: dict_get_or_def dict_get_eq_map_of)
  with True show ?thesis by (auto simp: kept_ids_def select_vms_def intro!: filter_cong)
qed (simp add: kept_ids_def)

lemma kept_members_for:
  assumes "distinct (map fst after)"
  shows "kept_members (rebuild_context_for env db spec names p before after) =
    concat (map (\<lambda>(n, ids). if n \<in> set (touched_waves before after)
      then filter (\<lambda>i. i \<in> vm_id ` set (ad_vms db)) ids else ids) after)"
  unfolding kept_members_def rx_simps
  by (rule arg_cong [where f = concat], rule map_cong [OF refl]) (auto simp: kept_ids_for [OF assms])

lemma kept_filter_set:
  "set (members l) \<inter> R \<subseteq> set (concat (map (\<lambda>(n, ids). if n \<in> T then filter (\<lambda>i. i \<in> R) ids else ids) l))"
  "set (concat (map (\<lambda>(n, ids). if n \<in> T then filter (\<lambda>i. i \<in> R) ids else ids) l)) \<subseteq> set (members l)"
  by (induction l) auto

lemma kept_members_set:
  assumes "distinct (map fst after)"
  shows "set (members after) \<inter> vm_id ` set (ad_vms db) \<subseteq>
      set (kept_members (rebuild_context_for env db spec names p before after))"
    and "set (kept_members (rebuild_context_for env db spec names p before after)) \<subseteq> set (members after)"
  unfolding kept_members_for [OF assms] by (rule kept_filter_set)+

end
