(* ===== verification/Plan_Edit_Effects.thy ===== *)
theory Plan_Edit_Effects
  imports Plan_Edit_Properties
begin

text \<open>
  The effect of a whole manual edit, from the request to the stored plans: where the moved
  machines end up, which wave numbers are used, which partition arriving machines belong to,
  and that the tables stay consistent.
\<close>

section \<open>Positions in a layout\<close>

definition at_wave :: "layout \<Rightarrow> nat \<Rightarrow> int \<Rightarrow> bool" where
  "at_wave l n i \<longleftrightarrow> (\<exists>ids. dict_get l n = Some ids \<and> i \<in> set ids)"

lemma at_wave_append: "at_wave (dict_append d j l) n i \<longleftrightarrow> at_wave l n i \<or> (n = d \<and> i = j)"
  by (cases "dict_get l n") (auto simp: at_wave_def dict_get_append dict_get_or_def)

lemma at_wave_remove:
  "dict_get l m = Some xs \<Longrightarrow> i \<noteq> j \<Longrightarrow> at_wave (dict_set m (remove1 j xs) l) n i \<longleftrightarrow> at_wave l n i"
  by (auto simp: at_wave_def)

lemma at_wave_drop_empty:
  "distinct (map fst l) \<Longrightarrow> at_wave (drop_empty l) n i \<longleftrightarrow> at_wave l n i"
  by (auto simp: at_wave_def dict_get_drop_empty split: option.splits)

text \<open>One move changes the position of its own machine only, and puts it into the destination.\<close>

lemma move_step_at:
  assumes at: "still_at wof (layout_of after src) (vm_id v)"
    and step: "move_step spec src tgt dest wof v (after, moves) = (after', moves')"
  shows "i \<noteq> vm_id v \<Longrightarrow> at_wave (layout_of after' k) n i \<longleftrightarrow> at_wave (layout_of after k) n i"
    and "dest = Some d \<Longrightarrow> vm_id v \<in> set (map mv_vm_id moves') - set (map mv_vm_id moves) \<Longrightarrow>
      at_wave (layout_of after' tgt) d (vm_id v)"
proof -
  assume i: "i \<noteq> vm_id v"
  show "at_wave (layout_of after' k) n i \<longleftrightarrow> at_wave (layout_of after k) n i"
  proof (cases "dict_get wof (vm_id v)")
    case None
    with i step show ?thesis
      by (auto simp: move_step_def Let_def at_wave_append split: if_splits option.splits)
  next
    case (Some m)
    with at obtain xs where xs: "dict_get (layout_of after src) m = Some xs" by (auto simp: still_at_def)
    then have get: "dict_get_or (layout_of after src) m [] = xs" by (simp add: dict_get_or_def)
    with Some i step at_wave_remove [OF xs i, of n] show ?thesis
      by (auto simp: move_step_def Let_def at_wave_append split: if_splits option.splits)
  qed
next
  assume "dest = Some d" "vm_id v \<in> set (map mv_vm_id moves') - set (map mv_vm_id moves)"
  with step show "at_wave (layout_of after' tgt) d (vm_id v)"
    by (auto simp: move_step_def Let_def at_wave_append split: if_splits)
qed

lemma fold_moves_at:
  assumes "distinct (map vm_id vms)" and "moves_inv wof src tgt dest before after (map mv_vm_id moves)"
    and "\<And>v. v \<in> set vms \<Longrightarrow> still_at wof (layout_of after src) (vm_id v)"
    and "\<And>v. v \<in> set vms \<Longrightarrow> dict_get wof (vm_id v) \<noteq> None \<or> dest \<noteq> None"
    and "set (map mv_vm_id moves) \<inter> set (map vm_id vms) = {}"
    and "fold (move_step spec src tgt dest wof) vms (after, moves) = (after', moves')"
  shows "(\<forall>i k n. i \<notin> set (map mv_vm_id moves') - set (map mv_vm_id moves) \<longrightarrow>
      at_wave (layout_of after' k) n i = at_wave (layout_of after k) n i) \<and>
    (\<forall>i d. i \<in> set (map mv_vm_id moves') - set (map mv_vm_id moves) \<longrightarrow> dest = Some d \<longrightarrow>
      at_wave (layout_of after' tgt) d i)"
  using assms
proof (induction vms arbitrary: after moves)
  case (Cons v vms)
  obtain after1 moves1 where step: "move_step spec src tgt dest wof v (after, moves) = (after1, moves1)" by fastforce
  have at: "still_at wof (layout_of after src) (vm_id v)" by (rule Cons.prems(3)) simp
  have origin: "dict_get wof (vm_id v) \<noteq> None \<or> dest \<noteq> None" by (rule Cons.prems(4)) simp
  note one = move_step_inv [OF Cons.prems(2) at refl step origin]
  note pos = move_step_at [OF at step]
  have v: "vm_id v \<notin> set (map vm_id vms)" "vm_id v \<notin> set (map mv_vm_id moves)"
    using Cons.prems(1,5) by auto
  have rest: "fold (move_step spec src tgt dest wof) vms (after1, moves1) = (after', moves')"
    using Cons.prems(6) step by simp
  have d: "distinct (map vm_id vms)" using Cons.prems(1) by simp
  have still: "still_at wof (layout_of after1 src) (vm_id u)" if u: "u \<in> set vms" for u
  proof -
    have "vm_id u \<noteq> vm_id v" using v(1) u by (metis image_eqI list.set_map)
    moreover have "still_at wof (layout_of after src) (vm_id u)" by (rule Cons.prems(3)) (use u in simp)
    ultimately show ?thesis by (rule one(3))
  qed
  have org: "dict_get wof (vm_id u) \<noteq> None \<or> dest \<noteq> None" if "u \<in> set vms" for u
    by (rule Cons.prems(4)) (use that in simp)
  have disj: "set (map mv_vm_id moves1) \<inter> set (map vm_id vms) = {}"
    unfolding one(2) using Cons.prems(5) v(1) by auto
  note IH = Cons.IH [OF d one(1) still org disj rest]
  note all = fold_moves [OF d one(1) still org rest]
  have sub: "set (map mv_vm_id moves') \<subseteq> set (map mv_vm_id moves1) \<union> set (map vm_id vms)"
    "set (map mv_vm_id moves1) \<subseteq> set (map mv_vm_id moves')"
    using all by auto
  have m1: "set (map mv_vm_id moves1) \<subseteq> insert (vm_id v) (set (map mv_vm_id moves))"
    "set (map mv_vm_id moves) \<subseteq> set (map mv_vm_id moves1)"
    unfolding one(2) by auto
  have skip: "after1 = after" if "vm_id v \<notin> set (map mv_vm_id moves1)"
    using step that by (auto simp: move_step_def Let_def split: if_splits)
  show ?case
  proof (intro conjI allI impI)
    fix i k n assume i: "i \<notin> set (map mv_vm_id moves') - set (map mv_vm_id moves)"
    have "i \<notin> set (map mv_vm_id moves') - set (map mv_vm_id moves1)" using i m1 by blast
    with IH have "at_wave (layout_of after' k) n i = at_wave (layout_of after1 k) n i" by blast
    moreover have "at_wave (layout_of after1 k) n i = at_wave (layout_of after k) n i"
    proof (cases "i = vm_id v")
      case True
      with i v(2) sub(2) have "vm_id v \<notin> set (map mv_vm_id moves1)" by blast
      then show ?thesis using skip by simp
    next
      case False
      then show ?thesis by (rule pos(1))
    qed
    ultimately show "at_wave (layout_of after' k) n i = at_wave (layout_of after k) n i" by simp
  next
    fix i d assume i: "i \<in> set (map mv_vm_id moves') - set (map mv_vm_id moves)" and dest: "dest = Some d"
    show "at_wave (layout_of after' tgt) d i"
    proof (cases "i \<in> set (map mv_vm_id moves1)")
      case True
      with i m1 have "i = vm_id v" by blast
      with True v(2) pos(2) [OF dest] have "at_wave (layout_of after1 tgt) d i" by blast
      moreover have "i \<notin> set (map mv_vm_id moves') - set (map mv_vm_id moves1)" using True by simp
      ultimately show ?thesis using IH by blast
    next
      case False
      with i IH dest show ?thesis by blast
    qed
  qed
qed simp


section \<open>The request\<close>

text \<open>What the checks of \<open>prepare\<close> leave: the plans, the destination and the membership of the machines.\<close>

definition edit_shape :: "edit_spec \<Rightarrow> migration_plan \<Rightarrow> migration_plan \<Rightarrow> nat option \<Rightarrow> int list \<Rightarrow> bool" where
  "edit_shape spec p target dest ids \<longleftrightarrow>
     mp_status p = ''complete'' \<and> mp_status target = ''complete'' \<and> ids \<noteq> [] \<and> distinct ids \<and>
     (if es_operation spec = ''move_to_plan''
      then mp_id target \<noteq> mp_id p \<and> es_target_plan_id spec = Some (mp_id target) else target = p) \<and>
     (dest = None \<longleftrightarrow> es_operation spec = ''remove'') \<and>
     (if es_operation spec = ''add'' then set ids \<inter> set (members (wave_membership p)) = {}
      else set ids \<subseteq> set (members (wave_membership p))) \<and>
     es_operation spec \<in> set OPERATIONS \<and>
     (case dest of None \<Rightarrow> True
      | Some d \<Rightarrow> if es_new_wave spec then d = next_wave_number target (wave_membership target)
          else dict_has (wave_membership target) d)"

lemma edit_target_shape:
  assumes "edit_target db p spec = Inr target"
  shows "mp_status p = ''complete'' \<and> mp_status target = ''complete'' \<and> es_operation spec \<in> set OPERATIONS \<and>
    es_vm_ids spec \<noteq> [] \<and> (es_operation spec = ''remove'' \<or> es_new_wave spec \<or> es_target_wave spec \<noteq> None) \<and>
    (if es_operation spec = ''move_to_plan''
     then mp_id target \<noteq> mp_id p \<and> es_target_plan_id spec = Some (mp_id target) \<and> get_plan db (mp_id target) = Some target
     else target = p)"
  using assms
  by (auto simp: edit_target_def dest: get_plan_Some split: if_splits option.splits)

lemma edit_dest_shape:
  assumes "edit_dest spec target ms = Inr dest"
    and "es_operation spec = ''remove'' \<or> es_new_wave spec \<or> es_target_wave spec \<noteq> None"
  shows "(dest = None \<longleftrightarrow> es_operation spec = ''remove'') \<and>
    (case dest of None \<Rightarrow> True
     | Some d \<Rightarrow> if es_new_wave spec then d = next_wave_number target ms else dict_has ms d)"
proof (cases dest)
  case None
  with assms show ?thesis by (auto simp: edit_dest_def split: if_splits option.splits)
next
  case (Some d)
  with assms have "es_operation spec \<noteq> ''remove''"
      "if es_new_wave spec then d = next_wave_number target ms else dict_has ms d"
    by (auto simp: edit_dest_def split: if_splits option.splits)
  with Some show ?thesis by simp
qed

lemma rows_of_ids:
  assumes "filter (\<lambda>vid. find_vm rows vid = None) ids = []"
  shows "map vm_id (List.map_filter (find_vm rows) ids) = ids"
    and "set (List.map_filter (find_vm rows) ids) \<subseteq> set rows"
proof -
  have "set ids \<subseteq> vm_id ` set rows" using assms by (auto simp: filter_empty_conv)
  then show "map vm_id (List.map_filter (find_vm rows) ids) = ids"
    unfolding map_filter_find by (auto intro!: filter_True)
  show "set (List.map_filter (find_vm rows) ids) \<subseteq> set rows"
  proof
    fix v assume "v \<in> set (List.map_filter (find_vm rows) ids)"
    then obtain i where "find_vm rows i = Some v" by (auto simp: map_filter_def simp del: find_vm_None)
    then show "v \<in> set rows" using find_vm_Some by blast
  qed
qed

text \<open>The errors of the checks.\<close>

definition request_error :: "edit_error \<Rightarrow> bool" where
  "request_error e \<longleftrightarrow> (\<exists>code kind vs. e = Plan_edit_error code kind vs \<and> code \<in> set [404, 409, 422])"

lemma request_error_simps [simp]:
  "request_error (Plan_edit_error 404 k vs)" "request_error (Plan_edit_error 409 k vs)"
  "request_error (Plan_edit_error 422 k vs)"
  by (simp_all add: request_error_def)

lemma edit_target_error: "edit_target db p spec = Inl e \<Longrightarrow> request_error e"
  by (auto simp: edit_target_def split: if_splits option.splits)

lemma edit_dest_error: "edit_dest spec target ms = Inl e \<Longrightarrow> request_error e"
  by (auto simp: edit_dest_def split: if_splits option.splits)

definition edit_ready ::
  "app_db \<Rightarrow> edit_spec \<Rightarrow> migration_plan \<Rightarrow> migration_plan \<Rightarrow> nat option \<Rightarrow> vm list \<Rightarrow> bool" where
  "edit_ready db spec p target dest vms \<longleftrightarrow> edit_shape spec p target dest (map vm_id vms) \<and> set vms \<subseteq> set (ad_vms db) \<and>
     map vm_id vms = unique_in_order (es_vm_ids spec) \<and>
     (es_operation spec = ''move_to_plan'' \<longrightarrow> get_plan db (mp_id target) = Some target)"

lemma prepare_cases:
  "(\<exists>e. prepare env db p spec = Inl e \<and> request_error e) \<or>
   (\<exists>target dest vms. edit_ready db spec p target dest vms \<and>
     prepare env db p spec = prepare_on env db p target spec vms dest)"
proof (cases "edit_target db p spec")
  case (Inl e)
  then show ?thesis using edit_target_error by (simp add: prepare_def)
next
  case target: (Inr target)
  let ?ids = "unique_in_order (es_vm_ids spec)"
  let ?vms = "List.map_filter (find_vm (ad_vms db)) ?ids"
  let ?wof = "wave_of_vm (wave_membership p)"
  note t = edit_target_shape [OF target]
  show ?thesis
  proof (cases "filter (\<lambda>vid. find_vm (ad_vms db) vid = None) ?ids = [] \<and>
      \<not> (es_operation spec = ''add'' \<and> list_ex (dict_has ?wof) ?ids) \<and>
      \<not> (es_operation spec \<noteq> ''add'' \<and> \<not> list_all (dict_has ?wof) ?ids)")
    case False
    then show ?thesis using target by (auto simp: prepare_def Let_def simp del: find_vm_None)
  next
    case checks: True
    show ?thesis
    proof (cases "edit_dest spec target (wave_membership target)")
      case (Inl e)
      with checks target edit_dest_error [OF Inl] show ?thesis
        by (simp add: prepare_def Let_def del: find_vm_None)
    next
      case (Inr dest)
      note rows = rows_of_ids [OF checks [THEN conjunct1]]
      have d: "(dest = None \<longleftrightarrow> es_operation spec = ''remove'') \<and>
          (case dest of None \<Rightarrow> True
           | Some d \<Rightarrow> if es_new_wave spec then d = next_wave_number target (wave_membership target)
               else dict_has (wave_membership target) d)"
        by (rule edit_dest_shape [OF Inr]) (use t in blast)
      have "?ids \<noteq> []" using t by (metis set_empty set_unique_in_order)
      then have "edit_shape spec p target dest (map vm_id ?vms)"
        using t d checks unfolding edit_shape_def rows(1)
        by (auto simp: list_ex_iff list_all_iff split: if_splits)
      then have "edit_ready db spec p target dest ?vms"
        unfolding edit_ready_def using rows t by (auto split: if_splits)
      moreover have "prepare env db p spec = prepare_on env db p target spec ?vms dest"
        using checks target Inr by (auto simp: prepare_def Let_def simp del: find_vm_None)
      ultimately show ?thesis by blast
    qed
  qed
qed

section \<open>The layouts after the moves\<close>

text \<open>The moved machines leave their plan and join the one with the destination.\<close>

definition members_after :: "int set \<Rightarrow> bool \<Rightarrow> int set \<Rightarrow> int set" where
  "members_after ids joins old = (old - ids) \<union> (if joins then ids else {})"

lemma mset_diff_set:
  assumes "mset xs + mset ys = mset zs" and "distinct zs"
  shows "distinct xs" and "distinct ys" and "set xs = set zs - set ys" and "set ys \<subseteq> set zs"
proof -
  have eq: "mset zs = mset (xs @ ys)" using assms(1) by simp
  have "distinct (xs @ ys)" using mset_eq_imp_distinct_iff [OF eq] assms(2) by simp
  moreover have "set zs = set (xs @ ys)" using eq by (rule mset_eq_setD)
  ultimately show "distinct xs" "distinct ys" "set xs = set zs - set ys" "set ys \<subseteq> set zs" by auto
qed

lemma mset_sum_set:
  assumes "mset xs = mset zs + mset ys" and "distinct zs" and "distinct ys" and "set zs \<inter> set ys = {}"
  shows "distinct xs" and "set xs = set zs \<union> set ys"
proof -
  have eq: "mset xs = mset (zs @ ys)" using assms(1) by simp
  show "distinct xs" using mset_eq_imp_distinct_iff [OF eq] assms(2-4) by simp
  have "set xs = set (zs @ ys)" using eq by (rule mset_eq_setD)
  then show "set xs = set zs \<union> set ys" by simp
qed

text \<open>The plans an edit may meet: their layouts list no machine twice and share none.\<close>

definition plans_apart :: "migration_plan \<Rightarrow> migration_plan \<Rightarrow> bool" where
  "plans_apart p target \<longleftrightarrow> distinct (members (wave_membership p)) \<and> distinct (members (wave_membership target)) \<and>
     (mp_id p \<noteq> mp_id target \<longrightarrow> set (members (wave_membership p)) \<inter> set (members (wave_membership target)) = {})"

definition moved_ids_of :: "edit_spec \<Rightarrow> migration_plan \<Rightarrow> nat option \<Rightarrow> int list \<Rightarrow> int list" where
  "moved_ids_of spec p dest ids =
     filter (\<lambda>i. \<not> (es_operation spec = ''move_to_wave'' \<and> dict_get (wave_of_vm (wave_membership p)) i = dest)) ids"

lemma wave_of_vm_None: "dict_get (wave_of_vm l) i = None \<longleftrightarrow> i \<notin> set (members l)"
  using dict_has_wave_of_vm [of l i] unfolding dict_has_def by (cases "dict_get (wave_of_vm l) i") simp_all

lemma moved_start:
  assumes shape: "edit_shape spec p target dest (map vm_id vms)"
    and before: "layout_of before (mp_id p) = wave_membership p" "layout_of before (mp_id target) = wave_membership target"
    and mv: "moved_layouts spec (mp_id p) (mp_id target) dest before vms = (lay, moves)"
  shows "moves_inv (wave_of_vm (wave_membership p)) (mp_id p) (mp_id target) dest before lay (map mv_vm_id moves)"
    and "map mv_vm_id moves = moved_ids_of spec p dest (map vm_id vms)"
    and "\<And>i k n. i \<notin> set (map mv_vm_id moves) \<Longrightarrow> at_wave (layout_of lay k) n i = at_wave (layout_of before k) n i"
    and "\<And>i d. i \<in> set (map mv_vm_id moves) \<Longrightarrow> dest = Some d \<Longrightarrow> at_wave (layout_of lay (mp_id target)) d i"
proof -
  let ?wof = "wave_of_vm (wave_membership p)"
  have fold: "fold (move_step spec (mp_id p) (mp_id target) dest ?wof) vms (before, []) = (lay, moves)"
    using mv by (simp add: moved_layouts_def before)
  have d: "distinct (map vm_id vms)" using shape by (simp add: edit_shape_def)
  have inv: "moves_inv ?wof (mp_id p) (mp_id target) dest before before (map mv_vm_id [])"
    by (simp add: moves_inv_def before taken_def given_def)
  have still: "still_at ?wof (layout_of before (mp_id p)) (vm_id v)" for v
    unfolding before by (rule still_at_start) simp
  have origin: "dict_get ?wof (vm_id v) \<noteq> None \<or> dest \<noteq> None" if "v \<in> set vms" for v
  proof (cases "es_operation spec = ''add''")
    case True
    then have "dest \<noteq> None" using shape by (auto simp: edit_shape_def)
    then show ?thesis ..
  next
    case False
    then have "vm_id v \<in> set (members (wave_membership p))" using shape that by (auto simp: edit_shape_def)
    then show ?thesis by (simp add: wave_of_vm_None)
  qed
  from fold_moves [OF d inv still origin fold]
  show "moves_inv ?wof (mp_id p) (mp_id target) dest before lay (map mv_vm_id moves)"
    and "map mv_vm_id moves = moved_ids_of spec p dest (map vm_id vms)"
    by (auto simp: moved_ids_of_def)
  have "set (map mv_vm_id []) \<inter> set (map vm_id vms) = {}" by simp
  note pos = fold_moves_at [OF d inv still origin this fold]
  show "\<And>i k n. i \<notin> set (map mv_vm_id moves) \<Longrightarrow> at_wave (layout_of lay k) n i = at_wave (layout_of before k) n i"
    and "\<And>i d. i \<in> set (map mv_vm_id moves) \<Longrightarrow> dest = Some d \<Longrightarrow> at_wave (layout_of lay (mp_id target)) d i"
    using pos by auto
qed

lemma moved_members:
  assumes shape: "edit_shape spec p target dest (map vm_id vms)" and apart: "plans_apart p target"
    and before: "layout_of before (mp_id p) = wave_membership p" "layout_of before (mp_id target) = wave_membership target"
    and mv: "moved_layouts spec (mp_id p) (mp_id target) dest before vms = (lay, moves)"
    and q: "q = p \<or> q = target"
  shows "distinct (map fst (layout_of lay (mp_id q)))"
    and "distinct (members (layout_of lay (mp_id q)))"
    and "set (members (layout_of lay (mp_id q))) =
      members_after (set (map mv_vm_id moves)) (mp_id q = mp_id target \<and> dest \<noteq> None) (set (members (wave_membership q)))"
    and "fst ` set (layout_of lay (mp_id q)) \<subseteq> fst ` set (wave_membership q) \<union>
      (if mp_id q = mp_id target then set_option dest else {})"
proof -
  note start = moved_start [OF shape before mv]
  let ?ids = "map mv_vm_id moves"
  let ?wof = "wave_of_vm (wave_membership p)"
  have d: "distinct ?ids" unfolding start(2) using shape by (simp add: edit_shape_def moved_ids_of_def)
  have sub: "set ?ids \<subseteq> vm_id ` set vms" unfolding start(2) by (auto simp: moved_ids_of_def)
  have pq: "mp_id q = mp_id p \<Longrightarrow> q = p" using q shape by (auto simp: edit_shape_def split: if_splits)
  have layout: "layout_of before (mp_id q) = wave_membership q" using q before by auto
  from start(1) q show "distinct (map fst (layout_of lay (mp_id q)))" by (auto simp: moves_inv_def)
  from start(1) q show "fst ` set (layout_of lay (mp_id q)) \<subseteq> fst ` set (wave_membership q) \<union>
      (if mp_id q = mp_id target then set_option dest else {})"
    by (auto simp: moves_inv_def before split: if_splits)
  have main: "distinct (members (layout_of lay (mp_id q))) \<and> set (members (layout_of lay (mp_id q))) =
      members_after (set ?ids) (mp_id q = mp_id target \<and> dest \<noteq> None) (set (members (wave_membership q)))"
  proof (cases "es_operation spec = ''add''")
    case True
    then have t: "target = p" "q = p" and disj: "set ?ids \<inter> set (members (wave_membership p)) = {}" and dest: "dest \<noteq> None"
      using shape sub q by (auto simp: edit_shape_def)
    have "taken ?wof ?ids = {#}" using disj by (auto simp: taken_def wave_of_vm_None filter_empty_conv)
    then have "mset (members (layout_of lay (mp_id p))) = mset (members (wave_membership p)) + mset ?ids"
      using start(1) t dest by (simp add: moves_inv_def before given_def)
    from mset_sum_set [OF this _ d] apart disj t dest show ?thesis
      by (auto simp: plans_apart_def members_after_def)
  next
    case False
    then have sub': "set ?ids \<subseteq> set (members (wave_membership p))"
      using shape sub by (auto simp: edit_shape_def)
    then have taken: "taken ?wof ?ids = mset ?ids"
      unfolding taken_def by (intro arg_cong [where f = mset] filter_True) (auto simp: wave_of_vm_None)
    show ?thesis
    proof (cases "target = p")
      case same: True
      then have qp: "q = p" using q by simp
      show ?thesis
      proof (cases dest)
        case None
        then have "mset (members (layout_of lay (mp_id p))) + mset ?ids = mset (members (wave_membership p))"
          using start(1) same taken by (simp add: moves_inv_def before given_def)
        from mset_diff_set [OF this] apart qp None show ?thesis by (auto simp: plans_apart_def members_after_def)
      next
        case (Some d')
        then have eq: "mset (members (layout_of lay (mp_id p))) = mset (members (wave_membership p))"
          using start(1) same taken by (simp add: moves_inv_def before given_def)
        from mset_eq_imp_distinct_iff [OF eq] mset_eq_setD [OF eq] apart qp Some same sub' show ?thesis
          by (auto simp: plans_apart_def members_after_def)
      qed
    next
      case other: False
      then have ne: "mp_id p \<noteq> mp_id target" and dest: "dest \<noteq> None"
        using shape by (auto simp: edit_shape_def split: if_splits)
      show ?thesis
      proof (cases "q = p")
        case True
        have "mset (members (layout_of lay (mp_id p))) + mset ?ids = mset (members (wave_membership p))"
          using start(1) ne taken by (simp add: moves_inv_def before)
        from mset_diff_set [OF this] apart ne True show ?thesis by (auto simp: plans_apart_def members_after_def)
      next
        case False
        then have qt: "q = target" using q by simp
        have sum: "mset (members (layout_of lay (mp_id target))) = mset (members (wave_membership target)) + mset ?ids"
          using start(1) ne dest by (simp add: moves_inv_def before given_def)
        have disj: "set (members (wave_membership target)) \<inter> set ?ids = {}"
          using sub' apart ne unfolding plans_apart_def by blast
        have "distinct (members (wave_membership target))" using apart by (simp add: plans_apart_def)
        note res = mset_sum_set [OF sum this d disj]
        have "set (members (wave_membership target)) - set ?ids = set (members (wave_membership target))"
          using disj by blast
        then show ?thesis
          unfolding qt res(2) members_after_def using res(1) dest by simp
      qed
    qed
  qed
  then show "distinct (members (layout_of lay (mp_id q)))"
    and "set (members (layout_of lay (mp_id q))) =
      members_after (set ?ids) (mp_id q = mp_id target \<and> dest \<noteq> None) (set (members (wave_membership q)))"
    by blast+
qed


section \<open>A prepared edit\<close>

text \<open>The change of one plan, rebuilt from its layout after the moves.\<close>

definition change_for :: "app_db \<Rightarrow> (int \<times> layout) list \<Rightarrow> migration_plan \<Rightarrow> plan_change \<Rightarrow> bool" where
  "change_for db lay q c \<longleftrightarrow>
     (\<exists>env spec names. change_ok (rebuild_context_for env db spec names q (wave_membership q)
       (drop_empty (layout_of lay (mp_id q)))) c)"

lemma change_for_ex:
  assumes "distinct (map fst (layout_of lay (mp_id q)))" and "distinct (members (layout_of lay (mp_id q)))"
  shows "\<exists>c vs. rebuild_plan (rebuild_context_for env db spec names q (wave_membership q)
      (drop_empty (layout_of lay (mp_id q)))) removed names' vcs = Inr (c, vs) \<and> change_for db lay q c"
proof -
  let ?rx = "rebuild_context_for env db spec names q (wave_membership q) (drop_empty (layout_of lay (mp_id q)))"
  have "rx_ok ?rx" by (rule rebuild_context_ok) (use assms in \<open>simp_all add: distinct_drop_empty\<close>)
  from rebuild_plan_result [OF this] show ?thesis unfolding change_for_def by blast
qed

lemma rebuild_plans_ok:
  assumes "\<forall>q\<in>set ps. \<exists>c vs. f q = Inr (c, vs) \<and> P q c"
  shows "\<exists>cs ws. rebuild_plans f ps = Inr (cs, ws) \<and> list_all2 (\<lambda>q c. fst c = mp_id q \<and> P q (snd c)) ps cs"
  using assms
proof (induction ps)
  case (Cons p ps)
  then obtain c vs where "f p = Inr (c, vs)" "P p c" by auto
  moreover from Cons obtain cs ws where "rebuild_plans f ps = Inr (cs, ws)"
      "list_all2 (\<lambda>q c. fst c = mp_id q \<and> P q (snd c)) ps cs" by auto
  ultimately show ?case by simp
qed simp

definition plans_of :: "migration_plan \<Rightarrow> migration_plan \<Rightarrow> migration_plan list" where
  "plans_of p target = (if mp_id target = mp_id p then [p] else [p, target])"

definition layouts_before :: "migration_plan \<Rightarrow> migration_plan \<Rightarrow> (int \<times> layout) list" where
  "layouts_before p target = map (\<lambda>q. (mp_id q, wave_membership q)) (plans_of p target)"

lemma layouts_before_at:
  "edit_shape spec p target dest ids \<Longrightarrow> layout_of (layouts_before p target) (mp_id p) = wave_membership p"
  "edit_shape spec p target dest ids \<Longrightarrow> layout_of (layouts_before p target) (mp_id target) = wave_membership target"
  by (auto simp: layouts_before_def plans_of_def dict_get_or_def edit_shape_def split: if_splits)

lemma plans_of_mem: "q \<in> set (plans_of p target) \<Longrightarrow> q = p \<or> q = target"
  by (auto simp: plans_of_def split: if_splits)

text \<open>The outcome of \<open>prepare_on\<close>: no change, a blocked edit, or the changes of all plans.\<close>

definition prepared :: "app_db \<Rightarrow> edit_spec \<Rightarrow> migration_plan \<Rightarrow> migration_plan \<Rightarrow> nat option \<Rightarrow> vm list \<Rightarrow> prepared_edit \<Rightarrow> bool" where
  "prepared db spec p target dest vms pe \<longleftrightarrow>
     pp_spec pe = spec \<and> pp_source pe = p \<and> pp_target pe = target \<and>
     (\<exists>lay. moved_layouts spec (mp_id p) (mp_id target) dest (layouts_before p target) vms = (lay, pp_moves pe) \<and>
       pp_moves pe \<noteq> [] \<and>
       (pp_blocking pe = [] \<longrightarrow>
         drop_empty (layout_of lay (mp_id p)) \<noteq> [] \<and>
         list_all2 (\<lambda>q c. fst c = mp_id q \<and> change_for db lay q (snd c)) (plans_of p target) (pp_changes pe) \<and>
         (es_operation spec \<in> set [''move_to_plan'', ''add''] \<longrightarrow>
           filter (\<lambda>v. v_severity v = BLOCKING) (target_violations db spec p target
             (filter (\<lambda>v. vm_id v \<in> mv_vm_id ` set (pp_moves pe)) vms)) = [])))"

lemma prepare_on_outcome:
  assumes shape: "edit_shape spec p target dest (map vm_id vms)" and apart: "plans_apart p target"
  shows "(case prepare_on env db p target spec vms dest of
      Inl e \<Rightarrow> e = Plan_edit_error 422 ''no_change'' []
    | Inr pe \<Rightarrow> prepared db spec p target dest vms pe)"
proof -
  obtain lay moves where mv: "moved_layouts spec (mp_id p) (mp_id target) dest (layouts_before p target) vms = (lay, moves)"
    by fastforce
  note before = layouts_before_at [OF shape]
  note res = moved_members [OF shape apart before mv]
  note start = moved_start [OF shape before mv]
  let ?before = "\<lambda>q. layout_of (layouts_before p target) (mp_id q)"
  have bef: "?before q = wave_membership q" if "q \<in> set (plans_of p target)" for q
    using plans_of_mem [OF that] before by auto
  have target: "drop_empty (layout_of lay (mp_id target)) \<noteq> []" if "drop_empty (layout_of lay (mp_id p)) \<noteq> []" "moves \<noteq> []"
  proof (cases "target = p")
    case False
    then obtain d where d: "dest = Some d" using shape by (auto simp: edit_shape_def split: if_splits)
    from that(2) obtain m where "m \<in> set moves" by (cases moves) auto
    then have "at_wave (layout_of lay (mp_id target)) d (mv_vm_id m)" by (intro start(4) [OF _ d]) simp
    then show ?thesis
      using res(1) [of target] by (fastforce simp: at_wave_def drop_empty_def filter_empty_conv dict_get_eq_map_of
          dest: map_of_SomeD)
  qed (use that in simp)
  have rebuilt: "\<exists>c vs. rebuild_plan (rebuild_context_for env db spec names q (?before q)
      (drop_empty (layout_of lay (mp_id q)))) removed names vcs = Inr (c, vs) \<and> change_for db lay q c"
    if "q \<in> set (plans_of p target)" for q names removed vcs
    unfolding bef [OF that] by (rule change_for_ex) (rule res(1,2) [OF plans_of_mem [OF that]])+
  let ?after = "\<lambda>q. drop_empty (layout_of lay (mp_id q))"
  let ?vms = "filter (\<lambda>v. vm_id v \<in> mv_vm_id ` set moves) vms"
  define ids where "ids = concat (map (concat \<circ> map snd \<circ> ?before) (plans_of p target)) @ map vm_id vms"
  define names where "names = edit_names db (plans_of p target) ids"
  define vcs where "vcs = dict_of vm_id vm_source_vcenter_id (select_vms (ad_vms db) ids)"
  define vs where "vs = (if ?after p = [] then [plain_violation ''would_empty_plan'' BLOCKING (mp_id p) None [] None None] else []) @
      concat (map (\<lambda>q. run_violations db (mp_id q) (existing_touched (?before q) (layout_of lay (mp_id q)))) (plans_of p target)) @
      (if es_operation spec \<in> set [''move_to_plan'', ''add'']
       then target_violations db spec p target ?vms @ plan_size_violations env target (?after target) else []) @
      concat (map (\<lambda>q. introduced_violations names (?before q) (?after q) (mp_id q)) (plans_of p target)) @
      baseline_violations db target (?before target) dest ?vms"
  define rebuild where "rebuild = (\<lambda>q. rebuild_plan (rebuild_context_for env db spec names q (?before q) (?after q))
      (removed_waves (layout_of lay (mp_id q))) names vcs)"
  have eq: "prepare_on env db p target spec vms dest =
      (if moves = [] then Inl (Plan_edit_error 422 ''no_change'' [])
       else if list_ex (\<lambda>v. v_severity v = BLOCKING) vs
         then Inr \<lparr>pp_spec = spec, pp_source = p, pp_target = target, pp_violations = vs, pp_moves = moves, pp_changes = []\<rparr>
       else (case rebuild_plans rebuild (filter (\<lambda>q. ?after q \<noteq> []) (plans_of p target)) of
             Inl e \<Rightarrow> Inl e
           | Inr (changes, extra) \<Rightarrow> Inr \<lparr>pp_spec = spec, pp_source = p, pp_target = target,
                  pp_violations = vs @ extra, pp_moves = moves, pp_changes = changes\<rparr>))"
    unfolding prepare_on_def Let_def plans_of_def [symmetric] layouts_before_def [symmetric] mv prod.case
      vs_def rebuild_def names_def vcs_def ids_def by (rule refl)
  show ?thesis
  proof (cases "moves = [] \<or> list_ex (\<lambda>v. v_severity v = BLOCKING) vs")
    case True
    then show ?thesis
      unfolding eq using mv
      by (auto simp: prepared_def pp_blocking_def list_ex_iff filter_empty_conv)
  next
    case False
    then have after: "?after p \<noteq> []" and tv: "es_operation spec \<in> set [''move_to_plan'', ''add''] \<longrightarrow>
        filter (\<lambda>v. v_severity v = BLOCKING) (target_violations db spec p target ?vms) = []"
      by (auto simp: vs_def plain_violation_def list_ex_iff filter_empty_conv split: if_splits)
    with False target have "filter (\<lambda>q. ?after q \<noteq> []) (plans_of p target) = plans_of p target"
      by (intro filter_True) (auto dest: plans_of_mem)
    moreover have "\<forall>q\<in>set (plans_of p target). \<exists>c vs. rebuild q = Inr (c, vs) \<and> change_for db lay q c"
      unfolding rebuild_def using rebuilt by blast
    then obtain cs ws where "rebuild_plans rebuild (plans_of p target) = Inr (cs, ws)"
        "list_all2 (\<lambda>q c. fst c = mp_id q \<and> change_for db lay q (snd c)) (plans_of p target) cs"
      using rebuild_plans_ok by blast
    ultimately show ?thesis
      unfolding eq using False after tv mv by (simp add: prepared_def)
  qed
qed


section \<open>What a change holds\<close>

lemma change_facts:
  assumes c: "change_for db lay q c" and lay: "distinct (map fst (layout_of lay (mp_id q)))"
  shows "ch_plan_id c = mp_id q" and "ch_vm_ids c = concat (map wd_vm_ids (ch_waves c))" and "distinct (ch_vm_ids c)"
    and "distinct (map wd_wave_number (ch_waves c))"
    and "set (map wd_wave_number (ch_waves c)) \<subseteq> fst ` set (drop_empty (layout_of lay (mp_id q)))"
    and "set (members (layout_of lay (mp_id q))) \<inter> row_ids (ad_session db) \<subseteq> set (ch_vm_ids c)"
    and "set (ch_vm_ids c) \<subseteq> set (members (layout_of lay (mp_id q)))"
    and "set (ch_created_waves c) \<subseteq> {n \<in> fst ` set (layout_of lay (mp_id q)). \<not> dict_has (wave_membership q) n}"
    and "ch_wave_number_seq c = max_of (seq_or_zero q # map fst (dict_of wd_wave_number id (mp_waves q)) @
      map fst (drop_empty (layout_of lay (mp_id q))))"
    and "at_wave (layout_of lay (mp_id q)) n i \<Longrightarrow> i \<in> row_ids (ad_session db) \<Longrightarrow> in_wave (ch_waves c) n i"
proof -
  let ?l = "layout_of lay (mp_id q)"
  obtain env spec names where
      ok: "change_ok (rebuild_context_for env db spec names q (wave_membership q) (drop_empty ?l)) c"
    using c unfolding change_for_def by blast
  let ?rx = "rebuild_context_for env db spec names q (wave_membership q) (drop_empty ?l)"
  have dl: "distinct (map fst (drop_empty ?l))" by (rule distinct_drop_empty [OF lay])
  have sub: "fst ` set (drop_empty ?l) \<subseteq> fst ` set ?l" by (auto simp: drop_empty_def)
  from ok show "ch_plan_id c = mp_id q" "ch_vm_ids c = concat (map wd_vm_ids (ch_waves c))" "distinct (ch_vm_ids c)"
      "distinct (map wd_wave_number (ch_waves c))"
      "ch_wave_number_seq c = max_of (seq_or_zero q # map fst (dict_of wd_wave_number id (mp_waves q)) @ map fst (drop_empty ?l))"
    unfolding change_ok_def rx_simps by blast+
  from ok show "set (map wd_wave_number (ch_waves c)) \<subseteq> fst ` set (drop_empty ?l)"
    unfolding change_ok_def rx_simps by blast
  from ok have "set (ch_created_waves c) \<subseteq> set (created_waves (wave_membership q) (drop_empty ?l))"
    by (simp add: change_ok_def)
  with sub show "set (ch_created_waves c) \<subseteq> {n \<in> fst ` set ?l. \<not> dict_has (wave_membership q) n}"
    by (auto simp: created_waves_def)
  from ok have m: "mset (ch_vm_ids c) = mset (kept_members ?rx)" unfolding change_ok_def by blast
  note k = kept_members_set [OF dl, where before = "wave_membership q" and env = env and db = db and spec = spec
      and names = names and p = q, folded mset_eq_setD [OF m], unfolded members_drop_empty]
  show "set (members ?l) \<inter> row_ids (ad_session db) \<subseteq> set (ch_vm_ids c)" "set (ch_vm_ids c) \<subseteq> set (members ?l)"
    using k by (simp_all only: row_ids_def)
  show "in_wave (ch_waves c) n i" if at: "at_wave ?l n i" and i: "i \<in> row_ids (ad_session db)"
  proof -
    from at obtain ids where "dict_get (drop_empty ?l) n = Some ids" "i \<in> set ids"
      using at_wave_drop_empty [OF lay, of n i] unfolding at_wave_def by blast
    then have mem: "(n, ids) \<in> set (drop_empty ?l)" and get: "dict_get_or (drop_empty ?l) n [] = ids"
      using dl by (auto simp: dict_get_eq_map_of dict_get_or_def)
    have "i \<in> set (kept_ids ?rx n ids)"
      using kept_ids_for [OF dl mem] i \<open>i \<in> set ids\<close> by (auto simp: row_ids_def)
    moreover have "n \<in> fst ` set (rx_after ?rx)" using mem by force
    ultimately show ?thesis using ok get by (simp add: change_ok_def)
  qed
qed

section \<open>A committed edit\<close>

lemma open_complete: "mp_status p = ''complete'' \<Longrightarrow> open_plan p"
  by (simp add: open_plan_def)

lemma consistent_members:
  assumes "consistent db" and "p \<in> set (ad_plans db)" and "mp_status p = ''complete''"
  shows "distinct (members (wave_membership p))" and "set (members (wave_membership p)) = set (mp_vm_ids p)"
proof -
  have "whole p" using assms by (auto simp: consistent_def list_all_iff)
  note eq = whole_members [OF this assms(3)]
  obtain xs ys where "ad_plans db = xs @ p # ys" using assms(2) by (auto simp: in_set_conv_decomp)
  then have "distinct (mp_vm_ids p)" using assms open_complete by (simp add: consistent_def held_def)
  then show "distinct (members (wave_membership p))" using mset_eq_imp_distinct_iff [OF eq] by simp
  show "set (members (wave_membership p)) = set (mp_vm_ids p)" using eq by (rule mset_eq_setD)
qed

lemma consistent_apart:
  assumes db: "consistent db" and p: "get_plan db (mp_id p) = Some p" "mp_status p = ''complete''"
    and t: "get_plan db (mp_id target) = Some target" "mp_status target = ''complete''"
  shows "plans_apart p target"
proof -
  have mem: "p \<in> set (ad_plans db)" "target \<in> set (ad_plans db)" using p t by (auto dest: get_plan_Some)
  have "set (mp_vm_ids p) \<inter> set (mp_vm_ids target) = {}" if "mp_id p \<noteq> mp_id target"
  proof -
    obtain xs ys where split: "ad_plans db = xs @ p # ys" using mem(1) by (auto simp: in_set_conv_decomp)
    have "target \<in> set xs \<union> set ys" using mem(2) that split by auto
    then have "set (mp_vm_ids target) \<subseteq> set (held_of xs) \<union> set (held_of ys)"
      using open_complete [OF t(2)] by (auto simp: held_of_def)
    then show ?thesis using db split open_complete [OF p(2)] by (auto simp: consistent_def held_def)
  qed
  then show ?thesis
    using consistent_members [OF db mem(1) p(2)] consistent_members [OF db mem(2) t(2)]
    by (simp add: plans_apart_def del: set_concat)
qed

text \<open>The request as \<open>edit_plan\<close> passes it on.\<close>

definition spec_of :: "edit_spec \<Rightarrow> edit_spec" where
  "spec_of request = request\<lparr>es_note := none_if_empty (Some (str_strip (or_empty (es_note request))))\<rparr>"

lemma spec_of_fields [simp]:
  "es_operation (spec_of r) = es_operation r" "es_vm_ids (spec_of r) = es_vm_ids r"
  "es_new_wave (spec_of r) = es_new_wave r" "es_target_wave (spec_of r) = es_target_wave r"
  "es_target_plan_id (spec_of r) = es_target_plan_id r"
  by (simp_all add: spec_of_def)

definition edit_facts ::
  "app_db \<Rightarrow> int \<Rightarrow> edit_spec \<Rightarrow> migration_plan \<Rightarrow> migration_plan \<Rightarrow> nat option \<Rightarrow> vm list \<Rightarrow> prepared_edit \<Rightarrow> bool" where
  "edit_facts db pid spec p target dest vms pe \<longleftrightarrow>
     get_plan db pid = Some p \<and> get_plan db (mp_id target) = Some target \<and> mp_id p = pid \<and>
     edit_shape spec p target dest (map vm_id vms) \<and> set vms \<subseteq> set (ad_vms db) \<and>
     map vm_id vms = unique_in_order (es_vm_ids spec) \<and> plans_apart p target \<and> prepared db spec p target dest vms pe"

lemma ready_apart:
  assumes db: "consistent db" and p: "get_plan db pid = Some p" and r: "edit_ready db spec p target dest vms"
  shows "get_plan db (mp_id target) = Some target \<and> plans_apart p target"
proof -
  have pid: "mp_id p = pid" using get_plan_Some [OF p] by simp
  have shape: "edit_shape spec p target dest (map vm_id vms)" using r unfolding edit_ready_def by blast
  have t: "get_plan db (mp_id target) = Some target"
    using shape r p pid by (auto simp: edit_shape_def edit_ready_def split: if_splits)
  have "plans_apart p target"
    by (rule consistent_apart [OF db]) (use p pid t shape in \<open>simp_all add: edit_shape_def\<close>)
  with t show ?thesis by blast
qed

lemma prepare_facts:
  assumes db: "consistent db" and p: "get_plan db pid = Some p" and prep: "prepare env db p spec = Inr pe"
  shows "\<exists>target dest vms. edit_facts db pid spec p target dest vms pe"
proof -
  have pid: "mp_id p = pid" using get_plan_Some [OF p] by simp
  obtain target dest vms where r: "edit_ready db spec p target dest vms" and on: "prepare_on env db p target spec vms dest = Inr pe"
    using prepare_cases [of env db p spec] prep by auto
  from r have shape: "edit_shape spec p target dest (map vm_id vms)" unfolding edit_ready_def by blast
  note t = ready_apart [OF db p r]
  have "prepared db spec p target dest vms pe"
    using prepare_on_outcome [OF shape t [THEN conjunct2], where env = env and db = db] on by simp
  with r t p pid show ?thesis unfolding edit_facts_def edit_ready_def by blast
qed

lemma prepare_error:
  assumes db: "consistent db" and p: "get_plan db pid = Some p" and prep: "prepare env db p spec = Inl e"
  shows "request_error e"
  using prepare_cases [of env db p spec]
proof (elim disjE exE conjE)
  fix target dest vms
  assume r: "edit_ready db spec p target dest vms" and on: "prepare env db p spec = prepare_on env db p target spec vms dest"
  from r have shape: "edit_shape spec p target dest (map vm_id vms)" unfolding edit_ready_def by blast
  from on prep have "prepare_on env db p target spec vms dest = Inl e" by simp
  with prepare_on_outcome [OF shape ready_apart [OF db p r, THEN conjunct2], where env = env and db = db]
  show ?thesis by simp
qed (use prep in simp)

lemma edit_committed:
  assumes db: "consistent db" and ed: "edit_plan env pid request False confirm db = (db', Inr pe)"
  shows "\<exists>p target dest vms. edit_facts db pid (spec_of request) p target dest vms pe \<and> pp_blocking pe = [] \<and>
    apply_edit env pe db = Inr db'"
proof -
  from ed obtain p where p: "get_plan db pid = Some p"
    by (auto simp: edit_plan_def Let_def split: option.splits)
  with ed obtain pe' where prep: "prepare env db p (spec_of request) = Inr pe'"
    by (auto simp: edit_plan_def Let_def spec_of_def split: sum.splits)
  with p ed have "pe' = pe" "pp_blocking pe = []" "apply_edit env pe db = Inr db'"
    by (auto simp: edit_plan_def Let_def spec_of_def split: sum.splits if_splits)
  with prepare_facts [OF db p prep] show ?thesis by blast
qed


section \<open>An edit keeps the tables consistent\<close>

lemma edit_lifecycle_Inr:
  assumes "edit_lifecycle env pe s = (s', Inr u)" and "ids = map mv_vm_id (pp_moves pe)" and "wf_session s"
    and "op = es_operation (pp_spec pe)"
  shows "wf_session s'" and "row_ids s' = row_ids s"
    and "planned_vms s' = (if op = ''add'' then planned_vms s \<union> set ids
      else if op = ''remove'' then planned_vms s - set ids else planned_vms s)"
    and "op = ''add'' \<Longrightarrow> set ids \<subseteq> row_ids s \<and> set ids \<inter> planned_vms s = {}"
proof -
  let ?env = "ee_service env"
  have "wf_session s' \<and> row_ids s' = row_ids s \<and>
      planned_vms s' = (if op = ''add'' then planned_vms s \<union> set ids
        else if op = ''remove'' then planned_vms s - set ids else planned_vms s) \<and>
      (op = ''add'' \<longrightarrow> set ids \<subseteq> row_ids s \<and> set ids \<inter> planned_vms s = {})"
  proof (cases "op = ''add''")
    case True
    with assms obtain r where tr: "transition_to_planned (sv_now ?env) ids (mp_id (pp_target pe)) (sv_actor ?env) ''plan.edit.add'' s = (s', Inr r)"
      by (cases "transition_to_planned (sv_now ?env) ids (mp_id (pp_target pe)) (sv_actor ?env) ''plan.edit.add'' s")
        (auto simp: edit_lifecycle_def Let_def map_sum_def split: sum.splits)
    have "wf_session s'" using effect_wf [OF planned_effect [OF assms(3)] assms(3)] tr by (metis fst_conv)
    with to_planned_Inr [OF tr] True show ?thesis by simp
  next
    case add: False
    show ?thesis
    proof (cases "op = ''remove''")
      case True
      with add assms have s': "s' = fst (release_planned_to_available (sv_now ?env) (mp_id (pp_source pe)) ids (sv_actor ?env) ''plan.edit.remove'' s)"
        by (auto simp: edit_lifecycle_def Let_def transition_to_available_from_plan_edit_def map_prod_def split: prod.splits)
      show ?thesis using True add by (simp add: s' release_planned_vms wf_release [OF assms(3)])
    next
      case False
      have "s' = s \<or> s' = fst (record_plan_reassignment ids (mp_id (pp_source pe)) (mp_id (pp_target pe)) (sv_actor ?env) s)"
        using assms add False by (auto simp: edit_lifecycle_def Let_def split: if_splits dest: arg_cong [where f = fst])
      then have "s_vms s' = s_vms s" using reassign_vms by auto
      then show ?thesis using assms(3) add False by (simp add: wf_session_def planned_vms_def row_ids_def)
    qed
  qed
  then show "wf_session s'" "row_ids s' = row_ids s"
    "planned_vms s' = (if op = ''add'' then planned_vms s \<union> set ids
      else if op = ''remove'' then planned_vms s - set ids else planned_vms s)"
    "op = ''add'' \<Longrightarrow> set ids \<subseteq> row_ids s \<and> set ids \<inter> planned_vms s = {}" by blast+
qed

lemma audit_changes:
  "ad_plans (fold (audit_change env pe) cs db) = ad_plans db"
  "consistent (fold (audit_change env pe) cs db) = consistent db"
  by (induction cs arbitrary: db) (simp_all add: audit_change_def Let_def)

definition stored :: "prepared_edit \<Rightarrow> session \<Rightarrow> app_db \<Rightarrow> app_db" where
  "stored pe s db = fold (\<lambda>(pid, c). update_plan pid (store_change c)) (pp_changes pe) (db\<lparr>ad_session := s\<rparr>)"

lemma apply_edit_Inr:
  assumes "apply_edit env pe db = Inr db'"
  shows "\<exists>s' u. edit_lifecycle env pe (ad_session db) = (s', Inr u) \<and> ad_plans db' = ad_plans (stored pe s' db) \<and>
    (consistent db' \<longleftrightarrow> consistent (stored pe s' db))"
proof -
  obtain s' r where life: "edit_lifecycle env pe (ad_session db) = (s', r)" by fastforce
  with assms obtain u where "r = Inr u"
    by (auto simp: apply_edit_def in_session_def split: sum.splits if_splits)
  with life assms show ?thesis
    by (auto simp: apply_edit_def in_session_def stored_def Let_def audit_changes split: if_splits)
qed

lemma update_planned:
  assumes "consistent db" and "ad_plans db = xs @ p # ys" and "open_plan p" and "D = set (mp_vm_ids p)"
    and "R = row_ids (ad_session db)"
  shows "R \<inter> D \<subseteq> planned_vms (ad_session db)" and "planned_vms (ad_session db) \<subseteq> R"
    and "D \<inter> (set (held_of xs) \<union> set (held_of ys)) = {}"
    and "planned_vms (ad_session db) = R \<inter> (D \<union> set (held_of xs) \<union> set (held_of ys))"
  using assms by (auto simp: consistent_def held_def)


lemma edit_members:
  assumes f: "edit_facts db pid spec p target dest vms pe" and ids: "ids = map mv_vm_id (pp_moves pe)"
    and mv: "moved_layouts spec (mp_id p) (mp_id target) dest (layouts_before p target) vms = (lay, pp_moves pe)"
  shows "set ids \<subseteq> row_ids (ad_session db)" and "distinct ids" and "ids = moved_ids_of spec p dest (map vm_id vms)"
    and "set ids \<subseteq> set (es_vm_ids spec)"
    and "es_operation spec \<noteq> ''add'' \<Longrightarrow> set ids \<subseteq> set (members (wave_membership p))"
    and "es_operation spec = ''add'' \<Longrightarrow> set ids \<inter> set (members (wave_membership p)) = {}"
proof -
  have shape: "edit_shape spec p target dest (map vm_id vms)" using f unfolding edit_facts_def by blast
  note start = moved_start [OF shape layouts_before_at [OF shape] mv]
  show eq: "ids = moved_ids_of spec p dest (map vm_id vms)" using start(2) ids by simp
  then have sub: "set ids \<subseteq> set (map vm_id vms)" by (auto simp: moved_ids_of_def)
  moreover have "set (map vm_id vms) \<subseteq> row_ids (ad_session db)"
  proof -
    have "set vms \<subseteq> set (ad_vms db)" using f unfolding edit_facts_def by blast
    then show ?thesis unfolding row_ids_def set_map by (rule image_mono)
  qed
  ultimately show "set ids \<subseteq> row_ids (ad_session db)" by blast
  show "distinct ids" unfolding eq using shape by (simp add: edit_shape_def moved_ids_of_def)
  have "map vm_id vms = unique_in_order (es_vm_ids spec)" using f unfolding edit_facts_def by blast
  then have "set (map vm_id vms) = set (es_vm_ids spec)" by (simp only: set_unique_in_order)
  with sub show "set ids \<subseteq> set (es_vm_ids spec)" by blast
  show "es_operation spec \<noteq> ''add'' \<Longrightarrow> set ids \<subseteq> set (members (wave_membership p))"
    using shape sub unfolding edit_shape_def by (simp only: if_False) blast
  show "es_operation spec = ''add'' \<Longrightarrow> set ids \<inter> set (members (wave_membership p)) = {}"
    using shape sub unfolding edit_shape_def by (auto simp del: set_map)
qed

lemma store_change_fields [simp]:
  "mp_id (store_change c p) = mp_id p" "mp_vm_ids (store_change c p) = ch_vm_ids c"
  "mp_waves (store_change c p) = ch_waves c" "mp_status (store_change c p) = mp_status p"
  "mp_wave_number_seq (store_change c p) = Some (ch_wave_number_seq c)"
  "open_plan (store_change c p) = open_plan p"
  by (simp_all add: store_change_def open_plan_def)

lemma whole_store_change:
  "distinct (map wd_wave_number (ch_waves c)) \<Longrightarrow> ch_vm_ids c = concat (map wd_vm_ids (ch_waves c)) \<Longrightarrow>
    whole (store_change c p)"
  by (simp add: whole_def)

text \<open>One plan of an edit is stored and its planned machines follow.\<close>

lemma store_one:
  assumes db: "consistent db" and get: "get_plan db (mp_id q) = Some q" and status: "mp_status q = ''complete''"
    and c: "change_for db0 lay q c" and rows0: "row_ids (ad_session db0) = row_ids (ad_session db)"
    and lay: "distinct (map fst (layout_of lay (mp_id q)))"
    and mem: "set (members (layout_of lay (mp_id q))) = members_after I joins (set (mp_vm_ids q))"
    and I: "I \<subseteq> row_ids (ad_session db)" "I \<inter> set (held db) \<subseteq> set (mp_vm_ids q)"
    and s': "wf_session s'" "row_ids s' = row_ids (ad_session db)"
      "planned_vms s' = (planned_vms (ad_session db) - I) \<union> (if joins then I else {})"
  shows "consistent (update_plan (mp_id q) (store_change c) (db\<lparr>ad_session := s'\<rparr>))"
proof -
  have wf: "wf_app db" using db by (simp add: consistent_def)
  obtain xs ys where split: "ad_plans db = xs @ q # ys" "mp_id q = mp_id q"
      "mp_id q \<notin> mp_id ` set xs" "mp_id q \<notin> mp_id ` set ys"
    using get wf by (rule get_plan_split)
  note open_q = open_complete [OF status]
  note facts = change_facts [OF c lay, unfolded rows0]
  let ?R = "row_ids (ad_session db)"
  note planned = update_planned [OF db split(1) open_q refl refl]
  have held: "set (held db) = set (mp_vm_ids q) \<union> set (held_of xs) \<union> set (held_of ys)"
    using split(1) open_q by (auto simp: held_def)
  have sub: "set (ch_vm_ids c) \<subseteq> set (mp_vm_ids q) \<union> I" using facts(7) mem by (auto simp: members_after_def split: if_splits)
  have rows: "?R \<inter> set (ch_vm_ids c) = ?R \<inter> members_after I joins (set (mp_vm_ids q))"
    using facts(6,7) mem by blast
  let ?db = "update_plan (mp_id q) (store_change c) (db\<lparr>ad_session := s'\<rparr>)"
  show ?thesis
  proof (rule consistent_replace [OF db split(1) open_q, where q = "store_change c q"])
    show "ad_plans ?db = xs @ store_change c q # ys"
      by (rule update_split) (use split in simp_all)
    show "set (mp_vm_ids (store_change c q)) \<inter> (set (held_of xs) \<union> set (held_of ys)) = {}"
      using sub planned(3) I(2) held by (simp only: store_change_fields) blast
    show "planned_vms (ad_session ?db) =
        (planned_vms (ad_session db) - set (mp_vm_ids q)) \<union> (?R \<inter> set (mp_vm_ids (store_change c q)))"
    proof -
      have "I \<inter> planned_vms (ad_session db) \<subseteq> set (mp_vm_ids q)" using planned(4) I(2) held by blast
      then have "(planned_vms (ad_session db) - I) \<union> (if joins then I else {}) =
          (planned_vms (ad_session db) - set (mp_vm_ids q)) \<union> (?R \<inter> members_after I joins (set (mp_vm_ids q)))"
        using planned(1,2) I(1) unfolding members_after_def by (cases joins) auto
      then show ?thesis by (simp add: rows s'(3))
    qed
  qed (use facts(3,4) open_q s' wf in \<open>simp_all add: whole_store_change [OF facts(4,2)] wf_app_def\<close>)
qed


lemma get_plan_store:
  assumes "get_plan db qid = Some q" and "qid \<noteq> pid"
  shows "get_plan (update_plan pid (store_change c) (db\<lparr>ad_session := s\<rparr>)) qid = Some q"
proof -
  have "List.find (\<lambda>p. mp_id p = qid) (map (\<lambda>p. if mp_id p = pid then store_change c p else p) ps) =
      List.find (\<lambda>p. mp_id p = qid) ps" for ps
    using assms(2) by (induction ps) auto
  then show ?thesis using assms(1) by (simp add: get_plan_def update_plan_def)
qed

lemma get_plan_stored:
  assumes "get_plan db pid = Some p"
  shows "get_plan (update_plan pid (store_change c) db) pid = Some (store_change c p)"
proof -
  have "List.find (\<lambda>p. mp_id p = pid) (map (\<lambda>p. if mp_id p = pid then store_change c p else p) ps) = Some (store_change c p)"
    if "List.find (\<lambda>p. mp_id p = pid) ps = Some p" for ps
    using that by (induction ps) (auto split: if_splits)
  then show ?thesis using assms by (simp add: get_plan_def update_plan_def)
qed

lemma held_store:
  assumes "consistent db" and "get_plan db (mp_id q) = Some q" and "open_plan q"
  shows "set (held (update_plan (mp_id q) (store_change c) (db\<lparr>ad_session := s\<rparr>))) =
    (set (held db) - set (mp_vm_ids q)) \<union> set (ch_vm_ids c)"
proof -
  have wf: "wf_app db" using assms(1) by (simp add: consistent_def)
  obtain xs ys where split: "ad_plans db = xs @ q # ys" "mp_id q = mp_id q"
      "mp_id q \<notin> mp_id ` set xs" "mp_id q \<notin> mp_id ` set ys"
    using assms(2) wf by (rule get_plan_split)
  have "ad_plans (update_plan (mp_id q) (store_change c) (db\<lparr>ad_session := s\<rparr>)) = xs @ store_change c q # ys"
    by (rule update_split) (use split in simp_all)
  moreover note update_planned(3) [OF assms(1) split(1) assms(3) refl refl]
  ultimately show ?thesis using split(1) assms(3) by (auto simp: held_def)
qed

lemma stored_consistent:
  assumes db: "consistent db" and f: "edit_facts db pid spec p target dest vms pe" and nb: "pp_blocking pe = []"
    and life: "edit_lifecycle env pe (ad_session db) = (s', Inr u)"
  shows "consistent (stored pe s' db)"
proof -
  let ?ids = "map mv_vm_id (pp_moves pe)"
  let ?I = "set ?ids"
  let ?op = "es_operation spec"
  have shape: "edit_shape spec p target dest (map vm_id vms)" and apart: "plans_apart p target"
    and prep: "prepared db spec p target dest vms pe" and pid: "mp_id p = pid"
    and gp: "get_plan db (mp_id p) = Some p" and gt: "get_plan db (mp_id target) = Some target"
    using f unfolding edit_facts_def by blast+
  have status: "mp_status p = ''complete''" "mp_status target = ''complete''"
    using shape unfolding edit_shape_def by blast+
  from prep nb obtain lay where mv: "moved_layouts spec (mp_id p) (mp_id target) dest (layouts_before p target) vms = (lay, pp_moves pe)"
    and chs: "list_all2 (\<lambda>q c. fst c = mp_id q \<and> change_for db lay q (snd c)) (plans_of p target) (pp_changes pe)"
    unfolding prepared_def by blast
  have op: "es_operation (pp_spec pe) = ?op" using prep by (simp add: prepared_def)
  note res = moved_members [OF shape apart layouts_before_at [OF shape] mv]
  note I = edit_members [OF f refl mv]
  have ws: "wf_session (ad_session db)" using db by (simp add: consistent_def wf_app_def)
  note life' = edit_lifecycle_Inr [OF life refl ws op [symmetric]]
  have mem: "p \<in> set (ad_plans db)" "target \<in> set (ad_plans db)" using gp gt by (auto dest: get_plan_Some)
  note Mp = consistent_members [OF db mem(1) status(1)]
  note Mt = consistent_members [OF db mem(2) status(2)]
  obtain xs ys where split: "ad_plans db = xs @ p # ys" using mem(1) by (auto simp: in_set_conv_decomp)
  note planned = update_planned [OF db split open_complete [OF status(1)] refl refl]
  have held: "set (held db) = set (mp_vm_ids p) \<union> set (held_of xs) \<union> set (held_of ys)"
    using split open_complete [OF status(1)] by (auto simp: held_def)
  have held_p: "set (mp_vm_ids p) \<subseteq> set (held db)" using held by blast
  show ?thesis
  proof (cases "?op = ''move_to_plan''")
    case False
    then have t: "target = p" using shape by (simp add: edit_shape_def)
    then obtain c where c: "pp_changes pe = [(mp_id p, c)]" "change_for db lay p c"
      using chs by (cases "pp_changes pe") (auto simp: plans_of_def)
    have Ih: "?I \<inter> set (held db) \<subseteq> set (mp_vm_ids p)"
    proof (cases "?op = ''add''")
      case True
      then have "?I \<inter> planned_vms (ad_session db) = {}" "?I \<subseteq> row_ids (ad_session db)" using life'(4) I(1) by blast+
      then show ?thesis unfolding planned(4) using held by blast
    next
      case False
      then show ?thesis using I(5) Mp(2) by blast
    qed
    have joins: "dest \<noteq> None \<longleftrightarrow> ?op \<noteq> ''remove''" using shape unfolding edit_shape_def by blast
    have pl: "planned_vms s' = (planned_vms (ad_session db) - ?I) \<union> (if dest \<noteq> None then ?I else {})"
    proof (cases "?op = ''add'' \<or> ?op = ''remove''")
      case True
      then show ?thesis unfolding life'(3) joins by auto
    next
      case other: False
      have "?I \<subseteq> planned_vms (ad_session db)" using I(1,5) Mp(2) planned(1) other by blast
      then show ?thesis unfolding life'(3) joins using other by auto
    qed
    have "stored pe s' db = update_plan (mp_id p) (store_change c) (db\<lparr>ad_session := s'\<rparr>)"
      by (simp add: stored_def c(1))
    then show ?thesis
      using store_one [OF db gp status(1) c(2) refl res(1) [of p] _ I(1) Ih life'(1,2) pl] res(3) [of p] t Mp(2)
      by simp
  next
    case True
    then have ne: "mp_id p \<noteq> mp_id target" using shape by (auto simp: edit_shape_def)
    then obtain c1 c2 where c: "pp_changes pe = [(mp_id p, c1), (mp_id target, c2)]" "change_for db lay p c1" "change_for db lay target c2"
      using chs by (auto simp: plans_of_def list_all2_Cons1)
    have dest: "dest \<noteq> None" using shape True by (auto simp: edit_shape_def)
    have Ip: "?I \<subseteq> set (mp_vm_ids p)" using I(5) True Mp(2) by simp
    let ?mid_s = "fst (release_planned_to_available 0 0 ?ids [] [] (ad_session db))"
    let ?mid = "update_plan (mp_id p) (store_change c1) (db\<lparr>ad_session := ?mid_s\<rparr>)"
    have mid: "consistent ?mid"
    proof (rule store_one [OF db gp status(1) c(2) refl res(1) [of p], where I = ?I and joins = False])
      show "set (members (layout_of lay (mp_id p))) = members_after ?I False (set (mp_vm_ids p))"
        using res(3) [of p] ne Mp(2) by simp
      show "?I \<inter> set (held db) \<subseteq> set (mp_vm_ids p)" using Ip by blast
    qed (use I(1) wf_release [OF ws] in \<open>simp_all add: release_planned_vms\<close>)
    have gt': "get_plan ?mid (mp_id target) = Some target" by (rule get_plan_store [OF gt]) (use ne in simp)
    have "set (held ?mid) \<inter> ?I = {}"
    proof -
      have "set (ch_vm_ids c1) \<subseteq> set (mp_vm_ids p) - ?I"
        using change_facts(7) [OF c(2) res(1) [of p]] res(3) [of p] ne Mp(2) by (simp add: members_after_def)
      then show ?thesis
        using Ip unfolding held_store [OF db gp open_complete [OF status(1)]] by blast
    qed
    then have Ih: "?I \<inter> set (held ?mid) \<subseteq> set (mp_vm_ids target)" by blast
    have rows: "row_ids (ad_session ?mid) = row_ids (ad_session db)" by (simp add: release_planned_vms)
    have "stored pe s' db = update_plan (mp_id target) (store_change c2) (?mid\<lparr>ad_session := s'\<rparr>)"
      by (simp add: stored_def c(1) update_plan_def)
    moreover have "consistent (update_plan (mp_id target) (store_change c2) (?mid\<lparr>ad_session := s'\<rparr>))"
    proof (rule store_one [OF mid gt' status(2) c(3) rows [symmetric] res(1) [of target], where I = ?I and joins = True])
      show "set (members (layout_of lay (mp_id target))) = members_after ?I True (set (mp_vm_ids target))"
        using res(3) [of target] dest Mt(2) by simp
      show "?I \<inter> set (held ?mid) \<subseteq> set (mp_vm_ids target)" by (rule Ih)
      show "?I \<subseteq> row_ids (ad_session ?mid)" unfolding rows by (rule I(1))
      show "row_ids s' = row_ids (ad_session ?mid)" unfolding rows by (rule life'(2))
      have "?I \<subseteq> planned_vms (ad_session db)" using I(1) Ip planned(1) by blast
      then show "planned_vms s' = (planned_vms (ad_session ?mid) - ?I) \<union> (if True then ?I else {})"
        using True by (simp add: life'(3) release_planned_vms del: set_map) blast
    qed (use life'(1) in simp_all)
    ultimately show ?thesis by simp
  qed
qed

lemma consistent_edit_plan:
  assumes "consistent db"
  shows "consistent (fst (edit_plan env pid request dry_run confirm db))"
proof (cases "fst (edit_plan env pid request dry_run confirm db) = db")
  case False
  then obtain pe db' where dry: "\<not> dry_run" and ed: "edit_plan env pid request dry_run confirm db = (db', Inr pe)"
    by (auto simp: edit_plan_def Let_def split: option.splits sum.splits if_splits)
  then have "edit_plan env pid request False confirm db = (db', Inr pe)" by simp
  from edit_committed [OF assms this] obtain p target dest vms where
      f: "edit_facts db pid (spec_of request) p target dest vms pe" "pp_blocking pe = []" "apply_edit env pe db = Inr db'"
    by blast
  from apply_edit_Inr [OF f(3)] stored_consistent [OF assms f(1,2)] have "consistent db'" by blast
  with ed show ?thesis by simp
qed (use assms in simp)

end
