(* ===== verification/Plan_Edit_Guarantees.thy ===== *)
theory Plan_Edit_Guarantees
  imports Plan_Edit_Effects
begin

text \<open>
  What the edit endpoint guarantees its callers: the announced moves are the ones stored, wave
  numbers are not reused, arriving machines fit the partition of their plan, a failed request
  changes nothing, and an accepted preview can be committed.
\<close>

section \<open>The wave of a machine\<close>

lemma wave_number_of_iff:
  assumes "distinct (map wd_wave_number docs)" and "distinct (concat (map wd_vm_ids docs))"
  shows "wave_number_of docs i = Some n \<longleftrightarrow> in_wave docs n i"
  using assms
proof (induction docs)
  case (Cons d docs)
  have rest: "\<not> in_wave docs m i" if "i \<in> set (wd_vm_ids d)" for m
    using Cons.prems(2) that by (auto simp: in_wave_iff)
  show ?case
  proof (cases "i \<in> set (wd_vm_ids d)")
    case True
    with rest [OF True, of n] show ?thesis by (auto simp: wave_number_of_def in_wave_iff)
  next
    case False
    with Cons show ?thesis by (auto simp: wave_number_of_def in_wave_iff)
  qed
qed (simp add: wave_number_of_def in_wave_def)

lemma at_wave_membership:
  assumes "distinct (map wd_wave_number (mp_waves p))"
  shows "at_wave (wave_membership p) n i \<longleftrightarrow> in_wave (mp_waves p) n i"
proof -
  have wm: "wave_membership p = map (\<lambda>w. (wd_wave_number w, wd_vm_ids w)) (mp_waves p)"
    by (simp add: wave_membership_def dict_of_distinct [OF assms])
  have d: "distinct (map fst (map (\<lambda>w. (wd_wave_number w, wd_vm_ids w)) (mp_waves p)))"
    using assms by (simp add: comp_def)
  have "at_wave (wave_membership p) n i \<longleftrightarrow>
      (\<exists>ids. (n, ids) \<in> set (map (\<lambda>w. (wd_wave_number w, wd_vm_ids w)) (mp_waves p)) \<and> i \<in> set ids)"
    unfolding at_wave_def wm dict_get_eq_map_of using d by (simp only: map_of_eq_Some_iff)
  then show ?thesis by (auto simp: in_wave_iff)
qed

lemma member_once:
  assumes "distinct (members l)" and "(m, xs) \<in> set l" and "i \<in> set xs" and "(n, ys) \<in> set l" and "i \<in> set ys"
  shows "m = n"
  using assms by (induction l) force+

lemma wave_of_vm_iff:
  assumes "distinct (map fst l)" and "distinct (members l)"
  shows "dict_get (wave_of_vm l) i = Some n \<longleftrightarrow> at_wave l n i"
proof
  assume "dict_get (wave_of_vm l) i = Some n"
  then show "at_wave l n i"
    using wave_of_vm_Some [of l i n] assms(1) by (auto simp: at_wave_def dict_get_eq_map_of)
next
  assume at: "at_wave l n i"
  then have "i \<in> set (members l)" by (force simp: at_wave_def dict_get_eq_map_of dest: map_of_SomeD)
  then obtain m where m: "dict_get (wave_of_vm l) i = Some m"
    using wave_of_vm_None [of l i] by (cases "dict_get (wave_of_vm l) i") auto
  from wave_of_vm_Some [OF m] at obtain xs ys where "(m, xs) \<in> set l" "i \<in> set xs" "(n, ys) \<in> set l" "i \<in> set ys"
    by (auto simp: at_wave_def dict_get_eq_map_of dest: map_of_SomeD)
  then have "m = n" by (rule member_once [OF assms(2)])
  with m show "dict_get (wave_of_vm l) i = Some n" by simp
qed

text \<open>The waves of a stored change: a machine with a row is where the layout has it.\<close>

lemma change_wave_number:
  assumes c: "change_for db lay q c" and lay: "distinct (map fst (layout_of lay (mp_id q)))"
    and i: "i \<in> row_ids (ad_session db)"
  shows "wave_number_of (ch_waves c) i = Some n \<longleftrightarrow> at_wave (layout_of lay (mp_id q)) n i"
proof -
  note facts = change_facts [OF c lay]
  have d: "distinct (concat (map wd_vm_ids (ch_waves c)))" using facts(2,3) by simp
  note iff = wave_number_of_iff [OF facts(4) d]
  show ?thesis
  proof
    assume w: "wave_number_of (ch_waves c) i = Some n"
    then have "in_wave (ch_waves c) n i" by (simp add: iff)
    then have "i \<in> set (ch_vm_ids c)" unfolding facts(2) by (auto simp: in_wave_iff)
    with facts(7) have "i \<in> set (members (layout_of lay (mp_id q)))" by blast
    then obtain m ids where "(m, ids) \<in> set (layout_of lay (mp_id q))" "i \<in> set ids" by auto
    then have at: "at_wave (layout_of lay (mp_id q)) m i" using lay by (auto simp: at_wave_def dict_get_eq_map_of)
    from facts(10) [OF at i] have "wave_number_of (ch_waves c) i = Some m" by (simp add: iff)
    with w at show "at_wave (layout_of lay (mp_id q)) n i" by simp
  next
    assume "at_wave (layout_of lay (mp_id q)) n i"
    from facts(10) [OF this i] show "wave_number_of (ch_waves c) i = Some n" by (simp add: iff)
  qed
qed

lemma plan_wave_number:
  assumes "consistent db" and "p \<in> set (ad_plans db)" and "mp_status p = ''complete''"
  shows "wave_number_of (mp_waves p) i = Some n \<longleftrightarrow> at_wave (wave_membership p) n i"
proof -
  have whole: "whole p" using assms by (auto simp: consistent_def list_all_iff)
  then have d: "distinct (map wd_wave_number (mp_waves p))"
    and eq: "mset (concat (map wd_vm_ids (mp_waves p))) = mset (mp_vm_ids p)"
    using assms(3) by (simp_all add: whole_def del: mset_concat)
  obtain xs ys where "ad_plans db = xs @ p # ys" using assms(2) by (auto simp: in_set_conv_decomp)
  then have "distinct (mp_vm_ids p)" using assms open_complete by (simp add: consistent_def held_def)
  then have "distinct (concat (map wd_vm_ids (mp_waves p)))" using mset_eq_imp_distinct_iff [OF eq] by simp
  from wave_number_of_iff [OF d this] at_wave_membership [OF d] show ?thesis by simp
qed

lemma option_eqI: "(\<And>n. x = Some n \<longleftrightarrow> y = Some n) \<Longrightarrow> x = y"
  by (cases x; cases y) auto

text \<open>Every announced move names its two waves.\<close>

lemma moves_waves:
  assumes "fold (move_step spec src tgt dest wof) vms (after, moves) = (after', moves')"
    and "\<forall>m\<in>set moves. mv_to_wave m = dest \<and> mv_from_wave m = dict_get wof (mv_vm_id m)"
  shows "\<forall>m\<in>set moves'. mv_to_wave m = dest \<and> mv_from_wave m = dict_get wof (mv_vm_id m)"
  using assms
proof (induction vms arbitrary: after moves)
  case (Cons v vms)
  obtain after1 moves1 where step: "move_step spec src tgt dest wof v (after, moves) = (after1, moves1)" by fastforce
  with Cons.prems(2) have "\<forall>m\<in>set moves1. mv_to_wave m = dest \<and> mv_from_wave m = dict_get wof (mv_vm_id m)"
    by (auto simp: move_step_def Let_def split: if_splits)
  with Cons.IH [of after1 moves1] Cons.prems(1) step show ?case by simp
qed simp


section \<open>The announced moves are the stored ones\<close>

definition changes_of :: "app_db \<Rightarrow> migration_plan \<Rightarrow> migration_plan \<Rightarrow> (int \<times> layout) list \<Rightarrow> prepared_edit \<Rightarrow> bool" where
  "changes_of db p target lay pe \<longleftrightarrow>
     list_all2 (\<lambda>q c. fst c = mp_id q \<and> change_for db lay q (snd c)) (plans_of p target) (pp_changes pe)"

lemma plans_of_set:
  "edit_shape spec p target dest ids \<Longrightarrow> set (plans_of p target) = {p, target}"
  by (auto simp: plans_of_def edit_shape_def split: if_splits)

lemma get_plan_keep: "b \<noteq> a \<Longrightarrow> get_plan (update_plan a (store_change c) db) b = get_plan db b"
proof -
  assume ne: "b \<noteq> a"
  have "List.find (\<lambda>p. mp_id p = b) (map (\<lambda>p. if mp_id p = a then store_change c p else p) ps) =
      List.find (\<lambda>p. mp_id p = b) ps" for ps using ne by (induction ps) auto
  then show ?thesis by (simp add: get_plan_def update_plan_def)
qed

lemma stored_plans:
  assumes f: "edit_facts db pid spec p target dest vms pe" and chs: "changes_of db p target lay pe"
  shows "(qid, c) \<in> set (pp_changes pe) \<Longrightarrow> \<exists>q\<in>set (plans_of p target). qid = mp_id q \<and> get_plan db qid = Some q \<and>
      get_plan (stored pe s' db) qid = Some (store_change c q) \<and> change_for db lay q c"
    and "q \<in> set (plans_of p target) \<Longrightarrow> \<exists>c. (mp_id q, c) \<in> set (pp_changes pe)"
    and "qid \<notin> {pid, mp_id target} \<Longrightarrow> get_plan (stored pe s' db) qid = get_plan db qid"
proof -
  let ?db = "db\<lparr>ad_session := s'\<rparr>"
  have shape: "edit_shape spec p target dest (map vm_id vms)" and pid: "mp_id p = pid"
    and g: "get_plan db pid = Some p" "get_plan db (mp_id target) = Some target"
    using f unfolding edit_facts_def by blast+
  have base: "get_plan ?db x = get_plan db x" for x by (simp add: get_plan_def)
  have "((qid, c) \<in> set (pp_changes pe) \<longrightarrow> (\<exists>q\<in>set (plans_of p target). qid = mp_id q \<and> get_plan db qid = Some q \<and>
      get_plan (stored pe s' db) qid = Some (store_change c q) \<and> change_for db lay q c)) \<and>
    (q \<in> set (plans_of p target) \<longrightarrow> (\<exists>c. (mp_id q, c) \<in> set (pp_changes pe))) \<and>
    (qid \<notin> {pid, mp_id target} \<longrightarrow> get_plan (stored pe s' db) qid = get_plan db qid)"
  proof (cases "mp_id target = mp_id p")
    case True
    then have t: "target = p" using shape by (auto simp: edit_shape_def split: if_splits)
    obtain c1 where c: "pp_changes pe = [(mp_id p, c1)]" "change_for db lay p c1"
      using chs t by (cases "pp_changes pe") (auto simp: changes_of_def plans_of_def)
    have eq: "stored pe s' db = update_plan (mp_id p) (store_change c1) ?db" by (simp add: stored_def c(1))
    have "get_plan ?db (mp_id p) = Some p" using g pid by (simp add: base)
    from get_plan_stored [OF this, of c1] c g pid t show ?thesis
      by (auto simp: eq plans_of_def get_plan_keep base)
  next
    case False
    then obtain c1 c2 where c: "pp_changes pe = [(mp_id p, c1), (mp_id target, c2)]" "change_for db lay p c1" "change_for db lay target c2"
      using chs by (auto simp: changes_of_def plans_of_def list_all2_Cons1)
    let ?one = "update_plan (mp_id p) (store_change c1) ?db"
    have eq: "stored pe s' db = update_plan (mp_id target) (store_change c2) ?one" by (simp add: stored_def c(1))
    have "get_plan ?one (mp_id target) = Some target" using False g by (simp add: get_plan_keep base)
    note two = get_plan_stored [OF this, of c2]
    have "get_plan ?db (mp_id p) = Some p" using g pid by (simp add: base)
    from get_plan_stored [OF this, of c1]
    have one: "get_plan (stored pe s' db) (mp_id p) = Some (store_change c1 p)"
      unfolding eq using False by (simp add: get_plan_keep)
    show ?thesis
      using one two c False g pid by (auto simp: eq plans_of_def get_plan_keep base)
  qed
  then show "(qid, c) \<in> set (pp_changes pe) \<Longrightarrow> \<exists>q\<in>set (plans_of p target). qid = mp_id q \<and> get_plan db qid = Some q \<and>
      get_plan (stored pe s' db) qid = Some (store_change c q) \<and> change_for db lay q c"
    and "q \<in> set (plans_of p target) \<Longrightarrow> \<exists>c. (mp_id q, c) \<in> set (pp_changes pe)"
    and "qid \<notin> {pid, mp_id target} \<Longrightarrow> get_plan (stored pe s' db) qid = get_plan db qid" by blast+
qed

text \<open>Everything known of a committed edit.\<close>

definition commit_facts ::
  "app_db \<Rightarrow> int \<Rightarrow> edit_spec \<Rightarrow> migration_plan \<Rightarrow> migration_plan \<Rightarrow> nat option \<Rightarrow> vm list \<Rightarrow> prepared_edit
     \<Rightarrow> (int \<times> layout) list \<Rightarrow> app_db \<Rightarrow> bool" where
  "commit_facts db pid spec p target dest vms pe lay db' \<longleftrightarrow>
     edit_facts db pid spec p target dest vms pe \<and> pp_blocking pe = [] \<and> pp_source pe = p \<and> pp_target pe = target \<and>
     moved_layouts spec (mp_id p) (mp_id target) dest (layouts_before p target) vms = (lay, pp_moves pe) \<and>
     changes_of db p target lay pe \<and> (\<exists>s'. \<forall>x. get_plan db' x = get_plan (stored pe s' db) x) \<and>
     (es_operation spec \<in> set [''move_to_plan'', ''add''] \<longrightarrow>
       filter (\<lambda>v. v_severity v = BLOCKING) (target_violations db spec p target
         (filter (\<lambda>v. vm_id v \<in> mv_vm_id ` set (pp_moves pe)) vms)) = [])"

lemma edit_commit_facts:
  assumes "consistent db" and "edit_plan env pid request False confirm db = (db', Inr pe)"
  shows "\<exists>p target dest vms lay. commit_facts db pid (spec_of request) p target dest vms pe lay db'"
proof -
  obtain p target dest vms where f: "edit_facts db pid (spec_of request) p target dest vms pe"
      and nb: "pp_blocking pe = []" and ap: "apply_edit env pe db = Inr db'"
    using edit_committed [OF assms] by blast
  from f have "prepared db (spec_of request) p target dest vms pe" unfolding edit_facts_def by blast
  moreover from apply_edit_Inr [OF ap] have "\<exists>s'. \<forall>x. get_plan db' x = get_plan (stored pe s' db) x"
    unfolding get_plan_def by fastforce
  ultimately show ?thesis using f nb unfolding commit_facts_def prepared_def changes_of_def by blast
qed

lemma commit_plans:
  assumes "commit_facts db pid spec p target dest vms pe lay db'"
  shows "(qid, c) \<in> set (pp_changes pe) \<Longrightarrow> \<exists>q\<in>{p, target}. qid = mp_id q \<and> get_plan db qid = Some q \<and>
      get_plan db' qid = Some (store_change c q) \<and> change_for db lay q c"
    and "\<exists>c1 c2. get_plan db' pid = Some (store_change c1 p) \<and> change_for db lay p c1 \<and>
      get_plan db' (mp_id target) = Some (store_change c2 target) \<and> change_for db lay target c2"
    and "qid \<noteq> pid \<Longrightarrow> qid \<noteq> mp_id target \<Longrightarrow> get_plan db' qid = get_plan db qid"
proof -
  obtain s' where f: "edit_facts db pid spec p target dest vms pe" and chs: "changes_of db p target lay pe"
      and get: "\<forall>x. get_plan db' x = get_plan (stored pe s' db) x"
    using assms unfolding commit_facts_def by blast
  from f have shape: "edit_shape spec p target dest (map vm_id vms)" and pid: "mp_id p = pid"
    and g: "get_plan db pid = Some p" "get_plan db (mp_id target) = Some target"
    unfolding edit_facts_def by blast+
  note ps = plans_of_set [OF shape]
  note st1 = stored_plans(1) [OF f chs, where s' = s', folded get [rule_format], unfolded ps]
  note st2 = stored_plans(2) [OF f chs, unfolded ps]
  note st3 = stored_plans(3) [OF f chs, where s' = s', folded get [rule_format]]
  show one: "\<exists>q\<in>{p, target}. qid = mp_id q \<and> get_plan db qid = Some q \<and>
      get_plan db' qid = Some (store_change c q) \<and> change_for db lay q c" if "(qid, c) \<in> set (pp_changes pe)" for qid c
    by (rule st1 [OF that])
  obtain c1 c2 where "(mp_id p, c1) \<in> set (pp_changes pe)" "(mp_id target, c2) \<in> set (pp_changes pe)"
    using st2 by blast
  from one [OF this(1)] one [OF this(2)] g pid
  show "\<exists>c1 c2. get_plan db' pid = Some (store_change c1 p) \<and> change_for db lay p c1 \<and>
      get_plan db' (mp_id target) = Some (store_change c2 target) \<and> change_for db lay target c2" by auto
  show "qid \<noteq> pid \<Longrightarrow> qid \<noteq> mp_id target \<Longrightarrow> get_plan db' qid = get_plan db qid"
    using st3 by blast
qed

text \<open>
  The wave of every machine with a row, after the moves, in the plan left and the plan joined.
\<close>

definition moved_as_announced ::
  "migration_plan \<Rightarrow> migration_plan \<Rightarrow> migration_plan \<Rightarrow> migration_plan \<Rightarrow> edit_move list \<Rightarrow> int set \<Rightarrow> bool" where
  "moved_as_announced p target p' target' moves rows \<longleftrightarrow>
     (\<forall>m\<in>set moves. mv_vm_id m \<in> rows \<and> wave_number_of (mp_waves p) (mv_vm_id m) = mv_from_wave m \<and>
        wave_number_of (mp_waves target') (mv_vm_id m) = mv_to_wave m \<and>
        (mp_id target \<noteq> mp_id p \<longrightarrow> wave_number_of (mp_waves p') (mv_vm_id m) = None)) \<and>
     (\<forall>i\<in>rows - mv_vm_id ` set moves. wave_number_of (mp_waves p') i = wave_number_of (mp_waves p) i \<and>
        wave_number_of (mp_waves target') i = wave_number_of (mp_waves target) i)"

lemma change_announced:
  assumes db: "consistent db" and f: "edit_facts db pid spec p target dest vms pe"
    and mv: "moved_layouts spec (mp_id p) (mp_id target) dest (layouts_before p target) vms = (lay, pp_moves pe)"
    and c: "change_for db lay p c1" "change_for db lay target c2"
  shows "moved_as_announced p target (store_change c1 p) (store_change c2 target) (pp_moves pe) (row_ids (ad_session db))"
proof -
  let ?I = "set (map mv_vm_id (pp_moves pe))"
  let ?R = "row_ids (ad_session db)"
  have shape: "edit_shape spec p target dest (map vm_id vms)" and apart: "plans_apart p target"
    and gp: "get_plan db pid = Some p" "get_plan db (mp_id target) = Some target"
    using f unfolding edit_facts_def by blast+
  have mem: "p \<in> set (ad_plans db)" "target \<in> set (ad_plans db)" using gp by (auto dest: get_plan_Some)
  have status: "mp_status p = ''complete''" "mp_status target = ''complete''" using shape unfolding edit_shape_def by blast+
  note before = layouts_before_at [OF shape]
  note res = moved_members [OF shape apart before mv]
  note start = moved_start [OF shape before mv]
  note I = edit_members [OF f refl mv]
  have dp: "distinct (members (wave_membership p))" using apart by (simp add: plans_apart_def)
  have fold: "fold (move_step spec (mp_id p) (mp_id target) dest (wave_of_vm (wave_membership p))) vms
      (layouts_before p target, []) = (lay, pp_moves pe)"
    using mv by (simp add: moved_layouts_def before)
  note mw = moves_waves [OF fold, simplified]
  have old: "wave_number_of (mp_waves p) i = dict_get (wave_of_vm (wave_membership p)) i" for i
    by (rule option_eqI) (simp add: plan_wave_number [OF db mem(1) status(1)] wave_of_vm_iff [OF distinct_membership dp])
  note new_p = change_wave_number [OF c(1) res(1) [of p]]
  note new_t = change_wave_number [OF c(2) res(1) [of target]]
  show ?thesis
    unfolding moved_as_announced_def store_change_fields
  proof (intro conjI ballI impI)
    fix m assume m: "m \<in> set (pp_moves pe)"
    then have i: "mv_vm_id m \<in> ?I" by simp
    show row: "mv_vm_id m \<in> ?R" using I(1) i by blast
    show "wave_number_of (mp_waves p) (mv_vm_id m) = mv_from_wave m" using mw m by (simp add: old)
    have gone: "\<not> at_wave (layout_of lay (mp_id q)) n (mv_vm_id m)"
      if "mv_vm_id m \<notin> set (members (layout_of lay (mp_id q)))" "q = p \<or> q = target" for n q
      using that res(1) [OF that(2)] by (force simp: at_wave_def dict_get_eq_map_of dest: map_of_SomeD)
    show "wave_number_of (ch_waves c2) (mv_vm_id m) = mv_to_wave m"
    proof (cases dest)
      case None
      then have "mv_vm_id m \<notin> set (members (layout_of lay (mp_id target)))"
        using res(3) [of target] i by (simp add: members_after_def)
      then have "wave_number_of (ch_waves c2) (mv_vm_id m) \<noteq> Some n" for n
        using new_t [OF disjI2 [OF refl] row, of n] gone by blast
      then show ?thesis using mw m None by (cases "wave_number_of (ch_waves c2) (mv_vm_id m)") auto
    next
      case (Some d)
      then show ?thesis using new_t [OF disjI2 [OF refl] row, of d] start(4) [OF i Some] mw m by simp
    qed
    assume ne: "mp_id target \<noteq> mp_id p"
    then have "mv_vm_id m \<notin> set (members (layout_of lay (mp_id p)))"
      using res(3) [of p] i by (simp add: members_after_def)
    then have "wave_number_of (ch_waves c1) (mv_vm_id m) \<noteq> Some n" for n
      using new_p [OF disjI1 [OF refl] row, of n] gone by blast
    then show "wave_number_of (ch_waves c1) (mv_vm_id m) = None"
      by (cases "wave_number_of (ch_waves c1) (mv_vm_id m)") auto
  next
    fix i assume "i \<in> ?R - mv_vm_id ` set (pp_moves pe)"
    then have row: "i \<in> ?R" and out: "i \<notin> ?I" by auto
    show "wave_number_of (ch_waves c1) i = wave_number_of (mp_waves p) i"
      by (rule option_eqI) (simp add: new_p [OF disjI1 [OF refl] row] start(3) [OF out] before(1)
          plan_wave_number [OF db mem(1) status(1)])
    show "wave_number_of (ch_waves c2) i = wave_number_of (mp_waves target) i"
      by (rule option_eqI) (simp add: new_t [OF disjI2 [OF refl] row] start(3) [OF out] before(2)
          plan_wave_number [OF db mem(2) status(2)])
  qed
qed

text \<open>
  C2: A committed edit does what its preview announced. For every announced move, the source
  plan had the machine in the announced wave and the target plan has it in the announced wave
  afterwards (in no wave when it was removed), a machine that changed plans is in no wave of
  the plan it left, every other machine with a row is in the wave it was in, only machines of
  the request moved, and no other plan changed.
\<close>

theorem edit_moves_machines:
  assumes "consistent db" and "edit_plan env pid request False confirm db = (db', Inr pe)"
  shows "\<exists>p target p' target'. get_plan db pid = Some p \<and> get_plan db (mp_id target) = Some target \<and>
    pp_source pe = p \<and> pp_target pe = target \<and>
    get_plan db' pid = Some p' \<and> get_plan db' (mp_id target) = Some target' \<and>
    mv_vm_id ` set (pp_moves pe) \<subseteq> set (es_vm_ids request) \<and>
    moved_as_announced p target p' target' (pp_moves pe) (row_ids (ad_session db)) \<and>
    (\<forall>qid. qid \<noteq> pid \<and> qid \<noteq> mp_id target \<longrightarrow> get_plan db' qid = get_plan db qid)"
proof -
  obtain p target dest vms lay where cf: "commit_facts db pid (spec_of request) p target dest vms pe lay db'"
    using edit_commit_facts [OF assms] by blast
  then have f: "edit_facts db pid (spec_of request) p target dest vms pe" and st: "pp_source pe = p" "pp_target pe = target"
    and mv: "moved_layouts (spec_of request) (mp_id p) (mp_id target) dest (layouts_before p target) vms = (lay, pp_moves pe)"
    unfolding commit_facts_def by blast+
  from f have g: "get_plan db pid = Some p" "get_plan db (mp_id target) = Some target"
    unfolding edit_facts_def by blast+
  from commit_plans(2) [OF cf] obtain c1 c2 where
      c: "get_plan db' pid = Some (store_change c1 p)" "change_for db lay p c1"
        "get_plan db' (mp_id target) = Some (store_change c2 target)" "change_for db lay target c2"
    by blast
  have "mv_vm_id ` set (pp_moves pe) \<subseteq> set (es_vm_ids request)"
    using edit_members(4) [OF f refl mv] by simp
  moreover have "\<forall>qid. qid \<noteq> pid \<and> qid \<noteq> mp_id target \<longrightarrow> get_plan db' qid = get_plan db qid"
    using commit_plans(3) [OF cf] by blast
  ultimately show ?thesis
    using g st c change_announced [OF assms(1) f mv c(2,4)] by blast
qed

section \<open>Wave numbers\<close>

lemma max_of_ge: "n \<in> set ns \<Longrightarrow> n \<le> max_of ns"
proof -
  have "fold max ns k = Max (insert k (set ns))" for k
  proof (induction ns arbitrary: k)
    case (Cons n ns)
    then show ?case by (cases "ns = []") (auto simp: max.commute max.left_commute)
  qed simp
  then show "n \<in> set ns \<Longrightarrow> n \<le> max_of ns" by (simp add: max_of_def)
qed

lemma dict_has_keys: "dict_has d k \<longleftrightarrow> k \<in> fst ` set d"
  by (induction d) (auto simp: dict_has_def)

lemma dict_of_keys: "fst ` set (dict_of f g xs) = f ` set xs"
proof (rule set_eqI)
  fix k show "k \<in> fst ` set (dict_of f g xs) \<longleftrightarrow> k \<in> f ` set xs"
    unfolding dict_has_keys [symmetric] by simp
qed

lemma membership_keys: "fst ` set (wave_membership p) = wd_wave_number ` set (mp_waves p)"
  by (simp add: wave_membership_def dict_of_keys)

text \<open>
  C21: An edit never reuses a wave number. A wave that a committed edit creates has a number
  above the counter of its plan and above every wave the plan had, the counter afterwards is at
  least the one before and bounds every wave of the plan before and after, and the waves of the
  plan still have distinct numbers.
\<close>

theorem edit_wave_numbers_fresh:
  assumes "consistent db" and "edit_plan env pid request False confirm db = (db', Inr pe)"
    and "(qid, c) \<in> set (pp_changes pe)"
  shows "\<exists>q q'. get_plan db qid = Some q \<and> get_plan db' qid = Some q' \<and> mp_waves q' = ch_waves c \<and>
    distinct (map wd_wave_number (mp_waves q')) \<and>
    list_all (\<lambda>n. seq_or_zero q < n \<and> list_all (\<lambda>w. wd_wave_number w < n) (mp_waves q)) (ch_created_waves c) \<and>
    seq_or_zero q \<le> seq_or_zero q' \<and>
    list_all (\<lambda>w. wd_wave_number w \<le> seq_or_zero q') (mp_waves q @ mp_waves q')"
proof -
  obtain p target dest vms lay where cf: "commit_facts db pid (spec_of request) p target dest vms pe lay db'"
    using edit_commit_facts [OF assms(1,2)] by blast
  then have f: "edit_facts db pid (spec_of request) p target dest vms pe"
    and mv: "moved_layouts (spec_of request) (mp_id p) (mp_id target) dest (layouts_before p target) vms = (lay, pp_moves pe)"
    unfolding commit_facts_def by blast+
  from f have apart: "plans_apart p target" and shape: "edit_shape (spec_of request) p target dest (map vm_id vms)"
    unfolding edit_facts_def by blast+
  from commit_plans(1) [OF cf assms(3)] obtain q where q: "q = p \<or> q = target" "qid = mp_id q" "get_plan db qid = Some q"
      "get_plan db' qid = Some (store_change c q)" "change_for db lay q c" by blast
  note res = moved_members [OF shape apart layouts_before_at [OF shape] mv q(1)]
  note facts = change_facts [OF q(5) res(1)]
  have max: "n \<le> ch_wave_number_seq c"
    if "n \<in> set (seq_or_zero q # map fst (dict_of wd_wave_number id (mp_waves q)) @ map fst (drop_empty (layout_of lay (mp_id q))))" for n
    unfolding facts(9) using that by (rule max_of_ge)
  have seq: "seq_or_zero (store_change c q) = ch_wave_number_seq c" by (simp add: seq_or_zero_def)
  have old: "wd_wave_number w \<le> ch_wave_number_seq c" if "w \<in> set (mp_waves q)" for w
    by (rule max) (use that in \<open>simp add: dict_of_keys\<close>)
  have new: "wd_wave_number w \<le> ch_wave_number_seq c" if "w \<in> set (ch_waves c)" for w
    by (rule max) (use that facts(5) in auto)
  have created: "seq_or_zero q < n \<and> list_all (\<lambda>w. wd_wave_number w < n) (mp_waves q)" if n: "n \<in> set (ch_created_waves c)" for n
  proof -
    from n facts(8) have "n \<in> fst ` set (layout_of lay (mp_id q))" and "\<not> dict_has (wave_membership q) n" by blast+
    moreover have "n \<notin> fst ` set (wave_membership q)"
      using \<open>\<not> dict_has (wave_membership q) n\<close> unfolding dict_has_keys .
    ultimately have "mp_id q = mp_id target" "dest = Some n" using res(4) by (auto split: if_splits)
    moreover from this q have "q = target" using shape by (auto simp: edit_shape_def split: if_splits)
    ultimately have "n = next_wave_number q (wave_membership q)"
      using shape \<open>\<not> dict_has (wave_membership q) n\<close> by (auto simp: edit_shape_def split: if_splits)
    then have less: "m < n" if "m \<in> set (seq_or_zero q # map fst (wave_membership q))" for m
      using max_of_ge [OF that] by (simp add: next_wave_number_def)
    have "wd_wave_number w < n" if "w \<in> set (mp_waves q)" for w
    proof (rule less)
      have "wd_wave_number w \<in> fst ` set (wave_membership q)" using that by (simp add: membership_keys)
      then show "wd_wave_number w \<in> set (seq_or_zero q # map fst (wave_membership q))" by auto
    qed
    then show ?thesis using less [of "seq_or_zero q"] by (simp add: list_all_iff)
  qed
  show ?thesis
    using q(3,4) facts(4) created old new max [of "seq_or_zero q"] by (intro exI conjI) (auto simp: list_all_iff seq)
qed


section \<open>Errors\<close>

text \<open>
  A rejected edit and a dry run change nothing. On consistent tables an edit fails only with
  a status of 404, 409 or 422 (never with the corrupt-membership error 500 or a missing key),
  the tables are then as they were, and a dry run leaves them as they were whatever it answers.
\<close>

theorem edit_errors_change_nothing:
  assumes "consistent db" and "edit_plan env pid request dry_run confirm db = (db', r)"
  shows "(dry_run \<or> isl r \<longrightarrow> db' = db) \<and>
    (isl r \<longrightarrow> (\<exists>code kind vs. r = Inl (Plan_edit_error code kind vs) \<and> code \<in> set [404, 409, 422]))"
proof -
  have dry: "dry_run \<Longrightarrow> db' = db"
    using assms(2) by (auto simp: edit_plan_def Let_def split: option.splits sum.splits)
  have err: "db' = db" if "r = Inl e" for e
    using assms(2) that by (auto simp: edit_plan_def Let_def split: option.splits sum.splits if_splits)
  have failed: "request_error e" if "apply_edit env pe db = Inl e" for pe e
    using that by (auto simp: apply_edit_def Let_def split: if_splits prod.splits sum.splits)
  have "request_error e" if e: "r = Inl e" for e
  proof (cases "get_plan db pid")
    case None
    then show ?thesis using assms(2) e by (auto simp: edit_plan_def Let_def)
  next
    case (Some p)
    note fail = prepare_error [OF assms(1) Some]
    have "request_error e" if "edit_plan env pid request dry_run confirm db = (d, Inl e)" for d
      using that Some by (auto simp: edit_plan_def Let_def intro: fail failed split: sum.splits if_splits)
    then show ?thesis using assms(2) e by blast
  qed
  with dry err show ?thesis unfolding request_error_def by (cases r) auto
qed

section \<open>Partitions\<close>

lemma blocking_append: "filter P (xs @ ys) = [] \<longleftrightarrow> filter P xs = [] \<and> filter P ys = []"
  by simp

lemma target_violations_partition:
  assumes nb: "filter (\<lambda>v. v_severity v = BLOCKING) (target_violations db spec p target vms) = []"
    and d: "distinct (map vm_id vms)"
  shows "\<exists>tp. dict_get (plan_partitions db [target]) (mp_id target) = Some (Some tp) \<and>
    (\<forall>v\<in>set vms. \<exists>pt. vm_partition db v = Some pt \<and> pt_key pt = pt_key tp)"
proof -
  obtain tp where tp: "Option.bind (dict_get (plan_partitions db [target]) (mp_id target)) id = Some tp"
    using nb by (cases "Option.bind (dict_get (plan_partitions db [target]) (mp_id target)) id")
      (auto simp: target_violations_def plain_violation_def)
  have ent: "filter (\<lambda>v. v_severity v = BLOCKING) (entering_violations db spec p target vms tp) = []"
    using nb tp by (simp add: target_violations_def)
  have at: "Option.bind (dict_get (resolve_partitions db vms) (vm_id v)) id = vm_partition db v" if "v \<in> set vms" for v
    by (simp add: resolve_partitions_at [OF d that])
  have "\<exists>pt. vm_partition db v = Some pt \<and> pt_key pt = pt_key tp" if v: "v \<in> set vms" for v
  proof -
    from ent have "filter (\<lambda>v. Option.bind (dict_get (resolve_partitions db vms) (vm_id v)) id = None) vms = []"
      "filter (\<lambda>v. \<exists>pt\<in>set_option (Option.bind (dict_get (resolve_partitions db vms) (vm_id v)) id). pt_key pt \<noteq> pt_key tp) vms = []"
      by (simp_all add: entering_violations_def Let_def blocked_one_def plain_violation_def split: if_splits)
    then have "Option.bind (dict_get (resolve_partitions db vms) (vm_id v)) id \<noteq> None"
        "\<not> (\<exists>pt\<in>set_option (Option.bind (dict_get (resolve_partitions db vms) (vm_id v)) id). pt_key pt \<noteq> pt_key tp)"
      using v unfolding filter_empty_conv by blast+
    then have "vm_partition db v \<noteq> None" "\<forall>pt\<in>set_option (vm_partition db v). pt_key pt = pt_key tp"
      unfolding at [OF v] by blast+
    then show ?thesis by auto
  qed
  moreover have "dict_get (plan_partitions db [target]) (mp_id target) = Some (Some tp)"
    using tp by (cases "dict_get (plan_partitions db [target]) (mp_id target)") auto
  ultimately show ?thesis by blast
qed

text \<open>
  C18: Machines that arrive in a plan fit it. After a committed move between plans or addition,
  the partition of the target plan is known and every moved machine has a row whose own
  partition (source vCenter, target cluster, namespace) is the one of the plan.
\<close>

theorem edit_keeps_partitions:
  assumes "consistent db" and "edit_plan env pid request False confirm db = (db', Inr pe)"
    and "es_operation request \<in> set [''move_to_plan'', ''add'']" and "m \<in> set (pp_moves pe)"
  shows "\<exists>tp v pt. dict_get (plan_partitions db [pp_target pe]) (mp_id (pp_target pe)) = Some (Some tp) \<and>
    v \<in> set (ad_vms db) \<and> vm_id v = mv_vm_id m \<and> vm_partition db v = Some pt \<and> pt_key pt = pt_key tp"
proof -
  obtain p target dest vms lay where cf: "commit_facts db pid (spec_of request) p target dest vms pe lay db'"
    using edit_commit_facts [OF assms(1,2)] by blast
  let ?vms = "filter (\<lambda>v. vm_id v \<in> mv_vm_id ` set (pp_moves pe)) vms"
  from cf have f: "edit_facts db pid (spec_of request) p target dest vms pe" and t: "pp_target pe = target"
    and mv: "moved_layouts (spec_of request) (mp_id p) (mp_id target) dest (layouts_before p target) vms = (lay, pp_moves pe)"
    and nb: "filter (\<lambda>v. v_severity v = BLOCKING) (target_violations db (spec_of request) p target ?vms) = []"
    using assms(3) unfolding commit_facts_def by auto
  from f have shape: "edit_shape (spec_of request) p target dest (map vm_id vms)" and rows: "set vms \<subseteq> set (ad_vms db)"
    unfolding edit_facts_def by blast+
  have "distinct (map vm_id vms)" using shape by (simp add: edit_shape_def)
  then have d: "distinct (map vm_id ?vms)" by (rule distinct_map_filter)
  have "mv_vm_id m \<in> set (map vm_id vms)"
  proof -
    have "mv_vm_id m \<in> set (map mv_vm_id (pp_moves pe))" using assms(4) by simp
    then show ?thesis unfolding edit_members(3) [OF f refl mv] by (auto simp: moved_ids_of_def)
  qed
  then obtain v where "v \<in> set vms" and v: "vm_id v = mv_vm_id m" by auto
  then have mem: "v \<in> set ?vms" using assms(4) by simp
  obtain tp where tp: "dict_get (plan_partitions db [target]) (mp_id target) = Some (Some tp)"
      "\<forall>v\<in>set ?vms. \<exists>pt. vm_partition db v = Some pt \<and> pt_key pt = pt_key tp"
    using target_violations_partition [OF nb d] by blast
  from tp(2) mem obtain pt where "vm_partition db v = Some pt" "pt_key pt = pt_key tp" by blast
  with tp(1) v \<open>v \<in> set vms\<close> rows show ?thesis unfolding t by blast
qed


section \<open>An accepted preview can be committed\<close>

lemma reassign_Inr:
  assumes "wf_session s" and "set ids \<subseteq> planned_vms s"
  shows "\<exists>s'. record_plan_reassignment ids a b actor s = (s', Inr ())"
proof -
  have "\<forall>i\<in>set ids. i \<in> vm_id ` set (s_vms s)" using assms(2) by (auto simp: planned_vms_def)
  moreover have "vm_lifecycle_state v = Planned" if "v \<in> set (s_vms s)" "vm_id v \<in> set ids" for v
  proof -
    from that(2) assms(2) obtain u where "u \<in> set (s_vms s)" "vm_id u = vm_id v" "vm_lifecycle_state u = Planned"
      by (auto simp: planned_vms_def)
    with assms(1) that(1) show ?thesis
      by (auto simp: wf_session_def wf_rows_def distinct_map inj_on_def)
  qed
  then have "enforce (fetch_locked s ids) [Planned] Planned = None" by (auto simp: enforce_None fetch_locked_mem)
  moreover from calculation(1) have "missing_ids (fetch_locked s ids) ids = []" by (simp only: missing_ids_Nil)
  ultimately show ?thesis by (simp add: record_plan_reassignment_def Let_def)
qed

lemma to_planned_succeeds:
  assumes "set ids \<subseteq> row_ids s" and "\<forall>v\<in>set (s_vms s). vm_id v \<in> set ids \<longrightarrow> vm_lifecycle_state v = Available"
  shows "\<exists>s' r. transition_to_planned now ids pid actor trg s = (s', Inr r)"
proof -
  have "missing_ids (fetch_locked s ids) ids = []"
    unfolding missing_ids_Nil using assms(1) by (auto simp: row_ids_def)
  moreover have "enforce (fetch_locked s ids) [Available] Planned = None"
    using assms(2) by (simp add: enforce_None fetch_locked_mem)
  ultimately show ?thesis by (simp add: transition_to_planned_def Let_def split: prod.split)
qed

lemma edit_lifecycle_succeeds:
  assumes db: "consistent db" and f: "edit_facts db pid spec p target dest vms pe" and nb: "pp_blocking pe = []"
  shows "\<exists>s'. edit_lifecycle env pe (ad_session db) = (s', Inr ())"
proof -
  let ?ids = "map mv_vm_id (pp_moves pe)"
  have prep: "prepared db spec p target dest vms pe" and rows: "set vms \<subseteq> set (ad_vms db)"
    and shape: "edit_shape spec p target dest (map vm_id vms)" and g: "get_plan db pid = Some p"
    using f unfolding edit_facts_def by blast+
  have ws: "wf_session (ad_session db)" using db by (simp add: consistent_def wf_app_def)
  from prep nb obtain lay where
      mv: "moved_layouts spec (mp_id p) (mp_id target) dest (layouts_before p target) vms = (lay, pp_moves pe)"
    and tv: "es_operation spec \<in> set [''move_to_plan'', ''add''] \<longrightarrow>
       filter (\<lambda>v. v_severity v = BLOCKING) (target_violations db spec p target
         (filter (\<lambda>v. vm_id v \<in> mv_vm_id ` set (pp_moves pe)) vms)) = []"
    unfolding prepared_def by blast
  note I = edit_members [OF f refl mv]
  have op: "es_operation (pp_spec pe) = es_operation spec" using prep by (simp add: prepared_def)
  have ops: "es_operation spec = ''add'' \<or> es_operation spec = ''remove'' \<or> es_operation spec = ''move_to_plan'' \<or>
      es_operation spec = ''move_to_wave''"
    using shape by (auto simp: edit_shape_def OPERATIONS_def)
  show ?thesis
  proof (cases "es_operation spec = ''add''")
    case True
    have "vm_lifecycle_state v = Available" if v: "v \<in> set (ad_vms db)" "vm_id v \<in> set ?ids" for v
    proof -
      have "vm_id v \<in> set (map vm_id vms)" using v(2) I(3) by (auto simp: moved_ids_of_def)
      then obtain u where "u \<in> set vms" "vm_id u = vm_id v" by auto
      moreover from this rows v(1) ws have "u = v"
        by (auto simp: wf_session_def wf_rows_def distinct_map inj_on_def)
      moreover have "filter (\<lambda>v. vm_lifecycle_state v \<noteq> Available)
          (filter (\<lambda>v. vm_id v \<in> mv_vm_id ` set (pp_moves pe)) vms) = []"
        using tv True by (auto simp: target_violations_def blocked_one_def plain_violation_def split: if_splits)
      ultimately show ?thesis using v(2) by (auto simp: filter_empty_conv)
    qed
    with to_planned_succeeds [OF I(1)] obtain s' r where
        "transition_to_planned (sv_now (ee_service env)) ?ids (mp_id (pp_target pe)) (sv_actor (ee_service env)) ''plan.edit.add''
          (ad_session db) = (s', Inr r)" by blast
    with True show ?thesis by (simp add: edit_lifecycle_def op)
  next
    case add: False
    show ?thesis
    proof (cases "es_operation spec = ''move_to_plan''")
      case True
      have p: "p \<in> set (ad_plans db)" "mp_status p = ''complete''"
        using g shape by (auto simp: edit_shape_def dest: get_plan_Some)
      obtain xs ys where split: "ad_plans db = xs @ p # ys" using p(1) by (auto simp: in_set_conv_decomp)
      have "set ?ids \<subseteq> planned_vms (ad_session db)"
        using update_planned(1) [OF db split open_complete [OF p(2)] refl refl] I(1) I(5) [OF add]
          consistent_members(2) [OF db p] by blast
      with reassign_Inr [OF ws] True show ?thesis by (simp add: edit_lifecycle_def op)
    next
      case False
      with add ops show ?thesis
        by (auto simp: edit_lifecycle_def op transition_to_available_from_plan_edit_def release_planned_to_available_def Let_def
            split: prod.split)
    qed
  qed
qed

lemma preview_commits:
  assumes "consistent db" and "edit_plan env pid request True confirm db = (db, Inr pe)" and "pp_blocking pe = []"
  shows "\<exists>db'. edit_plan env pid request False True db = (db', Inr pe)"
proof -
  from assms(2) obtain p where p: "get_plan db pid = Some p" and prep: "prepare env db p (spec_of request) = Inr pe"
    by (auto simp: edit_plan_def Let_def spec_of_def split: option.splits sum.splits)
  obtain target dest vms where f: "edit_facts db pid (spec_of request) p target dest vms pe"
    using prepare_facts [OF assms(1) p prep] by blast
  obtain s' where "edit_lifecycle env pe (ad_session db) = (s', Inr ())"
    using edit_lifecycle_succeeds [OF assms(1) f assms(3)] by blast
  then obtain db' where "apply_edit env pe db = Inr db'"
    using assms(3) by (simp add: apply_edit_def in_session_def Let_def)
  with p prep assms(3) show ?thesis
    by (simp add: edit_plan_def Let_def spec_of_def)
qed

text \<open>
  C17: An accepted preview can be committed. On consistent tables, when a dry run answers with a
  prepared edit that has no blocking violation, the same request with the overrides confirmed is
  committed with exactly the edit that was previewed: the lifecycle transition cannot refuse it.
\<close>

theorem edit_preview_commits:
  assumes "consistent db" and "edit_plan env pid request True confirm db = (db, Inr pe)" and "pp_blocking pe = []"
  shows "\<exists>db'. edit_plan env pid request False True db = (db', Inr pe)"
  by (rule preview_commits [OF assms])

end
