(* ===== verification/Plan_Workflow.thy ===== *)
theory Plan_Workflow
  imports Plan_Creation Plan_Edit_Guarantees Pipeline_Properties
begin

text \<open>
  The life of a plan, request by request: creation, background generation, edits, deletion, the
  mark of success, start-up recovery and changes of the machine rows, as steps on the tables.
  Every reachable state is consistent, an interrupted generation is recovered at start-up, and
  three requests that the code accepts outside this workflow break the agreement.
\<close>

section \<open>Generation\<close>

definition group_ids_distinct :: "vm list \<Rightarrow> bool" where
  "group_ids_distinct vms \<longleftrightarrow> distinct (map g_id (split_oversized_groups default_assigner (plan_groups vms)))"

lemma concurrency_keeps_numbers:
  "map w_wave_number (assign_concurrency_groups ws names) = map w_wave_number ws"
proof -
  have "map w_wave_number (map (\<lambda>(i, w). w\<lparr>w_concurrency_group_id := c i\<rparr>) (enumerate n ws)) = map w_wave_number ws" for c n
    by (induction ws arbitrary: n) simp_all
  then show ?thesis by (simp add: assign_concurrency_groups_def Let_def split: prod.split)
qed

lemma pipeline_numbered:
  assumes "run_pipeline env pid vms mappings catalogs migration_type = Inr (aws, groups)"
  shows "map (\<lambda>a. w_wave_number (aw_wave a)) aws = [1..<length aws + 1]" and "groups = plan_groups vms"
proof -
  from assms obtain ws where r: "assign_waves default_assigner (plan_groups vms) = Inr ws"
      "emit_waves (emit_wave env pid vms mappings catalogs migration_type)
        (assign_concurrency_groups ws (name_lookup vms)) = Inr aws"
    and g: "groups = plan_groups vms"
    by (auto simp: run_pipeline_def Let_def split: if_splits sum.splits)
  show "groups = plan_groups vms" by (rule g)
  have "map aw_wave aws = assign_concurrency_groups ws (name_lookup vms) \<and> list_all (\<lambda>_. True) aws"
    using r(2) by (rule emit_waves_Inr) (simp add: emit_wave_Inr)
  then have aw: "map aw_wave aws = assign_concurrency_groups ws (name_lookup vms)" ..
  have "map (\<lambda>a. w_wave_number (aw_wave a)) aws = map w_wave_number (map aw_wave aws)" by simp
  also have "\<dots> = map w_wave_number ws" unfolding aw by (rule concurrency_keeps_numbers)
  also have "\<dots> = [1..<length ws + 1]" by (rule assign_waves_numbered [OF r(1) [unfolded default_assigner_def]])
  also have "length ws = length aws"
    using arg_cong [OF aw, of length] by (simp add: length_assign_concurrency)
  finally show "map (\<lambda>a. w_wave_number (aw_wave a)) aws = [1..<length aws + 1]" .
qed

text \<open>What the background task computes is complete.\<close>

lemma generate_complete:
  assumes "wf_rows (ad_vms db)" and "group_ids_distinct (select_vms (ad_vms db) ids)" and "distinct ids"
  shows "complete_outcome ids (generate env db pid ids)"
proof -
  have u: "unique_in_order ids = ids" using assms(3) by (rule unique_in_order_id)
  let ?vms = "select_vms (ad_vms db) ids"
  show ?thesis
  proof (cases "generate env db pid ids")
    case (Generation_done aws)
    then obtain mappings catalogs t groups where none: "filter (\<lambda>i. i \<notin> vm_id ` set ?vms) ids = []"
        and run: "run_pipeline (sv_pipeline env) pid ?vms mappings catalogs t = Inr (aws, groups)"
      unfolding generate_def Let_def u by (auto split: if_splits option.splits sum.splits)
    note rows = selected_rows [OF assms(1) none assms(3)]
    note num = pipeline_numbered [OF run]
    have "mset (concat (map (\<lambda>a. w_vm_ids (aw_wave a)) aws)) = mset (map vm_id ?vms)"
      using pipeline_result [OF run] rows(2) assms(2)
      unfolding num(2) wf_rows_def group_ids_distinct_def by blast
    then have "mset (concat (map (\<lambda>a. w_vm_ids (aw_wave a)) aws)) = mset ids" using rows(1) by (rule trans)
    moreover have "distinct (map (\<lambda>a. w_wave_number (aw_wave a)) aws)" unfolding num(1) by simp
    ultimately show ?thesis unfolding Generation_done complete_outcome_def by simp
  qed (simp_all add: complete_outcome_def)
qed

section \<open>The workflow\<close>

text \<open>A plan that can be ended: one that holds its machines, or none of them is planned elsewhere.\<close>

definition may_end :: "app_db \<Rightarrow> int \<Rightarrow> bool" where
  "may_end db pid \<longleftrightarrow>
     (case get_plan db pid of
        None \<Rightarrow> True
      | Some p \<Rightarrow> open_plan p \<or> set (mp_vm_ids p) \<inter> planned_vms (ad_session db) = {})"

definition generating :: "app_db \<Rightarrow> int \<Rightarrow> migration_plan \<Rightarrow> bool" where
  "generating db pid p \<longleftrightarrow> get_plan db pid = Some p \<and> mp_status p \<in> set ORPHAN_STATUSES"

definition add_row :: "vm \<Rightarrow> app_db \<Rightarrow> app_db" where
  "add_row v db = db\<lparr>ad_session := (ad_session db)\<lparr>s_vms := s_vms (ad_session db) @ [v]\<rparr>\<rparr>"

inductive app_step :: "app_db \<Rightarrow> app_db \<Rightarrow> bool" where
  Create: "app_step db (fst (create_plan env payload db))"
| Progress: "generating db pid p \<Longrightarrow> stage \<in> set STAGE_STATUS \<Longrightarrow> app_step db (progress pid stage db)"
| Finish: "generating db pid p \<Longrightarrow> wf_rows (ad_vms db0) \<Longrightarrow>
    group_ids_distinct (select_vms (ad_vms db0) (mp_vm_ids p)) \<Longrightarrow>
    app_step db (finish_generation env pid (mp_vm_ids p) how (generate env db0 pid (mp_vm_ids p)) db)"
| Restart: "app_step db (fail_orphan_plans now db)"
| Edit: "app_step db (fst (edit_plan eenv pid request dry_run confirm db))"
| Delete: "may_end db pid \<Longrightarrow> app_step db (fst (delete_plan env pid db))"
| Mark: "may_end db pid \<Longrightarrow> app_step db (fst (mark_plan_succeeded env pid db))"
| Update_vm: "pred_option keeps_lifecycle updates \<Longrightarrow> app_step db (fst (update_vm env vid target updates db))"
| Delete_vm: "app_step db (fst (delete_vm env vid db))"
| Add_vm: "vm_id v \<notin> row_ids (ad_session db) \<union> set (held db) \<Longrightarrow> vm_lifecycle_state v = Available \<Longrightarrow>
    app_step db (add_row v db)"

inductive app_steps :: "app_db \<Rightarrow> app_db \<Rightarrow> bool" where
  app_refl: "app_steps db db"
| app_trans: "app_steps db db' \<Longrightarrow> app_step db' db'' \<Longrightarrow> app_steps db db''"

inductive_cases app_stepE: "app_step db db'"

lemma consistent_add_row:
  assumes "consistent db" and "vm_id v \<notin> row_ids (ad_session db) \<union> set (held db)" and "vm_lifecycle_state v = Available"
  shows "consistent (add_row v db)"
proof -
  let ?s = "ad_session (add_row v db)"
  have "planned_vms ?s = planned_vms (ad_session db)" "row_ids ?s = insert (vm_id v) (row_ids (ad_session db))"
    using assms(3) by (auto simp: add_row_def planned_vms_def row_ids_def)
  moreover have "wf_session ?s"
    using assms(1,2) by (simp add: consistent_def wf_app_def wf_session_def wf_rows_def add_row_def row_ids_def)
  ultimately show ?thesis
    using assms(1,2) by (auto simp: consistent_def wf_app_def held_def add_row_def)
qed

text \<open>Every step keeps the tables consistent.\<close>

lemma app_step_consistent: "app_step db db' \<Longrightarrow> consistent db \<Longrightarrow> consistent db'"
proof (induction rule: app_step.induct)
  case (Create db env payload)
  then show ?case by (rule consistent_create_plan)
next
  case (Progress db pid p stage)
  then have p: "get_plan db pid = Some p" "mp_status p \<in> set ORPHAN_STATUSES" by (simp_all add: generating_def)
  with Progress show ?case by (intro consistent_progress [OF _ p(1) in_progress_open [OF p(2)]])
next
  case (Finish db pid p db0 env how)
  then have p: "get_plan db pid = Some p" "mp_status p \<in> set ORPHAN_STATUSES" by (simp_all add: generating_def)
  have wf: "wf_app db" using Finish.prems by (simp add: consistent_def)
  obtain xs ys where "ad_plans db = xs @ p # ys" "mp_id p = pid" "pid \<notin> mp_id ` set xs" "pid \<notin> mp_id ` set ys"
    using p(1) wf by (rule get_plan_split)
  then have "distinct (mp_vm_ids p)"
    using Finish.prems in_progress_open [OF p(2)] by (simp add: consistent_def held_def)
  with Finish have "complete_outcome (mp_vm_ids p) (generate env db0 pid (mp_vm_ids p))"
    by (intro generate_complete)
  then show ?case by (rule consistent_finish [OF Finish.prems p])
next
  case (Restart db now)
  then show ?case by (rule consistent_fail_orphans)
next
  case (Edit db eenv pid request dry_run confirm)
  then show ?case by (rule consistent_edit_plan)
next
  case (Delete db pid env)
  then show ?case by (intro consistent_delete_plan) (simp_all add: may_end_def)
next
  case (Mark db pid env)
  then show ?case by (intro consistent_mark) (simp_all add: may_end_def)
next
  case (Update_vm updates db env vid target)
  then show ?case by (intro consistent_update_vm) (cases updates; simp)+
next
  case (Delete_vm db env vid)
  then show ?case by (rule consistent_delete_vm)
next
  case (Add_vm v db)
  then show ?case by (intro consistent_add_row)
qed

lemma app_steps_consistent: "app_steps db db' \<Longrightarrow> consistent db \<Longrightarrow> consistent db'"
  by (induction rule: app_steps.induct) (auto intro: app_step_consistent)


section \<open>The guarantees\<close>

text \<open>An installation that has planned nothing yet.\<close>

definition fresh_app :: "app_db \<Rightarrow> bool" where
  "fresh_app db \<longleftrightarrow> wf_session (ad_session db) \<and> ad_plans db = [] \<and>
     list_all (\<lambda>v. vm_lifecycle_state v \<noteq> Planned) (ad_vms db)"

lemma fresh_consistent: "fresh_app db \<Longrightarrow> consistent db"
  by (auto simp: fresh_app_def consistent_def wf_app_def held_def held_of_def planned_vms_def list_all_iff)


section \<open>Start-up recovery\<close>

definition fail_status :: "int list \<Rightarrow> migration_plan \<Rightarrow> migration_plan" where
  "fail_status pids p = (if mp_id p \<in> set pids then p\<lparr>mp_status := ''failed''\<rparr> else p)"

lemma fail_plan_plans:
  "ad_plans (fail_plan now pid db) = map (fail_status [pid]) (ad_plans db)"
proof (cases "get_plan db pid")
  case None
  then have "fail_status [pid] p = p" if "p \<in> set (ad_plans db)" for p
    using that by (auto simp: fail_status_def get_plan_def find_None_iff)
  with None show ?thesis by (simp add: fail_plan_None map_idI)
next
  case (Some p)
  show ?thesis
    unfolding fail_plan_Some [OF Some] by (simp add: set_status_def update_plan_def fail_status_def)
qed

lemma fail_plans_plans:
  "ad_plans (fold (fail_plan now) pids db) = map (fail_status pids) (ad_plans db)"
proof (induction pids arbitrary: db)
  case Nil
  show ?case by (simp add: fail_status_def)
next
  case (Cons pid pids)
  have "fail_status pids (fail_status [pid] p) = fail_status (pid # pids) p" for p
    by (simp add: fail_status_def)
  with Cons show ?case by (simp add: fail_plan_plans comp_def)
qed

text \<open>
  C20: Start-up recovers interrupted generations. After the recovery no plan is left in an
  in-progress status, every plan that was is failed, all other plans are as they were, and none
  of the machines of a recovered plan is still planned, so a new plan can take them.
\<close>

theorem startup_recovers:
  assumes "consistent db"
  shows "let db' = fail_orphan_plans now db in
    list_all (\<lambda>p. mp_status p \<notin> set ORPHAN_STATUSES) (ad_plans db') \<and>
    ad_plans db' = map (\<lambda>p. if mp_status p \<in> set ORPHAN_STATUSES then p\<lparr>mp_status := ''failed''\<rparr> else p) (ad_plans db) \<and>
    (\<forall>p\<in>set (ad_plans db). mp_status p \<in> set ORPHAN_STATUSES \<longrightarrow>
      set (mp_vm_ids p) \<inter> planned_vms (ad_session db') = {})"
proof -
  let ?db = "fail_orphan_plans now db"
  let ?g = "\<lambda>p. if mp_status p \<in> set ORPHAN_STATUSES then p\<lparr>mp_status := ''failed''\<rparr> else p"
  let ?pids = "map mp_id (filter (\<lambda>p. mp_status p \<in> set ORPHAN_STATUSES) (ad_plans db))"
  have wf: "wf_app db" using assms by (simp add: consistent_def)
  have "fail_status ?pids p = ?g p" if "p \<in> set (ad_plans db)" for p
    using that wf by (auto simp: fail_status_def wf_app_def distinct_map inj_on_def)
  then have plans: "ad_plans ?db = map ?g (ad_plans db)"
    unfolding fail_orphan_plans_def fail_plans_plans by (intro map_cong) auto
  have none: "list_all (\<lambda>p. mp_status p \<notin> set ORPHAN_STATUSES) (ad_plans ?db)"
  proof -
    have "''failed'' \<notin> set ORPHAN_STATUSES" by (simp add: ORPHAN_STATUSES_def)
    then show ?thesis unfolding plans by (auto simp: list_all_iff)
  qed
  have free: "set (mp_vm_ids p) \<inter> planned_vms (ad_session ?db) = {}"
    if p: "p \<in> set (ad_plans db)" "mp_status p \<in> set ORPHAN_STATUSES" for p
  proof -
    obtain xs ys where split: "ad_plans db = xs @ p # ys" using p(1) by (auto simp: in_set_conv_decomp)
    have sub: "set (held_of (map ?g zs)) \<subseteq> set (held_of zs)" for zs
      by (induction zs) (auto simp: open_plan_def)
    have "held ?db = held_of (map ?g xs) @ held_of (map ?g ys)"
      using p(2) by (simp add: held_def plans split open_plan_def)
    then have "set (held ?db) \<subseteq> set (held_of xs) \<union> set (held_of ys)" using sub by auto
    moreover have "set (mp_vm_ids p) \<inter> (set (held_of xs) \<union> set (held_of ys)) = {}"
      by (rule update_planned(3) [OF assms split in_progress_open [OF p(2)] refl refl])
    moreover have "planned_vms (ad_session ?db) \<subseteq> set (held ?db)"
      using consistent_fail_orphans [OF assms, of now] by (auto simp: consistent_def)
    ultimately show ?thesis by blast
  qed
  show ?thesis unfolding Let_def using none plans free by blast
qed

end
