(* ===== verification/Plan_Examples.thy ===== *)
theory Plan_Examples
  imports Plan_Workflow
begin

text \<open>
  A small installation worked through: three machines planned, generated and edited. It shows
  that the hypotheses of the guarantees hold in ordinary states, and three requests which the
  endpoints accept and after which the machines and the plans disagree.
\<close>

section \<open>The installation\<close>

definition demo_senv :: service_env where
  "demo_senv = \<lparr>sv_now = 5, sv_actor = ''ops'', sv_series_id = ''s1'', sv_max_vms_per_plan = 50,
     sv_max_scope = 100, sv_pipeline = demo_env\<rparr>"

definition demo_annotate :: "wave \<Rightarrow> manual_edit \<Rightarrow> override_entry list \<Rightarrow> string" where
  "demo_annotate w e os = ''edited''"

definition demo_token :: "nat \<Rightarrow> string" where
  "demo_token n = ''token''"

definition demo_eenv :: edit_env where
  "demo_eenv = \<lparr>ee_service = demo_senv, ee_annotate = demo_annotate, ee_token = demo_token\<rparr>"

definition demo_app :: app_db where
  "demo_app = \<lparr>ad_session = \<lparr>s_vms = demo_vms, s_audit = []\<rparr>, ad_targets = demo_db [demo_mapping 1 1 ''ceph''],
     ad_vcenters = [(1, ''vc-a'')], ad_plans = [], ad_baseline_runs = [], ad_validation_runs = [],
     ad_next_plan_id = 1\<rparr>"

definition demo_payload :: "int list \<Rightarrow> plan_create" where
  "demo_payload ids = \<lparr>pc_name = ''move'', pc_vm_ids = ids, pc_migration_type = ''cold'', pc_mapping_ids = None,
     pc_skip_ineligible = False, pc_override_assessment = False\<rparr>"

definition demo_how :: "annotated_wave \<Rightarrow> string" where
  "demo_how aw = ''mechanical''"

definition demo_created :: app_db where
  "demo_created = fst (create_plan demo_senv (demo_payload [1, 2]) demo_app)"

definition demo_finished :: app_db where
  "demo_finished = finish_generation demo_senv 1 [1, 2] demo_how (generate demo_senv demo_created 1 [1, 2]) demo_created"

lemma demo_created_ok: "snd (create_plan demo_senv (demo_payload [1, 2]) demo_app) = Inr [1]"
  by code_simp

lemma demo_created_plan:
  "map (\<lambda>p. (mp_id p, mp_status p, mp_vm_ids p)) (ad_plans demo_created) = [(1, ''pending'', [1, 2])]"
  by code_simp

lemma demo_ids: "group_ids_distinct (select_vms (ad_vms demo_created) [1, 2])"
  by code_simp

lemma demo_finished_plan:
  "map (\<lambda>p. (mp_id p, mp_status p, mp_vm_ids p)) (ad_plans demo_finished) = [(1, ''complete'', [1, 2])]"
  by code_simp

section \<open>The guarantees at work\<close>

lemma demo_fresh: "fresh_app demo_app"
  by code_simp

lemma demo_generating: "generating demo_created 1 (hd (ad_plans demo_created))"
  by code_simp

lemma demo_plan_ids: "mp_vm_ids (hd (ad_plans demo_created)) = [1, 2]"
  by code_simp

lemma demo_created_steps: "app_steps demo_app demo_created"
  unfolding demo_created_def by (rule app_trans [OF app_refl Create])

lemma demo_finished_steps: "app_steps demo_app demo_finished"
proof (rule app_trans [OF demo_created_steps])
  have "wf_rows (ad_vms demo_created)" by code_simp
  from Finish [OF demo_generating this, unfolded demo_plan_ids, OF demo_ids]
  show "app_step demo_created demo_finished" unfolding demo_finished_def .
qed

lemma demo_created_consistent: "consistent demo_created"
  by (rule app_steps_consistent [OF demo_created_steps fresh_consistent [OF demo_fresh]])

text \<open>A finished plan with one wave, and a third machine to be added to it.\<close>

definition demo_doc :: wave_doc where
  "demo_doc = \<lparr>wd_wave_number = 1, wd_vm_ids = [1, 2], wd_vm_names = [''a'', ''b''], wd_group_ids = [''g''],
     wd_vm_count = 2, wd_estimated_risk = ''low'', wd_concurrency_group_id = 1, wd_description = ''first'',
     wd_method = ''mechanical'', wd_mtv_yaml_available = True, wd_manual_edit = None, wd_overrides = [],
     wd_reannotation = None\<rparr>"

definition demo_plan :: migration_plan where
  "demo_plan = \<lparr>mp_id = 1, mp_name = ''move'', mp_vm_ids = [1, 2], mp_waves = [demo_doc], mp_mapping_ids = [1],
     mp_status = ''complete'', mp_migration_type = ''cold'', mp_series_id = None, mp_series_index = None,
     mp_series_total = None, mp_excluded_vms = [], mp_wave_number_seq = None\<rparr>"

definition demo_stored :: app_db where
  "demo_stored = demo_app\<lparr>ad_session := \<lparr>s_vms = [(demo_vm 1 ''a'')\<lparr>vm_lifecycle_state := Planned\<rparr>,
      (demo_vm 2 ''b'')\<lparr>vm_lifecycle_state := Planned\<rparr>, demo_vm 3 ''c''], s_audit = []\<rparr>,
     ad_plans := [demo_plan], ad_next_plan_id := 2\<rparr>"

definition add_request :: edit_spec where
  "add_request = \<lparr>es_operation = ''add'', es_vm_ids = [3], es_target_wave = None, es_new_wave = True,
     es_target_plan_id = None, es_note = None\<rparr>"

definition demo_prepared :: prepared_edit where
  "demo_prepared = projr (prepare demo_eenv demo_stored demo_plan (spec_of add_request))"

lemma demo_stored_consistent: "consistent demo_stored"
  by code_simp

lemma demo_prepare:
  "(case prepare demo_eenv demo_stored demo_plan (spec_of add_request) of
      Inl e \<Rightarrow> False
    | Inr pe \<Rightarrow> pp_moves pe \<noteq> [] \<and> pp_changes pe \<noteq> [] \<and> pp_blocking pe = [])"
  by code_simp

lemma demo_prepare_facts:
  "prepare demo_eenv demo_stored demo_plan (spec_of add_request) = Inr demo_prepared"
  "pp_moves demo_prepared \<noteq> []" "pp_changes demo_prepared \<noteq> []" "pp_blocking demo_prepared = []"
  using demo_prepare by (auto simp: demo_prepared_def split: sum.splits)

lemma demo_preview: "edit_plan demo_eenv 1 add_request True False demo_stored = (demo_stored, Inr demo_prepared)"
proof -
  have "get_plan demo_stored 1 = Some demo_plan" by (simp add: get_plan_def demo_stored_def demo_plan_def)
  then show ?thesis
    using demo_prepare_facts(1) by (simp add: edit_plan_def Let_def spec_of_def)
qed

definition demo_edited :: app_db where
  "demo_edited = fst (edit_plan demo_eenv 1 add_request False True demo_stored)"

lemma demo_edit_ok: "edit_plan demo_eenv 1 add_request False True demo_stored = (demo_edited, Inr demo_prepared)"
  using preview_commits [OF demo_stored_consistent demo_preview demo_prepare_facts(4)]
  by (auto simp: demo_edited_def)


theorem startup_recovers_witness:
  "(let db' = fail_orphan_plans 9 demo_created in
    list_all (\<lambda>p. mp_status p \<notin> set ORPHAN_STATUSES) (ad_plans db') \<and>
    ad_plans db' = map (\<lambda>p. if mp_status p \<in> set ORPHAN_STATUSES then p\<lparr>mp_status := ''failed''\<rparr> else p) (ad_plans demo_created) \<and>
    (\<forall>p\<in>set (ad_plans demo_created). mp_status p \<in> set ORPHAN_STATUSES \<longrightarrow>
      set (mp_vm_ids p) \<inter> planned_vms (ad_session db') = {})) \<and>
   list_ex (\<lambda>p. mp_status p \<in> set ORPHAN_STATUSES) (ad_plans demo_created)"
proof
  show "list_ex (\<lambda>p. mp_status p \<in> set ORPHAN_STATUSES) (ad_plans demo_created)" by code_simp
qed (rule startup_recovers [OF demo_created_consistent])

theorem create_plan_accounts_witness:
  "\<exists>new excluded. ad_plans demo_created = ad_plans demo_app @ new \<and> map mp_id new = [1] \<and>
    mset (concat (map mp_vm_ids new)) + mset (map fst excluded) = mset (unique_in_order (pc_vm_ids (demo_payload [1, 2]))) \<and>
    list_all (plan_rows_ok demo_senv demo_app excluded) new"
proof (rule create_plan_accounts)
  show "create_plan demo_senv (demo_payload [1, 2]) demo_app = (demo_created, Inr [1])"
    using demo_created_ok by (metis demo_created_def prod.collapse)
  show "wf_rows (ad_vms demo_app)" by code_simp
qed

theorem edit_moves_machines_witness:
  "\<exists>p target p' target'. get_plan demo_stored 1 = Some p \<and> get_plan demo_stored (mp_id target) = Some target \<and>
    pp_source demo_prepared = p \<and> pp_target demo_prepared = target \<and>
    get_plan demo_edited 1 = Some p' \<and> get_plan demo_edited (mp_id target) = Some target' \<and>
    mv_vm_id ` set (pp_moves demo_prepared) \<subseteq> set (es_vm_ids add_request) \<and>
    moved_as_announced p target p' target' (pp_moves demo_prepared) (row_ids (ad_session demo_stored)) \<and>
    (\<forall>qid. qid \<noteq> 1 \<and> qid \<noteq> mp_id target \<longrightarrow> get_plan demo_edited qid = get_plan demo_stored qid)"
  by (rule edit_moves_machines [OF demo_stored_consistent demo_edit_ok])

theorem edit_wave_numbers_fresh_witness:
  "\<exists>q q'. get_plan demo_stored (fst (hd (pp_changes demo_prepared))) = Some q \<and>
    get_plan demo_edited (fst (hd (pp_changes demo_prepared))) = Some q' \<and>
    mp_waves q' = ch_waves (snd (hd (pp_changes demo_prepared))) \<and>
    distinct (map wd_wave_number (mp_waves q')) \<and>
    list_all (\<lambda>n. seq_or_zero q < n \<and> list_all (\<lambda>w. wd_wave_number w < n) (mp_waves q))
      (ch_created_waves (snd (hd (pp_changes demo_prepared)))) \<and>
    seq_or_zero q \<le> seq_or_zero q' \<and>
    list_all (\<lambda>w. wd_wave_number w \<le> seq_or_zero q') (mp_waves q @ mp_waves q')"
  by (rule edit_wave_numbers_fresh [OF demo_stored_consistent demo_edit_ok])
    (use demo_prepare_facts(3) in simp)

theorem edit_keeps_partitions_witness:
  "\<exists>tp v pt. dict_get (plan_partitions demo_stored [pp_target demo_prepared]) (mp_id (pp_target demo_prepared)) = Some (Some tp) \<and>
    v \<in> set (ad_vms demo_stored) \<and> vm_id v = mv_vm_id (hd (pp_moves demo_prepared)) \<and>
    vm_partition demo_stored v = Some pt \<and> pt_key pt = pt_key tp"
  by (rule edit_keeps_partitions [OF demo_stored_consistent demo_edit_ok])
    (use demo_prepare_facts(2) in \<open>simp_all add: add_request_def\<close>)

theorem edit_errors_change_nothing_witness:
  "fst (edit_plan demo_eenv 1 (add_request\<lparr>es_vm_ids := [9]\<rparr>) False True demo_stored) = demo_stored \<and>
    isl (snd (edit_plan demo_eenv 1 (add_request\<lparr>es_vm_ids := [9]\<rparr>) False True demo_stored))"
proof -
  have err: "isl (snd (edit_plan demo_eenv 1 (add_request\<lparr>es_vm_ids := [9]\<rparr>) False True demo_stored))" by code_simp
  with edit_errors_change_nothing [OF demo_stored_consistent
      prod.collapse [of "edit_plan demo_eenv 1 (add_request\<lparr>es_vm_ids := [9]\<rparr>) False True demo_stored", symmetric]]
  show ?thesis by simp
qed

theorem edit_preview_commits_witness:
  "\<exists>db'. edit_plan demo_eenv 1 add_request False True demo_stored = (db', Inr demo_prepared)"
  by (rule edit_preview_commits [OF demo_stored_consistent demo_preview demo_prepare_facts(4)])

section \<open>Requests that break the agreement\<close>

text \<open>A machine that an open plan lists is not planned.\<close>

definition taken_away :: "app_db \<Rightarrow> int \<Rightarrow> bool" where
  "taken_away db vid \<longleftrightarrow> list_ex (\<lambda>p. open_plan p \<and> vid \<in> set (mp_vm_ids p)) (ad_plans db) \<and>
     list_ex (\<lambda>v. vm_id v = vid \<and> vm_lifecycle_state v \<noteq> Planned) (ad_vms db)"

definition demo_replanned :: app_db where
  "demo_replanned = fst (create_plan demo_senv (demo_payload [1, 2]) (fail_orphan_plans 6 demo_created))"

definition demo_returned :: app_db where
  "demo_returned =
     fst (update_vm demo_senv 1 (Some Available) None
       (fst (update_vm demo_senv 1 (Some Rolled_back) None
         (fst (mark_plan_succeeded demo_senv 1 demo_finished)))))"

definition demo_remarked :: app_db where
  "demo_remarked = fst (create_plan demo_senv (demo_payload [1]) demo_returned)"

lemma demo_replanned_steps: "app_steps demo_app demo_replanned"
  unfolding demo_replanned_def
  by (rule app_trans [OF app_trans [OF demo_created_steps Restart] Create])

lemma demo_remarked_steps: "app_steps demo_app demo_remarked"
proof -
  have "may_end demo_finished 1" by code_simp
  from app_trans [OF demo_finished_steps Mark [OF this]]
  show ?thesis
    unfolding demo_remarked_def demo_returned_def
    by (intro app_trans [OF app_trans [OF app_trans [OF _ Update_vm] Update_vm] Create]) simp_all
qed

lemma stale_delete:
  "\<not> taken_away demo_replanned 1" "snd (delete_plan demo_senv 1 demo_replanned) = Inr ()"
  "taken_away (fst (delete_plan demo_senv 1 demo_replanned)) 1"
  subgoal by code_simp
  subgoal by code_simp
  subgoal by code_simp
  done

lemma stale_mark:
  "\<not> taken_away demo_remarked 1" "snd (mark_plan_succeeded demo_senv 1 demo_remarked) = Inr ()"
  "taken_away (fst (mark_plan_succeeded demo_senv 1 demo_remarked)) 1"
  subgoal by code_simp
  subgoal by code_simp
  subgoal by code_simp
  done

text \<open>
  Ending a plan that no longer holds its machines takes them from the plan that does. In two
  states that ordinary requests reach, deleting a failed plan and marking an already migrated
  plan as succeeded are accepted, and the machines of another, open plan are no longer planned.
\<close>

theorem stale_plans_take_machines:
  "\<exists>db1 db2. app_steps demo_app db1 \<and> app_steps demo_app db2 \<and>
    \<not> taken_away db1 1 \<and> snd (delete_plan demo_senv 1 db1) = Inr () \<and>
    taken_away (fst (delete_plan demo_senv 1 db1)) 1 \<and>
    \<not> taken_away db2 1 \<and> snd (mark_plan_succeeded demo_senv 1 db2) = Inr () \<and>
    taken_away (fst (mark_plan_succeeded demo_senv 1 db2)) 1"
  by (intro exI [of _ demo_replanned] exI [of _ demo_remarked] conjI demo_replanned_steps demo_remarked_steps
      stale_delete stale_mark)

text \<open>Deleting one machine row of a finished plan makes the plan impossible to mark as succeeded.\<close>

lemma deleted_row_blocks_success:
  "app_steps demo_app (fst (delete_vm demo_senv 1 demo_finished))"
  "isl (snd (mark_plan_succeeded demo_senv 1 (fst (delete_vm demo_senv 1 demo_finished))))"
  subgoal by (rule app_trans [OF demo_finished_steps Delete_vm])
  subgoal by code_simp
  done

end
