(* ===== verification/Spec2Isabelle.thy ===== *)
theory Spec2Isabelle
  imports Wave_Properties Wave_Constraints Lifecycle_Audit Concurrency Plan_Chunking Environment Validation_Properties
    Wave_Jobs_Properties Ssh_Properties Mapping_Checks_Properties
    Capture_Steps Bulk_Capture Baseline_Profile Validation_Schedules
    Classification Preclassifier_Properties Pipeline_Properties Assessment Plan_Creation
    Plan_Edit_Guarantees Plan_Workflow Plan_Examples
begin

text \<open>
  VirtValidate plans the migration of virtual machines from VMware vCenters to OpenShift clusters,
  collects the state of the guests over SSH before and after, and says whether each machine came
  through. This library models the decisions of its backend (\<open>src/backend/app\<close>) and proves what makes
  them correct. All file names below are relative to that directory.

  \<^bold>\<open>How the program fits together.\<close> An inventory row (\<open>models/vm.py\<close>) is selected for a plan. The
  endpoint \<open>create_plan\<close> checks it (assessment, lifecycle, target cluster), cuts the selection into
  partitions and batches and stores plan rows; a background task runs the pipeline: Stage 0 checks the
  resource mapping, the pre-classifier groups the machines, families are split, the assigner packs the
  groups into waves, waves get concurrency ids, and the generator emits one migration document per wave.
  Operators may then move machines between waves. Before a wave migrates, a baseline run collects its
  guests concurrently; afterwards a validation run collects them again and compares. Single machines
  and batches of machines are validated by a second pipeline: diff, rule tiers, verdict cache, language
  model. Every SSH command passes a gate that is to let only read-only commands through.

  \<^bold>\<open>Theories and sources.\<close>

  \<^item> \<open>Prelude\<close>: Python's string methods on ASCII text, decimal rendering, dicts in insertion order as
    association lists, stable sorting, and generic lemmas on lists and multisets.
  \<^item> \<open>Inventory\<close>: the columns of \<open>models/vm.py\<close>; \<open>VM_Groups\<close>: the group types of
    \<open>core/preclassifier.py\<close>; \<open>Target_Mapping\<close>: \<open>models/target*.py\<close>, \<open>core/mapping_catalog.py\<close>.
  \<^item> \<open>Environment\<close>, \<open>Classification\<close>, \<open>Preclassifier\<close>, \<open>Preclassifier_Properties\<close>:
    \<open>core/environment.py\<close>, \<open>core/preclassifier.py\<close> (\<open>normalize\<close>, \<open>detect_environment\<close>, role, state, risk,
    \<open>classify\<close>). Classification neither loses nor duplicates machines and respects scopes.
  \<^item> \<open>Family\<close>: \<open>core/family.py\<close>. \<open>Wave_Skeleton\<close>, \<open>Wave_Order\<close>, \<open>Wave_Packing\<close>, \<open>Wave_Properties\<close>:
    \<open>MechanicalWaveAssigner\<close> of \<open>core/wave_skeleton.py\<close>; \<open>Wave_Constraints\<close>, \<open>Concurrency\<close>:
    \<open>core/wave_constraints.py\<close>, \<open>core/concurrency.py\<close>. The packing loop always succeeds; the waves keep
    caps, scopes, spreads and dependencies.
  \<^item> \<open>Mapping_Resolver\<close>, \<open>MTV\<close>, \<open>MTV_Properties\<close>: \<open>core/mtv.py\<close>, \<open>core/mtv_validate.py\<close>;
    \<open>Mapping_Validation\<close>: \<open>core/mapping_validation.py\<close>; \<open>Target_Resolution\<close>:
    \<open>core/target_resolution.py\<close>; \<open>Plan_Pipeline\<close>, \<open>Pipeline_Properties\<close>: \<open>core/plan_pipeline.py\<close> and
    how the three readings of a mapping agree.
  \<^item> \<open>Lifecycle\<close>, \<open>Lifecycle_Audit\<close>: \<open>core/vm_lifecycle.py\<close>, \<open>core/audit.py\<close>; the log replays to the state.
  \<^item> \<open>Assessment\<close>: \<open>core/assessment.py\<close>; \<open>Plan_Chunking\<close>: \<open>core/plan_chunking.py\<close>; \<open>Plan_Membership\<close>:
    \<open>core/plan_membership.py\<close>, \<open>models/plan.py\<close>; \<open>Plan_Service\<close>: the endpoints of \<open>api/plans.py\<close> and
    \<open>api/vms.py\<close> that write, \<open>core/plan_generation.py\<close>, \<open>core/startup.py\<close>; \<open>Plan_Edit\<close> with
    \<open>Plan_Edit_Properties\<close>, \<open>Plan_Edit_Effects\<close>, \<open>Plan_Edit_Guarantees\<close>: \<open>core/plan_edit.py\<close>,
    \<open>api/plan_edits.py\<close>.
  \<^item> \<open>Plan_System\<close>, \<open>Plan_Creation\<close>, \<open>Plan_Workflow\<close>, \<open>Plan_Examples\<close>: requests and background tasks as
    steps on the tables, the invariant between machines and plans in every reachable state, and an
    installation worked through.
  \<^item> \<open>Guest_State\<close>, \<open>Collection_Diff\<close>, \<open>Collection_Engine\<close>, \<open>Collection_Batch\<close>: the collected state and
    \<open>core/collection/\<close> (\<open>diff.py\<close>, \<open>engine.py\<close>, \<open>collector_spec.py\<close>, \<open>orchestrator.py\<close>); \<open>Wave_Jobs\<close>,
    \<open>Wave_Jobs_Properties\<close>: \<open>wave_jobs.py\<close>, \<open>api/waves.py\<close>, the run rows.
  \<^item> \<open>State_Diff\<close>, \<open>LLM_Validation\<close>: \<open>compute_diff\<close> and the verdict checks of \<open>core/llm/client.py\<close>;
    \<open>Validation_Tiers\<close>, \<open>Validation_Cache\<close>: \<open>core/validation_tiers.py\<close>, \<open>core/validation_cache.py\<close>;
    \<open>Validation_Run\<close>, \<open>Validation_Properties\<close>: \<open>core/validation.py\<close>, \<open>core/bulk_validation.py\<close>,
    \<open>api/validations.py\<close>.
  \<^item> \<open>Command_Guard\<close>, \<open>Command_Guard_Properties\<close>: the gate \<open>core/ssh_guard.py\<close>; \<open>Command_Sets\<close>:
    \<open>core/commands.py\<close>, \<open>core/os_profile.py\<close>; \<open>Ssh_Session\<close>, \<open>Ssh_Properties\<close>: \<open>core/ssh.py\<close> and the
    connect method of \<open>core/collection/engine.py\<close>. Only admitted commands run, none of the tables is
    refused, and the gaps of the gate are worked out.
  \<^item> \<open>Baseline_Capture\<close>, \<open>Capture_Runs\<close>, \<open>Capture_Steps\<close>: \<open>core/capture.py\<close>, \<open>core/scheduler.py\<close>, the capture
    endpoints of \<open>api/vms.py\<close> and \<open>api/snapshots.py\<close>; \<open>Bulk_Capture\<close>: \<open>core/bulk_capture.py\<close>;
    \<open>Baseline_Profile\<close>: \<open>core/baseline.py\<close>; \<open>Validation_Schedules\<close>: \<open>api/validation_schedules.py\<close>. Snapshots stay
    numbered without gaps however captures overlap; what runs over many machines store and count.
  \<^item> \<open>Platform_Features\<close>: \<open>core/platform_features.py\<close>; \<open>Mapping_Checks\<close>,
    \<open>Mapping_Checks_Properties\<close>: \<open>core/mapping_checks.py\<close>. Findings are merged without loss, and a mapping
    without blocking findings keeps static addresses inside the subnets of their network.

  \<^bold>\<open>State.\<close> Tables are lists of row records; a request is a function from the tables to an error or new
  tables, so a transaction that fails leaves them alone. Background tasks and start-up are functions
  of the same kind; \<open>Plan_Workflow\<close>, \<open>Collection_Batch\<close>, \<open>Capture_Steps\<close> and \<open>Bulk_Capture\<close> order them by
  inductive step relations, so every interleaving of the steps is covered. Dicts and sets whose order reaches a result are lists.

  \<^bold>\<open>Interfaces.\<close> The lemmas that several parts share are proved once in locales: \<open>vm_expander\<close> for the
  functions that replace groups by groups of the same machines, \<open>result_recorder\<close> for the two run
  tasks that write one result per machine, and those named in the theories concerned. Each is
  interpreted on the definitions of the model that provide it.

  \<^bold>\<open>Parameters.\<close> What the code asks of the outside is an argument: the clock, the replies of the
  language model, the outcome of an SSH session, the digest of a cache key, the schema check of
  a rendered document, the order in which Python iterates a set, the environment flags. No law is
  assumed of them except where a statement says so (an injective digest, a clock that does not run
  backwards).

  \<^bold>\<open>Bounds.\<close> Recursion is structural or has a measure. Where a loop is given fuel, the theories prove that
  the fuel used is enough: the search for a wave inspects at most one wave more than exist
  (\<open>assign_waves_total\<close>), a batch takes finitely many steps (\<open>batch_completes\<close>). Python's integers are
  \<open>int\<close> and \<open>nat\<close>; addresses and masks, in \<open>Mapping_Checks\<close>, are 32-bit words (IPv4 only).

  \<^bold>\<open>Not modelled.\<close> Operator texts, log lines and prose; text outside ASCII; paging, listing and report
  endpoints, which only read; the transports to the language models and the prompts; the transport of
  SSH, the decoding of its output, the loading of keys and the collectors of Windows guests; the
  spreadsheet and catalog importers, whose rows are the input here; mapping suggestions and design
  reviews, which no decision reads; \<open>core/planner.py\<close>, which no module imports any more; the timers
  that start the modelled tasks; configuration, schema migrations, documentation scripts
  and the browser client.
\<close>

end
